(* ===== verification/Py_Float.thy ===== *)
theory Py_Float
  imports Complex_Main "HOL-Library.Log_Nat"
begin

text \<open>
  Python's \<open>float\<close>: IEEE-754 binary64. A finite float is the rational number it denotes;
  an arithmetic operation computes the exact rational result and rounds it to the nearest
  representable value, ties to even (\<open>fl\<close>). The sign of zero is not represented: the
  program never prints or divides by a zero where it would show. The lemmas give what the
  components rely on: rounding is monotone, exact on integers below \<open>2 ^ 53\<close>, and has a
  relative error of at most \<open>2 powi (-53)\<close> above the subnormal range.
\<close>

datatype pyfloat = Fl rat | PosInf | NegInf | NaN

section \<open>Binary logarithm and rounding to an integer\<close>

text \<open>\<open>ilog2 x\<close> is the floor of the binary logarithm of a positive rational.\<close>

definition ilog2 :: "rat \<Rightarrow> int" where
  "ilog2 x =
     (let (n, d) = quotient_of x; k = bitlen n - bitlen d
      in if 2 powi k \<le> x then k else k - 1)"

definition round_half_even :: "rat \<Rightarrow> int" where
  "round_half_even x =
     (let f = \<lfloor>x\<rfloor>; r = x - of_int f
      in if r < 1 / 2 then f
         else if r > 1 / 2 then f + 1
         else if even f then f else f + 1)"

text \<open>The exponent of the last place of the binade of \<open>x\<close>, with gradual underflow.\<close>

definition ulp_exp :: "rat \<Rightarrow> int" where
  "ulp_exp x = max (ilog2 x - 52) (- 1074)"

definition rnd_pos :: "rat \<Rightarrow> rat" where
  "rnd_pos x =
     (if x \<le> 0 then 0
      else of_int (round_half_even (x / 2 powi ulp_exp x)) * 2 powi ulp_exp x)"

text \<open>The first magnitude that is out of range.\<close>

definition fl_limit :: rat where
  "fl_limit = 2 ^ 1024"

lemma fl_limit_code [code]:
  "fl_limit = 179769313486231590772930519078902473361797697894230657273430081157732675805500963132708477322407536021120113879871393357658789768814416622492847430639474124377767893424865485276302219601246094119453082952085005768838150682342462881473913110540827237163350510684586298239947245938479716304835356329624224137216"
  by (simp add: fl_limit_def)

definition fl :: "rat \<Rightarrow> pyfloat" where
  "fl x =
     (if 0 \<le> x
      then (let y = rnd_pos x in if y < fl_limit then Fl y else PosInf)
      else (let y = rnd_pos (- x) in if y < fl_limit then Fl (- y) else NegInf))"

section \<open>Facts on powers of two and on the logarithm\<close>

lemma powi2_pos [simp]: "(0::rat) < 2 powi k"
  by (simp add: zero_less_power_int)

lemma powi2_less_iff [simp]: "(2::rat) powi k < 2 powi l \<longleftrightarrow> k < l"
  using power_int_strict_increasing [of k l "2::rat"] power_int_increasing [of l k "2::rat"]
  by (metis linorder_not_less one_le_numeral one_less_numeral_iff semiring_norm(76))

lemma powi2_le_iff [simp]: "(2::rat) powi k \<le> 2 powi l \<longleftrightarrow> k \<le> l"
  by (simp flip: not_less)

lemma powi2_add: "(2::rat) powi (k + l) = 2 powi k * 2 powi l"
  by (rule power_int_add) simp

lemma powi2_diff: "(2::rat) powi (k - l) = 2 powi k / 2 powi l"
  by (rule power_int_diff) simp

lemma bitlen_bounds_rat:
  assumes "0 < (n::int)"
  shows "2 powi (bitlen n - 1) \<le> (of_int n :: rat)" "(of_int n :: rat) < 2 powi bitlen n"
proof -
  have b: "2 ^ nat (bitlen n - 1) \<le> n" "n < 2 ^ nat (bitlen n)"
    using bitlen_bounds [OF assms] by auto
  have p: "0 < bitlen n"
    using assms bitlen_nonneg bitlen_eq_zero_iff by (metis linorder_not_less order_less_le)
  have "(of_int (2 ^ nat (bitlen n - 1)) :: rat) \<le> of_int n"
    using b(1) by (simp only: of_int_le_iff)
  then show "2 powi (bitlen n - 1) \<le> (of_int n :: rat)"
    using p by (simp add: power_int_def)
  have "(of_int n :: rat) < of_int (2 ^ nat (bitlen n))"
    using b(2) by (simp only: of_int_less_iff)
  then show "(of_int n :: rat) < 2 powi bitlen n"
    using p by (simp add: power_int_def)
qed

lemma ilog2_bounds:
  assumes "0 < x"
  shows "2 powi ilog2 x \<le> x" "x < 2 powi (ilog2 x + 1)"
proof -
  obtain n d where q: "quotient_of x = (n, d)" by (cases "quotient_of x")
  have d: "0 < d" using q by (rule quotient_of_denom_pos)
  have x: "x = of_int n / of_int d" using q by (rule quotient_of_div)
  have n: "0 < n" using assms d unfolding x by (simp add: zero_less_divide_iff)
  define k where "k = bitlen n - bitlen d"
  note bn = bitlen_bounds_rat [OF n] and bd = bitlen_bounds_rat [OF d]
  have "of_int n < (2::rat) powi (k + 1) * of_int d"
  proof -
    have "(2::rat) powi bitlen n = 2 powi (k + 1) * 2 powi (bitlen d - 1)"
      by (simp add: k_def flip: powi2_add)
    also have "\<dots> \<le> 2 powi (k + 1) * of_int d"
      using bd(1) by (simp add: mult_left_mono)
    finally show ?thesis using bn(2) by linarith
  qed
  then have hi: "x < 2 powi (k + 1)"
    using d by (simp add: x pos_divide_less_eq)
  have "(2::rat) powi (k - 1) * of_int d \<le> of_int n"
  proof -
    have "(2::rat) powi (k - 1) * of_int d \<le> 2 powi (k - 1) * 2 powi bitlen d"
      using bd(2) by (simp add: mult_left_mono)
    also have "\<dots> = 2 powi (bitlen n - 1)"
      by (simp add: k_def flip: powi2_add)
    finally show ?thesis using bn(1) by linarith
  qed
  then have lo: "2 powi (k - 1) \<le> x"
    using d by (simp add: x pos_le_divide_eq)
  show "2 powi ilog2 x \<le> x" "x < 2 powi (ilog2 x + 1)"
    using hi lo by (auto simp: ilog2_def q k_def [symmetric] not_le)
qed

lemma ilog2_mono: "0 < x \<Longrightarrow> x \<le> y \<Longrightarrow> ilog2 x \<le> ilog2 y"
proof -
  assume a: "0 < x" "x \<le> y"
  have "(2::rat) powi ilog2 x < 2 powi (ilog2 y + 1)"
    using ilog2_bounds(1) [OF a(1)] ilog2_bounds(2) [of y] a by linarith
  then show ?thesis by simp
qed

lemma ilog2_eqI: "2 powi e \<le> x \<Longrightarrow> x < 2 powi (e + 1) \<Longrightarrow> ilog2 x = e"
proof -
  assume a: "2 powi e \<le> x" "x < 2 powi (e + 1)"
  have x: "0 < x" using a(1) powi2_pos [of e] by linarith
  have "(2::rat) powi e < 2 powi (ilog2 x + 1)" "(2::rat) powi ilog2 x < 2 powi (e + 1)"
    using a ilog2_bounds [OF x] by linarith+
  then show ?thesis by simp
qed

section \<open>Rounding to an integer\<close>

lemma round_half_even_of_int [simp]: "round_half_even (of_int n) = n"
  by (simp add: round_half_even_def)

lemma round_half_even_error: "\<bar>of_int (round_half_even x) - x\<bar> \<le> 1 / 2"
  unfolding round_half_even_def Let_def
  using floor_correct [of x] by (auto simp: abs_le_iff)

lemma round_half_even_mono:
  assumes "x \<le> y" shows "round_half_even x \<le> round_half_even y"
proof (cases "\<lfloor>x\<rfloor> = \<lfloor>y\<rfloor>")
  case True
  then show ?thesis using assms by (auto simp: round_half_even_def Let_def)
next
  case False
  then have "\<lfloor>x\<rfloor> + 1 \<le> \<lfloor>y\<rfloor>" using floor_mono [OF assms] by linarith
  then show ?thesis by (auto simp: round_half_even_def Let_def)
qed

lemma round_half_even_le_of_int: "x \<le> of_int n \<Longrightarrow> round_half_even x \<le> n"
  using round_half_even_mono [of x "of_int n"] by simp

lemma round_half_even_ge_of_int: "of_int n \<le> x \<Longrightarrow> n \<le> round_half_even x"
  using round_half_even_mono [of "of_int n" x] by simp

section \<open>Rounding to binary64\<close>

lemma rnd_pos_nonpos [simp]: "x \<le> 0 \<Longrightarrow> rnd_pos x = 0"
  by (simp add: rnd_pos_def)

lemma rnd_pos_nonneg [simp]: "0 \<le> rnd_pos x"
proof (cases "x \<le> 0")
  case False
  then have "of_int 0 \<le> x / 2 powi ulp_exp x" by simp
  then have "0 \<le> round_half_even (x / 2 powi ulp_exp x)"
    by (rule round_half_even_ge_of_int)
  with False show ?thesis by (simp add: rnd_pos_def)
qed simp

lemma rnd_pos_error: "0 < x \<Longrightarrow> \<bar>rnd_pos x - x\<bar> \<le> 2 powi ulp_exp x / 2"
proof -
  assume x: "0 < x"
  let ?q = "2 powi ulp_exp x :: rat"
  have "\<bar>rnd_pos x - x\<bar> = \<bar>of_int (round_half_even (x / ?q)) - x / ?q\<bar> * ?q"
  proof -
    have "rnd_pos x - x = (of_int (round_half_even (x / ?q)) - x / ?q) * ?q"
      using x by (simp add: rnd_pos_def left_diff_distrib)
    then show ?thesis by (simp add: abs_mult)
  qed
  also have "\<dots> \<le> 1 / 2 * ?q"
    by (rule mult_right_mono [OF round_half_even_error]) simp
  finally show ?thesis by simp
qed

text \<open>A value that is a multiple of a coarser unit bounds the rounded value.\<close>

lemma rnd_pos_le_powi:
  assumes "0 < x" "x \<le> 2 powi e" "ulp_exp x \<le> e"
  shows "rnd_pos x \<le> 2 powi e"
proof -
  let ?u = "ulp_exp x"
  have i: "(2::rat) powi (e - ?u) = of_int (2 ^ nat (e - ?u))"
    using assms(3) by (simp add: power_int_def)
  have "x / 2 powi ?u \<le> of_int (2 ^ nat (e - ?u))"
    unfolding i [symmetric] powi2_diff using assms(2) by (rule divide_right_mono) simp
  then have "round_half_even (x / 2 powi ?u) \<le> 2 ^ nat (e - ?u)"
    by (rule round_half_even_le_of_int)
  then have "(of_int (round_half_even (x / 2 powi ?u)) :: rat) \<le> of_int (2 ^ nat (e - ?u))"
    by (simp only: of_int_le_iff)
  then have "of_int (round_half_even (x / 2 powi ?u)) * (2::rat) powi ?u \<le> 2 powi (e - ?u) * 2 powi ?u"
    by (simp only: i mult_right_mono powi2_pos less_imp_le)
  then show ?thesis using assms(1) by (simp add: rnd_pos_def flip: powi2_add)
qed

lemma rnd_pos_ge_powi:
  assumes "2 powi e \<le> x" "ulp_exp x \<le> e"
  shows "2 powi e \<le> rnd_pos x"
proof -
  let ?u = "ulp_exp x"
  have x: "0 < x" using assms(1) powi2_pos [of e] by linarith
  have i: "(2::rat) powi (e - ?u) = of_int (2 ^ nat (e - ?u))"
    using assms(2) by (simp add: power_int_def)
  have "of_int (2 ^ nat (e - ?u)) \<le> x / 2 powi ?u"
    unfolding i [symmetric] powi2_diff using assms(1) by (rule divide_right_mono) simp
  then have "2 ^ nat (e - ?u) \<le> round_half_even (x / 2 powi ?u)"
    by (rule round_half_even_ge_of_int)
  then have "(of_int (2 ^ nat (e - ?u)) :: rat) \<le> of_int (round_half_even (x / 2 powi ?u))"
    by (simp only: of_int_le_iff)
  then have "(2::rat) powi (e - ?u) * 2 powi ?u \<le> of_int (round_half_even (x / 2 powi ?u)) * 2 powi ?u"
    by (simp only: i mult_right_mono powi2_pos less_imp_le)
  then show ?thesis using x by (simp add: rnd_pos_def flip: powi2_add)
qed

lemma rnd_pos_mono: assumes "x \<le> y" shows "rnd_pos x \<le> rnd_pos y"
proof (cases "0 < x")
  case False
  then show ?thesis by simp
next
  case x: True
  then have y: "0 < y" using assms by linarith
  show ?thesis
  proof (cases "ulp_exp x = ulp_exp y")
    case True
    have "round_half_even (x / 2 powi ulp_exp y) \<le> round_half_even (y / 2 powi ulp_exp y)"
      by (rule round_half_even_mono) (simp add: assms divide_right_mono)
    with True x y show ?thesis by (simp add: rnd_pos_def)
  next
    case False
    with ilog2_mono [OF x assms] have l: "ulp_exp x < ulp_exp y" "ilog2 x < ilog2 y"
        "ulp_exp y = ilog2 y - 52"
      by (auto simp: ulp_exp_def max_def split: if_splits)
    have xe: "x \<le> 2 powi (ilog2 x + 1)" using ilog2_bounds [OF x] by linarith
    then have "x \<le> 2 powi ilog2 y" using l(2) by (meson order_trans powi2_le_iff zless_imp_add1_zle)
    moreover have "ulp_exp x \<le> ilog2 y" using l by linarith
    ultimately have "rnd_pos x \<le> 2 powi ilog2 y" using x by (intro rnd_pos_le_powi)
    also have "\<dots> \<le> rnd_pos y"
      using ilog2_bounds [OF y] l(3) by (intro rnd_pos_ge_powi) auto
    finally show ?thesis .
  qed
qed

text \<open>Values on the grid are kept: in particular every integer below \<open>2 ^ 53\<close>.\<close>

lemma rnd_pos_grid:
  assumes "0 < x" "x = of_int k * 2 powi ulp_exp x" shows "rnd_pos x = x"
proof -
  have "x / 2 powi ulp_exp x = of_int k"
    using assms(2) powi2_pos [of "ulp_exp x"] by (metis nonzero_mult_div_cancel_right less_irrefl)
  then show ?thesis using assms by (simp add: rnd_pos_def)
qed

lemma rnd_pos_of_int:
  assumes "0 \<le> n" "n < 2 ^ 53" shows "rnd_pos (of_int n) = of_int n"
proof (cases "n = 0")
  case False
  with assms have n: "0 < n" by simp
  then have "(2::rat) powi ilog2 (of_int n) \<le> of_int n" by (intro ilog2_bounds) simp
  also have "(of_int n :: rat) < of_int (2 ^ 53)" using assms(2) by (simp only: of_int_less_iff)
  also have "(of_int (2 ^ 53) :: rat) = 2 powi 53" by (simp add: power_int_def)
  finally have u: "ulp_exp (of_int n) \<le> 0" unfolding powi2_less_iff by (simp add: ulp_exp_def)
  have "(of_int n :: rat) = of_int (n * 2 ^ nat (- ulp_exp (of_int n))) * 2 powi ulp_exp (of_int n)"
    using u by (simp add: power_int_def power_one_over)
  moreover have "(0::rat) < of_int n" using n by simp
  ultimately show ?thesis by (intro rnd_pos_grid)
qed simp

lemma rnd_pos_rel_error:
  assumes "1 \<le> x" shows "\<bar>rnd_pos x - x\<bar> \<le> x / 2 ^ 53"
proof -
  have x: "0 < x" using assms by linarith
  have "0 \<le> ilog2 x"
  proof -
    have "(2::rat) powi 0 < 2 powi (ilog2 x + 1)" using ilog2_bounds(2) [OF x] assms by simp
    then show ?thesis unfolding powi2_less_iff by linarith
  qed
  then have u: "ulp_exp x = ilog2 x - 52" by (simp add: ulp_exp_def)
  have "\<bar>rnd_pos x - x\<bar> \<le> 2 powi (ilog2 x - 52) / 2" using rnd_pos_error [OF x] u by simp
  also have "\<dots> = 2 powi ilog2 x / 2 ^ 53" unfolding powi2_diff by simp
  also have "\<dots> \<le> x / 2 ^ 53" using ilog2_bounds [OF x] by (simp add: divide_right_mono)
  finally show ?thesis .
qed

section \<open>Order\<close>

text \<open>Python's \<open><=\<close> and \<open><\<close> on floats; every comparison with a NaN is false.\<close>

fun f_le :: "pyfloat \<Rightarrow> pyfloat \<Rightarrow> bool" where
  "f_le NaN _ = False"
| "f_le _ NaN = False"
| "f_le NegInf _ = True"
| "f_le _ PosInf = True"
| "f_le (Fl x) (Fl y) = (x \<le> y)"
| "f_le _ _ = False"

fun f_lt :: "pyfloat \<Rightarrow> pyfloat \<Rightarrow> bool" where
  "f_lt NaN _ = False"
| "f_lt _ NaN = False"
| "f_lt NegInf y = (y \<noteq> NegInf)"
| "f_lt PosInf _ = False"
| "f_lt (Fl x) (Fl y) = (x < y)"
| "f_lt (Fl x) PosInf = True"
| "f_lt (Fl x) NegInf = False"

fun is_finite :: "pyfloat \<Rightarrow> bool" where
  "is_finite (Fl _) = True"
| "is_finite _ = False"

text \<open>Products, sums, differences and quotients, each rounded once. Division by zero is an
  exception and is treated where a component divides.\<close>

definition f_sign :: "pyfloat \<Rightarrow> rat" where
  "f_sign x = (case x of Fl a \<Rightarrow> sgn a | PosInf \<Rightarrow> 1 | NegInf \<Rightarrow> -1 | NaN \<Rightarrow> 0)"

definition f_mul :: "pyfloat \<Rightarrow> pyfloat \<Rightarrow> pyfloat" where
  "f_mul x y = (case (x, y) of
     (Fl a, Fl b) \<Rightarrow> fl (a * b)
   | _ \<Rightarrow> if 0 < f_sign x * f_sign y then PosInf else if f_sign x * f_sign y < 0 then NegInf else NaN)"

definition f_add :: "pyfloat \<Rightarrow> pyfloat \<Rightarrow> pyfloat" where
  "f_add x y = (case (x, y) of
     (Fl a, Fl b) \<Rightarrow> fl (a + b)
   | (NaN, _) \<Rightarrow> NaN | (_, NaN) \<Rightarrow> NaN
   | (PosInf, NegInf) \<Rightarrow> NaN | (NegInf, PosInf) \<Rightarrow> NaN
   | (Fl _, y) \<Rightarrow> y | (x, _) \<Rightarrow> x)"

definition f_neg :: "pyfloat \<Rightarrow> pyfloat" where
  "f_neg x = (case x of Fl a \<Rightarrow> Fl (- a) | PosInf \<Rightarrow> NegInf | NegInf \<Rightarrow> PosInf | NaN \<Rightarrow> NaN)"

definition f_sub :: "pyfloat \<Rightarrow> pyfloat \<Rightarrow> pyfloat" where
  "f_sub x y = f_add x (f_neg y)"

definition f_div :: "pyfloat \<Rightarrow> pyfloat \<Rightarrow> pyfloat" where
  "f_div x y = (case (x, y) of
     (Fl a, Fl b) \<Rightarrow> fl (a / b)
   | (NaN, _) \<Rightarrow> NaN | (_, NaN) \<Rightarrow> NaN
   | (Fl _, _) \<Rightarrow> Fl 0
   | (_, Fl b) \<Rightarrow> if (0 \<le> b) = (x = PosInf) then PosInf else NegInf
   | _ \<Rightarrow> NaN)"

lemma fl_mono: "x \<le> y \<Longrightarrow> f_le (fl x) (fl y)"
proof -
  assume a: "x \<le> y"
  have m: "rnd_pos x \<le> rnd_pos y" "rnd_pos (- y) \<le> rnd_pos (- x)"
    using a by (auto intro: rnd_pos_mono)
  have n: "0 \<le> rnd_pos y" "0 \<le> rnd_pos (- x)" by simp_all
  show ?thesis
    using a m n by (auto simp: fl_def Let_def intro: order_trans [of _ 0])
qed

lemma fl_of_int: "\<bar>n\<bar> < 2 ^ 53 \<Longrightarrow> fl (of_int n) = Fl (of_int n)"
proof -
  assume n: "\<bar>n\<bar> < 2 ^ 53"
  have lt: "\<bar>of_int n :: rat\<bar> < fl_limit"
  proof -
    have "\<bar>of_int n :: rat\<bar> < of_int (2 ^ 53)" using n by (simp only: of_int_less_iff flip: of_int_abs)
    also have "\<dots> < fl_limit" by (simp add: fl_limit_def)
    finally show ?thesis .
  qed
  show ?thesis
    using n lt rnd_pos_of_int [of n] rnd_pos_of_int [of "- n"]
    by (cases "0 \<le> n") (auto simp: fl_def Let_def abs_if split: if_splits)
qed

lemma fl_of_nat_numeral: "fl 0 = Fl 0" "fl 1 = Fl 1"
  using fl_of_int [of 0] fl_of_int [of 1] by simp_all

lemma fl_in_range:
  assumes "0 \<le> x" "x \<le> 2 ^ 1023"
  shows "\<exists>y. fl x = Fl y"
proof (cases "x = 0")
  case False
  then have x: "0 < x" "x \<le> 2 powi int 1023" using assms by (simp_all only: power_int_of_nat)
  have "ilog2 (2 powi int 1023) = int 1023" by (rule ilog2_eqI) (simp_all only: order_refl powi2_less_iff)
  then have "ulp_exp x \<le> int 1023" using ilog2_mono [OF x] by (simp add: ulp_exp_def)
  from rnd_pos_le_powi [OF x this] have "rnd_pos x \<le> 2 powi int 1023" .
  also have "(2 :: rat) powi int 1023 < 2 powi int 1024" by (simp only: powi2_less_iff)
  finally have "rnd_pos x < fl_limit" by (simp only: power_int_of_nat fl_limit_def)
  then show ?thesis using assms(1) by (simp add: fl_def Let_def)
qed (simp add: fl_of_nat_numeral)

end
