(* ===== verification/Py_Prelude.thy ===== *)
theory Py_Prelude
  imports Py_Float "HOL-Library.AList" "HOL-Library.Char_ord" "HOL-Library.List_Lexorder"
begin

text \<open>
  The part of Python that \<open>src/benchctl\<close> uses, as a shallow embedding shared by every
  component: dynamically typed values as \<open>json.loads\<close> makes them, exceptions as values of
  a sum type, dictionaries as association lists in insertion order, \<open>==\<close>, \<open><\<close>,
  truth values, \<open>.get\<close> and subscripts with the exceptions the interpreter raises, decimal
  printing and parsing, and the loops \<open>mapE\<close> and \<open>foldE\<close>. Strings are sequences of 8-bit
  characters; keys of dictionaries are strings (JSON) or integers (the node ids of
  \<open>protocol.statuses\<close>).
\<close>

named_theorems py_simps \<open>unfolding rules for the operations on Python values\<close>
named_theorems py_intros \<open>introduction rules for well-formedness of Python values\<close>

section \<open>Values and exceptions\<close>

datatype pykey = KStr string | KInt int

datatype pyval =
    PNone
  | PBool bool
  | PInt int
  | PFloat pyfloat
  | PStr string
  | PList "pyval list"
  | PDict "(pykey \<times> pyval) list"

datatype exc_class =
    ValueError | KeyError | TypeError | AttributeError | IndexError
  | ZeroDivisionError | OverflowError | TimeoutError | OSError | RuntimeError | RecursionError | StopIteration

text \<open>An exception: its class and \<open>str(exc)\<close>.\<close>

datatype pyexc = PyExc (class_of: exc_class) (str_of: string)

type_synonym 'a res = "pyexc + 'a"
type_synonym pydict = "(pykey \<times> pyval) list"

abbreviation kv :: "string \<Rightarrow> pyval \<Rightarrow> pykey \<times> pyval" where
  "kv k v \<equiv> (KStr k, v)"

definition raiseE :: "exc_class \<Rightarrow> string \<Rightarrow> 'a res" where
  "raiseE c s = Inl (PyExc c s)"

definition raise_if :: "bool \<Rightarrow> exc_class \<Rightarrow> string \<Rightarrow> unit res" where
  "raise_if b c s = (if b then Inl (PyExc c s) else Inr ())"

definition bindE :: "'e + 'a \<Rightarrow> ('a \<Rightarrow> 'e + 'b) \<Rightarrow> 'e + 'b" where
  "bindE m f = (case m of Inl e \<Rightarrow> Inl e | Inr x \<Rightarrow> f x)"

text \<open>\<open>try: m except (classes) as exc: h exc\<close>\<close>

definition catchE :: "exc_class set \<Rightarrow> 'a res \<Rightarrow> (pyexc \<Rightarrow> 'a res) \<Rightarrow> 'a res" where
  "catchE cs m h = (case m of Inl e \<Rightarrow> if class_of e \<in> cs then h e else Inl e | Inr x \<Rightarrow> Inr x)"

text \<open>Loops that may raise: a comprehension, and a loop over an accumulator.\<close>

fun mapE :: "('a \<Rightarrow> 'e + 'b) \<Rightarrow> 'a list \<Rightarrow> 'e + 'b list" where
  "mapE f [] = Inr []"
| "mapE f (x # xs) = bindE (f x) (\<lambda>y. bindE (mapE f xs) (\<lambda>ys. Inr (y # ys)))"

fun foldE :: "('s \<Rightarrow> 'a \<Rightarrow> 'e + 's) \<Rightarrow> 's \<Rightarrow> 'a list \<Rightarrow> 'e + 's" where
  "foldE f s [] = Inr s"
| "foldE f s (x # xs) = bindE (f s x) (\<lambda>s'. foldE f s' xs)"

text \<open>\<open>any(f(x) for x in xs)\<close> stops at the first true value.\<close>

fun anyE :: "('a \<Rightarrow> 'e + bool) \<Rightarrow> 'a list \<Rightarrow> 'e + bool" where
  "anyE f [] = Inr False"
| "anyE f (x # xs) = bindE (f x) (\<lambda>b. if b then Inr True else anyE f xs)"

text \<open>Code in a \<open>try\<close> block that updates local state keeps the updates made before an
  exception: an action returns the state also when it raises.\<close>

type_synonym ('s, 'a) act = "'s \<Rightarrow> 'a res \<times> 's"

definition liftA :: "'a res \<Rightarrow> ('s, 'a) act" where
  "liftA r s = (r, s)"

definition bindA :: "('s, 'a) act \<Rightarrow> ('a \<Rightarrow> ('s, 'b) act) \<Rightarrow> ('s, 'b) act" where
  "bindA m f s = (case m s of (Inl e, s') \<Rightarrow> (Inl e, s') | (Inr x, s') \<Rightarrow> f x s')"

definition modifyA :: "('s \<Rightarrow> 's) \<Rightarrow> ('s, unit) act" where
  "modifyA f s = (Inr (), f s)"

definition whenA :: "bool \<Rightarrow> ('s, unit) act \<Rightarrow> ('s, unit) act" where
  "whenA b m = (if b then m else liftA (Inr ()))"

text \<open>The state after an action with \<open>except (classes) as exc: h exc\<close>.\<close>

definition tryA :: "exc_class set \<Rightarrow> ('s, unit) act \<Rightarrow> (pyexc \<Rightarrow> 's \<Rightarrow> 's) \<Rightarrow> 's \<Rightarrow> 's res" where
  "tryA cs m h s = (case m s of
     (Inr _, s') \<Rightarrow> Inr s'
   | (Inl e, s') \<Rightarrow> if class_of e \<in> cs then Inr (h e s') else Inl e)"

lemma bindE_simps [simp]: "bindE (Inl e) f = Inl e" "bindE (Inr x) f = f x"
  by (simp_all add: bindE_def)

lemma bindE_eq_Inr [simp]: "bindE m f = Inr y \<longleftrightarrow> (\<exists>x. m = Inr x \<and> f x = Inr y)"
  by (cases m) simp_all

lemma bindE_eq_Inl: "bindE m f = Inl e \<longleftrightarrow> m = Inl e \<or> (\<exists>x. m = Inr x \<and> f x = Inl e)"
  by (cases m) simp_all

lemma bindE_cong [fundef_cong]:
  "m = m' \<Longrightarrow> (\<And>x. m' = Inr x \<Longrightarrow> f x = f' x) \<Longrightarrow> bindE m f = bindE m' f'"
  by (cases m') simp_all

lemma raiseE_neq_Inr [simp]: "raiseE c s \<noteq> Inr x" "Inr x \<noteq> raiseE c s"
  by (simp_all add: raiseE_def)

lemma raise_if_eq_Inr [simp]: "raise_if b c s = Inr u \<longleftrightarrow> \<not> b"
  by (simp add: raise_if_def)

lemma raise_if_simps: "raise_if True c s = Inl (PyExc c s)" "raise_if False c s = Inr ()"
  by (simp_all add: raise_if_def)

lemma mapE_eq_Inr: "mapE f xs = Inr ys \<longleftrightarrow> list_all2 (\<lambda>x y. f x = Inr y) xs ys"
  by (induction xs arbitrary: ys) (auto simp: list_all2_Cons1)

lemma mapE_length: "mapE f xs = Inr ys \<Longrightarrow> length ys = length xs"
  by (auto simp: mapE_eq_Inr dest: list_all2_lengthD)

lemma mapE_mem: "mapE f xs = Inr ys \<Longrightarrow> y \<in> set ys \<Longrightarrow> \<exists>x\<in>set xs. f x = Inr y"
  by (induction xs arbitrary: ys) auto

lemma mapE_mem': "mapE f xs = Inr ys \<Longrightarrow> x \<in> set xs \<Longrightarrow> \<exists>y\<in>set ys. f x = Inr y"
  by (auto simp: mapE_eq_Inr in_set_conv_nth list_all2_conv_all_nth)

lemma mapE_Inr_map: "(\<And>x. x \<in> set xs \<Longrightarrow> f x = Inr (g x)) \<Longrightarrow> mapE f xs = Inr (map g xs)"
  by (induction xs) simp_all

lemma mapE_project:
  "mapE f xs = Inr ys \<Longrightarrow> (\<And>x y. f x = Inr y \<Longrightarrow> p y = q x) \<Longrightarrow> map p ys = map q xs"
  by (induction xs arbitrary: ys) auto

lemma foldE_append:
  "foldE f s (xs @ ys) = bindE (foldE f s xs) (\<lambda>s'. foldE f s' ys)"
  by (induction xs arbitrary: s) (simp_all add: bindE_def split: sum.split)

lemma foldE_preserve:
  "foldE f s xs = Inr t \<Longrightarrow> P s \<Longrightarrow>
   (\<And>s x s'. x \<in> set xs \<Longrightarrow> P s \<Longrightarrow> f s x = Inr s' \<Longrightarrow> P s') \<Longrightarrow> P t"
  by (induction xs arbitrary: s) auto

lemma foldE_grow:
  fixes g :: "'s \<Rightarrow> nat"
  shows "foldE f s xs = Inr t \<Longrightarrow> (\<And>s x s'. x \<in> set xs \<Longrightarrow> f s x = Inr s' \<Longrightarrow> g s' = g s + k) \<Longrightarrow> g t = g s + length xs * k"
  by (induction xs arbitrary: s) fastforce+

lemma foldE_each: "foldE f s xs = Inr t \<Longrightarrow> x \<in> set xs \<Longrightarrow> \<exists>s s'. f s x = Inr s'"
  by (induction xs arbitrary: s) auto

lemma anyE_eq_False: "anyE f xs = Inr False \<longleftrightarrow> (\<forall>x\<in>set xs. f x = Inr False)"
  by (induction xs) auto

text \<open>Invariants of actions: they hold also in the state that is left by an exception.\<close>

definition keeps :: "('s \<Rightarrow> bool) \<Rightarrow> ('s, 'a) act \<Rightarrow> bool" where
  "keeps I m \<longleftrightarrow> (\<forall>s. I s \<longrightarrow> I (snd (m s)))"

lemma keeps_liftA [py_intros]: "keeps I (liftA r)"
  by (simp add: keeps_def liftA_def)

lemma keeps_modifyA: "(\<And>s. I s \<Longrightarrow> I (f s)) \<Longrightarrow> keeps I (modifyA f)"
  by (simp add: keeps_def modifyA_def)

lemma keeps_bindA: "keeps I m \<Longrightarrow> (\<And>x. keeps I (f x)) \<Longrightarrow> keeps I (bindA m f)"
  unfolding keeps_def bindA_def by (force split: prod.splits sum.splits)

lemma keeps_bind_lift: "(\<And>x. r = Inr x \<Longrightarrow> keeps I (f x)) \<Longrightarrow> keeps I (bindA (liftA r) f)"
  by (cases r) (simp_all add: keeps_def bindA_def liftA_def)

lemma keeps_whenA: "(b \<Longrightarrow> keeps I m) \<Longrightarrow> keeps I (whenA b m)"
  by (simp add: whenA_def keeps_liftA)

lemma tryA_keeps:
  assumes "tryA cs m h s = Inr s'" "keeps I m" "I s" "\<And>e s. I s \<Longrightarrow> I (h e s)"
  shows "I s'"
proof -
  have "I (snd (m s))" using assms(2,3) by (simp add: keeps_def)
  then show ?thesis using assms(1,4) by (auto simp: tryA_def split: prod.splits sum.splits if_splits)
qed

lemma bindA_InrE:
  assumes "bindA m f s = (Inr x, t)"
  obtains y s' where "m s = (Inr y, s')" "f y s' = (Inr x, t)"
  using assms by (auto simp: bindA_def split: prod.splits sum.splits)

lemma liftA_Inr [simp]: "liftA r s = (Inr x, t) \<longleftrightarrow> r = Inr x \<and> t = s"
  by (auto simp: liftA_def)

lemma modifyA_Inr [simp]: "modifyA f s = (x, t) \<longleftrightarrow> x = Inr () \<and> t = f s"
  by (auto simp: modifyA_def)

text \<open>The Hoare rule for loops that return.\<close>

lemma foldE_invariant:
  assumes "foldE f s xs = Inr t" "P [] s"
    "\<And>done x rest s s'. xs = done @ x # rest \<Longrightarrow> P done s \<Longrightarrow> f s x = Inr s' \<Longrightarrow> P (done @ [x]) s'"
  shows "P xs t"
proof -
  have "P (done @ ys) t" if "foldE f s ys = Inr t" "P done s" "xs = done @ ys" for "done" s ys
    using that
  proof (induction ys arbitrary: "done" s)
    case Nil
    then show ?case by simp
  next
    case (Cons y ys)
    then obtain s' where s': "f s y = Inr s'" "foldE f s' ys = Inr t" by auto
    have "P (done @ [y]) s'" using assms(3) [OF Cons.prems(3) Cons.prems(2) s'(1)] .
    then show ?case using Cons.IH [OF s'(2), of "done @ [y]"] Cons.prems(3) by simp
  qed
  from this [of s xs "[]"] assms show ?thesis by simp
qed

section \<open>Decimal numerals\<close>

text \<open>The decimal digits of a number that is not negative.\<close>

function dec_str :: "int \<Rightarrow> string" where
  "dec_str i =
     (if i < 10 then [char_of (48 + i)] else dec_str (i div 10) @ [char_of (48 + i mod 10)])"
  by pat_completeness auto
termination
  by (relation "measure nat") auto

declare dec_str.simps [simp del]

definition int_str :: "int \<Rightarrow> string" where
  "int_str i = (if i < 0 then ''-'' @ dec_str (- i) else dec_str i)"

abbreviation nat_str :: "nat \<Rightarrow> string" where
  "nat_str n \<equiv> int_str (int n)"

definition is_digit :: "char \<Rightarrow> bool" where
  "is_digit c = (48 \<le> (of_char c :: int) \<and> (of_char c :: int) \<le> 57)"

definition digit_val :: "char \<Rightarrow> int" where
  "digit_val c = of_char c - 48"

text \<open>\<open>str.isdigit()\<close>, \<open>str.strip()\<close> and \<open>int(str)\<close>: surrounding white space and single
  underscores between digits are accepted, as the interpreter does.\<close>

definition str_isdigit :: "string \<Rightarrow> bool" where
  "str_isdigit s = (s \<noteq> [] \<and> list_all is_digit s)"

definition is_space :: "char \<Rightarrow> bool" where
  "is_space c = ((of_char c :: int) \<in> {9, 10, 11, 12, 13, 28, 29, 30, 31, 32, 133, 160})"

definition strip :: "string \<Rightarrow> string" where
  "strip s = rev (dropWhile is_space (rev (dropWhile is_space s)))"

fun parse_digits :: "bool \<Rightarrow> int \<Rightarrow> string \<Rightarrow> int option" where
  "parse_digits after_digit n [] = (if after_digit then Some n else None)"
| "parse_digits after_digit n (c # cs) =
     (if is_digit c then parse_digits True (10 * n + digit_val c) cs
      else if c = CHR ''_'' \<and> after_digit then parse_digits False n cs
      else None)"

definition quote :: "string \<Rightarrow> string" where
  "quote s = [CHR 0x27] @ s @ [CHR 0x27]"

definition parse_int :: "string \<Rightarrow> int res" where
  "parse_int s =
     (let t = strip s;
          (sign, body) = (case t of
             c # cs \<Rightarrow> if c = CHR ''-'' then (-1, cs) else if c = CHR ''+'' then (1, cs) else (1, t)
           | [] \<Rightarrow> (1, t))
      in case parse_digits False 0 body of
           Some n \<Rightarrow> Inr (sign * n)
         | None \<Rightarrow> raiseE ValueError (''invalid literal for int() with base 10: '' @ quote s))"

lemma is_digit_char_of: "0 \<le> k \<Longrightarrow> k < 10 \<Longrightarrow> is_digit (char_of (48 + k :: int))"
  by (simp add: is_digit_def)

lemma digit_val_char_of: "0 \<le> k \<Longrightarrow> k < 10 \<Longrightarrow> digit_val (char_of (48 + k :: int)) = k"
  by (simp add: digit_val_def)

lemma dec_str_digits: "0 \<le> i \<Longrightarrow> list_all is_digit (dec_str i)"
proof (induction i rule: dec_str.induct)
  case (1 i)
  then show ?case
    by (cases "i < 10") (simp_all add: dec_str.simps [of i] is_digit_char_of)
qed

lemma dec_str_nonempty [simp]: "dec_str i \<noteq> []"
  by (subst dec_str.simps) simp

lemma parse_digits_append:
  "list_all is_digit xs \<Longrightarrow> xs \<noteq> [] \<Longrightarrow>
   parse_digits b n (xs @ ys) = (case parse_digits b n xs of Some m \<Rightarrow> parse_digits True m ys | None \<Rightarrow> None)"
proof (induction xs arbitrary: b n)
  case (Cons x xs)
  then show ?case by (cases "xs = []") auto
qed simp

lemma parse_digits_dec_str [simp]: "0 \<le> i \<Longrightarrow> parse_digits b 0 (dec_str i) = Some i"
proof (induction i rule: dec_str.induct)
  case (1 i)
  show ?case
  proof (cases "i < 10")
    case True
    with 1 show ?thesis by (simp add: dec_str.simps [of i] is_digit_char_of digit_val_char_of)
  next
    case False
    with 1 have "list_all is_digit (dec_str (i div 10))" "parse_digits b 0 (dec_str (i div 10)) = Some (i div 10)"
      by (simp_all add: dec_str_digits)
    with False 1 show ?thesis
      by (simp add: dec_str.simps [of i] parse_digits_append is_digit_char_of digit_val_char_of)
  qed
qed

lemma str_isdigit_dec_str [simp]: "0 \<le> i \<Longrightarrow> str_isdigit (dec_str i)"
  by (simp add: str_isdigit_def dec_str_digits)

lemma dec_str_hd_neq: "0 \<le> i \<Longrightarrow> \<not> is_digit c \<Longrightarrow> dec_str i \<noteq> c # cs"
  using dec_str_digits [of i] by auto

lemma digit_not_space: "is_digit c \<Longrightarrow> \<not> is_space c"
  by (auto simp: is_digit_def is_space_def)

lemma strip_id: "s \<noteq> [] \<Longrightarrow> \<not> is_space (hd s) \<Longrightarrow> \<not> is_space (last s) \<Longrightarrow> strip s = s"
proof -
  assume a: "s \<noteq> []" "\<not> is_space (hd s)" "\<not> is_space (last s)"
  have "dropWhile is_space s = s" using a by (cases s) auto
  moreover have "dropWhile is_space (rev s) = rev s" using a by (cases s rule: rev_cases) auto
  ultimately show ?thesis by (simp add: strip_def)
qed

lemma hd_last_dec_str: "0 \<le> i \<Longrightarrow> is_digit (hd (dec_str i))" "0 \<le> i \<Longrightarrow> is_digit (last (dec_str i))"
  using dec_str_digits [of i] dec_str_nonempty [of i]
  by (metis list.set_sel(1) list_all_iff last_in_set)+

lemma strip_int_str [simp]: "strip (int_str i) = int_str i"
proof (rule strip_id)
  have "\<not> is_space (CHR ''-'')" by (simp add: is_space_def)
  then show "\<not> is_space (hd (int_str i))" "\<not> is_space (last (int_str i))" "int_str i \<noteq> []"
    using hd_last_dec_str [of i] hd_last_dec_str [of "- i"] digit_not_space
    by (auto simp: int_str_def)
qed

lemma parse_int_int_str [simp]: "parse_int (int_str i) = Inr i"
proof (cases "i < 0")
  case True
  then show ?thesis unfolding parse_int_def strip_int_str Let_def by (simp add: int_str_def)
next
  case False
  have m: "\<not> is_digit (CHR ''-'')" "\<not> is_digit (CHR ''+'')" by (simp_all add: is_digit_def)
  obtain c cs where c: "dec_str i = c # cs" by (cases "dec_str i") auto
  have "c \<noteq> CHR ''-''" "c \<noteq> CHR ''+''" using c m False dec_str_hd_neq by force+
  with False c show ?thesis
    using parse_digits_dec_str [of i False] unfolding parse_int_def strip_int_str Let_def
    by (simp add: int_str_def)
qed

lemma int_str_inject [simp]: "int_str i = int_str j \<longleftrightarrow> i = j"
  by (metis parse_int_int_str sum.inject(2))

section \<open>Operations on values\<close>

primrec type_name :: "pyval \<Rightarrow> string" where
  "type_name PNone = ''NoneType''"
| "type_name (PBool _) = ''bool''"
| "type_name (PInt _) = ''int''"
| "type_name (PFloat _) = ''float''"
| "type_name (PStr _) = ''str''"
| "type_name (PList _) = ''list''"
| "type_name (PDict _) = ''dict''"

primrec repr_key :: "pykey \<Rightarrow> string" where
  "repr_key (KStr s) = quote s"
| "repr_key (KInt i) = int_str i"

text \<open>\<open>str(key)\<close>\<close>

primrec key_str :: "pykey \<Rightarrow> string" where
  "key_str (KStr s) = s"
| "key_str (KInt i) = int_str i"

definition is_dict :: "pyval \<Rightarrow> bool" where
  "is_dict v = (case v of PDict _ \<Rightarrow> True | _ \<Rightarrow> False)"

definition is_list :: "pyval \<Rightarrow> bool" where
  "is_list v = (case v of PList _ \<Rightarrow> True | _ \<Rightarrow> False)"

definition is_str :: "pyval \<Rightarrow> bool" where
  "is_str v = (case v of PStr _ \<Rightarrow> True | _ \<Rightarrow> False)"

text \<open>\<open>type(v) is int and v >= 0\<close>\<close>

definition is_nonneg :: "pyval \<Rightarrow> bool" where
  "is_nonneg v = (case v of PInt i \<Rightarrow> 0 \<le> i | _ \<Rightarrow> False)"

text \<open>\<open>isinstance(v, int)\<close> holds of the booleans too, which then count as 0 and 1.\<close>

definition as_int :: "pyval \<Rightarrow> int option" where
  "as_int v = (case v of PInt i \<Rightarrow> Some i | PBool b \<Rightarrow> Some (if b then 1 else 0) | _ \<Rightarrow> None)"

primrec truthy :: "pyval \<Rightarrow> bool" where
  "truthy PNone = False"
| "truthy (PBool b) = b"
| "truthy (PInt i) = (i \<noteq> 0)"
| "truthy (PFloat x) = (x \<noteq> Fl 0)"
| "truthy (PStr s) = (s \<noteq> [])"
| "truthy (PList xs) = (xs \<noteq> [])"
| "truthy (PDict d) = (d \<noteq> [])"

text \<open>The exact value of a number, as comparisons see it.\<close>

definition num_of :: "pyval \<Rightarrow> pyfloat option" where
  "num_of v = (case v of
     PInt i \<Rightarrow> Some (Fl (of_int i))
   | PBool b \<Rightarrow> Some (Fl (if b then 1 else 0))
   | PFloat x \<Rightarrow> Some x
   | _ \<Rightarrow> None)"

definition num_eq :: "pyfloat \<Rightarrow> pyfloat \<Rightarrow> bool" where
  "num_eq x y = (x = y \<and> x \<noteq> NaN)"

text \<open>Python's \<open>==\<close>: numbers compare by value across types, dictionaries regardless of
  order, values of different kinds are unequal, a NaN is unequal to itself.\<close>

fun py_eq :: "pyval \<Rightarrow> pyval \<Rightarrow> bool"
  and py_eq_list :: "pyval list \<Rightarrow> pyval list \<Rightarrow> bool"
  and py_eq_items :: "pydict \<Rightarrow> pydict \<Rightarrow> bool" where
  "py_eq (PStr s) w = (w = PStr s)"
| "py_eq PNone w = (w = PNone)"
| "py_eq (PList xs) w = (case w of PList ys \<Rightarrow> py_eq_list xs ys | _ \<Rightarrow> False)"
| "py_eq (PDict d) w =
     (case w of PDict e \<Rightarrow> length d = length e \<and> py_eq_items d e | _ \<Rightarrow> False)"
| "py_eq v w = (case (num_of v, num_of w) of (Some x, Some y) \<Rightarrow> num_eq x y | _ \<Rightarrow> False)"
| "py_eq_list [] ys = (ys = [])"
| "py_eq_list (x # xs) ys = (case ys of [] \<Rightarrow> False | y # ys' \<Rightarrow> py_eq x y \<and> py_eq_list xs ys')"
| "py_eq_items [] e = True"
| "py_eq_items ((k, v) # d) e =
     ((case map_of e k of None \<Rightarrow> False | Some w \<Rightarrow> py_eq v w) \<and> py_eq_items d e)"

text \<open>\<open>v.get(k, default)\<close> and \<open>v[k]\<close> for a string key.\<close>

definition attr_error :: "pyval \<Rightarrow> string \<Rightarrow> 'a res" where
  "attr_error v name = raiseE AttributeError
     (quote (type_name v) @ '' object has no attribute '' @ quote name)"

definition dict_get :: "pydict \<Rightarrow> string \<Rightarrow> pyval \<Rightarrow> pyval" where
  "dict_get d k dflt = (case map_of d (KStr k) of None \<Rightarrow> dflt | Some v \<Rightarrow> v)"

definition get_or :: "pyval \<Rightarrow> string \<Rightarrow> pyval \<Rightarrow> pyval res" where
  "get_or v k dflt = (case v of PDict d \<Rightarrow> Inr (dict_get d k dflt) | _ \<Rightarrow> attr_error v ''get'')"

abbreviation get :: "pyval \<Rightarrow> string \<Rightarrow> pyval res" where
  "get v k \<equiv> get_or v k PNone"

definition item :: "pyval \<Rightarrow> string \<Rightarrow> pyval res" where
  "item v k = (case v of
     PDict d \<Rightarrow> (case map_of d (KStr k) of
        None \<Rightarrow> raiseE KeyError (quote k) | Some x \<Rightarrow> Inr x)
   | PList _ \<Rightarrow> raiseE TypeError ''list indices must be integers or slices, not str''
   | PStr _ \<Rightarrow> raiseE TypeError (''string indices must be integers, not '' @ quote ''str'')
   | _ \<Rightarrow> raiseE TypeError (quote (type_name v) @ '' object is not subscriptable''))"

text \<open>\<open>v.items()\<close>, \<open>v.values()\<close>\<close>

definition items :: "pyval \<Rightarrow> pydict res" where
  "items v = (case v of PDict d \<Rightarrow> Inr d | _ \<Rightarrow> attr_error v ''items'')"

definition values_of :: "pyval \<Rightarrow> pyval list res" where
  "values_of v = (case v of PDict d \<Rightarrow> Inr (map snd d) | _ \<Rightarrow> attr_error v ''values'')"

text \<open>Values that may be members of a set, keys of a dictionary or arguments of a cached
  function.\<close>

definition hashable :: "pyval \<Rightarrow> bool" where
  "hashable v = (case v of PList _ \<Rightarrow> False | PDict _ \<Rightarrow> False | _ \<Rightarrow> True)"

definition require_hashable :: "pyval \<Rightarrow> unit res" where
  "require_hashable v = raise_if (\<not> hashable v) TypeError
     (''unhashable type: '' @ quote (type_name v))"

text \<open>Iteration over a value, \<open>len(set(xs))\<close>, \<open>x in (...)\<close> and \<open>range(n)\<close>.\<close>

definition iter_of :: "pyval \<Rightarrow> pyval list res" where
  "iter_of v = (case v of
     PList xs \<Rightarrow> Inr xs
   | PStr s \<Rightarrow> Inr (map (\<lambda>c. PStr [c]) s)
   | PDict d \<Rightarrow> Inr (map (\<lambda>(k, _). case k of KStr s \<Rightarrow> PStr s | KInt i \<Rightarrow> PInt i) d)
   | _ \<Rightarrow> raiseE TypeError (quote (type_name v) @ '' object is not iterable''))"

definition py_in :: "pyval \<Rightarrow> pyval list \<Rightarrow> bool" where
  "py_in v xs = list_ex (\<lambda>x. py_eq x v) xs"

fun py_distinct :: "pyval list \<Rightarrow> bool" where
  "py_distinct [] = True"
| "py_distinct (x # xs) = (\<not> py_in x xs \<and> py_distinct xs)"

definition range_of :: "pyval \<Rightarrow> int list res" where
  "range_of v = (case as_int v of
     Some n \<Rightarrow> Inr [0..n - 1]
   | None \<Rightarrow> raiseE TypeError (quote (type_name v) @ '' object cannot be interpreted as an integer''))"

text \<open>\<open>set(d) == {names}\<close> for a dictionary and a set of string keys.\<close>

definition keys_are :: "pydict \<Rightarrow> string list \<Rightarrow> bool" where
  "keys_are d ks = (set (map fst d) = KStr ` set ks)"

text \<open>\<open>v < w\<close>: numbers by value, strings by code points, anything else raises.\<close>

definition order_error :: "string \<Rightarrow> pyval \<Rightarrow> pyval \<Rightarrow> 'a res" where
  "order_error symbol v w = raiseE TypeError
     (quote symbol @ '' not supported between instances of '' @ quote (type_name v)
      @ '' and '' @ quote (type_name w))"

definition py_lt :: "pyval \<Rightarrow> pyval \<Rightarrow> bool res" where
  "py_lt v w = (case (num_of v, num_of w) of
     (Some x, Some y) \<Rightarrow> Inr (f_lt x y)
   | _ \<Rightarrow> (case (v, w) of (PStr s, PStr t) \<Rightarrow> Inr (s < t) | _ \<Rightarrow> order_error ''<'' v w))"

text \<open>\<open>a / b\<close> for integers: the quotient is rounded once.\<close>

definition int_div :: "int \<Rightarrow> int \<Rightarrow> pyfloat res" where
  "int_div a b =
     (if b = 0 then raiseE ZeroDivisionError ''division by zero''
      else case fl (of_int a / of_int b) of
        Fl x \<Rightarrow> Inr (Fl x)
      | _ \<Rightarrow> raiseE OverflowError ''integer division result too large for a float'')"

text \<open>\<open>float(i)\<close> and \<open>math.ceil(x)\<close>.\<close>

definition f_of_int :: "int \<Rightarrow> pyfloat res" where
  "f_of_int i = (case fl (of_int i) of
     Fl x \<Rightarrow> Inr (Fl x)
   | _ \<Rightarrow> raiseE OverflowError ''int too large to convert to float'')"

definition f_ceil :: "pyfloat \<Rightarrow> int res" where
  "f_ceil x = (case x of
     Fl a \<Rightarrow> Inr \<lceil>a\<rceil>
   | NaN \<Rightarrow> raiseE ValueError ''cannot convert float NaN to integer''
   | _ \<Rightarrow> raiseE OverflowError ''cannot convert float infinity to integer'')"

text \<open>\<open>v + w\<close> and \<open>v - w\<close>.\<close>

definition to_float :: "pyval \<Rightarrow> pyfloat res" where
  "to_float v = (case v of
     PFloat x \<Rightarrow> Inr x
   | _ \<Rightarrow> (case as_int v of Some i \<Rightarrow> f_of_int i
      | None \<Rightarrow> raiseE TypeError (''must be real number, not '' @ type_name v)))"

definition num_arith ::
  "string \<Rightarrow> (int \<Rightarrow> int \<Rightarrow> int) \<Rightarrow> (pyfloat \<Rightarrow> pyfloat \<Rightarrow> pyfloat) \<Rightarrow> pyval \<Rightarrow> pyval \<Rightarrow> pyval res" where
  "num_arith symbol on_int on_float v w =
     (case (as_int v, as_int w) of
        (Some i, Some j) \<Rightarrow> Inr (PInt (on_int i j))
      | _ \<Rightarrow> if num_of v \<noteq> None \<and> num_of w \<noteq> None
          then bindE (to_float v) (\<lambda>x. bindE (to_float w) (\<lambda>y. Inr (PFloat (on_float x y))))
          else raiseE TypeError (''unsupported operand type(s) for '' @ symbol @ '': '' @ quote (type_name v) @ '' and '' @ quote (type_name w)))"

definition py_add :: "pyval \<Rightarrow> pyval \<Rightarrow> pyval res" where
  "py_add v w = (case (v, w) of
     (PStr s, PStr t) \<Rightarrow> Inr (PStr (s @ t))
   | (PList xs, PList ys) \<Rightarrow> Inr (PList (xs @ ys))
   | (PStr _, _) \<Rightarrow> raiseE TypeError (''can only concatenate str (not '' @ [CHR 0x22] @ type_name w @ [CHR 0x22] @ '') to str'')
   | (PList _, _) \<Rightarrow> raiseE TypeError (''can only concatenate list (not '' @ [CHR 0x22] @ type_name w @ [CHR 0x22] @ '') to list'')
   | _ \<Rightarrow> num_arith ''+'' (+) f_add v w)"

definition py_sub :: "pyval \<Rightarrow> pyval \<Rightarrow> pyval res" where
  "py_sub v w = num_arith ''-'' (-) f_sub v w"

definition py_mul :: "pyval \<Rightarrow> pyval \<Rightarrow> pyval res" where
  "py_mul v w = num_arith ''*'' (*) f_mul v w"

text \<open>\<open>v / w\<close>, always a float.\<close>

definition py_div :: "pyval \<Rightarrow> pyval \<Rightarrow> pyfloat res" where
  "py_div v w =
     (case (as_int v, as_int w) of
        (Some i, Some j) \<Rightarrow> int_div i j
      | _ \<Rightarrow> if num_of v \<noteq> None \<and> num_of w \<noteq> None
          then bindE (to_float v) (\<lambda>x. bindE (to_float w) (\<lambda>y.
            if y = Fl 0 then raiseE ZeroDivisionError ''float division by zero'' else Inr (f_div x y)))
          else raiseE TypeError (''unsupported operand type(s) for /: '' @ quote (type_name v) @ '' and '' @ quote (type_name w)))"

definition py_ge :: "pyval \<Rightarrow> pyval \<Rightarrow> bool res" where
  "py_ge v w = (case (num_of v, num_of w) of
     (Some x, Some y) \<Rightarrow> Inr (f_le y x)
   | _ \<Rightarrow> (case (v, w) of (PStr s, PStr t) \<Rightarrow> Inr (t \<le> s) | _ \<Rightarrow> order_error ''>='' v w))"

text \<open>\<open>math.isfinite(v)\<close>\<close>

definition py_isfinite :: "pyval \<Rightarrow> bool res" where
  "py_isfinite v = bindE (to_float v) (\<lambda>x. Inr (is_finite x))"

lemma py_add_int [simp]: "py_add (PInt i) (PInt j) = Inr (PInt (i + j))"
  by (simp add: py_add_def num_arith_def as_int_def)

lemma py_sub_int [simp]: "py_sub (PInt i) (PInt j) = Inr (PInt (i - j))"
  by (simp add: py_sub_def num_arith_def as_int_def)

lemmas py_value_defs =
  is_dict_def is_list_def is_str_def is_nonneg_def as_int_def num_of_def get_or_def item_def
  items_def values_of_def attr_error_def

lemma get_or_eq_Inr: "get_or v k dflt = Inr x \<longleftrightarrow> (\<exists>d. v = PDict d \<and> x = dict_get d k dflt)"
  by (auto simp: get_or_def attr_error_def split: pyval.splits)

lemma item_eq_Inr: "item v k = Inr x \<longleftrightarrow> (\<exists>d. v = PDict d \<and> map_of d (KStr k) = Some x)"
  by (auto simp: item_def split: pyval.splits option.splits)

lemma items_eq_Inr: "items v = Inr d \<longleftrightarrow> v = PDict d"
  by (auto simp: items_def attr_error_def split: pyval.splits)

lemma is_nonneg_iff: "is_nonneg v \<longleftrightarrow> (\<exists>i\<ge>0. v = PInt i)"
  by (cases v) (auto simp: is_nonneg_def)

lemma is_dict_iff: "is_dict v \<longleftrightarrow> (\<exists>d. v = PDict d)"
  by (cases v) (auto simp: is_dict_def)

lemma is_list_iff: "is_list v \<longleftrightarrow> (\<exists>xs. v = PList xs)"
  by (cases v) (auto simp: is_list_def)

lemma py_eq_PStr [simp]: "py_eq v (PStr s) \<longleftrightarrow> v = PStr s"
  by (cases v) (auto simp: num_of_def)

lemma py_eq_PNone [simp]: "py_eq v PNone \<longleftrightarrow> v = PNone"
  by (cases v) (auto simp: num_of_def)

lemma get_or_item: "get v k = Inr x \<Longrightarrow> x \<noteq> PNone \<Longrightarrow> item v k = Inr x"
  by (auto simp: get_or_eq_Inr item_eq_Inr dict_get_def split: option.splits)

lemma require_hashable_Inr [simp]: "require_hashable v = Inr u \<longleftrightarrow> hashable v"
  by (simp add: require_hashable_def)

lemma case_dict_Inr [simp]:
  "(case v of PDict d \<Rightarrow> f d | _ \<Rightarrow> Inl z) = Inr y \<longleftrightarrow> (\<exists>d. v = PDict d \<and> f d = Inr y)"
  by (cases v) auto

lemma case_dict_Inl:
  "(case v of PDict d \<Rightarrow> f d | _ \<Rightarrow> Inl z) = Inl y \<longleftrightarrow>
     (\<exists>d. v = PDict d \<and> f d = Inl y) \<or> (\<not> is_dict v \<and> z = y)"
  by (cases v) (auto simp: is_dict_def)

lemma case_option_Inr [simp]:
  "(case m of None \<Rightarrow> Inl z | Some x \<Rightarrow> f x) = Inr y \<longleftrightarrow> (\<exists>x. m = Some x \<and> f x = Inr y)"
  by (cases m) auto

lemmas py_inr [py_simps] =
  get_or_eq_Inr item_eq_Inr items_eq_Inr is_nonneg_iff is_dict_iff is_list_iff

section \<open>Printing\<close>

text \<open>\<open>str(v)\<close> and \<open>repr(v)\<close>. A float prints the shortest decimal that reads back to it.\<close>

definition hex_digit :: "nat \<Rightarrow> char" where
  "hex_digit n = (if n < 10 then char_of (48 + n) else char_of (87 + n))"

definition escape_char :: "char \<Rightarrow> char \<Rightarrow> string" where
  "escape_char q c =
     (let n = of_char c :: nat in
      if c = q \<or> c = CHR 0x5C then [CHR 0x5C, c]
      else if n = 9 then [CHR 0x5C, CHR ''t'']
      else if n = 10 then [CHR 0x5C, CHR ''n'']
      else if n = 13 then [CHR 0x5C, CHR ''r'']
      else if n < 32 \<or> (127 \<le> n \<and> n < 161) \<or> n = 173
        then [CHR 0x5C, CHR ''x'', hex_digit (n div 16), hex_digit (n mod 16)]
      else [c])"

definition repr_str :: "string \<Rightarrow> string" where
  "repr_str s =
     (let q = (if CHR 0x27 \<in> set s \<and> CHR 0x22 \<notin> set s then CHR 0x22 else CHR 0x27)
      in [q] @ concat (map (escape_char q) s) @ [q])"

text \<open>The decimal exponent \<open>e\<close> with \<open>10 ^ e <= x < 10 ^ (e + 1)\<close>.\<close>

definition ilog10 :: "rat \<Rightarrow> int" where
  "ilog10 x =
     (let e = ilog2 x * 30103 div 100000
      in if 10 powi (e + 1) \<le> x then e + 1 else if x < 10 powi e then e - 1 else e)"

text \<open>\<open>x\<close> rounded to \<open>k\<close> significant digits, as digits and exponent.\<close>

definition sig_digits :: "nat \<Rightarrow> rat \<Rightarrow> int \<times> int" where
  "sig_digits k x =
     (let e = ilog10 x; m = round_half_even (x / 10 powi (e - int k + 1))
      in if m = 10 ^ k then (10 ^ (k - 1), e + 1) else (m, e))"

definition reads_back :: "rat \<Rightarrow> nat \<Rightarrow> bool" where
  "reads_back x k = (let (m, e) = sig_digits k x in fl (of_int m * 10 powi (e - int k + 1)) = Fl x)"

definition shortest :: "rat \<Rightarrow> nat" where
  "shortest x = (case find (reads_back x) [1..<17] of Some k \<Rightarrow> k | None \<Rightarrow> 17)"

definition repr_pos :: "rat \<Rightarrow> string" where
  "repr_pos x =
     (let k = shortest x; (m, e) = sig_digits k x; ds = int_str m; zero = CHR ''0''
      in if e < -4 \<or> 16 \<le> e
         then [hd ds] @ (if k = 1 then [] else ''.'' @ tl ds) @ ''e'' @ (if e < 0 then ''-'' else ''+'')
           @ (if \<bar>e\<bar> < 10 then ''0'' else []) @ int_str \<bar>e\<bar>
         else if e < 0 then ''0.'' @ replicate (nat (- e - 1)) zero @ ds
         else if int k \<le> e + 1 then ds @ replicate (nat (e + 1 - int k)) zero @ ''.0''
         else take (nat (e + 1)) ds @ ''.'' @ drop (nat (e + 1)) ds)"

primrec repr_float :: "pyfloat \<Rightarrow> string" where
  "repr_float (Fl x) =
     (if x = 0 then ''0.0'' else if x < 0 then ''-'' @ repr_pos (- x) else repr_pos x)"
| "repr_float PosInf = ''inf''"
| "repr_float NegInf = ''-inf''"
| "repr_float NaN = ''nan''"

text \<open>\<open>format(x, ".3f")\<close>\<close>

definition fixed3 :: "pyfloat \<Rightarrow> string" where
  "fixed3 x = (case x of
     Fl a \<Rightarrow> (let n = round_half_even (\<bar>a\<bar> * 1000); m = n mod 1000 in
       (if a < 0 then ''-'' else []) @ int_str (n div 1000) @ ''.''
         @ (if m < 10 then ''00'' else if m < 100 then ''0'' else []) @ int_str m)
   | PosInf \<Rightarrow> ''inf'' | NegInf \<Rightarrow> ''-inf'' | NaN \<Rightarrow> ''nan'')"

definition py_fixed3 :: "pyval \<Rightarrow> string res" where
  "py_fixed3 v = bindE (to_float v) (\<lambda>x. Inr (fixed3 x))"

fun comma_sep :: "string list \<Rightarrow> string" where
  "comma_sep [] = []"
| "comma_sep [s] = s"
| "comma_sep (s # ss) = s @ '', '' @ comma_sep ss"

fun py_repr :: "pyval \<Rightarrow> string" where
  "py_repr PNone = ''None''"
| "py_repr (PBool b) = (if b then ''True'' else ''False'')"
| "py_repr (PInt i) = int_str i"
| "py_repr (PFloat x) = repr_float x"
| "py_repr (PStr s) = repr_str s"
| "py_repr (PList xs) = ''['' @ comma_sep (map py_repr xs) @ '']''"
| "py_repr (PDict d) =
     ''{'' @ comma_sep (map (\<lambda>(k, v).
        (case k of KStr s \<Rightarrow> repr_str s | KInt i \<Rightarrow> int_str i) @ '': '' @ py_repr v) d) @ ''}''"

definition py_str :: "pyval \<Rightarrow> string" where
  "py_str v = (case v of PStr s \<Rightarrow> s | _ \<Rightarrow> py_repr v)"

lemma py_str_simps [simp]: "py_str (PStr s) = s" "py_str (PInt i) = int_str i"
  by (simp_all add: py_str_def)

section \<open>Equality\<close>

text \<open>On hashable values \<open>==\<close> is a partial equivalence, and a congruence for itself: it
  compares a canonical form.\<close>

definition canon :: "pyval \<Rightarrow> pyval" where
  "canon v = (case num_of v of Some x \<Rightarrow> PFloat x | None \<Rightarrow> v)"

lemma py_eq_hashable:
  assumes "hashable v" shows "py_eq v w \<longleftrightarrow> canon v = canon w \<and> canon v \<noteq> PFloat NaN"
  using assms
  by (cases v; cases w) (auto simp: hashable_def canon_def num_of_def num_eq_def)

lemma py_eq_hashable_right:
  assumes "hashable w" shows "py_eq v w \<longleftrightarrow> canon v = canon w \<and> canon v \<noteq> PFloat NaN"
  using assms
  by (cases v; cases w) (auto simp: hashable_def canon_def num_of_def num_eq_def)

lemma py_eq_cong_right:
  assumes "hashable v" "py_eq v w" shows "py_eq u v = py_eq u w"
proof -
  have "hashable w" using assms
    by (cases v; cases w) (auto simp: hashable_def num_of_def split: option.splits)
  with assms show ?thesis by (simp add: py_eq_hashable py_eq_hashable_right)
qed

text \<open>A value without NaN and without repeated keys equals itself, so that a receipt that
  is written out and read back compares equal.\<close>

fun plain :: "pyval \<Rightarrow> bool" where
  "plain (PFloat x) = (x \<noteq> NaN)"
| "plain (PList xs) = (\<forall>x\<in>set xs. plain x)"
| "plain (PDict d) = (distinct (map fst d) \<and> (\<forall>kv\<in>set d. plain (snd kv)))"
| "plain _ = True"

lemma py_eq_refl_aux:
  "w = v \<Longrightarrow> plain v \<Longrightarrow> py_eq v w"
  "ys = xs \<Longrightarrow> (\<forall>x\<in>set xs. plain x) \<Longrightarrow> py_eq_list xs ys"
  "(\<forall>kv\<in>set d. plain (snd kv) \<and> map_of e (fst kv) = Some (snd kv)) \<Longrightarrow> py_eq_items d e"
  by (induction v w and xs ys and d e rule: py_eq_py_eq_list_py_eq_items.induct)
    (auto simp: num_of_def num_eq_def)

lemma py_eq_refl: "plain v \<Longrightarrow> py_eq v v"
  by (rule py_eq_refl_aux) simp_all

end
