(* ===== verification/Filesystem.thy ===== *)
theory Filesystem
  imports Py_Prelude
begin

text \<open>
  Directory trees and paths, as the program sees them through \<open>pathlib\<close>: regular files with
  their contents and allocated blocks, directories, symbolic links with what they lead to (\<open>None\<close>
  for a dangling one), and other nodes. \<open>walk\<close> lists
  what \<open>rglob("*")\<close> yields below a directory, which does not follow links. A path is the list of
  its parts; \<open>as_posix\<close> prints one and \<open>path_parts\<close> reads a relative one.
\<close>

datatype fsnode =
    Regular string nat
  | Directory "(string \<times> fsnode) list"
  | Symlink "fsnode option"
  | Special

fun walk :: "fsnode \<Rightarrow> (string list \<times> fsnode) list" where
  "walk (Directory es) = concat (map (\<lambda>(name, c). ([name], c) # map (\<lambda>(p, d). (name # p, d)) (walk c)) es)"
| "walk _ = []"

definition child :: "fsnode \<Rightarrow> string \<Rightarrow> fsnode option" where
  "child n name = (case n of Directory es \<Rightarrow> map_of es name | _ \<Rightarrow> None)"

text \<open>\<open>stat\<close> follows links, \<open>lstat\<close> does not follow the last one.\<close>

fun resolve :: "fsnode \<Rightarrow> fsnode option" where
  "resolve (Symlink (Some n)) = resolve n"
| "resolve (Symlink None) = None"
| "resolve n = Some n"

fun subtree :: "fsnode \<Rightarrow> string list \<Rightarrow> fsnode option" where
  "subtree n [] = Some n"
| "subtree n (p # ps) = (case resolve n of
     Some d \<Rightarrow> (case child d p of Some c \<Rightarrow> subtree c ps | None \<Rightarrow> None)
   | None \<Rightarrow> None)"

definition is_symlink :: "fsnode option \<Rightarrow> bool" where
  "is_symlink n = (case n of Some (Symlink _) \<Rightarrow> True | _ \<Rightarrow> False)"

text \<open>\<open>path.exists()\<close>, \<open>path.is_file()\<close> and the contents of a file.\<close>

definition file_text :: "fsnode option \<Rightarrow> string option" where
  "file_text n = (case n of Some m \<Rightarrow> (case resolve m of Some (Regular text _) \<Rightarrow> Some text | _ \<Rightarrow> None) | None \<Rightarrow> None)"

definition is_file :: "fsnode option \<Rightarrow> bool" where
  "is_file n = (file_text n \<noteq> None)"

definition path_exists :: "fsnode \<Rightarrow> string \<Rightarrow> bool" where
  "path_exists dir name = (case subtree dir [name] of Some n \<Rightarrow> resolve n \<noteq> None | None \<Rightarrow> False)"

text \<open>\<open>str.splitlines()\<close>\<close>

definition is_line_end :: "char \<Rightarrow> bool" where
  "is_line_end c = ((of_char c :: int) \<in> {10, 11, 12, 13, 28, 29, 30, 133})"

fun split_lines :: "string \<Rightarrow> string \<Rightarrow> string list" where
  "split_lines acc [] = (if acc = [] then [] else [acc])"
| "split_lines acc (c # cs) =
     (if is_line_end c
      then acc # split_lines [] (if c = CHR 0x0D \<and> cs \<noteq> [] \<and> hd cs = CHR 0x0A then tl cs else cs)
      else split_lines (acc @ [c]) cs)"

abbreviation splitlines :: "string \<Rightarrow> string list" where
  "splitlines s \<equiv> split_lines [] s"

definition is_directory :: "fsnode \<Rightarrow> bool" where
  "is_directory n = (case n of Directory _ \<Rightarrow> True | _ \<Rightarrow> False)"

text \<open>The names a directory may hold: not empty, without separator, not the entries \<open>.\<close> and
  \<open>..\<close>, and each once.\<close>

definition valid_name :: "string \<Rightarrow> bool" where
  "valid_name s \<longleftrightarrow> s \<noteq> [] \<and> CHR ''/'' \<notin> set s \<and> s \<noteq> ''.'' \<and> s \<noteq> ''..''"

fun wf_tree :: "fsnode \<Rightarrow> bool" where
  "wf_tree (Directory es) \<longleftrightarrow> distinct (map fst es) \<and> (\<forall>(name, c)\<in>set es. valid_name name \<and> wf_tree c)"
| "wf_tree _ \<longleftrightarrow> True"

fun as_posix :: "string list \<Rightarrow> string" where
  "as_posix [] = ''.''"
| "as_posix [p] = p"
| "as_posix (p # ps) = p @ ''/'' @ as_posix ps"

fun split_slash :: "string \<Rightarrow> string \<Rightarrow> string list" where
  "split_slash acc [] = [acc]"
| "split_slash acc (c # cs) = (if c = CHR ''/'' then acc # split_slash [] cs else split_slash (acc @ [c]) cs)"

text \<open>\<open>Path(s).parts\<close> for a relative path, and \<open>Path(s).name\<close>.\<close>

definition path_parts :: "string \<Rightarrow> string list" where
  "path_parts s = filter (\<lambda>p. p \<noteq> [] \<and> p \<noteq> ''.'') (split_slash [] s)"

definition path_name :: "string list \<Rightarrow> string" where
  "path_name parts = (if parts = [] then [] else last parts)"

definition starts_with :: "string \<Rightarrow> string \<Rightarrow> bool" where
  "starts_with s prefix = (take (length prefix) s = prefix)"

definition ends_with :: "string \<Rightarrow> string \<Rightarrow> bool" where
  "ends_with s suffix = (length suffix \<le> length s \<and> drop (length s - length suffix) s = suffix)"

section \<open>Printing and reading paths\<close>

lemma split_slash_name: "CHR ''/'' \<notin> set s \<Longrightarrow> split_slash acc s = [acc @ s]"
  by (induction s arbitrary: acc) auto

lemma split_slash_append: "CHR ''/'' \<notin> set s \<Longrightarrow> split_slash acc (s @ ''/'' @ rest) = (acc @ s) # split_slash [] rest"
  by (induction s arbitrary: acc) auto

lemma split_as_posix: "ps \<noteq> [] \<Longrightarrow> list_all valid_name ps \<Longrightarrow> split_slash [] (as_posix ps) = ps"
  by (induction ps rule: as_posix.induct) (simp_all add: valid_name_def split_slash_name split_slash_append [simplified])

lemma path_parts_as_posix:
  assumes "ps \<noteq> []" "list_all valid_name ps" shows "path_parts (as_posix ps) = ps"
proof -
  have "filter (\<lambda>p. p \<noteq> [] \<and> p \<noteq> ''.'') ps = ps"
    using assms(2) by (induction ps) (auto simp: valid_name_def)
  then show ?thesis using assms by (simp add: path_parts_def split_as_posix)
qed

lemma as_posix_inj:
  assumes "as_posix p = as_posix q" "p \<noteq> []" "q \<noteq> []" "list_all valid_name p" "list_all valid_name q"
  shows "p = q"
  using assms path_parts_as_posix by metis

lemma starts_with_append [simp]: "starts_with (p @ s) p"
  by (simp add: starts_with_def)

lemma as_posix_Cons: "ps \<noteq> [] \<Longrightarrow> as_posix (p # ps) = p @ ''/'' @ as_posix ps"
  by (cases ps) simp_all

section \<open>Walking a tree\<close>

lemma walk_nonempty: "(p, d) \<in> set (walk n) \<Longrightarrow> p \<noteq> []"
  by (cases n) auto

lemma walk_valid: "wf_tree n \<Longrightarrow> (p, d) \<in> set (walk n) \<Longrightarrow> list_all valid_name p \<and> wf_tree d"
proof (induction n arbitrary: p d rule: walk.induct)
  case (1 es)
  from "1.prems"(2) obtain name c where e: "(name, c) \<in> set es"
    and p: "(p, d) = ([name], c) \<or> (\<exists>q. p = name # q \<and> (q, d) \<in> set (walk c))" by auto
  have ok: "valid_name name" "wf_tree c" using "1.prems"(1) e by auto
  show ?case using p
  proof
    assume "(p, d) = ([name], c)" then show ?thesis using ok by simp
  next
    assume "\<exists>q. p = name # q \<and> (q, d) \<in> set (walk c)"
    then obtain q where q: "p = name # q" "(q, d) \<in> set (walk c)" by blast
    then show ?thesis using "1.IH" [OF e, OF refl ok(2) q(2)] ok by simp
  qed
qed simp_all

lemma distinct_rows:
  assumes "distinct (map fst es)" "\<And>e. e \<in> set es \<Longrightarrow> distinct (map fst (row e))"
    "\<And>e x. x \<in> set (map fst (row e)) \<Longrightarrow> \<exists>q. x = fst e # q"
  shows "distinct (map fst (concat (map row es)))"
  using assms(1,2)
proof (induction es)
  case (Cons e es)
  have "x \<notin> set (map fst (concat (map row es)))" if x: "x \<in> set (map fst (row e))" for x
  proof
    assume "x \<in> set (map fst (concat (map row es)))"
    then obtain e' where e': "e' \<in> set es" "x \<in> set (map fst (row e'))" by auto
    have "fst e = fst e'" using assms(3) [OF x] assms(3) [OF e'(2)] by auto
    then show False using Cons.prems(1) e'(1) by auto
  qed
  then have "set (map fst (row e)) \<inter> set (map fst (concat (map row es))) = {}" by blast
  then show ?case using Cons by (simp del: set_map)
qed simp

lemma walk_distinct: "wf_tree n \<Longrightarrow> distinct (map fst (walk n))"
proof (induction n rule: walk.induct)
  case (1 es)
  let ?row = "\<lambda>(name, c). ([name], c) # map (\<lambda>(p, d). (name # p, d)) (walk c)"
  have "distinct (map fst (concat (map ?row es)))"
  proof (rule distinct_rows)
    fix e assume that: "e \<in> set es"
    obtain name c where e: "e = (name, c)" by (cases e)
    have "distinct (map fst (walk c))" using "1.IH" [of e, OF that e [symmetric]] "1.prems" that e by auto
    then have "distinct (map (\<lambda>x. name # fst x) (walk c))" by (simp add: distinct_map inj_on_def)
    moreover have "[] \<notin> fst ` set (walk c)" using walk_nonempty by fastforce
    ultimately show "distinct (map fst (?row e))" by (auto simp: e comp_def split_def)
  qed (use "1.prems" in auto)
  then show ?case by simp
qed simp_all

text \<open>Below a directory without links, walking and looking up agree.\<close>

lemma walk_cases:
  assumes "(p, d) \<in> set (walk n)" "wf_tree n"
  shows "\<exists>name q c. p = name # q \<and> is_directory n \<and> child n name = Some c \<and> (q = [] \<and> d = c \<or> (q, d) \<in> set (walk c))"
proof (cases n)
  case (Directory es)
  obtain name c where e: "(name, c) \<in> set es"
    and p: "(p, d) = ([name], c) \<or> (\<exists>q. p = name # q \<and> (q, d) \<in> set (walk c))"
    using assms(1) by (auto simp: Directory)
  have "child n name = Some c" using assms(2) e by (simp add: Directory child_def)
  then show ?thesis using p by (auto simp: Directory is_directory_def)
qed (use assms in auto)

lemma walk_lookup: "wf_tree n \<Longrightarrow> (p, d) \<in> set (walk n) \<Longrightarrow> subtree n p = Some d"
proof (induction p arbitrary: n)
  case (Cons name q)
  then obtain c where c: "is_directory n" "child n name = Some c" "q = [] \<and> d = c \<or> (q, d) \<in> set (walk c)"
    using walk_cases [of "name # q" d n] by auto
  have wf: "wf_tree c" using Cons.prems(1) c(2) by (cases n) (fastforce simp: child_def dest: map_of_SomeD)+
  have "resolve n = Some n" using c(1) by (cases n) (auto simp: is_directory_def)
  then show ?case using c Cons.IH [OF wf] by auto
qed (use walk_nonempty in blast)

end
