(* ===== verification/Sealing.thy ===== *)
theory Sealing
  imports Filesystem
begin

text \<open>
  The index of a run directory (\<open>src/benchctl/evidence.py\<close>): \<open>seal\<close> writes \<open>SHA256SUMS.json\<close> with
  the digest of every regular file, and the first part of \<open>verify\<close> compares the directory with it.
  The digest function, the JSON reader and writer of the interpreter, the printed path of the
  directory and the clock are arguments of the model, collected in a \<open>world\<close>; texts are sequences
  of 8-bit characters, so that decoding never fails. \<open>verify\<close> appends to lists of errors
  inside one \<open>try\<close> block: its parts are actions over those lists.
\<close>

record world =
  sha256 :: "string \<Rightarrow> string"
  loads :: "string \<Rightarrow> pyval res"
  dumps :: "pyval \<Rightarrow> string"
  base_path :: string
  out_of_time :: "nat \<Rightarrow> bool"
  recursion_limit :: nat

definition INDEX :: string where
  "INDEX = ''SHA256SUMS.json''"

section \<open>Reading files\<close>

definition path_error :: "world \<Rightarrow> string \<Rightarrow> string \<Rightarrow> 'a res" where
  "path_error w message name = raiseE OSError (message @ quote (base_path w @ ''/'' @ name))"

definition read_text :: "world \<Rightarrow> fsnode \<Rightarrow> string \<Rightarrow> string res" where
  "read_text w dir name = (case subtree dir [name] of
     None \<Rightarrow> path_error w ''[Errno 2] No such file or directory: '' name
   | Some n \<Rightarrow> (case resolve n of
        Some (Regular text _) \<Rightarrow> Inr text
      | Some (Directory _) \<Rightarrow> path_error w ''[Errno 21] Is a directory: '' name
      | Some _ \<Rightarrow> path_error w ''[Errno 5] Input/output error: '' name
      | None \<Rightarrow> path_error w ''[Errno 2] No such file or directory: '' name))"

definition read_json :: "world \<Rightarrow> fsnode \<Rightarrow> string \<Rightarrow> pyval res" where
  "read_json w dir name = bindE (read_text w dir name) (loads w)"

text \<open>One JSON value per line.\<close>

definition read_json_lines :: "world \<Rightarrow> fsnode \<Rightarrow> string \<Rightarrow> pyval list res" where
  "read_json_lines w dir name = bindE (read_text w dir name) (\<lambda>text. mapE (loads w) (splitlines text))"

section \<open>Sealing\<close>

definition seal_step :: "world \<Rightarrow> pydict \<Rightarrow> string list \<times> fsnode \<Rightarrow> pydict res" where
  "seal_step w files = (\<lambda>(p, n).
     if is_symlink (Some n) then raiseE ValueError ''symlink in run evidence''
     else case file_text (Some n) of
       Some text \<Rightarrow> Inr (if path_name p \<noteq> INDEX then AList.update (KStr (as_posix p)) (PStr (sha256 w text)) files else files)
     | None \<Rightarrow> Inr files)"

definition index_value :: "pydict \<Rightarrow> pyval" where
  "index_value files = PDict [kv ''schema'' (PInt 1), kv ''files'' (PDict files)]"

text \<open>Writing creates the file and fails where it exists. The blocks of the new file are not
  looked at again.\<close>

definition write_new :: "world \<Rightarrow> fsnode \<Rightarrow> string \<Rightarrow> string \<Rightarrow> fsnode res" where
  "write_new w dir name text = (case dir of
     Directory es \<Rightarrow> if map_of es name \<noteq> None then path_error w ''[Errno 17] File exists: '' name
       else Inr (Directory (es @ [(name, Regular text 0)]))
   | _ \<Rightarrow> path_error w ''[Errno 20] Not a directory: '' name)"

definition seal_index :: "world \<Rightarrow> fsnode \<Rightarrow> pydict res" where
  "seal_index w dir = foldE (seal_step w) [] (sort_key fst (walk dir))"

definition seal :: "world \<Rightarrow> fsnode \<Rightarrow> fsnode res" where
  "seal w dir = bindE (seal_index w dir) (\<lambda>files.
     write_new w dir INDEX (dumps w (index_value files)))"

section \<open>Checking the index\<close>

record verify_state =
  vs_integrity :: "string list"
  vs_correctness :: "string list"
  vs_checking :: bool

definition note_all :: "string list \<Rightarrow> (verify_state, unit) act" where
  "note_all es = modifyA (\<lambda>s. s\<lparr>vs_integrity := vs_integrity s @ es\<rparr>)"

definition note_if :: "bool \<Rightarrow> string \<Rightarrow> (verify_state, unit) act" where
  "note_if b e = whenA b (note_all [e])"

fun loopA :: "('a \<Rightarrow> ('s, unit) act) \<Rightarrow> 'a list \<Rightarrow> ('s, unit) act" where
  "loopA f [] = liftA (Inr ())"
| "loopA f (x # xs) = bindA (f x) (\<lambda>_. loopA f xs)"

definition artifacts :: "fsnode \<Rightarrow> string list" where
  "artifacts dir = map (\<lambda>(p, _). as_posix p) (filter (\<lambda>(p, n). is_file (Some n) \<and> path_name p \<noteq> INDEX) (walk dir))"

definition verify_artifact :: "world \<Rightarrow> fsnode \<Rightarrow> pykey \<times> pyval \<Rightarrow> (verify_state, unit) act" where
  "verify_artifact w dir = (\<lambda>(k, sha).
     case k of
       KInt _ \<Rightarrow> liftA (raiseE TypeError (''unsupported operand type(s) for /: '' @ quote ''PosixPath'' @ '' and '' @ quote ''int''))
     | KStr relative \<Rightarrow>
         let p = subtree dir (path_parts relative) in
         if starts_with relative ''/'' \<or> ''..'' \<in> set (path_parts relative) \<or> is_symlink p \<or> \<not> is_file p
         then note_all [''invalid artifact path: '' @ relative]
         else (case file_text p of
           Some text \<Rightarrow> note_if (\<not> py_eq (PStr (sha256 w text)) sha) (''checksum mismatch: '' @ relative)
         | None \<Rightarrow> liftA (Inr ())))"

definition verify_index :: "world \<Rightarrow> fsnode \<Rightarrow> (verify_state, unit) act" where
  "verify_index w dir =
     bindA (liftA (bindE (read_json w dir INDEX) (\<lambda>v. item v ''files''))) (\<lambda>index.
     bindA (liftA (bindE (iter_of index) (\<lambda>ks. bindE (mapE require_hashable ks) (\<lambda>_. Inr ks)))) (\<lambda>ks.
     bindA (note_if (set ks \<noteq> PStr ` set (artifacts dir)) ''artifact inventory changed'') (\<lambda>_.
     bindA (liftA (items index)) (\<lambda>d.
     loopA (verify_artifact w dir) d))))"

section \<open>Quiet runs\<close>

text \<open>Actions only append to the lists of errors.\<close>

definition quiet :: "verify_state \<Rightarrow> bool" where
  "quiet s \<longleftrightarrow> vs_integrity s = [] \<and> vs_correctness s = []"

definition appends :: "(verify_state, 'a) act \<Rightarrow> bool" where
  "appends m \<longleftrightarrow> (\<forall>s. quiet (snd (m s)) \<longrightarrow> quiet s)"

lemma appends_liftA: "appends (liftA r)"
  by (simp add: appends_def liftA_def)

lemma appends_note_all: "appends (note_all es)"
  by (simp add: appends_def note_all_def modifyA_def quiet_def)

lemma appends_bindA:
  assumes "appends m" "\<And>x. appends (f x)" shows "appends (bindA m f)"
  unfolding appends_def
proof (intro allI impI)
  fix s assume q: "quiet (snd (bindA m f s))"
  obtain r u where m: "m s = (r, u)" by (cases "m s")
  have "quiet u"
  proof (cases r)
    case (Inl e)
    then show ?thesis using q by (simp add: bindA_def m)
  next
    case (Inr x)
    then have "quiet (snd (f x u))" using q by (simp add: bindA_def m)
    then show ?thesis using assms(2) [of x] unfolding appends_def by blast
  qed
  then have "quiet (snd (m s))" by (simp add: m)
  then show "quiet s" using assms(1) unfolding appends_def by blast
qed

lemma appends_whenA: "appends m \<Longrightarrow> appends (whenA b m)"
  by (simp add: whenA_def appends_liftA)

lemma appends_note_if: "appends (note_if b e)"
  by (simp add: note_if_def appends_whenA appends_note_all)

lemma appends_loopA: "(\<And>x. appends (f x)) \<Longrightarrow> appends (loopA f xs)"
  by (induction xs) (simp_all add: appends_liftA appends_bindA)

lemmas appends_intros = appends_liftA appends_note_all appends_bindA appends_whenA appends_note_if appends_loopA

lemma appends_artifact: "appends (verify_artifact w dir e)"
  by (cases e; cases "fst e") (auto simp: verify_artifact_def Let_def appends_liftA appends_note_all appends_note_if split: option.splits)

lemma appends_verify_index: "appends (verify_index w dir)"
  unfolding verify_index_def by (intro appends_intros appends_artifact)

text \<open>A run that ends quietly was quiet all along: each part returned and noted nothing.\<close>

lemma quiet_bindA:
  assumes "bindA m f s = (Inr x, t)" "quiet t" "\<And>x. appends (f x)"
  obtains y u where "m s = (Inr y, u)" "quiet u" "f y u = (Inr x, t)"
proof -
  obtain y u where a: "m s = (Inr y, u)" "f y u = (Inr x, t)" using assms(1) by (rule bindA_InrE)
  have "quiet (snd (f y u))" using assms(2) a(2) by simp
  then have "quiet u" using assms(3) [of y] unfolding appends_def by blast
  then show ?thesis using a that by blast
qed

lemma quiet_note_if: "note_if b e s = (Inr x, t) \<Longrightarrow> quiet t \<Longrightarrow> \<not> b \<and> t = s"
  by (auto simp: note_if_def whenA_def note_all_def quiet_def split: if_splits)

lemma quiet_note_all: "note_all es s = (Inr x, t) \<Longrightarrow> quiet t \<Longrightarrow> es = [] \<and> quiet s \<and> t = s"
  by (auto simp: note_all_def quiet_def)

lemma loopA_quiet:
  assumes "loopA f xs s = (Inr u, t)" "quiet t" "\<And>x. appends (f x)" "x \<in> set xs"
  shows "\<exists>s1 s2. f x s1 = (Inr (), s2) \<and> quiet s2"
  using assms(1,2,4)
proof (induction xs arbitrary: s)
  case (Cons y ys)
  obtain v s1 where v: "f y s = (Inr v, s1)" "quiet s1" "loopA f ys s1 = (Inr u, t)"
  proof (rule quiet_bindA)
    show "bindA (f y) (\<lambda>_. loopA f ys) s = (Inr u, t)" using Cons.prems(1) by simp
    show "appends (loopA f ys)" for z :: unit using assms(3) by (rule appends_loopA)
  qed (use Cons.prems(2) in auto)
  show ?case
  proof (cases "x = y")
    case True
    then show ?thesis using v by auto
  next
    case False
    then show ?thesis using Cons.IH [OF v(3)] Cons.prems(2,3) by simp
  qed
qed simp

section \<open>Tampering is detected\<close>

text \<open>The files of a directory that its index covers, with their contents.\<close>

definition covered :: "fsnode \<Rightarrow> (string \<times> string) set" where
  "covered dir = {(as_posix p, body) | p n body. (p, n) \<in> set (walk dir) \<and> path_name p \<noteq> INDEX \<and> file_text (Some n) = Some body}"

definition index_of :: "world \<Rightarrow> fsnode \<Rightarrow> pyval res" where
  "index_of w dir = bindE (read_json w dir INDEX) (\<lambda>v. item v ''files'')"

lemma artifacts_covered: "set (artifacts dir) = fst ` covered dir"
  by (force simp: artifacts_def covered_def is_file_def)

lemma covered_lookup:
  assumes "(path, body) \<in> covered dir" "wf_tree dir"
  shows "file_text (subtree dir (path_parts path)) = Some body"
proof -
  obtain p n where p: "path = as_posix p" "(p, n) \<in> set (walk dir)" "file_text (Some n) = Some body"
    using assms(1) by (auto simp: covered_def)
  have "path_parts path = p"
    using path_parts_as_posix [OF walk_nonempty [OF p(2)]] walk_valid [OF assms(2) p(2)] p(1) by simp
  then show ?thesis using walk_lookup [OF assms(2) p(2)] p(3) by simp
qed

lemma verify_index_quiet:
  assumes "verify_index w dir s = (Inr u, t)" "quiet t"
  shows "\<exists>d. index_of w dir = Inr (PDict d) \<and> KStr ` fst ` covered dir = fst ` set d \<and>
    (\<forall>(k, sha)\<in>set d. \<exists>relative body. k = KStr relative \<and> file_text (subtree dir (path_parts relative)) = Some body \<and>
       sha = PStr (sha256 w body))"
proof -
  let ?loop = "loopA (verify_artifact w dir)"
  let ?rest = "\<lambda>index. bindA (liftA (bindE (iter_of index) (\<lambda>ks. bindE (mapE require_hashable ks) (\<lambda>_. Inr ks)))) (\<lambda>ks.
     bindA (note_if (set ks \<noteq> PStr ` set (artifacts dir)) ''artifact inventory changed'') (\<lambda>_.
     bindA (liftA (items index)) ?loop))"
  have ap: "appends (?rest index)" for index by (intro appends_intros appends_artifact)
  from assms(1) [unfolded verify_index_def] obtain index s1 where
    "liftA (bindE (read_json w dir INDEX) (\<lambda>v. item v ''files'')) s = (Inr index, s1)" and i2: "?rest index s1 = (Inr u, t)"
    by (rule bindA_InrE)
  then have i1: "index_of w dir = Inr index" by (simp add: index_of_def)
  from i2 obtain ks s2 where
    "liftA (bindE (iter_of index) (\<lambda>ks. bindE (mapE require_hashable ks) (\<lambda>_. Inr ks))) s1 = (Inr ks, s2)" and
    ks2: "bindA (note_if (set ks \<noteq> PStr ` set (artifacts dir)) ''artifact inventory changed'') (\<lambda>_. bindA (liftA (items index)) ?loop) s2 = (Inr u, t)"
    by (rule bindA_InrE)
  then have ks1: "bindE (iter_of index) (\<lambda>ks. bindE (mapE require_hashable ks) (\<lambda>_. Inr ks)) = Inr ks" by simp
  obtain v s3 where n: "note_if (set ks \<noteq> PStr ` set (artifacts dir)) ''artifact inventory changed'' s2 = (Inr v, s3)" "quiet s3"
    "bindA (liftA (items index)) ?loop s3 = (Inr u, t)"
  proof (rule quiet_bindA [OF ks2 assms(2)])
    show "appends (bindA (liftA (items index)) ?loop)" for x :: unit by (intro appends_intros appends_artifact)
  qed auto
  have keys: "set ks = PStr ` set (artifacts dir)" using quiet_note_if [OF n(1,2)] by simp
  from n(3) obtain d s4 where "liftA (items index) s3 = (Inr d, s4)" and d2: "?loop d s4 = (Inr u, t)" by (rule bindA_InrE)
  then have d1: "index = PDict d" by (simp add: items_eq_Inr)
  have "ks = map (\<lambda>(k, _). case k of KStr s \<Rightarrow> PStr s | KInt i \<Rightarrow> PInt i) d" using ks1 by (auto simp: d1 iter_of_def)
  then have eq: "(\<lambda>k. case k of KStr s \<Rightarrow> PStr s | KInt i \<Rightarrow> PInt i) ` fst ` set d = PStr ` fst ` covered dir"
    using keys by (simp add: artifacts_covered split_def image_image)
  have "fst ` set d = KStr ` fst ` covered dir"
  proof (rule set_eqI)
    fix k
    have "inj (\<lambda>k. case k of KStr s \<Rightarrow> PStr s | KInt i \<Rightarrow> PInt i)" by (auto simp: inj_on_def split: pykey.splits)
    from inj_image_mem_iff [OF this, of k "fst ` set d"] show "k \<in> fst ` set d \<longleftrightarrow> k \<in> KStr ` fst ` covered dir"
      unfolding eq by (cases k) (auto simp: image_iff)
  qed
  moreover have "\<exists>relative body. k = KStr relative \<and> file_text (subtree dir (path_parts relative)) = Some body \<and> sha = PStr (sha256 w body)"
    if e: "(k, sha) \<in> set d" for k sha
  proof -
    obtain s1 s2 where q: "verify_artifact w dir (k, sha) s1 = (Inr (), s2)" "quiet s2"
      using loopA_quiet [OF d2 assms(2) appends_artifact e] by blast
    obtain relative where k: "k = KStr relative" using q(1) by (cases k) (auto simp: verify_artifact_def)
    obtain body where body: "file_text (subtree dir (path_parts relative)) = Some body"
      using q by (auto simp: verify_artifact_def k Let_def is_file_def quiet_def note_all_def split: if_splits option.splits)
    have "py_eq (PStr (sha256 w body)) sha"
      using q by (auto simp: verify_artifact_def k Let_def body is_file_def dest!: quiet_note_if quiet_note_all split: if_splits)
    then show ?thesis using k body by simp
  qed
  ultimately show ?thesis using i1 d1 by auto
qed

text \<open>C28: a sealed run directory cannot be changed unnoticed. Two directories with the same index
  that both pass the index check hold the same files with the same contents (nested index files
  apart), provided the digest function has no collision between their contents.\<close>

theorem tampering_detected:
  assumes "verify_index w dir s = (Inr u, t)" "quiet t" "verify_index w dir' s' = (Inr u', t')" "quiet t'"
    "index_of w dir' = index_of w dir" "wf_tree dir" "wf_tree dir'"
    "\<And>a b. a \<in> snd ` covered dir \<Longrightarrow> b \<in> snd ` covered dir' \<Longrightarrow> sha256 w a = sha256 w b \<Longrightarrow> a = b"
  shows "covered dir' = covered dir"
proof -
  obtain d where d: "index_of w dir = Inr (PDict d)" "KStr ` fst ` covered dir = fst ` set d"
    "\<forall>(k, sha)\<in>set d. \<exists>relative body. k = KStr relative \<and> file_text (subtree dir (path_parts relative)) = Some body \<and> sha = PStr (sha256 w body)"
    using verify_index_quiet [OF assms(1,2)] by blast
  obtain d' where "index_of w dir' = Inr (PDict d')" "KStr ` fst ` covered dir' = fst ` set d'"
    "\<forall>(k, sha)\<in>set d'. \<exists>relative body. k = KStr relative \<and> file_text (subtree dir' (path_parts relative)) = Some body \<and> sha = PStr (sha256 w body)"
    using verify_index_quiet [OF assms(3,4)] by blast
  with d(1) assms(5) have d': "KStr ` fst ` covered dir' = fst ` set d"
    "\<forall>(k, sha)\<in>set d. \<exists>relative body. k = KStr relative \<and> file_text (subtree dir' (path_parts relative)) = Some body \<and> sha = PStr (sha256 w body)"
    by auto
  have same: "\<exists>body. file_text (subtree dir (path_parts path)) = Some body \<and> file_text (subtree dir' (path_parts path)) = Some body'
      \<and> sha256 w body = sha256 w body'" if "KStr path \<in> fst ` set d" "file_text (subtree dir' (path_parts path)) = Some body'" for path body'
    using that d(3) d'(2) by fastforce
  have paths: "fst ` covered dir = fst ` covered dir'"
    using d(2) d'(1) by (metis inj_image_eq_iff injI pykey.inject(1))
  have eq: "body = body'" if "(path, body) \<in> covered dir" "(path, body') \<in> covered dir'" for path body body'
  proof -
    have "KStr path \<in> fst ` set d" using that(1) d(2) by force
    then have "sha256 w body = sha256 w body'"
      using same [of path body'] covered_lookup [OF that(1) assms(6)] covered_lookup [OF that(2) assms(7)] by auto
    then show ?thesis using assms(8) [of body body'] that by force
  qed
  show ?thesis using paths eq by (auto simp: image_iff set_eq_iff) (metis fst_conv image_iff prod.collapse)+
qed

text \<open>Two small run directories, the second with one changed character.\<close>

definition sample_run :: "string \<Rightarrow> fsnode" where
  "sample_run body = Directory [(''manifest.json'', Regular body 8), (''logs'', Directory [(''node-1.log'', Regular ''ready'' 8)])]"

definition sample_world :: world where
  "sample_world = \<lparr>sha256 = (\<lambda>s. s), loads = (\<lambda>_. Inr (index_value [kv ''logs/node-1.log'' (PStr ''ready''), kv ''manifest.json'' (PStr ''{}'')])),
     dumps = (\<lambda>_. ''index''), base_path = ''run'', out_of_time = (\<lambda>_. False), recursion_limit = 1000\<rparr>"

definition sample_sealed :: fsnode where
  "sample_sealed = (case sample_run ''{}'' of Directory es \<Rightarrow> Directory (es @ [(INDEX, Regular ''index'' 0)]) | n \<Rightarrow> n)"

definition no_errors :: verify_state where
  "no_errors = \<lparr>vs_integrity = [], vs_correctness = [], vs_checking = False\<rparr>"

lemma sample_sealed_verifies:
  "seal sample_world (sample_run ''{}'') = Inr sample_sealed" "verify_index sample_world sample_sealed no_errors = (Inr (), no_errors)"
  "wf_tree sample_sealed" "quiet no_errors"
  by code_simp+

text \<open>A copy on another file system.\<close>

definition sample_copy :: fsnode where
  "sample_copy = Directory [(INDEX, Regular ''index'' 1), (''logs'', Directory [(''empty'', Directory []), (''node-1.log'', Regular ''ready'' 1)]),
     (''manifest.json'', Regular ''{}'' 1)]"

lemma sample_copy_verifies:
  "verify_index sample_world sample_copy no_errors = (Inr (), no_errors)" "wf_tree sample_copy"
  "index_of sample_world sample_copy = index_of sample_world sample_sealed"
  by code_simp+

theorem tampering_detected_witness:
  "covered sample_copy = covered sample_sealed \<and>
     (\<exists>t. verify_index sample_world (Directory [(''manifest.json'', Regular ''[]'' 8), (''logs'', Directory [(''node-1.log'', Regular ''ready'' 8)]),
        (INDEX, Regular ''index'' 0)]) no_errors = (Inr (), t) \<and> vs_integrity t = [''checksum mismatch: manifest.json''])"
proof -
  have "covered sample_copy = covered sample_sealed"
    by (rule tampering_detected [OF sample_sealed_verifies(2,4) sample_copy_verifies(1) sample_sealed_verifies(4) sample_copy_verifies(3)
        sample_sealed_verifies(3) sample_copy_verifies(2)]) (simp add: sample_world_def)
  moreover have "verify_index sample_world (Directory [(''manifest.json'', Regular ''[]'' 8), (''logs'', Directory [(''node-1.log'', Regular ''ready'' 8)]),
        (INDEX, Regular ''index'' 0)]) no_errors = (Inr (), no_errors\<lparr>vs_integrity := [''checksum mismatch: manifest.json'']\<rparr>)" by code_simp
  ultimately show ?thesis by simp
qed

section \<open>A sealed directory verifies\<close>

text \<open>What the reader returns for what the writer wrote: the same index, its keys in any order.\<close>

definition index_reads_back :: "world \<Rightarrow> pydict \<Rightarrow> bool" where
  "index_reads_back w files \<longleftrightarrow>
     (\<exists>v files'. loads w (dumps w (index_value files)) = Inr v \<and> item v ''files'' = Inr (PDict files') \<and> set files' = set files)"

definition indexed :: "string list \<times> fsnode \<Rightarrow> bool" where
  "indexed = (\<lambda>(p, n). is_file (Some n) \<and> path_name p \<noteq> INDEX)"

definition index_entry :: "world \<Rightarrow> string list \<times> fsnode \<Rightarrow> pykey \<times> pyval" where
  "index_entry w = (\<lambda>(p, n). (KStr (as_posix p), PStr (sha256 w (the (file_text (Some n))))))"

lemma update_append_other: "k \<notin> fst ` set al \<Longrightarrow> AList.update k v al = al @ [(k, v)]"
  by (induction al) auto

lemma sealed_entries:
  assumes "foldE (seal_step w) [] es = Inr files" "distinct (map fst es)" "\<forall>e\<in>set es. fst e \<noteq> [] \<and> list_all valid_name (fst e)"
  shows "files = map (index_entry w) (filter indexed es) \<and> (\<forall>e\<in>set es. \<not> is_symlink (Some (snd e)))"
proof -
  define P where "P = (\<lambda>seen files. files = map (index_entry w) (filter indexed seen) \<and> (\<forall>e\<in>set seen. \<not> is_symlink (Some (snd e))))"
  have "P es files" using assms(1)
  proof (rule foldE_invariant)
    show "P [] []" by (simp add: P_def)
  next
    fix seen e rest fs fs'
    assume es: "es = seen @ e # rest" and inv: "P seen fs" and step: "seal_step w fs e = Inr fs'"
    obtain p n where e: "e = (p, n)" by (cases e)
    have link: "\<not> is_symlink (Some n)" using step by (auto simp: seal_step_def e)
    have "fs' = (if indexed e then fs @ [index_entry w e] else fs)"
    proof (cases "indexed e")
      case True
      have "KStr (as_posix p) \<notin> fst ` set fs"
      proof
        assume "KStr (as_posix p) \<in> fst ` set fs"
        then obtain e' where q: "as_posix p = as_posix (fst e')" "e' \<in> set seen" using inv by (auto simp: P_def index_entry_def)
        have "fst e' \<noteq> [] \<and> list_all valid_name (fst e')" using bspec [OF assms(3), of e'] es q(2) by simp
        moreover have "fst e \<noteq> [] \<and> list_all valid_name (fst e)" using assms(3) es by simp
        ultimately have "p = fst e'" using as_posix_inj [OF q(1)] e by simp
        then show False using assms(2) es e q(2) by force
      qed
      then show ?thesis
        using step link True by (auto simp: seal_step_def e indexed_def is_file_def index_entry_def update_append_other)
    next
      case False
      then show ?thesis using step link by (auto simp: seal_step_def e indexed_def is_file_def split: option.splits)
    qed
    then show "P (seen @ [e]) fs'" using inv link by (auto simp: P_def e)
  qed
  then show ?thesis by (simp add: P_def)
qed

lemma walk_new_file: "walk (Directory (es @ [(name, Regular body b)])) = walk (Directory es) @ [([name], Regular body b)]"
  by simp

lemma artifacts_indexed: "artifacts dir = map (\<lambda>e. as_posix (fst e)) (filter indexed (walk dir))"
  by (simp add: artifacts_def indexed_def split_def)

lemma artifacts_new_index: "artifacts (Directory (es @ [(INDEX, Regular body b)])) = artifacts (Directory es)"
  unfolding artifacts_indexed walk_new_file by (simp add: indexed_def path_name_def del: walk.simps)

lemma artifact_verified:
  assumes "(p, n) \<in> set (walk dir)" "wf_tree dir" "\<not> is_symlink (Some n)" "file_text (Some n) = Some body"
  shows "verify_artifact w dir (KStr (as_posix p), PStr (sha256 w body)) s = (Inr (), s)"
proof -
  have ok: "p \<noteq> []" "list_all valid_name p" using walk_nonempty [OF assms(1)] walk_valid [OF assms(2,1)] by auto
  have parts: "path_parts (as_posix p) = p" using path_parts_as_posix [OF ok] .
  obtain name rest where p: "p = name # rest" using ok(1) by (cases p) auto
  have "name \<noteq> [] \<and> CHR ''/'' \<notin> set name" using ok(2) by (simp add: p valid_name_def)
  then have "\<not> starts_with (as_posix p) ''/''"
    unfolding p by (cases rest; cases name) (auto simp: starts_with_def)
  moreover have "''..'' \<notin> set p" using ok(2) by (auto simp: list_all_iff valid_name_def)
  ultimately show ?thesis
    using walk_lookup [OF assms(2,1)] assms(3,4)
    by (simp add: verify_artifact_def parts is_file_def note_if_def whenA_def liftA_def)
qed

lemma loopA_silent: "(\<And>x. x \<in> set xs \<Longrightarrow> f x s = (Inr (), s)) \<Longrightarrow> loopA f xs s = (Inr (), s)"
  by (induction xs) (simp_all add: liftA_def bindA_def)

text \<open>C29: sealing a run directory makes it verifiable. Whatever directories and regular files it
  holds, the index check on the sealed directory reports nothing, given that JSON reads back what
  it wrote.\<close>

theorem sealed_directory_verifies:
  assumes "seal w dir = Inr dir'" "wf_tree dir" "\<And>files. seal_index w dir = Inr files \<Longrightarrow> index_reads_back w files"
  shows "verify_index w dir' s = (Inr (), s)"
proof -
  let ?es = "sort_key fst (walk dir)"
  obtain files where files: "foldE (seal_step w) [] ?es = Inr files" and written: "write_new w dir INDEX (dumps w (index_value files)) = Inr dir'"
    using assms(1) by (auto simp: seal_def seal_index_def)
  obtain es where es: "dir = Directory es" "map_of es INDEX = None" "dir' = Directory (es @ [(INDEX, Regular (dumps w (index_value files)) 0)])"
    using written by (cases dir) (auto simp: write_new_def path_error_def split: if_splits)
  have "distinct (map fst (walk dir))" by (rule walk_distinct [OF assms(2)])
  then have "distinct (map fst ?es)" by (simp add: distinct_map)
  moreover have "\<forall>e\<in>set ?es. fst e \<noteq> [] \<and> list_all valid_name (fst e)"
    using walk_valid [OF assms(2)] walk_nonempty by fastforce
  ultimately have f: "files = map (index_entry w) (filter indexed ?es)" "\<forall>e\<in>set (walk dir). \<not> is_symlink (Some (snd e))"
    using sealed_entries [OF files] by auto
  obtain v files' where v: "loads w (dumps w (index_value files)) = Inr v" "item v ''files'' = Inr (PDict files')" "set files' = set files"
    using assms(3) [unfolded seal_index_def, OF files] unfolding index_reads_back_def by blast
  have wf: "wf_tree dir'" using assms(2) es(1,2) by (auto simp: es(3) map_of_eq_None_iff valid_name_def INDEX_def image_iff)
  have read: "read_json w dir' INDEX = Inr v"
    using v(1) es(2) by (simp add: read_json_def read_text_def es(3) child_def map_of_append map_add_def)
  have arts: "artifacts dir' = artifacts dir" by (simp only: es(3) artifacts_new_index es(1))
  have "set (map (\<lambda>(k, _). case k of KStr s \<Rightarrow> PStr s | KInt i \<Rightarrow> PInt i) files') = PStr ` set (artifacts dir')"
    unfolding set_map v(3) f(1) arts unfolding artifacts_indexed by (simp add: image_image index_entry_def split_def)
  moreover have "mapE require_hashable (map (\<lambda>(k, _). case k of KStr s \<Rightarrow> PStr s | KInt i \<Rightarrow> PInt i) files') =
      Inr (map (\<lambda>_. ()) (map (\<lambda>(k, _). case k of KStr s \<Rightarrow> PStr s | KInt i \<Rightarrow> PInt i) files'))"
    by (rule mapE_Inr_map) (auto simp: hashable_def split: pykey.splits)
  moreover have "loopA (verify_artifact w dir') files' s = (Inr (), s)"
  proof (rule loopA_silent)
    fix e assume "e \<in> set files'"
    then obtain p n where e: "e = index_entry w (p, n)" "(p, n) \<in> set (walk dir)" "indexed (p, n)"
      unfolding v(3) f(1) by auto
    have "(p, n) \<in> set (walk dir')" using e(2) by (simp add: es del: walk.simps add: walk_new_file)
    moreover have "file_text (Some n) = Some (the (file_text (Some n)))" using e(3) by (simp add: indexed_def is_file_def)
    ultimately show "verify_artifact w dir' e s = (Inr (), s)"
      unfolding e(1) index_entry_def case_prod_conv using f(2) e(2) wf by (intro artifact_verified) auto
  qed
  ultimately show ?thesis
    by (simp add: verify_index_def read v(2) iter_of_def items_def bindA_def liftA_def note_if_def whenA_def del: mapE.simps)
qed

theorem sealed_directory_verifies_witness:
  "\<exists>dir'. seal sample_world (sample_run ''{}'') = Inr dir' \<and> verify_index sample_world dir' no_errors = (Inr (), no_errors)"
proof -
  have "index_reads_back sample_world files" if "seal_index sample_world (sample_run ''{}'') = Inr files" for files
  proof -
    have "seal_index sample_world (sample_run ''{}'') = Inr [kv ''logs/node-1.log'' (PStr ''ready''), kv ''manifest.json'' (PStr ''{}'')]" by code_simp
    then have "files = [kv ''logs/node-1.log'' (PStr ''ready''), kv ''manifest.json'' (PStr ''{}'')]" using that by simp
    then show ?thesis by (auto simp: index_reads_back_def sample_world_def index_value_def item_def)
  qed
  moreover have "wf_tree (sample_run ''{}'')" by code_simp
  ultimately show ?thesis using sealed_directory_verifies sample_sealed_verifies(1) by blast
qed

end
