(* ===== verification/Suite_Plan.thy ===== *)
theory Suite_Plan
  imports Py_Prelude
begin

text \<open>
  \<open>src/benchctl/suite_plan.py\<close>: the expansion of a suite declaration into the exact
  sequence of cases, and the arms of \<open>src/benchctl/paired.py\<close> that a declaration is made
  of. A suite is a JSON object, a plan a list of JSON objects; \<open>planned_case\<close> holds the
  fields of one entry before it is written out. The theorems show that a plan has the size
  the report expects, that its cases have distinct names and consecutive ordinals, that
  the rotation gives every arm every position once, and that the declared load windows add
  up.
\<close>

section \<open>Modes and rotation\<close>

definition MODES :: "pyval list" where
  "MODES = [PStr ''inline'', PStr ''worker'', PStr ''messages'', PStr ''pipeline'']"

definition mode_flags :: "pyval \<Rightarrow> pyval \<Rightarrow> pydict res" where
  "mode_flags mode engine =
     (if \<not> py_in mode MODES then raiseE ValueError ''unsupported embedding mode''
      else Inr [
        kv ''ordered_apply'' (PBool (\<not> py_eq mode (PStr ''inline'') \<and> py_eq engine (PStr ''rafter''))),
        kv ''peer_message_stream''
          (PBool (py_in mode [PStr ''messages'', PStr ''pipeline''] \<and> py_eq engine (PStr ''rafter''))),
        kv ''pipelined_durability''
          (PBool (py_eq mode (PStr ''pipeline'') \<and> py_eq engine (PStr ''rafter'')))])"

text \<open>\<open>arms[repeat % len(arms):] + arms[:repeat % len(arms)]\<close> for a list that is not empty\<close>

definition ordered_arms :: "'a list \<Rightarrow> nat \<Rightarrow> 'a list" where
  "ordered_arms arms repeat =
     drop (repeat mod length arms) arms @ take (repeat mod length arms) arms"

section \<open>The plan\<close>

record planned_case =
  pc_ordinal :: nat
  pc_name :: string
  pc_diagnostic :: bool
  pc_repeat :: nat
  pc_position :: nat
  pc_label :: pyval
  pc_engine :: pyval
  pc_binary_set :: pyval
  pc_options :: pydict

text \<open>The local state of \<open>execution_plan\<close>: the counter and the cases so far.\<close>

record planning =
  pl_ordinal :: nat
  pl_cases :: "planned_case list"

text \<open>\<open>f"{ordinal:03d}"\<close>\<close>

definition pad3 :: "nat \<Rightarrow> string" where
  "pad3 n = (let s = nat_str n in replicate (3 - length s) (CHR ''0'') @ s)"

definition DEFAULT_APPLICATION_CHECKPOINT_BYTES :: int where
  "DEFAULT_APPLICATION_CHECKPOINT_BYTES = 64 * 1024 * 1024"

definition DEFAULT_WAL_RECLAMATION_BYTES :: int where
  "DEFAULT_WAL_RECLAMATION_BYTES = 64 * 1024 * 1024"

definition case_name :: "nat \<Rightarrow> pyval \<Rightarrow> pyval \<Rightarrow> nat \<Rightarrow> pyval \<Rightarrow> bool \<Rightarrow> string" where
  "case_name ordinal delay label repeat rate diagnostic =
     pad3 ordinal @ ''-n'' @ py_str delay @ ''-'' @ py_str label @ ''-r'' @ nat_str (repeat + 1) @
     ''-q'' @ py_str rate @ ''-'' @ (if diagnostic then ''trace'' else ''timing'')"

definition case_options ::
  "pyval \<Rightarrow> bool \<Rightarrow> nat \<Rightarrow> pyval \<Rightarrow> pydict \<Rightarrow> pyval \<Rightarrow> pyval list \<Rightarrow> pydict" where
  "case_options delay diagnostic repeat rate flags priority arm =
     [kv ''network_delay_ms'' delay, kv ''scenario'' (PStr ''durable-kv''), kv ''smoke'' (PBool False),
      kv ''batch_size'' (PInt 64), kv ''peer_batch_size'' (arm ! 2), kv ''diagnostics'' (PBool diagnostic),
      kv ''duration'' (PInt 60), kv ''warmup'' (PInt 10)] @ flags @
     [kv ''openraft_async_flush'' (PBool (py_eq (arm ! 0) (PStr ''openraft-async''))),
      kv ''max_speculative_proposals'' (arm ! 4), kv ''max_inflight_appends'' (arm ! 6),
      kv ''combine_peer_proposals'' (arm ! 5), kv ''durable_completion_priority'' priority,
      kv ''snapshot_interval_entries'' (if length arm = 8 then arm ! 7 else PInt 0),
      kv ''application_checkpoint_bytes'' (PInt DEFAULT_APPLICATION_CHECKPOINT_BYTES),
      kv ''wal_reclamation_bytes'' (PInt DEFAULT_WAL_RECLAMATION_BYTES),
      kv ''concurrency'' (PInt 64), kv ''payload'' (PInt 512), kv ''rate'' rate,
      kv ''keyspace'' (PInt 10000), kv ''seed'' (PInt (int repeat + 1)), kv ''read_percent'' (PInt 0),
      kv ''cas_percent'' (PInt 0), kv ''timeout'' (PInt 2), kv ''variant'' (arm ! 0)]"

text \<open>The body of the innermost loop: the counter is incremented and one case is appended.\<close>

definition plan_case ::
  "pyval \<Rightarrow> pyval \<Rightarrow> bool \<Rightarrow> nat \<Rightarrow> pyval \<Rightarrow> planning \<Rightarrow> nat \<times> pyval list \<Rightarrow> planning res" where
  "plan_case suite delay diagnostic repeat rate plan = (\<lambda>(position, arm).
     let label = arm ! 0; engine = arm ! 1; binary_set = arm ! 3; prior = py_eq binary_set (PStr ''prior'') in
     bindE (item suite (if prior then ''prior_mode'' else ''candidate_mode'')) (\<lambda>mode.
     bindE (mode_flags mode engine) (\<lambda>flags.
     bindE (if py_eq engine (PStr ''rafter'')
            then item suite (if prior then ''prior_durable_completion_priority''
                             else ''candidate_durable_completion_priority'')
            else Inr (PBool False)) (\<lambda>priority.
     let ordinal = pl_ordinal plan + 1 in
     Inr \<lparr>pl_ordinal = ordinal, pl_cases = pl_cases plan @ [\<lparr>pc_ordinal = ordinal, pc_name = case_name ordinal delay label repeat rate diagnostic,
       pc_diagnostic = diagnostic, pc_repeat = repeat, pc_position = position, pc_label = label,
       pc_engine = engine, pc_binary_set = binary_set,
       pc_options = case_options delay diagnostic repeat rate flags priority arm\<rparr>]\<rparr>))))"

text \<open>The arms of a suite: their number of fields, distinct labels, and the selected
  diagnostic arms.\<close>

definition check_arms :: "pyval \<Rightarrow> pyval list list res" where
  "check_arms suite =
     bindE (item suite ''arms'') (\<lambda>v.
     bindE (iter_of v) (\<lambda>rows.
     bindE (mapE iter_of rows) (\<lambda>arms.
     bindE (raise_if (arms = [] \<or> list_ex (\<lambda>arm. length arm \<notin> {7, 8}) arms) ValueError
       ''paired arms must contain seven legacy fields or eight snapshot-aware fields'') (\<lambda>_.
     let labels = map (\<lambda>arm. arm ! 0) arms in
     bindE (mapE require_hashable labels) (\<lambda>_.
     bindE (raise_if (\<not> py_distinct labels) ValueError ''paired arm labels must be distinct'') (\<lambda>_.
     Inr arms))))))"

definition select_diagnostic :: "pyval \<Rightarrow> pyval list list \<Rightarrow> pyval list list res" where
  "select_diagnostic suite arms =
     bindE (item suite ''diagnostic_arms'') (\<lambda>v.
     bindE (if truthy v then iter_of v else Inr []) (\<lambda>labels.
     bindE (mapE require_hashable labels) (\<lambda>_.
     bindE (raise_if (labels = [] \<or> \<not> py_distinct labels) ValueError
       ''diagnostic arm labels must be distinct and nonempty'') (\<lambda>_.
     mapE (\<lambda>label. case find (\<lambda>arm. py_eq (arm ! 0) label) arms of
         Some arm \<Rightarrow> Inr arm
       | None \<Rightarrow> raiseE ValueError (''unknown diagnostic arm: '' @ py_str label)) labels))))"

text \<open>The loops over arms, rates, repetitions, the two passes (timing, then traces), delays.\<close>

definition plan_rate ::
  "pyval \<Rightarrow> pyval list list \<Rightarrow> pyval \<Rightarrow> bool \<Rightarrow> nat \<Rightarrow> planning \<Rightarrow> pyval \<Rightarrow> planning res" where
  "plan_rate suite selected_arms delay diagnostic repeat plan rate =
     foldE (plan_case suite delay diagnostic repeat rate)
       plan (List.enumerate 1 (ordered_arms selected_arms repeat))"

definition plan_repeat ::
  "pyval \<Rightarrow> pyval list list \<Rightarrow> pyval \<Rightarrow> bool \<Rightarrow> pyval \<Rightarrow> planning \<Rightarrow> int \<Rightarrow> planning res" where
  "plan_repeat suite selected_arms delay diagnostic rates plan repeat =
     bindE (iter_of rates) (\<lambda>rs. foldE (plan_rate suite selected_arms delay diagnostic (nat repeat)) plan rs)"

definition plan_pass ::
  "pyval \<Rightarrow> pyval list list \<Rightarrow> pyval list list \<Rightarrow> pyval \<Rightarrow> planning \<Rightarrow> bool \<Rightarrow> planning res" where
  "plan_pass suite arms diagnostic_arms delay plan diagnostic =
     (let selected_arms = (if diagnostic then diagnostic_arms else arms) in
      bindE (item suite (if diagnostic then ''diagnostic_rates'' else ''rates'')) (\<lambda>rates.
      bindE (if diagnostic then Inr (PInt 1) else item suite ''runs'') (\<lambda>repeats.
      bindE (range_of repeats) (\<lambda>rounds.
      foldE (plan_repeat suite selected_arms delay diagnostic rates) plan rounds))))"

definition planned_cases :: "pyval \<Rightarrow> planned_case list res" where
  "planned_cases suite =
     bindE (check_arms suite) (\<lambda>arms.
     bindE (select_diagnostic suite arms) (\<lambda>diagnostic_arms.
     bindE (item suite ''network_delays_ms'') (\<lambda>v.
     bindE (iter_of v) (\<lambda>delays.
     bindE (foldE (\<lambda>plan delay. foldE (plan_pass suite arms diagnostic_arms delay) plan [False, True])
       \<lparr>pl_ordinal = 0, pl_cases = []\<rparr> delays) (\<lambda>plan. Inr (pl_cases plan))))))"

definition plan_entry :: "planned_case \<Rightarrow> pyval" where
  "plan_entry c = PDict [
     kv ''ordinal'' (PInt (int (pc_ordinal c))), kv ''name'' (PStr (pc_name c)),
     kv ''measurement_mode'' (PStr (if pc_diagnostic c then ''diagnostic'' else ''timing'')),
     kv ''repetition'' (PInt (int (pc_repeat c) + 1)), kv ''arm_position'' (PInt (int (pc_position c))),
     kv ''arm'' (pc_label c), kv ''implementation'' (pc_engine c), kv ''binary_set'' (pc_binary_set c),
     kv ''options'' (PDict (pc_options c))]"

definition execution_plan :: "pyval \<Rightarrow> pyval list res" where
  "execution_plan suite = bindE (planned_cases suite) (\<lambda>plan. Inr (map plan_entry plan))"

section \<open>Declared load windows\<close>

definition int_item :: "pyval \<Rightarrow> string \<Rightarrow> int res" where
  "int_item v k = bindE (item v k) (\<lambda>x. case as_int x of
     Some i \<Rightarrow> Inr i
   | None \<Rightarrow> raiseE TypeError (''unsupported operand type(s) for +: '' @ quote ''int'' @ '' and ''
       @ quote (type_name x)))"

definition count_mode :: "string \<Rightarrow> pyval list \<Rightarrow> int res" where
  "count_mode mode plan =
     bindE (mapE (\<lambda>entry. item entry ''measurement_mode'') plan) (\<lambda>modes.
     Inr (int (length (filter (\<lambda>m. py_eq m (PStr mode)) modes))))"

definition sum_option :: "string \<Rightarrow> pyval list \<Rightarrow> int res" where
  "sum_option k plan =
     bindE (mapE (\<lambda>entry. bindE (item entry ''options'') (\<lambda>options. int_item options k)) plan) (\<lambda>xs.
     Inr (sum_list xs))"

definition load_window_plan :: "pyval list \<Rightarrow> pyval res" where
  "load_window_plan plan =
     bindE (count_mode ''timing'' plan) (\<lambda>timing.
     bindE (count_mode ''diagnostic'' plan) (\<lambda>diagnostic.
     bindE (sum_option ''warmup'' plan) (\<lambda>warmup.
     bindE (sum_option ''duration'' plan) (\<lambda>measurement.
     Inr (PDict [kv ''schema'' (PInt 1), kv ''cases'' (PInt (int (length plan))),
       kv ''timing_cases'' (PInt timing), kv ''diagnostic_cases'' (PInt diagnostic),
       kv ''warmup_seconds'' (PInt warmup), kv ''measurement_seconds'' (PInt measurement),
       kv ''declared_load_window_seconds'' (PInt (warmup + measurement)),
       kv ''scope'' (PStr (''declared warmup and measurement windows only; excludes builds, '' @
         ''finite qualification histories, recovery checks, and process overhead''))])))))"

section \<open>The number of cases a report expects\<close>

text \<open>\<open>results._expected_durable_cases\<close>: \<open>len\<close> of a list or dictionary.\<close>

definition len_of :: "pyval \<Rightarrow> int res" where
  "len_of v = (case v of
     PList xs \<Rightarrow> Inr (int (length xs)) | PStr s \<Rightarrow> Inr (int (length s)) | PDict d \<Rightarrow> Inr (int (length d))
   | _ \<Rightarrow> raiseE TypeError (''object of type '' @ quote (type_name v) @ '' has no len()''))"

definition int_of :: "pyval \<Rightarrow> int res" where
  "int_of v = (case as_int v of
     Some i \<Rightarrow> Inr i
   | None \<Rightarrow> raiseE TypeError (''can't multiply by non-int of type '' @ quote (type_name v)))"

definition has_key :: "pyval \<Rightarrow> string \<Rightarrow> bool" where
  "has_key v k = (case v of PDict d \<Rightarrow> map_of d (KStr k) \<noteq> None | _ \<Rightarrow> False)"

definition expected_durable_cases :: "pyval \<Rightarrow> int res" where
  "expected_durable_cases suite =
     (if has_key suite ''arms'' then
        bindE (get_or suite ''network_delays_ms'' (PList [PInt 0])) (\<lambda>v.
        bindE (len_of v) (\<lambda>delays.
        bindE (item suite ''arms'') (\<lambda>a. bindE (len_of a) (\<lambda>arms.
        bindE (item suite ''rates'') (\<lambda>r. bindE (len_of r) (\<lambda>rates.
        bindE (item suite ''runs'') (\<lambda>n. bindE (int_of n) (\<lambda>runs.
        bindE (get_or suite ''diagnostic_arms'' (PList [])) (\<lambda>d. bindE (len_of d) (\<lambda>selected.
        bindE (get_or suite ''diagnostic_rates'' r) (\<lambda>dr. bindE (len_of dr) (\<lambda>diagnostic_rates.
        let diagnostic_arms = (if selected \<noteq> 0 then selected else min 3 arms) in
        Inr (delays * arms * rates * runs + delays * diagnostic_arms * diagnostic_rates)))))))))))))
      else
        bindE (item suite ''implementations'') (\<lambda>i. bindE (len_of i) (\<lambda>implementations.
        bindE (item suite ''rates'') (\<lambda>r. bindE (len_of r) (\<lambda>rates.
        bindE (item suite ''runs'') (\<lambda>n. bindE (int_of n) (\<lambda>runs.
        Inr (implementations * rates * runs))))))))"

section \<open>Rotation\<close>

lemma length_ordered_arms [simp]: "length (ordered_arms arms r) = length arms"
  by (cases arms) (auto simp: ordered_arms_def Suc_le_eq)

lemma nth_ordered_arms:
  assumes "i < length arms"
  shows "ordered_arms arms r ! i = arms ! ((r + i) mod length arms)"
proof -
  have "ordered_arms arms r = rotate r arms"
    by (simp add: ordered_arms_def rotate_drop_take)
  then show ?thesis using assms by (simp add: nth_rotate)
qed

lemma set_ordered_arms [simp]: "set (ordered_arms arms r) = set arms"
  by (simp add: ordered_arms_def flip: rotate_drop_take)

text \<open>In each block of \<open>n\<close> consecutive residues every residue occurs once.\<close>

lemma mod_sum:
  "a < n \<Longrightarrow> b < n \<Longrightarrow> (a + b) mod n = (if a + b < n then a + b else a + b - (n :: nat))"
  by (simp add: le_mod_geq)

lemma mod_diff:
  assumes "j < n" "d < n"
  shows "(j + n - d) mod n = (if j < d then j + n - d else j - (d :: nat))"
proof (cases "j < d")
  case False
  then have "j + n - d = j - d + n" by simp
  then show ?thesis using assms False by (simp only: mod_add_self2) simp
qed (use assms in simp)

lemma card_residue:
  assumes "j < n"
  shows "card {r. r < k * n \<and> (r + i) mod n = j} = (k :: nat)"
proof -
  define c where "c = (j + n - i mod n) mod n"
  have n: "0 < n" using assms by simp
  have "(r + i) mod n = j \<longleftrightarrow> r mod n = c" for r
  proof -
    have i: "i mod n < n" and r: "r mod n < n" using n by simp_all
    have "(r + i) mod n = (r mod n + i mod n) mod n" by (simp add: mod_add_eq)
    also have "\<dots> = (if r mod n + i mod n < n then r mod n + i mod n else r mod n + i mod n - n)"
      by (rule mod_sum [OF r i])
    finally have "(r + i) mod n = (if r mod n + i mod n < n then r mod n + i mod n else r mod n + i mod n - n)" .
    moreover have "c = (if j < i mod n then j + n - i mod n else j - i mod n)"
      unfolding c_def by (rule mod_diff [OF assms i])
    moreover have "(if a + d < n then a + d else a + d - n) = j \<longleftrightarrow> a = (if j < d then j + n - d else j - d)"
      if "a < n" "d < n" for a d using that assms by auto
    ultimately show ?thesis using i r by (simp only:)
  qed
  then have "{r. r < k * n \<and> (r + i) mod n = j} = {r. r < k * n \<and> r mod n = c}" by simp
  also have "\<dots> = (\<lambda>q. q * n + c) ` {..<k}"
  proof
    have "c < n" using n by (simp add: c_def)
    then show "(\<lambda>q. q * n + c) ` {..<k} \<subseteq> {r. r < k * n \<and> r mod n = c}"
      by (auto intro: less_le_trans [of _ "Suc _ * n"] simp del: mult_Suc simp: mult_Suc [symmetric])
         (metis Suc_leI add.commute less_le_trans mult_Suc mult_le_mono1 nat_add_left_cancel_less)
    show "{r. r < k * n \<and> r mod n = c} \<subseteq> (\<lambda>q. q * n + c) ` {..<k}"
    proof
      fix r assume "r \<in> {r. r < k * n \<and> r mod n = c}"
      then have "r div n < k" "r = r div n * n + c"
        by (auto simp: less_mult_imp_div_less)
      then show "r \<in> (\<lambda>q. q * n + c) ` {..<k}" by blast
    qed
  qed
  also have "card \<dots> = k" using n by (subst card_image) (auto simp: inj_on_def)
  finally show ?thesis .
qed

section \<open>Size, order and names of a plan\<close>

lemma plan_case_Inr:
  assumes "plan_case suite delay diagnostic repeat rate plan (position, arm) = Inr q"
  obtains c where "pl_cases q = pl_cases plan @ [c]" "pl_ordinal q = pl_ordinal plan + 1" "pc_ordinal c = pl_ordinal plan + 1"
    "pc_name c = case_name (pl_ordinal plan + 1) delay (arm ! 0) repeat rate diagnostic"
    "pc_diagnostic c = diagnostic" "pc_position c = position" "pc_label c = arm ! 0" "pc_repeat c = repeat"
    "map_of (pc_options c) (KStr ''duration'') = Some (PInt 60)"
    "map_of (pc_options c) (KStr ''warmup'') = Some (PInt 10)"
  using assms by (auto simp: plan_case_def Let_def case_options_def)

lemma plan_rate_length:
  assumes "plan_rate suite arms delay diagnostic repeat plan rate = Inr q"
  shows "length (pl_cases q) = length (pl_cases plan) + length arms"
proof -
  have "length (pl_cases s') = length (pl_cases s) + 1" if "plan_case suite delay diagnostic repeat rate s x = Inr s'" for s x s'
    using that by (cases x) (auto elim!: plan_case_Inr)
  from foldE_grow [where g = "\<lambda>s. length (pl_cases s)", OF assms [unfolded plan_rate_def]] this show ?thesis by simp
qed

lemma plan_repeat_length:
  assumes "plan_repeat suite arms delay diagnostic rates plan repeat = Inr q" "iter_of rates = Inr rs"
  shows "length (pl_cases q) = length (pl_cases plan) + length rs * length arms"
  using foldE_grow [where g = "\<lambda>s. length (pl_cases s)", of "plan_rate suite arms delay diagnostic (nat repeat)" plan rs q] assms
  by (auto simp: plan_repeat_def dest: plan_rate_length)

lemma iter_len: "iter_of v = Inr xs \<Longrightarrow> len_of v = Inr (int (length xs))"
  by (cases v) (auto simp: iter_of_def len_of_def)

lemma plan_pass_length:
  assumes "plan_pass suite arms diagnostic_arms delay plan diagnostic = Inr q"
    "item suite (if diagnostic then ''diagnostic_rates'' else ''rates'') = Inr rates" "iter_of rates = Inr rs"
    "if diagnostic then n = 1 else item suite ''runs'' = Inr (PInt (int n))"
  shows "length (pl_cases q) = length (pl_cases plan) + n * (length rs * length (if diagnostic then diagnostic_arms else arms))"
proof -
  let ?step = "plan_repeat suite (if diagnostic then diagnostic_arms else arms) delay diagnostic rates"
  have "foldE ?step plan [0..int n - 1] = Inr q"
    using assms by (cases diagnostic) (auto simp: plan_pass_def Let_def range_of_def as_int_def)
  then show ?thesis
    using foldE_grow [where g = "\<lambda>s. length (pl_cases s)", of ?step plan "[0..int n - 1]" q "length rs * length (if diagnostic then diagnostic_arms else arms)"]
      plan_repeat_length [OF _ assms(3)] by (auto simp: algebra_simps)
qed

text \<open>A pass with at least one repetition has read its rates.\<close>

lemma plan_pass_rates:
  assumes "plan_pass suite arms diagnostic_arms delay plan diagnostic = Inr q"
    "diagnostic \<or> item suite ''runs'' = Inr (PInt n) \<and> 0 < n"
  obtains rates rs where "item suite (if diagnostic then ''diagnostic_rates'' else ''rates'') = Inr rates"
    "iter_of rates = Inr rs"
proof -
  obtain rates n where "item suite (if diagnostic then ''diagnostic_rates'' else ''rates'') = Inr rates"
    "foldE (plan_repeat suite (if diagnostic then diagnostic_arms else arms) delay diagnostic rates) plan [0..n - 1] = Inr q"
    "0 < n"
  proof (cases diagnostic)
    case True
    with assms(1) obtain rates where "item suite ''diagnostic_rates'' = Inr rates"
      "foldE (plan_repeat suite diagnostic_arms delay True rates) plan [0..1 - 1] = Inr q"
      unfolding plan_pass_def by (auto simp: Let_def range_of_def as_int_def)
    with True show thesis by (intro that [of rates 1]) auto
  next
    case False
    with assms obtain rates n where "item suite ''rates'' = Inr rates" "0 < n"
      "foldE (plan_repeat suite arms delay False rates) plan [0..n - 1] = Inr q"
      unfolding plan_pass_def by (auto simp: Let_def range_of_def as_int_def)
    with False show thesis by (intro that [of rates n]) auto
  qed
  moreover from this obtain xs where "[0..n - 1] = 0 # xs" by (auto simp: upto.simps [of 0])
  ultimately show ?thesis using that by (auto simp: plan_repeat_def)
qed

definition numbered :: "planned_case list \<Rightarrow> bool" where
  "numbered plan \<longleftrightarrow> (\<forall>i < length plan. pc_ordinal (plan ! i) = i + 1 \<and>
     (\<exists>delay label repeat rate diagnostic. pc_name (plan ! i) = case_name (i + 1) delay label repeat rate diagnostic))"

definition windowed :: "planned_case \<Rightarrow> bool" where
  "windowed c \<longleftrightarrow> map_of (pc_options c) (KStr ''duration'') = Some (PInt 60) \<and>
     map_of (pc_options c) (KStr ''warmup'') = Some (PInt 10)"

text \<open>The counter is the number of cases, and the cases are numbered by their positions.\<close>

definition well_planned :: "planning \<Rightarrow> bool" where
  "well_planned plan \<longleftrightarrow> pl_ordinal plan = length (pl_cases plan) \<and> numbered (pl_cases plan) \<and> list_all windowed (pl_cases plan)"

lemma plan_case_well_planned:
  assumes "plan_case suite delay diagnostic repeat rate plan p = Inr q" "well_planned plan"
  shows "well_planned q"
proof -
  let ?n = "length (pl_cases plan)"
  have n: "pl_ordinal plan = ?n" using assms(2) by (simp add: well_planned_def)
  obtain c where c: "pl_cases q = pl_cases plan @ [c]" "pl_ordinal q = ?n + 1" "pc_ordinal c = ?n + 1" "windowed c"
    "pc_name c = case_name (?n + 1) delay (snd p ! 0) repeat rate diagnostic"
    using assms(1) by (cases p) (auto elim!: plan_case_Inr simp: windowed_def n)
  have "numbered (pl_cases q)" unfolding numbered_def
  proof (intro allI impI)
    fix i assume "i < length (pl_cases q)"
    then consider "i < ?n" | "i = ?n" 
      unfolding c(1) by fastforce
    then show "pc_ordinal (pl_cases q ! i) = i + 1 \<and>
      (\<exists>delay label repeat rate diagnostic. pc_name (pl_cases q ! i) = case_name (i + 1) delay label repeat rate diagnostic)"
    proof cases
      case 1
      then show ?thesis using assms(2) by (simp add: c(1) nth_append well_planned_def numbered_def)
    next
      case 2
      then show ?thesis using c by (simp add: nth_append) blast
    qed
  qed
  then show ?thesis using assms(2) c by (simp add: well_planned_def)
qed

text \<open>What the innermost body preserves, the whole plan has.\<close>

lemma planned_cases_preserve:
  assumes "planned_cases suite = Inr cases" "P \<lparr>pl_ordinal = 0, pl_cases = []\<rparr>"
    "\<And>delay diagnostic repeat rate p x q. P p \<Longrightarrow> plan_case suite delay diagnostic repeat rate p x = Inr q \<Longrightarrow> P q"
  shows "\<exists>plan. P plan \<and> cases = pl_cases plan"
proof -
  have rate: "P q" if "plan_rate suite arms delay diagnostic repeat p rate = Inr q" "P p"
    for arms delay diagnostic repeat p rate q
    using that unfolding plan_rate_def by (rule foldE_preserve) (rule assms(3))
  have repeat: "P q" if "plan_repeat suite arms delay diagnostic rates p repeat = Inr q" "P p"
    for arms delay diagnostic rates p repeat q
    using that unfolding plan_repeat_def bindE_eq_Inr
    by (elim exE conjE foldE_preserve) (blast intro: rate)+
  have pass: "P q" if "plan_pass suite arms traced delay p diagnostic = Inr q" "P p"
    for arms traced delay p diagnostic q
    using that unfolding plan_pass_def Let_def bindE_eq_Inr
    by (elim exE conjE foldE_preserve) (blast intro: repeat)+
  obtain arms traced delays plan where l: "foldE (\<lambda>plan delay. foldE (plan_pass suite arms traced delay) plan [False, True])
      \<lparr>pl_ordinal = 0, pl_cases = []\<rparr> delays = Inr plan" "cases = pl_cases plan"
    using assms(1) unfolding planned_cases_def bindE_eq_Inr by blast
  have "P plan" using l(1) assms(2) by (rule foldE_preserve) (blast intro: pass foldE_preserve)
  then show ?thesis using l(2) by blast
qed

lemma planned_cases_well_planned:
  assumes "planned_cases suite = Inr cases" shows "numbered cases \<and> list_all windowed cases"
proof -
  have "well_planned \<lparr>pl_ordinal = 0, pl_cases = []\<rparr>" by (simp add: well_planned_def numbered_def)
  then have "\<exists>plan. well_planned plan \<and> cases = pl_cases plan"
    by (rule planned_cases_preserve [OF assms]) (rule plan_case_well_planned)
  then obtain plan where "well_planned plan" "cases = pl_cases plan" by blast
  then show ?thesis by (simp add: well_planned_def)
qed

lemma check_arms_Inr:
  assumes "check_arms suite = Inr arms"
  obtains v where "item suite ''arms'' = Inr v" "len_of v = Inr (int (length arms))" "arms \<noteq> []"
  using assms by (auto simp: check_arms_def Let_def dest!: mapE_length dest: iter_len)

lemma select_diagnostic_Inr:
  assumes "select_diagnostic suite arms = Inr selected"
  obtains v where "item suite ''diagnostic_arms'' = Inr v" "len_of v = Inr (int (length selected))"
    "selected \<noteq> []" "set selected \<subseteq> set arms"
proof -
  obtain v labels where v: "item suite ''diagnostic_arms'' = Inr v"
    "(if truthy v then iter_of v else Inr []) = Inr labels" "labels \<noteq> []"
    and sel: "mapE (\<lambda>label. case find (\<lambda>arm. py_eq (arm ! 0) label) arms of
         Some arm \<Rightarrow> Inr arm
       | None \<Rightarrow> raiseE ValueError (''unknown diagnostic arm: '' @ py_str label)) labels = Inr selected"
    using assms unfolding select_diagnostic_def bindE_eq_Inr raise_if_eq_Inr de_Morgan_disj
    by (elim exE conjE) (rule that)
  have "set selected \<subseteq> set arms"
  proof
    fix arm assume "arm \<in> set selected"
    from mapE_mem [OF sel this] obtain label where "find (\<lambda>arm. py_eq (arm ! 0) label) arms = Some arm"
      by (auto split: option.splits)
    then show "arm \<in> set arms" by (auto simp: find_Some_iff)
  qed
  moreover have "len_of v = Inr (int (length selected))" "selected \<noteq> []"
    using v mapE_length [OF sel] iter_len by (auto split: if_splits)
  ultimately show ?thesis using that v(1) by blast
qed

lemma item_has_key: "item v k = Inr x \<Longrightarrow> has_key v k"
  by (auto simp: item_eq_Inr has_key_def)

lemma item_get_or: "item v k = Inr x \<Longrightarrow> get_or v k dflt = Inr x"
  by (auto simp: item_eq_Inr get_or_eq_Inr dict_get_def)

lemma planned_cases_length:
  assumes plan: "planned_cases suite = Inr plan" and runs: "item suite ''runs'' = Inr (PInt n)" "0 < n"
    and nonempty: "plan \<noteq> []"
  shows "expected_durable_cases suite = Inr (int (length plan))"
proof -
  obtain arms selected v delays last where arms: "check_arms suite = Inr arms"
    and selected: "select_diagnostic suite arms = Inr selected"
    and delays: "item suite ''network_delays_ms'' = Inr v" "iter_of v = Inr delays"
    and loop: "foldE (\<lambda>plan delay. foldE (plan_pass suite arms selected delay) plan [False, True]) \<lparr>pl_ordinal = 0, pl_cases = []\<rparr> delays = Inr last"
    and last: "plan = pl_cases last"
    using plan unfolding planned_cases_def bindE_eq_Inr by blast
  from loop nonempty last obtain delay rest where "delays = delay # rest" by (cases delays) auto
  with loop obtain p0 p1 where "plan_pass suite arms selected delay \<lparr>pl_ordinal = 0, pl_cases = []\<rparr> False = Inr p0"
    "plan_pass suite arms selected delay p0 True = Inr p1" by auto
  note passes = this
  obtain rates rs where r: "item suite ''rates'' = Inr rates" "iter_of rates = Inr rs"
    using plan_pass_rates [OF passes(1), of n] runs by auto
  obtain drates drs where dr: "item suite ''diagnostic_rates'' = Inr drates" "iter_of drates = Inr drs"
    using plan_pass_rates [OF passes(2)] by auto
  have run: "item suite ''runs'' = Inr (PInt (int (nat n)))" using runs by simp
  have "length (pl_cases q) = length (pl_cases p) + (nat n * (length rs * length arms) + length drs * length selected)"
    if "foldE (plan_pass suite arms selected delay) p [False, True] = Inr q" for delay p q
  proof -
    from that obtain p' where "plan_pass suite arms selected delay p False = Inr p'"
      "plan_pass suite arms selected delay p' True = Inr q" by auto
    then show ?thesis
      using plan_pass_length [of suite arms selected delay p False p' rates rs "nat n"]
        plan_pass_length [of suite arms selected delay p' True q drates drs 1] r dr run by simp
  qed
  with foldE_grow [where g = "\<lambda>s. length (pl_cases s)", OF loop] have len: "length plan =
    length delays * (nat n * (length rs * length arms) + length drs * length selected)" by (simp add: last)
  obtain va where va: "item suite ''arms'' = Inr va" "len_of va = Inr (int (length arms))"
    using check_arms_Inr [OF arms] .
  obtain vs where vs: "item suite ''diagnostic_arms'' = Inr vs" "len_of vs = Inr (int (length selected))" "selected \<noteq> []"
    using select_diagnostic_Inr [OF selected] .
  have "expected_durable_cases suite = Inr (int (length delays) * int (length arms) * int (length rs) * n
      + int (length delays) * int (length selected) * int (length drs))"
    using va vs item_has_key [OF va(1)] item_get_or [OF vs(1)] item_get_or [OF delays(1)] item_get_or [OF dr(1)]
      iter_len [OF delays(2)] iter_len [OF r(2)] iter_len [OF dr(2)] r(1) runs
    by (simp add: expected_durable_cases_def int_of_def as_int_def)
  then show ?thesis using runs(2) by (simp add: len algebra_simps)
qed

lemma plan_entries: "execution_plan suite = Inr plan \<Longrightarrow> \<exists>cases. planned_cases suite = Inr cases \<and> plan = map plan_entry cases"
  by (auto simp: execution_plan_def)

section \<open>Names\<close>

lemma pad3_digits: "list_all is_digit (pad3 n)"
proof -
  have "is_digit (CHR ''0'')" by (simp add: is_digit_def)
  then show ?thesis
    using dec_str_digits [of "int n"] by (auto simp: pad3_def Let_def int_str_def list_all_iff)
qed

lemma pad3_inject: "pad3 m = pad3 n \<longleftrightarrow> m = n"
proof
  have zeros: "parse_digits True 0 (replicate k (CHR ''0'') @ s) = parse_digits True 0 s" for k s
    by (induction k) (simp_all add: is_digit_def digit_val_def)
  have "parse_digits True 0 (pad3 n) = Some (int n)" for n
    by (simp add: pad3_def Let_def zeros int_str_def)
  then show "pad3 m = pad3 n \<Longrightarrow> m = n" by (metis of_nat_eq_iff option.inject)
qed simp

lemma case_name_inject:
  assumes "case_name m d l r q t = case_name n d' l' r' q' t'"
  shows "m = n"
proof -
  have "takeWhile is_digit (case_name k d l r q t) = pad3 k" for k d l r q t
  proof -
    have "\<not> is_digit (CHR ''-'')" by (simp add: is_digit_def)
    then show ?thesis
      using pad3_digits [of k] by (simp add: case_name_def takeWhile_append list_all_iff)
  qed
  with assms have "pad3 m = pad3 n" by metis
  then show ?thesis by (simp add: pad3_inject)
qed

lemma numbered_names: "numbered plan \<Longrightarrow> distinct (map pc_name plan)"
  unfolding distinct_conv_nth numbered_def
  by (metis (no_types, lifting) add_right_cancel case_name_inject length_map nth_map)

section \<open>Properties\<close>

definition sample_suite :: pyval where
  "sample_suite = PDict [
     kv ''arms'' (PList [
       PList [PStr ''rafter'', PStr ''rafter'', PInt 64, PStr ''candidate'', PInt 0, PBool False, PInt 1],
       PList [PStr ''prior'', PStr ''rafter'', PInt 64, PStr ''prior'', PInt 0, PBool False, PInt 1],
       PList [PStr ''openraft-async'', PStr ''openraft'', PInt 64, PStr ''candidate'', PInt 0, PBool False, PInt 1, PInt 0]]),
     kv ''diagnostic_arms'' (PList [PStr ''rafter'']), kv ''network_delays_ms'' (PList [PInt 0, PInt 1]),
     kv ''rates'' (PList [PInt 1000]), kv ''diagnostic_rates'' (PList [PInt 1000]), kv ''runs'' (PInt 3),
     kv ''prior_mode'' (PStr ''worker''), kv ''candidate_mode'' (PStr ''pipeline''),
     kv ''prior_durable_completion_priority'' (PBool False),
     kv ''candidate_durable_completion_priority'' (PBool True)]"

definition plan_count :: "pyval list res \<Rightarrow> nat" where
  "plan_count r = (case r of Inl _ \<Rightarrow> 0 | Inr plan \<Rightarrow> length plan)"

lemma sample_plan: "plan_count (execution_plan sample_suite) = 20"
  by code_simp

lemma sample_plan_Inr: "\<exists>plan. execution_plan sample_suite = Inr plan \<and> length plan = 20"
  using sample_plan by (auto simp: plan_count_def split: sum.splits)

lemma sample_runs: "item sample_suite ''runs'' = Inr (PInt 3)"
  by code_simp

text \<open>C6: the number of cases that \<open>execution_plan\<close> produces is the number that the report
  computes from the same declaration with \<open>_expected_durable_cases\<close>: delays times arms times
  rates times runs, and delays times diagnostic arms times diagnostic rates.\<close>

theorem plan_has_expected_size:
  assumes "execution_plan suite = Inr plan" "plan \<noteq> []" "item suite ''runs'' = Inr (PInt n)" "0 < n"
  shows "expected_durable_cases suite = Inr (int (length plan))"
proof -
  obtain cases where "planned_cases suite = Inr cases" "plan = map plan_entry cases"
    using plan_entries [OF assms(1)] by blast
  then show ?thesis using planned_cases_length [of suite cases n] assms by simp
qed

theorem plan_has_expected_size_witness: "expected_durable_cases sample_suite = Inr 20"
proof -
  obtain plan where plan: "execution_plan sample_suite = Inr plan" "length plan = 20" using sample_plan_Inr by blast
  then have "plan \<noteq> []" by auto
  then show ?thesis using plan_has_expected_size [OF plan(1) _ sample_runs] plan(2) by simp
qed

lemma plan_ordinals_and_names:
  assumes "execution_plan suite = Inr plan"
  shows "map (\<lambda>entry. item entry ''ordinal'') plan = map (\<lambda>i. Inr (PInt (int i))) [1..<length plan + 1]"
    and "distinct (map (\<lambda>entry. item entry ''name'') plan)"
proof -
  obtain cases where cases: "planned_cases suite = Inr cases" "plan = map plan_entry cases"
    using plan_entries [OF assms] by blast
  have n: "numbered cases" using planned_cases_well_planned [OF cases(1)] by simp
  have ordinal: "item (plan_entry c) ''ordinal'' = Inr (PInt (int (pc_ordinal c)))"
    and name: "item (plan_entry c) ''name'' = Inr (PStr (pc_name c))" for c
    by (simp_all add: plan_entry_def item_eq_Inr)
  show "map (\<lambda>entry. item entry ''ordinal'') plan = map (\<lambda>i. Inr (PInt (int i))) [1..<length plan + 1]"
    using n by (auto simp: cases(2) ordinal numbered_def nth_append intro!: nth_equalityI simp del: upt_Suc)
  have "map (\<lambda>entry. item entry ''name'') plan = map (\<lambda>s. Inr (PStr s)) (map pc_name cases)"
    by (simp add: cases(2) name)
  then show "distinct (map (\<lambda>entry. item entry ''name'') plan)"
    using numbered_names [OF n] by (simp only: distinct_map) (auto simp: inj_on_def)
qed

text \<open>C7: the cases of a plan are numbered \<open>1, 2, \<dots>\<close> in order, and no two of them have the
  same name, so no two cases of a suite share an evidence directory.\<close>

theorem plan_names_distinct:
  assumes "execution_plan suite = Inr plan"
  shows "map (\<lambda>entry. item entry ''ordinal'') plan = map (\<lambda>i. Inr (PInt (int i))) [1..<length plan + 1] \<and>
    distinct (map (\<lambda>entry. item entry ''name'') plan)"
  by (intro conjI) (rule plan_ordinals_and_names [OF assms])+

theorem plan_names_distinct_witness:
  "\<exists>plan. execution_plan sample_suite = Inr plan \<and> length plan = 20 \<and> distinct (map (\<lambda>entry. item entry ''name'') plan)"
  using sample_plan_Inr plan_names_distinct by blast

text \<open>C8: the rotation of \<open>ordered_arms\<close> is balanced. When the number of repetitions is a
  multiple \<open>k\<close> of the number of arms, every arm occupies every position exactly \<open>k\<close> times.\<close>

theorem rotation_balanced:
  assumes "distinct arms" "arm \<in> set arms" "i < length arms"
  shows "card {r. r < k * length arms \<and> ordered_arms arms r ! i = arm} = k"
proof -
  obtain j where j: "j < length arms" "arm = arms ! j" using assms(2) by (auto simp: in_set_conv_nth)
  have "ordered_arms arms r ! i = arm \<longleftrightarrow> (r + i) mod length arms = j" for r
  proof -
    have "(r + i) mod length arms < length arms" by (rule mod_less_divisor [OF le_less_trans [OF le0 j(1)]])
    then show ?thesis using assms j by (simp add: nth_ordered_arms nth_eq_iff_index_eq)
  qed
  then show ?thesis using card_residue [OF j(1)] by simp
qed

theorem rotation_balanced_witness:
  "card {r. r < 2 * length [1 :: nat, 2, 3] \<and> ordered_arms [1 :: nat, 2, 3] r ! 1 = 3} = 2"
  by (rule rotation_balanced) simp_all

text \<open>The load windows declared for a plan: ten seconds of warmup and sixty of
  measurement for each case, every case counted either as timing or as diagnostic.\<close>

theorem load_windows_of_plan:
  assumes "execution_plan suite = Inr plan"
  shows "\<exists>d timing diagnostic. load_window_plan plan = Inr (PDict d) \<and>
    map_of d (KStr ''cases'') = Some (PInt (int (length plan))) \<and>
    map_of d (KStr ''timing_cases'') = Some (PInt timing) \<and>
    map_of d (KStr ''diagnostic_cases'') = Some (PInt diagnostic) \<and>
    timing + diagnostic = int (length plan) \<and>
    map_of d (KStr ''warmup_seconds'') = Some (PInt (10 * int (length plan))) \<and>
    map_of d (KStr ''measurement_seconds'') = Some (PInt (60 * int (length plan))) \<and>
    map_of d (KStr ''declared_load_window_seconds'') = Some (PInt (70 * int (length plan)))"
proof -
  obtain cases where cases: "planned_cases suite = Inr cases" "plan = map plan_entry cases"
    using plan_entries [OF assms] by blast
  have w: "list_all windowed cases" using planned_cases_well_planned [OF cases(1)] by simp
  have mode: "mapE (\<lambda>entry. item entry ''measurement_mode'') plan =
    Inr (map (\<lambda>c. PStr (if pc_diagnostic c then ''diagnostic'' else ''timing'')) cases)"
    unfolding cases(2) by (induction cases) (simp_all add: plan_entry_def item_eq_Inr)
  have option: "sum_option k plan = Inr (x * int (length cases))"
    if "\<And>c. windowed c \<Longrightarrow> int_item (PDict (pc_options c)) k = Inr x" for k x
  proof -
    have "mapE (\<lambda>entry. bindE (item entry ''options'') (\<lambda>options. int_item options k)) plan =
      Inr (map (\<lambda>_. x) cases)"
      using w unfolding cases(2) by (induction cases) (auto simp: plan_entry_def item_def that)
    then show ?thesis by (simp add: sum_option_def sum_list_triv)
  qed
  have sums: "sum_option ''warmup'' plan = Inr (10 * int (length cases))"
    "sum_option ''duration'' plan = Inr (60 * int (length cases))"
    by (rule option, simp add: windowed_def int_item_def item_def as_int_def)+
  have "length (filter pc_diagnostic cases) + length (filter (Not \<circ> pc_diagnostic) cases) = length cases"
    by (induction cases) auto
  then have "int (length (filter (\<lambda>c. \<not> pc_diagnostic c) cases)) + int (length (filter pc_diagnostic cases)) = int (length plan)"
    by (simp add: cases(2) comp_def)
  moreover have "count_mode ''timing'' plan = Inr (int (length (filter (\<lambda>c. \<not> pc_diagnostic c) cases)))"
    "count_mode ''diagnostic'' plan = Inr (int (length (filter pc_diagnostic cases)))"
    unfolding count_mode_def mode by (simp_all add: filter_map comp_def cong: if_cong)
  ultimately show ?thesis
    by (simp add: load_window_plan_def sums) (simp add: cases(2))
qed

theorem load_windows_of_plan_witness:
  "\<exists>plan d. execution_plan sample_suite = Inr plan \<and> load_window_plan plan = Inr (PDict d) \<and>
     map_of d (KStr ''declared_load_window_seconds'') = Some (PInt 1400)"
proof -
  obtain plan where plan: "execution_plan sample_suite = Inr plan" "length plan = 20" using sample_plan_Inr by blast
  then show ?thesis using load_windows_of_plan [OF plan(1)] by auto
qed

end
