(* ===== verification/Micro_Report.thy ===== *)
theory Micro_Report
  imports Sealing Suite_Plan
begin

text \<open>
  \<open>src/benchctl/micro_report.py\<close>: the table over repeated in-memory benchmark processes, and the
  check of a recorded report against the raw reports of its processes. The page that \<open>render\<close>
  writes is not modelled.
\<close>

section \<open>Groups of samples\<close>

type_synonym group_key = "pyval \<times> pyval"
type_synonym sample = "pyval \<times> pyval"
type_synonym groups = "(group_key \<times> sample list) list"

definition key_eq :: "group_key \<Rightarrow> group_key \<Rightarrow> bool" where
  "key_eq a b = (py_eq (fst a) (fst b) \<and> py_eq (snd a) (snd b))"

definition key_repr :: "group_key \<Rightarrow> string" where
  "key_repr k = ''('' @ py_repr (fst k) @ '', '' @ py_repr (snd k) @ '')''"

fun add_sample :: "group_key \<Rightarrow> sample \<Rightarrow> groups \<Rightarrow> groups" where
  "add_sample k s [] = [(k, [s])]"
| "add_sample k s ((l, ss) # gs) = (if key_eq l k then (l, ss @ [s]) # gs else (l, ss) # add_sample k s gs)"

text \<open>\<open>v <= w\<close>\<close>

definition py_le :: "pyval \<Rightarrow> pyval \<Rightarrow> bool res" where
  "py_le v w = (case (num_of v, num_of w) of
     (Some x, Some y) \<Rightarrow> Inr (f_le x y)
   | _ \<Rightarrow> (case (v, w) of (PStr s, PStr t) \<Rightarrow> Inr (s \<le> t) | _ \<Rightarrow> order_error ''<='' v w))"

text \<open>\<open>type(v) in (int, float) and math.isfinite(v) and not v < 0\<close>\<close>

definition measured :: "pyval \<Rightarrow> bool res" where
  "measured v = (case v of
     PInt i \<Rightarrow> bindE (py_isfinite v) (\<lambda>f. Inr (f \<and> 0 \<le> i))
   | PFloat x \<Rightarrow> Inr (is_finite x \<and> \<not> f_lt x (Fl 0))
   | _ \<Rightarrow> Inr False)"

definition latency :: "pyval \<Rightarrow> string \<Rightarrow> pyval res" where
  "latency workload p = bindE (item workload ''commit_latency_us'') (\<lambda>l. item l p)"

definition check_workload :: "pyval \<Rightarrow> unit res" where
  "check_workload workload =
     bindE (item workload ''proposals_per_s'') (\<lambda>a. bindE (item workload ''elapsed_ms'') (\<lambda>b.
     bindE (latency workload ''p50'') (\<lambda>c. bindE (latency workload ''p99'') (\<lambda>d.
     bindE (anyE (\<lambda>v. bindE (measured v) (\<lambda>ok. Inr (\<not> ok))) [a, b, c, d]) (\<lambda>bad.
     bindE (raise_if bad ValueError ''invalid microbenchmark measurement'') (\<lambda>_.
     bindE (item workload ''proposals'') (\<lambda>n. bindE (py_le n (PInt 0)) (\<lambda>none.
     bindE (if none then Inr True else py_le b (PInt 0)) (\<lambda>empty.
     raise_if empty ValueError ''empty microbenchmark workload'')))))))))"

text \<open>The keys of the run and the groups so far.\<close>

definition workload_step :: "pyval \<Rightarrow> group_key list \<times> groups \<Rightarrow> pyval \<Rightarrow> (group_key list \<times> groups) res" where
  "workload_step report = (\<lambda>(keys, gs) workload.
     bindE (item report ''library'') (\<lambda>library. bindE (item workload ''name'') (\<lambda>name.
     bindE (require_hashable library) (\<lambda>_. bindE (require_hashable name) (\<lambda>_.
     let key = (library, name) in
     bindE (raise_if (list_ex (\<lambda>k. key_eq k key) keys) ValueError (''duplicate microbenchmark workload: '' @ key_repr key)) (\<lambda>_.
     bindE (check_workload workload) (\<lambda>_.
     Inr (keys @ [key], add_sample key (report, workload) gs))))))))"

definition report_step :: "group_key list \<times> groups \<Rightarrow> pyval \<Rightarrow> (group_key list \<times> groups) res" where
  "report_step s report =
     bindE (bindE (item report ''workloads'') iter_of) (\<lambda>workloads. foldE (workload_step report) s workloads)"

definition same_keys :: "group_key list \<Rightarrow> group_key list \<Rightarrow> bool" where
  "same_keys a b = (list_all (\<lambda>k. list_ex (key_eq k) b) a \<and> list_all (\<lambda>k. list_ex (key_eq k) a) b)"

definition run_step :: "group_key list option \<times> groups \<Rightarrow> pyval \<Rightarrow> (group_key list option \<times> groups) res" where
  "run_step = (\<lambda>(expected, gs) run.
     bindE (bindE (item run ''results'') iter_of) (\<lambda>reports.
     bindE (foldE report_step ([], gs) reports) (\<lambda>(keys, gs').
     bindE (raise_if (keys = [] \<or> (case expected of Some e \<Rightarrow> \<not> same_keys keys e | None \<Rightarrow> False)) ValueError
       ''microbenchmark workload set changed between repetitions'') (\<lambda>_. Inr (Some keys, gs')))))"

section \<open>Rows\<close>

definition key_lt :: "group_key \<Rightarrow> group_key \<Rightarrow> bool res" where
  "key_lt a b = (if py_eq (fst a) (fst b) then py_lt (snd a) (snd b) else py_lt (fst a) (fst b))"

fun insert_group :: "group_key \<times> sample list \<Rightarrow> groups \<Rightarrow> groups res" where
  "insert_group g [] = Inr [g]"
| "insert_group g (h # gs) = bindE (key_lt (fst g) (fst h)) (\<lambda>less.
     if less then Inr (g # h # gs) else bindE (insert_group g gs) (\<lambda>gs'. Inr (h # gs')))"

definition sorted_groups :: "groups \<Rightarrow> groups res" where
  "sorted_groups gs = foldE (\<lambda>sorted g. insert_group g sorted) [] gs"

text \<open>\<open>len({x for x in xs}) != 1\<close> for a nonempty list.\<close>

definition varies :: "pyval list \<Rightarrow> bool res" where
  "varies xs = bindE (mapE require_hashable xs) (\<lambda>_. Inr (\<not> list_all (py_eq (hd xs)) (tl xs)))"

definition number_of :: "pyval \<Rightarrow> rat" where
  "number_of v = (case num_of v of Some (Fl x) \<Rightarrow> x | _ \<Rightarrow> 0)"

text \<open>\<open>statistics.median\<close>, \<open>min\<close> and \<open>max\<close> of finite numbers.\<close>

definition py_median :: "pyval list \<Rightarrow> pyval res" where
  "py_median xs =
     (let vs = sort_key number_of xs; n = length vs in
      if odd n then Inr (vs ! (n div 2))
      else bindE (py_add (vs ! (n div 2 - 1)) (vs ! (n div 2))) (\<lambda>v. bindE (py_div v (PInt 2)) (\<lambda>x. Inr (PFloat x))))"

definition least :: "pyval list \<Rightarrow> pyval" where
  "least xs = hd (sort_key number_of xs)"

definition greatest :: "pyval list \<Rightarrow> pyval" where
  "greatest xs = hd (sort_key (\<lambda>v. - number_of v) xs)"

definition row_fields :: "string list" where
  "row_fields = [''proposals'', ''payload_bytes'', ''max_in_flight'']"

definition group_row :: "group_key \<times> sample list \<Rightarrow> pyval res" where
  "group_row = (\<lambda>((library, workload), samples).
     bindE (mapE (\<lambda>name.
       bindE (mapE (\<lambda>(_, s). item s name) samples) (\<lambda>xs. bindE (varies xs) (\<lambda>changed.
       raise_if changed ValueError (''microbenchmark configuration changed: '' @ name)))) row_fields) (\<lambda>_.
     bindE (mapE (\<lambda>(r, _). item r ''commit_latency_definition'') samples) (\<lambda>definitions. bindE (varies definitions) (\<lambda>changed.
     bindE (raise_if changed ValueError ''microbenchmark completion boundary changed'') (\<lambda>_.
     bindE (mapE (\<lambda>(_, s). item s ''proposals_per_s'') samples) (\<lambda>rates. bindE (py_median rates) (\<lambda>rate.
     bindE (bindE (mapE (\<lambda>(_, s). latency s ''p50'') samples) py_median) (\<lambda>p50.
     bindE (bindE (mapE (\<lambda>(_, s). latency s ''p99'') samples) py_median) (\<lambda>p99.
     bindE (mapE (\<lambda>name. bindE (item (snd (hd samples)) name) (\<lambda>v. Inr (kv name v))) row_fields) (\<lambda>configuration.
     Inr (PDict ([kv ''library'' library, kv ''workload'' workload, kv ''runs'' (PInt (int (length samples))),
       kv ''proposals_per_s'' (PDict [kv ''min'' (least rates), kv ''median'' rate, kv ''max'' (greatest rates)]),
       kv ''p50_us'' p50, kv ''p99_us'' p99, kv ''completion'' (hd definitions)] @ configuration))))))))))))"

definition micro_summarize :: "pyval list \<Rightarrow> pyval list res" where
  "micro_summarize runs =
     bindE (foldE run_step (None, []) runs) (\<lambda>(_, gs).
     bindE (raise_if (gs = []) ValueError ''no microbenchmark results'') (\<lambda>_.
     bindE (sorted_groups gs) (\<lambda>sorted. mapE group_row sorted)))"

section \<open>Verification of a report\<close>

definition MICRO_MODES :: "(string \<times> string list) list" where
  "MICRO_MODES = [(''full'', [''bench-rafter'', ''bench-raft-rs'', ''bench-openraft'']),
     (''rafter-only'', [''bench-rafter'', ''bench-rafter-service'', ''bench-rafter-codec'', ''bench-rafter-multiraft''])]"

definition mode_binaries :: "pyval \<Rightarrow> string list res" where
  "mode_binaries mode = bindE (require_hashable mode) (\<lambda>_.
     case mode of
       PStr s \<Rightarrow> (case map_of MICRO_MODES s of Some bs \<Rightarrow> Inr bs | None \<Rightarrow> raiseE KeyError (repr_str s))
     | _ \<Rightarrow> raiseE KeyError (py_repr mode))"

text \<open>\<open>set(v) == set(names)\<close> and \<open>name in v\<close>\<close>

definition same_set :: "pyval \<Rightarrow> string list \<Rightarrow> bool res" where
  "same_set v names = bindE (iter_of v) (\<lambda>xs. bindE (mapE require_hashable xs) (\<lambda>_. Inr (set xs = PStr ` set names)))"

definition contains_name :: "pyval \<Rightarrow> string \<Rightarrow> bool res" where
  "contains_name v name = (case v of
     PDict d \<Rightarrow> Inr (map_of d (KStr name) \<noteq> None)
   | PList xs \<Rightarrow> Inr (py_in (PStr name) xs)
   | PStr s \<Rightarrow> Inr (\<exists>k\<le>length s. starts_with (drop k s) name)
   | _ \<Rightarrow> raiseE TypeError (''argument of type '' @ quote (type_name v) @ '' is not iterable''))"

text \<open>\<open>v.startswith(prefix)\<close>\<close>

definition py_startswith :: "pyval \<Rightarrow> string \<Rightarrow> bool res" where
  "py_startswith v prefix = (case v of PStr s \<Rightarrow> Inr (starts_with s prefix) | _ \<Rightarrow> attr_error v ''startswith'')"

definition raw_report :: "world \<Rightarrow> fsnode \<Rightarrow> pyval \<Rightarrow> pyval \<Rightarrow> string \<Rightarrow> pyval res" where
  "raw_report w dir provenance number binary =
     bindE (bindE (item provenance ''binaries'') (\<lambda>bs. contains_name bs binary)) (\<lambda>known.
     bindE (raise_if (\<not> known) ValueError ''unknown benchmark binary'') (\<lambda>_.
     bindE (read_json w dir (''run-'' @ py_str number @ ''-'' @ binary @ ''.json'')) (\<lambda>raw.
     bindE (bindE (get_or raw ''library'' (PStr [])) (\<lambda>l. py_startswith l ''rafter'')) (\<lambda>rafter.
     bindE (if rafter then bindE (get raw ''version'') (\<lambda>v. bindE (item provenance ''rafter'') (\<lambda>r. bindE (item r ''rev'') (\<lambda>rev.
         Inr (\<not> py_eq v rev)))) else Inr False) (\<lambda>foreign.
     bindE (raise_if foreign ValueError ''Rafter benchmark identity does not match selected provenance'') (\<lambda>_. Inr raw))))))"

definition replay_run :: "world \<Rightarrow> fsnode \<Rightarrow> pyval \<Rightarrow> string list \<Rightarrow> nat \<times> pyval \<Rightarrow> pyval res" where
  "replay_run w dir provenance binaries = (\<lambda>(index, run).
     let k = index mod length binaries; order = drop k binaries @ take k binaries in
     bindE (item run ''run'') (\<lambda>number.
     bindE (if number \<noteq> PInt (int index + 1) then Inr True
       else bindE (item run ''execution_order'') (\<lambda>x. Inr (\<not> py_eq x (PList (map PStr order))))) (\<lambda>changed.
     bindE (raise_if changed ValueError ''microbenchmark repetition order changed'') (\<lambda>_.
     bindE (mapE (raw_report w dir provenance number) order) (\<lambda>reports.
     bindE (items run) (\<lambda>r. Inr (PDict (AList.update (KStr ''results'') (PList reports) r))))))))"

definition verify_report :: "world \<Rightarrow> fsnode \<Rightarrow> unit res" where
  "verify_report w dir =
     bindE (read_json w dir ''provenance.json'') (\<lambda>provenance.
     bindE (item provenance ''kind'') (\<lambda>kind.
     bindE (raise_if (\<not> py_eq kind (PStr ''in-memory'') \<or> path_exists dir ''failure.json'') ValueError
       ''microbenchmark run failed or has an unknown kind'') (\<lambda>_.
     bindE (bindE (read_json w dir ''completion.json'') (\<lambda>c. item c ''status'')) (\<lambda>status.
     bindE (raise_if (\<not> py_eq status (PStr ''passed'')) ValueError ''microbenchmark run is incomplete'') (\<lambda>_.
     bindE (read_json w dir ''report.json'') (\<lambda>report.
     bindE (item report ''rafter'') (\<lambda>a. bindE (item provenance ''rafter'') (\<lambda>b.
     bindE (if \<not> py_eq a b then Inr True else bindE (bindE (item report ''runs'') len_of) (\<lambda>n.
         bindE (item provenance ''runs'') (\<lambda>m. Inr (\<not> py_eq (PInt n) m)))) (\<lambda>differs.
     bindE (raise_if differs ValueError ''microbenchmark provenance mismatch'') (\<lambda>_.
     bindE (bindE (item provenance ''mode'') mode_binaries) (\<lambda>binaries.
     bindE (bindE (item provenance ''binaries'') (\<lambda>bs. same_set bs binaries)) (\<lambda>same.
     bindE (raise_if (\<not> same) ValueError ''microbenchmark binary set does not match its mode'') (\<lambda>_.
     bindE (bindE (item report ''runs'') iter_of) (\<lambda>runs.
     bindE (mapE (replay_run w dir provenance binaries) (List.enumerate 0 runs)) (\<lambda>replay.
     bindE (item report ''results'') (\<lambda>results. bindE (micro_summarize replay) (\<lambda>rows.
     bindE (if \<not> py_eq results (PList rows) then Inr True
       else bindE (item report ''runs'') (\<lambda>recorded_runs. Inr (\<not> py_eq recorded_runs (PList replay)))) (\<lambda>wrong.
     raise_if wrong ValueError ''microbenchmark aggregate does not match raw reports''))))))))))))))))))"

end
