(* ===== verification/Activity.thy ===== *)
theory Activity
  imports Py_Prelude Suite_Plan
begin

text \<open>
  Receipts computed from two status snapshots: \<open>src/benchctl/completion_priority.py\<close>,
  \<open>src/benchctl/pipeline.py\<close> and \<open>src/benchctl/replication_windows.py\<close>. A snapshot maps node
  ids to status replies. The counters of a node are read, checked and subtracted. The
  locale \<open>node_deltas\<close> states what both counter receipts rely on; the theorems show that a
  receipt exists only for enabled counters that did not decrease, that its entries are the
  exact differences, which receipts of older schemas match, and that an accepted window
  receipt means that every leader bounded every other member.
\<close>

section \<open>Reading snapshots\<close>

definition lookup :: "(string \<times> 'a) list \<Rightarrow> string \<Rightarrow> 'a res" where
  "lookup t k = (case map_of t k of Some x \<Rightarrow> Inr x | None \<Rightarrow> raiseE KeyError (quote k))"

text \<open>\<open>{str(node) for node in snapshot}\<close>\<close>

definition node_names :: "pyval \<Rightarrow> string set res" where
  "node_names snapshot = bindE (iter_of snapshot) (\<lambda>ks. Inr (set (map py_str ks)))"

definition three_nodes :: "string set" where
  "three_nodes = {''1'', ''2'', ''3''}"

definition by_node :: "(string \<times> int) list \<Rightarrow> pyval" where
  "by_node deltas = PDict (map (\<lambda>(node, i). kv node (PInt i)) deltas)"

section \<open>Durable completion priority\<close>

definition CORE_FIELDS :: "string list" where
  "CORE_FIELDS = [''prioritized_peer_batches'', ''prioritized_peer_events'', ''pre_persistence_client_completions'']"

definition LOOKAHEAD_FIELD :: string where
  "LOOKAHEAD_FIELD = ''prioritized_client_inputs_bypassed''"

definition priority_fields :: "bool \<Rightarrow> string list" where
  "priority_fields lookahead = CORE_FIELDS @ (if lookahead then [LOOKAHEAD_FIELD] else [])"

definition counter_values :: "pydict \<Rightarrow> string list \<Rightarrow> (string \<times> pyval) list" where
  "counter_values receipt names = map (\<lambda>name. (name, dict_get receipt name PNone)) names"

definition priority_node :: "pyval \<Rightarrow> (bool \<times> (string \<times> int) list) res" where
  "priority_node status =
     bindE (get_or status ''info'' (PDict [])) (\<lambda>info.
     bindE (get_or info ''durable_completion_priority'' (PDict [])) (\<lambda>receipt.
     bindE (get status ''status'') (\<lambda>state.
     bindE (if py_eq state (PStr ''ok'') then get receipt ''enabled'' else Inr PNone) (\<lambda>enabled.
     bindE (raise_if (enabled \<noteq> PBool True) ValueError
       ''durable completion priority requires enabled counters from each node'') (\<lambda>_.
     bindE (items receipt) (\<lambda>d.
     let lookahead = has_key receipt LOOKAHEAD_FIELD;
         values = counter_values d (priority_fields lookahead) in
     bindE (raise_if (list_ex (\<lambda>(_, v). \<not> is_nonneg v) values) ValueError
       ''durable completion priority has an invalid counter'') (\<lambda>_.
     Inr (lookahead, map (\<lambda>(name, v). (name, case v of PInt i \<Rightarrow> i | _ \<Rightarrow> 0)) values))))))))"

definition priority_step ::
  "(string \<times> (string \<times> int) list) list \<times> bool set \<Rightarrow> pykey \<times> pyval \<Rightarrow>
   ((string \<times> (string \<times> int) list) list \<times> bool set) res" where
  "priority_step = (\<lambda>(result, presence) (node, status).
     bindE (priority_node status) (\<lambda>(lookahead, values).
     Inr (AList.update (key_str node) values result, insert lookahead presence)))"

definition priority_counters :: "pyval \<Rightarrow> ((string \<times> (string \<times> int) list) list \<times> bool) res" where
  "priority_counters snapshot =
     bindE (node_names snapshot) (\<lambda>names.
     bindE (raise_if (names \<noteq> three_nodes) ValueError
       ''durable completion priority requires all three node statuses'') (\<lambda>_.
     bindE (items snapshot) (\<lambda>nodes.
     bindE (foldE priority_step ([], {}) nodes) (\<lambda>(result, presence).
     bindE (raise_if (card presence \<noteq> 1) ValueError
       ''durable completion priority has inconsistent lookahead counters'') (\<lambda>_.
     Inr (result, presence = {True}))))))"

text \<open>\<open>{node: later[node][name] - earlier[node][name] for node in earlier}\<close>\<close>

definition priority_deltas ::
  "(string \<times> (string \<times> int) list) list \<Rightarrow> (string \<times> (string \<times> int) list) list \<Rightarrow> string \<Rightarrow> (string \<times> int) list res" where
  "priority_deltas earlier later name =
     mapE (\<lambda>(node, _).
       bindE (lookup later node) (\<lambda>l. bindE (lookup l name) (\<lambda>y.
       bindE (lookup earlier node) (\<lambda>e. bindE (lookup e name) (\<lambda>x.
       Inr (node, y - x)))))) earlier"

definition activity_scope :: pyval where
  "activity_scope = PStr (''load and generator drain, before post-load canaries; '' @
     ''not an exact measurement-window count'')"

definition priority_receipt :: "bool \<Rightarrow> (string \<times> (string \<times> int) list) list \<Rightarrow> pydict" where
  "priority_receipt lookahead deltas =
     [kv ''schema'' (PInt (if lookahead then 2 else 1)), kv ''status'' (PStr ''passed''),
      kv ''observed_during_load'' (PBool (list_ex (\<lambda>(_, ds). list_ex (\<lambda>(_, v). v > 0) ds) deltas))]
     @ map (\<lambda>(name, ds). kv (name @ ''_by_node'') (by_node ds)) deltas
     @ [kv ''scope'' activity_scope]
     @ (if lookahead
        then [kv ''observed_bounded_lookahead_during_load''
          (PBool (list_ex (\<lambda>(name, ds). name = LOOKAHEAD_FIELD \<and> list_ex (\<lambda>(_, v). v > 0) ds) deltas))]
        else [])"

definition priority_activity :: "pyval \<Rightarrow> pyval \<Rightarrow> pydict res" where
  "priority_activity before after =
     bindE (priority_counters before) (\<lambda>(earlier, earlier_has_lookahead).
     bindE (priority_counters after) (\<lambda>(later, later_has_lookahead).
     bindE (raise_if (earlier_has_lookahead \<noteq> later_has_lookahead) ValueError
       ''durable completion priority lookahead counter changed availability'') (\<lambda>_.
     bindE (mapE (\<lambda>name. bindE (priority_deltas earlier later name) (\<lambda>ds. Inr (name, ds)))
       (priority_fields earlier_has_lookahead)) (\<lambda>deltas.
     bindE (raise_if (list_ex (\<lambda>(_, ds). list_ex (\<lambda>(_, v). v < 0) ds) deltas) ValueError
       ''durable completion priority counters reset during the load'') (\<lambda>_.
     Inr (priority_receipt earlier_has_lookahead deltas))))))"

section \<open>The persistence pipeline\<close>

definition optional_names :: "string list" where
  "optional_names = [''submitted_operations'', ''synchronous_proposal_batches'', ''synchronous_proposals'',
     ''speculative_proposal_batches'', ''speculative_proposals'', ''combined_peer_proposal_batches'',
     ''combined_peer_first_batches'', ''combined_proposal_first_batches'', ''combined_peer_events'',
     ''combined_peer_proposals'']"

record pipeline_node =
  completed_operations :: int
  max_speculative_proposals :: "int option"
  proposal_batch_sizes :: "(string \<times> int) list option"
  optional_counters :: "(string \<times> int option) list"

text \<open>\<open>None\<close> or a nonnegative integer\<close>

definition optional_counter :: "pyval \<Rightarrow> string \<Rightarrow> int option res" where
  "optional_counter pipeline name =
     bindE (get pipeline name) (\<lambda>value.
     case value of
       PNone \<Rightarrow> Inr None
     | PInt i \<Rightarrow> if i < 0 then raiseE ValueError (''pipeline activity has an invalid '' @ name @ '' counter'') else Inr (Some i)
     | _ \<Rightarrow> raiseE ValueError (''pipeline activity has an invalid '' @ name @ '' counter''))"

definition optional_value :: "(string \<times> int option) list \<Rightarrow> string \<Rightarrow> int option" where
  "optional_value optional name = (case map_of optional name of Some v \<Rightarrow> v | None \<Rightarrow> None)"

definition check_combined :: "(string \<times> int option) list \<Rightarrow> unit res" where
  "check_combined optional =
     (case (optional_value optional ''combined_peer_proposal_batches'',
            optional_value optional ''combined_peer_first_batches'',
            optional_value optional ''combined_proposal_first_batches'',
            optional_value optional ''combined_peer_events'',
            optional_value optional ''combined_peer_proposals'') of
        (Some batches, Some peer_first, Some proposal_first, Some events, Some proposals) \<Rightarrow>
          bindE (raise_if (batches \<noteq> peer_first + proposal_first) ValueError
            ''pipeline combined batch direction counters disagree'') (\<lambda>_.
          raise_if (events < batches \<or> proposals < batches) ValueError
            ''pipeline combined batch contents are incomplete'')
      | _ \<Rightarrow> Inr ())"

text \<open>One entry of \<open>proposal_batch_sizes\<close> is acceptable. A key that is no string has no
  \<open>isdigit\<close>.\<close>

definition batch_size_ok :: "pykey \<times> pyval \<Rightarrow> bool res" where
  "batch_size_ok = (\<lambda>(key, value). case key of
     KInt i \<Rightarrow> attr_error (PInt i) ''isdigit''
   | KStr s \<Rightarrow> if \<not> str_isdigit s then Inr False
       else bindE (parse_int s) (\<lambda>n. Inr (1 \<le> n \<and> n \<le> 64 \<and> is_nonneg value)))"

text \<open>\<open>any(...)\<close> stops at the first bad entry.\<close>

fun batch_sizes_ok :: "pydict \<Rightarrow> bool res" where
  "batch_sizes_ok [] = Inr True"
| "batch_sizes_ok (e # es) = bindE (batch_size_ok e) (\<lambda>ok. if ok then batch_sizes_ok es else Inr False)"

definition read_batch_sizes :: "pyval \<Rightarrow> (string \<times> int) list option res" where
  "read_batch_sizes sizes =
     (if sizes = PNone then Inr None
      else bindE (case sizes of PDict d \<Rightarrow> batch_sizes_ok d | _ \<Rightarrow> Inr False) (\<lambda>ok.
        bindE (raise_if (\<not> ok) ValueError ''pipeline activity has invalid proposal batch counters'') (\<lambda>_.
        bindE (items sizes) (\<lambda>d.
        Inr (Some (map (\<lambda>(k, v). (key_str k, case v of PInt i \<Rightarrow> i | _ \<Rightarrow> 0)) d))))))"

definition read_threshold :: "pyval \<Rightarrow> int option res" where
  "read_threshold threshold =
     (case threshold of
        PNone \<Rightarrow> Inr None
      | PInt i \<Rightarrow> if 1 \<le> i \<and> i \<le> 64 then Inr (Some i)
          else raiseE ValueError ''pipeline activity has an invalid speculative proposal limit''
      | _ \<Rightarrow> raiseE ValueError ''pipeline activity has an invalid speculative proposal limit'')"

definition pipeline_node_counters :: "pyval \<Rightarrow> pipeline_node res" where
  "pipeline_node_counters status =
     bindE (get_or status ''info'' (PDict [])) (\<lambda>info.
     bindE (get_or info ''engine'' (PDict [])) (\<lambda>engine.
     bindE (get_or engine ''persistence_pipeline'' (PDict [])) (\<lambda>pipeline.
     bindE (get pipeline ''completed_operations'') (\<lambda>count.
     bindE (get status ''status'') (\<lambda>state.
     bindE (get pipeline ''enabled'') (\<lambda>enabled.
     bindE (raise_if (\<not> py_eq state (PStr ''ok'') \<or> enabled \<noteq> PBool True \<or> \<not> is_nonneg count) ValueError
       ''pipeline activity requires enabled counters from each node'') (\<lambda>_.
     bindE (mapE (\<lambda>name. bindE (optional_counter pipeline name) (\<lambda>v. Inr (name, v))) optional_names) (\<lambda>optional.
     bindE (check_combined optional) (\<lambda>_.
     bindE (get pipeline ''max_speculative_proposals'') (\<lambda>t. bindE (read_threshold t) (\<lambda>threshold.
     bindE (get pipeline ''proposal_batch_sizes'') (\<lambda>s. bindE (read_batch_sizes s) (\<lambda>sizes.
     Inr \<lparr>completed_operations = (case count of PInt i \<Rightarrow> i | _ \<Rightarrow> 0), max_speculative_proposals = threshold,
       proposal_batch_sizes = sizes, optional_counters = optional\<rparr>)))))))))))))"

definition pipeline_counters :: "pyval \<Rightarrow> (string \<times> pipeline_node) list res" where
  "pipeline_counters snapshot =
     bindE (node_names snapshot) (\<lambda>names.
     bindE (raise_if (names \<noteq> three_nodes) ValueError ''pipeline activity requires all three node statuses'') (\<lambda>_.
     bindE (items snapshot) (\<lambda>nodes.
     foldE (\<lambda>result (node, status). bindE (pipeline_node_counters status) (\<lambda>values.
       Inr (AList.update (key_str node) values result))) [] nodes)))"

text \<open>The difference of one counter, read by \<open>f\<close> from the record of a node.\<close>

definition pipeline_deltas ::
  "(pipeline_node \<Rightarrow> int) \<Rightarrow> (string \<times> pipeline_node) list \<Rightarrow> (string \<times> pipeline_node) list \<Rightarrow> (string \<times> int) list res" where
  "pipeline_deltas f earlier later =
     mapE (\<lambda>(node, values). bindE (lookup later node) (\<lambda>l. Inr (node, f l - f values))) earlier"

text \<open>\<open>all(presence)\<close>, \<open>any(presence)\<close> over both snapshots: all present, none, or an error.\<close>

definition availability :: "(pipeline_node \<Rightarrow> bool) \<Rightarrow> pipeline_node list \<Rightarrow> string \<Rightarrow> bool res" where
  "availability present nodes message =
     (if list_all present nodes then Inr True
      else if list_ex present nodes then raiseE ValueError message else Inr False)"

definition optional_int :: "string \<Rightarrow> pipeline_node \<Rightarrow> int" where
  "optional_int name n = (case optional_value (optional_counters n) name of Some i \<Rightarrow> i | None \<Rightarrow> 0)"

definition optional_entry ::
  "(string \<times> pipeline_node) list \<Rightarrow> (string \<times> pipeline_node) list \<Rightarrow> string \<Rightarrow> (string \<times> (string \<times> int) list) list res" where
  "optional_entry earlier later name =
     bindE (availability (\<lambda>n. optional_value (optional_counters n) name \<noteq> None) (map snd earlier @ map snd later)
       (''pipeline '' @ name @ '' counter availability changed'')) (\<lambda>present.
     if \<not> present then Inr []
     else bindE (pipeline_deltas (optional_int name) earlier later) (\<lambda>values.
       bindE (raise_if (list_ex (\<lambda>(_, v). v < 0) values) ValueError (''pipeline '' @ name @ '' counter regressed'')) (\<lambda>_.
       Inr [(name, values)])))"

definition threshold_entry :: "(string \<times> pipeline_node) list \<Rightarrow> (string \<times> pipeline_node) list \<Rightarrow> pydict res" where
  "threshold_entry earlier later =
     bindE (availability (\<lambda>n. max_speculative_proposals n \<noteq> None) (map snd earlier @ map snd later)
       ''pipeline speculative proposal limit availability changed'') (\<lambda>present.
     if \<not> present then Inr []
     else bindE (mapE (\<lambda>(node, values). bindE (lookup later node) (\<lambda>l. Inr (node, max_speculative_proposals l,
         max_speculative_proposals values))) earlier) (\<lambda>rows.
       bindE (raise_if (list_ex (\<lambda>(_, y, x). y \<noteq> x) rows) ValueError
         ''pipeline speculative proposal limit changed during load'') (\<lambda>_.
       Inr [kv ''max_speculative_proposals_by_node''
         (by_node (map (\<lambda>(node, y, _). (node, case y of Some i \<Rightarrow> i | None \<Rightarrow> 0)) rows))])))"

definition size_count :: "pipeline_node \<Rightarrow> string \<Rightarrow> int" where
  "size_count n key = (case proposal_batch_sizes n of
     Some sizes \<Rightarrow> (case map_of sizes key of Some i \<Rightarrow> i | None \<Rightarrow> 0) | None \<Rightarrow> 0)"

definition size_keys :: "pipeline_node \<Rightarrow> string list" where
  "size_keys n = (case proposal_batch_sizes n of Some sizes \<Rightarrow> map fst sizes | None \<Rightarrow> [])"

text \<open>The union of the keys in increasing order of their values.\<close>

definition key_order :: "string \<Rightarrow> int" where
  "key_order s = (case parse_int s of Inr i \<Rightarrow> i | Inl _ \<Rightarrow> 0)"

definition sizes_entry :: "(string \<times> pipeline_node) list \<Rightarrow> (string \<times> pipeline_node) list \<Rightarrow> pydict res" where
  "sizes_entry earlier later =
     bindE (availability (\<lambda>n. proposal_batch_sizes n \<noteq> None) (map snd earlier @ map snd later)
       ''pipeline proposal batch counter availability changed'') (\<lambda>present.
     if \<not> present then Inr []
     else bindE (mapE (\<lambda>(node, values). bindE (lookup later node) (\<lambda>l.
         let keys = sort_key key_order (remdups (size_keys values @ size_keys l));
             deltas = map (\<lambda>key. (key, size_count l key - size_count values key)) keys in
         bindE (raise_if (list_ex (\<lambda>(_, v). v < 0) deltas) ValueError ''pipeline proposal batch counter regressed'') (\<lambda>_.
         Inr (kv node (by_node deltas))))) earlier) (\<lambda>rows.
       Inr [kv ''proposal_batch_sizes_by_node'' (PDict rows)]))"

definition combined_observed :: "(string \<times> (string \<times> int) list) list \<Rightarrow> bool" where
  "combined_observed entries = (case map_of entries ''combined_peer_proposal_batches'' of
     Some values \<Rightarrow> 0 < sum_list (map snd values) | None \<Rightarrow> False)"

definition pipeline_receipt ::
  "bool \<Rightarrow> (string \<times> int) list \<Rightarrow> (string \<times> (string \<times> int) list) list \<Rightarrow> pydict \<Rightarrow> pydict" where
  "pipeline_receipt require_combined delta entries extra =
     [kv ''schema'' (PInt 3), kv ''status'' (PStr ''passed''), kv ''completed_by_node'' (by_node delta),
      kv ''scope'' activity_scope]
     @ map (\<lambda>(name, values). kv (name @ ''_by_node'') (by_node values)) entries
     @ [kv ''combined_mode'' (PDict [kv ''required_by_configuration'' (PBool require_combined),
         kv ''observed_during_load'' (PBool (combined_observed entries))])]
     @ extra"

definition pipeline_activity :: "pyval \<Rightarrow> pyval \<Rightarrow> bool \<Rightarrow> pydict res" where
  "pipeline_activity before after require_combined =
     bindE (pipeline_counters before) (\<lambda>earlier.
     bindE (pipeline_counters after) (\<lambda>later.
     bindE (pipeline_deltas completed_operations earlier later) (\<lambda>delta.
     bindE (raise_if (list_ex (\<lambda>(_, v). v < 0) delta) ValueError
       ''pipeline counters reset during the steady-state load'') (\<lambda>_.
     bindE (raise_if (sum_list (map snd delta) = 0) ValueError
       ''selected pipeline completed no persistence operations during the load'') (\<lambda>_.
     bindE (mapE (optional_entry earlier later) optional_names) (\<lambda>rows.
     bindE (threshold_entry earlier later) (\<lambda>thresholds.
     bindE (sizes_entry earlier later) (\<lambda>sizes.
     Inr (pipeline_receipt require_combined delta (concat rows) (thresholds @ sizes))))))))))"

definition recorded_activity_matches :: "pydict \<Rightarrow> pyval \<Rightarrow> bool res" where
  "recorded_activity_matches actual recorded =
     bindE (get recorded ''schema'') (\<lambda>schema.
     bindE (items recorded) (\<lambda>r.
     if py_eq schema (PInt 3) then Inr (py_eq (PDict actual) recorded)
     else if py_eq schema (PInt 2)
     then Inr (py_eq (PDict (AList.delete (KStr ''combined_mode'') (AList.update (KStr ''schema'') (PInt 2) actual))) recorded)
     else if has_key recorded ''schema'' then Inr False
     else
       let compatible = AList.delete (KStr ''combined_mode'') (AList.delete (KStr ''schema'') actual);
           legacy_fields = [''status'', ''completed_by_node'', ''scope''] in
       if keys_are r legacy_fields
       then bindE (mapE (\<lambda>key. bindE (item (PDict compatible) key) (\<lambda>v. Inr (kv key v))) legacy_fields) (\<lambda>c.
              Inr (py_eq (PDict c) recorded))
       else Inr (py_eq (PDict compatible) recorded)))"

section \<open>Replication windows\<close>

definition positive_int :: "pyval \<Rightarrow> string \<Rightarrow> int res" where
  "positive_int value name =
     (case value of
        PInt i \<Rightarrow> if i \<le> 0 then raiseE ValueError (''invalid replication-window value: '' @ name) else Inr i
      | _ \<Rightarrow> raiseE ValueError (''invalid replication-window value: '' @ name))"

text \<open>\<open>int(node)\<close> for a key\<close>

definition int_of_key :: "pykey \<Rightarrow> int res" where
  "int_of_key k = (case k of KInt i \<Rightarrow> Inr i | KStr s \<Rightarrow> parse_int s)"

definition window_step ::
  "string \<Rightarrow> string \<Rightarrow> int \<Rightarrow> (int \<times> int) list \<Rightarrow> pyval \<Rightarrow> (int \<times> int) list res" where
  "window_step name node expected observed window =
     bindE (raise_if (\<not> is_dict window) ValueError
       (name @ '' leader '' @ node @ '' has a malformed replication window'')) (\<lambda>_.
     bindE (get window ''follower_id'') (\<lambda>f. bindE (positive_int f ''follower_id'') (\<lambda>follower.
     bindE (get window ''max_in_flight_batches'') (\<lambda>m. bindE (positive_int m ''max_in_flight_batches'') (\<lambda>maximum.
     bindE (raise_if (follower \<in> fst ` set observed) ValueError
       (name @ '' leader '' @ node @ '' has duplicate follower windows'')) (\<lambda>_.
     bindE (raise_if (maximum \<noteq> expected) ValueError
       (name @ '' leader '' @ node @ '' reports replication window '' @ int_str maximum @ '', expected '' @ int_str expected)) (\<lambda>_.
     Inr (observed @ [(follower, maximum)]))))))))"

text \<open>The body of the loop over the nodes: the status of a node is checked, then a leader
  contributes its windows.\<close>

definition window_status :: "string \<Rightarrow> pykey \<Rightarrow> pyval \<Rightarrow> (int \<times> pyval \<times> pyval) res" where
  "window_status name key status =
     (let node = key_str key in
     bindE (case status of PDict d \<Rightarrow> Inr (dict_get d ''status'' PNone) | _ \<Rightarrow> Inr PNone) (\<lambda>state.
     bindE (raise_if (\<not> py_eq state (PStr ''ok'')) ValueError (name @ '' node '' @ node @ '' has no successful status'')) (\<lambda>_.
     bindE (get status ''info'') (\<lambda>info.
     bindE (case info of PDict d \<Rightarrow> Inr (dict_get d ''implementation'' PNone) | _ \<Rightarrow> Inr PNone) (\<lambda>implementation.
     bindE (raise_if (\<not> py_eq implementation (PStr ''rafter'')) ValueError (name @ '' node '' @ node @ '' is not a Rafter status'')) (\<lambda>_.
     bindE (get info ''node_id'') (\<lambda>n. bindE (positive_int n ''node_id'') (\<lambda>node_id.
     bindE (int_of_key key) (\<lambda>key_id.
     bindE (raise_if (node_id \<noteq> key_id) ValueError (name @ '' node '' @ node @ '' reports a different node identity'')) (\<lambda>_.
     bindE (get info ''engine'') (\<lambda>engine.
     bindE (raise_if (\<not> is_dict engine) ValueError (name @ '' node '' @ node @ '' has malformed engine diagnostics'')) (\<lambda>_.
     bindE (get engine ''replication_windows'') (\<lambda>replication.
     bindE (raise_if (\<not> is_dict replication) ValueError
       (name @ '' node '' @ node @ '' has malformed replication-window diagnostics'')) (\<lambda>_.
     bindE (get replication ''windows'') (\<lambda>windows.
     bindE (get info ''leader'') (\<lambda>leader. Inr (node_id, windows, leader)))))))))))))))))"

definition window_node ::
  "string \<Rightarrow> int \<Rightarrow> int set \<Rightarrow> (int \<times> (int \<times> int) list) list \<Rightarrow> pykey \<times> pyval \<Rightarrow> (int \<times> (int \<times> int) list) list res" where
  "window_node name expected node_ids leaders = (\<lambda>(key, status).
     bindE (window_status name key status) (\<lambda>(node_id, windows, leader).
     let node = key_str key in
     if leader \<noteq> PBool True
     then bindE (raise_if (\<not> py_eq windows (PList [])) ValueError
            (name @ '' non-leader '' @ node @ '' reports replication windows'')) (\<lambda>_. Inr leaders)
     else bindE (case windows of PList ws \<Rightarrow> Inr ws | _ \<Rightarrow> Inr []) (\<lambda>ws.
       bindE (raise_if (ws = []) ValueError (name @ '' leader '' @ node @ '' has no replication windows'')) (\<lambda>_.
       bindE (foldE (window_step name node expected) [] ws) (\<lambda>observed.
       bindE (raise_if (fst ` set observed \<noteq> node_ids - {node_id}) ValueError
         (name @ '' leader '' @ node @ '' replication-window membership differs'')) (\<lambda>_.
       Inr (leaders @ [(node_id, observed)])))))))"

definition window_snapshot :: "pyval \<Rightarrow> string \<Rightarrow> int \<Rightarrow> (int \<times> (int \<times> int) list) list res" where
  "window_snapshot snapshot name expected =
     bindE (case snapshot of PDict d \<Rightarrow> Inr d | _ \<Rightarrow> Inr []) (\<lambda>nodes.
     bindE (raise_if (nodes = []) ValueError (name @ '' status snapshot has no nodes'')) (\<lambda>_.
     bindE (mapE (\<lambda>(k, v). bindE (int_of_key k) (\<lambda>i. bindE (positive_int (PInt i) ''status node_id'') (\<lambda>i. Inr (i, k, v)))) nodes) (\<lambda>rows.
     bindE (foldE (window_node name expected (set (map fst rows))) [] (map snd (sort_key fst rows))) (\<lambda>leaders.
     bindE (raise_if (leaders = []) ValueError (name @ '' status snapshot has no observed leader'')) (\<lambda>_.
     Inr leaders)))))"

definition leaders_object :: "(int \<times> (int \<times> int) list) list \<Rightarrow> pyval" where
  "leaders_object leaders = PDict [kv ''leaders'' (PList (map (\<lambda>(node_id, observed). PDict [
     kv ''node_id'' (PInt node_id),
     kv ''follower_windows'' (PList (map (\<lambda>(follower, maximum). PDict [
       kv ''follower_id'' (PInt follower), kv ''max_in_flight_batches'' (PInt maximum)]) observed))]) leaders))]"

definition configuration_receipt :: "pyval \<Rightarrow> pyval \<Rightarrow> pyval \<Rightarrow> pydict res" where
  "configuration_receipt before after_load bound =
     bindE (positive_int bound ''requested_max_in_flight_batches'') (\<lambda>expected.
     bindE (raise_if (expected > 64) ValueError ''requested replication-window bound exceeds 64'') (\<lambda>_.
     bindE (window_snapshot before ''before'' expected) (\<lambda>b.
     bindE (window_snapshot after_load ''after_load'' expected) (\<lambda>a.
     Inr [kv ''schema'' (PInt 1), kv ''status'' (PStr ''passed''), kv ''requested_max_in_flight_batches'' (PInt expected),
       kv ''snapshots'' (PDict [kv ''before'' (leaders_object b), kv ''after_load'' (leaders_object a)]),
       kv ''scope'' (PStr ''runtime leader diagnostics before and after measured load'')]))))"

section \<open>Differences of counters\<close>

text \<open>The contract of the two subtractions: one entry for every node of the earlier table, with
  the later value minus the earlier one. Clients conclude from it without looking at the
  representation of a node.\<close>

locale node_deltas =
  fixes deltas :: "(string \<times> 'r) list \<Rightarrow> (string \<times> 'r) list \<Rightarrow> (string \<times> int) list res"
    and reading :: "'r \<Rightarrow> int"
  assumes names: "deltas earlier later = Inr ds \<Longrightarrow> map fst ds = map fst earlier"
    and difference: "deltas earlier later = Inr ds \<Longrightarrow> distinct (map fst earlier) \<Longrightarrow> (node, i) \<in> set ds \<Longrightarrow>
      \<exists>x y. map_of earlier node = Some x \<and> map_of later node = Some y \<and> i = reading y - reading x"
begin

lemma entry:
  assumes "deltas earlier later = Inr ds" "distinct (map fst earlier)" "map_of earlier node = Some x"
  obtains y where "map_of later node = Some y" "map_of ds node = Some (reading y - reading x)"
proof -
  have "node \<in> fst ` set ds"
    using names [OF assms(1)] map_of_SomeD [OF assms(3)] by (metis fst_conv image_eqI list.set_map)
  then obtain i where i: "map_of ds node = Some i" by (metis map_of_eq_None_iff not_Some_eq)
  from difference [OF assms(1,2) map_of_SomeD [OF i]] assms(3) that i show ?thesis by auto
qed

lemma not_decreased:
  assumes "deltas earlier later = Inr ds" "distinct (map fst earlier)" "\<not> list_ex (\<lambda>(_, v). v < 0) ds"
    "map_of earlier node = Some x" "map_of later node = Some y"
  shows "reading x \<le> reading y"
proof -
  obtain y' where y': "map_of later node = Some y'" "map_of ds node = Some (reading y' - reading x)"
    using entry [OF assms(1,2,4)] .
  then have "0 \<le> reading y' - reading x"
    using assms(3) map_of_SomeD [OF y'(2)] by (force simp: list_ex_iff)
  then show ?thesis using y'(1) assms(5) by simp
qed

lemma some_progress:
  assumes "deltas earlier later = Inr ds" "distinct (map fst earlier)" "\<not> list_ex (\<lambda>(_, v). v < 0) ds" "sum_list (map snd ds) \<noteq> 0"
  obtains node x y where "map_of earlier node = Some x" "map_of later node = Some y" "reading x < reading y"
proof -
  have "\<exists>i\<in>set (map snd ds). i \<noteq> 0" using assms(4) by (metis sum_list_0 map_idI sum_list_eq_0_iff)
  then obtain node i where i: "(node, i) \<in> set ds" "i \<noteq> 0" by auto
  then have "0 < i" using assms(3) by (force simp: list_ex_iff)
  with difference [OF assms(1,2) i(1)] that show ?thesis by auto
qed

end

lemma lookup_eq_Inr [simp]: "lookup t k = Inr x \<longleftrightarrow> map_of t k = Some x"
  by (simp add: lookup_def split: option.splits)

text \<open>A field of a node's counters; a missing field does not occur in a table that was read.\<close>

definition field :: "string \<Rightarrow> (string \<times> int) list \<Rightarrow> int" where
  "field name values = (case map_of values name of Some i \<Rightarrow> i | None \<Rightarrow> 0)"

interpretation pri: node_deltas "\<lambda>earlier later. priority_deltas earlier later name" "field name" for name
proof
  fix earlier later ds
  assume d: "priority_deltas earlier later name = Inr ds"
  then show "map fst ds = map fst earlier"
    unfolding priority_deltas_def by (rule mapE_project) (auto split: prod.splits)
  show "\<exists>x y. map_of earlier node = Some x \<and> map_of later node = Some y \<and> i = field name y - field name x"
    if "(node, i) \<in> set ds" for node i
    using mapE_mem [OF d [unfolded priority_deltas_def] that] by (auto simp: field_def)
qed

section \<open>Tables of counters\<close>

text \<open>A node of a snapshot by its name, and the table that a loop over the nodes builds.\<close>

definition node_at :: "pyval \<Rightarrow> string \<Rightarrow> pyval" where
  "node_at snapshot node = (case snapshot of
     PDict d \<Rightarrow> (case map_of (map (\<lambda>e. (key_str (fst e), snd e)) d) node of Some v \<Rightarrow> v | None \<Rightarrow> PNone) | _ \<Rightarrow> PNone)"

definition named_once :: "pyval \<Rightarrow> bool" where
  "named_once snapshot = (case snapshot of PDict d \<Rightarrow> distinct (map (\<lambda>e. key_str (fst e)) d) | _ \<Rightarrow> True)"

lemma fold_update:
  assumes "foldE (\<lambda>r (k, s). bindE (g s) (\<lambda>v. Inr (AList.update (key_str k) v r))) acc d = Inr t"
    "distinct (map (\<lambda>e. key_str (fst e)) d)"
  shows "((k, s) \<in> set d \<longrightarrow> (\<exists>v. g s = Inr v \<and> map_of t (key_str k) = Some v)) \<and>
    (n \<notin> (\<lambda>e. key_str (fst e)) ` set d \<longrightarrow> map_of t n = map_of acc n) \<and>
    (distinct (map fst acc) \<longrightarrow> distinct (map fst t))"
  using assms
proof (induction d arbitrary: acc k s n)
  case (Cons e d)
  obtain k' s' where e: "e = (k', s')" by (cases e)
  with Cons.prems(1) obtain v where v: "g s' = Inr v"
    "foldE (\<lambda>r (k, s). bindE (g s) (\<lambda>v. Inr (AList.update (key_str k) v r))) (AList.update (key_str k') v acc) d = Inr t"
    by auto
  have d: "distinct (map (\<lambda>e. key_str (fst e)) d)" "key_str k' \<notin> (\<lambda>e. key_str (fst e)) ` set d"
    using Cons.prems(2) by (auto simp: e)
  note IH = Cons.IH [OF v(2) d(1)]
  show ?case
  proof (intro conjI impI)
    assume "(k, s) \<in> set (e # d)"
    then show "\<exists>v. g s = Inr v \<and> map_of t (key_str k) = Some v"
      using IH [of k s] IH [of _ _ "key_str k'"] v(1) d(2) by (auto simp: e update_conv')
  next
    assume "n \<notin> (\<lambda>e. key_str (fst e)) ` set (e # d)"
    then show "map_of t n = map_of acc n" using IH [of _ _ n] by (auto simp: e update_conv')
  next
    assume "distinct (map fst acc)"
    then show "distinct (map fst t)" using IH by (simp add: distinct_update)
  qed
qed simp

lemma node_at_mem:
  assumes "named_once (PDict d)" "node \<in> set (map (\<lambda>e. key_str (fst e)) d)"
  obtains k where "(k, node_at (PDict d) node) \<in> set d" "node = key_str k"
proof -
  obtain k s where ks: "(k, s) \<in> set d" "node = key_str k" using assms(2) by auto
  then have "map_of (map (\<lambda>e. (key_str (fst e), snd e)) d) node = Some s"
    using assms(1) by (intro map_of_is_SomeI) (auto simp: named_once_def comp_def intro: rev_image_eqI)
  then have "node_at (PDict d) node = s" by (simp add: node_at_def)
  then show ?thesis using that ks by blast
qed

lemma fold_update_node:
  assumes "foldE (\<lambda>r (k, s). bindE (g s) (\<lambda>v. Inr (AList.update (key_str k) v r))) [] d = Inr t"
    "named_once (PDict d)" "node \<in> set (map (\<lambda>e. key_str (fst e)) d)"
  obtains v where "g (node_at (PDict d) node) = Inr v" "map_of t node = Some v"
proof -
  obtain k where "(k, node_at (PDict d) node) \<in> set d" "node = key_str k" using node_at_mem [OF assms(2,3)] .
  moreover have "distinct (map (\<lambda>e. key_str (fst e)) d)" using assms(2) by (simp add: named_once_def)
  ultimately show ?thesis using fold_update [OF assms(1)] that by blast
qed

lemma node_names_PDict: "node_names (PDict d) = Inr (set (map (\<lambda>e. key_str (fst e)) d))"
proof -
  have "py_str (case k of KStr s \<Rightarrow> PStr s | KInt i \<Rightarrow> PInt i) = key_str k" for k by (cases k) simp_all
  then show ?thesis by (simp add: node_names_def iter_of_def image_image case_prod_beta)
qed

lemma priority_fold:
  "foldE priority_step (acc, p) d = Inr (t, q) \<Longrightarrow>
   foldE (\<lambda>r (k, s). bindE (bindE (priority_node s) (\<lambda>(_, v). Inr v)) (\<lambda>v. Inr (AList.update (key_str k) v r))) acc d = Inr t"
  by (induction d arbitrary: acc p) (auto simp: priority_step_def)

lemma priority_counters_dict:
  assumes "priority_counters snapshot = Inr (t, b)"
  obtains d q where "snapshot = PDict d" "foldE priority_step ([], {}) d = Inr (t, q)"
    "set (map (\<lambda>e. key_str (fst e)) d) = three_nodes" "card q = 1" "b = (q = {True})"
proof -
  from assms obtain d where d: "snapshot = PDict d" by (auto simp: priority_counters_def items_eq_Inr)
  with assms obtain tq where tq: "foldE priority_step ([], {}) d = Inr tq" by (auto simp: priority_counters_def items_eq_Inr)
  obtain t' q where "tq = (t', q)" by (cases tq)
  with assms d tq that [of d q] show ?thesis
    by (simp add: priority_counters_def items_eq_Inr node_names_PDict items_def)
qed

text \<open>The counter that the raw status holds.\<close>

definition raw_priority :: "pyval \<Rightarrow> string \<Rightarrow> pyval res" where
  "raw_priority status name =
     bindE (item status ''info'') (\<lambda>info. bindE (item info ''durable_completion_priority'') (\<lambda>receipt. item receipt name))"

lemma dict_get_enabled: "dict_get d k (PDict []) = PDict e \<Longrightarrow> e \<noteq> [] \<Longrightarrow> map_of d (KStr k) = Some (PDict e)"
  by (auto simp: dict_get_def split: option.splits)

lemma priority_node_raw:
  assumes "priority_node status = Inr (l, values)"
  shows "item status ''status'' = Inr (PStr ''ok'')"
    and "raw_priority status ''enabled'' = Inr (PBool True)"
    and "name \<in> set (priority_fields l) \<Longrightarrow> raw_priority status name = Inr (PInt (field name values)) \<and> 0 \<le> field name values"
proof -
  obtain sd info receipt where s: "status = PDict sd" "PDict info = dict_get sd ''info'' (PDict [])"
    "PDict receipt = dict_get info ''durable_completion_priority'' (PDict [])"
    "PBool True = dict_get receipt ''enabled'' PNone" "PStr ''ok'' = dict_get sd ''status'' PNone"
    "\<not> list_ex (\<lambda>(_, v). \<not> is_nonneg v) (counter_values receipt (priority_fields l))"
    "values = map (\<lambda>(name, v). (name, case v of PInt i \<Rightarrow> i | _ \<Rightarrow> 0)) (counter_values receipt (priority_fields l))"
    using assms by (auto simp: priority_node_def get_or_eq_Inr items_eq_Inr Let_def simp del: not_ex split: if_splits)
  note s = s(1) s(2-5) [symmetric] s(6,7)
  have "receipt \<noteq> []" "info \<noteq> []" using s(3,4) by (auto simp: dict_get_def)
  then have raw: "raw_priority status n = item (PDict receipt) n" for n
    using s(1-3) dict_get_enabled by (simp add: raw_priority_def item_def)
  show "item status ''status'' = Inr (PStr ''ok'')" using s(1,5) by (auto simp: item_eq_Inr dict_get_def split: option.splits)
  show "raw_priority status ''enabled'' = Inr (PBool True)"
    using s(4) by (auto simp: raw item_eq_Inr dict_get_def split: option.splits)
  assume n: "name \<in> set (priority_fields l)"
  then obtain i where i: "dict_get receipt name PNone = PInt i" "0 \<le> i"
    using s(6) by (auto simp: list_ex_iff counter_values_def is_nonneg_iff)
  have "map_of (map (\<lambda>x. (x, f x)) xs) name = (if name \<in> set xs then Some (f name) else None)"
    for f :: "string \<Rightarrow> int" and xs by (induction xs) auto
  then have "field name values = i"
    unfolding field_def s(7) counter_values_def using n i(1) by (simp add: comp_def)
  then show "raw_priority status name = Inr (PInt (field name values)) \<and> 0 \<le> field name values"
    using i by (auto simp: raw item_eq_Inr dict_get_def split: option.splits)
qed

interpretation pip: node_deltas "pipeline_deltas f" f for f
proof
  fix earlier later ds
  assume d: "pipeline_deltas f earlier later = Inr ds"
  then show "map fst ds = map fst earlier"
    unfolding pipeline_deltas_def by (rule mapE_project) (auto split: prod.splits)
  show "\<exists>x y. map_of earlier node = Some x \<and> map_of later node = Some y \<and> i = f y - f x"
    if "distinct (map fst earlier)" "(node, i) \<in> set ds" for node i
    using mapE_mem [OF d [unfolded pipeline_deltas_def] that(2)] that(1) by (fastforce intro: map_of_is_SomeI)
qed

lemma priority_counters_distinct:
  assumes "priority_counters snapshot = Inr (t, b)" "named_once snapshot"
  shows "distinct (map fst t)"
proof -
  obtain d q where d: "snapshot = PDict d" "foldE priority_step ([], {}) d = Inr (t, q)"
    using priority_counters_dict [OF assms(1)] .
  then show ?thesis using fold_update [OF priority_fold [OF d(2)]] assms(2) by (auto simp: named_once_def)
qed

lemma priority_step_presence:
  "foldE priority_step (acc, p) d = Inr (t, q) \<Longrightarrow> p \<subseteq> q \<and>
   ((k, s) \<in> set d \<longrightarrow> (\<exists>l v. priority_node s = Inr (l, v) \<and> l \<in> q))"
proof (induction d arbitrary: acc p)
  case (Cons e d)
  then obtain k' s' l v where e: "e = (k', s')" "priority_node s' = Inr (l, v)"
    "foldE priority_step (AList.update (key_str k') v acc, insert l p) d = Inr (t, q)"
    by (cases e) (auto simp: priority_step_def)
  from Cons.IH [OF e(3)] e show ?case by auto
qed simp

text \<open>All nodes of a snapshot agree on whether they count lookahead.\<close>

lemma priority_counters_node:
  assumes "priority_counters snapshot = Inr (t, b)" "named_once snapshot" "node \<in> three_nodes"
  obtains v where "priority_node (node_at snapshot node) = Inr (b, v)" "map_of t node = Some v"
proof -
  obtain d q where d: "snapshot = PDict d" "foldE priority_step ([], {}) d = Inr (t, q)"
    "set (map (\<lambda>e. key_str (fst e)) d) = three_nodes" "card q = 1" "b = (q = {True})"
    using priority_counters_dict [OF assms(1)] .
  have node: "node \<in> set (map (\<lambda>e. key_str (fst e)) d)" using d(3) assms(3) by simp
  obtain v where v: "bindE (priority_node (node_at snapshot node)) (\<lambda>(_, v). Inr v) = Inr v" "map_of t node = Some v"
    using fold_update_node [OF priority_fold [OF d(2)] assms(2) [unfolded d(1)] node] d(1) by metis
  then obtain l where l: "priority_node (node_at snapshot node) = Inr (l, v)" by auto
  obtain k where "(k, node_at snapshot node) \<in> set d" using node_at_mem [OF assms(2) [unfolded d(1)] node] d(1) by metis
  then have "l \<in> q" using priority_step_presence [OF d(2)] l by fastforce
  then have "l = b" using d(4,5) by (auto simp: card_1_singleton_iff)
  then show ?thesis using that l v(2) by simp
qed

section \<open>Properties of the counter receipts\<close>

text \<open>The entry of a receipt for one counter and node.\<close>

definition receipt_delta :: "pydict \<Rightarrow> string \<Rightarrow> string \<Rightarrow> pyval res" where
  "receipt_delta r name node = bindE (item (PDict r) (name @ ''_by_node'')) (\<lambda>d. item d node)"

lemma item_by_node: "map_of ds node = Some i \<Longrightarrow> item (by_node ds) node = Inr (PInt i)"
  by (simp add: by_node_def item_def, induction ds) (auto split: if_splits)

lemma map_of_deltas_entry:
  assumes "(name, ds) \<in> set deltas" "distinct (map fst deltas)"
    "\<And>v. kv (name @ ''_by_node'') v \<notin> set front"
  shows "map_of (front @ map (\<lambda>(name, ds). kv (name @ ''_by_node'') (by_node ds)) deltas @ rest) (KStr (name @ ''_by_node''))
    = Some (by_node ds)"
proof -
  have "map_of front (KStr (name @ ''_by_node'')) = None" using assms(3) by (auto simp: map_of_eq_None_iff)
  moreover have "map_of (map (\<lambda>(name, ds). kv (name @ ''_by_node'') (by_node ds)) deltas) (KStr (name @ ''_by_node'')) = Some (by_node ds)"
    using assms(1,2) by (induction deltas) (auto simp: rev_image_eqI)
  ultimately show ?thesis by (simp add: map_add_def)
qed

text \<open>Snapshots with the given counters, as the adapters report them.\<close>

definition sample_status :: "string \<Rightarrow> int \<Rightarrow> pyval" where
  "sample_status node n = PDict [kv ''status'' (PStr ''ok''), kv ''info'' (PDict [
     kv ''durable_completion_priority'' (PDict [kv ''enabled'' (PBool True),
       kv ''prioritized_peer_batches'' (PInt n), kv ''prioritized_peer_events'' (PInt (2 * n)),
       kv ''pre_persistence_client_completions'' (PInt 0)]),
     kv ''engine'' (PDict [kv ''persistence_pipeline'' (PDict [kv ''enabled'' (PBool True),
       kv ''completed_operations'' (PInt n), kv ''submitted_operations'' (PInt (n + 1)),
       kv ''max_speculative_proposals'' (PInt 8),
       kv ''proposal_batch_sizes'' (PDict [kv ''1'' (PInt n), kv ''64'' (PInt 0)])])])])]"

definition sample_snapshot :: "int \<Rightarrow> pyval" where
  "sample_snapshot n = PDict (map (\<lambda>node. kv node (sample_status node n)) [''1'', ''2'', ''3''])"

definition succeeded :: "'a res \<Rightarrow> bool" where
  "succeeded r = (case r of Inr _ \<Rightarrow> True | Inl _ \<Rightarrow> False)"

lemma succeeded_iff: "succeeded r \<longleftrightarrow> (\<exists>x. r = Inr x)"
  by (simp add: succeeded_def split: sum.splits)

text \<open>C15: a durable-completion-priority receipt is exact. It exists only when all three nodes
  answered with enabled counters in both snapshots; each of its entries is the later raw
  counter minus the earlier one, and no counter decreased.\<close>

theorem priority_receipt_exact:
  assumes receipt: "priority_activity before after = Inr r" and once: "named_once before" "named_once after"
  shows "\<exists>lookahead. \<forall>node\<in>three_nodes.
    raw_priority (node_at before node) ''enabled'' = Inr (PBool True) \<and>
    raw_priority (node_at after node) ''enabled'' = Inr (PBool True) \<and>
    (\<forall>name\<in>set (priority_fields lookahead). \<exists>x y. 0 \<le> x \<and> x \<le> y \<and>
      raw_priority (node_at before node) name = Inr (PInt x) \<and> raw_priority (node_at after node) name = Inr (PInt y) \<and>
      receipt_delta r name node = Inr (PInt (y - x)))"
proof -
  obtain e l b deltas where e: "priority_counters before = Inr (e, b)" and l: "priority_counters after = Inr (l, b)"
    and deltas: "mapE (\<lambda>name. bindE (priority_deltas e l name) (\<lambda>ds. Inr (name, ds))) (priority_fields b) = Inr deltas"
    and nonneg: "\<not> list_ex (\<lambda>(_, ds). list_ex (\<lambda>(_, v). v < 0) ds) deltas"
    and r: "r = priority_receipt b deltas"
    using receipt by (auto simp: priority_activity_def)
  have dn: "map fst deltas = priority_fields b" using mapE_project [OF deltas, of fst id] by auto
  have dist: "distinct (map fst deltas)" unfolding dn
    by (simp add: priority_fields_def CORE_FIELDS_def LOOKAHEAD_FIELD_def)
  have "\<exists>x y. 0 \<le> x \<and> x \<le> y \<and>
      raw_priority (node_at before node) name = Inr (PInt x) \<and> raw_priority (node_at after node) name = Inr (PInt y) \<and>
      receipt_delta r name node = Inr (PInt (y - x))"
    if node: "node \<in> three_nodes" and name: "name \<in> set (priority_fields b)" for node name
  proof -
    obtain v where v: "priority_node (node_at before node) = Inr (b, v)" "map_of e node = Some v"
      using priority_counters_node [OF e once(1) node] .
    obtain w where w: "priority_node (node_at after node) = Inr (b, w)" "map_of l node = Some w"
      using priority_counters_node [OF l once(2) node] .
    obtain ds where ds: "(name, ds) \<in> set deltas" "priority_deltas e l name = Inr ds"
      using mapE_mem' [OF deltas name] by auto
    have de: "distinct (map fst e)" by (rule priority_counters_distinct [OF e once(1)])
    have pos: "\<not> list_ex (\<lambda>(_, v). v < 0) ds" using nonneg ds(1) by (auto simp: list_ex_iff)
    have "map_of ds node = Some (field name w - field name v)"
      using pri.entry [OF ds(2) de v(2)] w(2) by auto
    moreover have "map_of r (KStr (name @ ''_by_node'')) = Some (by_node ds)"
      unfolding r priority_receipt_def using name
      by (intro map_of_deltas_entry [OF ds(1) dist])
         (auto simp: priority_fields_def CORE_FIELDS_def LOOKAHEAD_FIELD_def split: if_splits)
    ultimately have "receipt_delta r name node = Inr (PInt (field name w - field name v))"
      by (simp add: receipt_delta_def item_def [of "PDict r"] item_by_node)
    moreover have "field name v \<le> field name w" by (rule pri.not_decreased [OF ds(2) de pos v(2) w(2)])
    ultimately show ?thesis using priority_node_raw(3) [OF v(1) name] priority_node_raw(3) [OF w(1) name] by auto
  qed
  moreover have "raw_priority (node_at before node) ''enabled'' = Inr (PBool True) \<and>
    raw_priority (node_at after node) ''enabled'' = Inr (PBool True)" if node: "node \<in> three_nodes" for node
    using priority_counters_node [OF e once(1) node] priority_counters_node [OF l once(2) node]
      priority_node_raw(2) by metis
  ultimately show ?thesis by blast
qed

theorem priority_receipt_exact_witness:
  "\<exists>r x y. priority_activity (sample_snapshot 3) (sample_snapshot 5) = Inr r \<and> x \<le> y \<and>
     receipt_delta r ''prioritized_peer_events'' ''2'' = Inr (PInt (y - x))"
proof -
  have "succeeded (priority_activity (sample_snapshot 3) (sample_snapshot 5))" by code_simp
  then obtain r where r: "priority_activity (sample_snapshot 3) (sample_snapshot 5) = Inr r" by (auto simp: succeeded_iff)
  have "named_once (sample_snapshot 3)" "named_once (sample_snapshot 5)" by code_simp+
  have two: "''2'' \<in> three_nodes" by (simp add: three_nodes_def)
  from priority_receipt_exact [OF r \<open>named_once (sample_snapshot 3)\<close> \<open>named_once (sample_snapshot 5)\<close>] obtain lookahead where
    "\<forall>name\<in>set (priority_fields lookahead). \<exists>x y. x \<le> y \<and> receipt_delta r name ''2'' = Inr (PInt (y - x))"
    using two by blast
  moreover have "''prioritized_peer_events'' \<in> set (priority_fields lookahead)"
    by (simp add: priority_fields_def CORE_FIELDS_def)
  ultimately show ?thesis using r by blast
qed

section \<open>The pipeline receipt\<close>

definition raw_pipeline :: "pyval \<Rightarrow> string \<Rightarrow> pyval res" where
  "raw_pipeline status name =
     bindE (item status ''info'') (\<lambda>info. bindE (item info ''engine'') (\<lambda>engine.
     bindE (item engine ''persistence_pipeline'') (\<lambda>pipeline. item pipeline name)))"

lemma pipeline_node_raw:
  assumes "pipeline_node_counters status = Inr n"
  shows "raw_pipeline status ''enabled'' = Inr (PBool True)"
    and "raw_pipeline status ''completed_operations'' = Inr (PInt (completed_operations n))"
    and "0 \<le> completed_operations n"
proof -
  obtain sd info engine pipeline where s: "status = PDict sd" "PDict info = dict_get sd ''info'' (PDict [])"
    "PDict engine = dict_get info ''engine'' (PDict [])"
    "PDict pipeline = dict_get engine ''persistence_pipeline'' (PDict [])"
    "dict_get pipeline ''enabled'' PNone = PBool True" "is_nonneg (dict_get pipeline ''completed_operations'' PNone)"
    "completed_operations n = (case dict_get pipeline ''completed_operations'' PNone of PInt i \<Rightarrow> i | _ \<Rightarrow> 0)"
    using assms unfolding pipeline_node_counters_def bindE_eq_Inr get_or_eq_Inr raise_if_eq_Inr
    by (auto simp del: bindE_eq_Inr)
  have "pipeline \<noteq> []" "engine \<noteq> []" "info \<noteq> []"
    using s(5) s(3,4) [symmetric] by (auto simp: dict_get_def)
  then have raw: "raw_pipeline status k = item (PDict pipeline) k" for k
    using s(1) dict_get_enabled s(2-4) [symmetric] by (simp add: raw_pipeline_def item_def)
  show "raw_pipeline status ''enabled'' = Inr (PBool True)"
    using s(5) by (auto simp: raw item_eq_Inr dict_get_def split: option.splits)
  show "raw_pipeline status ''completed_operations'' = Inr (PInt (completed_operations n))" "0 \<le> completed_operations n"
    using s(6,7) by (auto simp: raw item_eq_Inr dict_get_def is_nonneg_iff split: option.splits)
qed

lemma pipeline_counters_node:
  assumes "pipeline_counters snapshot = Inr t" "named_once snapshot" "node \<in> three_nodes"
  obtains n where "pipeline_node_counters (node_at snapshot node) = Inr n" "map_of t node = Some n"
proof -
  obtain d where d: "snapshot = PDict d" "set (map (\<lambda>e. key_str (fst e)) d) = three_nodes"
    "foldE (\<lambda>r (k, s). bindE (pipeline_node_counters s) (\<lambda>v. Inr (AList.update (key_str k) v r))) [] d = Inr t"
    using assms(1) by (auto simp: pipeline_counters_def items_eq_Inr node_names_PDict simp del: set_map)
  from fold_update_node [OF d(3) assms(2) [unfolded d(1)]] that d(1,2) assms(3) show ?thesis by metis
qed

lemma pipeline_counters_distinct:
  assumes "pipeline_counters snapshot = Inr t" shows "distinct (map fst t)"
proof -
  obtain d where "foldE (\<lambda>r (k, s). bindE (pipeline_node_counters s) (\<lambda>v. Inr (AList.update (key_str k) v r))) [] d = Inr t"
    using assms by (auto simp: pipeline_counters_def)
  then show ?thesis by (rule foldE_preserve) (auto simp: distinct_update)
qed

lemma pipeline_counters_names:
  assumes "pipeline_counters snapshot = Inr t" "map_of t node = Some n"
  shows "node \<in> three_nodes"
proof -
  obtain d where d: "set (map (\<lambda>e. key_str (fst e)) d) = three_nodes"
    "foldE (\<lambda>r (k, s). bindE (pipeline_node_counters s) (\<lambda>v. Inr (AList.update (key_str k) v r))) [] d = Inr t"
    using assms(1) by (auto simp: pipeline_counters_def items_eq_Inr node_names_PDict simp del: set_map)
  have key: "key_str k \<in> three_nodes" if "(k, s) \<in> set d" for k s
    unfolding d(1) [symmetric] using that by force
  have "set (map fst t) \<subseteq> three_nodes"
    using d(2)
  proof (rule foldE_preserve [where P = "\<lambda>r. set (map fst r) \<subseteq> three_nodes"])
    fix r x r'
    assume x: "x \<in> set d" "set (map fst r) \<subseteq> three_nodes"
      "(case x of (k, s) \<Rightarrow> bindE (pipeline_node_counters s) (\<lambda>v. Inr (AList.update (key_str k) v r))) = Inr r'"
    obtain k s v where "x = (k, s)" "r' = AList.update (key_str k) v r" using x(3) by (cases x) auto
    then show "set (map fst r') \<subseteq> three_nodes" using x(1,2) key by (simp add: dom_update)
  qed simp
  then show ?thesis using map_of_SomeD [OF assms(2)] by force
qed

lemma pipeline_receipt_parts:
  assumes receipt: "pipeline_activity before after combined = Inr r" and once: "named_once before" "named_once after"
  shows "\<forall>node\<in>three_nodes. \<exists>x y. 0 \<le> x \<and> x \<le> y \<and>
      raw_pipeline (node_at before node) ''completed_operations'' = Inr (PInt x) \<and>
      raw_pipeline (node_at after node) ''completed_operations'' = Inr (PInt y) \<and>
      receipt_delta r ''completed'' node = Inr (PInt (y - x))"
    and "\<exists>node\<in>three_nodes. \<exists>x y. x < y \<and>
      raw_pipeline (node_at before node) ''completed_operations'' = Inr (PInt x) \<and>
      raw_pipeline (node_at after node) ''completed_operations'' = Inr (PInt y)"
proof -
  obtain e l delta entries extra where e: "pipeline_counters before = Inr e" and l: "pipeline_counters after = Inr l"
    and delta: "pipeline_deltas completed_operations e l = Inr delta"
    and pos: "\<not> list_ex (\<lambda>(_, v). v < 0) delta" and work: "sum_list (map snd delta) \<noteq> 0"
    and r: "r = pipeline_receipt combined delta entries extra"
    using receipt by (auto simp: pipeline_activity_def)
  note de = pipeline_counters_distinct [OF e]
  show "\<forall>node\<in>three_nodes. \<exists>x y. 0 \<le> x \<and> x \<le> y \<and>
      raw_pipeline (node_at before node) ''completed_operations'' = Inr (PInt x) \<and>
      raw_pipeline (node_at after node) ''completed_operations'' = Inr (PInt y) \<and>
      receipt_delta r ''completed'' node = Inr (PInt (y - x))"
  proof
    fix node assume node: "node \<in> three_nodes"
    obtain v where v: "pipeline_node_counters (node_at before node) = Inr v" "map_of e node = Some v"
      using pipeline_counters_node [OF e once(1) node] .
    obtain w where w: "pipeline_node_counters (node_at after node) = Inr w" "map_of l node = Some w"
      using pipeline_counters_node [OF l once(2) node] .
    have "map_of delta node = Some (completed_operations w - completed_operations v)"
      using pip.entry [OF delta de v(2)] w(2) by auto
    then have "receipt_delta r ''completed'' node = Inr (PInt (completed_operations w - completed_operations v))"
      by (simp add: receipt_delta_def r pipeline_receipt_def item_def [of "PDict _"] item_by_node)
    then show "\<exists>x y. 0 \<le> x \<and> x \<le> y \<and>
      raw_pipeline (node_at before node) ''completed_operations'' = Inr (PInt x) \<and>
      raw_pipeline (node_at after node) ''completed_operations'' = Inr (PInt y) \<and>
      receipt_delta r ''completed'' node = Inr (PInt (y - x))"
      using pipeline_node_raw(2,3) [OF v(1)] pipeline_node_raw(2) [OF w(1)] pip.not_decreased [OF delta de pos v(2) w(2)]
      by auto
  qed
  obtain node x y where n: "map_of e node = Some x" "map_of l node = Some y" "completed_operations x < completed_operations y"
    using pip.some_progress [OF delta de pos work] .
  have node: "node \<in> three_nodes" by (rule pipeline_counters_names [OF e n(1)])
  from pipeline_counters_node [OF e once(1) node] pipeline_counters_node [OF l once(2) node] n
  have "pipeline_node_counters (node_at before node) = Inr x" "pipeline_node_counters (node_at after node) = Inr y"
    by (metis option.inject)+
  then show "\<exists>node\<in>three_nodes. \<exists>x y. x < y \<and>
      raw_pipeline (node_at before node) ''completed_operations'' = Inr (PInt x) \<and>
      raw_pipeline (node_at after node) ''completed_operations'' = Inr (PInt y)"
    using pipeline_node_raw(2) n(3) node by blast
qed

text \<open>C16: a passed pipeline receipt proves persistence work during the load: on each of the
  three nodes the counter of completed operations is enabled and did not decrease, the
  receipt records the exact differences, and on at least one node the counter increased.\<close>

theorem pipeline_receipt_exact:
  assumes receipt: "pipeline_activity before after combined = Inr r" and once: "named_once before" "named_once after"
  shows "(\<forall>node\<in>three_nodes. \<exists>x y. 0 \<le> x \<and> x \<le> y \<and>
      raw_pipeline (node_at before node) ''completed_operations'' = Inr (PInt x) \<and>
      raw_pipeline (node_at after node) ''completed_operations'' = Inr (PInt y) \<and>
      receipt_delta r ''completed'' node = Inr (PInt (y - x))) \<and>
    (\<exists>node\<in>three_nodes. \<exists>x y. x < y \<and>
      raw_pipeline (node_at before node) ''completed_operations'' = Inr (PInt x) \<and>
      raw_pipeline (node_at after node) ''completed_operations'' = Inr (PInt y))"
  by (intro conjI) (rule pipeline_receipt_parts [OF receipt once])+

theorem pipeline_receipt_exact_witness:
  "\<exists>r. pipeline_activity (sample_snapshot 3) (sample_snapshot 5) False = Inr r \<and>
     (\<exists>x y. receipt_delta r ''completed'' ''3'' = Inr (PInt (y - x)) \<and> x \<le> y)"
proof -
  have "succeeded (pipeline_activity (sample_snapshot 3) (sample_snapshot 5) False)" by code_simp
  then obtain r where r: "pipeline_activity (sample_snapshot 3) (sample_snapshot 5) False = Inr r" by (auto simp: succeeded_iff)
  have once: "named_once (sample_snapshot 3)" "named_once (sample_snapshot 5)" by code_simp+
  have "''3'' \<in> three_nodes" by (simp add: three_nodes_def)
  then show ?thesis using pipeline_receipt_exact [OF r once] r by blast
qed

text \<open>A receipt compares equal to itself after it was written out and read back.\<close>

lemma plain_by_node: "distinct (map fst ds) \<Longrightarrow> plain (by_node ds)"
proof -
  assume "distinct (map fst ds)"
  then have "distinct (map KStr (map fst ds))" by (simp only: distinct_map) (auto simp: inj_on_def)
  moreover have "map fst (map (\<lambda>(node, i). kv node (PInt i)) ds) = map KStr (map fst ds)" by (auto simp: case_prod_beta)
  ultimately have "distinct (map fst (map (\<lambda>(node, i). kv node (PInt i)) ds))" by (simp only:)
  then show ?thesis unfolding by_node_def plain.simps by auto
qed

lemma pipeline_deltas_distinct:
  "pipeline_deltas f e l = Inr ds \<Longrightarrow> distinct (map fst e) \<Longrightarrow> distinct (map fst ds)"
  using pip.names by metis

lemma optional_entry_Inr:
  assumes "optional_entry e l name = Inr row" "distinct (map fst e)"
  shows "row = [] \<or> (\<exists>ds. row = [(name, ds)] \<and> distinct (map fst ds))"
  using assms pipeline_deltas_distinct by (auto simp: optional_entry_def split: if_splits)

lemma optional_rows:
  assumes "mapE (optional_entry e l) names = Inr rows" "distinct (map fst e)" "distinct names"
  shows "set (map fst (concat rows)) \<subseteq> set names \<and> distinct (map fst (concat rows)) \<and>
    (\<forall>(_, ds)\<in>set (concat rows). distinct (map fst ds))"
  using assms(1,3)
proof (induction names arbitrary: rows)
  case (Cons name names)
  then obtain row rest where row: "optional_entry e l name = Inr row" "mapE (optional_entry e l) names = Inr rest" "rows = row # rest"
    by auto
  with Cons have IH: "set (map fst (concat rest)) \<subseteq> set names" "distinct (map fst (concat rest))"
    "\<forall>(_, ds)\<in>set (concat rest). distinct (map fst ds)" "name \<notin> set names" by auto
  then have "name \<notin> set (map fst (concat rest))" by blast
  with IH row(3) show ?case
    using optional_entry_Inr [OF row(1) assms(2)]
    by (elim disjE exE conjE) (simp_all add: subset_insertI2)
qed simp

lemma threshold_plain:
  assumes "threshold_entry e l = Inr t" "distinct (map fst e)"
  shows "map fst t \<in> {[], [KStr ''max_speculative_proposals_by_node'']} \<and> (\<forall>x\<in>set t. plain (snd x))"
proof -
  have "map (fst \<circ> (\<lambda>(node, y, _). (node, case y of Some i \<Rightarrow> i | None \<Rightarrow> 0))) rows = map fst e"
    if "mapE (\<lambda>(node, values). bindE (lookup l node) (\<lambda>l. Inr (node, max_speculative_proposals l, max_speculative_proposals values))) e = Inr rows"
    for rows
    by (rule mapE_project [OF that]) (auto split: prod.splits)
  then show ?thesis using assms by (auto simp: threshold_entry_def intro!: plain_by_node split: if_splits)
qed

lemma sizes_plain:
  assumes "sizes_entry e l = Inr t" "distinct (map fst e)"
  shows "map fst t \<in> {[], [KStr ''proposal_batch_sizes_by_node'']} \<and> (\<forall>x\<in>set t. plain (snd x))"
proof -
  let ?row = "\<lambda>(node, values). bindE (lookup l node) (\<lambda>l.
         let keys = sort_key key_order (remdups (size_keys values @ size_keys l));
             deltas = map (\<lambda>key. (key, size_count l key - size_count values key)) keys in
         bindE (raise_if (list_ex (\<lambda>(_, v). v < 0) deltas) ValueError ''pipeline proposal batch counter regressed'') (\<lambda>_.
         Inr (kv node (by_node deltas))))"
  have "plain (PDict rows)" if rows: "mapE ?row e = Inr rows" for rows
  proof -
    have "map fst rows = map (KStr \<circ> fst) e"
      by (rule mapE_project [OF rows]) (auto simp: Let_def split: prod.splits)
    then have "distinct (map fst rows)" using assms(2) by (simp add: distinct_map comp_inj_on_iff inj_on_def)
    moreover have "plain (snd x)" if "x \<in> set rows" for x
      using mapE_mem [OF rows that] by (auto simp: Let_def comp_def intro!: plain_by_node)
    ultimately show ?thesis by simp
  qed
  then show ?thesis using assms(1) by (auto simp: sizes_entry_def split: if_splits)
qed

lemma pipeline_activity_plain:
  assumes "pipeline_activity before after combined = Inr r"
  obtains rest delta where "r = kv ''schema'' (PInt 3) # kv ''status'' (PStr ''passed'') #
      kv ''completed_by_node'' (by_node delta) # kv ''scope'' activity_scope # rest" "plain (PDict r)"
proof -
  obtain e l delta rows thresholds sizes where e: "pipeline_counters before = Inr e"
    and delta: "pipeline_deltas completed_operations e l = Inr delta"
    and rows: "mapE (optional_entry e l) optional_names = Inr rows"
    and t: "threshold_entry e l = Inr thresholds" and s: "sizes_entry e l = Inr sizes"
    and r: "r = pipeline_receipt combined delta (concat rows) (thresholds @ sizes)"
    using assms by (auto simp: pipeline_activity_def)
  note d = pipeline_counters_distinct [OF e]
  let ?entries = "map (\<lambda>(name, values). kv (name @ ''_by_node'') (by_node values)) (concat rows)"
  have rw: "set (map fst (concat rows)) \<subseteq> set optional_names" "distinct (map fst (concat rows))"
    "\<forall>(_, ds)\<in>set (concat rows). distinct (map fst ds)"
    using optional_rows [OF rows d] by (auto simp: optional_names_def)
  have rw3: "distinct (map fst ds)" if "row \<in> set rows" "(n, ds) \<in> set row" for row n ds
    using rw(3) that by fastforce
  have keys: "map fst ?entries = map (\<lambda>n. KStr (n @ ''_by_node'')) (map fst (concat rows))"
    by (simp add: case_prod_beta)
  have dk: "distinct (map fst ?entries)" unfolding keys using rw(2) by (simp only: distinct_map) (auto simp: inj_on_def)
  have sub: "set (map fst ?entries) \<subseteq> (\<lambda>n. KStr (n @ ''_by_node'')) ` set optional_names" unfolding keys using rw(1) by auto
  have "k \<notin> (\<lambda>n. KStr (n @ ''_by_node'')) ` set optional_names" if "k \<in> KStr ` {''schema'', ''status'', ''completed_by_node'', ''scope'', ''combined_mode'',
      ''max_speculative_proposals_by_node'', ''proposal_batch_sizes_by_node''}" for k
    using that by (auto simp: optional_names_def)
  with sub have apart: "set (map fst ?entries) \<inter> KStr ` {''schema'', ''status'', ''completed_by_node'', ''scope'', ''combined_mode'',
      ''max_speculative_proposals_by_node'', ''proposal_batch_sizes_by_node''} = {}" by blast
  obtain K where K: "K = map fst ?entries" by blast
  have "map fst r = [KStr ''schema'', KStr ''status'', KStr ''completed_by_node'', KStr ''scope''] @ K @
      [KStr ''combined_mode''] @ map fst thresholds @ map fst sizes"
    unfolding K by (simp add: r pipeline_receipt_def)
  then have "distinct (map fst r)"
    using dk [folded K] apart [folded K] threshold_plain [OF t d] sizes_plain [OF s d]
    by (elim conjE insertE emptyE) simp_all
  moreover have "plain (snd x)" if "x \<in> set r" for x
    using that threshold_plain [OF t d] sizes_plain [OF s d] pipeline_deltas_distinct [OF delta d]
    unfolding r pipeline_receipt_def by (auto intro!: plain_by_node simp: activity_scope_def dest: rw3)
  ultimately have plain: "plain (PDict r)" unfolding plain.simps by blast
  have "r = kv ''schema'' (PInt 3) # kv ''status'' (PStr ''passed'') # kv ''completed_by_node'' (by_node delta) #
      kv ''scope'' activity_scope # drop 4 r"
    by (simp add: r pipeline_receipt_def)
  then show ?thesis by (rule that [OF _ plain])
qed

lemma subset_of_union: "A \<union> B = C \<Longrightarrow> B \<subseteq> C"
  by blast

lemma subsets_disjoint: "A \<subseteq> R \<Longrightarrow> A \<subseteq> S \<Longrightarrow> R \<inter> S = {} \<Longrightarrow> A = {}"
  by blast

lemma plain_delete: "plain (PDict d) \<Longrightarrow> plain (PDict (AList.delete k d))"
  by (auto simp: AList.delete_eq intro: distinct_map_filter)

lemma recomputed_activity_forms:
  assumes "pipeline_activity before after combined = Inr r"
  shows "recorded_activity_matches r (PDict r) = Inr True"
    and "recorded_activity_matches r
      (PDict (AList.delete (KStr ''combined_mode'') (AList.update (KStr ''schema'') (PInt 2) r))) = Inr True"
    and "recorded_activity_matches r
      (PDict (AList.delete (KStr ''combined_mode'') (AList.delete (KStr ''schema'') r))) = Inr True"
    and "recorded_activity_matches r (PDict (filter (\<lambda>(k, _). k \<in> KStr ` {''status'', ''completed_by_node'', ''scope''}) r)) = Inr True"
proof -
  obtain rest delta where r: "r = kv ''schema'' (PInt 3) # kv ''status'' (PStr ''passed'') #
      kv ''completed_by_node'' (by_node delta) # kv ''scope'' activity_scope # rest" and plain: "plain (PDict r)"
    using pipeline_activity_plain [OF assms] .
  have apart: "KStr ''schema'' \<notin> fst ` set rest" "KStr ''status'' \<notin> fst ` set rest"
    "KStr ''completed_by_node'' \<notin> fst ` set rest" "KStr ''scope'' \<notin> fst ` set rest"
    using plain unfolding r by simp_all
  let ?two = "AList.delete (KStr ''combined_mode'') (AList.update (KStr ''schema'') (PInt 2) r)"
  let ?bare = "AList.delete (KStr ''combined_mode'') (AList.delete (KStr ''schema'') r)"
  have two: "plain (PDict ?two)" using plain unfolding r by (intro plain_delete) simp
  have bare: "plain (PDict ?bare)" by (intro plain_delete plain)
  let ?old = "[kv ''status'' (PStr ''passed''), kv ''completed_by_node'' (by_node delta), kv ''scope'' activity_scope]"
  have old: "plain (PDict ?old)" using plain unfolding r by simp
  have shape: "?bare = ?old @ AList.delete (KStr ''combined_mode'') (AList.delete (KStr ''schema'') rest)"
    by (simp add: r AList.delete_eq)
  have gone: "map_of ?bare (KStr ''schema'') = None" by (simp add: delete_conv')
  have fields: "mapE (\<lambda>key. bindE (item (PDict ?bare) key) (\<lambda>v. Inr (kv key v))) [''status'', ''completed_by_node'', ''scope''] = Inr ?old"
    unfolding shape by (simp add: item_def)
  have same: "?bare = ?old" if "keys_are ?bare [''status'', ''completed_by_node'', ''scope'']"
  proof -
    have "fst ` set (AList.delete (KStr ''combined_mode'') (AList.delete (KStr ''schema'') rest)) \<subseteq> fst ` set rest"
      by (auto simp: AList.delete_eq)
    moreover have "fst ` set (AList.delete (KStr ''combined_mode'') (AList.delete (KStr ''schema'') rest))
        \<subseteq> {KStr ''status'', KStr ''completed_by_node'', KStr ''scope''}"
      using subset_of_union [OF that [unfolded keys_are_def shape map_append set_append]] by simp
    moreover have "fst ` set rest \<inter> {KStr ''status'', KStr ''completed_by_node'', KStr ''scope''} = {}"
      using apart by simp
    ultimately have "fst ` set (AList.delete (KStr ''combined_mode'') (AList.delete (KStr ''schema'') rest)) = {}"
      by (rule subsets_disjoint)
    then show ?thesis unfolding shape by simp
  qed
  show "recorded_activity_matches r (PDict r) = Inr True"
    using py_eq_refl [OF plain] by (simp add: recorded_activity_matches_def get_or_def dict_get_def items_def r num_of_def num_eq_def)
  show "recorded_activity_matches r (PDict ?two) = Inr True"
    using py_eq_refl [OF two]
    by (simp add: recorded_activity_matches_def get_or_def dict_get_def items_def r num_of_def num_eq_def AList.delete_eq)
  show "recorded_activity_matches r (PDict ?bare) = Inr True"
  proof (cases "keys_are ?bare [''status'', ''completed_by_node'', ''scope'']")
    case True
    have "py_eq (PDict ?old) (PDict ?bare)" using py_eq_refl [OF old] unfolding same [OF True] .
    with True gone fields show ?thesis
      by (simp add: recorded_activity_matches_def get_or_def dict_get_def items_def has_key_def num_of_def Let_def
          del: mapE.simps py_eq.simps(4))
  next
    case False
    with py_eq_refl [OF bare] gone show ?thesis
      by (simp add: recorded_activity_matches_def get_or_def dict_get_def items_def has_key_def num_of_def Let_def)
  qed
  have "filter (\<lambda>(k, _). k \<in> KStr ` {''status'', ''completed_by_node'', ''scope''}) rest = []"
    using apart by (force simp: filter_empty_conv)
  then have "filter (\<lambda>(k, _). k \<in> KStr ` {''status'', ''completed_by_node'', ''scope''}) r = ?old" by (simp add: r)
  moreover have "keys_are ?old [''status'', ''completed_by_node'', ''scope'']" by (auto simp: keys_are_def)
  ultimately show "recorded_activity_matches r (PDict (filter (\<lambda>(k, _). k \<in> KStr ` {''status'', ''completed_by_node'', ''scope''}) r)) = Inr True"
    using py_eq_refl [OF old] fields
    by (simp add: recorded_activity_matches_def get_or_def dict_get_def items_def has_key_def num_of_def Let_def
        del: mapE.simps)
qed

text \<open>C17: evidence sealed by earlier versions still verifies. The receipt that is recomputed
  now matches itself, its schema 2 form (no combined mode), its form without a schema, and the
  oldest form with three fields.\<close>

theorem recomputed_activity_matches:
  assumes "pipeline_activity before after combined = Inr r"
  shows "recorded_activity_matches r (PDict r) = Inr True \<and>
    recorded_activity_matches r
      (PDict (AList.delete (KStr ''combined_mode'') (AList.update (KStr ''schema'') (PInt 2) r))) = Inr True \<and>
    recorded_activity_matches r
      (PDict (AList.delete (KStr ''combined_mode'') (AList.delete (KStr ''schema'') r))) = Inr True \<and>
    recorded_activity_matches r (PDict (filter (\<lambda>(k, _). k \<in> KStr ` {''status'', ''completed_by_node'', ''scope''}) r)) = Inr True"
  by (intro conjI) (rule recomputed_activity_forms [OF assms])+

theorem recomputed_activity_matches_witness:
  "\<exists>r. pipeline_activity (sample_snapshot 3) (sample_snapshot 5) True = Inr r \<and> recorded_activity_matches r (PDict r) = Inr True"
proof -
  have "succeeded (pipeline_activity (sample_snapshot 3) (sample_snapshot 5) True)" by code_simp
  then show ?thesis using recomputed_activity_matches by (auto simp: succeeded_iff)
qed

section \<open>Bounded replication windows\<close>

definition is_leader :: "pyval \<Rightarrow> bool" where
  "is_leader status \<longleftrightarrow> bindE (item status ''info'') (\<lambda>info. item info ''leader'') = Inr (PBool True)"

definition raw_windows :: "pyval \<Rightarrow> pyval res" where
  "raw_windows status =
     bindE (item status ''info'') (\<lambda>info. bindE (item info ''engine'') (\<lambda>engine.
     bindE (item engine ''replication_windows'') (\<lambda>replication. item replication ''windows'')))"

text \<open>Every leader of the snapshot bounds the window to exactly the other members by \<open>n\<close>, and
  there is a leader.\<close>

definition windows_bounded :: "pyval \<Rightarrow> int \<Rightarrow> bool" where
  "windows_bounded snapshot n \<longleftrightarrow> (\<exists>d. snapshot = PDict d \<and> (\<exists>(k, status)\<in>set d. is_leader status) \<and>
     (\<forall>(k, status)\<in>set d. is_leader status \<longrightarrow> (\<exists>i ws. int_of_key k = Inr i \<and> raw_windows status = Inr (PList ws) \<and>
       (\<forall>w\<in>set ws. item w ''max_in_flight_batches'' = Inr (PInt n)) \<and>
       {f. \<exists>w\<in>set ws. item w ''follower_id'' = Inr (PInt f)} = {j. \<exists>k'\<in>fst ` set d. int_of_key k' = Inr j} - {i})))"

lemma positive_int_Inr: "positive_int v name = Inr i \<longleftrightarrow> v = PInt i \<and> 0 < i"
  by (cases v) (auto simp: positive_int_def)

lemma get_PInt_item: "get v k = Inr (PInt i) \<Longrightarrow> item v k = Inr (PInt i)"
  by (simp add: get_or_item)

lemma window_step_Inr:
  assumes "window_step name node expected observed w = Inr observed'"
  obtains f where "observed' = observed @ [(f, expected)]" "item w ''follower_id'' = Inr (PInt f)"
    "item w ''max_in_flight_batches'' = Inr (PInt expected)"
  using assms by (auto simp: window_step_def positive_int_Inr dest!: get_PInt_item)

lemma window_fold:
  assumes "foldE (window_step name node expected) observed ws = Inr observed'"
  shows "(\<forall>w\<in>set ws. item w ''max_in_flight_batches'' = Inr (PInt expected)) \<and>
    fst ` set observed' = fst ` set observed \<union> {f. \<exists>w\<in>set ws. item w ''follower_id'' = Inr (PInt f)}"
  using assms
proof (induction ws arbitrary: observed)
  case (Cons w ws)
  then obtain mid where mid: "window_step name node expected observed w = Inr mid"
    "foldE (window_step name node expected) mid ws = Inr observed'" by auto
  obtain f where f: "mid = observed @ [(f, expected)]" "item w ''follower_id'' = Inr (PInt f)"
    "item w ''max_in_flight_batches'' = Inr (PInt expected)" using window_step_Inr [OF mid(1)] .
  then show ?case using Cons.IH [OF mid(2)] by auto
qed simp

lemma read_or_none:
  "(case v of PDict d \<Rightarrow> Inr (dict_get d k PNone) | _ \<Rightarrow> Inr PNone) = Inr (PStr s) \<longleftrightarrow> (\<exists>d. v = PDict d \<and> dict_get d k PNone = PStr s)"
  by (cases v) auto

lemma window_status_Inr:
  assumes "window_status name key status = Inr (node_id, windows, leader)"
  shows "int_of_key key = Inr node_id" "is_leader status \<longleftrightarrow> leader = PBool True"
    "windows \<noteq> PNone \<Longrightarrow> raw_windows status = Inr windows"
proof -
  have "\<exists>info engine replication. get status ''info'' = Inr (PDict info) \<and> get (PDict info) ''engine'' = Inr (PDict engine) \<and>
      get (PDict engine) ''replication_windows'' = Inr (PDict replication) \<and>
      get (PDict replication) ''windows'' = Inr windows \<and> get (PDict info) ''leader'' = Inr leader \<and> int_of_key key = Inr node_id"
    using assms unfolding window_status_def Let_def bindE_eq_Inr raise_if_eq_Inr not_not is_dict_iff positive_int_Inr py_eq_PStr
    by (clarsimp simp: read_or_none)
  then obtain info engine replication where info: "get status ''info'' = Inr (PDict info)"
    and engine: "get (PDict info) ''engine'' = Inr (PDict engine)"
    and replication: "get (PDict engine) ''replication_windows'' = Inr (PDict replication)"
    and windows: "get (PDict replication) ''windows'' = Inr windows" and leader: "get (PDict info) ''leader'' = Inr leader"
    and id: "int_of_key key = Inr node_id" by blast
  show "int_of_key key = Inr node_id" by (rule id)
  have info: "item status ''info'' = Inr (PDict info)" using info by (simp add: get_or_item)
  have "is_leader status \<longleftrightarrow> item (PDict info) ''leader'' = Inr (PBool True)" by (simp add: is_leader_def info)
  then show "is_leader status \<longleftrightarrow> leader = PBool True"
    using leader get_or_item [OF leader] by (auto simp: get_or_eq_Inr item_eq_Inr dict_get_def)
  show "raw_windows status = Inr windows" if "windows \<noteq> PNone"
    using info engine replication get_or_item [OF windows that] by (simp add: raw_windows_def get_or_item)
qed

lemma window_node_Inr:
  assumes "window_node name expected ids leaders (key, status) = Inr leaders'"
  shows "\<not> is_leader status \<Longrightarrow> leaders' = leaders"
    and "is_leader status \<Longrightarrow> \<exists>i ws. int_of_key key = Inr i \<and> raw_windows status = Inr (PList ws) \<and>
      (\<forall>w\<in>set ws. item w ''max_in_flight_batches'' = Inr (PInt expected)) \<and>
      {f. \<exists>w\<in>set ws. item w ''follower_id'' = Inr (PInt f)} = ids - {i}"
proof -
  obtain node_id windows leader where st: "window_status name key status = Inr (node_id, windows, leader)"
    using assms by (auto simp: window_node_def)
  note facts = window_status_Inr [OF st]
  note rest = assms [unfolded window_node_def case_prod_conv st bindE_simps Let_def]
  show "\<not> is_leader status \<Longrightarrow> leaders' = leaders" using rest facts(2) by auto
  assume "is_leader status"
  with facts(2) have leader: "leader = PBool True" by simp
  obtain ws observed where ws: "windows = PList ws" "foldE (window_step name (key_str key) expected) [] ws = Inr observed"
    "fst ` set observed = ids - {node_id}"
    using rest leader by (cases windows) auto
  then show "\<exists>i ws. int_of_key key = Inr i \<and> raw_windows status = Inr (PList ws) \<and>
      (\<forall>w\<in>set ws. item w ''max_in_flight_batches'' = Inr (PInt expected)) \<and>
      {f. \<exists>w\<in>set ws. item w ''follower_id'' = Inr (PInt f)} = ids - {i}"
    using window_fold [OF ws(2)] facts(1,3) by (intro exI [of _ node_id] exI [of _ ws]) simp
qed

lemma window_snapshot_bounded:
  assumes "window_snapshot snapshot name expected = Inr leaders"
  shows "windows_bounded snapshot expected"
proof -
  obtain d rows where d: "snapshot = PDict d"
    and rows: "mapE (\<lambda>(k, v). bindE (int_of_key k) (\<lambda>i. bindE (positive_int (PInt i) ''status node_id'') (\<lambda>i. Inr (i, k, v)))) d = Inr rows"
    and loop: "foldE (window_node name expected (set (map fst rows))) [] (map snd (sort_key fst rows)) = Inr leaders"
    and some: "leaders \<noteq> []"
    using assms by (cases snapshot) (auto simp: window_snapshot_def)
  have "map snd rows = map id d" by (rule mapE_project [OF rows]) (auto simp: positive_int_Inr split: prod.splits)
  then have nodes: "set (map snd (sort_key fst rows)) = set d"
    by (metis list.set_map set_sort list.map_id)
  have "map (\<lambda>r. Inr (fst r)) rows = map (\<lambda>e. int_of_key (fst e)) d"
    by (rule mapE_project [OF rows]) (auto simp: positive_int_Inr split: prod.splits)
  then have eq: "(\<lambda>r. Inr (fst r)) ` set rows = (\<lambda>e. int_of_key (fst e)) ` set d" by (metis list.set_map)
  have "j \<in> set (map fst rows) \<longleftrightarrow> Inr j \<in> (\<lambda>e. int_of_key (fst e)) ` set d" for j
    unfolding eq [symmetric] by auto
  moreover have "Inr j \<in> (\<lambda>e. int_of_key (fst e)) ` set d \<longleftrightarrow> (\<exists>k'\<in>fst ` set d. int_of_key k' = Inr j)" for j
    by (metis (mono_tags, lifting) image_iff)
  ultimately have ids: "set (map fst rows) = {j. \<exists>k'\<in>fst ` set d. int_of_key k' = Inr j}" by blast
  have leader: "\<exists>(k, status)\<in>set d. is_leader status"
  proof (rule ccontr)
    assume none: "\<not> (\<exists>(k, status)\<in>set d. is_leader status)"
    have "leaders = []" using loop
    proof (rule foldE_preserve)
      fix l x l' assume x: "x \<in> set (map snd (sort_key fst rows))" "l = []" "window_node name expected (set (map fst rows)) l x = Inr l'"
      obtain k status where "x = (k, status)" by (cases x)
      then show "l' = []" using x none nodes window_node_Inr(1) by auto
    qed simp
    with some show False by simp
  qed
  have "\<exists>i ws. int_of_key k = Inr i \<and> raw_windows status = Inr (PList ws) \<and>
       (\<forall>w\<in>set ws. item w ''max_in_flight_batches'' = Inr (PInt expected)) \<and>
       {f. \<exists>w\<in>set ws. item w ''follower_id'' = Inr (PInt f)} = {j. \<exists>k'\<in>fst ` set d. int_of_key k' = Inr j} - {i}"
    if node: "(k, status) \<in> set d" and lead: "is_leader status" for k status
  proof -
    obtain l l' where "window_node name expected (set (map fst rows)) l (k, status) = Inr l'"
      using foldE_each [OF loop, unfolded nodes, OF node] by blast
    from window_node_Inr(2) [OF this lead] show ?thesis unfolding ids .
  qed
  then show ?thesis unfolding windows_bounded_def using d leader by blast
qed

text \<open>C18: a replication-window receipt is only issued for a bound between 1 and 64 that each
  observed leader really applies: before and after the load there is a leader, and every
  leader reports exactly one window for each other member, with the requested bound.\<close>

theorem window_receipt_sound:
  assumes "configuration_receipt before after_load bound = Inr r"
  shows "\<exists>n. bound = PInt n \<and> 1 \<le> n \<and> n \<le> 64 \<and> windows_bounded before n \<and> windows_bounded after_load n \<and>
    item (PDict r) ''requested_max_in_flight_batches'' = Inr (PInt n)"
  using assms window_snapshot_bounded
  by (fastforce simp: configuration_receipt_def positive_int_Inr item_def)

definition sample_windows :: "int \<Rightarrow> pyval" where
  "sample_windows leader = PDict (map (\<lambda>i. kv (int_str i) (PDict [kv ''status'' (PStr ''ok''), kv ''info'' (PDict [
     kv ''implementation'' (PStr ''rafter''), kv ''node_id'' (PInt i), kv ''leader'' (PBool (i = leader)),
     kv ''engine'' (PDict [kv ''replication_windows'' (PDict [kv ''windows'' (PList (if i \<noteq> leader then [] else
       map (\<lambda>j. PDict [kv ''follower_id'' (PInt j), kv ''max_in_flight_batches'' (PInt 4)]) (filter (\<lambda>j. j \<noteq> i) [1, 2, 3])))])])])])) [1, 2, 3])"

theorem window_receipt_sound_witness:
  "(\<exists>r. configuration_receipt (sample_windows 1) (sample_windows 2) (PInt 4) = Inr r) \<and> windows_bounded (sample_windows 2) 4"
proof -
  have "succeeded (configuration_receipt (sample_windows 1) (sample_windows 2) (PInt 4))" by code_simp
  then show ?thesis using window_receipt_sound by (fastforce simp: succeeded_iff)
qed

end
