(* ===== verification/Accounting.thy ===== *)
theory Accounting
  imports Py_Prelude Suite_Plan
begin

text \<open>
  Latency histograms and measurement accounting: \<open>_histogram_percentile\<close>,
  \<open>histogram_summary\<close>, \<open>_histogram_errors\<close> and \<open>validate_result\<close> of
  \<open>src/benchctl/evidence.py\<close>, together with the writer of the histograms, \<open>Add\<close> and
  \<open>Merge\<close> of \<open>src/loadgen/histogram.go\<close>. The percentile computation uses binary64
  arithmetic. The theorems connect the two sides: a histogram that the load generator
  recorded is accepted, its percentiles are defined, within one part in 64 above the exact
  order statistic, and ordered; merging is recording the concatenation; an accepted result
  has consistent counts.
\<close>

section \<open>The recorder\<close>

record histogram =
  h_bins :: "int list"
  h_count :: int
  h_maximum :: int

definition empty_histogram :: histogram where
  "empty_histogram = \<lparr>h_bins = replicate 4096 0, h_count = 0, h_maximum = 0\<rparr>"

text \<open>Addition of \<open>uint64\<close>.\<close>

definition u64 :: "int \<Rightarrow> int" where
  "u64 x = x mod 2 ^ 64"

text \<open>The first lines of \<open>Add\<close>: zero counts as one nanosecond, and values from \<open>2 ^ 63\<close> are
  saturated.\<close>

definition saturate :: "int \<Rightarrow> int" where
  "saturate n = (let n = (if n = 0 then 1 else n) in if 64 \<le> bitlen n then 2 ^ 63 - 1 else n)"

text \<open>Position, width and limits of a bin; \<open>bitlen\<close> is \<open>bits.Len64\<close>.\<close>

definition bin_base :: "int \<Rightarrow> int" where
  "bin_base exponent = 2 ^ nat (exponent - 1)"

definition bin_width :: "int \<Rightarrow> int" where
  "bin_width exponent = max 1 (bin_base exponent div 64)"

definition bin_index :: "int \<Rightarrow> int" where
  "bin_index n =
     (let exponent = bitlen n; offset = (n - bin_base exponent) div bin_width exponent
      in exponent * 64 + min offset 63)"

definition add :: "histogram \<Rightarrow> int \<Rightarrow> histogram" where
  "add h n =
     (let n = saturate n; i = nat (bin_index n) in
      \<lparr>h_bins = (h_bins h)[i := u64 (h_bins h ! i + 1)], h_count = u64 (h_count h + 1),
       h_maximum = (if h_maximum h < n then n else h_maximum h)\<rparr>)"

definition merge :: "histogram \<Rightarrow> histogram \<Rightarrow> histogram" where
  "merge h other =
     \<lparr>h_bins = map (\<lambda>(a, b). u64 (a + b)) (zip (h_bins h) (h_bins other)),
      h_count = u64 (h_count h + h_count other),
      h_maximum = (if h_maximum h < h_maximum other then h_maximum other else h_maximum h)\<rparr>"

definition recorded :: "int list \<Rightarrow> histogram" where
  "recorded xs = foldl add empty_histogram xs"

section \<open>Percentiles\<close>

definition percentile_rank :: "int \<Rightarrow> pyfloat \<Rightarrow> int res" where
  "percentile_rank n percentile =
     bindE (f_of_int n) (\<lambda>c. bindE (f_ceil (f_mul c percentile)) (\<lambda>r. Inr (max 1 r)))"

definition bin_lower :: "int \<Rightarrow> int" where
  "bin_lower index = bin_base (index div 64) + (index mod 64) * bin_width (index div 64)"

definition bin_upper :: "int \<Rightarrow> int" where
  "bin_upper index = bin_base (index div 64) + (index mod 64 + 1) * bin_width (index div 64) - 1"

fun percentile_loop :: "int \<Rightarrow> int \<Rightarrow> int \<Rightarrow> int \<Rightarrow> int list \<Rightarrow> int res" where
  "percentile_loop index observed rank maximum [] = raiseE ValueError ''histogram count exceeds bins''"
| "percentile_loop index observed rank maximum (value # rest) =
     (let observed = observed + value in
      if observed < rank then percentile_loop (index + 1) observed rank maximum rest
      else if index div 64 = 0 then Inr 1
      else Inr (min (bin_upper index) maximum))"

definition histogram_percentile :: "histogram \<Rightarrow> pyfloat \<Rightarrow> int res" where
  "histogram_percentile h percentile =
     (if h_count h = 0 then Inr 0
      else bindE (percentile_rank (h_count h) percentile) (\<lambda>rank.
        percentile_loop 0 0 rank (h_maximum h) (h_bins h)))"

definition HISTOGRAM_QUANTIZATION :: string where
  "HISTOGRAM_QUANTIZATION = ''64 subdivisions per power of two; upper-bound percentiles''"

text \<open>\<open>v / 1e6\<close> for an integer \<open>v\<close>\<close>

definition in_ms :: "int \<Rightarrow> pyfloat res" where
  "in_ms v = bindE (f_of_int v) (\<lambda>x. Inr (f_div x (Fl 1000000)))"

definition percentile_ms :: "histogram \<Rightarrow> rat \<Rightarrow> pyfloat res" where
  "percentile_ms h p = bindE (histogram_percentile h (fl p)) in_ms"

definition histogram_summary :: "histogram \<Rightarrow> pydict res" where
  "histogram_summary h =
     bindE (percentile_ms h (1 / 2)) (\<lambda>p50.
     bindE (percentile_ms h (95 / 100)) (\<lambda>p95.
     bindE (percentile_ms h (99 / 100)) (\<lambda>p99.
     bindE (percentile_ms h (999 / 1000)) (\<lambda>p999.
     bindE (in_ms (h_maximum h)) (\<lambda>most.
     Inr [kv ''count'' (PInt (h_count h)), kv ''p50_ms'' (PFloat p50), kv ''p95_ms'' (PFloat p95),
       kv ''p99_ms'' (PFloat p99), kv ''p999_ms'' (PFloat p999), kv ''max_ms'' (PFloat most),
       kv ''quantization'' (PStr HISTOGRAM_QUANTIZATION)])))))"

section \<open>Validation\<close>

definition ints_of :: "pyval \<Rightarrow> int list" where
  "ints_of v = (case v of PList xs \<Rightarrow> map (\<lambda>x. case x of PInt i \<Rightarrow> i | _ \<Rightarrow> 0) xs | _ \<Rightarrow> [])"

definition the_int :: "pyval \<Rightarrow> int" where
  "the_int v = (case v of PInt i \<Rightarrow> i | _ \<Rightarrow> 0)"

text \<open>The fields of a histogram object whose types have been checked.\<close>

definition read_histogram :: "pydict \<Rightarrow> histogram" where
  "read_histogram d =
     \<lparr>h_bins = ints_of (dict_get d ''bins'' PNone), h_count = the_int (dict_get d ''count'' PNone),
      h_maximum = the_int (dict_get d ''maximum_ns'' PNone)\<rparr>"

definition histogram_typed :: "pydict \<Rightarrow> int \<Rightarrow> bool" where
  "histogram_typed d expected_count =
     (case dict_get d ''bins'' PNone of
        PList bins \<Rightarrow> length bins = 4096 \<and> list_all is_nonneg bins \<and> is_nonneg (dict_get d ''count'' PNone)
          \<and> sum_list (ints_of (PList bins)) = the_int (dict_get d ''count'' PNone)
          \<and> the_int (dict_get d ''count'' PNone) = expected_count
          \<and> is_nonneg (dict_get d ''maximum_ns'' PNone)
      | _ \<Rightarrow> False)"

definition highest_bin :: "int list \<Rightarrow> int" where
  "highest_bin bins = int (Max (set (map fst (filter (\<lambda>(i, v). v \<noteq> 0) (List.enumerate 0 bins)))))"

definition histogram_errors :: "pyval \<Rightarrow> int \<Rightarrow> string \<Rightarrow> string list" where
  "histogram_errors histogram expected_count name =
     (case histogram of
        PDict d \<Rightarrow>
          (if \<not> histogram_typed d expected_count then [''histogram accounting mismatch: '' @ name]
           else let h = read_histogram d in
             if h_count h = 0
             then (if h_maximum h = 0 then [] else [''histogram maximum differs from bins: '' @ name])
             else let highest = highest_bin (h_bins h) in
               if highest div 64 = 0 then [''histogram contains an unreachable bin: '' @ name]
               else if \<not> (bin_lower highest \<le> h_maximum h \<and> h_maximum h \<le> bin_upper highest)
               then [''histogram maximum differs from bins: '' @ name]
               else [])
      | _ \<Rightarrow> [''histogram is not an object: '' @ name])"

definition CONTRACT :: string where
  "CONTRACT = ''durable-log+durable-application-v1/logged-reads''"

definition required_counts :: "string list" where
  "required_counts = [''offered'', ''attempted'', ''not_issued'', ''ok'', ''unknown'', ''errors'',
     ''completed_in_window'', ''network_attempts'']"

text \<open>\<open>config.get("rate")\<close> and the number of scheduled dispatches it implies; \<open>None\<close> is an
  invalid rate. \<open>math.isfinite\<close> of an integer converts it to a float.\<close>

definition scheduled_rate :: "pyval \<Rightarrow> pyfloat option res" where
  "scheduled_rate config =
     bindE (case config of PDict d \<Rightarrow> Inr (dict_get d ''rate'' PNone) | _ \<Rightarrow> Inr PNone) (\<lambda>rate.
     case rate of
       PInt i \<Rightarrow> bindE (f_of_int i) (\<lambda>_. Inr (if i < 0 then None else Some (Fl (of_int i))))
     | PFloat x \<Rightarrow> Inr (if is_finite x \<and> \<not> f_lt x (Fl 0) then Some x else None)
     | _ \<Rightarrow> Inr None)"

text \<open>One histogram: its field, the expected count and the field of its summary.\<close>

definition check_histogram :: "pyval \<Rightarrow> int \<Rightarrow> string \<times> int \<times> string \<Rightarrow> string list res" where
  "check_histogram r schema = (\<lambda>(name, expected, summary_name).
     bindE (get r name) (\<lambda>histogram.
     let errors = histogram_errors histogram expected name in
     if schema \<ge> 3 \<and> errors = []
     then bindE (items histogram) (\<lambda>d. bindE (histogram_summary (read_histogram d)) (\<lambda>summary.
            bindE (get r summary_name) (\<lambda>reported.
            Inr (if py_eq reported (PDict summary) then []
                 else [''histogram summary mismatch: '' @ summary_name]))))
     else Inr errors))"

definition scheduler_checks :: "pyval \<Rightarrow> int \<Rightarrow> int \<Rightarrow> (string list \<times> (string \<times> int \<times> string) list) res" where
  "scheduler_checks r offered attempted =
     bindE (get r ''config'') (\<lambda>config.
     bindE (scheduled_rate config) (\<lambda>rate.
     let (errors, scheduler_count) = (case rate of
           None \<Rightarrow> ([''invalid scheduled rate for measurement schema 3''], - 1)
         | Some x \<Rightarrow> ([], if f_lt (Fl 0) x then offered else 0)) in
     Inr (errors, [(''worker_start_lateness_histogram'', attempted, ''worker_start_lateness''),
       (''scheduler_lateness_histogram'', scheduler_count, ''scheduler_lateness'')])))"

definition validate_counts :: "pyval \<Rightarrow> string list res" where
  "validate_counts r =
     bindE (mapE (\<lambda>key. bindE (get r key) (\<lambda>v.
       Inr (if is_nonneg v then [] else [''invalid nonnegative count: '' @ key]))) required_counts) (\<lambda>es.
     Inr (concat es))"

definition validate_result :: "pyval \<Rightarrow> string list res" where
  "validate_result r =
     bindE (validate_counts r) (\<lambda>errors. if errors \<noteq> [] then Inr errors else
     bindE (int_item r ''offered'') (\<lambda>offered. bindE (int_item r ''attempted'') (\<lambda>attempted.
     bindE (int_item r ''not_issued'') (\<lambda>not_issued. bindE (int_item r ''ok'') (\<lambda>ok.
     bindE (int_item r ''unknown'') (\<lambda>unknown. bindE (int_item r ''errors'') (\<lambda>failed.
     bindE (int_item r ''completed_in_window'') (\<lambda>completed.
     bindE (get r ''contract'') (\<lambda>contract. bindE (get_or r ''schema'' (PInt 1)) (\<lambda>schema.
     let errors = (if offered \<noteq> attempted + not_issued then [''offered != attempted + not_issued''] else [])
       @ (if attempted \<noteq> ok + unknown + failed then [''attempted != ok + unknown + errors''] else [])
       @ (if completed > ok then [''in-window completions exceed successes''] else [])
       @ (if \<not> py_eq contract (PStr CONTRACT) then [''unsupported semantic contract''] else []) in
     if \<not> (is_nonneg schema \<and> 1 \<le> the_int schema \<and> the_int schema \<le> 3)
     then Inr (errors @ [''unsupported measurement schema''])
     else let s = the_int schema;
       basic = [(''success_histogram'', ok, ''success_latency''),
                (''all_histogram'', attempted, ''all_dispatched_latency'')]
         @ (if s \<ge> 2 then [(''success_execution_histogram'', ok, ''success_execution_latency''),
                (''all_execution_histogram'', attempted, ''all_dispatched_execution_latency'')] else []) in
     bindE (if s \<ge> 3 then scheduler_checks r offered attempted else Inr ([], [])) (\<lambda>(late, more).
     bindE (mapE (check_histogram r s) (basic @ more)) (\<lambda>es.
     Inr (errors @ late @ concat es)))))))))))))"

lemma the_int_PInt [simp]: "the_int (PInt i) = i"
  by (simp add: the_int_def)

section \<open>Bins\<close>

lemma saturate_range: "0 \<le> n \<Longrightarrow> 1 \<le> saturate n \<and> saturate n < 2 ^ 63"
proof -
  assume n: "0 \<le> n"
  let ?m = "if n = 0 then 1 else n"
  have "0 < ?m" using n by auto
  show ?thesis
  proof (cases "64 \<le> bitlen ?m")
    case False
    have "?m < 2 ^ nat (bitlen ?m)" using bitlen_bounds [OF \<open>0 < ?m\<close>] by blast
    also have "(2 :: int) ^ nat (bitlen ?m) \<le> 2 ^ 63" using False by (intro power_increasing) auto
    finally show ?thesis using False \<open>0 < ?m\<close> by (simp add: saturate_def Let_def)
  qed (simp add: saturate_def Let_def)
qed

lemma saturate_id: "1 \<le> n \<Longrightarrow> n < 2 ^ 63 \<Longrightarrow> saturate n = n"
proof -
  assume n: "1 \<le> n" "n < 2 ^ 63"
  have "(2 :: int) ^ nat (bitlen n - 1) \<le> n" using bitlen_bounds [of n] n(1) by simp
  then have "(2 :: int) ^ nat (bitlen n - 1) < 2 ^ 63" using n(2) by linarith
  then have "nat (bitlen n - 1) < 63" by (rule power_less_imp_less_exp [rotated]) simp
  then have "\<not> 64 \<le> bitlen n" by linarith
  then show ?thesis using n by (simp add: saturate_def Let_def)
qed

lemma exponent_facts:
  assumes "1 \<le> n"
  shows "1 \<le> bitlen n" "bin_base (bitlen n) \<le> n" "n < 2 * bin_base (bitlen n)"
proof -
  have b: "2 ^ nat (bitlen n - 1) \<le> n" "n < 2 ^ nat (bitlen n)" using bitlen_bounds [of n] assms by auto
  show 1: "1 \<le> bitlen n" using assms bitlen_nonneg [of n] b(2) by (cases "bitlen n = 0") auto
  show "bin_base (bitlen n) \<le> n" using b by (simp add: bin_base_def)
  have "nat (bitlen n) = Suc (nat (bitlen n - 1))" using 1 by simp
  then show "n < 2 * bin_base (bitlen n)" using b(2) by (simp add: bin_base_def)
qed

lemma bin_width_cases:
  obtains "bin_width e = 1" "bin_base e \<le> 64" | "64 * bin_width e = bin_base e"
proof (cases "nat (e - 1) < 7")
  case True
  then have "nat (e - 1) \<in> {0, 1, 2, 3, 4, 5, 6}" by auto
  then have "bin_base e \<in> {1, 2, 4, 8, 16, 32, 64}" by (auto simp: bin_base_def)
  then show ?thesis using that(1) by (auto simp: bin_width_def)
next
  case False
  then obtain k where "nat (e - 1) = 7 + k" using le_Suc_ex not_less by blast
  then have "bin_base e = 64 * (2 * 2 ^ k)" by (simp add: bin_base_def power_add)
  moreover have "(1 :: int) \<le> 2 * 2 ^ k" using one_le_power [of "2 :: int" k] by linarith
  ultimately have "bin_base e = 64 * (2 * 2 ^ k)" "bin_width e = 2 * 2 ^ k" by (simp_all add: bin_width_def)
  then show ?thesis using that(2) by simp
qed

lemma bin_width_pos: "0 < bin_width e"
  by (simp add: bin_width_def)

lemma div_bounds:
  assumes "0 < (w :: int)"
  shows "d div w * w \<le> d" "d < (d div w + 1) * w"
  using div_mult_mod_eq [of d w] pos_mod_bound [OF assms, of d] pos_mod_sign [OF assms, of d]
  unfolding distrib_right mult_1 by linarith+

text \<open>Where a value is recorded: the offset is not clipped, and the bin contains the value.\<close>

lemma offset_range:
  assumes "1 \<le> n"
  shows "0 \<le> (n - bin_base (bitlen n)) div bin_width (bitlen n)"
    "(n - bin_base (bitlen n)) div bin_width (bitlen n) \<le> 63"
proof -
  note e = exponent_facts [OF assms]
  show "0 \<le> (n - bin_base (bitlen n)) div bin_width (bitlen n)"
    using e(2) bin_width_pos [of "bitlen n"] by (simp add: pos_imp_zdiv_nonneg_iff)
  show "(n - bin_base (bitlen n)) div bin_width (bitlen n) \<le> 63"
  proof (cases rule: bin_width_cases [of "bitlen n"])
    case 1
    then show ?thesis using 1 e by simp
  next
    case 2
    have "n - bin_base (bitlen n) < 64 * bin_width (bitlen n)" using e(3) 2 by simp
    also have "\<dots> \<le> (n - bin_base (bitlen n)) div bin_width (bitlen n) * bin_width (bitlen n)"
      if "64 \<le> (n - bin_base (bitlen n)) div bin_width (bitlen n)"
      using that bin_width_pos [of "bitlen n"] by (intro mult_right_mono) auto
    finally show ?thesis using div_bounds(1) [OF bin_width_pos, of "n - bin_base (bitlen n)" "bitlen n"] by fastforce
  qed
qed

lemma bin_index_parts:
  assumes "1 \<le> n"
  shows "bin_index n div 64 = bitlen n"
    "bin_index n mod 64 = (n - bin_base (bitlen n)) div bin_width (bitlen n)"
  using offset_range [OF assms] by (auto simp: bin_index_def Let_def)

lemma bin_contains:
  assumes "1 \<le> n"
  shows "bin_lower (bin_index n) \<le> n" "n \<le> bin_upper (bin_index n)"
proof -
  note div_bounds [OF bin_width_pos, of "n - bin_base (bitlen n)" "bitlen n"]
  then show "bin_lower (bin_index n) \<le> n" "n \<le> bin_upper (bin_index n)"
    by (auto simp: bin_lower_def bin_upper_def bin_index_parts [OF assms])
qed

lemma bin_resolution:
  assumes "1 \<le> n"
  shows "64 * (bin_upper (bin_index n) - n) \<le> n"
proof (cases rule: bin_width_cases [of "bitlen n"])
  case 1
  then have "bin_upper (bin_index n) = bin_lower (bin_index n)"
    by (simp add: bin_lower_def bin_upper_def bin_index_parts [OF assms])
  then show ?thesis using bin_contains [OF assms] assms by simp
next
  case 2
  have "bin_upper (bin_index n) - n \<le> bin_width (bitlen n)"
    using bin_contains(1) [OF assms] by (simp add: bin_lower_def bin_upper_def bin_index_parts [OF assms] algebra_simps)
  then have "64 * (bin_upper (bin_index n) - n) \<le> 64 * bin_width (bitlen n)" by simp
  also have "\<dots> \<le> n" using exponent_facts(2) [OF assms] 2 by simp
  finally show ?thesis .
qed

lemma bitlen_mono: "0 \<le> m \<Longrightarrow> m \<le> n \<Longrightarrow> bitlen m \<le> bitlen n"
  using bitlen_bounds [of n] bitlen_le_iff_power [of m "bitlen n"] bitlen_nonneg [of n]
  by (cases "n = 0") auto

lemma bin_index_mono:
  assumes "1 \<le> m" "m \<le> n"
  shows "bin_index m \<le> bin_index n"
proof -
  note m = bin_index_parts [OF assms(1)] and n = bin_index_parts [OF order_trans [OF assms]]
  consider "bitlen m = bitlen n" | "bitlen m < bitlen n" using bitlen_mono [of m n] assms by force
  then show ?thesis
  proof cases
    case 1
    then have "bin_index m mod 64 \<le> bin_index n mod 64"
      unfolding m n using assms bin_width_pos [of "bitlen n"] by (simp add: zdiv_mono1)
    then show ?thesis using 1 m(1) n(1) div_mult_mod_eq [of "bin_index m" 64] div_mult_mod_eq [of "bin_index n" 64] by linarith
  next
    case 2
    then show ?thesis using m(1) n(1) by linarith
  qed
qed

lemma bin_upper_limit: "1 \<le> n \<Longrightarrow> bin_upper (bin_index n) < 2 * bin_base (bitlen n)"
proof (cases rule: bin_width_cases [of "bitlen n"])
  case 1
  assume n: "1 \<le> n"
  from 1 have "bin_upper (bin_index n) = bin_lower (bin_index n)"
    by (simp add: bin_lower_def bin_upper_def bin_index_parts [OF n])
  then show ?thesis using bin_contains [OF n] exponent_facts(3) [OF n] by simp
next
  case 2
  assume n: "1 \<le> n"
  have "(bin_index n mod 64 + 1) * bin_width (bitlen n) \<le> 64 * bin_width (bitlen n)"
    using bin_width_pos [of "bitlen n"] by (intro mult_right_mono) auto
  then show ?thesis using 2 by (simp add: bin_upper_def bin_index_parts(1) [OF n])
qed

lemma bin_upper_mono:
  assumes "1 \<le> m" "m \<le> n"
  shows "bin_upper (bin_index m) \<le> bin_upper (bin_index n)"
proof -
  have n1: "1 \<le> n" using assms by simp
  consider "bitlen m = bitlen n" | "bitlen m < bitlen n" using bitlen_mono [of m n] assms by force
  then show ?thesis
  proof cases
    case 1
    have "(m - bin_base (bitlen n)) div bin_width (bitlen n) \<le> (n - bin_base (bitlen n)) div bin_width (bitlen n)"
      using assms bin_width_pos [of "bitlen n"] by (simp add: zdiv_mono1)
    then have "((m - bin_base (bitlen n)) div bin_width (bitlen n) + 1) * bin_width (bitlen n)
        \<le> ((n - bin_base (bitlen n)) div bin_width (bitlen n) + 1) * bin_width (bitlen n)"
      using bin_width_pos [of "bitlen n"] by (intro mult_right_mono) auto
    then show ?thesis
      using 1 by (simp add: bin_upper_def bin_index_parts [OF assms(1)] bin_index_parts [OF n1])
  next
    case 2
    have "nat (bitlen m - 1) + 1 \<le> nat (bitlen n - 1)" using 2 exponent_facts(1) [OF assms(1)] by simp
    then have "(2 :: int) ^ (nat (bitlen m - 1) + 1) \<le> 2 ^ nat (bitlen n - 1)" by (intro power_increasing) auto
    then have "2 * bin_base (bitlen m) \<le> bin_base (bitlen n)" by (simp add: bin_base_def)
    then show ?thesis
      using bin_upper_limit [OF assms(1)] exponent_facts(2) [OF n1] bin_contains(2) [OF n1] by linarith
  qed
qed

lemma bin_index_range: "1 \<le> n \<Longrightarrow> n < 2 ^ 63 \<Longrightarrow> 64 \<le> bin_index n \<and> bin_index n < 4096"
proof -
  assume n: "1 \<le> n" "n < 2 ^ 63"
  have "bitlen n \<le> 63" using bitlen_le_iff_power [of n 63] n by simp
  then show ?thesis using exponent_facts(1) [OF n(1)] bin_index_parts(1) [OF n(1)] by linarith
qed

section \<open>What the recorder stores\<close>

abbreviation slot :: "int \<Rightarrow> int" where
  "slot n \<equiv> bin_index (saturate n)"

lemma slot_range: "0 \<le> n \<Longrightarrow> 64 \<le> slot n \<and> slot n < 4096"
  using saturate_range bin_index_range by blast

definition largest :: "int list \<Rightarrow> int" where
  "largest xs = foldl (\<lambda>m n. if m < saturate n then saturate n else m) 0 xs"

lemma recorded_fields:
  assumes "\<forall>n\<in>set xs. 0 \<le> n" "length xs < 2 ^ 64"
  shows "recorded xs = \<lparr>h_bins = map (\<lambda>i. int (count_list (map slot xs) (int i))) [0..<4096],
     h_count = int (length xs), h_maximum = largest xs\<rparr>"
  using assms
proof (induction xs rule: rev_induct)
  case Nil
  show ?case by (simp add: recorded_def empty_histogram_def largest_def map_replicate_const)
next
  case (snoc n xs)
  have r: "64 \<le> slot n" "slot n < 4096" using slot_range snoc.prems by auto
  have len: "int (length xs) + 1 < 2 ^ 64" using snoc.prems(2) by simp
  have c: "int (count_list (map slot xs) j) + 1 < 2 ^ 64" for j
    using len count_le_length [of "map slot xs" j] by simp
  let ?f = "\<lambda>ys i. int (count_list ys (int i))"
  have "(map (?f (map slot xs)) [0..<4096])[nat (slot n) := u64 (map (?f (map slot xs)) [0..<4096] ! nat (slot n) + 1)]
      = map (?f (map slot (xs @ [n]))) [0..<4096]"
    using r c by (intro nth_equalityI) (auto simp: nth_list_update u64_def nth_append)
  then show ?case
    using snoc len by (simp add: recorded_def add_def Let_def u64_def largest_def)
qed

lemma largest_upper: "n \<in> set xs \<Longrightarrow> saturate n \<le> largest xs"
proof (induction xs rule: rev_induct)
  case (snoc m xs)
  then show ?case by (auto simp: largest_def)
qed simp

lemma largest_mem: "xs \<noteq> [] \<Longrightarrow> \<forall>n\<in>set xs. 0 \<le> n \<Longrightarrow> \<exists>n\<in>set xs. largest xs = saturate n"
proof (induction xs rule: rev_induct)
  case (snoc m xs)
  have m: "0 < saturate m" using saturate_range [of m] snoc.prems by simp
  show ?case
  proof (cases "xs = []")
    case True
    then show ?thesis using m by (simp add: largest_def)
  next
    case False
    then obtain n where "n \<in> set xs" "largest xs = saturate n" using snoc by auto
    then show ?thesis by (auto simp: largest_def)
  qed
qed simp

lemma largest_nonneg: "\<forall>n\<in>set xs. 0 \<le> n \<Longrightarrow> 0 \<le> largest xs"
proof (cases "xs = []")
  case False
  assume a: "\<forall>n\<in>set xs. 0 \<le> n"
  then obtain n where "n \<in> set xs" "largest xs = saturate n" using largest_mem [OF False] by blast
  then show ?thesis using saturate_range [of n] a by simp
qed (simp add: largest_def)

lemma prefix_sum:
  assumes "\<forall>y\<in>set ys. 0 \<le> y" "k \<le> N"
  shows "sum_list (take k (map (\<lambda>i. int (count_list ys (int i))) [0..<N])) = int (length (filter (\<lambda>y. y < int k) ys))"
  using assms(2)
proof (induction k)
  case 0
  have "filter (\<lambda>y. y < 0) ys = []" using assms(1) by (auto simp: filter_empty_conv)
  then show ?case by simp
next
  case (Suc k)
  have "length (filter (\<lambda>y. y < int (Suc k)) ys) = length (filter (\<lambda>y. y < int k) ys) + count_list ys (int k)"
    by (induction ys) auto
  then show ?case using Suc by (simp add: take_Suc_conv_app_nth)
qed

section \<open>Order statistics\<close>

text \<open>The elements that satisfy a downward closed predicate are a prefix of a sorted list.\<close>

lemma sorted_nth_downward:
  assumes "sorted zs" "\<And>x y. x \<le> y \<Longrightarrow> y \<in> set zs \<Longrightarrow> x \<in> set zs \<Longrightarrow> P y \<Longrightarrow> P x" "k < length zs"
  shows "P (zs ! k) \<longleftrightarrow> k < length (filter P zs)"
  using assms
proof (induction zs arbitrary: k)
  case (Cons z zs)
  show ?case
  proof (cases "P z")
    case True
    then show ?thesis using Cons by (cases k) (auto simp del: filter.simps simp: filter.simps(2))
  next
    case False
    then have "\<not> P y" if "y \<in> set (z # zs)" for y using that Cons.prems(1,2) by auto
    then have "filter P (z # zs) = []" by (auto simp: filter_empty_conv)
    moreover have "\<not> P ((z # zs) ! k)" using \<open>\<And>y. y \<in> set (z # zs) \<Longrightarrow> \<not> P y\<close> Cons.prems(3) nth_mem by blast
    ultimately show ?thesis by simp
  qed
qed simp

lemma percentile_loop_found:
  assumes "list_all (\<lambda>v. 0 \<le> v) bins" "observed < rank" "rank \<le> observed + sum_list bins"
  shows "\<exists>k < length bins. observed + sum_list (take k bins) < rank \<and> rank \<le> observed + sum_list (take (Suc k) bins) \<and>
    percentile_loop index observed rank maximum bins =
      Inr (if (index + int k) div 64 = 0 then 1 else min (bin_upper (index + int k)) maximum)"
  using assms
proof (induction bins arbitrary: index observed)
  case (Cons v bins)
  show ?case
  proof (cases "observed + v < rank")
    case True
    with Cons.IH [of "observed + v" "index + 1"] Cons.prems obtain k where
      "k < length bins" "observed + v + sum_list (take k bins) < rank" "rank \<le> observed + v + sum_list (take (Suc k) bins)"
      "percentile_loop (index + 1) (observed + v) rank maximum bins =
        Inr (if (index + 1 + int k) div 64 = 0 then 1 else min (bin_upper (index + 1 + int k)) maximum)"
      by (auto simp: algebra_simps)
    then show ?thesis using True by (intro exI [of _ "Suc k"]) (simp add: Let_def algebra_simps)
  next
    case False
    then show ?thesis using Cons.prems by (intro exI [of _ 0]) (simp add: Let_def)
  qed
qed simp

section \<open>Ranks in binary64\<close>

lemma fl_nonneg: "0 \<le> x \<Longrightarrow> rnd_pos x < fl_limit \<Longrightarrow> fl x = Fl (rnd_pos x)"
  by (simp add: fl_def Let_def)

lemma rnd_pos_upper: "1 \<le> x \<Longrightarrow> rnd_pos x \<le> x * (1 + 1 / 2 ^ 53)"
proof -
  assume "1 \<le> x"
  then have "rnd_pos x - x \<le> x / 2 ^ 53" using rnd_pos_rel_error [of x] abs_ge_self order_trans by blast
  then show ?thesis unfolding distrib_left mult_1_right times_divide_eq_right by linarith
qed

lemma percentile_rank_eq:
  assumes "1 \<le> n" "n < 2 ^ 1023" "0 \<le> q" "q \<le> 9995 / 10000"
  shows "percentile_rank n (Fl q) = Inr (max 1 \<lceil>rnd_pos (rnd_pos (of_int n) * q)\<rceil>)"
    and "max 1 \<lceil>rnd_pos (rnd_pos (of_int n) * q)\<rceil> \<le> n"
proof -
  let ?c = "rnd_pos (of_int n :: rat)" and ?n = "of_int n :: rat"
  have n1: "1 \<le> ?n" using assms(1) by simp
  have c: "0 \<le> ?c" "?c \<le> ?n * (1 + 1 / 2 ^ 53)" using rnd_pos_upper [OF n1] by simp_all
  have "?c * q \<le> ?n * (1 + 1 / 2 ^ 53) * (9995 / 10000)"
    using c assms(3,4) n1 by (intro mult_mono) auto
  also have "\<dots> \<le> ?n * (9996 / 10000)" using n1 by (simp add: field_simps)
  finally have x: "?c * q \<le> ?n * (9996 / 10000)" .
  have y: "rnd_pos (?c * q) \<le> ?n"
  proof (cases "1 \<le> ?c * q")
    case True
    then have "rnd_pos (?c * q) \<le> ?c * q * (1 + 1 / 2 ^ 53)" by (rule rnd_pos_upper)
    also have "\<dots> \<le> ?n * (9996 / 10000) * (1 + 1 / 2 ^ 53)" using x by (intro mult_right_mono) auto
    also have "\<dots> \<le> ?n" using n1 by (simp add: field_simps)
    finally show ?thesis .
  next
    case False
    then have "rnd_pos (?c * q) \<le> rnd_pos (of_int 1)" by (intro rnd_pos_mono) simp
    then show ?thesis using n1 rnd_pos_of_int [of 1] by simp
  qed
  then have "\<lceil>rnd_pos (?c * q)\<rceil> \<le> n" by (simp add: ceiling_le_iff)
  then show "max 1 \<lceil>rnd_pos (?c * q)\<rceil> \<le> n" using assms(1) by simp
  have "of_int n < (of_int (2 ^ 1023) :: rat)" using assms(2) by (simp only: of_int_less_iff)
  then have lim: "2 * ?n < fl_limit" by (simp add: fl_limit_def)
  have "?n * (1 + 1 / 2 ^ 53) \<le> 2 * ?n" using n1 by (simp add: field_simps)
  then have "?c < fl_limit" "rnd_pos (?c * q) < fl_limit" using c y n1 lim by linarith+
  then have "fl ?n = Fl ?c" "fl (?c * q) = Fl (rnd_pos (?c * q))"
    using n1 c assms(3) by (simp_all add: fl_nonneg)
  then show "percentile_rank n (Fl q) = Inr (max 1 \<lceil>rnd_pos (?c * q)\<rceil>)"
    by (simp add: percentile_rank_def f_of_int_def f_mul_def f_ceil_def)
qed

definition order_statistic :: "int list \<Rightarrow> int \<Rightarrow> int" where
  "order_statistic xs rank = sort (map saturate xs) ! nat (rank - 1)"

lemma order_statistic_mem:
  assumes "1 \<le> rank" "rank \<le> int (length xs)"
  shows "order_statistic xs rank \<in> saturate ` set xs"
proof -
  have "nat (rank - 1) < length (sort (map saturate xs))" using assms by simp
  from nth_mem [OF this] show ?thesis by (simp add: order_statistic_def)
qed

lemma order_statistic_range:
  "\<forall>n\<in>set xs. 0 \<le> n \<Longrightarrow> 1 \<le> rank \<Longrightarrow> rank \<le> int (length xs) \<Longrightarrow>
   1 \<le> order_statistic xs rank \<and> order_statistic xs rank < 2 ^ 63"
  using order_statistic_mem [of rank xs] saturate_range by auto

lemma order_statistic_mono:
  "rank \<le> rank' \<Longrightarrow> rank' \<le> int (length xs) \<Longrightarrow> 1 \<le> rank' \<Longrightarrow> order_statistic xs rank \<le> order_statistic xs rank'"
  unfolding order_statistic_def by (intro sorted_nth_mono) auto

lemma order_statistic_slot:
  assumes "\<forall>n\<in>set xs. 0 \<le> n" "1 \<le> rank" "rank \<le> int (length xs)"
  shows "bin_index (order_statistic xs rank) < b \<longleftrightarrow> rank \<le> int (length (filter (\<lambda>y. y < b) (map slot xs)))"
proof -
  let ?zs = "sort (map saturate xs)" and ?P = "\<lambda>z. bin_index z < b"
  have low: "1 \<le> z" if "z \<in> set ?zs" for z using that assms(1) saturate_range by fastforce
  have down: "?P x" if "x \<le> y" "y \<in> set ?zs" "x \<in> set ?zs" "?P y" for x y
    using bin_index_mono [OF low [OF that(3)] that(1)] that(4) by simp
  have "?P (?zs ! nat (rank - 1)) \<longleftrightarrow> nat (rank - 1) < length (filter ?P ?zs)"
  proof (rule sorted_nth_downward)
    show "nat (rank - 1) < length ?zs" using assms(2,3) by simp
  qed (simp, rule down)
  moreover have "length (filter ?P ?zs) = length (filter ?P (map saturate xs))"
    by (simp only: filter_sort length_sort)
  moreover have "\<dots> = length (filter (\<lambda>y. y < b) (map slot xs))" by (simp add: filter_map comp_def)
  ultimately show ?thesis using assms(2) unfolding order_statistic_def by linarith
qed

text \<open>The loop stops in the bin of the order statistic.\<close>

lemma percentile_value:
  assumes "\<forall>n\<in>set xs. 0 \<le> n" "length xs < 2 ^ 64" "1 \<le> rank" "rank \<le> int (length xs)"
  shows "percentile_loop 0 0 rank m (h_bins (recorded xs)) = Inr (min (bin_upper (bin_index (order_statistic xs rank))) m)"
proof -
  define N :: nat where "N = 4096"
  let ?bins = "map (\<lambda>i. int (count_list (map slot xs) (int i))) [0..<N]"
  have ys: "\<forall>y\<in>set (map slot xs). 0 \<le> y" using assms(1) slot_range by fastforce
  note prefix = prefix_sum [OF ys, of _ N]
  have "filter (\<lambda>y. y < int N) (map slot xs) = map slot xs"
    using assms(1) slot_range by (intro filter_True) (auto simp: N_def)
  then have total: "sum_list ?bins = int (length xs)" using prefix [of N] by simp
  obtain k where k: "k < N" "sum_list (take k ?bins) < rank" "rank \<le> sum_list (take (Suc k) ?bins)"
    "percentile_loop 0 0 rank m ?bins = Inr (if int k div 64 = 0 then 1 else min (bin_upper (int k)) m)"
    using percentile_loop_found [of ?bins 0 rank 0 m] assms(3,4) total by (auto simp: list_all_iff)
  have "\<not> bin_index (order_statistic xs rank) < int k" "bin_index (order_statistic xs rank) < int k + 1"
    using order_statistic_slot [OF assms(1,3,4), of "int k"] order_statistic_slot [OF assms(1,3,4), of "int (Suc k)"]
      k(2,3) unfolding prefix [OF less_imp_le [OF k(1)]] prefix [OF Suc_leI [OF k(1)]] of_nat_Suc by linarith+
  then have b: "bin_index (order_statistic xs rank) = int k" by simp
  have "64 \<le> int k" using b bin_index_range order_statistic_range [OF assms(1,3,4)] by metis
  then have "int k div 64 \<noteq> 0" by linarith
  then show ?thesis using k(4) b by (simp add: recorded_fields [OF assms(1,2)] N_def)
qed

lemma percentile_defined:
  assumes "\<forall>n\<in>set xs. 0 \<le> n" "length xs < 2 ^ 64" "xs \<noteq> []" "0 \<le> q" "q \<le> 9995 / 10000"
  obtains rank where "percentile_rank (int (length xs)) (Fl q) = Inr rank" "1 \<le> rank" "rank \<le> int (length xs)"
    "rank = max 1 \<lceil>rnd_pos (rnd_pos (of_int (int (length xs))) * q)\<rceil>"
    "histogram_percentile (recorded xs) (Fl q) =
      Inr (min (bin_upper (bin_index (order_statistic xs rank))) (largest xs))"
proof -
  have "int (length xs) < 2 ^ 64" using assms(2) by simp
  also have "(2 :: int) ^ 64 \<le> 2 ^ 1023" by (intro power_increasing) auto
  finally have n: "int (length xs) < 2 ^ 1023" .
  have "1 \<le> int (length xs)" using assms(3) by (cases xs) auto
  note n = this n
  note rank = percentile_rank_eq [OF n assms(4,5)]
  show ?thesis
    using that [OF rank(1) _ rank(2)] percentile_value [OF assms(1,2) _ rank(2)] rank(1) assms(3)
    by (simp add: histogram_percentile_def recorded_fields [OF assms(1,2)])
qed
section \<open>Recorded histograms are accepted\<close>

definition histogram_object :: "histogram \<Rightarrow> pydict" where
  "histogram_object h = [kv ''bins'' (PList (map PInt (h_bins h))), kv ''count'' (PInt (h_count h)),
     kv ''maximum_ns'' (PInt (h_maximum h))]"

lemma read_histogram_object [simp]: "read_histogram (histogram_object h) = h"
  by (simp add: read_histogram_def histogram_object_def dict_get_def ints_of_def the_int_def comp_def)

lemma highest_bin_eqI:
  assumes "k < length bins" "bins ! k \<noteq> 0" "\<And>i. i < length bins \<Longrightarrow> k < i \<Longrightarrow> bins ! i = 0"
  shows "highest_bin bins = int k"
proof -
  have "set (map fst (filter (\<lambda>(i, v). v \<noteq> 0) (List.enumerate 0 bins))) = {i. i < length bins \<and> bins ! i \<noteq> 0}"
    by (auto simp: in_set_enumerate_eq image_iff)
  moreover have "Max {i. i < length bins \<and> bins ! i \<noteq> 0} = k"
    using assms by (intro Max_eqI) (auto simp: not_less intro: leI)
  ultimately show ?thesis by (simp add: highest_bin_def)
qed

lemma recorded_highest:
  assumes "\<forall>n\<in>set xs. 0 \<le> n" "length xs < 2 ^ 64" "xs \<noteq> []"
  shows "highest_bin (h_bins (recorded xs)) = bin_index (largest xs)"
proof -
  define N :: nat where "N = 4096"
  let ?bins = "map (\<lambda>i. int (count_list (map slot xs) (int i))) [0..<N]"
  obtain n where n: "n \<in> set xs" "largest xs = saturate n" using largest_mem [OF assms(3,1)] by blast
  have r: "64 \<le> slot n" "slot n < int N" using slot_range [of n] assms(1) n(1) by (auto simp: N_def)
  have "highest_bin ?bins = int (nat (slot n))"
  proof (rule highest_bin_eqI)
    show "nat (slot n) < length ?bins" using r by simp
    then show "?bins ! nat (slot n) \<noteq> 0" using r n(1) by (simp add: count_list_0_iff)
    fix i assume i: "i < length ?bins" "nat (slot n) < i"
    have "slot m \<noteq> int i" if "m \<in> set xs" for m
      using bin_index_mono [of "saturate m" "saturate n"] largest_upper [OF that] saturate_range [of m] n(2) i(2) that assms(1) r(1)
      by fastforce
    then have "int i \<notin> set (map slot xs)" by fastforce
    then show "?bins ! i = 0" using i(1) by (simp add: count_list_0_iff)
  qed
  then show ?thesis using r n(2) by (simp add: recorded_fields [OF assms(1,2)] N_def)
qed

lemma recorded_total: "\<forall>n\<in>set xs. 0 \<le> n \<Longrightarrow> length xs < 2 ^ 64 \<Longrightarrow> sum_list (h_bins (recorded xs)) = int (length xs)"
proof -
  assume a: "\<forall>n\<in>set xs. 0 \<le> n" "length xs < 2 ^ 64"
  define N :: nat where "N = 4096"
  have "filter (\<lambda>y. y < int N) (map slot xs) = map slot xs"
    using a(1) slot_range by (intro filter_True) (auto simp: N_def)
  moreover have "\<forall>y\<in>set (map slot xs). 0 \<le> y" using a(1) slot_range by fastforce
  ultimately show ?thesis
    using prefix_sum [of "map slot xs" N N] by (simp add: recorded_fields [OF a] N_def)
qed

section \<open>Summaries and merging\<close>

lemma in_ms_mono:
  assumes "0 \<le> v" "v \<le> w" "w < 2 ^ 1023"
  obtains a b where "in_ms v = Inr a" "in_ms w = Inr b" "f_le a b"
proof -
  have fin: "\<exists>x. fl (of_int n) = Fl x \<and> x = rnd_pos (of_int n)" if "0 \<le> n" "n < 2 ^ 1023" for n :: int
  proof (cases "n = 0")
    case False
    then have n1: "1 \<le> (of_int n :: rat)" using that by simp
    have "of_int n < (of_int (2 ^ 1023) :: rat)" using that(2) by (simp only: of_int_less_iff)
    then have "2 * of_int n < fl_limit" by (simp add: fl_limit_def)
    moreover have "of_int n * (1 + 1 / 2 ^ 53) \<le> 2 * (of_int n :: rat)" using n1 by (simp add: field_simps)
    ultimately show ?thesis using rnd_pos_upper [OF n1] n1 fl_nonneg [of "of_int n"] by auto
  qed (simp add: fl_def fl_limit_def)
  have v: "f_of_int v = Inr (Fl (rnd_pos (of_int v)))" using fin [of v] assms by (auto simp: f_of_int_def)
  have w: "f_of_int w = Inr (Fl (rnd_pos (of_int w)))" using fin [of w] assms by (auto simp: f_of_int_def)
  have "rnd_pos (of_int v) / 1000000 \<le> rnd_pos (of_int w) / 1000000"
    using rnd_pos_mono [of "of_int v" "of_int w"] assms(2) by (simp add: divide_right_mono)
  then show ?thesis using that fl_mono v w by (simp add: in_ms_def f_div_def)
qed

definition percentile_ok :: "rat \<Rightarrow> bool" where
  "percentile_ok p = (case fl p of Fl q \<Rightarrow> 0 \<le> q \<and> q \<le> 9995 / 10000 | _ \<Rightarrow> False)"

lemma percentile_okI:
  assumes "0 < p" "p \<le> 999 / 1000"
  shows "percentile_ok p"
proof -
  have "2 powi ilog2 p < (2 :: rat) powi 0" using ilog2_bounds(1) [OF assms(1)] assms(2) by simp
  then have "ilog2 p < 0" by (simp only: powi2_less_iff)
  then have "ulp_exp p \<le> - 52" by (simp add: ulp_exp_def)
  then have "(2 :: rat) powi ulp_exp p \<le> 2 powi (- 52)" by (simp only: powi2_le_iff)
  also have "\<dots> \<le> 1 / 10000" by (simp add: power_int_def power_one_over)
  finally have y: "rnd_pos p \<le> 9995 / 10000" using rnd_pos_error [OF assms(1)] assms(2) by linarith
  have "(1 :: rat) < fl_limit" by (simp add: fl_limit_def)
  then have "rnd_pos p < fl_limit" using y by linarith
  then have "fl p = Fl (rnd_pos p)" using assms(1) by (simp add: fl_nonneg)
  then show ?thesis using y by (simp add: percentile_ok_def)
qed

lemma percentiles_ok: "percentile_ok (1 / 2)" "percentile_ok (95 / 100)" "percentile_ok (99 / 100)" "percentile_ok (999 / 1000)"
  by (rule percentile_okI; simp)+

lemma percentile_ms_mono:
  assumes xs: "\<forall>n\<in>set xs. 0 \<le> n" "length xs < 2 ^ 64" "xs \<noteq> []"
    and p: "percentile_ok p" "percentile_ok p'" "p \<le> p'"
  obtains v v' where "histogram_percentile (recorded xs) (fl p) = Inr v" "histogram_percentile (recorded xs) (fl p') = Inr v'"
    "0 \<le> v" "v \<le> v'" "v' \<le> largest xs"
proof -
  obtain q q' where q: "fl p = Fl q" "0 \<le> q" "q \<le> 9995 / 10000" and q': "fl p' = Fl q'" "0 \<le> q'" "q' \<le> 9995 / 10000"
    using p(1,2) by (auto simp: percentile_ok_def split: pyfloat.splits)
  have "q \<le> q'" using fl_mono [OF p(3)] q(1) q'(1) by simp
  let ?r = "\<lambda>q. max 1 \<lceil>rnd_pos (rnd_pos (of_int (int (length xs))) * q)\<rceil>"
  have r: "?r q \<le> ?r q'"
    using rnd_pos_mono [OF mult_left_mono [OF \<open>q \<le> q'\<close> rnd_pos_nonneg [of "of_int (int (length xs))"]]]
    by (intro max.mono ceiling_mono) auto
  obtain v where v: "1 \<le> ?r q" "?r q \<le> int (length xs)"
    "histogram_percentile (recorded xs) (Fl q) = Inr (min (bin_upper (bin_index (order_statistic xs (?r q)))) (largest xs))"
    using percentile_defined [OF xs q(2,3)] by metis
  obtain v' where v': "1 \<le> ?r q'" "?r q' \<le> int (length xs)"
    "histogram_percentile (recorded xs) (Fl q') = Inr (min (bin_upper (bin_index (order_statistic xs (?r q')))) (largest xs))"
    using percentile_defined [OF xs q'(2,3)] by metis
  have o: "1 \<le> order_statistic xs (?r q)" using order_statistic_range [OF xs(1) v(1,2)] by blast
  have "order_statistic xs (?r q) \<le> largest xs"
    using order_statistic_mem [OF v(1,2)] largest_upper by auto
  moreover have "bin_upper (bin_index (order_statistic xs (?r q))) \<le> bin_upper (bin_index (order_statistic xs (?r q')))"
    by (rule bin_upper_mono [OF o order_statistic_mono [OF r v'(2,1)]])
  ultimately show ?thesis
    using that [unfolded q(1) q'(1), OF v(3) v'(3)] bin_contains(2) [OF o] o by (auto simp: min_def)
qed

lemma count_list_slots: "count_list (map slot (xs @ ys)) j = count_list (map slot xs) j + count_list (map slot ys) j"
  by simp

lemma recorded_accepted:
  assumes "\<forall>n\<in>set xs. 0 \<le> n" "length xs < 2 ^ 64"
  shows "histogram_errors (PDict (histogram_object (recorded xs))) (int (length xs)) name = []"
proof -
  note f = recorded_fields [OF assms]
  have typed: "histogram_typed (histogram_object (recorded xs)) (int (length xs))"
  proof -
    have "0 \<le> largest xs" by (rule largest_nonneg [OF assms(1)])
    moreover have "\<forall>v\<in>set (h_bins (recorded xs)). 0 \<le> v" "length (h_bins (recorded xs)) = 4096"
      "h_count (recorded xs) = int (length xs)" "h_maximum (recorded xs) = largest xs"
      unfolding f by (auto simp del: upt_rec_numeral)
    ultimately show ?thesis
      using recorded_total [OF assms]
      by (simp add: histogram_typed_def histogram_object_def dict_get_def ints_of_def comp_def the_int_def
          list_all_iff is_nonneg_def)
  qed
  show ?thesis
  proof (cases "xs = []")
    case True
    then have "h_count (recorded xs) = 0" "h_maximum (recorded xs) = 0" unfolding f by (simp_all add: largest_def)
    then show ?thesis using typed by (simp add: histogram_errors_def Let_def)
  next
    case False
    obtain n where n: "n \<in> set xs" "largest xs = saturate n" using largest_mem [OF False assms(1)] by blast
    then have l: "1 \<le> largest xs" "largest xs < 2 ^ 63" using saturate_range assms(1) by auto
    then have "64 \<le> bin_index (largest xs)" using bin_index_range by blast
    then have "bin_index (largest xs) div 64 \<noteq> 0" by linarith
    moreover have "h_count (recorded xs) = int (length xs)" "h_maximum (recorded xs) = largest xs" by (simp_all add: f)
    ultimately show ?thesis
      using typed False recorded_highest [OF assms False] bin_contains [OF l(1)]
      by (simp add: histogram_errors_def Let_def)
  qed
qed

section \<open>Properties\<close>

text \<open>C10: every histogram that the load generator records with \<open>Add\<close> (fewer than \<open>2 ^ 64\<close>
  samples) passes the verifier's histogram check for its number of samples: the bins add up
  to the count, no unreachable bin is used, and the maximum lies in the highest bin.\<close>

theorem recorded_histogram_accepted:
  assumes "\<forall>n\<in>set xs. 0 \<le> n" "length xs < 2 ^ 64"
  shows "histogram_errors (PDict (histogram_object (recorded xs))) (int (length xs)) name = []"
  using assms by (rule recorded_accepted)

theorem recorded_histogram_accepted_witness:
  "histogram_errors (PDict (histogram_object (recorded [1500000, 0, 2 ^ 63]))) 3 ''success_histogram'' = []"
  using recorded_histogram_accepted [of "[1500000, 0, 2 ^ 63]"] by simp

text \<open>C11: percentiles are accurate. For samples recorded by the load generator and each
  percentile between 0 and 0.9995, the binary64 rank is between 1 and the number of samples,
  and the reported percentile is at least the exact sample of that rank and exceeds it by at
  most one 64th of it (the quantization that the result declares).\<close>

theorem percentile_accurate:
  assumes "\<forall>n\<in>set xs. 0 \<le> n" "length xs < 2 ^ 64" "xs \<noteq> []" "0 \<le> q" "q \<le> 9995 / 10000"
  shows "\<exists>rank v. percentile_rank (int (length xs)) (Fl q) = Inr rank \<and> 1 \<le> rank \<and> rank \<le> int (length xs) \<and>
    histogram_percentile (recorded xs) (Fl q) = Inr v \<and>
    order_statistic xs rank \<le> v \<and> 64 * (v - order_statistic xs rank) \<le> order_statistic xs rank"
proof -
  obtain rank where rank: "percentile_rank (int (length xs)) (Fl q) = Inr rank" "1 \<le> rank" "rank \<le> int (length xs)"
    and v: "histogram_percentile (recorded xs) (Fl q) =
      Inr (min (bin_upper (bin_index (order_statistic xs rank))) (largest xs))"
    using percentile_defined [OF assms] .
  have o: "1 \<le> order_statistic xs rank" using order_statistic_range [OF assms(1) rank(2,3)] by blast
  have "order_statistic xs rank \<le> largest xs"
    using order_statistic_mem [OF rank(2,3)] largest_upper by auto
  then show ?thesis
    using rank v bin_contains(2) [OF o] bin_resolution [OF o]
    by (intro exI [of _ rank] exI [of _ "min (bin_upper (bin_index (order_statistic xs rank))) (largest xs)"]) auto
qed

theorem percentile_accurate_witness:
  "\<exists>rank v. percentile_rank 3 (Fl (1 / 2)) = Inr rank \<and>
    histogram_percentile (recorded [1500000, 70, 2 ^ 63]) (Fl (1 / 2)) = Inr v \<and>
    64 * (v - order_statistic [1500000, 70, 2 ^ 63] rank) \<le> order_statistic [1500000, 70, 2 ^ 63] rank"
  using percentile_accurate [of "[1500000, 70, 2 ^ 63]" "1 / 2"] by auto

text \<open>The summary of recorded samples exists and is ordered: the median, the 95th, 99th
  and 99.9th percentiles and the maximum, in milliseconds after rounding to binary64, do not
  decrease.\<close>

theorem recorded_summary_ordered:
  assumes "\<forall>n\<in>set xs. 0 \<le> n" "length xs < 2 ^ 64" "xs \<noteq> []"
  shows "\<exists>p50 p95 p99 p999 most. histogram_summary (recorded xs) =
      Inr [kv ''count'' (PInt (int (length xs))), kv ''p50_ms'' (PFloat p50), kv ''p95_ms'' (PFloat p95),
        kv ''p99_ms'' (PFloat p99), kv ''p999_ms'' (PFloat p999), kv ''max_ms'' (PFloat most),
        kv ''quantization'' (PStr HISTOGRAM_QUANTIZATION)] \<and>
    f_le p50 p95 \<and> f_le p95 p99 \<and> f_le p99 p999 \<and> f_le p999 most"
proof -
  have half: "1 / 2 \<le> (95 / 100 :: rat)" and nearly: "95 / 100 \<le> (99 / 100 :: rat)"
    and most: "99 / 100 \<le> (999 / 1000 :: rat)" by simp_all
  obtain v50 v95 where a: "histogram_percentile (recorded xs) (fl (1 / 2)) = Inr v50"
    "histogram_percentile (recorded xs) (fl (95 / 100)) = Inr v95" "0 \<le> v50" "v50 \<le> v95"
    using percentile_ms_mono [OF assms percentiles_ok(1,2) half] by metis
  obtain v99 where b: "histogram_percentile (recorded xs) (fl (99 / 100)) = Inr v99" "v95 \<le> v99"
    using percentile_ms_mono [OF assms percentiles_ok(2,3) nearly] a(2) by (metis sum.inject(2))
  obtain v999 where c: "histogram_percentile (recorded xs) (fl (999 / 1000)) = Inr v999" "v99 \<le> v999" "v999 \<le> largest xs"
    using percentile_ms_mono [OF assms percentiles_ok(3,4) most] b(1) by (metis sum.inject(2))
  have "largest xs < 2 ^ 63" using largest_mem [OF assms(3,1)] saturate_range assms(1) by auto
  also have "(2 :: int) ^ 63 \<le> 2 ^ 1023" by (intro power_increasing) auto
  finally have lim: "largest xs < 2 ^ 1023" .
  have mono: "\<exists>x y. in_ms v = Inr x \<and> in_ms w = Inr y \<and> f_le x y" if "0 \<le> v" "v \<le> w" "w \<le> largest xs" for v w
    using in_ms_mono [OF that(1,2) le_less_trans [OF that(3) lim]] by blast
  obtain x1 x2 where 1: "in_ms v50 = Inr x1" "in_ms v95 = Inr x2" "f_le x1 x2" using mono [of v50 v95] a b c by auto
  obtain x3 where 2: "in_ms v99 = Inr x3" "f_le x2 x3" using mono [of v95 v99] a b c 1(2) by auto
  obtain x4 where 3: "in_ms v999 = Inr x4" "f_le x3 x4" using mono [of v99 v999] a b c 2(1) by auto
  obtain x5 where 4: "in_ms (largest xs) = Inr x5" "f_le x4 x5" using mono [of v999 "largest xs"] a b c 3(1) by auto
  have h: "h_count (recorded xs) = int (length xs)" "h_maximum (recorded xs) = largest xs"
    by (simp_all add: recorded_fields [OF assms(1,2)])
  show ?thesis
    by (intro exI [of _ x1] exI [of _ x2] exI [of _ x3] exI [of _ x4] exI [of _ x5])
       (simp only: histogram_summary_def percentile_ms_def a b c 1 2 3 4 h bindE_simps simp_thms)
qed

theorem recorded_summary_ordered_witness:
  "\<exists>p50 p95 p99 p999 most. histogram_summary (recorded [900, 70, 2 ^ 40]) =
      Inr [kv ''count'' (PInt 3), kv ''p50_ms'' (PFloat p50), kv ''p95_ms'' (PFloat p95),
        kv ''p99_ms'' (PFloat p99), kv ''p999_ms'' (PFloat p999), kv ''max_ms'' (PFloat most),
        kv ''quantization'' (PStr HISTOGRAM_QUANTIZATION)] \<and> f_le p50 p95"
  using recorded_summary_ordered [of "[900, 70, 2 ^ 40]"] by auto

text \<open>C13: \<open>Merge\<close> of the histograms of two workers is the histogram of all their samples, as
  long as the number of samples fits \<open>uint64\<close>.\<close>

theorem merge_is_concatenation:
  assumes "\<forall>n\<in>set (xs @ ys). 0 \<le> n" "length (xs @ ys) < 2 ^ 64"
  shows "merge (recorded xs) (recorded ys) = recorded (xs @ ys)"
proof -
  define N :: nat where "N = 4096"
  have c: "int (count_list (map slot xs) j) + int (count_list (map slot ys) j) < 2 ^ 64" for j
    using assms(2) count_le_length [of "map slot (xs @ ys)" j] by simp
  have x: "\<forall>n\<in>set xs. 0 \<le> n" "length xs < 2 ^ 64" and y: "\<forall>n\<in>set ys. 0 \<le> n" "length ys < 2 ^ 64" using assms by auto
  have bins: "map (\<lambda>(a, b). u64 (a + b)) (zip (map (\<lambda>i. int (count_list (map slot xs) (int i))) [0..<N])
      (map (\<lambda>i. int (count_list (map slot ys) (int i))) [0..<N]))
    = map (\<lambda>i. int (count_list (map slot (xs @ ys)) (int i))) [0..<N]"
    using c by (intro nth_equalityI) (auto simp: u64_def)
  have fold: "foldl (\<lambda>m n. if m < saturate n then saturate n else m) m ys
      = (if m < largest ys then largest ys else m)" if "0 \<le> m" for m
  proof (induction ys rule: rev_induct)
    case Nil
    then show ?case using that by (simp add: largest_def)
  next
    case (snoc n ys)
    then show ?case by (auto simp: largest_def)
  qed
  show ?thesis
    using bins fold [OF largest_nonneg [OF x(1)]] assms(2)
    by (simp add: merge_def recorded_fields [OF assms] recorded_fields [OF x] recorded_fields [OF y] N_def u64_def largest_def)
qed

theorem merge_is_concatenation_witness: "merge (recorded [5, 900]) (recorded [70]) = recorded [5, 900, 70]"
  using merge_is_concatenation [of "[5, 900]" "[70]"] by simp

section \<open>Accepted results\<close>

lemma validate_counts_Inr:
  assumes "validate_counts r = Inr []" "k \<in> set required_counts"
  obtains i where "item r k = Inr (PInt i)" "0 \<le> i"
proof -
  obtain es where es: "mapE (\<lambda>key. bindE (get r key) (\<lambda>v.
       Inr (if is_nonneg v then [] else [''invalid nonnegative count: '' @ key]))) required_counts = Inr es" "concat es = []"
    using assms(1) unfolding validate_counts_def by auto
  obtain e where "e \<in> set es" "bindE (get r k) (\<lambda>v. Inr (if is_nonneg v then [] else [''invalid nonnegative count: '' @ k])) = Inr e"
    using mapE_mem' [OF es(1) assms(2)] by blast
  moreover from this es(2) have "e = []" by auto
  ultimately obtain v where "get r k = Inr v" "is_nonneg v" by (auto split: if_splits)
  then show ?thesis
    using that by (auto simp: get_or_eq_Inr is_nonneg_iff item_eq_Inr dict_get_def split: option.splits)
qed

lemma histogram_errors_nil:
  assumes "histogram_errors v expected name = []"
  obtains d bins most where "v = PDict d" "dict_get d ''bins'' PNone = PList (map PInt bins)" "length bins = 4096"
    "list_all (\<lambda>i. 0 \<le> i) bins" "sum_list bins = expected" "dict_get d ''count'' PNone = PInt expected"
    "dict_get d ''maximum_ns'' PNone = PInt most" "0 \<le> most"
proof -
  from assms obtain d where d: "v = PDict d" "histogram_typed d expected"
    by (cases v) (auto simp: histogram_errors_def split: if_splits)
  then obtain xs where xs: "dict_get d ''bins'' PNone = PList xs" "length xs = 4096" "list_all is_nonneg xs"
    "is_nonneg (dict_get d ''count'' PNone)" "sum_list (ints_of (PList xs)) = expected"
    "the_int (dict_get d ''count'' PNone) = expected" "is_nonneg (dict_get d ''maximum_ns'' PNone)"
    by (auto simp: histogram_typed_def split: pyval.splits)
  let ?bins = "ints_of (PList xs)"
  have "xs = map PInt ?bins" "list_all (\<lambda>i. 0 \<le> i) ?bins" "length ?bins = 4096"
    using xs(2,3) by (auto simp: ints_of_def list_all_iff is_nonneg_iff intro!: map_idI [symmetric])
  then show ?thesis
    using that [of d ?bins] d(1) xs by (auto simp: is_nonneg_iff the_int_def)
qed

text \<open>A result whose counters were read.\<close>

definition counter :: "pyval \<Rightarrow> string \<Rightarrow> int" where
  "counter r k = (case item r k of Inr (PInt i) \<Rightarrow> i | _ \<Rightarrow> 0)"

lemma int_item_counter: "item r k = Inr (PInt i) \<Longrightarrow> int_item r k = Inr (counter r k) \<and> counter r k = i"
  by (simp add: int_item_def as_int_def counter_def)

lemma validate_result_Inr:
  assumes "validate_result r = Inr []"
  obtains s where "\<And>k. k \<in> set required_counts \<Longrightarrow> item r k = Inr (PInt (counter r k)) \<and> 0 \<le> counter r k"
    "get r ''contract'' = Inr (PStr CONTRACT)" "1 \<le> s" "s \<le> 3" "get_or r ''schema'' (PInt 1) = Inr (PInt s)"
    "counter r ''offered'' = counter r ''attempted'' + counter r ''not_issued''"
    "counter r ''attempted'' = counter r ''ok'' + counter r ''unknown'' + counter r ''errors''"
    "counter r ''completed_in_window'' \<le> counter r ''ok''"
    "check_histogram r s (''success_histogram'', counter r ''ok'', ''success_latency'') = Inr []"
    "check_histogram r s (''all_histogram'', counter r ''attempted'', ''all_dispatched_latency'') = Inr []"
proof -
  have vc: "validate_counts r = Inr []"
    using assms unfolding validate_result_def by (cases "validate_counts r") (auto split: if_splits)
  have c: "item r k = Inr (PInt (counter r k))" "0 \<le> counter r k" "int_item r k = Inr (counter r k)"
    if "k \<in> set required_counts" for k
    using validate_counts_Inr [OF vc that] int_item_counter by metis+
  have ints: "int_item r ''offered'' = Inr (counter r ''offered'')" "int_item r ''attempted'' = Inr (counter r ''attempted'')"
    "int_item r ''not_issued'' = Inr (counter r ''not_issued'')" "int_item r ''ok'' = Inr (counter r ''ok'')"
    "int_item r ''unknown'' = Inr (counter r ''unknown'')" "int_item r ''errors'' = Inr (counter r ''errors'')"
    "int_item r ''completed_in_window'' = Inr (counter r ''completed_in_window'')"
    by (rule c(3), simp add: required_counts_def)+
  obtain contract where contract: "get r ''contract'' = Inr contract" using c(1) [of "''ok''"]
    by (auto simp: required_counts_def item_eq_Inr get_or_eq_Inr)
  obtain schema where schema: "get_or r ''schema'' (PInt 1) = Inr schema" using c(1) [of "''ok''"]
    by (auto simp: required_counts_def item_eq_Inr get_or_eq_Inr)
  note v = assms [unfolded validate_result_def vc bindE_simps ints contract schema Let_def]
  have s: "is_nonneg schema" "1 \<le> the_int schema" "the_int schema \<le> 3"
    using v by (auto split: if_splits)
  then obtain i where i: "schema = PInt i" by (auto simp: is_nonneg_iff)
  show ?thesis
  proof (rule that [of i])
    show "item r k = Inr (PInt (counter r k)) \<and> 0 \<le> counter r k" if "k \<in> set required_counts" for k
      using c that by blast
    show "get_or r ''schema'' (PInt 1) = Inr (PInt i)" using schema i by simp
    show "1 \<le> i" "i \<le> 3" using s i by simp_all
    show "get r ''contract'' = Inr (PStr CONTRACT)" using v s contract by (auto split: if_splits)
    show "counter r ''offered'' = counter r ''attempted'' + counter r ''not_issued''"
      "counter r ''attempted'' = counter r ''ok'' + counter r ''unknown'' + counter r ''errors''"
      "counter r ''completed_in_window'' \<le> counter r ''ok''"
      using v s by (auto split: if_splits)
    show "check_histogram r i (''success_histogram'', counter r ''ok'', ''success_latency'') = Inr []"
      "check_histogram r i (''all_histogram'', counter r ''attempted'', ''all_dispatched_latency'') = Inr []"
      using v s by (auto simp: i split: if_splits)
  qed
qed

lemma check_histogram_nil:
  assumes "check_histogram r s (name, expected, summary_name) = Inr []"
  obtains h where "get r name = Inr h" "histogram_errors h expected name = []"
  using assms by (auto simp: check_histogram_def Let_def split: if_splits)

lemma check_histogram_bins:
  assumes "check_histogram r s (name, expected, summary_name) = Inr []"
  shows "\<exists>d bins. item r name = Inr (PDict d) \<and> dict_get d ''bins'' PNone = PList (map PInt bins)
      \<and> length bins = 4096 \<and> sum_list bins = expected"
proof -
  obtain h where h: "get r name = Inr h" "histogram_errors h expected name = []" using check_histogram_nil [OF assms] .
  from histogram_errors_nil [OF h(2)] obtain d bins where "h = PDict d" "dict_get d ''bins'' PNone = PList (map PInt bins)"
    "length bins = 4096" "sum_list bins = expected" by metis
  moreover from this h(1) have "item r name = Inr (PDict d)" by (auto dest: get_or_item)
  ultimately show ?thesis by blast
qed

definition sample_result :: pyval where
  "sample_result = (let h = PDict (histogram_object (recorded [1500000, 900])) in PDict [
     kv ''offered'' (PInt 3), kv ''attempted'' (PInt 2), kv ''not_issued'' (PInt 1), kv ''ok'' (PInt 2),
     kv ''unknown'' (PInt 0), kv ''errors'' (PInt 0), kv ''completed_in_window'' (PInt 1),
     kv ''network_attempts'' (PInt 2), kv ''contract'' (PStr CONTRACT),
     kv ''success_histogram'' h, kv ''all_histogram'' h])"

lemma sample_result_valid: "validate_result sample_result = Inr []"
proof -
  have h: "histogram_errors (PDict (histogram_object (recorded [1500000, 900]))) 2 name = []" for name
    using recorded_accepted [of "[1500000, 900]" name] by simp
  show ?thesis
    by (simp add: validate_result_def validate_counts_def required_counts_def sample_result_def Let_def get_or_def
        dict_get_def int_item_def item_def as_int_def is_nonneg_def check_histogram_def h)
qed

lemma accepted_result_parts:
  assumes "validate_result r = Inr []"
  shows "\<forall>k\<in>set required_counts. item r k = Inr (PInt (counter r k)) \<and> 0 \<le> counter r k"
    and "counter r ''offered'' = counter r ''not_issued'' + counter r ''ok'' + counter r ''unknown'' + counter r ''errors''"
    and "counter r ''completed_in_window'' \<le> counter r ''ok''" "get r ''contract'' = Inr (PStr CONTRACT)"
    and "\<exists>d bins. item r ''success_histogram'' = Inr (PDict d) \<and> dict_get d ''bins'' PNone = PList (map PInt bins)
      \<and> length bins = 4096 \<and> sum_list bins = counter r ''ok''"
    and "\<exists>d bins. item r ''all_histogram'' = Inr (PDict d) \<and> dict_get d ''bins'' PNone = PList (map PInt bins)
      \<and> length bins = 4096 \<and> sum_list bins = counter r ''ok'' + counter r ''unknown'' + counter r ''errors''"
proof -
  obtain s where s: "\<And>k. k \<in> set required_counts \<Longrightarrow> item r k = Inr (PInt (counter r k)) \<and> 0 \<le> counter r k"
    "get r ''contract'' = Inr (PStr CONTRACT)"
    "counter r ''offered'' = counter r ''attempted'' + counter r ''not_issued''"
    "counter r ''attempted'' = counter r ''ok'' + counter r ''unknown'' + counter r ''errors''"
    "counter r ''completed_in_window'' \<le> counter r ''ok''"
    "check_histogram r s (''success_histogram'', counter r ''ok'', ''success_latency'') = Inr []"
    "check_histogram r s (''all_histogram'', counter r ''attempted'', ''all_dispatched_latency'') = Inr []"
    using validate_result_Inr [OF assms] by metis
  show "\<forall>k\<in>set required_counts. item r k = Inr (PInt (counter r k)) \<and> 0 \<le> counter r k" using s(1) by blast
  show "counter r ''offered'' = counter r ''not_issued'' + counter r ''ok'' + counter r ''unknown'' + counter r ''errors''"
    using s(3,4) by simp
  show "counter r ''completed_in_window'' \<le> counter r ''ok''" "get r ''contract'' = Inr (PStr CONTRACT)" by (rule s)+
  show "\<exists>d bins. item r ''success_histogram'' = Inr (PDict d) \<and> dict_get d ''bins'' PNone = PList (map PInt bins)
      \<and> length bins = 4096 \<and> sum_list bins = counter r ''ok''"
    by (rule check_histogram_bins [OF s(6)])
  show "\<exists>d bins. item r ''all_histogram'' = Inr (PDict d) \<and> dict_get d ''bins'' PNone = PList (map PInt bins)
      \<and> length bins = 4096 \<and> sum_list bins = counter r ''ok'' + counter r ''unknown'' + counter r ''errors''"
    using check_histogram_bins [OF s(7)] s(4) by simp
qed

text \<open>C14: an accepted measurement accounts for every offered operation: the counters are
  nonnegative integers, each offered operation was either not issued or ended as a success, an
  unknown or an error, completions in the window are successes, and the bins of the two latency
  histograms add up to the successes and to the attempts.\<close>

theorem accepted_result_accounts:
  assumes "validate_result r = Inr []"
  shows "(\<forall>k\<in>set required_counts. item r k = Inr (PInt (counter r k)) \<and> 0 \<le> counter r k) \<and>
    counter r ''offered'' = counter r ''not_issued'' + counter r ''ok'' + counter r ''unknown'' + counter r ''errors'' \<and>
    counter r ''completed_in_window'' \<le> counter r ''ok'' \<and>
    get r ''contract'' = Inr (PStr CONTRACT) \<and>
    (\<exists>d bins. item r ''success_histogram'' = Inr (PDict d) \<and> dict_get d ''bins'' PNone = PList (map PInt bins)
      \<and> length bins = 4096 \<and> sum_list bins = counter r ''ok'') \<and>
    (\<exists>d bins. item r ''all_histogram'' = Inr (PDict d) \<and> dict_get d ''bins'' PNone = PList (map PInt bins)
      \<and> length bins = 4096 \<and> sum_list bins = counter r ''ok'' + counter r ''unknown'' + counter r ''errors'')"
  by (intro conjI) (rule accepted_result_parts [OF assms])+

theorem accepted_result_accounts_witness:
  "validate_result sample_result = Inr [] \<and> counter sample_result ''offered'' = 3 \<and>
   (\<exists>d bins. item sample_result ''success_histogram'' = Inr (PDict d) \<and> dict_get d ''bins'' PNone = PList (map PInt bins)
      \<and> sum_list bins = counter sample_result ''ok'')"
  using accepted_result_accounts [OF sample_result_valid] sample_result_valid
  by (auto simp: counter_def item_def sample_result_def Let_def)

end
