(* ===== verification/Machine.thy ===== *)
theory Machine
  imports Activity Accounting
begin

text \<open>
  \<open>src/benchctl/machine.py\<close>: what is computed from samples of the host. \<open>summarize_idle\<close> reduces
  samples to differences and percentages, \<open>assess_idle\<close> compares a summary with a predeclared
  objective, \<open>load_environment_receipt\<close> checks that samples cover a measured load, and
  \<open>storage_probe_errors\<close> recomputes the statistics of a storage probe. Where the code iterates
  over an intersection of key sets, whose order Python leaves open, the model takes the order of
  the earlier sample.
\<close>

section \<open>Summaries\<close>

definition int_value :: "pyval \<Rightarrow> int option" where
  "int_value v = (case v of PInt i \<Rightarrow> Some i | _ \<Rightarrow> None)"

text \<open>The keys of \<open>before\<close> whose values are integers on both sides, with the differences.\<close>

definition counter_deltas :: "pydict \<Rightarrow> pydict \<Rightarrow> (pykey \<times> int) list" where
  "counter_deltas before after = List.map_filter (\<lambda>(name, v).
     case (int_value v, map_of after name) of
       (Some a, Some w) \<Rightarrow> (case int_value w of Some b \<Rightarrow> Some (name, b - a) | None \<Rightarrow> None)
     | _ \<Rightarrow> None) before"

definition deltas :: "pyval \<Rightarrow> pyval \<Rightarrow> (pykey \<times> int) list option" where
  "deltas before after = (case (before, after) of
     (PDict b, PDict a) \<Rightarrow>
       let result = counter_deltas b a in
       if list_ex (\<lambda>(_, d). d < 0) result \<or> result = [] then None else Some result
   | _ \<Rightarrow> None)"

definition delta_at :: "(pykey \<times> int) list \<Rightarrow> string \<Rightarrow> int" where
  "delta_at ds name = (case map_of ds (KStr name) of Some i \<Rightarrow> i | None \<Rightarrow> 0)"

text \<open>\<open>100.0 * value\<close> and \<open>100.0 * value / total\<close>\<close>

definition hundred_times :: "int \<Rightarrow> pyfloat res" where
  "hundred_times i = bindE (f_of_int i) (\<lambda>x. Inr (f_mul (Fl 100) x))"

definition percent_of :: "int \<Rightarrow> int \<Rightarrow> pyval res" where
  "percent_of i n =
     (if n > 0 then bindE (hundred_times i) (\<lambda>x. bindE (f_of_int n) (\<lambda>y. Inr (PFloat (f_div x y)))) else Inr PNone)"

definition deltas_object :: "(pykey \<times> int) list \<Rightarrow> pyval" where
  "deltas_object ds = PDict (map (\<lambda>(k, i). (k, PInt i)) ds)"

definition cpu_summary :: "(pykey \<times> int) list option \<Rightarrow> pyval res" where
  "cpu_summary cpu = (case cpu of
     None \<Rightarrow> Inr PNone
   | Some ds \<Rightarrow>
       let total = (\<Sum>(k, i)\<leftarrow>ds. if k \<in> {KStr ''guest'', KStr ''guest_nice''} then 0 else i) in
       bindE (percent_of (total - delta_at ds ''idle'' - delta_at ds ''iowait'') total) (\<lambda>busy.
       bindE (percent_of (delta_at ds ''iowait'') total) (\<lambda>iowait.
       bindE (percent_of (delta_at ds ''steal'') total) (\<lambda>steal.
       Inr (PDict [kv ''ticks'' (deltas_object ds), kv ''total_ticks'' (PInt total), kv ''busy_percent'' busy,
         kv ''iowait_percent'' iowait, kv ''steal_percent'' steal])))))"

text \<open>\<open>100.0 * i / (elapsed_seconds * 1_000_000)\<close>\<close>

definition share_of_wall :: "int \<Rightarrow> pyfloat \<Rightarrow> pyfloat res" where
  "share_of_wall i elapsed =
     bindE (hundred_times i) (\<lambda>x. py_div (PFloat x) (PFloat (f_mul elapsed (Fl 1000000))))"

definition cgroup_summary :: "(pykey \<times> int) list option \<Rightarrow> pyfloat \<Rightarrow> pyval res" where
  "cgroup_summary cgroup elapsed = (case cgroup of
     None \<Rightarrow> Inr PNone
   | Some ds \<Rightarrow> bindE (share_of_wall (delta_at ds ''throttled_usec'') elapsed) (\<lambda>x.
       Inr (PDict [kv ''counters'' (deltas_object ds), kv ''throttled_percent_of_wall'' (PFloat x)])))"

definition pressure_row :: "pydict \<Rightarrow> pyfloat \<Rightarrow> pydict \<Rightarrow> pykey \<times> pyval \<Rightarrow> pydict res" where
  "pressure_row resource_after elapsed rows = (\<lambda>(kind, v).
     case map_of resource_after kind of
       None \<Rightarrow> Inr rows
     | Some w \<Rightarrow>
         bindE (get v ''total'') (\<lambda>start. bindE (get w ''total'') (\<lambda>finish.
         case (int_value start, int_value finish) of
           (Some a, Some b) \<Rightarrow> if b < a then Inr rows
             else bindE (share_of_wall (b - a) elapsed) (\<lambda>x.
               Inr (rows @ [(kind, PDict [kv ''stalled_microseconds'' (PInt (b - a)), kv ''percent_of_wall'' (PFloat x)])]))
         | _ \<Rightarrow> Inr rows)))"

definition pressure_of :: "pyval \<Rightarrow> pyval \<Rightarrow> pyfloat \<Rightarrow> string \<Rightarrow> (pykey \<times> pyval) res" where
  "pressure_of before after elapsed resource =
     bindE (bindE (get_or before ''pressure'' (PDict [])) (\<lambda>p. get p resource)) (\<lambda>resource_before.
     bindE (bindE (get_or after ''pressure'' (PDict [])) (\<lambda>p. get p resource)) (\<lambda>resource_after.
     case (resource_before, resource_after) of
       (PDict b, PDict a) \<Rightarrow> bindE (foldE (pressure_row a elapsed) [] b) (\<lambda>rows.
         Inr (kv resource (if rows = [] then PNone else PDict rows)))
     | _ \<Rightarrow> Inr (kv resource PNone)))"

definition device_deltas :: "pyval \<Rightarrow> pyval \<Rightarrow> pyval" where
  "device_deltas before after = (case (before, after) of
     (PDict b, PDict a) \<Rightarrow> PDict (List.map_filter (\<lambda>(name, v). case map_of a name of
         Some w \<Rightarrow> map_option (\<lambda>ds. (name, deltas_object ds)) (deltas v w) | None \<Rightarrow> None) b)
   | _ \<Rightarrow> PNone)"

definition throttle_summary :: "(pykey \<times> int) list option \<Rightarrow> pyval" where
  "throttle_summary throttles = (case throttles of
     None \<Rightarrow> PNone
   | Some ds \<Rightarrow> PDict [kv ''counters'' (deltas_object ds),
       kv ''changed_counters'' (PInt (int (length (filter (\<lambda>(_, d). 0 < d) ds)))),
       kv ''maximum_counter_delta'' (PInt (foldl max 0 (map snd ds)))])"

text \<open>\<open>min(values)\<close>: the first of the least values.\<close>

definition py_min :: "pyval list \<Rightarrow> pyval res" where
  "py_min vs = foldE (\<lambda>m v. bindE (py_lt v m) (\<lambda>b. Inr (if b then v else m))) (hd vs) (tl vs)"

definition filesystem_summary :: "pyval list \<Rightarrow> pyval res" where
  "filesystem_summary samples =
     bindE (mapE (\<lambda>sample. bindE (item sample ''system'') (\<lambda>system. get system ''filesystem_space'')) samples) (\<lambda>spaces.
     bindE (mapE (\<lambda>space. item space ''available_bytes'') (filter is_dict spaces)) (\<lambda>available.
     if available = [] then Inr PNone
     else bindE (py_min available) (\<lambda>least.
       Inr (PDict [kv ''minimum_available_bytes'' least, kv ''ending_available_bytes'' (last available)]))))"

definition sample_time :: "pyval \<Rightarrow> pyval res" where
  "sample_time sample = item sample ''monotonic_ns''"

definition sample_gap :: "pyval \<times> pyval \<Rightarrow> pyfloat res" where
  "sample_gap = (\<lambda>(left, right).
     bindE (sample_time right) (\<lambda>r. bindE (sample_time left) (\<lambda>l. bindE (py_sub r l) (\<lambda>d. py_div d (PInt 1000000000)))))"

definition f_max :: "pyfloat list \<Rightarrow> pyfloat" where
  "f_max xs = foldl (\<lambda>m x. if f_lt m x then x else m) (hd xs) (tl xs)"

definition sample_times :: "pyval list \<Rightarrow> (pyfloat \<times> pyfloat list) res" where
  "sample_times samples =
     bindE (raise_if (length samples < 2) ValueError ''machine profile requires at least two samples'') (\<lambda>_.
     bindE (bindE (sample_time (last samples)) (\<lambda>b. bindE (sample_time (hd samples)) (\<lambda>a. py_sub b a))) (\<lambda>elapsed_ns.
     bindE (raise_if (case int_value elapsed_ns of Some i \<Rightarrow> i \<le> 0 | None \<Rightarrow> True) ValueError
       ''machine profile timestamps did not advance'') (\<lambda>_.
     bindE (py_div elapsed_ns (PInt 1000000000)) (\<lambda>elapsed.
     bindE (mapE sample_gap (zip samples (tl samples))) (\<lambda>gaps.
     bindE (raise_if (list_ex (\<lambda>gap. \<not> is_finite gap \<or> f_le gap (Fl 0)) gaps) ValueError
       ''machine profile sample timestamps are not increasing'') (\<lambda>_. Inr (elapsed, gaps)))))))"

definition idle_limitations :: "string list" where
  "idle_limitations = [''idle counters characterize this observation window, not future benchmark load'',
     ''host counters do not identify which process caused a stall'',
     ''raw block-device counters are retained without guessing filesystem device ancestry'']"

definition summarize_idle :: "pyval list \<Rightarrow> int \<Rightarrow> pydict res" where
  "summarize_idle samples schema =
     bindE (raise_if (schema \<notin> {1, 2}) ValueError ''unsupported machine profile schema'') (\<lambda>_.
     bindE (sample_times samples) (\<lambda>(elapsed, gaps).
     bindE (item (hd samples) ''system'') (\<lambda>before. bindE (item (last samples) ''system'') (\<lambda>after.
     bindE (get before ''cpu_ticks'') (\<lambda>cpu0. bindE (get after ''cpu_ticks'') (\<lambda>cpu1.
     bindE (cpu_summary (deltas cpu0 cpu1)) (\<lambda>cpu.
     bindE (get before ''cgroup_cpu'') (\<lambda>cg0. bindE (get after ''cgroup_cpu'') (\<lambda>cg1.
     bindE (cgroup_summary (deltas cg0 cg1) elapsed) (\<lambda>cgroup.
     bindE (mapE (pressure_of before after elapsed) [''cpu'', ''io'', ''memory'']) (\<lambda>pressure.
     bindE (get before ''block_devices'') (\<lambda>dev0. bindE (get after ''block_devices'') (\<lambda>dev1.
     bindE (get before ''hardware_throttle_counts'') (\<lambda>hw0. bindE (get after ''hardware_throttle_counts'') (\<lambda>hw1.
     bindE (filesystem_summary samples) (\<lambda>filesystem.
     let devices = device_deltas dev0 dev1; throttling = throttle_summary (deltas hw0 hw1) in
     Inr ([kv ''schema'' (PInt schema), kv ''sample_count'' (PInt (int (length samples))), kv ''elapsed_seconds'' (PFloat elapsed),
       kv ''maximum_sample_gap_seconds'' (PFloat (f_max gaps)),
       kv ''supported'' (PDict ([kv ''cpu_ticks'' (PBool (cpu \<noteq> PNone)), kv ''cgroup_cpu'' (PBool (cgroup \<noteq> PNone)),
         kv ''linux_pressure'' (PBool (list_all (\<lambda>(_, v). v \<noteq> PNone) pressure)), kv ''block_devices'' (PBool (devices \<noteq> PNone)),
         kv ''filesystem_space'' (PBool (filesystem \<noteq> PNone))]
         @ (if schema \<ge> 2 then [kv ''hardware_throttle_counters'' (PBool (throttling \<noteq> PNone))] else []))),
       kv ''cpu'' cpu, kv ''cgroup_cpu'' cgroup, kv ''pressure'' (PDict pressure), kv ''block_devices'' devices, kv ''filesystem'' filesystem,
       kv ''limitations'' (PList (map PStr (idle_limitations
         @ (if schema \<ge> 2 then [''hardware throttle counters are optional and may repeat one package event per CPU''] else []))))]
       @ (if schema \<ge> 2 then [kv ''hardware_throttling'' throttling] else []))))))))))))))))))"

section \<open>Assessment\<close>

definition OBJECTIVE :: pydict where
  "OBJECTIVE = [kv ''duration_seconds'' (PFloat (Fl 15)), kv ''sample_interval_seconds'' (PFloat (Fl 1)),
     kv ''minimum_available_bytes'' (PInt (20 * 1024 ^ 3)), kv ''maximum_cpu_busy_percent'' (PFloat (Fl 5)),
     kv ''maximum_cpu_iowait_percent'' (PFloat (Fl 2)), kv ''maximum_cpu_steal_percent'' (PFloat (Fl 1)),
     kv ''maximum_cgroup_throttled_percent'' (PFloat (Fl 1)), kv ''maximum_cpu_pressure_some_percent'' (PFloat (Fl 2)),
     kv ''maximum_io_pressure_some_percent'' (PFloat (Fl 2)), kv ''maximum_io_pressure_full_percent'' (PFloat (Fl (1 / 2))),
     kv ''maximum_memory_pressure_some_percent'' (PFloat (Fl (1 / 2))), kv ''maximum_memory_pressure_full_percent'' (PFloat (fl (1 / 10))),
     kv ''maximum_hardware_throttle_counter_delta'' (PFloat (Fl 0))]"

text \<open>The two lists that the checks append to.\<close>

record verdict =
  v_failures :: "string list"
  v_missing :: "string list"

definition v_fail :: "string \<Rightarrow> verdict \<Rightarrow> verdict" where
  "v_fail s v = v\<lparr>v_failures := v_failures v @ [s]\<rparr>"

definition v_miss :: "string \<Rightarrow> verdict \<Rightarrow> verdict" where
  "v_miss s v = v\<lparr>v_missing := v_missing v @ [s]\<rparr>"

definition check_maximum :: "string \<Rightarrow> pyval \<Rightarrow> pyval \<Rightarrow> verdict \<Rightarrow> verdict res" where
  "check_maximum path v maximum w =
     bindE (if v = PNone then Inr False else py_isfinite v) (\<lambda>finite.
     if \<not> finite then Inr (v_miss path w)
     else bindE (py_lt maximum v) (\<lambda>over.
       if over then bindE (py_fixed3 v) (\<lambda>a. bindE (py_fixed3 maximum) (\<lambda>b. Inr (v_fail (path @ '' '' @ a @ '' exceeds '' @ b) w)))
       else Inr w))"

text \<open>\<open>v.get(k) or {}\<close>\<close>

definition get_or_empty :: "pyval \<Rightarrow> string \<Rightarrow> pyval res" where
  "get_or_empty v k = bindE (get v k) (\<lambda>x. Inr (if truthy x then x else PDict []))"

definition finite_number :: "pyval \<Rightarrow> bool res" where
  "finite_number v = (if num_of v = None then Inr False else py_isfinite v)"

definition check_elapsed :: "pyval \<Rightarrow> pyval \<Rightarrow> verdict \<Rightarrow> verdict res" where
  "check_elapsed summary objective w =
     bindE (get summary ''elapsed_seconds'') (\<lambda>elapsed.
     bindE (finite_number elapsed) (\<lambda>ok.
     if \<not> ok then Inr (v_miss ''elapsed_seconds'' w)
     else bindE (item objective ''duration_seconds'') (\<lambda>d. bindE (py_lt elapsed d) (\<lambda>below.
       if below then bindE (py_fixed3 elapsed) (\<lambda>a. bindE (py_fixed3 d) (\<lambda>b. Inr (v_fail (''elapsed_seconds '' @ a @ '' is below '' @ b) w)))
       else Inr w))))"

definition check_gap :: "pyval \<Rightarrow> pyval \<Rightarrow> verdict \<Rightarrow> verdict res" where
  "check_gap summary objective w =
     bindE (get summary ''maximum_sample_gap_seconds'') (\<lambda>gap.
     bindE (bindE (item objective ''sample_interval_seconds'') (\<lambda>i. py_mul i (PFloat (Fl (3 / 2))))) (\<lambda>allowed.
     bindE (finite_number gap) (\<lambda>ok.
     if \<not> ok then Inr (v_miss ''maximum_sample_gap_seconds'' w)
     else bindE (py_lt allowed gap) (\<lambda>over.
       if over then bindE (py_fixed3 gap) (\<lambda>a. bindE (py_fixed3 allowed) (\<lambda>b.
         Inr (v_fail (''maximum_sample_gap_seconds '' @ a @ '' exceeds '' @ b) w)))
       else Inr w))))"

text \<open>One checked quantity: its name, where the summary has it, and the bound in the objective.\<close>

type_synonym quantity = "string \<times> pyval res \<times> string"

definition check_quantity :: "pyval \<Rightarrow> verdict \<Rightarrow> quantity \<Rightarrow> verdict res" where
  "check_quantity objective w = (\<lambda>(path, v, bound).
     bindE v (\<lambda>v. bindE (item objective bound) (\<lambda>maximum. check_maximum path v maximum w)))"

definition share_in :: "pyval \<Rightarrow> string \<Rightarrow> pyval res" where
  "share_in pressure kind = bindE (get_or_empty pressure kind) (\<lambda>p. get p ''percent_of_wall'')"

definition recent_quantities :: "pyval \<Rightarrow> pyval \<Rightarrow> pyval \<Rightarrow> quantity list" where
  "recent_quantities cpu cpu_pressure memory_pressure =
     [(''cpu.busy_percent'', get cpu ''busy_percent'', ''maximum_cpu_busy_percent''),
      (''pressure.cpu.some.percent_of_wall'', share_in cpu_pressure ''some'', ''maximum_cpu_pressure_some_percent''),
      (''pressure.memory.some.percent_of_wall'', share_in memory_pressure ''some'', ''maximum_memory_pressure_some_percent''),
      (''pressure.memory.full.percent_of_wall'', share_in memory_pressure ''full'', ''maximum_memory_pressure_full_percent'')]"

definition basic_quantities :: "pyval \<Rightarrow> pyval \<Rightarrow> pyval \<Rightarrow> quantity list" where
  "basic_quantities cpu cgroup io_pressure =
     [(''cpu.iowait_percent'', get cpu ''iowait_percent'', ''maximum_cpu_iowait_percent''),
      (''cpu.steal_percent'', get cpu ''steal_percent'', ''maximum_cpu_steal_percent''),
      (''cgroup_cpu.throttled_percent_of_wall'', get cgroup ''throttled_percent_of_wall'', ''maximum_cgroup_throttled_percent''),
      (''pressure.io.some.percent_of_wall'', share_in io_pressure ''some'', ''maximum_io_pressure_some_percent''),
      (''pressure.io.full.percent_of_wall'', share_in io_pressure ''full'', ''maximum_io_pressure_full_percent'')]"

definition check_available :: "pyval \<Rightarrow> pyval \<Rightarrow> verdict \<Rightarrow> verdict res" where
  "check_available filesystem objective w =
     bindE (get filesystem ''minimum_available_bytes'') (\<lambda>available.
     case int_value available of
       None \<Rightarrow> Inr (v_miss ''filesystem.minimum_available_bytes'' w)
     | Some _ \<Rightarrow> bindE (item objective ''minimum_available_bytes'') (\<lambda>least. bindE (py_lt available least) (\<lambda>below.
         Inr (if below then v_fail (''filesystem.minimum_available_bytes '' @ py_str available @ '' is below '' @ py_str least) w else w))))"

definition throttling_quantities :: "pyval \<Rightarrow> quantity list" where
  "throttling_quantities hardware = (if is_dict hardware
     then [(''hardware_throttling.maximum_counter_delta'', get hardware ''maximum_counter_delta'', ''maximum_hardware_throttle_counter_delta'')] else [])"

definition pressure_at :: "pyval \<Rightarrow> string \<Rightarrow> pyval res" where
  "pressure_at summary resource = bindE (get_or_empty summary ''pressure'') (\<lambda>p. get_or_empty p resource)"

definition idle_verdict :: "pyval \<Rightarrow> pyval \<Rightarrow> verdict res" where
  "idle_verdict summary objective =
     bindE (get_or_empty summary ''cpu'') (\<lambda>cpu. bindE (get_or_empty summary ''cgroup_cpu'') (\<lambda>cgroup.
     bindE (pressure_at summary ''cpu'') (\<lambda>cpu_pressure. bindE (pressure_at summary ''io'') (\<lambda>io_pressure.
     bindE (pressure_at summary ''memory'') (\<lambda>memory_pressure. bindE (get_or_empty summary ''filesystem'') (\<lambda>filesystem.
     bindE (check_elapsed summary objective \<lparr>v_failures = [], v_missing = []\<rparr>) (\<lambda>w1.
     bindE (check_gap summary objective w1) (\<lambda>w2.
     bindE (bindE (get_or summary ''schema'' (PInt 1)) (\<lambda>schema. py_ge schema (PInt 2))) (\<lambda>recent.
     bindE (if recent
       then bindE (foldE (check_quantity objective) w2 (recent_quantities cpu cpu_pressure memory_pressure)) (\<lambda>w.
         bindE (get summary ''hardware_throttling'') (\<lambda>hardware.
         foldE (check_quantity objective) w (throttling_quantities hardware)))
       else Inr w2) (\<lambda>w3.
     bindE (foldE (check_quantity objective) w3 (basic_quantities cpu cgroup io_pressure)) (\<lambda>w4.
     check_available filesystem objective w4)))))))))))"

definition verdict_status :: "verdict \<Rightarrow> string" where
  "verdict_status w = (if v_failures w \<noteq> [] then ''failed'' else if v_missing w \<noteq> [] then ''not measured'' else ''passed'')"

definition assess_idle :: "pyval \<Rightarrow> pyval \<Rightarrow> pydict res" where
  "assess_idle summary objective =
     bindE (idle_verdict summary objective) (\<lambda>w. bindE (items objective) (\<lambda>bounds.
     Inr [kv ''status'' (PStr (verdict_status w)), kv ''objective'' (PDict bounds),
       kv ''failures'' (PList (map PStr (v_failures w))), kv ''missing'' (PList (map PStr (v_missing w))),
       kv ''scope'' (PStr ''predeclared idle-host observation only; benchmark load is assessed separately'')]))"

section \<open>Load environment\<close>

text \<open>\<open>max(a, b)\<close> keeps the first of equal values.\<close>

definition py_max2 :: "pyval \<Rightarrow> pyval \<Rightarrow> pyval res" where
  "py_max2 a b = bindE (py_lt a b) (\<lambda>c. Inr (if c then b else a))"

definition positive_number :: "string \<times> pyval \<Rightarrow> unit res" where
  "positive_number = (\<lambda>(name, v).
     bindE (case v of
         PInt i \<Rightarrow> bindE (py_isfinite v) (\<lambda>f. Inr (f \<and> 0 < i))
       | PFloat x \<Rightarrow> Inr (is_finite x \<and> f_lt (Fl 0) x)
       | _ \<Rightarrow> Inr False) (\<lambda>ok.
     raise_if (\<not> ok) ValueError (name @ '' must be finite and positive'')))"

definition coverage_failures :: "pyval \<Rightarrow> pyval \<Rightarrow> pyval \<Rightarrow> pyval \<Rightarrow> string list res" where
  "coverage_failures elapsed minimum_elapsed gap maximum_gap =
     bindE (py_lt elapsed minimum_elapsed) (\<lambda>short.
     bindE (if short then bindE (py_fixed3 elapsed) (\<lambda>a. bindE (py_fixed3 minimum_elapsed) (\<lambda>b.
         Inr [''elapsed_seconds '' @ a @ '' is below '' @ b])) else Inr []) (\<lambda>first.
     bindE (py_lt maximum_gap gap) (\<lambda>wide.
     bindE (if wide then bindE (py_fixed3 gap) (\<lambda>a. bindE (py_fixed3 maximum_gap) (\<lambda>b.
         Inr [''maximum_sample_gap_seconds '' @ a @ '' exceeds '' @ b])) else Inr []) (\<lambda>second.
     Inr (first @ second)))))"

definition load_environment_receipt :: "pyval list \<Rightarrow> pyval \<Rightarrow> pyval \<Rightarrow> pydict res" where
  "load_environment_receipt samples expected_duration_seconds nominal_sample_interval_seconds =
     bindE (mapE positive_number [(''expected_duration_seconds'', expected_duration_seconds),
       (''nominal_sample_interval_seconds'', nominal_sample_interval_seconds)]) (\<lambda>_.
     bindE (summarize_idle samples 2) (\<lambda>summary.
     bindE (py_mul expected_duration_seconds (PFloat (fl (95 / 100)))) (\<lambda>minimum_elapsed.
     bindE (bindE (py_mul nominal_sample_interval_seconds (PInt 3)) (py_max2 (PFloat (Fl (1 / 2))))) (\<lambda>maximum_gap.
     bindE (item (PDict summary) ''elapsed_seconds'') (\<lambda>elapsed. bindE (item (PDict summary) ''maximum_sample_gap_seconds'') (\<lambda>gap.
     bindE (coverage_failures elapsed minimum_elapsed gap maximum_gap) (\<lambda>failures.
     Inr [kv ''schema'' (PInt 1), kv ''kind'' (PStr ''measured-load-environment-observation''),
       kv ''expected_duration_seconds'' expected_duration_seconds,
       kv ''nominal_sample_interval_seconds'' nominal_sample_interval_seconds,
       kv ''coverage'' (PDict [kv ''status'' (PStr (if failures = [] then ''passed'' else ''failed'')),
         kv ''minimum_elapsed_seconds'' minimum_elapsed, kv ''maximum_sample_gap_seconds'' maximum_gap,
         kv ''failures'' (PList (map PStr failures))]),
       kv ''summary'' (PDict summary),
       kv ''interpretation'' (PStr ''workload and unrelated host activity are both included; these diagnostics never remove, accept, or rank a performance result'')])))))))"

section \<open>Storage probe\<close>

definition STORAGE_PROBE_SAMPLES :: nat where
  "STORAGE_PROBE_SAMPLES = 16"

definition probe_fields :: "string list" where
  "probe_fields = [''write_sync_ns'', ''rename_directory_sync_ns'', ''delete_directory_sync_ns'']"

text \<open>\<open>values[math.ceil(len(values) * 0.99) - 1]\<close>; a negative index would count from the end.\<close>

definition p99_index :: "nat \<Rightarrow> int res" where
  "p99_index n = bindE (f_of_int (int n)) (\<lambda>x. bindE (f_ceil (f_mul x (fl (99 / 100)))) (\<lambda>c. Inr (c - 1)))"

definition timing_summary :: "int list \<Rightarrow> pyval res" where
  "timing_summary xs =
     (let vs = sort xs in
      bindE (raise_if (vs = []) IndexError ''list index out of range'') (\<lambda>_.
      bindE (p99_index (length vs)) (\<lambda>i.
      bindE (raise_if (\<not> (0 \<le> i \<and> i < int (length vs))) IndexError ''list index out of range'') (\<lambda>_.
      Inr (PDict [kv ''minimum_ns'' (PInt (hd vs)), kv ''median_ns'' (PInt (vs ! ((length vs - 1) div 2))),
        kv ''p99_ns'' (PInt (vs ! nat i)), kv ''maximum_ns'' (PInt (last vs))])))))"

definition storage_timing_summary :: "pydict list \<Rightarrow> pyval res" where
  "storage_timing_summary samples =
     bindE (mapE (\<lambda>name. bindE (timing_summary (map (\<lambda>s. the_int (dict_get s name PNone)) samples)) (\<lambda>v. Inr (kv name v))) probe_fields)
       (\<lambda>rows. Inr (PDict rows))"

definition valid_timing :: "pyval \<Rightarrow> bool" where
  "valid_timing sample = (case sample of
     PDict d \<Rightarrow> list_all (\<lambda>name. is_nonneg (dict_get d name PNone)) probe_fields | _ \<Rightarrow> False)"

definition storage_probe_errors :: "pyval \<Rightarrow> string list res" where
  "storage_probe_errors probe =
     bindE (items probe) (\<lambda>d.
     let field_of = (\<lambda>name. dict_get d name PNone) in
     if \<not> py_eq (field_of ''status'') (PStr ''passed'') then Inr [''machine-profile storage publication probe did not pass'']
     else if py_eq (dict_get d ''schema'' (PInt 1)) (PInt 1) then Inr []
     else if \<not> py_eq (field_of ''schema'') (PInt 2) then Inr [''machine-profile storage publication probe has unsupported schema'']
     else case field_of ''samples'' of
       PList samples \<Rightarrow>
         if \<not> py_eq (field_of ''sample_count'') (PInt (int STORAGE_PROBE_SAMPLES)) \<or> length samples \<noteq> STORAGE_PROBE_SAMPLES
         then Inr [''machine-profile storage publication sample accounting differs'']
         else if \<not> py_eq (field_of ''bytes'') (PInt 4096) then Inr [''machine-profile storage publication payload size differs'']
         else if samples = [] \<or> \<not> list_all valid_timing samples then Inr [''machine-profile storage publication timings are invalid'']
         else bindE (storage_timing_summary (List.map_filter (\<lambda>s. case s of PDict d \<Rightarrow> Some d | _ \<Rightarrow> None) samples)) (\<lambda>summary.
           Inr (if \<not> py_eq (field_of ''summary'') summary then [''machine-profile storage publication summary differs from raw samples'']
             else if \<not> py_eq (field_of ''timings'') (last samples) then [''machine-profile storage publication compatibility timing differs'']
             else []))
     | _ \<Rightarrow> Inr [''machine-profile storage publication sample accounting differs''])"

text \<open>The receipt of a probe from the timings of its publications.\<close>

definition storage_probe_receipt :: "pyval list \<Rightarrow> pyval res" where
  "storage_probe_receipt samples =
     bindE (storage_timing_summary (List.map_filter (\<lambda>s. case s of PDict d \<Rightarrow> Some d | _ \<Rightarrow> None) samples)) (\<lambda>summary.
     Inr (PDict [kv ''schema'' (PInt 2), kv ''status'' (PStr ''passed''), kv ''bytes'' (PInt 4096),
       kv ''sample_count'' (PInt (int (length samples))), kv ''timings'' (last samples), kv ''samples'' (PList samples),
       kv ''summary'' summary]))"

section \<open>When an assessment passes\<close>

definition clean :: "verdict \<Rightarrow> bool" where
  "clean w \<longleftrightarrow> v_failures w = [] \<and> v_missing w = []"

text \<open>A quantity is good when it was measured, is finite and is not above its bound.\<close>

definition quantity_ok :: "pyval \<Rightarrow> quantity \<Rightarrow> bool" where
  "quantity_ok objective = (\<lambda>(_, v, bound). \<exists>x maximum. v = Inr x \<and> item objective bound = Inr maximum \<and>
     x \<noteq> PNone \<and> py_isfinite x = Inr True \<and> py_lt maximum x = Inr False)"

definition elapsed_ok :: "pyval \<Rightarrow> pyval \<Rightarrow> bool" where
  "elapsed_ok summary objective \<longleftrightarrow> (\<exists>x d. get summary ''elapsed_seconds'' = Inr x \<and> finite_number x = Inr True \<and>
     item objective ''duration_seconds'' = Inr d \<and> py_lt x d = Inr False)"

definition gap_ok :: "pyval \<Rightarrow> pyval \<Rightarrow> bool" where
  "gap_ok summary objective \<longleftrightarrow> (\<exists>x i allowed. get summary ''maximum_sample_gap_seconds'' = Inr x \<and> finite_number x = Inr True \<and>
     item objective ''sample_interval_seconds'' = Inr i \<and> py_mul i (PFloat (Fl (3 / 2))) = Inr allowed \<and> py_lt allowed x = Inr False)"

definition available_ok :: "pyval \<Rightarrow> pyval \<Rightarrow> bool" where
  "available_ok filesystem objective \<longleftrightarrow> (\<exists>i least. get filesystem ''minimum_available_bytes'' = Inr (PInt i) \<and>
     item objective ''minimum_available_bytes'' = Inr least \<and> py_lt (PInt i) least = Inr False)"

lemma not_clean [simp]: "\<not> clean (v_fail s w)" "\<not> clean (v_miss s w)"
  by (simp_all add: clean_def v_fail_def v_miss_def)

lemma verdict_grows [simp]: "v_fail s w \<noteq> w" "v_miss s w \<noteq> w" "w \<noteq> v_fail s w" "w \<noteq> v_miss s w"
proof -
  have "v_failures (v_fail s w) \<noteq> v_failures w" "v_missing (v_miss s w) \<noteq> v_missing w" by (simp_all add: v_fail_def v_miss_def)
  then show "v_fail s w \<noteq> w" "v_miss s w \<noteq> w" "w \<noteq> v_fail s w" "w \<noteq> v_miss s w" by metis+
qed

lemma check_maximum_clean:
  assumes "check_maximum path v maximum w = Inr w'"
  shows "clean w' \<longleftrightarrow> clean w \<and> v \<noteq> PNone \<and> py_isfinite v = Inr True \<and> py_lt maximum v = Inr False"
  using assms by (auto simp: check_maximum_def split: if_splits)

lemma check_quantity_clean:
  assumes "check_quantity objective w q = Inr w'"
  shows "clean w' \<longleftrightarrow> clean w \<and> quantity_ok objective q"
proof -
  obtain path v bound where q: "q = (path, v, bound)" by (cases q) auto
  obtain x maximum where x: "v = Inr x" "item objective bound = Inr maximum" "check_maximum path x maximum w = Inr w'"
    using assms by (auto simp: check_quantity_def q)
  show ?thesis using check_maximum_clean [OF x(3)] by (auto simp: quantity_ok_def q x)
qed

lemma check_quantities_clean:
  "foldE (check_quantity objective) w qs = Inr w' \<Longrightarrow> clean w' \<longleftrightarrow> clean w \<and> (\<forall>q\<in>set qs. quantity_ok objective q)"
proof (induction qs arbitrary: w)
  case (Cons q qs)
  then obtain w1 where "check_quantity objective w q = Inr w1" "foldE (check_quantity objective) w1 qs = Inr w'" by auto
  then show ?case using Cons.IH [of w1] check_quantity_clean [of objective w q w1] by simp
qed simp

lemma check_elapsed_clean: "check_elapsed summary objective w = Inr w' \<Longrightarrow> clean w' \<longleftrightarrow> clean w \<and> elapsed_ok summary objective"
  by (auto simp: check_elapsed_def elapsed_ok_def split: if_splits)

lemma check_gap_clean: "check_gap summary objective w = Inr w' \<Longrightarrow> clean w' \<longleftrightarrow> clean w \<and> gap_ok summary objective"
  by (auto simp: check_gap_def gap_ok_def split: if_splits)

lemma int_value_Some: "int_value v = Some i \<longleftrightarrow> v = PInt i"
  by (cases v) (auto simp: int_value_def)

lemma check_available_clean:
  assumes "check_available filesystem objective w = Inr w'"
  shows "clean w' \<longleftrightarrow> clean w \<and> available_ok filesystem objective"
proof -
  obtain v where v: "get filesystem ''minimum_available_bytes'' = Inr v" using assms by (auto simp: check_available_def)
  show ?thesis
  proof (cases "int_value v")
    case None
    then show ?thesis using assms v by (auto simp: check_available_def available_ok_def int_value_def)
  next
    case (Some i)
    then have "v = PInt i" by (simp add: int_value_Some)
    then show ?thesis using assms v Some by (auto simp: check_available_def available_ok_def split: if_splits)
  qed
qed

text \<open>What a passed assessment requires of a summary; the first group only from schema 2 on.\<close>

definition idle_ok :: "pyval \<Rightarrow> pyval \<Rightarrow> bool" where
  "idle_ok summary objective \<longleftrightarrow> (\<exists>cpu cgroup cpu_pressure io_pressure memory_pressure filesystem hardware recent.
     get_or_empty summary ''cpu'' = Inr cpu \<and> get_or_empty summary ''cgroup_cpu'' = Inr cgroup \<and>
     pressure_at summary ''cpu'' = Inr cpu_pressure \<and> pressure_at summary ''io'' = Inr io_pressure \<and>
     pressure_at summary ''memory'' = Inr memory_pressure \<and> get_or_empty summary ''filesystem'' = Inr filesystem \<and>
     get summary ''hardware_throttling'' = Inr hardware \<and>
     bindE (get_or summary ''schema'' (PInt 1)) (\<lambda>schema. py_ge schema (PInt 2)) = Inr recent \<and>
     elapsed_ok summary objective \<and> gap_ok summary objective \<and> available_ok filesystem objective \<and>
     (\<forall>q\<in>set (basic_quantities cpu cgroup io_pressure). quantity_ok objective q) \<and>
     (recent \<longrightarrow> (\<forall>q\<in>set (recent_quantities cpu cpu_pressure memory_pressure @ throttling_quantities hardware). quantity_ok objective q)))"

lemma idle_verdict_clean:
  assumes "idle_verdict summary objective = Inr w"
  shows "clean w \<longleftrightarrow> idle_ok summary objective"
proof -
  obtain cpu cgroup cpu_pressure io_pressure memory_pressure filesystem w1 w2 recent w3 w4 where
    parts: "get_or_empty summary ''cpu'' = Inr cpu" "get_or_empty summary ''cgroup_cpu'' = Inr cgroup"
      "pressure_at summary ''cpu'' = Inr cpu_pressure" "pressure_at summary ''io'' = Inr io_pressure"
      "pressure_at summary ''memory'' = Inr memory_pressure" "get_or_empty summary ''filesystem'' = Inr filesystem"
      "bindE (get_or summary ''schema'' (PInt 1)) (\<lambda>schema. py_ge schema (PInt 2)) = Inr recent"
    and w1: "check_elapsed summary objective \<lparr>v_failures = [], v_missing = []\<rparr> = Inr w1"
    and w2: "check_gap summary objective w1 = Inr w2"
    and w3: "(if recent then bindE (foldE (check_quantity objective) w2 (recent_quantities cpu cpu_pressure memory_pressure)) (\<lambda>w.
         bindE (get summary ''hardware_throttling'') (\<lambda>hardware.
         foldE (check_quantity objective) w (throttling_quantities hardware)))
       else Inr w2) = Inr w3"
    and w4: "foldE (check_quantity objective) w3 (basic_quantities cpu cgroup io_pressure) = Inr w4"
    and w: "check_available filesystem objective w4 = Inr w"
    using assms unfolding idle_verdict_def bindE_eq_Inr by blast
  obtain d where d: "summary = PDict d" using parts(1) by (auto simp: get_or_empty_def get_or_eq_Inr)
  define hardware where "hardware = dict_get d ''hardware_throttling'' PNone"
  have hw: "get summary ''hardware_throttling'' = Inr hardware" by (simp add: d get_or_def hardware_def)
  have "clean w3 \<longleftrightarrow> clean w2 \<and>
      (recent \<longrightarrow> (\<forall>q\<in>set (recent_quantities cpu cpu_pressure memory_pressure @ throttling_quantities hardware). quantity_ok objective q))"
    using w3 hw check_quantities_clean by (auto split: if_splits)
  then have "clean w \<longleftrightarrow> elapsed_ok summary objective \<and> gap_ok summary objective \<and> available_ok filesystem objective \<and>
     (\<forall>q\<in>set (basic_quantities cpu cgroup io_pressure). quantity_ok objective q) \<and>
     (recent \<longrightarrow> (\<forall>q\<in>set (recent_quantities cpu cpu_pressure memory_pressure @ throttling_quantities hardware). quantity_ok objective q))"
    using check_available_clean [OF w] check_quantities_clean [OF w4] check_gap_clean [OF w2] check_elapsed_clean [OF w1]
    by (auto simp: clean_def)
  also have "\<dots> \<longleftrightarrow> idle_ok summary objective" unfolding idle_ok_def using parts hw by auto
  finally show ?thesis .
qed

text \<open>C25: the verdict on a host is \<open>passed\<close> exactly when the observation was long and dense enough,
  enough space is free, and every quantity that the schema requires was measured, is finite and
  does not exceed its predeclared bound. A missing measurement never passes.\<close>

theorem idle_passed_iff:
  assumes "assess_idle summary objective = Inr r"
  shows "item (PDict r) ''status'' = Inr (PStr ''passed'') \<longleftrightarrow> idle_ok summary objective"
proof -
  obtain w where w: "idle_verdict summary objective = Inr w" and r: "item (PDict r) ''status'' = Inr (PStr (verdict_status w))"
    using assms by (auto simp: assess_idle_def item_def)
  have "verdict_status w = ''passed'' \<longleftrightarrow> clean w" by (simp add: verdict_status_def clean_def)
  then show ?thesis using idle_verdict_clean [OF w] r by simp
qed

definition sample_host :: "int \<Rightarrow> int \<Rightarrow> pyval" where
  "sample_host seconds busy = PDict [kv ''monotonic_ns'' (PInt (seconds * 1000000000)), kv ''system'' (PDict [
     kv ''cpu_ticks'' (PDict [kv ''user'' (PInt busy), kv ''idle'' (PInt (seconds * 800)), kv ''iowait'' (PInt 0), kv ''steal'' (PInt 0)]),
     kv ''cgroup_cpu'' (PDict [kv ''throttled_usec'' (PInt 0)]),
     kv ''pressure'' (PDict (map (\<lambda>name. kv name (PDict [kv ''some'' (PDict [kv ''total'' (PInt 5)]), kv ''full'' (PDict [kv ''total'' (PInt 5)])]))
       [''cpu'', ''io'', ''memory''])),
     kv ''filesystem_space'' (PDict [kv ''available_bytes'' (PInt (64 * 1024 ^ 3))])])]"

theorem idle_passed_iff_witness:
  "\<exists>summary r. summarize_idle [sample_host 0 3, sample_host 1 7, sample_host 2 9] 2 = Inr summary \<and>
     assess_idle (PDict summary) (PDict (AList.update (KStr ''duration_seconds'') (PInt 2) OBJECTIVE)) = Inr r \<and>
     idle_ok (PDict summary) (PDict (AList.update (KStr ''duration_seconds'') (PInt 2) OBJECTIVE))"
proof -
  let ?objective = "PDict (AList.update (KStr ''duration_seconds'') (PInt 2) OBJECTIVE)"
  have "bindE (bindE (summarize_idle [sample_host 0 3, sample_host 1 7, sample_host 2 9] 2) (\<lambda>summary.
      assess_idle (PDict summary) ?objective)) (\<lambda>r. item (PDict r) ''status'') = Inr (PStr ''passed'')" by code_simp
  then obtain summary r where s: "summarize_idle [sample_host 0 3, sample_host 1 7, sample_host 2 9] 2 = Inr summary"
      "assess_idle (PDict summary) ?objective = Inr r" "item (PDict r) ''status'' = Inr (PStr ''passed'')" by auto
  then show ?thesis using idle_passed_iff [OF s(2)] by blast
qed

section \<open>Storage probe statistics\<close>

text \<open>The reference: extreme values and the eighth of the sixteen values in order. The 99th
  percentile of sixteen values is their maximum.\<close>

definition probe_statistics :: "int list \<Rightarrow> pyval" where
  "probe_statistics xs = PDict [kv ''minimum_ns'' (PInt (Min (set xs))), kv ''median_ns'' (PInt (sort xs ! 7)),
     kv ''p99_ns'' (PInt (Max (set xs))), kv ''maximum_ns'' (PInt (Max (set xs)))]"

definition timings_of :: "string \<Rightarrow> pyval list \<Rightarrow> int list" where
  "timings_of name samples = map (\<lambda>s. case s of PDict d \<Rightarrow> the_int (dict_get d name PNone) | _ \<Rightarrow> 0) samples"

lemma p99_of_probe: "p99_index 16 = Inr 15"
  by code_simp

lemma sorted_extremes:
  assumes "xs \<noteq> []" shows "hd (sort xs) = Min (set xs)" "last (sort xs) = Max (set (xs :: int list))"
proof -
  have s: "sorted (sort xs)" "sort xs \<noteq> []" "set (sort xs) = set xs" using assms by (auto simp flip: length_greater_0_conv)
  have "hd (sort xs) \<le> x" if "x \<in> set (sort xs)" for x
    using that s(1,2) by (cases "sort xs") auto
  then show "hd (sort xs) = Min (set xs)"
    using s(2,3) hd_in_set [OF s(2)] by (intro Min_eqI [symmetric]) auto
  have "x \<le> last (sort xs)" if x: "x \<in> set (sort xs)" for x
  proof -
    obtain k where k: "k < length (sort xs)" "sort xs ! k = x" using x by (metis in_set_conv_nth)
    have "sort xs ! k \<le> sort xs ! (length (sort xs) - 1)" using k(1) by (intro sorted_nth_mono [OF s(1)]) auto
    then show ?thesis using k(2) last_conv_nth [OF s(2)] by simp
  qed
  then show "last (sort xs) = Max (set xs)"
    using s(2,3) last_in_set [OF s(2)] by (intro Max_eqI [symmetric]) auto
qed

lemma timing_summary_probe:
  assumes "length xs = 16" shows "timing_summary xs = Inr (probe_statistics xs)"
proof -
  have ne: "xs \<noteq> []" using assms by auto
  have "sort xs \<noteq> []" using assms by (metis length_sort list.size(3) zero_neq_numeral)
  moreover have "sort xs ! 15 = last (sort xs)" using assms calculation by (simp add: last_conv_nth)
  ultimately show ?thesis
    using sorted_extremes [OF ne] p99_of_probe assms by (simp add: timing_summary_def probe_statistics_def Let_def)
qed

lemma dicts_of_valid:
  assumes "list_all valid_timing samples"
  shows "map (\<lambda>s. the_int (dict_get s name PNone)) (List.map_filter (\<lambda>s. case s of PDict d \<Rightarrow> Some d | _ \<Rightarrow> None) samples) = timings_of name samples"
  using assms by (induction samples) (auto simp: timings_of_def valid_timing_def List.map_filter_simps split: pyval.splits)

lemma storage_summary_probe:
  assumes "length samples = 16" "list_all valid_timing samples"
  shows "storage_timing_summary (List.map_filter (\<lambda>s. case s of PDict d \<Rightarrow> Some d | _ \<Rightarrow> None) samples) =
    Inr (PDict (map (\<lambda>name. kv name (probe_statistics (timings_of name samples))) probe_fields))"
  using assms timing_summary_probe [of "timings_of _ samples"]
  by (simp add: storage_timing_summary_def dicts_of_valid probe_fields_def timings_of_def)

text \<open>The receipt of a storage probe with sixteen publications always exists and passes its
  check, and its summary holds the true minimum, median and maximum of each timing, with the 99th
  percentile equal to the maximum.\<close>

theorem storage_probe_verifies:
  assumes "length samples = STORAGE_PROBE_SAMPLES" "list_all valid_timing samples" "list_all plain samples"
  shows "\<exists>r. storage_probe_receipt samples = Inr r \<and> storage_probe_errors r = Inr [] \<and>
    item r ''summary'' = Inr (PDict (map (\<lambda>name. kv name (probe_statistics (timings_of name samples))) probe_fields))"
proof -
  let ?summary = "PDict (map (\<lambda>name. kv name (probe_statistics (timings_of name samples))) probe_fields)"
  have n: "length samples = 16" using assms(1) by (simp add: STORAGE_PROBE_SAMPLES_def)
  note sum = storage_summary_probe [OF n assms(2)]
  define d where "d = [kv ''schema'' (PInt 2), kv ''status'' (PStr ''passed''), kv ''bytes'' (PInt 4096),
       kv ''sample_count'' (PInt (int (length samples))), kv ''timings'' (last samples), kv ''samples'' (PList samples),
       kv ''summary'' ?summary]"
  have receipt: "storage_probe_receipt samples = Inr (PDict d)" by (simp add: storage_probe_receipt_def sum d_def)
  have get: "dict_get d ''status'' PNone = PStr ''passed''" "dict_get d ''schema'' (PInt 1) = PInt 2" "dict_get d ''schema'' PNone = PInt 2"
    "dict_get d ''samples'' PNone = PList samples" "dict_get d ''sample_count'' PNone = PInt 16" "dict_get d ''bytes'' PNone = PInt 4096"
    "dict_get d ''summary'' PNone = ?summary" "dict_get d ''timings'' PNone = last samples" "item (PDict d) ''summary'' = Inr ?summary"
    by (simp_all add: d_def dict_get_def item_def n)
  have num: "py_eq (PInt i) (PInt j) \<longleftrightarrow> i = j" for i j by (simp add: num_of_def num_eq_def)
  have "plain ?summary" by (simp add: probe_fields_def probe_statistics_def)
  note same = py_eq_refl [OF this]
  have ne: "samples \<noteq> []" using n by auto
  then have "plain (last samples)" using assms(3) by (auto simp: list_all_iff)
  note same_last = py_eq_refl [OF this]
  have "storage_probe_errors (PDict d) = Inr []"
    unfolding storage_probe_errors_def items_def pyval.case bindE_simps Let_def get num sum
    using same same_last assms(2) n ne by (simp add: STORAGE_PROBE_SAMPLES_def del: py_eq.simps)
  then show ?thesis using receipt get(9) by blast
qed

definition sample_timing :: "nat \<Rightarrow> pyval" where
  "sample_timing i = PDict (map (\<lambda>name. kv name (PInt (int ((7 * i) mod 16)))) probe_fields)"

theorem storage_probe_verifies_witness:
  "\<exists>r. storage_probe_receipt (map sample_timing [0..<16]) = Inr r \<and> storage_probe_errors r = Inr []"
proof -
  have "list_all valid_timing (map sample_timing [0..<16])" "list_all plain (map sample_timing [0..<16])"
    "length (map sample_timing [0..<16]) = STORAGE_PROBE_SAMPLES" by code_simp+
  from storage_probe_verifies [OF this(3,1,2)] show ?thesis by blast
qed

section \<open>Coverage of a measured load\<close>

lemma f_max_upper:
  assumes "list_all is_finite xs" "x \<in> set xs" shows "f_le x (f_max xs)"
proof -
  have "list_all is_finite ys \<Longrightarrow> is_finite m \<Longrightarrow>
      is_finite (foldl (\<lambda>m x. if f_lt m x then x else m) m ys) \<and> (\<forall>y\<in>insert m (set ys). f_le y (foldl (\<lambda>m x. if f_lt m x then x else m) m ys))" for ys m
  proof (induction ys arbitrary: m)
    case Nil
    then show ?case by (cases m) auto
  next
    case (Cons y ys)
    let ?m = "if f_lt m y then y else m"
    have fin: "is_finite ?m" "list_all is_finite ys" using Cons.prems by auto
    obtain a b where ab: "m = Fl a" "y = Fl b" using Cons.prems by (cases m; cases y) auto
    obtain c where c: "foldl (\<lambda>m x. if f_lt m x then x else m) ?m ys = Fl c"
      using Cons.IH [OF fin(2,1)] by (cases "foldl (\<lambda>m x. if f_lt m x then x else m) ?m ys") auto
    have "f_le ?m (Fl c)" "\<forall>z\<in>set ys. f_le z (Fl c)" using Cons.IH [OF fin(2,1)] c by auto
    then show ?case using c ab by (auto split: if_splits)
  qed
  from this [of "tl xs" "hd xs"] assms show ?thesis by (cases xs) (auto simp: f_max_def)
qed

lemma f_lt_le_trans: "f_lt x y \<Longrightarrow> f_le y z \<Longrightarrow> f_lt x z"
  by (cases x; cases y; cases z) auto

lemma sample_times_Inr:
  assumes "sample_times samples = Inr (elapsed, gaps)"
  shows "mapE sample_gap (zip samples (tl samples)) = Inr gaps" "\<forall>gap\<in>set gaps. is_finite gap \<and> f_lt (Fl 0) gap"
proof -
  have g: "mapE sample_gap (zip samples (tl samples)) = Inr gaps" "\<not> list_ex (\<lambda>gap. \<not> is_finite gap \<or> f_le gap (Fl 0)) gaps"
    using assms unfolding sample_times_def bindE_eq_Inr raise_if_eq_Inr by (force, force)
  show "mapE sample_gap (zip samples (tl samples)) = Inr gaps" by (rule g)
  show "\<forall>gap\<in>set gaps. is_finite gap \<and> f_lt (Fl 0) gap"
  proof
    fix gap assume "gap \<in> set gaps"
    then have "is_finite gap" "\<not> f_le gap (Fl 0)" using g(2) by (auto simp: list_ex_iff)
    then show "is_finite gap \<and> f_lt (Fl 0) gap" by (cases gap) auto
  qed
qed

lemma summarize_times:
  assumes "summarize_idle samples schema = Inr summary"
  shows "\<exists>elapsed gaps. sample_times samples = Inr (elapsed, gaps) \<and>
    item (PDict summary) ''elapsed_seconds'' = Inr (PFloat elapsed) \<and>
    item (PDict summary) ''maximum_sample_gap_seconds'' = Inr (PFloat (f_max gaps))"
proof -
  obtain p where p: "sample_times samples = Inr p" using assms unfolding summarize_idle_def bindE_eq_Inr by blast
  obtain elapsed gaps where e: "p = (elapsed, gaps)" by (cases p)
  obtain tail where "summary = [kv ''schema'' (PInt schema), kv ''sample_count'' (PInt (int (length samples))), kv ''elapsed_seconds'' (PFloat elapsed),
       kv ''maximum_sample_gap_seconds'' (PFloat (f_max gaps))] @ tail"
    using assms unfolding summarize_idle_def bindE_eq_Inr p e Let_def by (auto simp del: mapE.simps)
  then show ?thesis using p e by (simp add: item_def)
qed

lemma coverage_passed:
  assumes "coverage_failures elapsed minimum gap maximum = Inr []"
  shows "py_lt elapsed minimum = Inr False \<and> py_lt maximum gap = Inr False"
  using assms by (auto simp: coverage_failures_def split: if_splits)

lemma py_lt_below:
  assumes "py_lt m (PFloat y) = Inr False" "f_le x y" shows "py_lt m (PFloat x) = Inr False"
proof -
  obtain z where "num_of m = Some z" using assms(1) by (auto simp: py_lt_def order_error_def num_of_def split: option.splits pyval.splits)
  then show ?thesis using assms f_lt_le_trans by (auto simp: py_lt_def num_of_def)
qed

text \<open>C27: a load environment receipt whose coverage passed really covers the load: the samples
  span at least 95 percent of the declared duration (as the rounded product says), their time
  stamps strictly increase, and no two consecutive samples are further apart than three nominal
  intervals, or half a second where that is more.\<close>

theorem covered_load:
  assumes "load_environment_receipt samples duration interval = Inr r"
    "bindE (item (PDict r) ''coverage'') (\<lambda>c. item c ''status'') = Inr (PStr ''passed'')"
  shows "\<exists>elapsed gaps minimum maximum. sample_times samples = Inr (elapsed, gaps) \<and>
    mapE sample_gap (zip samples (tl samples)) = Inr gaps \<and>
    py_mul duration (PFloat (fl (95 / 100))) = Inr minimum \<and> py_lt (PFloat elapsed) minimum = Inr False \<and>
    bindE (py_mul interval (PInt 3)) (py_max2 (PFloat (Fl (1 / 2)))) = Inr maximum \<and>
    (\<forall>gap\<in>set gaps. f_lt (Fl 0) gap \<and> py_lt maximum (PFloat gap) = Inr False)"
proof -
  obtain summary minimum maximum elapsed gap failures where
    s: "summarize_idle samples 2 = Inr summary" and m: "py_mul duration (PFloat (fl (95 / 100))) = Inr minimum"
      "bindE (py_mul interval (PInt 3)) (py_max2 (PFloat (Fl (1 / 2)))) = Inr maximum"
    and e: "item (PDict summary) ''elapsed_seconds'' = Inr elapsed" "item (PDict summary) ''maximum_sample_gap_seconds'' = Inr gap"
    and f: "coverage_failures elapsed minimum gap maximum = Inr failures"
    and st: "bindE (item (PDict r) ''coverage'') (\<lambda>c. item c ''status'') = Inr (PStr (if failures = [] then ''passed'' else ''failed''))"
    using assms(1) unfolding load_environment_receipt_def bindE_eq_Inr by (force simp: item_def)
  have "failures = []" using st assms(2) by (simp split: if_splits)
  note ok = coverage_passed [OF f [unfolded this]]
  obtain el gaps where t: "sample_times samples = Inr (el, gaps)" "elapsed = PFloat el" "gap = PFloat (f_max gaps)"
    using summarize_times [OF s] e by auto
  note g = sample_times_Inr [OF t(1)]
  have "py_lt maximum (PFloat x) = Inr False" if "x \<in> set gaps" for x
    using py_lt_below ok f_max_upper [of gaps x] g(2) that t(3) by (auto simp: list_all_iff)
  then show ?thesis using t g m ok by auto
qed

theorem covered_load_witness:
  "\<exists>r elapsed gaps. load_environment_receipt [sample_host 0 3, sample_host 1 7, sample_host 2 9] (PInt 2) (PInt 1) = Inr r \<and>
     sample_times [sample_host 0 3, sample_host 1 7, sample_host 2 9] = Inr (elapsed, gaps) \<and> (\<forall>gap\<in>set gaps. f_lt (Fl 0) gap)"
proof -
  have "bindE (load_environment_receipt [sample_host 0 3, sample_host 1 7, sample_host 2 9] (PInt 2) (PInt 1))
      (\<lambda>r. bindE (item (PDict r) ''coverage'') (\<lambda>c. item c ''status'')) = Inr (PStr ''passed'')" by code_simp
  then obtain r where r: "load_environment_receipt [sample_host 0 3, sample_host 1 7, sample_host 2 9] (PInt 2) (PInt 1) = Inr r"
    "bindE (item (PDict r) ''coverage'') (\<lambda>c. item c ''status'') = Inr (PStr ''passed'')" by auto
  from covered_load [OF r] r(1) show ?thesis by blast
qed

end
