(* ===== verification/Reclamation_Service.thy ===== *)
theory Reclamation_Service
  imports Py_Prelude Accounting Activity
begin

text \<open>
  \<open>src/benchctl/reclamation_service.py\<close>: the snapshot and WAL-reclamation activity of a case,
  recomputed from the node statuses before and after. Every metric is a pair of counters with a
  histogram of 64 power-of-two buckets; a stage is reported as the difference of two
  metrics, or as the later one when the node was restarted. \<open>activity\<close> runs one
  \<open>try\<close> block for each node and keeps what a block did before it raised (\<open>tryA\<close>). The
  theorems show that reported metrics are consistent, that aggregation adds them up, and
  what a passed receipt says about the raw statuses.
\<close>

section \<open>Metrics\<close>

definition NATIVE_SNAPSHOT_BASE_STAGES :: "string list" where
  "NATIVE_SNAPSHOT_BASE_STAGES = [''snapshot_publication'', ''snapshot_data_write'', ''snapshot_data_sync'',
     ''snapshot_file_publish'', ''snapshot_manifest_publish'', ''snapshot_prune'']"

definition NATIVE_SNAPSHOT_KERNEL_STAGES :: "string list" where
  "NATIVE_SNAPSHOT_KERNEL_STAGES = [''snapshot_kernel_prepare'', ''snapshot_kernel_commit'']"

definition NATIVE_SNAPSHOT_STAGES :: "string list" where
  "NATIVE_SNAPSHOT_STAGES = NATIVE_SNAPSHOT_BASE_STAGES @ NATIVE_SNAPSHOT_KERNEL_STAGES"

definition NATIVE_WAL_RECLAMATION_STAGES :: "string list" where
  "NATIVE_WAL_RECLAMATION_STAGES = [''wal_reclamation'', ''wal_checkpoint_prepare'', ''wal_manifest_publish'', ''wal_cleanup'']"

definition APPLICATION_CHECKPOINT_STAGES :: "string list" where
  "APPLICATION_CHECKPOINT_STAGES = [''journal_checkpoint_write_ns'', ''journal_checkpoint_sync_ns'',
     ''journal_checkpoint_publish_ns'']"

text \<open>A metric that was read, and a stage as it is reported.\<close>

record metric =
  m_samples :: int
  m_total :: int
  m_buckets :: "int list"

record stage =
  s_samples :: int
  s_total_ns :: int
  s_mean_ns :: "pyfloat option"
  s_upper_ns :: "int option"
  s_buckets :: "int list"

definition nonneg_ints :: "pyval \<Rightarrow> int list option" where
  "nonneg_ints v = (case v of
     PList xs \<Rightarrow> if list_all is_nonneg xs then Some (map (\<lambda>x. case x of PInt i \<Rightarrow> i | _ \<Rightarrow> 0) xs) else None
   | _ \<Rightarrow> None)"

definition service_histogram :: "pyval \<Rightarrow> int \<Rightarrow> string \<Rightarrow> string \<Rightarrow> int list res" where
  "service_histogram values completed node boundary =
     (case nonneg_ints values of
        Some xs \<Rightarrow> if length xs = 64 \<and> sum_list xs = completed then Inr xs
          else raiseE ValueError (''node '' @ node @ '' '' @ boundary @ '' compaction histogram is invalid'')
      | None \<Rightarrow> raiseE ValueError (''node '' @ node @ '' '' @ boundary @ '' compaction histogram is invalid''))"

definition populated :: "int list \<Rightarrow> nat list" where
  "populated buckets = map fst (filter (\<lambda>(_, n). n \<noteq> 0) (List.enumerate 0 buckets))"

definition upper_bound_ns :: "int list \<Rightarrow> int option" where
  "upper_bound_ns buckets =
     (if populated buckets = [] then None
      else let highest = last (populated buckets) in
        Some (if highest < 63 then 2 ^ (highest + 1) - 1 else 2 ^ 64 - 1))"

definition native_histogram :: "pyval \<Rightarrow> int \<Rightarrow> string \<Rightarrow> string \<Rightarrow> int list res" where
  "native_histogram values calls node stage_name =
     (case nonneg_ints values of
        Some xs \<Rightarrow> if length xs \<le> 64 \<and> sum_list xs = calls then Inr (xs @ replicate (64 - length xs) 0)
          else raiseE ValueError (''node '' @ node @ '' '' @ stage_name @ '' native histogram is invalid'')
      | None \<Rightarrow> raiseE ValueError (''node '' @ node @ '' '' @ stage_name @ '' native histogram is invalid''))"

text \<open>The summary of samples that every stage is reported with.\<close>

definition summarize :: "int \<Rightarrow> int \<Rightarrow> int list \<Rightarrow> stage res" where
  "summarize samples total_ns buckets =
     bindE (if samples = 0 then Inr None else bindE (int_div total_ns samples) (\<lambda>x. Inr (Some x))) (\<lambda>mean.
     Inr \<lparr>s_samples = samples, s_total_ns = total_ns, s_mean_ns = mean, s_upper_ns = upper_bound_ns buckets,
       s_buckets = buckets\<rparr>)"

text \<open>The difference of two metrics, with the messages of its three callers.\<close>

definition metric_delta :: "bool \<Rightarrow> metric \<Rightarrow> metric \<Rightarrow> string \<Rightarrow> string \<Rightarrow> (int \<times> int \<times> int list) res" where
  "metric_delta restarted first final regressed disagrees =
     (let samples = (if restarted then m_samples final else m_samples final - m_samples first);
          total_ns = (if restarted then m_total final else m_total final - m_total first);
          buckets = (if restarted then m_buckets final
            else map (\<lambda>(left, right). right - left) (zip (m_buckets first) (m_buckets final))) in
      bindE (raise_if (samples < 0 \<or> total_ns < 0 \<or> list_ex (\<lambda>v. v < 0) buckets) ValueError regressed) (\<lambda>_.
      bindE (raise_if (sum_list buckets \<noteq> samples) ValueError disagrees) (\<lambda>_.
      Inr (samples, total_ns, buckets))))"

section \<open>Native persistence stages\<close>

definition native_counters :: "pydict \<Rightarrow> string \<Rightarrow> string \<Rightarrow> string \<Rightarrow> unit res" where
  "native_counters metric node stage_name boundary =
     raise_if (list_ex (\<lambda>name. \<not> is_nonneg (dict_get metric name PNone)) [''calls'', ''total_ns'', ''max_ns'']) ValueError
       (''node '' @ node @ '' '' @ stage_name @ '' '' @ boundary @ '' native counters are invalid'')"

definition read_native :: "pydict \<Rightarrow> string \<Rightarrow> string \<Rightarrow> metric res" where
  "read_native metric node stage_name =
     (let calls = the_int (dict_get metric ''calls'' PNone) in
      bindE (native_histogram (dict_get metric ''buckets_ns_log2'' PNone) calls node stage_name) (\<lambda>buckets.
      Inr \<lparr>m_samples = calls, m_total = the_int (dict_get metric ''total_ns'' PNone), m_buckets = buckets\<rparr>))"

definition native_stage :: "pyval \<Rightarrow> pyval \<Rightarrow> bool \<Rightarrow> string \<Rightarrow> string \<Rightarrow> (string \<times> stage) res" where
  "native_stage old new restarted node stage_name =
     bindE (item old stage_name) (\<lambda>f. bindE (item new stage_name) (\<lambda>l.
     bindE (raise_if (\<not> is_dict f \<or> \<not> is_dict l) ValueError (''node '' @ node @ '' '' @ stage_name @ '' native metric is invalid'')) (\<lambda>_.
     bindE (items f) (\<lambda>first. bindE (items l) (\<lambda>last.
     bindE (raise_if (\<not> keys_are first [''calls'', ''total_ns'', ''max_ns'', ''buckets_ns_log2'']
         \<or> \<not> keys_are last [''calls'', ''total_ns'', ''max_ns'', ''buckets_ns_log2'']) ValueError
       (''node '' @ node @ '' '' @ stage_name @ '' native metric shape changed'')) (\<lambda>_.
     bindE (native_counters first node stage_name ''before'') (\<lambda>_.
     bindE (native_counters last node stage_name ''after'') (\<lambda>_.
     bindE (read_native first node stage_name) (\<lambda>a.
     bindE (read_native last node stage_name) (\<lambda>b.
     bindE (metric_delta restarted a b (''node '' @ node @ '' '' @ stage_name @ '' native counters regressed'')
       (''node '' @ node @ '' '' @ stage_name @ '' native histogram delta disagrees'')) (\<lambda>(calls, total_ns, buckets).
     bindE (summarize calls total_ns buckets) (\<lambda>s. Inr (stage_name, s)))))))))))))"

text \<open>\<open>info.get("engine", {}).get(name)\<close>\<close>

definition engine_get :: "pyval \<Rightarrow> string \<Rightarrow> pyval res" where
  "engine_get info name = bindE (get_or info ''engine'' (PDict [])) (\<lambda>engine. get engine name)"

definition stages_of :: "pyval \<Rightarrow> pyval \<Rightarrow> bool \<Rightarrow> string \<Rightarrow> string list option res" where
  "stages_of old new wal_reclamation_stages node =
     (let both = (\<lambda>name. has_key old name \<and> has_key new name); either = (\<lambda>name. has_key old name \<or> has_key new name) in
      if \<not> list_ex either NATIVE_SNAPSHOT_BASE_STAGES then Inr None
      else bindE (raise_if (\<not> list_all both NATIVE_SNAPSHOT_BASE_STAGES) ValueError
          (''node '' @ node @ '' native snapshot stages are incomplete'')) (\<lambda>_.
        bindE (raise_if (list_ex either NATIVE_SNAPSHOT_KERNEL_STAGES \<and> \<not> list_all both NATIVE_SNAPSHOT_KERNEL_STAGES) ValueError
          (''node '' @ node @ '' native snapshot kernel stages are incomplete'')) (\<lambda>_.
        let names = (if list_all either NATIVE_SNAPSHOT_KERNEL_STAGES then NATIVE_SNAPSHOT_STAGES else NATIVE_SNAPSHOT_BASE_STAGES) in
        if wal_reclamation_stages
        then bindE (raise_if (\<not> list_all both NATIVE_WAL_RECLAMATION_STAGES) ValueError
               (''node '' @ node @ '' native WAL reclamation stages are incomplete'')) (\<lambda>_.
             Inr (Some (names @ NATIVE_WAL_RECLAMATION_STAGES)))
        else Inr (Some names))))"

definition native_snapshot_delta ::
  "pyval \<Rightarrow> pyval \<Rightarrow> bool \<Rightarrow> string \<Rightarrow> bool \<Rightarrow> (string \<times> stage) list option res" where
  "native_snapshot_delta before_info after_info restarted node wal_reclamation_stages =
     bindE (engine_get before_info ''persistence_diagnostics'') (\<lambda>old.
     bindE (engine_get after_info ''persistence_diagnostics'') (\<lambda>new.
     if old = PNone \<and> new = PNone then Inr None
     else bindE (raise_if (\<not> is_dict old \<or> \<not> is_dict new) ValueError
         (''node '' @ node @ '' native snapshot stage availability changed'')) (\<lambda>_.
       bindE (stages_of old new wal_reclamation_stages node) (\<lambda>stages.
       case stages of
         None \<Rightarrow> Inr None
       | Some names \<Rightarrow> bindE (mapE (native_stage old new restarted node) names) (\<lambda>rows. Inr (Some rows))))))"

section \<open>Application and owner metrics\<close>

definition metric_keys :: "string list" where
  "metric_keys = [''samples'', ''total'', ''max'', ''buckets_log2'']"

definition read_metric :: "pydict \<Rightarrow> string \<Rightarrow> string \<Rightarrow> string \<Rightarrow> metric res" where
  "read_metric d node stage_name kind =
     bindE (raise_if (list_ex (\<lambda>name. \<not> is_nonneg (dict_get d name PNone)) [''samples'', ''total'', ''max'']) ValueError
       (''node '' @ node @ '' '' @ stage_name @ '' '' @ kind @ '' counters are invalid'')) (\<lambda>_.
     let samples = the_int (dict_get d ''samples'' PNone) in
     bindE (native_histogram (dict_get d ''buckets_log2'' PNone) samples node stage_name) (\<lambda>buckets.
     Inr \<lparr>m_samples = samples, m_total = the_int (dict_get d ''total'' PNone), m_buckets = buckets\<rparr>))"

text \<open>A metric object of the application or the owner; \<open>None\<close> when it is absent.\<close>

definition metric_of :: "pyval \<Rightarrow> string \<Rightarrow> string \<Rightarrow> string \<Rightarrow> metric option res" where
  "metric_of v node stage_name kind =
     (case v of
        PNone \<Rightarrow> Inr None
      | PDict d \<Rightarrow> if keys_are d metric_keys then bindE (read_metric d node stage_name kind) (\<lambda>m. Inr (Some m))
          else raiseE ValueError (''node '' @ node @ '' '' @ stage_name @ '' '' @ kind @ '' metric shape changed'')
      | _ \<Rightarrow> raiseE ValueError (''node '' @ node @ '' '' @ stage_name @ '' '' @ kind @ '' metric shape changed''))"

definition application_metric :: "pyval \<Rightarrow> string \<Rightarrow> string \<Rightarrow> metric res" where
  "application_metric info stage_name node =
     bindE (catchE {KeyError, TypeError}
       (bindE (item info ''application'') (\<lambda>a. bindE (item a ''diagnostics'') (\<lambda>d. item d ''metrics'')))
       (\<lambda>_. raiseE ValueError (''node '' @ node @ '' application diagnostics are unavailable''))) (\<lambda>metrics.
     bindE (raise_if (\<not> is_dict metrics) ValueError (''node '' @ node @ '' application diagnostics are invalid'')) (\<lambda>_.
     bindE (get metrics stage_name) (\<lambda>metric.
     bindE (metric_of metric node stage_name ''application'') (\<lambda>m.
     Inr (case m of Some m \<Rightarrow> m | None \<Rightarrow> \<lparr>m_samples = 0, m_total = 0, m_buckets = replicate 64 0\<rparr>)))))"

definition application_checkpoint_delta :: "pyval \<Rightarrow> pyval \<Rightarrow> bool \<Rightarrow> string \<Rightarrow> (string \<times> stage) list res" where
  "application_checkpoint_delta before_info after_info restarted node =
     mapE (\<lambda>stage_name.
       bindE (application_metric before_info stage_name node) (\<lambda>first.
       bindE (application_metric after_info stage_name node) (\<lambda>last.
       bindE (metric_delta restarted first last (''node '' @ node @ '' '' @ stage_name @ '' application counters regressed'')
         (''node '' @ node @ '' '' @ stage_name @ '' application histogram delta disagrees'')) (\<lambda>(samples, total_ns, buckets).
       bindE (summarize samples total_ns buckets) (\<lambda>s. Inr (stage_name, s))))))
     APPLICATION_CHECKPOINT_STAGES"

definition owner_metric :: "pyval \<Rightarrow> string \<Rightarrow> string \<Rightarrow> metric option res" where
  "owner_metric info stage_name node =
     bindE (get info ''diagnostics'') (\<lambda>diagnostics.
     if diagnostics = PNone then Inr None
     else bindE (raise_if (\<not> has_key diagnostics ''metrics'') ValueError (''node '' @ node @ '' owner diagnostics are unavailable'')) (\<lambda>_.
       bindE (item diagnostics ''metrics'') (\<lambda>metrics.
       bindE (raise_if (\<not> is_dict metrics) ValueError (''node '' @ node @ '' owner diagnostics are invalid'')) (\<lambda>_.
       bindE (get metrics stage_name) (\<lambda>metric. metric_of metric node stage_name ''owner'')))))"

definition application_snapshot_encode_delta ::
  "pyval \<Rightarrow> pyval \<Rightarrow> bool \<Rightarrow> string \<Rightarrow> int \<Rightarrow> stage option res" where
  "application_snapshot_encode_delta before_info after_info restarted node completed =
     bindE (owner_metric before_info ''application_snapshot_encode_ns'' node) (\<lambda>first.
     bindE (owner_metric after_info ''application_snapshot_encode_ns'' node) (\<lambda>last.
     case (first, last) of
       (None, None) \<Rightarrow> Inr None
     | (Some a, Some b) \<Rightarrow>
         bindE (metric_delta restarted a b (''node '' @ node @ '' application snapshot encode counters regressed'')
           (''node '' @ node @ '' application snapshot encode histogram delta disagrees'')) (\<lambda>(samples, total_ns, buckets).
         bindE (raise_if (samples \<noteq> completed) ValueError
           (''node '' @ node @ '' application snapshot encode count differs from completed compactions'')) (\<lambda>_.
         bindE (summarize samples total_ns buckets) (\<lambda>s. Inr (Some s))))
     | _ \<Rightarrow> raiseE ValueError (''node '' @ node @ '' application snapshot encode availability changed'')))"

text \<open>The sum of one stage over the nodes.\<close>

definition aggregate :: "stage list \<Rightarrow> stage res" where
  "aggregate metrics =
     (let buckets = map (\<lambda>index. sum_list (map (\<lambda>m. s_buckets m ! index) metrics)) [0..<64] in
      summarize (sum_list (map s_samples metrics)) (sum_list (map s_total_ns metrics)) buckets)"

section \<open>Retired-log worker\<close>

definition retirement_keys :: "string list" where
  "retirement_keys = [''enabled'', ''max_inflight_entries'', ''max_inflight_payload_bytes'', ''accepted_batches'',
     ''accepted_entries'', ''inline_fallback_batches'', ''inflight_entries'', ''inflight_payload_bytes'']"

definition retirement_counters :: "string list" where
  "retirement_counters = [''accepted_batches'', ''accepted_entries'', ''inline_fallback_batches'']"

definition retirement_delta :: "pyval \<Rightarrow> pyval \<Rightarrow> bool \<Rightarrow> string \<Rightarrow> (string \<times> int) list res" where
  "retirement_delta before_info after_info restarted node =
     bindE (engine_get before_info ''log_retirement'') (\<lambda>f.
     bindE (engine_get after_info ''log_retirement'') (\<lambda>l.
     bindE (raise_if (\<not> is_dict f \<or> \<not> is_dict l) ValueError (''node '' @ node @ '' retired-log worker status is unavailable'')) (\<lambda>_.
     bindE (items f) (\<lambda>fd. bindE (items l) (\<lambda>ld.
     let first = (\<lambda>name. dict_get fd name PNone); last = (\<lambda>name. dict_get ld name PNone);
         a = (\<lambda>name. the_int (first name)); b = (\<lambda>name. the_int (last name)) in
     bindE (raise_if (\<not> keys_are fd retirement_keys \<or> \<not> keys_are ld retirement_keys) ValueError
       (''node '' @ node @ '' retired-log worker status shape changed'')) (\<lambda>_.
     bindE (raise_if (first ''enabled'' \<noteq> PBool True \<or> last ''enabled'' \<noteq> PBool True) ValueError
       (''node '' @ node @ '' retired-log worker is not enabled'')) (\<lambda>_.
     bindE (raise_if (list_ex (\<lambda>name. \<not> is_nonneg (first name) \<or> \<not> is_nonneg (last name)) (tl retirement_keys)) ValueError
       (''node '' @ node @ '' retired-log worker counters are invalid'')) (\<lambda>_.
     bindE (mapE (\<lambda>(limit, inflight).
         bindE (raise_if (a limit = 0 \<or> a limit \<noteq> b limit) ValueError (''node '' @ node @ '' retired-log worker limit changed'')) (\<lambda>_.
         raise_if (a inflight > a limit \<or> b inflight > b limit) ValueError (''node '' @ node @ '' retired-log worker exceeded its credits'')))
       [(''max_inflight_entries'', ''inflight_entries''), (''max_inflight_payload_bytes'', ''inflight_payload_bytes'')]) (\<lambda>_.
     bindE (mapE (\<lambda>name. let delta = (if restarted then b name else b name - a name) in
         bindE (raise_if (delta < 0) ValueError (''node '' @ node @ '' retired-log worker counters regressed'')) (\<lambda>_.
         Inr (name, delta))) retirement_counters) (\<lambda>deltas.
     Inr (deltas @ map (\<lambda>name. (name, b name)) [''max_inflight_entries'', ''max_inflight_payload_bytes'',
       ''inflight_entries'', ''inflight_payload_bytes''])))))))))))"

section \<open>One node\<close>

record node_result =
  n_compactions :: int
  n_installs :: int
  n_current :: int
  n_applied :: int
  n_commit :: int
  n_max_ns :: int
  n_payload :: int
  n_measurement :: "stage option"
  n_encode :: "stage option"
  n_native :: "(string \<times> stage) list option"
  n_application :: "(string \<times> stage) list option"
  n_retirement :: "(string \<times> int) list option"

text \<open>The options of \<open>activity\<close> and its local variables.\<close>

record selection =
  native_snapshot_stages :: bool
  require_native_stages :: bool
  wal_reclamation_stages :: bool
  application_stages :: bool
  require_application_stages :: bool
  retired_log_worker :: bool
  require_retired_log_worker :: bool

record service_state =
  failures :: "string list"
  node_results :: "(string \<times> node_result) list"
  histogram_nodes :: nat
  native_stage_nodes :: nat
  application_stage_nodes :: nat
  application_encode_nodes :: nat
  retirement_worker_nodes :: nat

definition fail :: "string \<Rightarrow> service_state \<Rightarrow> service_state" where
  "fail message s = s\<lparr>failures := failures s @ [message]\<rparr>"

definition fail_if :: "bool \<Rightarrow> string \<Rightarrow> service_state \<Rightarrow> service_state" where
  "fail_if b message s = (if b then fail message s else s)"

definition set_node :: "string \<Rightarrow> (node_result \<Rightarrow> node_result) \<Rightarrow> service_state \<Rightarrow> service_state" where
  "set_node node f s = s\<lparr>node_results := map (\<lambda>(k, r). (k, if k = node then f r else r)) (node_results s)\<rparr>"

text \<open>The counters of a node that the block reads first.\<close>

record node_counters =
  c_old_completed :: int
  c_new_completed :: int
  c_old_installs :: int
  c_new_installs :: int
  c_current :: int
  c_applied :: int
  c_commit :: int
  c_old_total :: int
  c_new_total :: int
  c_max_ns :: int
  c_payload :: int

definition read_counters :: "pyval \<Rightarrow> pyval \<Rightarrow> pyval \<Rightarrow> pyval \<Rightarrow> node_counters res" where
  "read_counters before_info after_info old new =
     bindE (item old ''completed'') (\<lambda>old_completed. bindE (item new ''completed'') (\<lambda>new_completed.
     bindE (item old ''application_installs'') (\<lambda>old_installs. bindE (item new ''application_installs'') (\<lambda>new_installs.
     bindE (item old ''total_ns'') (\<lambda>old_total. bindE (item new ''total_ns'') (\<lambda>new_total.
     bindE (item new ''current_index'') (\<lambda>current_index.
     bindE (item after_info ''application'') (\<lambda>a. bindE (item a ''applied_index'') (\<lambda>applied_index.
     bindE (item after_info ''engine'') (\<lambda>e. bindE (item e ''commit_index'') (\<lambda>commit_index.
     bindE (item new ''max_ns'') (\<lambda>max_ns. bindE (item new ''latest_payload_bytes'') (\<lambda>payload.
     bindE (raise_if (list_ex (\<lambda>v. \<not> is_nonneg v) [old_completed, new_completed, old_installs, new_installs, current_index,
       applied_index, commit_index, old_total, new_total, max_ns, payload]) ValueError
       ''snapshot counters must be nonnegative integers'') (\<lambda>_.
     Inr \<lparr>c_old_completed = the_int old_completed, c_new_completed = the_int new_completed,
       c_old_installs = the_int old_installs, c_new_installs = the_int new_installs, c_current = the_int current_index,
       c_applied = the_int applied_index, c_commit = the_int commit_index, c_old_total = the_int old_total,
       c_new_total = the_int new_total, c_max_ns = the_int max_ns, c_payload = the_int payload\<rparr>))))))))))))))"

definition since :: "bool \<Rightarrow> int \<Rightarrow> int \<Rightarrow> int" where
  "since restarted old new = (if restarted then new else new - old)"

text \<open>The compaction histogram of a node: failures are recorded, invalid histograms raise.\<close>

definition measure_compaction ::
  "pyval \<Rightarrow> pyval \<Rightarrow> node_counters \<Rightarrow> bool \<Rightarrow> string \<Rightarrow> (service_state, stage option) act" where
  "measure_compaction old new c restarted node =
     bindA (liftA (get old ''buckets_log2'')) (\<lambda>old_buckets.
     bindA (liftA (get new ''buckets_log2'')) (\<lambda>new_buckets.
     if old_buckets = PNone \<and> new_buckets = PNone then liftA (Inr None)
     else if old_buckets = PNone \<or> new_buckets = PNone
     then bindA (modifyA (fail (''node '' @ node @ '' compaction histogram changed availability''))) (\<lambda>_. liftA (Inr None))
     else
       bindA (liftA (service_histogram old_buckets (c_old_completed c) node ''before'')) (\<lambda>first.
       bindA (liftA (service_histogram new_buckets (c_new_completed c) node ''after'')) (\<lambda>last.
       let completed = since restarted (c_old_completed c) (c_new_completed c);
           buckets = (if restarted then last else map (\<lambda>(left, right). right - left) (zip first last)) in
       if list_ex (\<lambda>v. v < 0) buckets \<or> sum_list buckets \<noteq> completed
       then bindA (modifyA (fail (''node '' @ node @ '' compaction histogram regressed''))) (\<lambda>_. liftA (Inr None))
       else
         bindA (modifyA (\<lambda>s. s\<lparr>histogram_nodes := histogram_nodes s + 1\<rparr>)) (\<lambda>_.
         bindA (liftA (summarize completed (since restarted (c_old_total c) (c_new_total c)) buckets)) (\<lambda>m.
         liftA (Inr (Some m))))))))"

definition check_counters :: "pyval \<Rightarrow> pyval \<Rightarrow> int \<Rightarrow> node_counters \<Rightarrow> bool \<Rightarrow> string \<Rightarrow> (service_state, unit) act" where
  "check_counters old new interval c restarted node =
     bindA (liftA (item old ''interval_entries'')) (\<lambda>old_interval.
     bindA (liftA (if \<not> py_eq old_interval (PInt interval) then Inr old_interval else item new ''interval_entries'')) (\<lambda>new_interval.
     bindA (modifyA (fail_if (\<not> py_eq old_interval (PInt interval) \<or> \<not> py_eq new_interval (PInt interval))
       (''node '' @ node @ '' snapshot interval differs from the case''))) (\<lambda>_.
     bindA (modifyA (fail_if (\<not> restarted \<and> (c_new_completed c < c_old_completed c \<or> c_new_installs c < c_old_installs c
         \<or> c_new_total c < c_old_total c)) (''node '' @ node @ '' snapshot counters regressed''))) (\<lambda>_.
     modifyA (fail_if (\<not> (c_current c \<le> c_applied c \<and> c_applied c \<le> c_commit c))
       (''node '' @ node @ '' snapshot/application/commit boundaries are incoherent''))))))"

definition new_result :: "node_counters \<Rightarrow> bool \<Rightarrow> stage option \<Rightarrow> node_result" where
  "new_result c restarted measurement =
     \<lparr>n_compactions = since restarted (c_old_completed c) (c_new_completed c),
      n_installs = since restarted (c_old_installs c) (c_new_installs c), n_current = c_current c, n_applied = c_applied c,
      n_commit = c_commit c, n_max_ns = c_max_ns c, n_payload = c_payload c, n_measurement = measurement, n_encode = None,
      n_native = None, n_application = None, n_retirement = None\<rparr>"

text \<open>The optional observations of a node, each added to its result as soon as it is known.\<close>

definition observe_stages :: "selection \<Rightarrow> pyval \<Rightarrow> pyval \<Rightarrow> bool \<Rightarrow> string \<Rightarrow> int \<Rightarrow> (service_state, unit) act" where
  "observe_stages opts before_info after_info restarted node completed =
     bindA (liftA (application_snapshot_encode_delta before_info after_info restarted node completed)) (\<lambda>encode.
     bindA (whenA (encode \<noteq> None) (modifyA (\<lambda>s. set_node node (\<lambda>r. r\<lparr>n_encode := encode\<rparr>)
       (s\<lparr>application_encode_nodes := application_encode_nodes s + 1\<rparr>)))) (\<lambda>_.
     bindA (whenA (native_snapshot_stages opts)
       (bindA (liftA (native_snapshot_delta before_info after_info restarted node (wal_reclamation_stages opts))) (\<lambda>native.
        whenA (native \<noteq> None) (modifyA (\<lambda>s. set_node node (\<lambda>r. r\<lparr>n_native := native\<rparr>)
          (s\<lparr>native_stage_nodes := native_stage_nodes s + 1\<rparr>)))))) (\<lambda>_.
     bindA (whenA (application_stages opts)
       (bindA (liftA (application_checkpoint_delta before_info after_info restarted node)) (\<lambda>stages.
        modifyA (\<lambda>s. set_node node (\<lambda>r. r\<lparr>n_application := Some stages\<rparr>)
          (s\<lparr>application_stage_nodes := application_stage_nodes s + 1\<rparr>))))) (\<lambda>_.
     whenA (retired_log_worker opts)
       (bindA (liftA (retirement_delta before_info after_info restarted node)) (\<lambda>retirement.
        modifyA (\<lambda>s. set_node node (\<lambda>r. r\<lparr>n_retirement := Some retirement\<rparr>)
          (s\<lparr>retirement_worker_nodes := retirement_worker_nodes s + 1\<rparr>))))))))"

text \<open>\<open>restarted_node is not None and str(restarted_node) == node\<close>\<close>

definition is_restarted :: "pyval \<Rightarrow> string \<Rightarrow> bool" where
  "is_restarted restarted_node node = (restarted_node \<noteq> PNone \<and> py_str restarted_node = node)"

definition node_block ::
  "selection \<Rightarrow> (string \<times> pyval) list \<Rightarrow> (string \<times> pyval) list \<Rightarrow> int \<Rightarrow> pyval \<Rightarrow> string \<Rightarrow> (service_state, unit) act" where
  "node_block opts before_nodes after_nodes interval restarted_node node =
     bindA (liftA (bindE (lookup before_nodes node) (\<lambda>n. item n ''info''))) (\<lambda>before_info.
     bindA (liftA (bindE (lookup after_nodes node) (\<lambda>n. item n ''info''))) (\<lambda>after_info.
     bindA (liftA (item before_info ''snapshot_compaction'')) (\<lambda>old.
     bindA (liftA (item after_info ''snapshot_compaction'')) (\<lambda>new.
     bindA (liftA (read_counters before_info after_info old new)) (\<lambda>c.
     let restarted = is_restarted restarted_node node in
     bindA (check_counters old new interval c restarted node) (\<lambda>_.
     bindA (measure_compaction old new c restarted node) (\<lambda>measurement.
     let completed = since restarted (c_old_completed c) (c_new_completed c) in
     bindA (modifyA (fail_if (completed \<noteq> 0 \<and> (c_max_ns c = 0 \<or> c_payload c = 0))
       (''node '' @ node @ '' completed snapshot lacks timing or payload evidence''))) (\<lambda>_.
     bindA (modifyA (\<lambda>s. s\<lparr>node_results := node_results s @ [(node, new_result c restarted measurement)]\<rparr>)) (\<lambda>_.
     observe_stages opts before_info after_info restarted node completed)))))))))"

definition node_step ::
  "selection \<Rightarrow> (string \<times> pyval) list \<Rightarrow> (string \<times> pyval) list \<Rightarrow> int \<Rightarrow> pyval \<Rightarrow> service_state \<Rightarrow> string \<Rightarrow> service_state res" where
  "node_step opts before_nodes after_nodes interval restarted_node s node =
     tryA {KeyError, TypeError, ValueError} (node_block opts before_nodes after_nodes interval restarted_node node)
       (\<lambda>e. fail (''node '' @ node @ '' snapshot activity is invalid: '' @ str_of e)) s"

section \<open>The receipt\<close>

definition initial_state :: service_state where
  "initial_state = \<lparr>failures = [], node_results = [], histogram_nodes = 0, native_stage_nodes = 0, application_stage_nodes = 0,
     application_encode_nodes = 0, retirement_worker_nodes = 0\<rparr>"

definition nodes_of :: "pyval \<Rightarrow> (string \<times> pyval) list res" where
  "nodes_of statuses = bindE (items statuses) (\<lambda>d.
     Inr (fold (\<lambda>(k, reply) t. AList.update (key_str k) reply t) d []))"

text \<open>The checks between the loop and the totals.\<close>

definition check_availability :: "selection \<Rightarrow> service_state \<Rightarrow> service_state" where
  "check_availability opts s =
     fail_if (retired_log_worker opts \<and> retirement_worker_nodes s \<noteq> 3) ''retired-log worker status is not available on all three nodes''
     (fail_if (require_retired_log_worker opts \<and> \<not> retired_log_worker opts) ''required retired-log worker observation was not selected''
     (fail_if (application_encode_nodes s \<notin> {0, 3}) ''application snapshot encode timing is not available on all three nodes''
     (fail_if (application_stages opts \<and> application_stage_nodes s \<noteq> 3) ''application checkpoint stages are not available on all three nodes''
     (fail_if (require_application_stages opts \<and> \<not> application_stages opts) ''required application checkpoint stages were not selected''
     (fail_if (native_snapshot_stages opts \<and> native_stage_nodes s \<noteq> 3) ''native snapshot stages are not available on all three nodes''
     (fail_if (require_native_stages opts \<and> \<not> native_snapshot_stages opts) ''required native snapshot stages were not selected''
     (fail_if (histogram_nodes s \<notin> {0, 3}) ''snapshot compaction histograms are not available on all three nodes'' s)))))))"

definition total_compactions :: "service_state \<Rightarrow> int" where
  "total_compactions s = sum_list (map (\<lambda>(_, r). n_compactions r) (node_results s))"

definition total_installs :: "service_state \<Rightarrow> int" where
  "total_installs s = sum_list (map (\<lambda>(_, r). n_installs r) (node_results s))"

definition check_transfer :: "pyval \<Rightarrow> pyval \<Rightarrow> pyval \<Rightarrow> service_state \<Rightarrow> service_state" where
  "check_transfer restarted_node stopped required s =
     (if \<not> (case (stopped, required) of (PInt a, PInt b) \<Rightarrow> a < b | _ \<Rightarrow> False)
      then fail ''snapshot catch-up boundary is missing or did not advance'' s
      else case map_of (node_results s) (py_str restarted_node) of
        None \<Rightarrow> fail ''snapshot catch-up restarted node is missing'' s
      | Some r \<Rightarrow> fail_if (n_current r < the_int required \<or> n_applied r < the_int required)
          ''restarted follower did not reach the required snapshot boundary'' s)"

definition check_activity :: "pyval \<Rightarrow> pyval \<Rightarrow> pyval \<Rightarrow> pyval \<Rightarrow> service_state \<Rightarrow> service_state" where
  "check_activity scenario restarted_node stopped required s =
     (let s1 = fail_if (total_compactions s = 0) ''no live snapshot compaction completed since the before status'' s;
          require_transfer = py_eq scenario (PStr ''snapshot-catchup'');
          s2 = fail_if (require_transfer \<and> total_installs s = 0)
            ''the lagging-follower scenario did not install an application snapshot'' s1 in
      if require_transfer then check_transfer restarted_node stopped required s2 else s2)"

text \<open>Totals over the nodes: a stage of all nodes, for the native stages only when the nodes
  report the same stages.\<close>

definition aggregate_native_stages :: "(string \<times> stage) list list \<Rightarrow> (string \<times> stage) list res" where
  "aggregate_native_stages tables =
     bindE (raise_if (length (remdups (map (map fst) tables)) \<noteq> 1) ValueError
       ''native snapshot stage availability differs between nodes'') (\<lambda>_.
     let present = map fst (hd tables) in
     mapE (\<lambda>name. bindE (mapE (\<lambda>t. lookup t name) tables) (\<lambda>metrics.
       bindE (aggregate metrics) (\<lambda>s. Inr (name, s))))
     (filter (\<lambda>name. name \<in> set present) (NATIVE_SNAPSHOT_STAGES @ NATIVE_WAL_RECLAMATION_STAGES)))"

definition aggregate_application_stages :: "(string \<times> stage) list list \<Rightarrow> (string \<times> stage) list res" where
  "aggregate_application_stages tables =
     mapE (\<lambda>name. bindE (mapE (\<lambda>t. lookup t name) tables) (\<lambda>metrics.
       bindE (aggregate metrics) (\<lambda>s. Inr (name, s)))) APPLICATION_CHECKPOINT_STAGES"

definition inactive :: "(string \<times> stage) list \<Rightarrow> string list \<Rightarrow> string list" where
  "inactive totals names = filter (\<lambda>name. case map_of totals name of Some s \<Rightarrow> s_samples s = 0 | None \<Rightarrow> False) names"

record service_totals =
  t_native :: "(string \<times> stage) list option"
  t_application :: "(string \<times> stage) list option"
  t_encode :: "stage option"
  t_retirement :: "(string \<times> int) list option"

definition gather :: "(node_result \<Rightarrow> 'a option) \<Rightarrow> service_state \<Rightarrow> 'a list" where
  "gather f s = List.map_filter (\<lambda>(_, r). f r) (node_results s)"

definition native_totals :: "selection \<Rightarrow> service_state \<Rightarrow> ((string \<times> stage) list option \<times> service_state) res" where
  "native_totals opts s =
     (if native_stage_nodes s \<noteq> 3 then Inr (None, s)
      else case aggregate_native_stages (gather n_native s) of
        Inr totals \<Rightarrow> let missing = inactive totals NATIVE_SNAPSHOT_STAGES in
          Inr (Some totals, fail_if (require_native_stages opts \<and> missing \<noteq> [])
            (''no native snapshot stage activity observed: '' @ comma_sep missing) s)
      | Inl e \<Rightarrow> if class_of e = ValueError then Inr (None, fail (str_of e) s) else Inl e)"

definition application_totals :: "selection \<Rightarrow> service_state \<Rightarrow> ((string \<times> stage) list option \<times> service_state) res" where
  "application_totals opts s =
     (if application_stage_nodes s \<noteq> 3 then Inr (None, s)
      else bindE (aggregate_application_stages (gather n_application s)) (\<lambda>totals.
        let missing = inactive totals APPLICATION_CHECKPOINT_STAGES in
        Inr (Some totals, fail_if (require_application_stages opts \<and> missing \<noteq> [])
          (''no application checkpoint stage activity observed: '' @ comma_sep missing) s)))"

definition retirement_totals :: "selection \<Rightarrow> service_state \<Rightarrow> ((string \<times> int) list option \<times> service_state) res" where
  "retirement_totals opts s =
     (if retirement_worker_nodes s \<noteq> 3 then Inr (None, s)
      else bindE (mapE (\<lambda>name. bindE (mapE (\<lambda>t. lookup t name) (gather n_retirement s)) (\<lambda>xs. Inr (name, sum_list xs)))
          retirement_counters) (\<lambda>totals.
        let total = (\<lambda>name. case map_of totals name of Some i \<Rightarrow> i | None \<Rightarrow> 0); required = require_retired_log_worker opts in
        Inr (Some totals,
          fail_if (required \<and> total ''inline_fallback_batches'' \<noteq> 0) ''retired log prefixes fell back to owner-thread destruction''
          (fail_if (required \<and> total ''accepted_entries'' = 0) ''bounded retired-log work contained no entries''
          (fail_if (required \<and> total ''accepted_batches'' = 0) ''no retired log prefix was accepted by the bounded worker'' s)))))"

definition service_totals_of :: "selection \<Rightarrow> service_state \<Rightarrow> (service_totals \<times> service_state) res" where
  "service_totals_of opts s =
     bindE (native_totals opts s) (\<lambda>(native, s1).
     bindE (application_totals opts s1) (\<lambda>(application, s2).
     bindE (if application_encode_nodes s2 = 3 then bindE (aggregate (gather n_encode s2)) (\<lambda>m. Inr (Some m)) else Inr None) (\<lambda>encode.
     bindE (retirement_totals opts s2) (\<lambda>(retirement, s3).
     Inr (\<lparr>t_native = native, t_application = application, t_encode = encode, t_retirement = retirement\<rparr>, s3)))))"

definition receipt_schema :: "selection \<Rightarrow> service_totals \<Rightarrow> service_state \<Rightarrow> int" where
  "receipt_schema opts totals s =
     (let native = native_snapshot_stages opts; application = application_stages opts;
          has_stages = (\<lambda>names. list_all (\<lambda>name. name \<in> set (case t_native totals of Some t \<Rightarrow> map fst t | None \<Rightarrow> [])) names);
          three = (histogram_nodes s = 3 \<and> native_stage_nodes s = 3 \<and> application_stage_nodes s = 3) in
      if wal_reclamation_stages opts \<and> native \<and> application \<and> three \<and> application_encode_nodes s = 3
          \<and> has_stages (NATIVE_SNAPSHOT_KERNEL_STAGES @ NATIVE_WAL_RECLAMATION_STAGES) then 7
      else if native \<and> application \<and> three \<and> application_encode_nodes s = 3 \<and> has_stages NATIVE_SNAPSHOT_KERNEL_STAGES then 6
      else if native \<and> application \<and> three \<and> has_stages NATIVE_SNAPSHOT_KERNEL_STAGES then 5
      else if native \<and> application \<and> three then 4
      else if native \<and> histogram_nodes s = 3 \<and> native_stage_nodes s = 3 then 3
      else if histogram_nodes s = 3 then 2 else 1)"

definition stage_object :: "string \<Rightarrow> stage \<Rightarrow> pyval" where
  "stage_object bucket_key m = PDict [kv ''samples'' (PInt (s_samples m)), kv ''total_ns'' (PInt (s_total_ns m)),
     kv ''mean_ns'' (case s_mean_ns m of Some x \<Rightarrow> PFloat x | None \<Rightarrow> PNone),
     kv ''max_upper_bound_ns'' (case s_upper_ns m of Some i \<Rightarrow> PInt i | None \<Rightarrow> PNone),
     kv bucket_key (PList (map PInt (s_buckets m)))]"

definition stages_object :: "(string \<times> stage) list \<Rightarrow> pyval" where
  "stages_object t = PDict (map (\<lambda>(name, m). kv name (stage_object ''buckets_ns_log2'' m)) t)"

definition optional_kv :: "string \<Rightarrow> ('a \<Rightarrow> pyval) \<Rightarrow> 'a option \<Rightarrow> pydict" where
  "optional_kv k f v = (case v of Some x \<Rightarrow> [kv k (f x)] | None \<Rightarrow> [])"

definition node_object :: "node_result \<Rightarrow> pyval" where
  "node_object r = PDict ([kv ''compactions_since_before_status'' (PInt (n_compactions r)),
     kv ''application_installs_since_before_status'' (PInt (n_installs r)), kv ''current_snapshot_index'' (PInt (n_current r)),
     kv ''application_applied_index'' (PInt (n_applied r)), kv ''raft_commit_index'' (PInt (n_commit r)),
     kv ''max_compaction_ns'' (PInt (n_max_ns r)), kv ''latest_payload_bytes'' (PInt (n_payload r))]
     @ optional_kv ''measurement_compaction'' (stage_object ''buckets_log2'') (n_measurement r)
     @ optional_kv ''application_snapshot_encode'' (stage_object ''buckets_ns_log2'') (n_encode r)
     @ optional_kv ''native_snapshot_stages'' stages_object (n_native r)
     @ optional_kv ''application_checkpoint_stages'' stages_object (n_application r)
     @ optional_kv ''log_retirement'' by_node (n_retirement r))"

definition requirements_object :: "selection \<Rightarrow> bool \<Rightarrow> pyval" where
  "requirements_object opts require_transfer = PDict ([kv ''live_compaction'' (PBool True),
     kv ''snapshot_transfer_and_application_install'' (PBool require_transfer)]
     @ (if require_native_stages opts then [kv ''native_snapshot_stage_activity'' (PBool True)] else [])
     @ (if wal_reclamation_stages opts then [kv ''wal_reclamation_stage_observation'' (PBool True)] else [])
     @ (if require_application_stages opts then [kv ''application_checkpoint_stage_activity'' (PBool True)] else [])
     @ (if require_retired_log_worker opts then [kv ''retired_log_worker_activity'' (PBool True),
          kv ''no_inline_retirement_fallback'' (PBool True)] else []))"

definition service_receipt ::
  "selection \<Rightarrow> int \<Rightarrow> pyval \<Rightarrow> pyval \<Rightarrow> pyval \<Rightarrow> pyval \<Rightarrow> service_totals \<Rightarrow> service_state \<Rightarrow> pydict" where
  "service_receipt opts interval scenario restarted_node stopped required totals s =
     [kv ''schema'' (PInt (receipt_schema opts totals s)),
      kv ''status'' (PStr (if failures s = [] then ''passed'' else ''failed'')),
      kv ''interval_entries'' (PInt interval), kv ''scenario'' scenario, kv ''restarted_node'' restarted_node,
      kv ''stopped_application_index'' stopped, kv ''required_snapshot_index'' required,
      kv ''requirements'' (requirements_object opts (py_eq scenario (PStr ''snapshot-catchup''))),
      kv ''totals'' (PDict ([kv ''compactions_since_before_status'' (PInt (total_compactions s)),
          kv ''application_installs_since_before_status'' (PInt (total_installs s))]
        @ optional_kv ''native_snapshot_stages'' stages_object (t_native totals)
        @ optional_kv ''application_checkpoint_stages'' stages_object (t_application totals)
        @ optional_kv ''application_snapshot_encode'' (stage_object ''buckets_ns_log2'') (t_encode totals)
        @ optional_kv ''log_retirement'' by_node (t_retirement totals))),
      kv ''nodes'' (PDict (map (\<lambda>(node, r). kv node (node_object r)) (node_results s))),
      kv ''failures'' (PList (map PStr (failures s)))]"

definition service_run ::
  "selection \<Rightarrow> pyval \<Rightarrow> pyval \<Rightarrow> int \<Rightarrow> pyval \<Rightarrow> pyval \<Rightarrow> pyval \<Rightarrow> pyval \<Rightarrow> (service_totals \<times> service_state) res" where
  "service_run opts before after interval scenario restarted_node stopped required =
     bindE (nodes_of before) (\<lambda>before_nodes.
     bindE (nodes_of after) (\<lambda>after_nodes.
     bindE (foldE (node_step opts before_nodes after_nodes interval restarted_node)
       (fail_if (set (map fst before_nodes) \<noteq> three_nodes \<or> set (map fst after_nodes) \<noteq> three_nodes)
         ''snapshot activity requires status from all three nodes'' initial_state) [''1'', ''2'', ''3'']) (\<lambda>s.
     service_totals_of opts (check_activity scenario restarted_node stopped required (check_availability opts s)))))"

definition service_activity ::
  "selection \<Rightarrow> pyval \<Rightarrow> pyval \<Rightarrow> int \<Rightarrow> pyval \<Rightarrow> pyval \<Rightarrow> pyval \<Rightarrow> pyval \<Rightarrow> pydict res" where
  "service_activity opts before after interval scenario restarted_node stopped required =
     bindE (service_run opts before after interval scenario restarted_node stopped required) (\<lambda>(totals, s).
     Inr (service_receipt opts interval scenario restarted_node stopped required totals s))"

section \<open>Consistent stages\<close>

text \<open>A reported stage: 64 nonnegative buckets that add up to the samples, and a mean exactly
  when there is a sample.\<close>

definition good_stage :: "stage \<Rightarrow> bool" where
  "good_stage m \<longleftrightarrow> length (s_buckets m) = 64 \<and> list_all (\<lambda>v. 0 \<le> v) (s_buckets m) \<and>
     sum_list (s_buckets m) = s_samples m \<and> (s_mean_ns m = None \<longleftrightarrow> s_samples m = 0) \<and>
     s_upper_ns m = upper_bound_ns (s_buckets m)"

definition good_metric :: "metric \<Rightarrow> bool" where
  "good_metric m \<longleftrightarrow> length (m_buckets m) = 64 \<and> list_all (\<lambda>v. 0 \<le> v) (m_buckets m) \<and> sum_list (m_buckets m) = m_samples m"

lemma summarize_good:
  assumes "summarize samples ns buckets = Inr m" "length buckets = 64" "list_all (\<lambda>v. 0 \<le> v) buckets" "sum_list buckets = samples"
  shows "good_stage m \<and> s_samples m = samples \<and> s_total_ns m = ns"
  using assms by (auto simp: summarize_def good_stage_def split: if_splits)

lemma nonneg_ints_Some: "nonneg_ints v = Some xs \<Longrightarrow> list_all (\<lambda>v. 0 \<le> v) xs"
  by (cases v) (force simp: nonneg_ints_def list_all_iff is_nonneg_iff split: if_splits)+

lemma native_histogram_good:
  "native_histogram v calls node name = Inr xs \<Longrightarrow> length xs = 64 \<and> list_all (\<lambda>v. 0 \<le> v) xs \<and> sum_list xs = calls"
  by (auto simp: native_histogram_def list_all_iff sum_list_replicate dest!: nonneg_ints_Some split: option.splits if_splits)

lemma service_histogram_good:
  "service_histogram v completed node boundary = Inr xs \<Longrightarrow> length xs = 64 \<and> list_all (\<lambda>v. 0 \<le> v) xs \<and> sum_list xs = completed"
  by (auto simp: service_histogram_def dest!: nonneg_ints_Some split: option.splits if_splits)

lemma read_native_good: "read_native d node name = Inr m \<Longrightarrow> good_metric m"
  by (auto simp: read_native_def Let_def good_metric_def dest!: native_histogram_good)

lemma read_metric_good: "read_metric d node name kind = Inr m \<Longrightarrow> good_metric m"
  by (auto simp: read_metric_def Let_def good_metric_def dest!: native_histogram_good)

lemma metric_of_good: "metric_of v node name kind = Inr (Some m) \<Longrightarrow> good_metric m"
  by (cases v) (auto simp: metric_of_def dest!: read_metric_good split: if_splits)

lemma application_metric_good:
  assumes "application_metric info name node = Inr m" shows "good_metric m"
proof -
  obtain v r where "metric_of v node name ''application'' = Inr r"
    "m = (case r of Some m \<Rightarrow> m | None \<Rightarrow> \<lparr>m_samples = 0, m_total = 0, m_buckets = replicate 64 0\<rparr>)"
    using assms by (auto simp: application_metric_def)
  then show ?thesis
    by (cases r) (auto simp: good_metric_def list_all_iff sum_list_replicate
        dest: metric_of_good [unfolded good_metric_def])
qed

lemma owner_metric_good: "owner_metric info name node = Inr (Some m) \<Longrightarrow> good_metric m"
  by (auto simp: owner_metric_def dest!: metric_of_good split: if_splits)

lemma metric_delta_good:
  assumes "metric_delta restarted a b r d = Inr (samples, ns, buckets)" "good_metric a" "good_metric b"
  shows "length buckets = 64 \<and> list_all (\<lambda>v. 0 \<le> v) buckets \<and> sum_list buckets = samples"
proof -
  have b: "buckets = (if restarted then m_buckets b else map (\<lambda>(left, right). right - left) (zip (m_buckets a) (m_buckets b)))"
    "\<not> list_ex (\<lambda>v. v < 0) buckets" "sum_list buckets = samples"
    using assms(1) unfolding metric_delta_def Let_def bindE_eq_Inr raise_if_eq_Inr by auto
  have "length buckets = 64" unfolding b(1) using assms(2,3) by (simp add: good_metric_def)
  moreover have "list_all (\<lambda>v. 0 \<le> v) buckets" using b(2) by (auto simp: list_ex_iff list_all_iff not_less)
  ultimately show ?thesis using b(3) by blast
qed

lemma delta_stage_good:
  assumes "metric_delta restarted a b r d = Inr (samples, ns, buckets)" "good_metric a" "good_metric b"
    "summarize samples ns buckets = Inr m"
  shows "good_stage m"
  using metric_delta_good [OF assms(1-3)] summarize_good [OF assms(4)] by blast

lemma native_stage_good: "native_stage old new restarted node name = Inr (n, m) \<Longrightarrow> good_stage m"
  unfolding native_stage_def bindE_eq_Inr by (auto dest!: read_native_good intro: delta_stage_good)

lemma native_snapshot_delta_good:
  "native_snapshot_delta before_info after_info restarted node wal = Inr (Some t) \<Longrightarrow> list_all (good_stage \<circ> snd) t"
  by (auto simp: native_snapshot_delta_def list_all_iff dest!: mapE_mem native_stage_good split: if_splits option.splits)

lemma application_checkpoint_delta_good:
  "application_checkpoint_delta before_info after_info restarted node = Inr t \<Longrightarrow> list_all (good_stage \<circ> snd) t"
  unfolding application_checkpoint_delta_def list_all_iff
  by (auto dest!: mapE_mem application_metric_good intro: delta_stage_good)

lemma encode_delta_good:
  "application_snapshot_encode_delta before_info after_info restarted node completed = Inr (Some m) \<Longrightarrow> good_stage m"
  by (auto simp: application_snapshot_encode_delta_def dest!: owner_metric_good intro: delta_stage_good split: option.splits)

text \<open>Adding up stages of consistent nodes gives a consistent stage.\<close>

lemma sum_transpose:
  "list_all (\<lambda>xs. length xs = n) xss \<Longrightarrow>
   sum_list (map (\<lambda>i. sum_list (map (\<lambda>xs. xs ! i) xss)) [0..<n]) = sum_list (map sum_list (xss :: int list list))"
proof (induction xss)
  case (Cons xs xss)
  have "sum_list (map (\<lambda>i. xs ! i) [0..<n]) = sum_list xs" using Cons.prems map_nth [of xs] by auto
  then show ?case using Cons by (simp add: sum_list_addf)
qed simp

lemma aggregate_good:
  assumes "aggregate metrics = Inr m" "list_all good_stage metrics"
  shows "good_stage m \<and> s_samples m = sum_list (map s_samples metrics)"
proof -
  define N :: nat where "N = 64"
  let ?buckets = "map (\<lambda>index. sum_list (map (\<lambda>m. s_buckets m ! index) metrics)) [0..<N]"
  have "sum_list ?buckets = sum_list (map sum_list (map s_buckets metrics))"
    using sum_transpose [of N "map s_buckets metrics"] assms(2) by (simp add: list_all_iff good_stage_def comp_def N_def)
  also have "map sum_list (map s_buckets metrics) = map s_samples metrics"
    using assms(2) by (auto simp: list_all_iff good_stage_def)
  finally have "sum_list ?buckets = sum_list (map s_samples metrics)" .
  moreover have "list_all (\<lambda>v. 0 \<le> v) ?buckets"
    using assms(2) by (auto simp: list_all_iff good_stage_def N_def intro!: sum_list_nonneg)
  ultimately show ?thesis
    using assms(1) summarize_good [of "sum_list (map s_samples metrics)" _ ?buckets m] by (simp add: aggregate_def Let_def N_def)
qed

definition good_node :: "node_result \<Rightarrow> bool" where
  "good_node r \<longleftrightarrow> pred_option good_stage (n_measurement r) \<and> pred_option good_stage (n_encode r) \<and>
     pred_option (list_all (good_stage \<circ> snd)) (n_native r) \<and> pred_option (list_all (good_stage \<circ> snd)) (n_application r) \<and>
     (\<forall>m. n_measurement r = Some m \<longrightarrow> s_samples m = n_compactions r)"

definition good_state :: "service_state \<Rightarrow> bool" where
  "good_state s \<longleftrightarrow> list_all (good_node \<circ> snd) (node_results s)"

lemma good_state_fail [simp]: "good_state (fail m s) = good_state s" "good_state (fail_if b m s) = good_state s"
  by (simp_all add: good_state_def fail_def fail_if_def)

lemma good_state_counters [simp]:
  "good_state (s\<lparr>histogram_nodes := n\<rparr>) = good_state s" "good_state (s\<lparr>native_stage_nodes := n\<rparr>) = good_state s"
  "good_state (s\<lparr>application_stage_nodes := n\<rparr>) = good_state s" "good_state (s\<lparr>application_encode_nodes := n\<rparr>) = good_state s"
  "good_state (s\<lparr>retirement_worker_nodes := n\<rparr>) = good_state s"
  by (simp_all add: good_state_def)

lemma good_state_set_node:
  "good_state s \<Longrightarrow> (\<And>r. good_node r \<Longrightarrow> good_node (f r)) \<Longrightarrow> good_state (set_node node f s)"
  by (fastforce simp: good_state_def set_node_def list_all_iff)

lemma check_counters_keeps: "keeps good_state (check_counters old new interval c restarted node)"
  unfolding check_counters_def by (intro keeps_bind_lift keeps_bindA keeps_modifyA) simp_all

lemma measure_keeps: "keeps good_state (measure_compaction old new c restarted node)"
  unfolding measure_compaction_def Let_def
  by (auto intro!: keeps_bind_lift keeps_bindA keeps_modifyA keeps_liftA)

lemma measure_good:
  assumes "measure_compaction old new c restarted node s = (Inr (Some m), t)"
  shows "good_stage m \<and> s_samples m = since restarted (c_old_completed c) (c_new_completed c)"
proof -
  obtain ob nb a b where h: "service_histogram ob (c_old_completed c) node ''before'' = Inr a"
    "service_histogram nb (c_new_completed c) node ''after'' = Inr b"
    and buckets: "\<not> list_ex (\<lambda>v. v < 0) (if restarted then b else map (\<lambda>(left, right). right - left) (zip a b))"
      "sum_list (if restarted then b else map (\<lambda>(left, right). right - left) (zip a b)) = since restarted (c_old_completed c) (c_new_completed c)"
    and m: "summarize (since restarted (c_old_completed c) (c_new_completed c)) (since restarted (c_old_total c) (c_new_total c))
      (if restarted then b else map (\<lambda>(left, right). right - left) (zip a b)) = Inr m"
    using assms unfolding measure_compaction_def Let_def
    by (auto elim!: bindA_InrE split: if_splits)
  have "length (if restarted then b else map (\<lambda>(left, right). right - left) (zip a b)) = 64"
    using service_histogram_good [OF h(1)] service_histogram_good [OF h(2)] by simp
  moreover have "list_all (\<lambda>v. 0 \<le> v) (if restarted then b else map (\<lambda>(left, right). right - left) (zip a b))"
    using buckets(1) unfolding list_all_iff list_ex_iff by force
  ultimately show ?thesis using summarize_good [OF m] buckets(2) by blast
qed

lemma observe_keeps: "keeps good_state (observe_stages opts before_info after_info restarted node completed)"
proof -
  have encode: "good_state (set_node node (\<lambda>r. r\<lparr>n_encode := encode\<rparr>) (s\<lparr>application_encode_nodes := n\<rparr>))"
    if "application_snapshot_encode_delta before_info after_info restarted node completed = Inr encode" "good_state s" for encode s n
    using that encode_delta_good by (intro good_state_set_node) (auto simp: good_node_def pred_option_def)
  have native: "good_state (set_node node (\<lambda>r. r\<lparr>n_native := native\<rparr>) (s\<lparr>native_stage_nodes := n\<rparr>))"
    if "native_snapshot_delta before_info after_info restarted node (wal_reclamation_stages opts) = Inr native" "good_state s" for native s n
    using that native_snapshot_delta_good by (intro good_state_set_node) (auto simp: good_node_def pred_option_def)
  have application: "good_state (set_node node (\<lambda>r. r\<lparr>n_application := Some t\<rparr>) (s\<lparr>application_stage_nodes := n\<rparr>))"
    if "application_checkpoint_delta before_info after_info restarted node = Inr t" "good_state s" for t s n
    using that application_checkpoint_delta_good by (intro good_state_set_node) (auto simp: good_node_def)
  have retirement: "good_state (set_node node (\<lambda>r. r\<lparr>n_retirement := t\<rparr>) (s\<lparr>retirement_worker_nodes := n\<rparr>))"
    if "good_state s" for t s n
    using that by (intro good_state_set_node) (auto simp: good_node_def)
  show ?thesis unfolding observe_stages_def
    by (intro keeps_bind_lift keeps_bindA keeps_whenA keeps_modifyA encode native application retirement)
qed

lemma node_block_keeps: "keeps good_state (node_block opts before_nodes after_nodes interval restarted_node node)"
proof -
  have append: "good_state (s\<lparr>node_results := node_results s @ [(node, new_result c restarted m)]\<rparr>)"
    if "good_state s" "pred_option (\<lambda>m. good_stage m \<and> s_samples m = since restarted (c_old_completed c) (c_new_completed c)) m" for s c restarted m
    using that by (auto simp: good_state_def good_node_def new_result_def pred_option_def)
  have tail: "keeps good_state (bindA (measure_compaction old new c restarted node) (\<lambda>measurement.
      bindA (modifyA (fail_if b message)) (\<lambda>_.
      bindA (modifyA (\<lambda>s. s\<lparr>node_results := node_results s @ [(node, new_result c restarted measurement)]\<rparr>)) (\<lambda>_.
      observe_stages opts bi ai restarted node completed))))" for old new c restarted b message bi ai completed
    unfolding keeps_def
  proof (intro allI impI)
    fix s assume s: "good_state s"
    obtain r t where mt: "measure_compaction old new c restarted node s = (r, t)" by fastforce
    have t: "good_state t" using measure_keeps s mt unfolding keeps_def by (metis snd_conv)
    show "good_state (snd (bindA (measure_compaction old new c restarted node) (\<lambda>measurement.
      bindA (modifyA (fail_if b message)) (\<lambda>_.
      bindA (modifyA (\<lambda>s. s\<lparr>node_results := node_results s @ [(node, new_result c restarted measurement)]\<rparr>)) (\<lambda>_.
      observe_stages opts bi ai restarted node completed))) s))"
    proof (cases r)
      case (Inl e)
      then show ?thesis using mt t by (simp add: bindA_def)
    next
      case (Inr m)
      have "pred_option (\<lambda>m. good_stage m \<and> s_samples m = since restarted (c_old_completed c) (c_new_completed c)) m"
        using measure_good mt Inr by (cases m) auto
      then show ?thesis using mt Inr t append [of "fail_if b message t" restarted c m] observe_keeps
        by (simp add: bindA_def modifyA_def keeps_def)
    qed
  qed
  show ?thesis unfolding node_block_def Let_def
    by (intro keeps_bind_lift tail keeps_bindA check_counters_keeps)
qed

lemma service_loop_good:
  assumes "foldE (node_step opts before_nodes after_nodes interval restarted_node) s nodes = Inr t" "good_state s"
  shows "good_state t"
  using assms by (rule foldE_preserve) (auto simp: node_step_def elim!: tryA_keeps intro: node_block_keeps)

definition good_totals :: "service_totals \<Rightarrow> bool" where
  "good_totals t \<longleftrightarrow> pred_option (list_all (good_stage \<circ> snd)) (t_native t) \<and>
     pred_option (list_all (good_stage \<circ> snd)) (t_application t) \<and> pred_option good_stage (t_encode t)"

lemma gather_mem: "x \<in> set (gather f s) \<Longrightarrow> \<exists>r\<in>snd ` set (node_results s). f r = Some x"
  by (force simp: gather_def List.map_filter_def split: option.splits)

lemma aggregate_table_good:
  assumes "mapE (\<lambda>name. bindE (mapE (\<lambda>t. lookup t name) tables) (\<lambda>metrics. bindE (aggregate metrics) (\<lambda>s. Inr (name, s)))) names = Inr out"
    "\<And>t. t \<in> set tables \<Longrightarrow> list_all (good_stage \<circ> snd) t"
  shows "list_all (good_stage \<circ> snd) out"
proof -
  have "good_stage (snd x)" if x: "x \<in> set out" for x
  proof -
    obtain name metrics s where m: "mapE (\<lambda>t. lookup t name) tables = Inr metrics" "aggregate metrics = Inr s" "x = (name, s)"
      using mapE_mem [OF assms(1) x] by auto
    have "good_stage y" if "y \<in> set metrics" for y
      using mapE_mem [OF m(1) that] assms(2) by (force simp: list_all_iff dest: map_of_SomeD)
    then show ?thesis using aggregate_good [OF m(2)] m(3) by (auto simp: list_all_iff)
  qed
  then show ?thesis by (simp add: list_all_iff)
qed

lemma aggregate_native_stages_good:
  "aggregate_native_stages tables = Inr out \<Longrightarrow> (\<And>t. t \<in> set tables \<Longrightarrow> list_all (good_stage \<circ> snd) t) \<Longrightarrow>
   list_all (good_stage \<circ> snd) out"
  unfolding aggregate_native_stages_def bindE_eq_Inr Let_def by (elim exE conjE aggregate_table_good) blast

lemma aggregate_application_stages_good:
  "aggregate_application_stages tables = Inr out \<Longrightarrow> (\<And>t. t \<in> set tables \<Longrightarrow> list_all (good_stage \<circ> snd) t) \<Longrightarrow>
   list_all (good_stage \<circ> snd) out"
  unfolding aggregate_application_stages_def by (elim aggregate_table_good) blast

lemma gather_good:
  "good_state w \<Longrightarrow> x \<in> set (gather n_native w) \<Longrightarrow> list_all (good_stage \<circ> snd) x"
  "good_state w \<Longrightarrow> x \<in> set (gather n_application w) \<Longrightarrow> list_all (good_stage \<circ> snd) x"
  "good_state w \<Longrightarrow> m \<in> set (gather n_encode w) \<Longrightarrow> good_stage m"
  using gather_mem [of x n_native w] gather_mem [of x n_application w] gather_mem [of m n_encode w]
  by (fastforce simp: good_state_def good_node_def list_all_iff)+

lemma native_totals_good:
  assumes "native_totals opts u = Inr (native, s)" "good_state u"
  shows "good_state s \<and> pred_option (list_all (good_stage \<circ> snd)) native"
proof (cases "native_stage_nodes u \<noteq> 3")
  case True
  then show ?thesis using assms by (auto simp: native_totals_def)
next
  case False
  show ?thesis
  proof (cases "aggregate_native_stages (gather n_native u)")
    case (Inl e)
    then show ?thesis using assms False by (auto simp: native_totals_def split: if_splits)
  next
    case (Inr out)
    have "list_all (good_stage \<circ> snd) out" by (rule aggregate_native_stages_good [OF Inr gather_good(1) [OF assms(2)]])
    moreover have "native = Some out" "good_state s" using assms Inr False by (auto simp: native_totals_def Let_def)
    ultimately show ?thesis by simp
  qed
qed

lemma application_totals_good:
  assumes "application_totals opts u = Inr (application, s)" "good_state u"
  shows "good_state s \<and> pred_option (list_all (good_stage \<circ> snd)) application"
proof (cases "application_stage_nodes u \<noteq> 3")
  case True
  then show ?thesis using assms by (auto simp: application_totals_def)
next
  case False
  then obtain out where out: "aggregate_application_stages (gather n_application u) = Inr out" "application = Some out" "good_state s"
    using assms by (auto simp: application_totals_def Let_def)
  have "list_all (good_stage \<circ> snd) out" by (rule aggregate_application_stages_good [OF out(1) gather_good(2) [OF assms(2)]])
  then show ?thesis using out by simp
qed

lemma service_run_good:
  assumes "service_run opts before after interval scenario restarted_node stopped required = Inr (totals, s)"
  shows "good_state s \<and> good_totals totals"
proof -
  obtain B A t where loop: "foldE (node_step opts B A interval restarted_node)
       (fail_if (set (map fst B) \<noteq> three_nodes \<or> set (map fst A) \<noteq> three_nodes)
         ''snapshot activity requires status from all three nodes'' initial_state) [''1'', ''2'', ''3''] = Inr t"
    and totals: "service_totals_of opts (check_activity scenario restarted_node stopped required (check_availability opts t)) = Inr (totals, s)"
    using assms unfolding service_run_def bindE_eq_Inr by blast
  let ?u = "check_activity scenario restarted_node stopped required (check_availability opts t)"
  have "good_state initial_state" by (simp add: good_state_def initial_state_def)
  then have "good_state t" using service_loop_good [OF loop] by simp
  then have u: "good_state ?u"
    by (simp add: check_activity_def check_availability_def check_transfer_def Let_def split: option.split)
  obtain native s1 application s2 encode where
    native: "native_totals opts ?u = Inr (native, s1)" and application: "application_totals opts s1 = Inr (application, s2)"
    and encode: "(if application_encode_nodes s2 = 3 then bindE (aggregate (gather n_encode s2)) (\<lambda>m. Inr (Some m)) else Inr None) = Inr encode"
    and retirement: "retirement_totals opts s2 = Inr (t_retirement totals, s)"
    and t: "totals = \<lparr>t_native = native, t_application = application, t_encode = encode, t_retirement = t_retirement totals\<rparr>"
    using totals unfolding service_totals_of_def bindE_eq_Inr by force
  note 1 = native_totals_good [OF native u]
  note 2 = application_totals_good [OF application conjunct1 [OF 1]]
  then have "list_all good_stage (gather n_encode s2)" using gather_good(3) by (auto simp: list_all_iff)
  then have "pred_option good_stage encode" using encode aggregate_good by (auto split: if_splits)
  moreover have "good_state s" using retirement 2 by (auto simp: retirement_totals_def Let_def split: if_splits)
  ultimately show ?thesis using 1 2 by (subst t) (simp add: good_totals_def)
qed

section \<open>Passed receipts\<close>

lemma failures_simps [simp]:
  "failures (fail m s) = failures s @ [m]" "failures (fail_if b m s) = failures s @ (if b then [m] else [])"
  "failures (set_node node f s) = failures s"
  by (simp_all add: fail_def fail_if_def set_node_def)

text \<open>The results without their optional observations.\<close>

definition core :: "node_result \<Rightarrow> int \<times> int \<times> int \<times> int" where
  "core r = (n_compactions r, n_installs r, n_current r, n_applied r)"

definition cores :: "service_state \<Rightarrow> (string \<times> int \<times> int \<times> int \<times> int) list" where
  "cores s = map (map_prod id core) (node_results s)"

lemma cores_simps [simp]: "cores (fail m s) = cores s" "cores (fail_if b m s) = cores s"
  by (simp_all add: cores_def fail_def fail_if_def)

lemma cores_set_node: "(\<And>r. core (f r) = core r) \<Longrightarrow> cores (set_node node f s) = cores s"
  by (auto simp: cores_def set_node_def)

lemma observe_cores: "keeps (\<lambda>s. cores s = X) (observe_stages opts bi ai restarted node completed)"
  unfolding observe_stages_def
  by (intro keeps_bind_lift keeps_bindA keeps_whenA keeps_modifyA)
     (subst cores_set_node; simp add: core_def cores_def)+

lemma observe_failures: "keeps (\<lambda>s. failures s = X) (observe_stages opts bi ai restarted node completed)"
  unfolding observe_stages_def
  by (intro keeps_bind_lift keeps_bindA keeps_whenA keeps_modifyA) simp_all

lemma bind_lift_InrE:
  assumes "bindA (liftA r) f s = (Inr x, t)" obtains y where "r = Inr y" "f y s = (Inr x, t)"
  using assms by (auto elim: bindA_InrE)

lemma bind_modify_InrE:
  assumes "bindA (modifyA g) f s = (Inr x, t)" obtains "f () (g s) = (Inr x, t)"
  using assms by (auto elim: bindA_InrE)

lemma keeps_result: "keeps I m \<Longrightarrow> m s = (x, t) \<Longrightarrow> I s \<Longrightarrow> I t"
  by (metis keeps_def snd_conv)

lemma check_counters_passed:
  assumes "check_counters old new interval c restarted node s = (Inr (), t)" "failures t = []"
  shows "failures s = []" "cores t = cores s"
    "\<exists>i j. item old ''interval_entries'' = Inr i \<and> item new ''interval_entries'' = Inr j \<and> py_eq i (PInt interval) \<and> py_eq j (PInt interval)"
    "\<not> restarted \<Longrightarrow> c_old_completed c \<le> c_new_completed c \<and> c_old_installs c \<le> c_new_installs c \<and> c_old_total c \<le> c_new_total c"
    "c_current c \<le> c_applied c \<and> c_applied c \<le> c_commit c"
  using assms unfolding check_counters_def by (auto elim!: bindA_InrE split: if_splits)

lemma measure_passed:
  assumes "measure_compaction old new c restarted node s = (Inr m, t)" "failures t = []"
  shows "failures s = []" "cores t = cores s"
  using assms unfolding measure_compaction_def Let_def
  by (auto elim!: bindA_InrE split: if_splits simp: cores_def)

text \<open>What the raw statuses of one node say when its block recorded no failure.\<close>

definition node_ok :: "(string \<times> pyval) list \<Rightarrow> (string \<times> pyval) list \<Rightarrow> int \<Rightarrow> pyval \<Rightarrow> string \<Rightarrow> node_counters \<Rightarrow> bool" where
  "node_ok B A interval restarted_node node c \<longleftrightarrow>
     (\<exists>before_info after_info old new.
       bindE (lookup B node) (\<lambda>n. item n ''info'') = Inr before_info \<and> bindE (lookup A node) (\<lambda>n. item n ''info'') = Inr after_info \<and>
       item before_info ''snapshot_compaction'' = Inr old \<and> item after_info ''snapshot_compaction'' = Inr new \<and>
       read_counters before_info after_info old new = Inr c \<and>
       (\<exists>i j. item old ''interval_entries'' = Inr i \<and> item new ''interval_entries'' = Inr j \<and>
         py_eq i (PInt interval) \<and> py_eq j (PInt interval))) \<and>
     (\<not> is_restarted restarted_node node \<longrightarrow> c_old_completed c \<le> c_new_completed c \<and> c_old_installs c \<le> c_new_installs c
       \<and> c_old_total c \<le> c_new_total c) \<and>
     c_current c \<le> c_applied c \<and> c_applied c \<le> c_commit c"

definition core_of :: "node_counters \<Rightarrow> bool \<Rightarrow> int \<times> int \<times> int \<times> int" where
  "core_of c restarted = (since restarted (c_old_completed c) (c_new_completed c),
     since restarted (c_old_installs c) (c_new_installs c), c_current c, c_applied c)"

lemma node_block_passed:
  assumes "node_block opts B A interval restarted_node node s = (Inr (), t)" "failures t = []"
  shows "failures s = []" "\<exists>c. node_ok B A interval restarted_node node c \<and>
    cores t = cores s @ [(node, core_of c (is_restarted restarted_node node))]"
proof -
  let ?r = "is_restarted restarted_node node"
  obtain bi ai old new c s1 s2 m s3 where raw: "bindE (lookup B node) (\<lambda>n. item n ''info'') = Inr bi"
      "bindE (lookup A node) (\<lambda>n. item n ''info'') = Inr ai"
      "item bi ''snapshot_compaction'' = Inr old" "item ai ''snapshot_compaction'' = Inr new" "read_counters bi ai old new = Inr c"
    and check: "check_counters old new interval c ?r node s = (Inr (), s1)"
    and measure: "measure_compaction old new c ?r node s1 = (Inr m, s2)"
    and s3: "s3 = fail_if (since ?r (c_old_completed c) (c_new_completed c) \<noteq> 0 \<and> (c_max_ns c = 0 \<or> c_payload c = 0))
       (''node '' @ node @ '' completed snapshot lacks timing or payload evidence'') s2"
    and observe: "observe_stages opts bi ai ?r node (since ?r (c_old_completed c) (c_new_completed c))
      (s3\<lparr>node_results := node_results s3 @ [(node, new_result c ?r m)]\<rparr>) = (Inr (), t)"
    using assms(1) unfolding node_block_def Let_def
    by (elim bind_lift_InrE, elim bindA_InrE [of "check_counters _ _ _ _ _ _"] bindA_InrE [of "measure_compaction _ _ _ _ _"],
        elim bind_modify_InrE) (rule that, simp_all)
  let ?s4 = "s3\<lparr>node_results := node_results s3 @ [(node, new_result c ?r m)]\<rparr>"
  have f4: "failures ?s4 = []"
    using keeps_result [OF observe_failures [of "failures ?s4"] observe] assms(2) by simp
  then have f2: "failures s2 = []" by (simp add: s3)
  note m = measure_passed [OF measure f2]
  note ch = check_counters_passed [OF check m(1)]
  show "failures s = []" by (rule ch(1))
  have "cores t = cores ?s4" using keeps_result [OF observe_cores [of "cores ?s4"] observe] by simp
  also have "\<dots> = cores s @ [(node, core_of c ?r)]"
    using m(2) ch(2) by (simp add: cores_def s3 fail_if_def fail_def core_def core_of_def new_result_def)
  finally show "\<exists>c. node_ok B A interval restarted_node node c \<and> cores t = cores s @ [(node, core_of c ?r)]"
    using raw ch(3-5) unfolding node_ok_def by blast
qed

lemma node_step_passed:
  assumes "node_step opts B A interval restarted_node s node = Inr t" "failures t = []"
  shows "failures s = []" "\<exists>c. node_ok B A interval restarted_node node c \<and>
    cores t = cores s @ [(node, core_of c (is_restarted restarted_node node))]"
proof -
  obtain r s' where block: "node_block opts B A interval restarted_node node s = (r, s')" by fastforce
  have "r = Inr () \<and> s' = t"
    using assms block by (cases r) (auto simp: node_step_def tryA_def split: if_splits)
  then have run: "node_block opts B A interval restarted_node node s = (Inr (), t)" using block by simp
  show "failures s = []" "\<exists>c. node_ok B A interval restarted_node node c \<and>
    cores t = cores s @ [(node, core_of c (is_restarted restarted_node node))]"
    by (rule node_block_passed [OF run assms(2)])+
qed

lemma service_loop_passed:
  assumes "foldE (node_step opts B A interval restarted_node) s nodes = Inr t" "failures t = []"
  shows "failures s = [] \<and> (\<exists>cs. list_all2 (node_ok B A interval restarted_node) nodes cs \<and>
    cores t = cores s @ map (\<lambda>(node, c). (node, core_of c (is_restarted restarted_node node))) (zip nodes cs))"
  using assms
proof (induction nodes arbitrary: s)
  case (Cons node nodes)
  then obtain u where u: "node_step opts B A interval restarted_node s node = Inr u"
    "foldE (node_step opts B A interval restarted_node) u nodes = Inr t" by auto
  with Cons obtain cs where cs: "failures u = []" "list_all2 (node_ok B A interval restarted_node) nodes cs"
    "cores t = cores u @ map (\<lambda>(node, c). (node, core_of c (is_restarted restarted_node node))) (zip nodes cs)" by blast
  from node_step_passed [OF u(1) cs(1)] obtain c where "failures s = []" "node_ok B A interval restarted_node node c"
    "cores u = cores s @ [(node, core_of c (is_restarted restarted_node node))]" by blast
  with cs show ?case by (intro conjI exI [of _ "c # cs"]) simp_all
qed simp

text \<open>The steps after the loop only add failures and keep the results.\<close>

lemma late_checks:
  "failures (check_activity scenario rn stopped required (check_availability opts t)) = [] \<Longrightarrow>
   failures t = [] \<and> total_compactions t \<noteq> 0 \<and>
   (py_eq scenario (PStr ''snapshot-catchup'') \<longrightarrow> total_installs t \<noteq> 0 \<and>
     (\<exists>a b r. stopped = PInt a \<and> required = PInt b \<and> a < b \<and> map_of (node_results t) (py_str rn) = Some r \<and>
       b \<le> n_current r \<and> b \<le> n_applied r))"
proof -
  assume a: "failures (check_activity scenario rn stopped required (check_availability opts t)) = []"
  have keep: "node_results (fail_if b m s) = node_results s" "node_results (fail m s) = node_results s" for b m s
    by (simp_all add: fail_if_def fail_def)
  have avail: "node_results (check_availability opts t) = node_results t" by (simp add: check_availability_def keep)
  have fa: "failures (check_availability opts t) = [] \<Longrightarrow> failures t = []"
    by (simp add: check_availability_def split: if_splits)
  show ?thesis
    using a fa unfolding check_activity_def check_transfer_def Let_def total_compactions_def total_installs_def
    by (auto simp: keep avail split: if_splits option.splits pyval.splits prod.splits)
qed

lemma native_totals_failures: "native_totals opts u = Inr (x, s) \<Longrightarrow> failures s = [] \<Longrightarrow> failures u = []"
  by (cases "aggregate_native_stages (gather n_native u)") (auto simp: native_totals_def Let_def split: if_splits)

lemma application_totals_failures: "application_totals opts u = Inr (x, s) \<Longrightarrow> failures s = [] \<Longrightarrow> failures u = []"
  by (auto simp: application_totals_def Let_def split: if_splits)

lemma retirement_totals_failures: "retirement_totals opts u = Inr (x, s) \<Longrightarrow> failures s = [] \<Longrightarrow> failures u = []"
  unfolding retirement_totals_def Let_def bindE_eq_Inr by (auto simp del: mapE.simps split: if_splits)

lemma totals_failures:
  assumes "service_totals_of opts u = Inr (totals, s)" "failures s = []"
  shows "failures u = []"
proof -
  obtain native s1 application s2 retirement where "native_totals opts u = Inr (native, s1)"
    "application_totals opts s1 = Inr (application, s2)" "retirement_totals opts s2 = Inr (retirement, s)"
    using assms(1) unfolding service_totals_of_def bindE_eq_Inr by force
  then show ?thesis
    using assms(2) native_totals_failures application_totals_failures retirement_totals_failures by metis
qed

section \<open>Properties\<close>

definition sample_options :: selection where
  "sample_options = \<lparr>native_snapshot_stages = False, require_native_stages = False, wal_reclamation_stages = False,
     application_stages = False, require_application_stages = False, retired_log_worker = False, require_retired_log_worker = False\<rparr>"

definition sample_service :: "int \<Rightarrow> pyval" where
  "sample_service n = PDict (map (\<lambda>node. kv node (PDict [kv ''info'' (PDict [
     kv ''application'' (PDict [kv ''applied_index'' (PInt (90 * n))]), kv ''engine'' (PDict [kv ''commit_index'' (PInt (100 * n))]),
     kv ''snapshot_compaction'' (PDict [kv ''completed'' (PInt n), kv ''application_installs'' (PInt 0), kv ''total_ns'' (PInt (1000 * n)),
       kv ''current_index'' (PInt (64 * n)), kv ''max_ns'' (PInt 700), kv ''latest_payload_bytes'' (PInt 4096),
       kv ''interval_entries'' (PInt 64)])])])) [''1'', ''2'', ''3''])"

definition run_sample :: "pydict res" where
  "run_sample = service_activity sample_options (sample_service 1) (sample_service 3) 64 (PStr ''durable-kv'') PNone PNone PNone"

lemma run_sample_passed: "\<exists>r. run_sample = Inr r \<and> item (PDict r) ''status'' = Inr (PStr ''passed'')"
proof -
  have "bindE run_sample (\<lambda>r. item (PDict r) ''status'') = Inr (PStr ''passed'')" by code_simp
  then show ?thesis by auto
qed

text \<open>C19: every stage in a receipt is consistent, whether the receipt passed or not: its 64
  bucket counts are nonnegative and add up to its samples, and it has a mean exactly when it
  has samples. This holds for the stages of each node and for the totals.\<close>

theorem receipt_stages_consistent:
  assumes "service_activity opts before after interval scenario restarted_node stopped required = Inr r"
  shows "\<exists>totals s. service_run opts before after interval scenario restarted_node stopped required = Inr (totals, s) \<and>
    r = service_receipt opts interval scenario restarted_node stopped required totals s \<and> good_state s \<and> good_totals totals"
  using assms service_run_good by (fastforce simp: service_activity_def)

text \<open>Statuses with a compaction histogram, the timing of snapshot encodes and the native stages.\<close>

definition timed_metric :: "string list \<Rightarrow> int \<Rightarrow> pyval" where
  "timed_metric names n = PDict [kv (names ! 0) (PInt n), kv (names ! 1) (PInt (300 * n)), kv (names ! 2) (PInt 200), kv (names ! 3) (PList [PInt 0, PInt n])]"

definition staged_service :: "int \<Rightarrow> pyval" where
  "staged_service n = PDict (map (\<lambda>node. kv node (PDict [kv ''info'' (PDict [
     kv ''application'' (PDict [kv ''applied_index'' (PInt (90 * n))]),
     kv ''engine'' (PDict [kv ''commit_index'' (PInt (100 * n)), kv ''persistence_diagnostics'' (PDict (map (\<lambda>name.
       kv name (timed_metric [''calls'', ''total_ns'', ''max_ns'', ''buckets_ns_log2''] n)) NATIVE_SNAPSHOT_BASE_STAGES))]),
     kv ''diagnostics'' (PDict [kv ''metrics'' (PDict [kv ''application_snapshot_encode_ns'' (timed_metric metric_keys n)])]),
     kv ''snapshot_compaction'' (PDict [kv ''completed'' (PInt n), kv ''application_installs'' (PInt 0), kv ''total_ns'' (PInt (1000 * n)),
       kv ''current_index'' (PInt (64 * n)), kv ''max_ns'' (PInt 700), kv ''latest_payload_bytes'' (PInt 4096),
       kv ''interval_entries'' (PInt 64), kv ''buckets_log2'' (PList (replicate 9 (PInt 0) @ PInt n # replicate 54 (PInt 0)))])])])) [''1'', ''2'', ''3''])"

definition staged_options :: selection where
  "staged_options = sample_options\<lparr>native_snapshot_stages := True, require_native_stages := True\<rparr>"

definition run_staged :: "(service_totals \<times> service_state) res" where
  "run_staged = service_run staged_options (staged_service 1) (staged_service 3) 64 (PStr ''durable-kv'') PNone PNone PNone"

text \<open>The samples of the stages of node 1 and of the totals.\<close>

lemma run_staged_samples:
  "case run_staged of Inl _ \<Rightarrow> False
   | Inr (totals, s) \<Rightarrow> failures s = [] \<and>
       map_option (\<lambda>r. map_option s_samples (n_measurement r)) (map_of (node_results s) ''1'') = Some (Some 2) \<and>
       map_option s_samples (t_encode totals) = Some 6 \<and>
       map_option (map (s_samples \<circ> snd)) (t_native totals) = Some [6, 6, 6, 6, 6, 6]"
  by code_simp

theorem receipt_stages_consistent_witness:
  "\<exists>r totals s measured encoded. service_activity staged_options (staged_service 1) (staged_service 3) 64 (PStr ''durable-kv'') PNone PNone PNone = Inr r \<and>
     r = service_receipt staged_options 64 (PStr ''durable-kv'') PNone PNone PNone totals s \<and> failures s = [] \<and>
     n_measurement (the (map_of (node_results s) ''1'')) = Some measured \<and> sum_list (s_buckets measured) = 2 \<and> s_mean_ns measured \<noteq> None \<and>
     t_encode totals = Some encoded \<and> length (s_buckets encoded) = 64 \<and> sum_list (s_buckets encoded) = 6"
proof -
  obtain totals s where run: "run_staged = Inr (totals, s)" and f: "failures s = []"
    and n: "map_option (\<lambda>r. map_option s_samples (n_measurement r)) (map_of (node_results s) ''1'') = Some (Some 2)"
    and e: "map_option s_samples (t_encode totals) = Some 6"
    using run_staged_samples by (auto split: sum.splits)
  let ?r = "service_receipt staged_options 64 (PStr ''durable-kv'') PNone PNone PNone totals s"
  have r: "service_activity staged_options (staged_service 1) (staged_service 3) 64 (PStr ''durable-kv'') PNone PNone PNone = Inr ?r"
    using run by (simp add: run_staged_def service_activity_def)
  have good: "good_state s" "good_totals totals"
    using receipt_stages_consistent [OF r] run by (auto simp: run_staged_def)
  obtain row measured where m: "map_of (node_results s) ''1'' = Some row" "n_measurement row = Some measured" "s_samples measured = 2"
    using n by auto
  obtain encoded where e': "t_encode totals = Some encoded" "s_samples encoded = 6" using e by auto
  have "good_stage measured" using good(1) m(2) map_of_SomeD [OF m(1)] by (auto simp: good_state_def good_node_def list_all_iff)
  moreover have "good_stage encoded" using good(2) e'(1) by (simp add: good_totals_def)
  ultimately show ?thesis using r f m e' by (intro exI [of _ ?r] exI [of _ totals] exI [of _ s] exI [of _ measured] exI [of _ encoded]) (auto simp: good_stage_def)
qed

text \<open>C20: a passed snapshot receipt. All three nodes reported in both snapshots with the
  declared interval, no counter of a node that was not restarted decreased, every node has
  \<open>snapshot index \<le> applied index \<le> commit index\<close>, and at least one compaction completed.\<close>

theorem passed_receipt_sound:
  assumes "service_activity opts before after interval scenario restarted_node stopped required = Inr r"
    "item (PDict r) ''status'' = Inr (PStr ''passed'')"
  shows "\<exists>B A cs. nodes_of before = Inr B \<and> nodes_of after = Inr A \<and> set (map fst B) = three_nodes \<and> set (map fst A) = three_nodes \<and>
    list_all2 (node_ok B A interval restarted_node) [''1'', ''2'', ''3''] cs \<and>
    0 < (\<Sum>(node, c)\<leftarrow>zip [''1'', ''2'', ''3''] cs. since (is_restarted restarted_node node) (c_old_completed c) (c_new_completed c))"
proof -
  obtain totals s where run: "service_run opts before after interval scenario restarted_node stopped required = Inr (totals, s)"
    and r: "r = service_receipt opts interval scenario restarted_node stopped required totals s"
    using assms(1) by (auto simp: service_activity_def)
  have f: "failures s = []"
    using assms(2) unfolding r by (auto simp: service_receipt_def item_def split: if_splits)
  obtain B A t where BA: "nodes_of before = Inr B" "nodes_of after = Inr A"
    and loop: "foldE (node_step opts B A interval restarted_node)
       (fail_if (set (map fst B) \<noteq> three_nodes \<or> set (map fst A) \<noteq> three_nodes)
         ''snapshot activity requires status from all three nodes'' initial_state) [''1'', ''2'', ''3''] = Inr t"
    and totals: "service_totals_of opts (check_activity scenario restarted_node stopped required (check_availability opts t)) = Inr (totals, s)"
    using run unfolding service_run_def bindE_eq_Inr by blast
  note late = late_checks [OF totals_failures [OF totals f]]
  from service_loop_passed [OF loop conjunct1 [OF late]] obtain cs where
    cs: "list_all2 (node_ok B A interval restarted_node) [''1'', ''2'', ''3''] cs"
    and three: "set (map fst B) = three_nodes" "set (map fst A) = three_nodes"
    and cores: "cores t = map (\<lambda>(node, c). (node, core_of c (is_restarted restarted_node node))) (zip [''1'', ''2'', ''3''] cs)"
    by (auto simp: cores_def initial_state_def fail_if_def fail_def split: if_splits)
  have "total_compactions t = sum_list (map (fst \<circ> snd) (cores t))"
    by (simp add: total_compactions_def cores_def comp_def split_def core_def)
  also have "\<dots> = (\<Sum>(node, c)\<leftarrow>zip [''1'', ''2'', ''3''] cs. since (is_restarted restarted_node node) (c_old_completed c) (c_new_completed c))"
    unfolding cores by (simp add: comp_def split_def core_of_def)
  finally have "(\<Sum>(node, c)\<leftarrow>zip [''1'', ''2'', ''3''] cs. since (is_restarted restarted_node node) (c_old_completed c) (c_new_completed c)) \<noteq> 0"
    using late by simp
  moreover have "0 \<le> (\<Sum>(node, c)\<leftarrow>zip [''1'', ''2'', ''3''] cs. since (is_restarted restarted_node node) (c_old_completed c) (c_new_completed c))"
  proof (rule sum_list_nonneg)
    fix x assume "x \<in> set (map (\<lambda>(node, c). since (is_restarted restarted_node node) (c_old_completed c) (c_new_completed c)) (zip [''1'', ''2'', ''3''] cs))"
    then obtain node c where nc: "(node, c) \<in> set (zip [''1'', ''2'', ''3''] cs)"
      "x = since (is_restarted restarted_node node) (c_old_completed c) (c_new_completed c)" by auto
    have ok: "node_ok B A interval restarted_node node c" using cs nc(1) by (auto simp: list_all2_iff)
    then have "0 \<le> c_new_completed c" by (auto simp: node_ok_def read_counters_def is_nonneg_iff)
    then show "0 \<le> x" using ok nc(2) by (auto simp: since_def node_ok_def)
  qed
  ultimately show ?thesis using BA three cs by (intro exI [of _ B] exI [of _ A] exI [of _ cs]) simp
qed

theorem passed_receipt_sound_witness:
  "\<exists>r B A cs. run_sample = Inr r \<and> nodes_of (sample_service 1) = Inr B \<and> nodes_of (sample_service 3) = Inr A \<and>
     list_all2 (node_ok B A 64 PNone) [''1'', ''2'', ''3''] cs"
  using run_sample_passed passed_receipt_sound unfolding run_sample_def by blast

end
