(* ===== verification/Timelines.thy ===== *)
theory Timelines
  imports Reclamation_Service
begin

text \<open>
  \<open>src/benchctl/timelines.py\<close>: bounded operation timelines in the diagnostics of the nodes. A
  node samples every \<open>sample_every\<close>-th operation and retains a bounded number of completed
  samples with eight time stamps each. \<open>extract\<close> validates the state of each node before and
  after the load and keeps the samples admitted in between; \<open>recorded_extract_matches\<close> compares
  a recomputed extraction with a sealed one of any of three schemas.
\<close>

definition STAGES :: "string list" where
  "STAGES = [''client_ingress'', ''owner_admitted'', ''proposal_submitted'', ''raft_commit_observed'',
     ''application_dispatched'', ''application_started'', ''application_durable'', ''client_completion'']"

definition COMMIT_BOUNDARIES :: "string list" where
  "COMMIT_BOUNDARIES = [''engine_apply_effect'', ''state_machine_apply_callback'']"

definition COUNTERS :: "string list" where
  "COUNTERS = [''operations_seen'', ''operations_sampled'', ''completed_seen'', ''abandoned'', ''skipped_in_flight'',
     ''discarded_incomplete'', ''evicted_commit_marks'', ''in_flight'', ''commit_marks'']"

definition LIMITS :: "string list" where
  "LIMITS = [''sample_every'', ''retained_limit'', ''in_flight_limit'', ''commit_mark_limit'']"

definition nonnegative :: "pyval \<Rightarrow> string \<Rightarrow> int res" where
  "nonnegative v name =
     (if is_nonneg v then Inr (the_int v) else raiseE ValueError (''invalid timeline count: '' @ name))"

definition timeline_nodes :: "pyval \<Rightarrow> (string \<times> pyval) list res" where
  "timeline_nodes snapshot =
     bindE (raise_if (\<not> is_dict snapshot) ValueError ''timeline status snapshot is not an object'') (\<lambda>_.
     bindE (nodes_of snapshot) (\<lambda>nodes.
     bindE (raise_if (nodes = []) ValueError ''timeline status snapshot has no nodes'') (\<lambda>_. Inr nodes)))"

section \<open>The state of a node\<close>

text \<open>A counter of a state whose counters have been checked.\<close>

definition tl_count :: "pydict \<Rightarrow> string \<Rightarrow> int" where
  "tl_count st name = the_int (dict_get st name PNone)"

definition timeline_header :: "pyval \<Rightarrow> string \<Rightarrow> pydict res" where
  "timeline_header status node =
     bindE (raise_if (\<not> is_dict status) ValueError (''node '' @ node @ '' has no successful timeline status'')) (\<lambda>_.
     bindE (get status ''status'') (\<lambda>s.
     bindE (raise_if (\<not> py_eq s (PStr ''ok'')) ValueError (''node '' @ node @ '' has no successful timeline status'')) (\<lambda>_.
     bindE (catchE {KeyError, TypeError}
       (bindE (item status ''info'') (\<lambda>info. bindE (item info ''diagnostics'') (\<lambda>diagnostics.
        bindE (item diagnostics ''operation_timelines'') (\<lambda>state. Inr (diagnostics, state)))))
       (\<lambda>_. raiseE ValueError (''node '' @ node @ '' has no operation timelines''))) (\<lambda>(diagnostics, state).
     bindE (raise_if (\<not> is_dict diagnostics \<or> \<not> is_dict state) ValueError
       (''node '' @ node @ '' operation timelines are malformed'')) (\<lambda>_.
     bindE (get diagnostics ''enabled'') (\<lambda>enabled. bindE (get state ''schema'') (\<lambda>schema.
     bindE (raise_if (enabled \<noteq> PBool True \<or> \<not> py_eq schema (PInt 1)) ValueError
       (''node '' @ node @ '' operation timelines are disabled or unsupported'')) (\<lambda>_. items state))))))))"

definition timeline_counts :: "pydict \<Rightarrow> string \<Rightarrow> unit res" where
  "timeline_counts st node =
     bindE (mapE (\<lambda>name. nonnegative (dict_get st name PNone) (''node '' @ node @ '' '' @ name)) COUNTERS) (\<lambda>_.
     bindE (mapE (\<lambda>name. bindE (nonnegative (dict_get st name PNone) (''node '' @ node @ '' '' @ name)) (\<lambda>i.
       raise_if (i = 0) ValueError (''node '' @ node @ '' timeline limit is zero: '' @ name))) LIMITS) (\<lambda>_. Inr ()))"

text \<open>The number of ordinals \<open>1, 1 + every, 1 + 2 * every, \<dots>\<close> up to \<open>seen\<close>.\<close>

definition expected_sampled :: "int \<Rightarrow> int \<Rightarrow> int" where
  "expected_sampled seen every = (if seen = 0 then 0 else 1 + (seen - 1) div every)"

definition timeline_accounting :: "pydict \<Rightarrow> string \<Rightarrow> unit res" where
  "timeline_accounting st node =
     bindE (raise_if (tl_count st ''operations_sampled'' \<noteq> expected_sampled (tl_count st ''operations_seen'') (tl_count st ''sample_every''))
       ValueError (''node '' @ node @ '' sampled-operation accounting mismatch'')) (\<lambda>_.
     bindE (raise_if (tl_count st ''operations_sampled'' \<noteq> tl_count st ''completed_seen'' + tl_count st ''abandoned''
         + tl_count st ''skipped_in_flight'' + tl_count st ''discarded_incomplete'' + tl_count st ''in_flight'')
       ValueError (''node '' @ node @ '' timeline lifecycle accounting mismatch'')) (\<lambda>_.
     bindE (raise_if (tl_count st ''in_flight'' > tl_count st ''in_flight_limit'') ValueError
       (''node '' @ node @ '' timeline in-flight bound exceeded'')) (\<lambda>_.
     raise_if (tl_count st ''commit_marks'' > tl_count st ''commit_mark_limit'') ValueError
       (''node '' @ node @ '' commit-mark bound exceeded''))))"

definition ordinal_of :: "pyval \<Rightarrow> int" where
  "ordinal_of timeline = (case timeline of PDict t \<Rightarrow> tl_count t ''sample_ordinal'' | _ \<Rightarrow> 0)"

definition check_points :: "pyval \<Rightarrow> string \<Rightarrow> unit res" where
  "check_points points node =
     (case points of
        PDict p \<Rightarrow>
          bindE (raise_if (\<not> keys_are p STAGES) ValueError (''node '' @ node @ '' timeline stage inventory differs'')) (\<lambda>_.
          bindE (mapE (\<lambda>stage. nonnegative (dict_get p stage PNone) stage) STAGES) (\<lambda>values.
          raise_if (hd values \<noteq> 0 \<or> \<not> sorted values) ValueError (''node '' @ node @ '' timeline stages are not monotonic'')))
      | _ \<Rightarrow> raiseE ValueError (''node '' @ node @ '' timeline stage inventory differs''))"

definition retained_step :: "pydict \<Rightarrow> string \<Rightarrow> int list \<Rightarrow> pyval \<Rightarrow> int list res" where
  "retained_step st node ordinals timeline =
     bindE (raise_if (\<not> is_dict timeline) ValueError (''node '' @ node @ '' retained timeline is not an object'')) (\<lambda>_.
     bindE (items timeline) (\<lambda>t.
     bindE (nonnegative (dict_get t ''sample_ordinal'' PNone) ''sample_ordinal'') (\<lambda>ordinal.
     bindE (nonnegative (dict_get t ''log_index'' PNone) ''log_index'') (\<lambda>index.
     bindE (raise_if (ordinal = 0 \<or> ordinal > tl_count st ''operations_seen'' \<or> (ordinal - 1) mod tl_count st ''sample_every'' \<noteq> 0)
       ValueError (''node '' @ node @ '' retained sample ordinal is invalid'')) (\<lambda>_.
     bindE (raise_if (ordinal \<in> set ordinals) ValueError (''node '' @ node @ '' retained sample ordinal is duplicated'')) (\<lambda>_.
     bindE (raise_if (index = 0) ValueError (''node '' @ node @ '' retained log index is zero'')) (\<lambda>_.
     bindE (raise_if (\<not> py_in (dict_get t ''commit_boundary'' PNone) (map PStr COMMIT_BOUNDARIES)) ValueError
       (''node '' @ node @ '' has an unsupported commit boundary'')) (\<lambda>_.
     bindE (check_points (dict_get t ''points_ns'' PNone) node) (\<lambda>_.
     Inr (ordinals @ [ordinal]))))))))))"

definition check_retained :: "pydict \<Rightarrow> string \<Rightarrow> unit res" where
  "check_retained st node =
     (case dict_get st ''retained'' PNone of
        PList retained \<Rightarrow>
          bindE (raise_if (int (length retained) > tl_count st ''retained_limit'') ValueError
            (''node '' @ node @ '' retained timeline bound exceeded'')) (\<lambda>_.
          bindE (raise_if (int (length retained) \<noteq> min (tl_count st ''completed_seen'') (tl_count st ''retained_limit'')) ValueError
            (''node '' @ node @ '' retained timeline accounting mismatch'')) (\<lambda>_.
          bindE (foldE (retained_step st node) [] retained) (\<lambda>_. Inr ())))
      | _ \<Rightarrow> raiseE ValueError (''node '' @ node @ '' retained timeline bound exceeded''))"

definition timeline_state :: "pyval \<Rightarrow> string \<Rightarrow> pydict res" where
  "timeline_state status node =
     bindE (timeline_header status node) (\<lambda>st.
     bindE (timeline_counts st node) (\<lambda>_.
     bindE (timeline_accounting st node) (\<lambda>_.
     bindE (check_retained st node) (\<lambda>_. Inr st))))"

section \<open>Differences of metrics\<close>

text \<open>\<open>sorted(set(a) | set(b))\<close> for the keys of two dictionaries.\<close>

definition sorted_keys :: "pykey list \<Rightarrow> pykey list res" where
  "sorted_keys ks =
     (let strs = List.map_filter (\<lambda>k. case k of KStr s \<Rightarrow> Some s | KInt _ \<Rightarrow> None) ks;
          ints = List.map_filter (\<lambda>k. case k of KInt i \<Rightarrow> Some i | KStr _ \<Rightarrow> None) ks in
      if ints = [] then Inr (map KStr (sort (remdups strs)))
      else if strs = [] then Inr (map KInt (sort (remdups ints)))
      else order_error ''<'' (PInt (hd ints)) (PStr (hd strs)))"

record metric_row =
  r_samples :: int
  r_total :: int
  r_mean :: pyfloat
  r_max :: int
  r_buckets :: "int list"

definition key_get :: "pydict \<Rightarrow> pykey \<Rightarrow> pyval \<Rightarrow> pyval" where
  "key_get d k dflt = (case map_of d k of Some v \<Rightarrow> v | None \<Rightarrow> dflt)"

definition pad :: "nat \<Rightarrow> int list \<Rightarrow> int list" where
  "pad width xs = xs @ replicate (width - length xs) 0"

definition empty_metric :: pyval where
  "empty_metric = PDict [kv ''samples'' (PInt 0), kv ''total'' (PInt 0), kv ''max'' (PInt 0), kv ''buckets_log2'' (PList [])]"

definition metric_fields :: "pydict \<Rightarrow> pydict \<Rightarrow> string \<Rightarrow> string \<Rightarrow> unit res" where
  "metric_fields first final node name =
     bindE (mapE (\<lambda>counter_name.
       bindE (nonnegative (dict_get first counter_name PNone) (''node '' @ node @ '' '' @ name @ '' '' @ counter_name)) (\<lambda>_.
       nonnegative (dict_get final counter_name PNone) (''node '' @ node @ '' '' @ name @ '' '' @ counter_name)))
     [''samples'', ''total'', ''max'']) (\<lambda>_. Inr ())"

definition metric_row_delta :: "string \<Rightarrow> bool \<Rightarrow> pydict \<Rightarrow> pydict \<Rightarrow> string \<Rightarrow> metric_row option res" where
  "metric_row_delta node restarted first final name =
     bindE (metric_fields first final node name) (\<lambda>_.
     case (nonneg_ints (dict_get first ''buckets_log2'' PNone), nonneg_ints (dict_get final ''buckets_log2'' PNone)) of
       (Some a, Some b) \<Rightarrow>
         (let width = max (length a) (length b);
              samples = (if restarted then tl_count final ''samples'' else tl_count final ''samples'' - tl_count first ''samples'');
              total = (if restarted then tl_count final ''total'' else tl_count final ''total'' - tl_count first ''total'');
              buckets = (if restarted then pad width b
                else map (\<lambda>(left, right). right - left) (zip (pad width a) (pad width b))) in
          bindE (raise_if (samples < 0 \<or> total < 0 \<or> list_ex (\<lambda>v. v < 0) buckets \<or> sum_list buckets \<noteq> samples) ValueError
            (''node '' @ node @ '' diagnostic metric regressed: '' @ name)) (\<lambda>_.
          if samples = 0 then Inr None
          else bindE (int_div total samples) (\<lambda>mean.
            Inr (Some \<lparr>r_samples = samples, r_total = total, r_mean = mean, r_max = tl_count final ''max'', r_buckets = buckets\<rparr>))))
     | _ \<Rightarrow> raiseE ValueError (''node '' @ node @ '' diagnostic metric has malformed buckets: '' @ name))"

definition metric_entry ::
  "pydict \<Rightarrow> pydict \<Rightarrow> string \<Rightarrow> bool \<Rightarrow> (pykey \<times> metric_row) list \<Rightarrow> pykey \<Rightarrow> (pykey \<times> metric_row) list res" where
  "metric_entry earlier later node restarted result name =
     (case (key_get earlier name empty_metric, key_get later name PNone) of
        (PDict first, PDict final) \<Rightarrow>
          bindE (metric_row_delta node restarted first final (key_str name)) (\<lambda>row.
          Inr (case row of Some r \<Rightarrow> result @ [(name, r)] | None \<Rightarrow> result))
      | _ \<Rightarrow> raiseE ValueError (''node '' @ node @ '' diagnostic metric changed inventory: '' @ key_str name))"

definition metrics_of :: "pyval \<Rightarrow> pyval res" where
  "metrics_of status = bindE (item status ''info'') (\<lambda>info. bindE (item info ''diagnostics'') (\<lambda>diagnostics.
     get_or diagnostics ''metrics'' (PDict [])))"

definition metric_deltas :: "pyval \<Rightarrow> pyval \<Rightarrow> string \<Rightarrow> bool \<Rightarrow> (pykey \<times> metric_row) list res" where
  "metric_deltas before after node restarted =
     bindE (metrics_of before) (\<lambda>earlier. bindE (metrics_of after) (\<lambda>later.
     bindE (raise_if (\<not> is_dict earlier \<or> \<not> is_dict later) ValueError (''node '' @ node @ '' diagnostic metrics are malformed'')) (\<lambda>_.
     bindE (items earlier) (\<lambda>e. bindE (items later) (\<lambda>l.
     bindE (sorted_keys (map fst e @ map fst l)) (\<lambda>names.
     foldE (metric_entry e l node restarted) [] names))))))"

section \<open>Replication windows\<close>

definition window_fields :: "string list" where
  "window_fields = [''observations'', ''observed_ns'', ''any_full_ns'', ''full_follower_ns'']"

definition window_field :: "pydict \<Rightarrow> pydict \<Rightarrow> string \<Rightarrow> bool \<Rightarrow> string \<Rightarrow> (string \<times> int) res" where
  "window_field earlier later node restarted name =
     bindE (nonnegative (dict_get earlier name PNone) (''node '' @ node @ '' replication windows '' @ name)) (\<lambda>first.
     bindE (nonnegative (dict_get later name PNone) (''node '' @ node @ '' replication windows '' @ name)) (\<lambda>final.
     bindE (raise_if (\<not> restarted \<and> final < first) ValueError
       (''node '' @ node @ '' replication-window counter regressed: '' @ name)) (\<lambda>_.
     Inr (name, if restarted then final else final - first))))"

definition fraction_of :: "int \<Rightarrow> int \<Rightarrow> pyval res" where
  "fraction_of part observed =
     (if observed = 0 then Inr PNone else bindE (int_div part observed) (\<lambda>x. Inr (PFloat x)))"

definition windows_status :: "pyval \<Rightarrow> pyval res" where
  "windows_status status = bindE (get_or status ''info'' (PDict [])) (\<lambda>info. engine_get info ''replication_windows'')"

definition replication_window_delta :: "pyval \<Rightarrow> pyval \<Rightarrow> string \<Rightarrow> bool \<Rightarrow> pyval res" where
  "replication_window_delta before after node restarted =
     bindE (windows_status before) (\<lambda>earlier. bindE (windows_status after) (\<lambda>later.
     if earlier = PNone \<and> later = PNone then Inr PNone
     else bindE (raise_if (\<not> is_dict earlier \<or> \<not> is_dict later) ValueError
         (''node '' @ node @ '' replication-window diagnostics changed availability'')) (\<lambda>_.
       bindE (items earlier) (\<lambda>e. bindE (items later) (\<lambda>l.
       bindE (raise_if (\<not> py_eq (dict_get e ''definition'' PNone) (dict_get l ''definition'' PNone)) ValueError
         (''node '' @ node @ '' replication-window definition changed'')) (\<lambda>_.
       bindE (mapE (window_field e l node restarted) window_fields) (\<lambda>delta.
       bindE (lookup delta ''observed_ns'') (\<lambda>observed. bindE (lookup delta ''any_full_ns'') (\<lambda>any_full.
       bindE (lookup delta ''full_follower_ns'') (\<lambda>full_follower.
       bindE (fraction_of any_full observed) (\<lambda>any_fraction. bindE (fraction_of full_follower observed) (\<lambda>mean_full.
       bindE (item later ''definition'') (\<lambda>definition.
       Inr (PDict (map (\<lambda>(name, i). kv name (PInt i)) delta @
         [kv ''any_full_fraction'' any_fraction, kv ''mean_full_followers'' mean_full, kv ''definition'' definition])))))))))))))))"

section \<open>Extraction\<close>

record timeline_node =
  tn_before :: int
  tn_after :: int
  tn_total :: nat
  tn_retained :: "pyval list"
  tn_restarted :: bool
  tn_metrics :: "(pykey \<times> metric_row) list"
  tn_windows :: pyval

definition retained_of :: "pydict \<Rightarrow> pyval list" where
  "retained_of st = (case dict_get st ''retained'' PNone of PList xs \<Rightarrow> xs | _ \<Rightarrow> [])"

definition extract_node :: "(string \<times> pyval) list \<Rightarrow> (string \<times> pyval) list \<Rightarrow> pyval list \<Rightarrow> int \<times> string \<Rightarrow> (string \<times> timeline_node) res" where
  "extract_node before_nodes after_nodes restarted_nodes = (\<lambda>(node_id, node).
     bindE (lookup before_nodes node) (\<lambda>b. bindE (timeline_state b node) (\<lambda>earlier.
     bindE (lookup after_nodes node) (\<lambda>a. bindE (timeline_state a node) (\<lambda>later.
     let restarted = py_in (PInt node_id) restarted_nodes;
         watermark = (if restarted then 0 else tl_count earlier ''operations_seen'');
         retained = sort_key ordinal_of (filter (\<lambda>timeline. ordinal_of timeline > watermark) (retained_of later)) in
     bindE (raise_if (list_ex (\<lambda>name. tl_count earlier name \<noteq> tl_count later name) LIMITS) ValueError
       (''node '' @ node @ '' timeline configuration changed'')) (\<lambda>_.
     bindE (raise_if (\<not> restarted \<and> tl_count later ''operations_seen'' < watermark) ValueError
       (''node '' @ node @ '' operation timeline counter regressed'')) (\<lambda>_.
     bindE (metric_deltas b a node restarted) (\<lambda>metrics.
     bindE (replication_window_delta b a node restarted) (\<lambda>windows.
     Inr (node, \<lparr>tn_before = watermark, tn_after = tl_count later ''operations_seen'', tn_total = length (retained_of later),
       tn_retained = retained, tn_restarted = restarted, tn_metrics = metrics, tn_windows = windows\<rparr>))))))))))"

definition extract_rows ::
  "(string \<times> pyval) list \<Rightarrow> (string \<times> pyval) list \<Rightarrow> pyval list \<Rightarrow> (string \<times> timeline_node) list res" where
  "extract_rows before_nodes after_nodes restarted_nodes =
     bindE (raise_if (set (map fst before_nodes) \<noteq> set (map fst after_nodes)) ValueError
       ''timeline node inventory changed during measurement'') (\<lambda>_.
     bindE (mapE (\<lambda>node. bindE (parse_int node) (\<lambda>i. Inr (i, node))) (map fst before_nodes)) (\<lambda>ids.
     bindE (raise_if (\<not> list_all (\<lambda>node. py_in node (map (\<lambda>(i, _). PInt i) ids)) restarted_nodes) ValueError
       ''timeline restart inventory contains an unknown node'') (\<lambda>_.
     mapE (extract_node before_nodes after_nodes restarted_nodes) (sort_key fst ids))))"

definition metric_row_object :: "metric_row \<Rightarrow> pyval" where
  "metric_row_object r = PDict [kv ''samples'' (PInt (r_samples r)), kv ''total_ns'' (PInt (r_total r)), kv ''mean_ns'' (PFloat (r_mean r)),
     kv ''cumulative_max_ns'' (PInt (r_max r)), kv ''buckets_ns_log2'' (PList (map PInt (r_buckets r)))]"

definition timeline_node_object :: "timeline_node \<Rightarrow> pyval" where
  "timeline_node_object t = PDict [
     kv ''before_operations_seen'' (PInt (tn_before t)), kv ''after_operations_seen'' (PInt (tn_after t)),
     kv ''measurement_operations_seen'' (PInt (tn_after t - tn_before t)), kv ''retained_after_total'' (PInt (int (tn_total t))),
     kv ''retained_measurement_timelines'' (PList (tn_retained t)), kv ''restarted_between_status_snapshots'' (PBool (tn_restarted t)),
     kv ''measurement_metrics'' (PDict (map (\<lambda>(name, r). (name, metric_row_object r)) (tn_metrics t))),
     kv ''measurement_replication_windows'' (tn_windows t)]"

definition extract_object :: "(string \<times> timeline_node) list \<Rightarrow> pydict" where
  "extract_object rows = [
     kv ''schema'' (PInt 3),
     kv ''scope'' (PStr ''bounded samples admitted after the pre-measurement watermark; callback timestamps, not kernel commit timestamps''),
     kv ''counter_epoch_scope'' (PStr ''nodes restarted between status snapshots contain only their post-restart process epoch''),
     kv ''commit_boundaries'' (PDict [
       kv ''engine_apply_effect'' (PStr ''first committed apply effect observed by the shared Rafter or raft-rs owner''),
       kv ''state_machine_apply_callback'' (PStr (''entry to OpenRaft'' @ [CHR 0x27] @ ''s committed state-machine apply callback''))]),
     kv ''stages'' (PList (map PStr STAGES)),
     kv ''retained_measurement_timelines'' (PInt (\<Sum>(_, t)\<leftarrow>rows. int (length (tn_retained t)))),
     kv ''nodes'' (PDict (map (\<lambda>(node, t). kv node (timeline_node_object t)) rows))]"

definition timeline_extract :: "pyval \<Rightarrow> pyval \<Rightarrow> pyval list \<Rightarrow> pydict res" where
  "timeline_extract before after restarted_nodes =
     bindE (timeline_nodes before) (\<lambda>before_nodes. bindE (timeline_nodes after) (\<lambda>after_nodes.
     bindE (extract_rows before_nodes after_nodes restarted_nodes) (\<lambda>rows. Inr (extract_object rows))))"

section \<open>Comparison with a sealed extraction\<close>

definition legacy_node_fields :: "string list" where
  "legacy_node_fields = [''before_operations_seen'', ''after_operations_seen'', ''measurement_operations_seen'',
     ''retained_after_total'', ''retained_measurement_timelines'']"

text \<open>\<open>for node in nodes.values(): node.pop(k, None)\<close>\<close>

definition pop_nodes :: "string list \<Rightarrow> pyval \<Rightarrow> pyval res" where
  "pop_nodes ks nodes = bindE (items nodes) (\<lambda>d.
     bindE (mapE (\<lambda>(name, node). case node of
         PDict n \<Rightarrow> Inr (name, PDict (filter (\<lambda>(k, _). k \<notin> KStr ` set ks) n))
       | _ \<Rightarrow> attr_error node ''pop'') d) (\<lambda>d'. Inr (PDict d')))"

definition legacy_shape :: "pyval \<Rightarrow> bool" where
  "legacy_shape nodes = (case nodes of
     PDict d \<Rightarrow> d \<noteq> [] \<and> list_all (\<lambda>(_, node). case node of PDict n \<Rightarrow> keys_are n legacy_node_fields | _ \<Rightarrow> False) d
   | _ \<Rightarrow> False)"

definition recorded_extract_matches :: "pydict \<Rightarrow> pyval \<Rightarrow> bool res" where
  "recorded_extract_matches actual sealed =
     bindE (get sealed ''schema'') (\<lambda>schema.
     if py_eq schema (PInt 3) then Inr (py_eq (PDict actual) sealed)
     else if \<not> py_in schema [PInt 1, PInt 2] \<or> \<not> py_eq (dict_get actual ''schema'' PNone) (PInt 3) then Inr False
     else bindE (values_of (dict_get actual ''nodes'' (PDict []))) (\<lambda>nodes.
       bindE (anyE (\<lambda>node. bindE (get node ''restarted_between_status_snapshots'') (\<lambda>flag. Inr (flag \<noteq> PBool False))) nodes) (\<lambda>restarted.
       if restarted then Inr False
       else bindE (item (PDict actual) ''nodes'') (\<lambda>ns.
         bindE (pop_nodes [''restarted_between_status_snapshots''] ns) (\<lambda>ns2.
         let compatible = (\<lambda>version nodes. PDict (AList.update (KStr ''nodes'') nodes
               (AList.delete (KStr ''counter_epoch_scope'') (AList.update (KStr ''schema'') (PInt version) actual)))) in
         if py_eq schema (PInt 2) then Inr (py_eq (compatible 2 ns2) sealed)
         else bindE (get sealed ''nodes'') (\<lambda>sealed_nodes.
           bindE (if legacy_shape sealed_nodes then pop_nodes [''measurement_metrics'', ''measurement_replication_windows''] ns2
             else Inr ns2) (\<lambda>ns1. Inr (py_eq (compatible 1 ns1) sealed))))))))"

section \<open>Validated states\<close>

text \<open>A retained sample: its ordinal is one of the sampled ordinals, and its eight time stamps
  start at 0 and do not decrease.\<close>

definition good_timeline :: "pydict \<Rightarrow> pyval \<Rightarrow> bool" where
  "good_timeline st timeline \<longleftrightarrow> 1 \<le> ordinal_of timeline \<and> ordinal_of timeline \<le> tl_count st ''operations_seen'' \<and>
     (ordinal_of timeline - 1) mod tl_count st ''sample_every'' = 0 \<and>
     (\<exists>t p. timeline = PDict t \<and> dict_get t ''points_ns'' PNone = PDict p \<and>
        tl_count p ''client_ingress'' = 0 \<and> sorted (map (tl_count p) STAGES))"

definition good_timelines :: "pydict \<Rightarrow> bool" where
  "good_timelines st \<longleftrightarrow> 0 \<le> tl_count st ''operations_seen'' \<and> 0 < tl_count st ''sample_every'' \<and>
     tl_count st ''operations_sampled'' = expected_sampled (tl_count st ''operations_seen'') (tl_count st ''sample_every'') \<and>
     int (length (retained_of st)) = min (tl_count st ''completed_seen'') (tl_count st ''retained_limit'') \<and>
     distinct (map ordinal_of (retained_of st)) \<and> (\<forall>t\<in>set (retained_of st). good_timeline st t)"

lemma nonnegative_Inr: "nonnegative v name = Inr i \<longleftrightarrow> v = PInt i \<and> 0 \<le> i"
  by (cases v) (auto simp: nonnegative_def is_nonneg_def the_int_def)

lemma check_points_Inr:
  assumes "check_points points node = Inr u"
  shows "\<exists>p. points = PDict p \<and> tl_count p ''client_ingress'' = 0 \<and> sorted (map (tl_count p) STAGES)"
proof -
  obtain p vs where p: "points = PDict p" and vs: "mapE (\<lambda>stage. nonnegative (dict_get p stage PNone) stage) STAGES = Inr vs"
    and ok: "hd vs = 0" "sorted vs"
    using assms by (cases points) (auto simp: check_points_def)
  have "map id vs = map (tl_count p) STAGES"
    by (rule mapE_project [OF vs]) (simp add: nonnegative_Inr tl_count_def the_int_def)
  then have "vs = map (tl_count p) STAGES" by simp
  with p ok show ?thesis by (auto simp: STAGES_def)
qed

lemma retained_step_Inr:
  assumes "retained_step st node ordinals timeline = Inr ordinals'"
  shows "ordinals' = ordinals @ [ordinal_of timeline] \<and> ordinal_of timeline \<notin> set ordinals \<and> good_timeline st timeline"
proof -
  obtain t where t: "timeline = PDict t" using assms by (auto simp: retained_step_def is_dict_iff)
  have "\<exists>ordinal index. dict_get t ''sample_ordinal'' PNone = PInt ordinal \<and> 0 \<le> ordinal \<and> ordinal \<noteq> 0 \<and>
      ordinal \<le> tl_count st ''operations_seen'' \<and> (ordinal - 1) mod tl_count st ''sample_every'' = 0 \<and> ordinal \<notin> set ordinals \<and>
      check_points (dict_get t ''points_ns'' PNone) node = Inr index \<and> ordinals' = ordinals @ [ordinal]"
    using assms unfolding t retained_step_def bindE_eq_Inr raise_if_eq_Inr items_eq_Inr nonnegative_Inr by fastforce
  then obtain ordinal u where o: "dict_get t ''sample_ordinal'' PNone = PInt ordinal" "1 \<le> ordinal"
      "ordinal \<le> tl_count st ''operations_seen''" "(ordinal - 1) mod tl_count st ''sample_every'' = 0" "ordinal \<notin> set ordinals"
      "check_points (dict_get t ''points_ns'' PNone) node = Inr u" "ordinals' = ordinals @ [ordinal]"
    by (metis int_one_le_iff_zero_less order_le_imp_less_or_eq)
  then show ?thesis using check_points_Inr [OF o(6)] by (simp add: t ordinal_of_def good_timeline_def tl_count_def the_int_def)
qed

lemma retained_fold:
  assumes "foldE (retained_step st node) [] retained = Inr ordinals"
  shows "distinct (map ordinal_of retained) \<and> (\<forall>t\<in>set retained. good_timeline st t)"
proof -
  have "ordinals = map ordinal_of retained \<and> distinct (map ordinal_of retained) \<and> (\<forall>t\<in>set retained. good_timeline st t)"
    using assms by (rule foldE_invariant) (auto dest!: retained_step_Inr)
  then show ?thesis by simp
qed

lemma timeline_counts_Inr:
  assumes "timeline_counts st node = Inr u"
  shows "0 \<le> tl_count st ''operations_seen'' \<and> 0 < tl_count st ''sample_every''"
  using assms by (auto simp: timeline_counts_def COUNTERS_def LIMITS_def nonnegative_Inr tl_count_def the_int_def)

lemma timeline_state_good:
  assumes "timeline_state status node = Inr st"
  shows "good_timelines st"
proof -
  obtain u v w where counts: "timeline_counts st node = Inr u" and acc: "timeline_accounting st node = Inr v"
    and ret: "check_retained st node = Inr w"
    using assms by (auto simp: timeline_state_def)
  from ret obtain retained ordinals where r: "dict_get st ''retained'' PNone = PList retained"
      "int (length retained) = min (tl_count st ''completed_seen'') (tl_count st ''retained_limit'')"
      "foldE (retained_step st node) [] retained = Inr ordinals"
    by (cases "dict_get st ''retained'' PNone") (auto simp: check_retained_def)
  show ?thesis
    using timeline_counts_Inr [OF counts] acc r(1,2) retained_fold [OF r(3)]
    by (simp add: good_timelines_def timeline_accounting_def retained_of_def)
qed

section \<open>Counting samples\<close>

lemma le_div_iff_mult: "0 < (e::int) \<Longrightarrow> k \<le> n div e \<longleftrightarrow> k * e \<le> n"
proof
  assume e: "0 < e"
  show "k * e \<le> n" if "k \<le> n div e"
  proof -
    have "k * e \<le> n div e * e" using that e by (simp add: mult_right_mono)
    also have "\<dots> \<le> n" using div_mult_mod_eq [of n e] pos_mod_sign [OF e, of n] by linarith
    finally show ?thesis .
  qed
  show "k \<le> n div e" if "k * e \<le> n" using zdiv_mono1 [OF that e] e by simp
qed

lemma sampled_iff:
  assumes "0 < (e::int)" "0 \<le> n" "0 \<le> k" shows "1 + k * e \<le> n \<longleftrightarrow> k < expected_sampled n e"
proof (cases "n = 0")
  case True
  have "0 \<le> k * e" using assms by simp
  then have "\<not> 1 + k * e \<le> n" using True by linarith
  then show ?thesis using True assms(3) by (simp add: expected_sampled_def)
next
  case False
  have "1 + k * e \<le> n \<longleftrightarrow> k * e \<le> n - 1" by linarith
  also have "\<dots> \<longleftrightarrow> k \<le> (n - 1) div e" using assms(1) by (simp add: le_div_iff_mult)
  also have "\<dots> \<longleftrightarrow> k < 1 + (n - 1) div e" by linarith
  finally show ?thesis using False by (simp add: expected_sampled_def)
qed

text \<open>Distinct sampled ordinals above a watermark are at most as many as the samples taken since.\<close>

lemma ordinals_bounded:
  assumes "distinct os" "0 < (e::int)" "0 \<le> w" "0 \<le> n"
    "\<forall>i\<in>set os. w < i \<and> i \<le> n \<and> (i - 1) mod e = 0"
  shows "int (length os) \<le> max 0 (expected_sampled n e - expected_sampled w e)"
proof -
  let ?k = "\<lambda>i. (i - 1) div e"
  have ks: "?k i \<in> {expected_sampled w e ..< expected_sampled n e}" and eq: "i = 1 + ?k i * e" if "i \<in> set os" for i
  proof -
    have i: "w < i" "i \<le> n" "(i - 1) mod e = 0" using assms(5) that by auto
    show eq: "i = 1 + ?k i * e" using i(3) mult_div_mod_eq [of e "i - 1"] by (simp add: mult.commute)
    have "0 \<le> ?k i" using i(1) assms(2,3) by (simp add: pos_imp_zdiv_nonneg_iff)
    then show "?k i \<in> {expected_sampled w e ..< expected_sampled n e}"
      using sampled_iff [OF assms(2) assms(3), of "?k i"] sampled_iff [OF assms(2,4), of "?k i"] i(1,2)
      by (auto simp: eq [symmetric])
  qed
  have "inj_on ?k (set os)"
    by (rule inj_onI) (metis eq)
  then have "card (set os) \<le> card {expected_sampled w e ..< expected_sampled n e}"
    using ks by (intro card_inj_on_le [of ?k]) auto
  then show ?thesis using assms(1) by (simp add: distinct_card)
qed

section \<open>Extractions\<close>

text \<open>What the extraction of one node states about the two states of the node.\<close>

definition samples_exact ::
  "(string \<times> pyval) list \<Rightarrow> (string \<times> pyval) list \<Rightarrow> pyval list \<Rightarrow> string \<Rightarrow> timeline_node \<Rightarrow> bool" where
  "samples_exact B A restarted_nodes node t \<longleftrightarrow> (\<exists>b a earlier later.
     map_of B node = Some b \<and> timeline_state b node = Inr earlier \<and> map_of A node = Some a \<and> timeline_state a node = Inr later \<and>
     (tn_restarted t \<longleftrightarrow> (\<exists>i. parse_int node = Inr i \<and> py_in (PInt i) restarted_nodes)) \<and>
     tn_before t = (if tn_restarted t then 0 else tl_count earlier ''operations_seen'') \<and>
     tn_after t = tl_count later ''operations_seen'' \<and> tn_before t \<le> tn_after t \<and>
     sorted_wrt (<) (map ordinal_of (tn_retained t)) \<and>
     set (tn_retained t) = {x \<in> set (retained_of later). tn_before t < ordinal_of x} \<and>
     (\<forall>x\<in>set (tn_retained t). good_timeline later x) \<and>
     int (length (tn_retained t)) \<le>
       tl_count later ''operations_sampled'' - (if tn_restarted t then 0 else tl_count earlier ''operations_sampled''))"

lemma lookup_Inr: "lookup t k = Inr x \<longleftrightarrow> map_of t k = Some x"
  by (simp add: lookup_def split: option.splits)

lemma expected_sampled_mono: "0 < e \<Longrightarrow> 0 \<le> a \<Longrightarrow> a \<le> b \<Longrightarrow> expected_sampled a e \<le> expected_sampled b e"
proof (cases "a = 0")
  case True
  assume "0 < e" "0 \<le> a" "a \<le> b"
  then show ?thesis using True pos_imp_zdiv_nonneg_iff [of e "b - 1"] by (auto simp: expected_sampled_def)
next
  case False
  assume "0 < e" "0 \<le> a" "a \<le> b"
  then show ?thesis using False zdiv_mono1 [of "a - 1" "b - 1" e] by (simp add: expected_sampled_def)
qed

lemma samples_sorted:
  assumes "distinct (map ordinal_of xs)"
  shows "sorted_wrt (<) (map ordinal_of (sort_key ordinal_of (filter P xs)))"
proof -
  have "distinct (map ordinal_of (filter P xs))" using assms by (rule distinct_map_filter)
  then have "distinct (map ordinal_of (sort_key ordinal_of (filter P xs)))"
    by (simp add: distinct_map)
  then show ?thesis by (simp add: strict_sorted_iff)
qed

lemma extract_node_exact:
  assumes "extract_node B A restarted_nodes (i, node) = Inr (node', t)" "parse_int node = Inr i"
  shows "node' = node \<and> samples_exact B A restarted_nodes node t"
proof -
  define R where "R = py_in (PInt i) restarted_nodes"
  have "\<exists>b earlier a later. map_of B node = Some b \<and> timeline_state b node = Inr earlier \<and> map_of A node = Some a \<and>
      timeline_state a node = Inr later \<and> (\<forall>name\<in>set LIMITS. tl_count earlier name = tl_count later name) \<and>
      (\<not> R \<longrightarrow> tl_count earlier ''operations_seen'' \<le> tl_count later ''operations_seen'') \<and> node' = node \<and>
      tn_restarted t = R \<and> tn_before t = (if R then 0 else tl_count earlier ''operations_seen'') \<and>
      tn_after t = tl_count later ''operations_seen'' \<and>
      tn_retained t = sort_key ordinal_of (filter (\<lambda>x. tn_before t < ordinal_of x) (retained_of later))"
    using assms(1) unfolding extract_node_def case_prod_conv Let_def bindE_eq_Inr raise_if_eq_Inr lookup_Inr R_def [symmetric]
    by (clarsimp simp: list_ex_iff) (cases R; simp; blast)
  then obtain b earlier a later where st: "map_of B node = Some b" "timeline_state b node = Inr earlier" "map_of A node = Some a"
      "timeline_state a node = Inr later" and lim: "\<forall>name\<in>set LIMITS. tl_count earlier name = tl_count later name"
    and grow: "\<not> R \<longrightarrow> tl_count earlier ''operations_seen'' \<le> tl_count later ''operations_seen''" and node: "node' = node"
    and t: "tn_restarted t = R" "tn_before t = (if R then 0 else tl_count earlier ''operations_seen'')"
      "tn_after t = tl_count later ''operations_seen''"
      "tn_retained t = sort_key ordinal_of (filter (\<lambda>x. tn_before t < ordinal_of x) (retained_of later))" by blast
  note ge = timeline_state_good [OF st(2), unfolded good_timelines_def] and gl = timeline_state_good [OF st(4), unfolded good_timelines_def]
  let ?e = "tl_count later ''sample_every''"
  have e: "tl_count earlier ''sample_every'' = ?e" using lim by (simp add: LIMITS_def)
  have before: "0 \<le> tn_before t" "tn_before t \<le> tn_after t" using ge gl grow t by auto
  have sorted: "sorted_wrt (<) (map ordinal_of (tn_retained t))" unfolding t(4) using gl by (intro samples_sorted) simp
  have set: "set (tn_retained t) = {x \<in> set (retained_of later). tn_before t < ordinal_of x}" unfolding t(4) by simp
  have "int (length (map ordinal_of (tn_retained t))) \<le>
      max 0 (expected_sampled (tl_count later ''operations_seen'') ?e - expected_sampled (tn_before t) ?e)"
  proof (rule ordinals_bounded)
    show "distinct (map ordinal_of (tn_retained t))" using sorted by (simp add: strict_sorted_iff)
    show "\<forall>i\<in>set (map ordinal_of (tn_retained t)). tn_before t < i \<and> i \<le> tl_count later ''operations_seen'' \<and> (i - 1) mod ?e = 0"
      using set gl by (auto simp: good_timeline_def)
  qed (use before gl in simp_all)
  moreover have "expected_sampled (tn_before t) ?e \<le> expected_sampled (tl_count later ''operations_seen'') ?e"
    using before gl t(3) by (intro expected_sampled_mono) simp_all
  moreover have "expected_sampled (tn_before t) ?e = (if tn_restarted t then 0 else tl_count earlier ''operations_sampled'')"
    using ge e t(1,2) by (simp add: expected_sampled_def)
  ultimately have "int (length (tn_retained t)) \<le>
       tl_count later ''operations_sampled'' - (if tn_restarted t then 0 else tl_count earlier ''operations_sampled'')"
    using gl by simp
  moreover have "tn_restarted t \<longleftrightarrow> (\<exists>i. parse_int node = Inr i \<and> py_in (PInt i) restarted_nodes)" using t(1) assms(2) by (simp add: R_def)
  moreover have "\<forall>x\<in>set (tn_retained t). good_timeline later x" using set gl by blast
  ultimately have "samples_exact B A restarted_nodes node t" unfolding samples_exact_def
    using st t(2,3) [folded t(1)] before(2) sorted set by blast
  with node show ?thesis by simp
qed

lemma extract_rows_exact:
  assumes "extract_rows B A restarted_nodes = Inr rows"
  shows "set (map fst rows) = set (map fst B) \<and> set (map fst rows) = set (map fst A) \<and>
    (\<forall>(node, t)\<in>set rows. samples_exact B A restarted_nodes node t)"
proof -
  obtain ids where same: "set (map fst B) = set (map fst A)"
    and ids: "mapE (\<lambda>node. bindE (parse_int node) (\<lambda>i. Inr (i, node))) (map fst B) = Inr ids"
    and rows: "mapE (extract_node B A restarted_nodes) (sort_key fst ids) = Inr rows"
    using assms by (auto simp: extract_rows_def)
  have "map snd ids = map id (map fst B)" by (rule mapE_project [OF ids]) auto
  then have names: "set (map snd ids) = set (map fst B)" by simp
  have parsed: "parse_int node = Inr i" if "(i, node) \<in> set ids" for i node
    using mapE_mem [OF ids that] by auto
  have step: "fst row = snd p \<and> samples_exact B A restarted_nodes (fst row) (snd row)"
    if "p \<in> set ids" "extract_node B A restarted_nodes p = Inr row" for p row
  proof -
    obtain i node node' t where p: "p = (i, node)" "row = (node', t)" by (cases p; cases row)
    then show ?thesis using extract_node_exact [of B A restarted_nodes i node node' t] parsed [of i node] that by simp
  qed
  have "fst ` set rows = snd ` set ids"
    using mapE_mem [OF rows] mapE_mem' [OF rows] step by (force simp: image_iff)
  moreover have "\<forall>(node, t)\<in>set rows. samples_exact B A restarted_nodes node t"
    using mapE_mem [OF rows] step by fastforce
  ultimately show ?thesis using names same by simp
qed

text \<open>C21: an extraction contains exactly the samples of the measurement. For every node of both
  snapshots it lists, strictly ordered, all retained samples after the watermark and no other,
  each with monotone time stamps, and they are at most as many as the node sampled in between.\<close>

theorem extraction_exact:
  assumes "timeline_extract before after restarted_nodes = Inr r"
  shows "\<exists>B A rows. timeline_nodes before = Inr B \<and> timeline_nodes after = Inr A \<and> r = extract_object rows \<and>
    set (map fst rows) = set (map fst B) \<and> set (map fst rows) = set (map fst A) \<and>
    (\<forall>(node, t)\<in>set rows. samples_exact B A restarted_nodes node t)"
proof -
  obtain B A rows where "timeline_nodes before = Inr B" "timeline_nodes after = Inr A"
    "extract_rows B A restarted_nodes = Inr rows" "r = extract_object rows"
    using assms by (auto simp: timeline_extract_def)
  then show ?thesis using extract_rows_exact by blast
qed

definition sample_timeline :: "int \<Rightarrow> pyval" where
  "sample_timeline i = PDict [kv ''sample_ordinal'' (PInt i), kv ''log_index'' (PInt (i + 7)),
     kv ''commit_boundary'' (PStr ''engine_apply_effect''),
     kv ''points_ns'' (PDict (map (\<lambda>k. kv (STAGES ! k) (PInt (int k * 10))) [0..<8]))]"

definition sample_timeline_status :: "int \<Rightarrow> int list \<Rightarrow> pyval" where
  "sample_timeline_status seen os = PDict [kv ''1'' (PDict [kv ''status'' (PStr ''ok''), kv ''info'' (PDict [kv ''engine'' (PDict []),
     kv ''diagnostics'' (PDict [kv ''enabled'' (PBool True), kv ''operation_timelines'' (PDict ([kv ''schema'' (PInt 1),
       kv ''operations_seen'' (PInt seen), kv ''operations_sampled'' (PInt (expected_sampled seen 4)),
       kv ''completed_seen'' (PInt (expected_sampled seen 4)), kv ''retained'' (PList (map sample_timeline os))]
       @ map (\<lambda>c. kv c (PInt 0)) [''abandoned'', ''skipped_in_flight'', ''discarded_incomplete'', ''evicted_commit_marks'', ''in_flight'', ''commit_marks'']
       @ [kv ''sample_every'' (PInt 4), kv ''retained_limit'' (PInt 3), kv ''in_flight_limit'' (PInt 8), kv ''commit_mark_limit'' (PInt 8)]))])])])]"

theorem extraction_exact_witness:
  "\<exists>r B A rows. timeline_extract (sample_timeline_status 5 [1, 5]) (sample_timeline_status 13 [9, 5, 13]) [] = Inr r \<and> r = extract_object rows \<and>
     (\<forall>(node, t)\<in>set rows. samples_exact B A [] node t) \<and>
     item (PDict r) ''retained_measurement_timelines'' = Inr (PInt 2)"
proof -
  have "bindE (timeline_extract (sample_timeline_status 5 [1, 5]) (sample_timeline_status 13 [9, 5, 13]) [])
      (\<lambda>r. item (PDict r) ''retained_measurement_timelines'') = Inr (PInt 2)" by code_simp
  then show ?thesis using extraction_exact by fastforce
qed

section \<open>Extractions as plain values\<close>

lemma plain_item: "item v k = Inr x \<Longrightarrow> plain v \<Longrightarrow> plain x"
  by (fastforce simp: item_eq_Inr dest: map_of_SomeD)

lemma plain_dict_get: "plain (PDict d) \<Longrightarrow> plain dflt \<Longrightarrow> plain (dict_get d k dflt)"
  by (fastforce simp: dict_get_def split: option.splits dest: map_of_SomeD)

lemma plain_get: "get_or v k dflt = Inr x \<Longrightarrow> plain v \<Longrightarrow> plain dflt \<Longrightarrow> plain x"
  by (auto simp: get_or_eq_Inr intro: plain_dict_get)

lemma plain_filter: "plain (PDict d) \<Longrightarrow> plain (PDict (filter P d))"
  by (auto intro: distinct_map_filter)

lemma plain_update: "plain (PDict d) \<Longrightarrow> plain v \<Longrightarrow> plain (PDict (AList.update k v d))"
proof -
  assume a: "plain (PDict d)" "plain v"
  have "\<forall>e\<in>set (AList.update k v d). plain (snd e)" using a(2) a(1)
    by (induction d) (auto split: prod.splits if_splits)
  then show ?thesis using a(1) AList.distinct_update [of d k v] by simp
qed

lemmas plain_intros = plain_filter plain_delete plain_update plain_dict_get

lemma int_div_finite: "int_div a b = Inr x \<Longrightarrow> x \<noteq> NaN"
  by (auto simp: int_div_def split: if_splits pyfloat.splits)

lemma nodes_of_plain:
  assumes "nodes_of v = Inr B" "plain v"
  shows "distinct (map fst B) \<and> (\<forall>e\<in>set B. plain (snd e))"
proof -
  have build: "distinct (map fst (fold (\<lambda>(k, reply) t. AList.update (key_str k) reply t) d t)) \<and>
      (\<forall>e\<in>set (fold (\<lambda>(k, reply) t. AList.update (key_str k) reply t) d t). plain (snd e))"
    if "distinct (map fst t)" "\<forall>e\<in>set t. plain (snd e)" "\<forall>e\<in>set d. plain (snd e)" for d and t :: "(string \<times> pyval) list"
    using that
  proof (induction d arbitrary: t)
    case (Cons e d)
    obtain k reply where e: "e = (k, reply)" by (cases e)
    have "set (AList.update (key_str k) reply t) \<subseteq> insert (key_str k, reply) (set t)"
      by (induction t) auto
    then have "\<forall>e\<in>set (AList.update (key_str k) reply t). plain (snd e)" using Cons.prems(2,3) e by auto
    then show ?case using Cons.IH [of "AList.update (key_str k) reply t"] Cons.prems AList.distinct_update [of t "key_str k" reply]
      by (simp add: e)
  qed simp
  obtain d where "v = PDict d" "B = fold (\<lambda>(k, reply) t. AList.update (key_str k) reply t) d []"
    using assms(1) by (auto simp: nodes_of_def items_eq_Inr)
  then show ?thesis using build [of "[]" d] assms(2) by simp
qed

lemma sorted_keys_distinct: "sorted_keys ks = Inr names \<Longrightarrow> distinct names"
  by (auto simp: sorted_keys_def Let_def order_error_def distinct_map inj_on_def split: if_splits)

lemma metric_row_finite: "metric_row_delta node restarted first final name = Inr (Some r) \<Longrightarrow> r_mean r \<noteq> NaN"
  by (auto simp: metric_row_delta_def Let_def int_div_finite split: option.splits if_splits)

lemma metric_entry_Inr:
  assumes "metric_entry e l node restarted result name = Inr result'"
  shows "result' = result \<or> (\<exists>r. result' = result @ [(name, r)] \<and> r_mean r \<noteq> NaN)"
  using assms metric_row_finite
  by (cases "key_get e name empty_metric"; cases "key_get l name PNone") (auto simp: metric_entry_def split: option.splits)

lemma metric_deltas_plain:
  assumes "metric_deltas b a node restarted = Inr rows"
  shows "distinct (map fst rows) \<and> (\<forall>e\<in>set rows. r_mean (snd e) \<noteq> NaN)"
proof -
  obtain e l names where names: "sorted_keys (map fst e @ map fst l) = Inr names"
    and loop: "foldE (metric_entry e l node restarted) [] names = Inr rows"
    using assms by (auto simp: metric_deltas_def)
  have "set (map fst rows) \<subseteq> set names \<and> distinct (map fst rows) \<and> (\<forall>e\<in>set rows. r_mean (snd e) \<noteq> NaN)"
    using loop
  proof (rule foldE_invariant)
    fix "done" x rest res res'
    assume "names = done @ x # rest" "set (map fst res) \<subseteq> set done \<and> distinct (map fst res) \<and> (\<forall>e\<in>set res. r_mean (snd e) \<noteq> NaN)"
      "metric_entry e l node restarted res x = Inr res'"
    moreover have "x \<notin> set done" using sorted_keys_distinct [OF names] calculation(1) by simp
    ultimately show "set (map fst res') \<subseteq> set (done @ [x]) \<and> distinct (map fst res') \<and> (\<forall>e\<in>set res'. r_mean (snd e) \<noteq> NaN)"
      using metric_entry_Inr [of e l node restarted res x res'] by (auto simp: image_subset_iff)
  qed simp
  then show ?thesis by simp
qed

lemma fraction_plain: "fraction_of part observed = Inr v \<Longrightarrow> plain v"
  by (auto simp: fraction_of_def int_div_finite split: if_splits)

lemma window_delta_plain:
  assumes "replication_window_delta b a node restarted = Inr v" "plain a"
  shows "plain v"
proof (cases "v = PNone")
  case False
  have "\<exists>e l delta x y later meaning. v = PDict (map (\<lambda>(name, i). kv name (PInt i)) delta @
         [kv ''any_full_fraction'' x, kv ''mean_full_followers'' y, kv ''definition'' meaning]) \<and>
      mapE (window_field e l node restarted) window_fields = Inr delta \<and> plain x \<and> plain y \<and>
      windows_status a = Inr later \<and> item later ''definition'' = Inr meaning"
    using assms(1) False unfolding replication_window_delta_def bindE_eq_Inr
    by (auto split: if_splits dest!: fraction_plain) blast+
  then obtain e l delta x y later meaning where v: "v = PDict (map (\<lambda>(name, i). kv name (PInt i)) delta @
         [kv ''any_full_fraction'' x, kv ''mean_full_followers'' y, kv ''definition'' meaning])"
      "mapE (window_field e l node restarted) window_fields = Inr delta" "plain x" "plain y"
      "windows_status a = Inr later" "item later ''definition'' = Inr meaning" by blast
  have "map fst delta = map id window_fields"
    by (rule mapE_project [OF v(2)]) (auto simp: window_field_def)
  then have keys: "map (\<lambda>x. KStr (fst x)) delta = map KStr window_fields" by (simp add: comp_def flip: map_map [of KStr fst, unfolded comp_def])
  obtain info engine where g: "get_or a ''info'' (PDict []) = Inr info" "get_or info ''engine'' (PDict []) = Inr engine"
    "get engine ''replication_windows'' = Inr later" using v(5) by (auto simp: windows_status_def engine_get_def)
  have "plain info" using plain_get [OF g(1) assms(2)] by simp
  then have "plain engine" using plain_get [OF g(2)] by simp
  then have "plain later" using plain_get [OF g(3)] by simp
  then have "plain meaning" using plain_item [OF v(6)] by simp
  let ?d = "map (\<lambda>(name, i). kv name (PInt i)) delta @
    [kv ''any_full_fraction'' x, kv ''mean_full_followers'' y, kv ''definition'' meaning]"
  have "map fst ?d = map KStr window_fields @ [KStr ''any_full_fraction'', KStr ''mean_full_followers'', KStr ''definition'']"
    using keys by (simp add: comp_def split_def)
  moreover have "distinct (map KStr window_fields @ [KStr ''any_full_fraction'', KStr ''mean_full_followers'', KStr ''definition''])"
    by (simp add: window_fields_def)
  moreover have "\<forall>e\<in>set ?d. plain (snd e)" using v(3,4) \<open>plain meaning\<close> by auto
  ultimately show ?thesis unfolding v(1) plain.simps by simp
qed simp

lemma timeline_state_plain:
  assumes "timeline_state status node = Inr st" "plain status"
  shows "plain (PDict st)"
proof -
  have "\<exists>info diagnostics. item status ''info'' = Inr info \<and> item info ''diagnostics'' = Inr diagnostics \<and>
      item diagnostics ''operation_timelines'' = Inr (PDict st)"
    using assms(1) by (auto simp: timeline_state_def timeline_header_def catchE_def items_eq_Inr split: sum.splits if_splits)
  then obtain info diagnostics where i: "item status ''info'' = Inr info" "item info ''diagnostics'' = Inr diagnostics"
    "item diagnostics ''operation_timelines'' = Inr (PDict st)" by blast
  show ?thesis using plain_item [OF i(3) plain_item [OF i(2) plain_item [OF i(1) assms(2)]]] .
qed

definition plain_row :: "timeline_node \<Rightarrow> bool" where
  "plain_row t \<longleftrightarrow> list_all plain (tn_retained t) \<and> plain (tn_windows t) \<and>
     distinct (map fst (tn_metrics t)) \<and> (\<forall>e\<in>set (tn_metrics t). r_mean (snd e) \<noteq> NaN)"

lemma extract_node_Inr:
  assumes "extract_node B A restarted_nodes (i, node) = Inr (node', t)"
  shows "node' = node" "tn_restarted t \<longleftrightarrow> py_in (PInt i) restarted_nodes"
    "(\<And>n x. (n, x) \<in> set A \<Longrightarrow> plain x) \<Longrightarrow> plain_row t"
proof -
  define R where "R = py_in (PInt i) restarted_nodes"
  have "\<exists>b a later. map_of A node = Some a \<and> timeline_state a node = Inr later \<and> node' = node \<and> tn_restarted t = R \<and>
      set (tn_retained t) \<subseteq> set (retained_of later) \<and> metric_deltas b a node R = Inr (tn_metrics t) \<and>
      replication_window_delta b a node R = Inr (tn_windows t)"
    using assms unfolding extract_node_def case_prod_conv Let_def bindE_eq_Inr raise_if_eq_Inr lookup_Inr R_def [symmetric]
    by (clarsimp; blast)
  then obtain b a later where f: "map_of A node = Some a" "timeline_state a node = Inr later" "node' = node" "tn_restarted t = R"
      "set (tn_retained t) \<subseteq> set (retained_of later)" "metric_deltas b a node R = Inr (tn_metrics t)"
      "replication_window_delta b a node R = Inr (tn_windows t)" by blast
  show "node' = node" "tn_restarted t \<longleftrightarrow> py_in (PInt i) restarted_nodes" using f(3,4) by (simp_all add: R_def)
  assume "\<And>n x. (n, x) \<in> set A \<Longrightarrow> plain x"
  then have a: "plain a" using f(1) by (meson map_of_SomeD)
  have "plain (dict_get later ''retained'' PNone)" using timeline_state_plain [OF f(2) a] by (intro plain_dict_get) simp_all
  then have "\<forall>x\<in>set (retained_of later). plain x"
    by (cases "dict_get later ''retained'' PNone") (simp_all add: retained_of_def)
  then show "plain_row t" using f(5) window_delta_plain [OF f(7) a] metric_deltas_plain [OF f(6)]
    by (auto simp: plain_row_def list_all_iff)
qed

lemma extract_rows_plain:
  assumes "extract_rows B A restarted_nodes = Inr rows" "distinct (map fst B)" "\<forall>e\<in>set A. plain (snd e)"
  shows "distinct (map fst rows) \<and> (\<forall>e\<in>set rows. plain_row (snd e))"
proof -
  obtain ids where ids: "mapE (\<lambda>node. bindE (parse_int node) (\<lambda>i. Inr (i, node))) (map fst B) = Inr ids"
    and rows: "mapE (extract_node B A restarted_nodes) (sort_key fst ids) = Inr rows"
    using assms(1) by (auto simp: extract_rows_def)
  have "map snd ids = map id (map fst B)" by (rule mapE_project [OF ids]) auto
  then have "distinct (map snd ids)" using assms(2) by simp
  then have "distinct (map snd (sort_key fst ids))" by (simp add: distinct_map)
  moreover have "map fst rows = map snd (sort_key fst ids)"
    using extract_node_Inr(1) by (intro mapE_project [OF rows]) (auto split: prod.splits)
  moreover have "plain_row (snd e)" if e: "e \<in> set rows" for e
  proof -
    obtain p where "extract_node B A restarted_nodes p = Inr e" using mapE_mem [OF rows e] by blast
    then show ?thesis using extract_node_Inr(3) assms(3) by (cases p; cases e) fastforce
  qed
  ultimately show ?thesis by simp
qed

lemma plain_node_object: "plain_row t \<Longrightarrow> plain (timeline_node_object t)"
  by (auto simp: plain_row_def timeline_node_object_def metric_row_object_def list_all_iff comp_def split_def)

lemma plain_named: "distinct (map fst rows) \<Longrightarrow> \<forall>e\<in>set rows. plain (f (snd e)) \<Longrightarrow> plain (PDict (map (\<lambda>(node, t). kv node (f t)) rows))"
  by (auto simp: comp_def split_def distinct_map inj_on_def)

lemma plain_extract_object:
  assumes "distinct (map fst rows)" "\<forall>e\<in>set rows. plain_row (snd e)"
  shows "plain (PDict (extract_object rows))"
proof -
  have "plain (PDict (map (\<lambda>(node, t). kv node (timeline_node_object t)) rows))"
    using assms plain_node_object by (intro plain_named) auto
  then show ?thesis by (simp add: extract_object_def del: plain.simps(3)) (simp add: plain.simps(3))
qed

section \<open>Older forms\<close>

text \<open>The form of an extraction before the fields \<open>ks\<close> of a node were recorded.\<close>

definition without_fields :: "string list \<Rightarrow> timeline_node \<Rightarrow> pyval" where
  "without_fields ks t = (case timeline_node_object t of PDict n \<Rightarrow> PDict (filter (\<lambda>(k, _). k \<notin> KStr ` set ks) n) | v \<Rightarrow> v)"

definition older_form :: "int \<Rightarrow> string list \<Rightarrow> (string \<times> timeline_node) list \<Rightarrow> pydict" where
  "older_form version ks rows = AList.update (KStr ''nodes'') (PDict (map (\<lambda>(node, t). kv node (without_fields ks t)) rows))
     (AList.delete (KStr ''counter_epoch_scope'') (AList.update (KStr ''schema'') (PInt version) (extract_object rows)))"

lemma plain_without: assumes "plain_row t" shows "plain (without_fields ks t)"
proof -
  obtain n where n: "timeline_node_object t = PDict n" by (simp add: timeline_node_object_def)
  show ?thesis using plain_filter [of n] plain_node_object [OF assms] by (simp only: without_fields_def n pyval.case)
qed

lemma plain_older:
  assumes "distinct (map fst rows)" "\<forall>e\<in>set rows. plain_row (snd e)"
  shows "plain (PDict (older_form version ks rows))"
  unfolding older_form_def
  using plain_extract_object [OF assms] plain_named [OF assms(1), of "without_fields ks"] assms(2) plain_without
  by (intro plain_update plain_delete) auto

lemma pop_nodes_rows:
  assumes "\<And>t. f t = PDict (g t)"
  shows "pop_nodes ks (PDict (map (\<lambda>(node, t). kv node (f t)) rows)) =
    Inr (PDict (map (\<lambda>(node, t). kv node (PDict (filter (\<lambda>(k, _). k \<notin> KStr ` set ks) (g t)))) rows))"
proof -
  have "mapE (\<lambda>(name, node). case node of PDict n \<Rightarrow> Inr (name, PDict (filter (\<lambda>(k, _). k \<notin> KStr ` set ks) n)) | _ \<Rightarrow> attr_error node ''pop'')
      (map (\<lambda>(node, t). kv node (f t)) rows) =
    Inr (map (\<lambda>(node, t). kv node (PDict (filter (\<lambda>(k, _). k \<notin> KStr ` set ks) (g t)))) rows)"
    by (induction rows) (auto simp: assms)
  then show ?thesis by (simp add: pop_nodes_def items_def del: mapE.simps)
qed

lemma pop_node_objects:
  "pop_nodes ks (PDict (map (\<lambda>(node, t). kv node (timeline_node_object t)) rows)) =
     Inr (PDict (map (\<lambda>(node, t). kv node (without_fields ks t)) rows))"
  by (subst pop_nodes_rows) (auto simp: timeline_node_object_def without_fields_def)

lemma pop_without:
  "pop_nodes ks' (PDict (map (\<lambda>(node, t). kv node (without_fields ks t)) rows)) =
     Inr (PDict (map (\<lambda>(node, t). kv node (without_fields (ks @ ks') t)) rows))"
proof -
  have shape: "without_fields ks t = PDict (filter (\<lambda>(k, _). k \<notin> KStr ` set ks)
      (case timeline_node_object t of PDict n \<Rightarrow> n | _ \<Rightarrow> []))" for ks t
    by (simp add: without_fields_def timeline_node_object_def)
  from pop_nodes_rows [of "without_fields ks", OF shape] show ?thesis
    unfolding shape by (simp add: split_def image_Un cong: conj_cong)
qed

lemma object_lookups:
  "dict_get (extract_object rows) ''schema'' PNone = PInt 3"
  "map_of (extract_object rows) (KStr ''nodes'') = Some (PDict (map (\<lambda>(node, t). kv node (timeline_node_object t)) rows))"
  "map_of (older_form version ks rows) (KStr ''schema'') = Some (PInt version)"
  "map_of (older_form version ks rows) (KStr ''nodes'') = Some (PDict (map (\<lambda>(node, t). kv node (without_fields ks t)) rows))"
  by (simp_all add: extract_object_def dict_get_def older_form_def AList.update_conv' AList.delete_conv' map_of_Cons_code)

lemma restart_flags:
  "anyE (\<lambda>node. bindE (get node ''restarted_between_status_snapshots'') (\<lambda>flag. Inr (flag \<noteq> PBool False)))
     (map snd (map (\<lambda>(node, t). kv node (timeline_node_object t)) rows)) = Inr (\<exists>e\<in>set rows. tn_restarted (snd e))"
proof (induction rows)
  case (Cons e rows)
  have "get (timeline_node_object t) ''restarted_between_status_snapshots'' = Inr (PBool (tn_restarted t))" for t
    by (simp add: timeline_node_object_def get_or_def dict_get_def)
  with Cons show ?case by (cases e) simp
qed simp

lemma get_PDict: "get (PDict d) k = Inr (dict_get d k PNone)"
  by (simp add: get_or_def)

lemma num_one_two: "((1::int) = 2) = False" "((2::int) = 1) = False"
  by simp_all

text \<open>Comparison with an older form, for any rows.\<close>

lemma older_matches:
  assumes "version = 1 \<or> version = 2"
  shows "recorded_extract_matches (extract_object rows) (PDict (older_form version ks rows)) =
    Inr (\<not> (\<exists>e\<in>set rows. tn_restarted (snd e)) \<and>
      py_eq (PDict (older_form version
        (if version = 1 \<and> legacy_shape (PDict (map (\<lambda>(node, t). kv node (without_fields ks t)) rows))
         then [''restarted_between_status_snapshots'', ''measurement_metrics'', ''measurement_replication_windows'']
         else [''restarted_between_status_snapshots'']) rows)) (PDict (older_form version ks rows)))"
proof -
  have "dict_get (older_form version ks rows) ''schema'' PNone = PInt version"
    "dict_get (older_form version ks rows) ''nodes'' PNone = PDict (map (\<lambda>(node, t). kv node (without_fields ks t)) rows)"
    "dict_get (extract_object rows) ''nodes'' (PDict []) = PDict (map (\<lambda>(node, t). kv node (timeline_node_object t)) rows)"
    "item (PDict (extract_object rows)) ''nodes'' = Inr (PDict (map (\<lambda>(node, t). kv node (timeline_node_object t)) rows))"
    by (simp_all add: dict_get_def item_def object_lookups)
  note facts = this object_lookups(1) restart_flags pop_node_objects pop_without
  have num: "py_eq (PInt version) (PInt 3) = False" "py_in (PInt version) [PInt 1, PInt 2] = True" "py_eq (PInt version) (PInt 2) = (version = 2)"
    "py_eq (PInt 3) (PInt 3) = True"
    using assms by (auto simp: num_of_def num_eq_def py_in_def)
  have form: "AList.update (KStr ''nodes'') (PDict (map (\<lambda>(node, t). kv node (without_fields ks t)) rows))
     (AList.delete (KStr ''counter_epoch_scope'') (AList.update (KStr ''schema'') (PInt v) (extract_object rows))) = older_form v ks rows" for v ks
    by (simp only: older_form_def)
  show ?thesis
  proof (cases "\<exists>e\<in>set rows. tn_restarted (snd e)")
    case True
    then show ?thesis unfolding recorded_extract_matches_def get_PDict pyval.case bindE_simps facts num values_of_def Let_def
      by (simp only: if_True if_False simp_thms)
  next
    case none: False
    show ?thesis
    proof (cases "version = 2")
      case True
      with none show ?thesis
        unfolding recorded_extract_matches_def get_PDict pyval.case bindE_simps facts num values_of_def Let_def
        by (simp only: if_True if_False simp_thms form num_one_two)
    next
      case False
      with assms have one: "version = 1" by simp
      show ?thesis using none
        unfolding recorded_extract_matches_def get_PDict pyval.case bindE_simps facts num values_of_def Let_def
        by (cases "legacy_shape (PDict (map (\<lambda>(node, t). kv node (without_fields ks t)) rows))")
          (simp_all only: one if_True if_False simp_thms form bindE_simps append.simps num_one_two)
    qed
  qed
qed

lemma without_legacy:
  "without_fields [''restarted_between_status_snapshots'', ''measurement_metrics'', ''measurement_replication_windows''] t =
     PDict [kv ''before_operations_seen'' (PInt (tn_before t)), kv ''after_operations_seen'' (PInt (tn_after t)),
     kv ''measurement_operations_seen'' (PInt (tn_after t - tn_before t)), kv ''retained_after_total'' (PInt (int (tn_total t))),
     kv ''retained_measurement_timelines'' (PList (tn_retained t))]"
  by (simp add: without_fields_def timeline_node_object_def)

lemma without_restart:
  "\<exists>n. without_fields [''restarted_between_status_snapshots''] t = PDict n \<and> KStr ''measurement_metrics'' \<in> set (map fst n)"
  by (simp add: without_fields_def timeline_node_object_def)

lemma legacy_shapes:
  assumes "rows \<noteq> []"
  shows "legacy_shape (PDict (map (\<lambda>(node, t). kv node (without_fields
      [''restarted_between_status_snapshots'', ''measurement_metrics'', ''measurement_replication_windows''] t)) rows))"
    "\<not> legacy_shape (PDict (map (\<lambda>(node, t). kv node (without_fields [''restarted_between_status_snapshots''] t)) rows))"
proof -
  have "keys_are [kv ''before_operations_seen'' a, kv ''after_operations_seen'' b, kv ''measurement_operations_seen'' c,
      kv ''retained_after_total'' d, kv ''retained_measurement_timelines'' e] legacy_node_fields" for a b c d e
    by (simp add: keys_are_def legacy_node_fields_def)
  then show "legacy_shape (PDict (map (\<lambda>(node, t). kv node (without_fields
      [''restarted_between_status_snapshots'', ''measurement_metrics'', ''measurement_replication_windows''] t)) rows))"
    using assms by (simp add: legacy_shape_def without_legacy list_all_iff split_def)
  obtain e rest where rows: "rows = e # rest" using assms by (cases rows) auto
  obtain n where n: "without_fields [''restarted_between_status_snapshots''] (snd e) = PDict n" "KStr ''measurement_metrics'' \<in> set (map fst n)"
    using without_restart by blast
  have "KStr ''measurement_metrics'' \<notin> KStr ` set legacy_node_fields" by (simp add: legacy_node_fields_def image_iff)
  then have "\<not> keys_are n legacy_node_fields" using n(2) unfolding keys_are_def by blast
  then show "\<not> legacy_shape (PDict (map (\<lambda>(node, t). kv node (without_fields [''restarted_between_status_snapshots''] t)) rows))"
    by (simp add: legacy_shape_def rows split_def n(1))
qed

lemma py_eq_PInt_sym: "py_eq (PInt i) x \<longleftrightarrow> py_eq x (PInt i)"
  by (cases x) (auto simp: num_of_def num_eq_def)

lemma extract_rows_restarted:
  assumes "extract_rows B A restarted_nodes = Inr rows"
  shows "(\<exists>e\<in>set rows. tn_restarted (snd e)) \<longleftrightarrow> restarted_nodes \<noteq> []"
proof -
  obtain ids where known: "list_all (\<lambda>node. py_in node (map (\<lambda>(i, _). PInt i) ids)) restarted_nodes"
    and rows: "mapE (extract_node B A restarted_nodes) (sort_key fst ids) = Inr rows"
    using assms by (auto simp: extract_rows_def)
  have flag: "tn_restarted (snd e) \<longleftrightarrow> py_in (PInt (fst p)) restarted_nodes" if "extract_node B A restarted_nodes p = Inr e" for p e
    using that extract_node_Inr(2) by (cases p; cases e) fastforce
  show ?thesis
  proof
    assume "\<exists>e\<in>set rows. tn_restarted (snd e)"
    then show "restarted_nodes \<noteq> []" using mapE_mem [OF rows] flag by (fastforce simp: py_in_def)
  next
    assume "restarted_nodes \<noteq> []"
    then obtain x where x: "x \<in> set restarted_nodes" by (cases restarted_nodes) auto
    then obtain p where p: "p \<in> set (sort_key fst ids)" "py_eq (PInt (fst p)) x"
      using known by (auto simp: list_all_iff py_in_def list_ex_iff)
    then have "py_in (PInt (fst p)) restarted_nodes" using x py_eq_PInt_sym by (auto simp: py_in_def list_ex_iff)
    moreover
    obtain e where "e \<in> set rows" "extract_node B A restarted_nodes p = Inr e" using mapE_mem' [OF rows p(1)] by blast
    ultimately show "\<exists>e\<in>set rows. tn_restarted (snd e)" using flag by blast
  qed
qed

text \<open>The node records of an extraction are plain, so that it matches itself.\<close>

lemma extraction_rows_plain:
  assumes "timeline_extract before after restarted_nodes = Inr r" "plain before" "plain after"
  obtains rows where "r = extract_object rows" "distinct (map fst rows)" "\<forall>e\<in>set rows. plain_row (snd e)" "rows \<noteq> []"
    "(\<forall>e\<in>set rows. \<not> tn_restarted (snd e)) \<longleftrightarrow> restarted_nodes = []"
proof -
  obtain B A rows where B: "timeline_nodes before = Inr B" and A: "timeline_nodes after = Inr A"
    and rows: "extract_rows B A restarted_nodes = Inr rows" and r: "r = extract_object rows"
    using assms(1) by (auto simp: timeline_extract_def)
  have "nodes_of before = Inr B" "nodes_of after = Inr A" "B \<noteq> []" using B A by (auto simp: timeline_nodes_def)
  then have "distinct (map fst rows)" "\<forall>e\<in>set rows. plain_row (snd e)" "rows \<noteq> []"
    using extract_rows_plain [OF rows] nodes_of_plain assms(2,3) extract_rows_exact [OF rows] by (blast, blast, fastforce)
  moreover have "(\<forall>e\<in>set rows. \<not> tn_restarted (snd e)) \<longleftrightarrow> restarted_nodes = []"
    using extract_rows_restarted [OF rows] by blast
  ultimately show thesis using that r by blast
qed

lemma extraction_matches_itself:
  assumes "timeline_extract before after restarted_nodes = Inr r" "plain before" "plain after"
  shows "recorded_extract_matches r (PDict r) = Inr True"
proof -
  obtain rows where r: "r = extract_object rows" and ok: "distinct (map fst rows)" "\<forall>e\<in>set rows. plain_row (snd e)"
    using extraction_rows_plain [OF assms] by metis
  show ?thesis using py_eq_refl [OF plain_extract_object [OF ok]]
    by (simp add: recorded_extract_matches_def r get_or_def object_lookups(1) num_of_def num_eq_def del: py_eq.simps(4))
qed

text \<open>C22: sealed evidence keeps verifying. A recomputed extraction equals itself, and when no
  node was restarted it also matches the forms written before restarts (schema 2), and the two
  forms of schema 1. With a restarted node it matches no older form at all.\<close>

theorem sealed_extraction_matches:
  assumes "timeline_extract before after restarted_nodes = Inr r" "plain before" "plain after"
  shows "\<exists>rows. r = extract_object rows \<and> recorded_extract_matches r (PDict r) = Inr True \<and>
    (if restarted_nodes = []
     then recorded_extract_matches r (PDict (older_form 2 [''restarted_between_status_snapshots''] rows)) = Inr True \<and>
       recorded_extract_matches r (PDict (older_form 1 [''restarted_between_status_snapshots''] rows)) = Inr True \<and>
       recorded_extract_matches r (PDict (older_form 1 [''restarted_between_status_snapshots'', ''measurement_metrics'',
         ''measurement_replication_windows''] rows)) = Inr True
     else \<forall>ks. \<forall>version\<in>{1, 2}. recorded_extract_matches r (PDict (older_form version ks rows)) = Inr False)"
proof -
  obtain rows where r: "r = extract_object rows" and ok: "distinct (map fst rows)" "\<forall>e\<in>set rows. plain_row (snd e)" "rows \<noteq> []"
    and restarted: "(\<forall>e\<in>set rows. \<not> tn_restarted (snd e)) \<longleftrightarrow> restarted_nodes = []"
    using extraction_rows_plain [OF assms] by metis
  note self = extraction_matches_itself [OF assms]
  note same = py_eq_refl [OF plain_older [OF ok(1,2)]]
  show ?thesis
    using self older_matches same legacy_shapes [OF ok(3)] restarted
    by (intro exI [of _ rows]) (simp add: r del: py_eq.simps(4))
qed

theorem sealed_extraction_matches_witness:
  "\<exists>r rows. timeline_extract (sample_timeline_status 5 [1, 5]) (sample_timeline_status 13 [9, 5, 13]) [] = Inr r \<and>
     recorded_extract_matches r (PDict (older_form 2 [''restarted_between_status_snapshots''] rows)) = Inr True"
proof -
  have "succeeded (timeline_extract (sample_timeline_status 5 [1, 5]) (sample_timeline_status 13 [9, 5, 13]) [])" by code_simp
  moreover have "plain (sample_timeline_status 5 [1, 5])" "plain (sample_timeline_status 13 [9, 5, 13])" by code_simp+
  ultimately show ?thesis using sealed_extraction_matches [of _ _ "[]"] by (fastforce simp: succeeded_iff)
qed

end
