(* ===== verification/Storage_Footprint.thy ===== *)
theory Storage_Footprint
  imports Filesystem Timelines
begin

text \<open>
  \<open>src/benchctl/storage_footprint.py\<close>: sizes of the files of the three nodes at three points of
  a run. \<open>capture\<close> lists the regular files below each node directory with a category derived from
  the path and adds up their sizes; \<open>receipt\<close> adds the differences between the three captures;
  \<open>errors\<close> recomputes a receipt from its file rows.
\<close>

definition CATEGORIES :: "string list" where
  "CATEGORIES = [''raft_wal_data'', ''raft_wal_metadata'', ''raft_snapshot_data'', ''raft_snapshot_metadata'',
     ''raft_snapshot_temporary'', ''application_journal'', ''other'']"

definition SIZE_FIELDS :: "string list" where
  "SIZE_FIELDS = [''files'', ''logical_bytes'', ''allocated_bytes'']"

definition category_of :: "string list \<Rightarrow> string" where
  "category_of parts =
     (let name = path_name parts in
      if length parts = 2 \<and> name = ''application.wal'' then ''application_journal''
      else if 3 \<le> length parts \<and> parts ! 1 = ''raft''
        then (if ends_with name ''.rfwb'' \<or> ends_with name ''.rfwc'' then ''raft_wal_data''
          else if name = ''raft-wal-current'' then ''raft_wal_metadata''
          else if parts ! 2 = ''snapshots''
            then (if starts_with name ''.'' \<and> ends_with name ''.tmp'' then ''raft_snapshot_temporary''
              else if ends_with name ''.rfsn'' \<or> name = ''pending.snapshot-transfer.body'' then ''raft_snapshot_data''
              else if name \<in> {''current.snapshot'', ''pending.snapshot-transfer''} then ''raft_snapshot_metadata''
              else ''other'')
          else ''other'')
      else ''other'')"

record sizes =
  z_files :: int
  z_logical :: int
  z_allocated :: int

type_synonym totals = "(string \<times> sizes) list"

definition empty_totals :: totals where
  "empty_totals = map (\<lambda>category. (category, \<lparr>z_files = 0, z_logical = 0, z_allocated = 0\<rparr>)) CATEGORIES"

definition add_file :: "string \<Rightarrow> int \<Rightarrow> int \<Rightarrow> totals \<Rightarrow> totals" where
  "add_file category logical allocated t =
     map (\<lambda>(c, z). if c = category
        then (c, \<lparr>z_files = z_files z + 1, z_logical = z_logical z + logical, z_allocated = z_allocated z + allocated\<rparr>) else (c, z)) t"

definition sizes_object :: "sizes \<Rightarrow> pyval" where
  "sizes_object z = PDict [kv ''files'' (PInt (z_files z)), kv ''logical_bytes'' (PInt (z_logical z)), kv ''allocated_bytes'' (PInt (z_allocated z))]"

definition totals_object :: "totals \<Rightarrow> pyval" where
  "totals_object t = PDict (map (\<lambda>(c, z). kv c (sizes_object z)) t)"

section \<open>Capture\<close>

definition file_row :: "string list \<Rightarrow> int \<Rightarrow> int \<Rightarrow> pyval" where
  "file_row parts logical allocated = PDict [kv ''path'' (PStr (as_posix parts)), kv ''category'' (PStr (category_of parts)),
     kv ''logical_bytes'' (PInt logical), kv ''allocated_bytes'' (PInt allocated)]"

definition capture_step :: "string \<Rightarrow> pyval list \<times> totals \<Rightarrow> string list \<times> fsnode \<Rightarrow> (pyval list \<times> totals) res" where
  "capture_step directory = (\<lambda>(files, t) (path, n).
     case n of
       Symlink _ \<Rightarrow> raiseE ValueError ''symlink in live storage footprint''
     | Regular text blocks \<Rightarrow>
         let relative = directory # path; logical = int (length text); allocated = int blocks * 512 in
         Inr (files @ [file_row relative logical allocated], add_file (category_of relative) logical allocated t)
     | _ \<Rightarrow> Inr (files, t))"

definition node_capture :: "pyval list \<times> totals \<Rightarrow> pyval" where
  "node_capture = (\<lambda>(files, t). PDict [kv ''files'' (PList files), kv ''totals'' (totals_object t)])"

definition capture_node :: "fsnode \<Rightarrow> int \<Rightarrow> (pykey \<times> pyval) res" where
  "capture_node dir node =
     (case child dir (''node-'' @ int_str node) of
        Some (Directory es) \<Rightarrow>
          bindE (foldE (capture_step (''node-'' @ int_str node)) ([], empty_totals) (sort_key fst (walk (Directory es)))) (\<lambda>c.
          Inr (kv (int_str node) (node_capture c)))
      | _ \<Rightarrow> raiseE ValueError (''storage footprint is missing node-'' @ int_str node))"

definition add_totals :: "pyval \<Rightarrow> pyval \<Rightarrow> pyval res" where
  "add_totals result v =
     bindE (mapE (\<lambda>category. bindE (mapE (\<lambda>name.
         bindE (item result category) (\<lambda>r. bindE (item r name) (\<lambda>x.
         bindE (item v category) (\<lambda>c. bindE (item c name) (\<lambda>y.
         bindE (py_add x y) (\<lambda>z. Inr (kv name z)))))))
       SIZE_FIELDS) (\<lambda>row. Inr (kv category (PDict row)))) CATEGORIES) (\<lambda>rows. Inr (PDict rows))"

definition sum_totals :: "pyval list \<Rightarrow> pyval res" where
  "sum_totals values = foldE add_totals (totals_object empty_totals) values"

text \<open>\<open>_sum_totals(node["totals"] for node in nodes.values())\<close>\<close>

definition node_totals :: "pydict \<Rightarrow> pyval res" where
  "node_totals nodes = bindE (mapE (\<lambda>(_, node). item node ''totals'') nodes) sum_totals"

definition capture :: "fsnode \<Rightarrow> pyval res" where
  "capture dir =
     bindE (raise_if (\<not> is_directory dir) ValueError ''storage footprint root is not a directory'') (\<lambda>_.
     bindE (mapE (capture_node dir) [1, 2, 3]) (\<lambda>nodes.
     bindE (node_totals nodes) (\<lambda>totals.
     Inr (PDict [kv ''nodes'' (PDict nodes), kv ''totals'' totals]))))"

section \<open>Receipts\<close>

definition total_at :: "pyval \<Rightarrow> string \<Rightarrow> string \<Rightarrow> pyval res" where
  "total_at snapshot category name =
     bindE (item snapshot ''totals'') (\<lambda>t. bindE (item t category) (\<lambda>c. item c name))"

definition category_deltas :: "pyval \<Rightarrow> pyval \<Rightarrow> pyval res" where
  "category_deltas left right =
     bindE (mapE (\<lambda>category. bindE (mapE (\<lambda>name.
         bindE (total_at right category name) (\<lambda>x. bindE (total_at left category name) (\<lambda>y.
         bindE (py_sub x y) (\<lambda>z. Inr (kv name z)))))
       SIZE_FIELDS) (\<lambda>row. Inr (kv category (PDict row)))) CATEGORIES) (\<lambda>rows. Inr (PDict rows))"

definition receipt :: "pyval \<Rightarrow> pyval \<Rightarrow> pyval \<Rightarrow> pyval res" where
  "receipt before after_load after_restart =
     bindE (category_deltas before after_load) (\<lambda>measurement.
     bindE (category_deltas after_load after_restart) (\<lambda>final_restart.
     Inr (PDict [kv ''schema'' (PInt 1),
       kv ''scope'' (PStr ''controller stat observations of logical and allocated regular-file bytes; each boundary follows an owner-thread status barrier; live files are not retained in the evidence archive''),
       kv ''snapshots'' (PDict [kv ''before_measurement'' before, kv ''after_measurement'' after_load, kv ''after_final_restart'' after_restart]),
       kv ''deltas'' (PDict [kv ''measurement'' measurement, kv ''final_restart'' final_restart])])))"

section \<open>Verification\<close>

text \<open>The state of the loop over the file rows of a node: failures, paths seen, totals.\<close>

record row_state =
  w_failures :: "string list"
  w_seen :: "string list"
  w_totals :: totals

definition row_fail :: "string \<Rightarrow> row_state \<Rightarrow> row_state" where
  "row_fail s w = w\<lparr>w_failures := w_failures w @ [s]\<rparr>"

definition row_step :: "string \<Rightarrow> string \<Rightarrow> pyval \<Rightarrow> row_state \<Rightarrow> row_state" where
  "row_step node checkpoint row w =
     (let place = node @ '': '' @ checkpoint in
      case row of
        PDict r \<Rightarrow>
          if \<not> keys_are r [''path'', ''category'', ''logical_bytes'', ''allocated_bytes'']
          then row_fail (''invalid storage footprint file row for node '' @ place) w
          else (case dict_get r ''path'' PNone of
            PStr path \<Rightarrow>
              let relative = path_parts path in
              if \<not> starts_with path (''node-'' @ node @ ''/'') \<or> ''..'' \<in> set relative \<or> path \<in> set (w_seen w)
              then row_fail (''invalid storage footprint path for node '' @ place) w
              else let w1 = w\<lparr>w_seen := w_seen w @ [path]\<rparr>; category = dict_get r ''category'' PNone;
                       logical = dict_get r ''logical_bytes'' PNone; allocated = dict_get r ''allocated_bytes'' PNone in
                if \<not> py_in category (map PStr CATEGORIES) \<or> \<not> py_eq category (PStr (category_of relative))
                then row_fail (''invalid storage footprint category for node '' @ place) w1
                else if \<not> is_nonneg logical \<or> \<not> is_nonneg allocated
                then row_fail (''invalid storage footprint size for node '' @ place) w1
                else w1\<lparr>w_totals := add_file (category_of relative) (the_int logical) (the_int allocated) (w_totals w1)\<rparr>
          | _ \<Rightarrow> row_fail (''invalid storage footprint path for node '' @ place) w)
      | _ \<Rightarrow> row_fail (''invalid storage footprint file row for node '' @ place) w)"

definition node_errors :: "string \<Rightarrow> pykey \<times> pyval \<Rightarrow> string list" where
  "node_errors checkpoint = (\<lambda>(k, observed).
     let node = key_str k in
     case observed of
       PDict d \<Rightarrow>
         if \<not> keys_are d [''files'', ''totals''] then [''invalid storage footprint node '' @ node @ '': '' @ checkpoint]
         else (case dict_get d ''files'' PNone of
           PList files \<Rightarrow>
             let w = fold (row_step node checkpoint) files \<lparr>w_failures = [], w_seen = [], w_totals = empty_totals\<rparr> in
             w_failures w @ (if \<not> py_eq (dict_get d ''totals'' PNone) (totals_object (w_totals w))
               then [''storage footprint node totals differ for node '' @ node @ '': '' @ checkpoint] else [])
         | _ \<Rightarrow> [''invalid storage footprint files for node '' @ node @ '': '' @ checkpoint])
     | _ \<Rightarrow> [''invalid storage footprint node '' @ node @ '': '' @ checkpoint])"

definition snapshot_errors :: "pyval \<Rightarrow> string \<Rightarrow> string list res" where
  "snapshot_errors snapshot checkpoint =
     (case snapshot of
        PDict s \<Rightarrow>
          if \<not> keys_are s [''nodes'', ''totals''] then Inr [''invalid storage footprint snapshot: '' @ checkpoint]
          else (case dict_get s ''nodes'' PNone of
            PDict nodes \<Rightarrow>
              if \<not> keys_are nodes [''1'', ''2'', ''3''] then Inr [''storage footprint node inventory differs: '' @ checkpoint]
              else let failures = concat (map (node_errors checkpoint) nodes) in
                if failures \<noteq> [] then Inr failures
                else bindE (node_totals nodes) (\<lambda>expected_totals.
                  Inr (if \<not> py_eq (dict_get s ''totals'' PNone) expected_totals
                    then [''storage footprint aggregate totals differ: '' @ checkpoint] else []))
          | _ \<Rightarrow> Inr [''storage footprint node inventory differs: '' @ checkpoint])
      | _ \<Rightarrow> Inr [''invalid storage footprint snapshot: '' @ checkpoint])"

definition CHECKPOINTS :: "string list" where
  "CHECKPOINTS = [''before_measurement'', ''after_measurement'', ''after_final_restart'']"

definition footprint_errors :: "pyval \<Rightarrow> string list res" where
  "footprint_errors v =
     (case v of
        PDict d \<Rightarrow>
          if \<not> py_eq (dict_get d ''schema'' PNone) (PInt 1) then Inr [''unsupported storage footprint receipt'']
          else (case dict_get d ''snapshots'' PNone of
            PDict snapshots \<Rightarrow>
              if \<not> keys_are snapshots CHECKPOINTS then Inr [''storage footprint checkpoint inventory differs'']
              else bindE (mapE (\<lambda>(k, snapshot). snapshot_errors snapshot (key_str k)) snapshots) (\<lambda>rows.
                if concat rows \<noteq> [] then Inr (concat rows)
                else bindE (receipt (dict_get snapshots ''before_measurement'' PNone) (dict_get snapshots ''after_measurement'' PNone)
                    (dict_get snapshots ''after_final_restart'' PNone)) (\<lambda>expected.
                  Inr (if \<not> py_eq v expected then [''storage footprint derived totals or deltas differ''] else [])))
          | _ \<Rightarrow> Inr [''storage footprint checkpoint inventory differs''])
      | _ \<Rightarrow> Inr [''unsupported storage footprint receipt''])"

section \<open>Totals as functions of the category\<close>

definition totals_of :: "(string \<Rightarrow> sizes) \<Rightarrow> totals" where
  "totals_of f = map (\<lambda>c. (c, f c)) CATEGORIES"

definition plus_sizes :: "sizes \<Rightarrow> sizes \<Rightarrow> sizes" where
  "plus_sizes a b = \<lparr>z_files = z_files a + z_files b, z_logical = z_logical a + z_logical b, z_allocated = z_allocated a + z_allocated b\<rparr>"

definition zero_sizes :: sizes where
  "zero_sizes = \<lparr>z_files = 0, z_logical = 0, z_allocated = 0\<rparr>"

definition file_sizes :: "int \<Rightarrow> int \<Rightarrow> sizes" where
  "file_sizes logical allocated = \<lparr>z_files = 1, z_logical = logical, z_allocated = allocated\<rparr>"

lemma empty_totals_of: "empty_totals = totals_of (\<lambda>_. zero_sizes)"
  by (simp add: empty_totals_def totals_of_def zero_sizes_def)

lemma add_file_of: "add_file c l a (totals_of f) = totals_of (f(c := plus_sizes (f c) (file_sizes l a)))"
  by (auto simp: add_file_def totals_of_def plus_sizes_def file_sizes_def)

lemma distinct_CATEGORIES: "distinct CATEGORIES"
  by (simp add: CATEGORIES_def)

lemma item_totals: "c \<in> set CATEGORIES \<Longrightarrow> item (totals_object (totals_of f)) c = Inr (sizes_object (f c))"
  by (auto simp: item_def totals_object_def totals_of_def comp_def map_of_eq_None_iff image_image split: option.splits dest!: map_of_SomeD)

lemma item_sizes:
  "item (sizes_object z) ''files'' = Inr (PInt (z_files z))"
  "item (sizes_object z) ''logical_bytes'' = Inr (PInt (z_logical z))"
  "item (sizes_object z) ''allocated_bytes'' = Inr (PInt (z_allocated z))"
  by (simp_all add: item_def sizes_object_def)

lemma add_totals_of:
  "add_totals (totals_object (totals_of f)) (totals_object (totals_of g)) = Inr (totals_object (totals_of (\<lambda>c. plus_sizes (f c) (g c))))"
proof -
  let ?body = "\<lambda>category. bindE (mapE (\<lambda>name.
         bindE (item (totals_object (totals_of f)) category) (\<lambda>r. bindE (item r name) (\<lambda>x.
         bindE (item (totals_object (totals_of g)) category) (\<lambda>c. bindE (item c name) (\<lambda>y.
         bindE (py_add x y) (\<lambda>z. Inr (kv name z)))))))
       SIZE_FIELDS) (\<lambda>row. Inr (kv category (PDict row)))"
  have "?body c = Inr (kv c (sizes_object (plus_sizes (f c) (g c))))" if "c \<in> set CATEGORIES" for c
    using item_totals [OF that] by (simp add: SIZE_FIELDS_def item_sizes) (simp add: sizes_object_def plus_sizes_def)
  then have "mapE ?body CATEGORIES = Inr (map (\<lambda>c. kv c (sizes_object (plus_sizes (f c) (g c)))) CATEGORIES)"
    by (rule mapE_Inr_map)
  then show ?thesis by (simp add: add_totals_def totals_object_def totals_of_def comp_def del: mapE.simps)
qed

lemma plain_totals: "plain (totals_object (totals_of f))"
  using distinct_CATEGORIES
  by (auto simp: totals_object_def totals_of_def sizes_object_def comp_def distinct_map inj_on_def)

lemma category_known: "category_of parts \<in> set CATEGORIES"
  by (auto simp: category_of_def Let_def CATEGORIES_def)

lemma py_in_strings: "py_in v (map PStr xs) \<longleftrightarrow> (\<exists>x\<in>set xs. v = PStr x)"
  by (auto simp: py_in_def list_ex_iff)

section \<open>Captured nodes verify\<close>

definition regular :: "string list \<times> fsnode \<Rightarrow> bool" where
  "regular e = (case snd e of Regular _ _ \<Rightarrow> True | _ \<Rightarrow> False)"

abbreviation start_rows :: row_state where
  "start_rows \<equiv> \<lparr>w_failures = [], w_seen = [], w_totals = empty_totals\<rparr>"

text \<open>The verifier accepts the row that a capture writes for a file, and adds the same sizes.\<close>

lemma row_step_captured:
  assumes "list_all valid_name (dir # p)" "p \<noteq> []" "dir = ''node-'' @ node" "0 \<le> l" "0 \<le> a" "as_posix (dir # p) \<notin> set (w_seen w)"
  shows "row_step node checkpoint (file_row (dir # p) l a) w =
    w\<lparr>w_seen := w_seen w @ [as_posix (dir # p)], w_totals := add_file (category_of (dir # p)) l a (w_totals w)\<rparr>"
proof -
  have "path_parts (as_posix (dir # p)) = dir # p" using assms(1) by (intro path_parts_as_posix) simp_all
  moreover have "''..'' \<notin> set (dir # p)" using assms(1) by (auto simp: list_all_iff valid_name_def)
  moreover have "starts_with (as_posix (dir # p)) (''node-'' @ node @ ''/'')"
    using starts_with_append [of "''node-'' @ node @ ''/''" "as_posix p"] assms(2,3) by (simp add: as_posix_Cons)
  moreover have "py_in (PStr (category_of (dir # p))) (map PStr CATEGORIES)" using category_known by (auto simp: py_in_strings)
  moreover have "keys_are [kv ''path'' x, kv ''category'' y, kv ''logical_bytes'' z, kv ''allocated_bytes'' u]
      [''path'', ''category'', ''logical_bytes'', ''allocated_bytes'']" for x y z u by (simp add: keys_are_def)
  ultimately show ?thesis
    using assms(4-6) unfolding row_step_def file_row_def Let_def by (simp add: dict_get_def is_nonneg_def the_int_def)
qed

lemma capture_step_Inr:
  assumes "capture_step dir (files, t) e = Inr (files', t')"
  shows "if regular e then \<exists>l a. 0 \<le> l \<and> 0 \<le> a \<and> files' = files @ [file_row (dir # fst e) l a] \<and>
      t' = add_file (category_of (dir # fst e)) l a t
    else files' = files \<and> t' = t"
proof -
  obtain path n where e: "e = (path, n)" by (cases e)
  show ?thesis
  proof (cases n)
    case (Regular body blocks)
    then have "regular e" "files' = files @ [file_row (dir # fst e) (int (length body)) (int blocks * 512)]"
      "t' = add_file (category_of (dir # fst e)) (int (length body)) (int blocks * 512) t"
      using assms by (simp_all add: e regular_def capture_step_def Let_def)
    moreover have "0 \<le> int (length body)" "0 \<le> int blocks * 512" by simp_all
    ultimately show ?thesis by metis
  qed (use assms in \<open>simp_all add: e capture_step_def regular_def\<close>)
qed

lemma capture_rows:
  assumes "foldE (capture_step dir) ([], empty_totals) es = Inr (files, t)" "dir = ''node-'' @ node" "valid_name dir"
    "distinct (map fst es)" "\<forall>e\<in>set es. fst e \<noteq> [] \<and> list_all valid_name (fst e)"
  shows "fold (row_step node checkpoint) files start_rows =
      \<lparr>w_failures = [], w_seen = map (\<lambda>e. as_posix (dir # fst e)) (filter regular es), w_totals = t\<rparr> \<and>
    (\<exists>f. t = totals_of f) \<and> (\<forall>row\<in>set files. plain row)"
proof -
  define P where "P = (\<lambda>seen (s :: pyval list \<times> totals). fold (row_step node checkpoint) (fst s) start_rows =
      \<lparr>w_failures = [], w_seen = map (\<lambda>e. as_posix (dir # fst e)) (filter regular seen), w_totals = snd s\<rparr> \<and>
    (\<exists>f. snd s = totals_of f) \<and> (\<forall>row\<in>set (fst s). plain row))"
  have "P es (files, t)" using assms(1)
  proof (rule foldE_invariant)
    show "P [] ([], empty_totals)" by (auto simp: P_def empty_totals_of)
  next
    fix seen e rest s s'
    assume es: "es = seen @ e # rest" and inv: "P seen s" and step: "capture_step dir s e = Inr s'"
    obtain fs t fs' t' where s: "s = (fs, t)" "s' = (fs', t')" by (cases s; cases s')
    note step = capture_step_Inr [OF step [unfolded s]]
    show "P (seen @ [e]) s'"
    proof (cases "regular e")
      case True
      with step obtain l a where la: "0 \<le> l" "0 \<le> a" "fs' = fs @ [file_row (dir # fst e) l a]"
        "t' = add_file (category_of (dir # fst e)) l a t" by auto
      have e: "list_all valid_name (dir # fst e)" "fst e \<noteq> []" using assms(3,5) es by auto
      have fresh: "as_posix (dir # fst e) \<notin> set (map (\<lambda>e. as_posix (dir # fst e)) (filter regular seen))"
      proof
        assume "as_posix (dir # fst e) \<in> set (map (\<lambda>e. as_posix (dir # fst e)) (filter regular seen))"
        then obtain e' where e': "e' \<in> set seen" "as_posix (dir # fst e) = as_posix (dir # fst e')" by auto
        have "list_all valid_name (dir # fst e')" using assms(3,5) es e'(1) by simp
        then have "fst e = fst e'" using as_posix_inj [OF e'(2)] e(1) by simp
        then show False using assms(4) es e'(1) by auto
      qed
      show ?thesis
        using inv row_step_captured [OF e(1) e(2) assms(2) la(1,2), of "fold (row_step node checkpoint) fs start_rows" checkpoint] fresh la True add_file_of
        by (auto simp: P_def s file_row_def)
    next
      case False
      with step inv show ?thesis by (simp add: P_def s)
    qed
  qed
  then show ?thesis by (simp add: P_def)
qed

lemma valid_node_name: "valid_name (''node-'' @ int_str i)"
proof -
  have "\<not> is_digit (CHR ''/'')" by (simp add: is_digit_def)
  then have "CHR ''/'' \<notin> set (dec_str j)" if "0 \<le> j" for j
    using dec_str_digits [OF that] by (auto simp: list_all_iff)
  from this [of i] this [of "- i"] have "CHR ''/'' \<notin> set (int_str i)" by (auto simp: int_str_def)
  then show ?thesis by (simp add: valid_name_def)
qed

definition verified_node :: "string \<times> pyval \<Rightarrow> bool" where
  "verified_node = (\<lambda>(node, observed). (\<forall>checkpoint. node_errors checkpoint (kv node observed) = []) \<and> plain observed \<and>
     (\<exists>f. item observed ''totals'' = Inr (totals_object (totals_of f))))"

lemma capture_node_verified:
  assumes "capture_node dir i = Inr row" "wf_tree dir"
  shows "\<exists>observed. row = kv (int_str i) observed \<and> verified_node (int_str i, observed)"
proof -
  obtain es c where es: "child dir (''node-'' @ int_str i) = Some (Directory es)"
    and loop: "foldE (capture_step (''node-'' @ int_str i)) ([], empty_totals) (sort_key fst (walk (Directory es))) = Inr c"
    and row: "row = kv (int_str i) (node_capture c)"
    using assms(1) by (auto simp: capture_node_def split: option.splits fsnode.splits)
  obtain files t where c: "c = (files, t)" by (cases c)
  have wf: "wf_tree (Directory es)"
    using assms(2) es by (cases dir) (fastforce simp: child_def dest: map_of_SomeD)+
  let ?es = "sort_key fst (walk (Directory es))"
  have "distinct (map fst (walk (Directory es)))" by (rule walk_distinct [OF wf])
  then have d: "distinct (map fst ?es)" by (simp add: distinct_map)
  have v: "\<forall>e\<in>set ?es. fst e \<noteq> [] \<and> list_all valid_name (fst e)"
    using walk_valid [OF wf] walk_nonempty by fastforce
  note rows = capture_rows [OF loop [unfolded c] refl valid_node_name d v]
  obtain f where f: "t = totals_of f" using rows by blast
  have keys: "keys_are [kv ''files'' x, kv ''totals'' y] [''files'', ''totals'']" for x y by (simp add: keys_are_def)
  have "node_errors checkpoint (kv (int_str i) (node_capture c)) = []" for checkpoint
    using rows [of checkpoint] py_eq_refl [OF plain_totals [of f]] keys
    by (simp add: node_errors_def node_capture_def c f dict_get_def del: py_eq.simps)
  moreover have "plain (node_capture c)" using rows plain_totals [of f] by (auto simp: node_capture_def c f)
  moreover have "item (node_capture c) ''totals'' = Inr (totals_object (totals_of f))" by (simp add: node_capture_def c f item_def)
  ultimately show ?thesis using row by (auto simp: verified_node_def)
qed

lemma sum_of_three:
  assumes "item a ''totals'' = Inr (totals_object (totals_of f))" "item b ''totals'' = Inr (totals_object (totals_of g))"
    "item c ''totals'' = Inr (totals_object (totals_of h))"
  shows "\<exists>F. node_totals [(k, a), (l, b), (m, c)] = Inr (totals_object (totals_of F))"
  using assms add_totals_of by (fastforce simp: node_totals_def sum_totals_def empty_totals_of)

definition verified_snapshot :: "pyval \<Rightarrow> bool" where
  "verified_snapshot snapshot \<longleftrightarrow> (\<forall>checkpoint. snapshot_errors snapshot checkpoint = Inr []) \<and> plain snapshot \<and>
     (\<exists>f. item snapshot ''totals'' = Inr (totals_object (totals_of f)))"

lemma capture_verified:
  assumes "capture dir = Inr snapshot" "wf_tree dir"
  shows "verified_snapshot snapshot"
proof -
  obtain r1 r2 r3 T where rows: "capture_node dir 1 = Inr r1" "capture_node dir 2 = Inr r2" "capture_node dir 3 = Inr r3"
    and T: "node_totals [r1, r2, r3] = Inr T" and s: "snapshot = PDict [kv ''nodes'' (PDict [r1, r2, r3]), kv ''totals'' T]"
    using assms(1) by (auto simp: capture_def)
  have strs: "int_str 1 = ''1''" "int_str 2 = ''2''" "int_str 3 = ''3''" by code_simp+
  obtain a where a: "r1 = kv ''1'' a" "verified_node (''1'', a)" using capture_node_verified [OF rows(1) assms(2)] unfolding strs by blast
  obtain b where b: "r2 = kv ''2'' b" "verified_node (''2'', b)" using capture_node_verified [OF rows(2) assms(2)] unfolding strs by blast
  obtain c where c: "r3 = kv ''3'' c" "verified_node (''3'', c)" using capture_node_verified [OF rows(3) assms(2)] unfolding strs by blast
  note r = a(1) b(1) c(1) and v = a(2) b(2) c(2)
  obtain F where F: "T = totals_object (totals_of F)"
  proof -
    obtain f g h where "item a ''totals'' = Inr (totals_object (totals_of f))" "item b ''totals'' = Inr (totals_object (totals_of g))"
      "item c ''totals'' = Inr (totals_object (totals_of h))" using v by (auto simp: verified_node_def)
    from sum_of_three [OF this] T r that show ?thesis by (metis sum.inject(2))
  qed
  have keys: "keys_are [kv ''nodes'' x, kv ''totals'' y] [''nodes'', ''totals'']"
    "keys_are [kv ''1'' x, kv ''2'' y, kv ''3'' z] [''1'', ''2'', ''3'']" for x y z by (simp_all add: keys_are_def)
  have "snapshot_errors snapshot checkpoint = Inr []" for checkpoint
    using v T py_eq_refl [OF plain_totals [of F]]
    by (simp add: snapshot_errors_def s r keys dict_get_def verified_node_def F del: py_eq.simps)
  moreover have "plain snapshot" using v plain_totals [of F] by (simp add: s r verified_node_def F)
  moreover have "item snapshot ''totals'' = Inr (totals_object (totals_of F))" by (simp add: s item_def F)
  ultimately show ?thesis unfolding verified_snapshot_def by blast
qed

definition minus_sizes :: "sizes \<Rightarrow> sizes \<Rightarrow> sizes" where
  "minus_sizes a b = \<lparr>z_files = z_files a - z_files b, z_logical = z_logical a - z_logical b, z_allocated = z_allocated a - z_allocated b\<rparr>"

lemma category_deltas_of:
  assumes "item left ''totals'' = Inr (totals_object (totals_of f))" "item right ''totals'' = Inr (totals_object (totals_of g))"
  shows "category_deltas left right = Inr (totals_object (totals_of (\<lambda>c. minus_sizes (g c) (f c))))"
proof -
  let ?body = "\<lambda>category. bindE (mapE (\<lambda>name.
         bindE (total_at right category name) (\<lambda>x. bindE (total_at left category name) (\<lambda>y.
         bindE (py_sub x y) (\<lambda>z. Inr (kv name z)))))
       SIZE_FIELDS) (\<lambda>row. Inr (kv category (PDict row)))"
  have "?body c = Inr (kv c (sizes_object (minus_sizes (g c) (f c))))" if "c \<in> set CATEGORIES" for c
    using item_totals [OF that] assms
    by (simp add: total_at_def SIZE_FIELDS_def item_sizes) (simp add: sizes_object_def minus_sizes_def)
  then have "mapE ?body CATEGORIES = Inr (map (\<lambda>c. kv c (sizes_object (minus_sizes (g c) (f c)))) CATEGORIES)"
    by (rule mapE_Inr_map)
  then show ?thesis by (simp add: category_deltas_def totals_object_def totals_of_def comp_def del: mapE.simps)
qed

lemma receipt_verified:
  assumes "verified_snapshot a" "verified_snapshot b" "verified_snapshot c"
  shows "\<exists>r. receipt a b c = Inr r \<and> footprint_errors r = Inr []"
proof -
  obtain f g h where t: "item a ''totals'' = Inr (totals_object (totals_of f))" "item b ''totals'' = Inr (totals_object (totals_of g))"
    "item c ''totals'' = Inr (totals_object (totals_of h))" using assms by (auto simp: verified_snapshot_def)
  obtain d scope where d: "receipt a b c = Inr (PDict d)" and shape: "d = [kv ''schema'' (PInt 1), kv ''scope'' (PStr scope),
      kv ''snapshots'' (PDict [kv ''before_measurement'' a, kv ''after_measurement'' b, kv ''after_final_restart'' c]),
      kv ''deltas'' (PDict [kv ''measurement'' (totals_object (totals_of (\<lambda>c. minus_sizes (g c) (f c)))),
        kv ''final_restart'' (totals_object (totals_of (\<lambda>c. minus_sizes (h c) (g c))))])]"
    by (simp add: receipt_def category_deltas_of [OF t(1,2)] category_deltas_of [OF t(2,3)])
  have "plain (PDict d)"
    using assms plain_totals by (simp add: shape verified_snapshot_def)
  note same = py_eq_refl [OF this]
  have get: "dict_get d ''schema'' PNone = PInt 1"
    "dict_get d ''snapshots'' PNone = PDict [kv ''before_measurement'' a, kv ''after_measurement'' b, kv ''after_final_restart'' c]"
    by (simp_all add: shape dict_get_def)
  have snaps: "dict_get [kv ''before_measurement'' a, kv ''after_measurement'' b, kv ''after_final_restart'' c] ''before_measurement'' PNone = a"
    "dict_get [kv ''before_measurement'' a, kv ''after_measurement'' b, kv ''after_final_restart'' c] ''after_measurement'' PNone = b"
    "dict_get [kv ''before_measurement'' a, kv ''after_measurement'' b, kv ''after_final_restart'' c] ''after_final_restart'' PNone = c"
    by (simp_all add: dict_get_def)
  have keys: "keys_are [kv ''before_measurement'' a, kv ''after_measurement'' b, kv ''after_final_restart'' c] CHECKPOINTS"
    by (simp add: keys_are_def CHECKPOINTS_def)
  have one: "py_eq (PInt 1) (PInt 1)" by (simp add: num_of_def num_eq_def)
  have rows: "mapE (\<lambda>(k, snapshot). snapshot_errors snapshot (key_str k))
      [kv ''before_measurement'' a, kv ''after_measurement'' b, kv ''after_final_restart'' c] = Inr [[], [], []]"
    using assms by (simp add: verified_snapshot_def)
  have "footprint_errors (PDict d) = Inr []"
    unfolding footprint_errors_def pyval.case get keys snaps rows d bindE_simps using same one keys
    by (simp del: py_eq.simps)
  with d show ?thesis by blast
qed

text \<open>C23: the storage receipt that the controller writes passes its own verification: capturing
  the three nodes three times, whatever regular files, directories and other nodes their
  directories hold, and verifying the receipt from its file rows reports no error.\<close>

theorem captured_receipt_verifies:
  assumes "wf_tree d1" "wf_tree d2" "wf_tree d3"
    "capture d1 = Inr before" "capture d2 = Inr after_load" "capture d3 = Inr after_restart"
  shows "\<exists>r. receipt before after_load after_restart = Inr r \<and> footprint_errors r = Inr []"
  using receipt_verified capture_verified assms by metis

definition sample_tree :: fsnode where
  "sample_tree = Directory (map (\<lambda>i. (''node-'' @ int_str i, Directory [
     (''application.wal'', Regular ''abc'' 8),
     (''raft'', Directory [(''000001.rfwb'', Regular ''0123456789'' 16), (''raft-wal-current'', Regular ''1'' 8),
       (''snapshots'', Directory [(''.a.tmp'', Regular [] 0), (''7.rfsn'', Regular ''snap'' 8)])])])) [1, 2, 3])"

theorem captured_receipt_verifies_witness:
  "\<exists>s r. capture sample_tree = Inr s \<and> receipt s s s = Inr r \<and> footprint_errors r = Inr []"
proof -
  have "succeeded (capture sample_tree)" "wf_tree sample_tree" by code_simp+
  then show ?thesis using captured_receipt_verifies by (fastforce simp: succeeded_iff)
qed

section \<open>Accepted receipts\<close>

text \<open>A row of an accepted receipt: a file below the directory of its node, in the category of
  its path, with sizes that are natural numbers.\<close>

definition row_path :: "pyval \<Rightarrow> string" where
  "row_path row = (case row of PDict r \<Rightarrow> (case dict_get r ''path'' PNone of PStr s \<Rightarrow> s | _ \<Rightarrow> []) | _ \<Rightarrow> [])"

definition row_good :: "string \<Rightarrow> pyval \<Rightarrow> bool" where
  "row_good node row \<longleftrightarrow> (\<exists>r l a. row = PDict r \<and> dict_get r ''path'' PNone = PStr (row_path row) \<and>
     starts_with (row_path row) (''node-'' @ node @ ''/'') \<and> ''..'' \<notin> set (path_parts (row_path row)) \<and>
     dict_get r ''category'' PNone = PStr (category_of (path_parts (row_path row))) \<and>
     dict_get r ''logical_bytes'' PNone = PInt l \<and> 0 \<le> l \<and> dict_get r ''allocated_bytes'' PNone = PInt a \<and> 0 \<le> a)"

text \<open>What a row contributes to the totals of a category.\<close>

definition row_share :: "string \<Rightarrow> pyval \<Rightarrow> sizes" where
  "row_share category row = (case row of
     PDict r \<Rightarrow> if dict_get r ''category'' PNone = PStr category
       then file_sizes (the_int (dict_get r ''logical_bytes'' PNone)) (the_int (dict_get r ''allocated_bytes'' PNone)) else zero_sizes
   | _ \<Rightarrow> zero_sizes)"

definition shares :: "pyval list \<Rightarrow> string \<Rightarrow> sizes" where
  "shares files category = foldl plus_sizes zero_sizes (map (row_share category) files)"

lemma plus_zero [simp]: "plus_sizes z zero_sizes = z"
  by (simp add: plus_sizes_def zero_sizes_def)

lemma row_step_failures: "\<exists>fs. w_failures (row_step node checkpoint row w) = w_failures w @ fs"
  by (cases row; cases "dict_get (case row of PDict r \<Rightarrow> r | _ \<Rightarrow> []) ''path'' PNone") (simp_all add: row_step_def row_fail_def Let_def)

lemma row_step_accepts:
  assumes "w_failures (row_step node checkpoint row w) = []" "w_totals w = totals_of f"
  shows "w_failures w = [] \<and> row_good node row \<and> row_path row \<notin> set (w_seen w) \<and>
    w_seen (row_step node checkpoint row w) = w_seen w @ [row_path row] \<and>
    w_totals (row_step node checkpoint row w) = totals_of (\<lambda>c. plus_sizes (f c) (row_share c row))"
proof -
  obtain r where row: "row = PDict r" using assms(1) by (cases row) (simp_all add: row_step_def row_fail_def Let_def)
  obtain path where path: "dict_get r ''path'' PNone = PStr path"
    using assms(1) by (cases "dict_get r ''path'' PNone") (simp_all add: row_step_def row row_fail_def Let_def split: if_splits)
  have rp: "row_path row = path" by (simp add: row_path_def row path)
  let ?c = "category_of (path_parts path)"
  have ok: "starts_with path (''node-'' @ node @ ''/'')" "''..'' \<notin> set (path_parts path)" "path \<notin> set (w_seen w)" "w_failures w = []"
    "dict_get r ''category'' PNone = PStr ?c" "is_nonneg (dict_get r ''logical_bytes'' PNone)" "is_nonneg (dict_get r ''allocated_bytes'' PNone)"
    "row_step node checkpoint row w = w\<lparr>w_seen := w_seen w @ [path],
       w_totals := add_file ?c (the_int (dict_get r ''logical_bytes'' PNone)) (the_int (dict_get r ''allocated_bytes'' PNone)) (w_totals w)\<rparr>"
    using assms(1) by (auto simp: row_step_def row path row_fail_def Let_def split: if_splits)
  have "f(?c := plus_sizes (f ?c) (file_sizes l a)) = (\<lambda>c. plus_sizes (f c) (if ?c = c then file_sizes l a else zero_sizes))" for l a
    by auto
  then have "add_file ?c l a (totals_of f) = totals_of (\<lambda>c. plus_sizes (f c) (if ?c = c then file_sizes l a else zero_sizes))" for l a
    by (simp add: add_file_of)
  then have "w_totals (row_step node checkpoint row w) = totals_of (\<lambda>c. plus_sizes (f c) (row_share c row))"
    unfolding ok(8) using assms(2) ok(5) by (simp add: row_share_def row)
  moreover have "row_good node row" using ok path by (auto simp: row_good_def row rp [unfolded row] is_nonneg_iff)
  ultimately show ?thesis using ok rp by simp
qed

lemma rows_failures: "\<exists>fs. w_failures (fold (row_step node checkpoint) files w) = w_failures w @ fs"
proof (induction files arbitrary: w)
  case (Cons row files)
  obtain fs where "w_failures (row_step node checkpoint row w) = w_failures w @ fs" using row_step_failures by blast
  then show ?case using Cons.IH [of "row_step node checkpoint row w"] by auto
qed simp

lemma rows_accepted:
  assumes "w_failures (fold (row_step node checkpoint) files w) = []" "w_totals w = totals_of f" "distinct (w_seen w)"
  shows "list_all (row_good node) files \<and> distinct (w_seen w @ map row_path files) \<and>
    w_totals (fold (row_step node checkpoint) files w) = totals_of (\<lambda>c. foldl plus_sizes (f c) (map (row_share c) files)) \<and> w_failures w = []"
  using assms
proof (induction files arbitrary: w f)
  case (Cons row files)
  let ?w = "row_step node checkpoint row w"
  have "w_failures ?w = []"
    using Cons.prems(1) rows_failures [of node checkpoint files ?w] by auto
  note step = row_step_accepts [OF this Cons.prems(2)]
  have "distinct (w_seen ?w)" using step Cons.prems(3) by simp
  moreover have "w_failures (fold (row_step node checkpoint) files ?w) = []" using Cons.prems(1) by simp
  ultimately show ?case using Cons.IH [of ?w "\<lambda>c. plus_sizes (f c) (row_share c row)"] step by simp
qed simp

definition node_entry :: "pyval \<Rightarrow> string \<Rightarrow> string \<Rightarrow> pyval res" where
  "node_entry v checkpoint node =
     bindE (item v ''snapshots'') (\<lambda>s. bindE (item s checkpoint) (\<lambda>c. bindE (item c ''nodes'') (\<lambda>n. item n node)))"

lemma keys_are_item:
  assumes "keys_are d ks" "k \<in> set ks" shows "item (PDict d) k = Inr (dict_get d k PNone) \<and> (KStr k, dict_get d k PNone) \<in> set d"
proof -
  have "KStr k \<in> fst ` set d" using assms by (auto simp: keys_are_def)
  then obtain x where "map_of d (KStr k) = Some x" by (metis map_of_eq_None_iff not_Some_eq)
  then show ?thesis by (auto simp: item_def dict_get_def dest: map_of_SomeD)
qed

lemma node_errors_accepts:
  assumes "node_errors checkpoint (kv node observed) = []"
  shows "\<exists>files t. item observed ''files'' = Inr (PList files) \<and> item observed ''totals'' = Inr t \<and> list_all (row_good node) files \<and>
    distinct (map row_path files) \<and> py_eq t (totals_object (totals_of (shares files)))"
proof -
  obtain d where d: "observed = PDict d" "keys_are d [''files'', ''totals'']"
    using assms by (cases observed) (auto simp: node_errors_def Let_def split: if_splits)
  obtain files where files: "dict_get d ''files'' PNone = PList files"
    using assms d(2) by (cases "dict_get d ''files'' PNone") (auto simp: node_errors_def d(1) Let_def)
  let ?w = "fold (row_step node checkpoint) files start_rows"
  have ok: "w_failures ?w = []" "py_eq (dict_get d ''totals'' PNone) (totals_object (w_totals ?w))"
    using assms d(2) by (auto simp: node_errors_def d(1) files Let_def split: if_splits)
  note rows = rows_accepted [OF ok(1), of "\<lambda>_. zero_sizes", simplified empty_totals_of]
  moreover have "shares files = (\<lambda>c. foldl plus_sizes zero_sizes (map (row_share c) files))" by (simp add: fun_eq_iff shares_def)
  ultimately have "w_totals ?w = totals_of (shares files)" by (simp add: empty_totals_of)
  with ok(2) rows files keys_are_item [OF d(2), of "''files''"] keys_are_item [OF d(2), of "''totals''"] show ?thesis
    by (auto simp: d(1) empty_totals_of)
qed

lemma snapshot_errors_accepts:
  assumes "snapshot_errors snapshot checkpoint = Inr []" "node \<in> {''1'', ''2'', ''3''}"
  shows "\<exists>observed. bindE (item snapshot ''nodes'') (\<lambda>n. item n node) = Inr observed \<and> node_errors checkpoint (kv node observed) = []"
proof -
  obtain d where d: "snapshot = PDict d" "keys_are d [''nodes'', ''totals'']"
    using assms(1) by (cases snapshot) (auto simp: snapshot_errors_def split: if_splits)
  obtain nodes where nodes: "dict_get d ''nodes'' PNone = PDict nodes" "keys_are nodes [''1'', ''2'', ''3'']"
    using assms(1) d(2) by (cases "dict_get d ''nodes'' PNone") (auto simp: snapshot_errors_def d(1) split: if_splits)
  have none: "concat (map (node_errors checkpoint) nodes) = []"
    using assms(1) d(2) nodes(2) by (auto simp: snapshot_errors_def d(1) nodes(1) Let_def split: if_splits)
  have node: "item (PDict nodes) node = Inr (dict_get nodes node PNone)" "(KStr node, dict_get nodes node PNone) \<in> set nodes"
    using keys_are_item [OF nodes(2), of node] assms(2) by simp_all
  then have "node_errors checkpoint (kv node (dict_get nodes node PNone)) = []" using none by (auto simp: concat_eq_Nil_conv)
  then show ?thesis using node(1) keys_are_item [OF d(2), of "''nodes''"] by (simp add: d(1) nodes(1))
qed

lemma footprint_errors_accepts:
  assumes "footprint_errors v = Inr []" "checkpoint \<in> set CHECKPOINTS"
  shows "\<exists>snapshot. bindE (item v ''snapshots'') (\<lambda>s. item s checkpoint) = Inr snapshot \<and> snapshot_errors snapshot checkpoint = Inr []"
proof -
  obtain d where d: "v = PDict d" "py_eq (dict_get d ''schema'' PNone) (PInt 1)"
    using assms(1) by (cases v) (auto simp: footprint_errors_def split: if_splits)
  obtain snaps where snaps: "dict_get d ''snapshots'' PNone = PDict snaps" "keys_are snaps CHECKPOINTS"
    using assms(1) d(2) by (cases "dict_get d ''snapshots'' PNone") (auto simp: footprint_errors_def d(1) split: if_splits)
  obtain rows where rows: "mapE (\<lambda>(k, snapshot). snapshot_errors snapshot (key_str k)) snaps = Inr rows" "concat rows = []"
    using assms(1) d(2) snaps(2) by (auto simp: footprint_errors_def d(1) snaps(1) split: if_splits)
  have at: "item (PDict snaps) checkpoint = Inr (dict_get snaps checkpoint PNone)" "(KStr checkpoint, dict_get snaps checkpoint PNone) \<in> set snaps"
    using keys_are_item [OF snaps(2) assms(2)] by simp_all
  from mapE_mem' [OF rows(1) at(2)] rows(2) have "snapshot_errors (dict_get snaps checkpoint PNone) checkpoint = Inr []"
    by (auto simp: concat_eq_Nil_conv)
  moreover have "item v ''snapshots'' = Inr (PDict snaps)"
    using get_or_item [of v "''snapshots''" "PDict snaps"] snaps(1) by (simp add: d(1) get_or_def)
  ultimately show ?thesis using at(1) by simp
qed

text \<open>C24: an accepted storage receipt is exact. At every checkpoint and for every node its file
  rows have distinct paths below the directory of the node, each in the category of its path,
  and the totals of the node are the sums of the rows per category.\<close>

theorem accepted_footprint_exact:
  assumes "footprint_errors v = Inr []" "checkpoint \<in> set CHECKPOINTS" "node \<in> {''1'', ''2'', ''3''}"
  shows "\<exists>observed files t. node_entry v checkpoint node = Inr observed \<and> item observed ''files'' = Inr (PList files) \<and>
    item observed ''totals'' = Inr t \<and> list_all (row_good node) files \<and> distinct (map row_path files) \<and>
    py_eq t (totals_object (totals_of (shares files)))"
proof -
  obtain snapshot where s: "bindE (item v ''snapshots'') (\<lambda>s. item s checkpoint) = Inr snapshot" "snapshot_errors snapshot checkpoint = Inr []"
    using footprint_errors_accepts [OF assms(1,2)] by blast
  obtain observed where "bindE (item snapshot ''nodes'') (\<lambda>n. item n node) = Inr observed" "node_errors checkpoint (kv node observed) = []"
    using snapshot_errors_accepts [OF s(2) assms(3)] by blast
  then show ?thesis using s(1) node_errors_accepts by (auto simp: node_entry_def)
qed

theorem accepted_footprint_exact_witness:
  "\<exists>r observed files. bindE (capture sample_tree) (\<lambda>s. receipt s s s) = Inr r \<and> node_entry r ''after_measurement'' ''2'' = Inr observed \<and>
     item observed ''files'' = Inr (PList files) \<and> list_all (row_good ''2'') files \<and> distinct (map row_path files)"
proof -
  have "succeeded (capture sample_tree)" "wf_tree sample_tree" by code_simp+
  then obtain s where s: "capture sample_tree = Inr s" "verified_snapshot s" using capture_verified by (auto simp: succeeded_iff)
  obtain r where r: "bindE (capture sample_tree) (\<lambda>s. receipt s s s) = Inr r" "footprint_errors r = Inr []"
    using receipt_verified [OF s(2) s(2) s(2)] s(1) by auto
  have "''after_measurement'' \<in> set CHECKPOINTS" by (simp add: CHECKPOINTS_def)
  from accepted_footprint_exact [OF r(2) this, of "''2''"] r(1) show ?thesis by blast
qed

end
