(* ===== verification/Linearizability.thy ===== *)
theory Linearizability
  imports Main "HOL-Library.Multiset"
begin

text \<open>
  The abstract specification of the history checker, independent of its code: legal runs
  of a sequential object, linearizations of a history of timed operations, and two
  interfaces. \<open>indexed_history\<close> is what a search over sets of completed operations may
  rely on; its lemmas turn the search's recurrence into the existence of an order.
  \<open>intervals\<close> gives locality: orders of the single objects combine into one order of the
  whole history, because every operation has a point inside its interval.
\<close>

section \<open>Linearizations\<close>

fun legal :: "('v \<Rightarrow> 'op \<Rightarrow> 'v option) \<Rightarrow> 'v \<Rightarrow> 'op list \<Rightarrow> bool" where
  "legal step v [] = True"
| "legal step v (x # xs) = (case step v x of None \<Rightarrow> False | Some v' \<Rightarrow> legal step v' xs)"

text \<open>\<open>order\<close> lists the positions of \<open>ops\<close>: each once, no operation before one that had
  finished when it started, and legal as a sequential run.\<close>

definition is_linearization ::
  "('op \<Rightarrow> int) \<Rightarrow> ('op \<Rightarrow> int) \<Rightarrow> ('v \<Rightarrow> 'op \<Rightarrow> 'v option) \<Rightarrow> 'v \<Rightarrow> 'op list \<Rightarrow> nat list \<Rightarrow> bool" where
  "is_linearization start finish step v ops order \<longleftrightarrow>
     distinct order \<and> set order = {..<length ops} \<and>
     sorted_wrt (\<lambda>i j. \<not> finish (ops ! j) < start (ops ! i)) order \<and>
     legal step v (map ((!) ops) order)"

text \<open>Completing a set \<open>D\<close> of operations already ordered, one operation at a time.\<close>

fun extends ::
  "nat \<Rightarrow> ('v \<Rightarrow> nat \<Rightarrow> 'v option) \<Rightarrow> (nat \<Rightarrow> nat set) \<Rightarrow> nat set \<Rightarrow> 'v \<Rightarrow> nat list \<Rightarrow> bool" where
  "extends n step preds D v [] = ({..<n} \<subseteq> D)"
| "extends n step preds D v (i # is) =
     (i < n \<and> i \<notin> D \<and> preds i \<subseteq> D \<and>
      (case step v i of None \<Rightarrow> False | Some v' \<Rightarrow> extends n step preds (insert i D) v' is))"

definition completable ::
  "nat \<Rightarrow> ('v \<Rightarrow> nat \<Rightarrow> 'v option) \<Rightarrow> (nat \<Rightarrow> nat set) \<Rightarrow> nat set \<Rightarrow> 'v \<Rightarrow> bool" where
  "completable n step preds D v \<longleftrightarrow> (\<exists>is. extends n step preds D v is)"

section \<open>Searching over sets of completed operations\<close>

locale indexed_history =
  fixes n :: nat
    and step :: "'v \<Rightarrow> nat \<Rightarrow> 'v option"
    and preds :: "nat \<Rightarrow> nat set"
    and same :: "'v \<Rightarrow> 'v \<Rightarrow> bool"
  assumes preds_bound: "preds i \<subseteq> {..<n} - {i}"
    and same_step: "same v w \<Longrightarrow> rel_option same (step v i) (step w i)"
begin

lemma completable_iff:
  "completable n step preds D v \<longleftrightarrow>
     {..<n} \<subseteq> D \<or>
     (\<exists>i<n. i \<notin> D \<and> preds i \<subseteq> D \<and> (\<exists>v'. step v i = Some v' \<and> completable n step preds (insert i D) v'))"
    (is "?l \<longleftrightarrow> ?r")
proof
  assume ?l
  then obtain xs where "extends n step preds D v xs" by (auto simp: completable_def)
  then show ?r by (cases xs) (auto simp: completable_def split: option.splits)
next
  assume ?r
  then show ?l
  proof
    assume "{..<n} \<subseteq> D"
    then have "extends n step preds D v []" by simp
    then show ?l unfolding completable_def by blast
  next
    assume "\<exists>i<n. i \<notin> D \<and> preds i \<subseteq> D \<and>
      (\<exists>v'. step v i = Some v' \<and> completable n step preds (insert i D) v')"
    then obtain i v' xs where "i < n" "i \<notin> D" "preds i \<subseteq> D" "step v i = Some v'"
        "extends n step preds (insert i D) v' xs"
      by (auto simp: completable_def)
    then have "extends n step preds D v (i # xs)" by simp
    then show ?l unfolding completable_def by blast
  qed
qed

lemma extends_same:
  "same v w \<Longrightarrow> extends n step preds D v is \<Longrightarrow> extends n step preds D w is"
proof (induction "is" arbitrary: D v w)
  case (Cons i "is")
  from same_step [OF Cons.prems(1), of i] Cons.prems(2) Cons.IH
  show ?case by (auto split: option.splits elim!: option.rel_cases)
qed simp

lemma completable_same: "same v w \<Longrightarrow> completable n step preds D v \<Longrightarrow> completable n step preds D w"
  unfolding completable_def by (blast intro: extends_same)

lemma extends_order:
  "extends n step preds D v is \<Longrightarrow>
     distinct is \<and> set is \<inter> D = {} \<and> {..<n} \<subseteq> D \<union> set is \<and> set is \<subseteq> {..<n} \<and>
     sorted_wrt (\<lambda>i j. j \<notin> preds i) is \<and> legal step v is"
proof (induction "is" arbitrary: D v)
  case (Cons i "is")
  from Cons.prems obtain v' where v': "i < n" "i \<notin> D" "preds i \<subseteq> D" "step v i = Some v'"
      "extends n step preds (insert i D) v' is"
    by (auto split: option.splits)
  from Cons.IH [OF v'(5)] v' show ?case by auto
qed auto

lemma order_extends:
  "distinct is \<Longrightarrow> set is = {..<n} - D \<Longrightarrow> sorted_wrt (\<lambda>i j. j \<notin> preds i) is \<Longrightarrow> legal step v is \<Longrightarrow>
   extends n step preds D v is"
proof (induction "is" arbitrary: D v)
  case Nil
  then show ?case by auto
next
  case (Cons i "is")
  have i: "i < n" "i \<notin> D" using Cons.prems(2) by auto
  have p: "preds i \<subseteq> D"
  proof
    fix j assume j: "j \<in> preds i"
    then have "j \<in> {..<n} - {i}" using preds_bound by blast
    then have "j \<in> D \<or> j \<in> set is" using Cons.prems(2) by auto
    then show "j \<in> D" using j Cons.prems(3) by auto
  qed
  have "set is = {..<n} - insert i D" using Cons.prems(1,2) by auto
  with Cons i p show ?case by (auto split: option.splits)
qed

lemma completable_empty_iff:
  "completable n step preds {} v \<longleftrightarrow>
     (\<exists>order. distinct order \<and> set order = {..<n} \<and> sorted_wrt (\<lambda>i j. j \<notin> preds i) order \<and> legal step v order)"
proof
  assume "completable n step preds {} v"
  then obtain xs where "extends n step preds {} v xs" by (auto simp: completable_def)
  from extends_order [OF this] show
    "\<exists>order. distinct order \<and> set order = {..<n} \<and> sorted_wrt (\<lambda>i j. j \<notin> preds i) order \<and> legal step v order"
    by auto
next
  assume "\<exists>order. distinct order \<and> set order = {..<n} \<and> sorted_wrt (\<lambda>i j. j \<notin> preds i) order \<and> legal step v order"
  then show "completable n step preds {} v"
    unfolding completable_def by (metis Diff_empty order_extends)
qed

end

section \<open>Locality\<close>

text \<open>The points of a run: each operation at the latest start seen so far.\<close>

fun points :: "('op \<Rightarrow> int) \<Rightarrow> int \<Rightarrow> 'op list \<Rightarrow> (int \<times> 'op) list" where
  "points start m [] = []"
| "points start m (x # xs) = (let p = max m (start x) in (p, x) # points start p xs)"

definition merge_runs :: "('op \<Rightarrow> int) \<Rightarrow> 'op list list \<Rightarrow> (nat \<times> 'op) list" where
  "merge_runs start runs =
     map snd (sort_key fst (concat
       (map (\<lambda>(g, run). map (\<lambda>(p, x). (p, g, x)) (points start 0 run)) (List.enumerate 0 runs))))"

locale intervals =
  fixes start finish :: "'op \<Rightarrow> int" and ok :: "'op \<Rightarrow> bool"
  assumes ok_interval: "ok x \<Longrightarrow> 0 \<le> start x \<and> start x \<le> finish x"
begin

abbreviation real_time :: "'op list \<Rightarrow> bool" where
  "real_time \<equiv> sorted_wrt (\<lambda>x y. \<not> finish y < start x)"

lemma snd_points: "map snd (points start m xs) = xs"
  by (induction xs arbitrary: m) (auto simp: Let_def)

lemma points_ge: "(p, x) \<in> set (points start m xs) \<Longrightarrow> m \<le> p \<and> start x \<le> p"
  by (induction xs arbitrary: m) (fastforce simp: Let_def)+

lemma points_sorted: "sorted (map fst (points start m xs))"
  by (induction xs arbitrary: m) (auto simp: Let_def dest: points_ge)

lemma points_le:
  "real_time xs \<Longrightarrow> list_all ok xs \<Longrightarrow> (\<And>x. x \<in> set xs \<Longrightarrow> m \<le> finish x) \<Longrightarrow>
   (p, x) \<in> set (points start m xs) \<Longrightarrow> p \<le> finish x"
proof (induction xs arbitrary: m)
  case (Cons y ys)
  have y: "start y \<le> finish y" using Cons.prems(2) ok_interval by auto
  show ?case
  proof (cases "(p, x) = (max m (start y), y)")
    case True
    then show ?thesis using y Cons.prems(3) by simp
  next
    case False
    then have "(p, x) \<in> set (points start (max m (start y)) ys)"
      using Cons.prems(4) by (auto simp: Let_def)
    moreover have "max m (start y) \<le> finish z" if "z \<in> set ys" for z
      using Cons.prems(1,3) that by fastforce
    moreover have "real_time ys" "list_all ok ys" using Cons.prems(1,2) by simp_all
    ultimately show ?thesis using Cons.IH by blast
  qed
qed simp

text \<open>The merged run is an interleaving of the single runs that respects real time.\<close>

lemma merge_runs_project:
  assumes "g < length runs"
  shows "map snd (filter (\<lambda>x. fst x = g) (merge_runs start runs)) = runs ! g"
proof -
  let ?tag = "\<lambda>(g, run). map (\<lambda>(p, x). (p, g, x)) (points start 0 run)"
  let ?all = "concat (map ?tag (List.enumerate 0 runs))"
  let ?P = "\<lambda>t :: int \<times> nat \<times> 'op. fst (snd t) = g"
  have tag: "filter ?P (?tag (h, run)) = (if h = g then ?tag (g, run) else [])" for h run
    by (auto simp: filter_empty_conv intro: filter_True)
  have conc: "filter ?P (concat (map ?tag (List.enumerate k rs))) = ?tag (g, rs ! (g - k))"
    if "k \<le> g" "g < k + length rs" for k rs
    using that
  proof (induction rs arbitrary: k)
    case (Cons r rs)
    show ?case
    proof (cases "k = g")
      case True
      have "filter ?P (concat (map ?tag (List.enumerate (Suc k) rs))) = []"
        using True by (auto simp: filter_empty_conv in_set_enumerate_eq)
      then show ?thesis using True tag by (simp del: filter_concat add: filter_map)
    next
      case False
      then have "g - k = Suc (g - Suc k)" using Cons.prems by simp
      then show ?thesis using False Cons tag by (simp add: filter_map)
    qed
  qed simp
  have "sorted (map fst (?tag (g, runs ! g)))"
    using points_sorted [of 0 "runs ! g"] by (simp add: comp_def case_prod_beta)
  then have "sort_key fst (?tag (g, runs ! g)) = ?tag (g, runs ! g)"
    by (rule sort_key_id_if_sorted)
  then have "filter ?P (sort_key fst ?all) = ?tag (g, runs ! g)"
    using conc [of 0 runs] assms by (simp add: filter_sort)
  then have "map (snd \<circ> snd) (filter ?P (sort_key fst ?all)) = runs ! g"
    using snd_points [of 0 "runs ! g"] by (simp add: comp_def case_prod_beta)
  then show ?thesis
    by (simp add: merge_runs_def filter_map comp_def)
qed

lemma merge_runs_real_time:
  assumes "\<And>run. run \<in> set runs \<Longrightarrow> real_time run \<and> list_all ok run"
  shows "real_time (map snd (merge_runs start runs))"
proof -
  let ?all = "concat (map (\<lambda>(g, run). map (\<lambda>(p, x). (p, g, x)) (points start 0 run)) (List.enumerate 0 runs))"
  have b: "start x \<le> p \<and> p \<le> finish x" if "(p, g, x) \<in> set ?all" for p g x
  proof -
    from that obtain run where r: "run \<in> set runs" "(p, x) \<in> set (points start 0 run)"
      by (auto simp: in_set_enumerate_eq) (metis nth_mem)
    have "0 \<le> finish z" if "z \<in> set run" for z
      using assms [OF r(1)] that ok_interval by (fastforce simp: list_all_iff)
    with r assms [OF r(1)] points_le [of run 0 p x] points_ge [of p x 0 run] show ?thesis by auto
  qed
  have "sorted_wrt (\<lambda>s t. fst s \<le> fst t) (sort_key fst ?all)"
    using sorted_sort_key [of fst ?all] by (simp add: sorted_map)
  then have "sorted_wrt (\<lambda>s t. \<not> finish (snd (snd t)) < start (snd (snd s))) (sort_key fst ?all)"
  proof (rule sorted_wrt_mono_rel [rotated])
    fix s t assume "s \<in> set (sort_key fst ?all)" "t \<in> set (sort_key fst ?all)" "fst s \<le> fst t"
    then show "\<not> finish (snd (snd t)) < start (snd (snd s))"
      using b [of "fst s" "fst (snd s)" "snd (snd s)"] b [of "fst t" "fst (snd t)" "snd (snd t)"]
      by (simp only: set_sort prod.collapse True_implies_equals) linarith
  qed
  then show ?thesis by (simp add: merge_runs_def sorted_wrt_map comp_def)
qed

lemma length_points [simp]: "length (points start m xs) = length xs"
  by (induction xs arbitrary: m) (auto simp: Let_def)

lemma length_merge_runs: "length (merge_runs start runs) = length (concat runs)"
proof -
  have "length (concat (map (\<lambda>(g, run). map (\<lambda>(p, x). (p, g, x)) (points start 0 run))
      (List.enumerate k runs))) = length (concat runs)" for k
    by (induction runs arbitrary: k) auto
  then show ?thesis by (simp add: merge_runs_def)
qed

lemma merge_runs_tags: "x \<in> set (merge_runs start runs) \<Longrightarrow> fst x < length runs"
  by (auto simp: merge_runs_def in_set_enumerate_eq)

end

end
