(* ===== verification/Checker.thy ===== *)
theory Checker
  imports Py_Prelude Linearizability
begin

text \<open>
  \<open>src/benchctl/checker.py\<close>: the bounded exhaustive per-key linearizability checker.
  The model follows \<open>check_history\<close> statement by statement: validation of each event,
  grouping by key and by client, the session check, the predecessor bitmasks and the
  memoised depth-first search \<open>visit\<close> with its state budget. The clock is a parameter
  \<open>late\<close> (whether the deadline has passed at the n-th state), the interpreter's stack a
  parameter \<open>depth\<close> (exhausting it is the \<open>RecursionError\<close> the code catches).
  The theorems show that the verdict is exact: \<open>passed\<close> gives one global sequential order
  of the whole history that respects real time and every recorded outcome, \<open>failed\<close> that
  the named key has none.
\<close>

unbundle bit_operations_syntax

section \<open>The sequential model\<close>

definition outcome :: "pyval \<Rightarrow> pyval \<Rightarrow> pydict" where
  "outcome value swapped = [kv ''value'' value, kv ''swapped'' swapped, kv ''error'' PNone]"

definition transition :: "pyval \<Rightarrow> pyval \<Rightarrow> (pyval \<times> pydict) res" where
  "transition value command =
     bindE (item command ''kind'') (\<lambda>kind.
       if py_eq kind (PStr ''put'') then
         bindE (item command ''value'') (\<lambda>v. Inr (v, outcome v PNone))
       else if py_eq kind (PStr ''cas'') then
         bindE (get command ''expected'') (\<lambda>expected.
           if py_eq value expected
           then bindE (item command ''value'') (\<lambda>v. Inr (v, outcome v (PBool True)))
           else Inr (value, outcome value (PBool False)))
       else if \<not> py_eq kind (PStr ''get'') then
         raiseE ValueError (''unknown command: '' @ py_str kind)
       else Inr (value, outcome value PNone))"

section \<open>Validation and grouping\<close>

text \<open>What the search needs of a validated event.\<close>

record operation =
  op_start :: int
  op_end :: int
  op_sequence :: int
  op_command :: pyval
  op_observed :: pydict

text \<open>A statement ends normally, by \<open>return\<close>, or by an exception.\<close>

datatype 'r exit = Return 'r | Raised pyexc

definition liftX :: "'a res \<Rightarrow> 'r exit + 'a" where
  "liftX m = (case m of Inl e \<Rightarrow> Inl (Raised e) | Inr x \<Rightarrow> Inr x)"

definition inconclusive :: "string \<Rightarrow> pyval" where
  "inconclusive reason = PDict [kv ''status'' (PStr ''inconclusive''), kv ''reason'' (PStr reason)]"

text \<open>A \<open>defaultdict(list)\<close>: append to the list of an equal key, or add the key at the end.\<close>

fun group_append :: "pyval \<Rightarrow> 'a \<Rightarrow> (pyval \<times> 'a list) list \<Rightarrow> (pyval \<times> 'a list) list" where
  "group_append k x [] = [(k, [x])]"
| "group_append k x ((k', xs) # gs) =
     (if py_eq k' k then (k', xs @ [x]) # gs else (k', xs) # group_append k x gs)"

record tables =
  seen :: "(pyval \<times> pyval) list"
  groups :: "(pyval \<times> operation list) list"
  clients :: "(pyval \<times> operation list) list"

definition check_reply :: "pyval \<Rightarrow> pyval exit + pydict" where
  "check_reply response =
     bindE (liftX (get response ''status'')) (\<lambda>status.
     bindE (if py_eq status (PStr ''ok'') then liftX (get response ''result'') else Inr PNone) (\<lambda>result.
     case result of
       PDict observed \<Rightarrow>
         if truthy (dict_get observed ''error'' PNone)
         then Inl (Return (inconclusive ''session/application error''))
         else Inr observed
     | _ \<Rightarrow> Inl (Return (inconclusive ''incomplete or unsuccessful operation''))))"

definition check_interval :: "pyval \<Rightarrow> (int \<times> int) res" where
  "check_interval event =
     bindE (item event ''start_ns'') (\<lambda>start.
     case as_int start of
       None \<Rightarrow> raiseE ValueError ''invalid invocation/response interval''
     | Some s \<Rightarrow>
         bindE (item event ''end_ns'') (\<lambda>end.
         case as_int end of
           None \<Rightarrow> raiseE ValueError ''invalid invocation/response interval''
         | Some e \<Rightarrow>
             if s < 0 \<or> e < s then raiseE ValueError ''invalid invocation/response interval''
             else Inr (s, e)))"

definition check_identity :: "(pyval \<times> pyval) list \<Rightarrow> pyval \<Rightarrow> pyval \<Rightarrow> int res" where
  "check_identity known client sequence =
     bindE (require_hashable client) (\<lambda>_.
     bindE (require_hashable sequence) (\<lambda>_.
     case as_int sequence of
       None \<Rightarrow> raiseE ValueError ''duplicate/invalid command identity''
     | Some q \<Rightarrow>
         if list_ex (\<lambda>(c, s). py_eq c client \<and> py_eq s sequence) known \<or> q < 1
         then raiseE ValueError ''duplicate/invalid command identity''
         else Inr q))"

definition validate_event :: "tables \<Rightarrow> pyval \<Rightarrow> pyval exit + tables" where
  "validate_event t event =
     bindE (liftX (item event ''command'')) (\<lambda>c.
     bindE (liftX (item event ''reply'')) (\<lambda>response.
     bindE (check_reply response) (\<lambda>observed.
     bindE (liftX (check_interval event)) (\<lambda>(s, e).
     bindE (liftX (item c ''client'')) (\<lambda>client.
     bindE (liftX (item c ''sequence'')) (\<lambda>sequence.
     bindE (liftX (check_identity (seen t) client sequence)) (\<lambda>q.
     bindE (liftX (transition PNone c)) (\<lambda>_.
     bindE (liftX (item c ''key'')) (\<lambda>key.
     bindE (liftX (require_hashable key)) (\<lambda>_.
     let op = \<lparr>op_start = s, op_end = e, op_sequence = q, op_command = c, op_observed = observed\<rparr>
     in Inr (t\<lparr>seen := (client, sequence) # seen t,
                groups := group_append key op (groups t),
                clients := group_append client op (clients t)\<rparr>)))))))))))"

text \<open>\<open>zip(stream, stream[1:])\<close> over a stream sorted by start.\<close>

fun session_ok :: "operation list \<Rightarrow> bool" where
  "session_ok (a # b # ops) =
     (\<not> (op_end a > op_start b \<or> op_sequence a \<ge> op_sequence b) \<and> session_ok (b # ops))"
| "session_ok _ = True"

definition check_sessions :: "(pyval \<times> operation list) list \<Rightarrow> unit res" where
  "check_sessions cs = raise_if (\<not> list_all (\<lambda>(_, stream). session_ok (sort_key op_start stream)) cs)
     ValueError ''client sessions must be nonoverlapping with increasing sequences''"

definition validate :: "pyval list \<Rightarrow> pyval exit + (pyval \<times> operation list) list" where
  "validate events =
     bindE (foldE validate_event \<lparr>seen = [], groups = [], clients = []\<rparr> events) (\<lambda>t.
     bindE (liftX (check_sessions (clients t))) (\<lambda>_. Inr (groups t)))"

section \<open>The search\<close>

definition bit_of :: "nat \<Rightarrow> int" where
  "bit_of i = push_bit i 1"

text \<open>\<open>predecessors[i]\<close>: the operations that ended before operation \<open>i\<close> started.\<close>

definition predecessor_mask :: "operation list \<Rightarrow> nat \<Rightarrow> int" where
  "predecessor_mask ops i =
     foldl (\<lambda>mask (j, other).
       if j \<noteq> i \<and> op_end other < op_start (ops ! i) then mask OR bit_of j else mask)
       0 (List.enumerate 0 ops)"

definition full_mask :: "nat \<Rightarrow> int" where
  "full_mask n = bit_of n - 1"

record search =
  visited :: nat
  memo :: "((int \<times> pyval) \<times> bool) list"

definition memo_find :: "((int \<times> pyval) \<times> bool) list \<Rightarrow> int \<Rightarrow> pyval \<Rightarrow> bool option" where
  "memo_find m d value = map_option snd (find (\<lambda>((d', v'), _). d' = d \<and> py_eq v' value) m)"

definition agrees :: "pydict \<Rightarrow> pydict \<Rightarrow> bool" where
  "agrees observed expected =
     list_all (\<lambda>(k, v). case k of KStr s \<Rightarrow> py_eq (dict_get observed s PNone) v | KInt _ \<Rightarrow> False) expected"

type_synonym visitor = "int \<Rightarrow> pyval \<Rightarrow> search \<Rightarrow> bool res \<times> search"

text \<open>The loop over the candidates; \<open>rec\<close> is the recursive call.\<close>

fun try_candidates ::
  "visitor \<Rightarrow> int \<Rightarrow> pyval \<Rightarrow> (nat \<times> operation \<times> int) list \<Rightarrow> search \<Rightarrow> bool res \<times> search" where
  "try_candidates rec d value [] st = (Inr False, st)"
| "try_candidates rec d value ((i, op, predecessors) # rest) st =
     (if d AND bit_of i \<noteq> 0 \<or> predecessors AND NOT d \<noteq> 0
      then try_candidates rec d value rest st
      else case transition value (op_command op) of
        Inl e \<Rightarrow> (Inl e, st)
      | Inr (new_value, expected) \<Rightarrow>
          if agrees (op_observed op) expected
          then (case rec (d OR bit_of i) new_value st of
                  (Inl e, st') \<Rightarrow> (Inl e, st')
                | (Inr found, st') \<Rightarrow>
                    if found then (Inr True, st') else try_candidates rec d value rest st')
          else try_candidates rec d value rest st)"

definition candidates :: "operation list \<Rightarrow> (nat \<times> operation \<times> int) list" where
  "candidates ops = map (\<lambda>i. (i, ops ! i, predecessor_mask ops i)) [0..<length ops]"

text \<open>\<open>visit\<close> under \<open>lru_cache\<close>: an unhashable argument raises, a remembered result is
  returned without counting a state, an exception is not remembered. Each miss counts one
  state, so the cache never reaches its size \<open>max_states\<close> before the budget ends the search.\<close>

primrec visit :: "operation list \<Rightarrow> int \<Rightarrow> (nat \<Rightarrow> bool) \<Rightarrow> nat \<Rightarrow> visitor" where
  "visit ops max_states late 0 d value st =
     (Inl (PyExc RecursionError ''maximum recursion depth exceeded''), st)"
| "visit ops max_states late (Suc depth) d value st =
     (if \<not> hashable value
      then (Inl (PyExc TypeError (''unhashable type: '' @ quote (type_name value))), st)
      else case memo_find (memo st) d value of
        Some found \<Rightarrow> (Inr found, st)
      | None \<Rightarrow>
          let st1 = st\<lparr>visited := visited st + 1\<rparr>
          in if int (visited st1) > max_states \<or> late (visited st1)
             then (Inl (PyExc TimeoutError ''checker resource limit''), st1)
             else if d = full_mask (length ops)
             then (Inr True, st1\<lparr>memo := ((d, value), True) # memo st1\<rparr>)
             else (case try_candidates (visit ops max_states late depth) d value (candidates ops) st1 of
                     (Inl e, st2) \<Rightarrow> (Inl e, st2)
                   | (Inr found, st2) \<Rightarrow>
                       (Inr found, st2\<lparr>memo := ((d, value), found) # memo st2\<rparr>)))"

text \<open>\<open>(initial or {}).get(key)\<close>\<close>

definition initial_value :: "(pyval \<times> pyval) list \<Rightarrow> pyval \<Rightarrow> pyval" where
  "initial_value initial key =
     (case find (\<lambda>(k, _). py_eq k key) initial of Some (_, v) \<Rightarrow> v | None \<Rightarrow> PNone)"

text \<open>The loop over the keys; \<open>Inr\<close> is the number of states when every key passed.\<close>

fun check_keys ::
  "int \<Rightarrow> (nat \<Rightarrow> bool) \<Rightarrow> nat \<Rightarrow> (pyval \<times> pyval) list \<Rightarrow> nat \<Rightarrow> (pyval \<times> operation list) list
   \<Rightarrow> pyval exit + nat" where
  "check_keys max_states late depth initial states [] = Inr states"
| "check_keys max_states late depth initial states ((key, ops) # rest) =
     (if length ops > 250
      then Inl (Return (inconclusive ''qualification key exceeds 250-operation limit''))
      else case visit ops max_states late depth 0 (initial_value initial key)
                 \<lparr>visited = states, memo = []\<rparr> of
        (Inl e, st) \<Rightarrow>
          if class_of e \<in> {TimeoutError, RecursionError}
          then Inl (Return (PDict [kv ''status'' (PStr ''inconclusive''), kv ''reason'' (PStr (str_of e)),
                                   kv ''states'' (PInt (int (visited st)))]))
          else Inl (Raised e)
      | (Inr passed, st) \<Rightarrow>
          if passed then check_keys max_states late depth initial (visited st) rest
          else Inl (Return (PDict [kv ''status'' (PStr ''failed''), kv ''key'' key,
                 kv ''states'' (PInt (int (visited st))),
                 kv ''reason'' (PStr ''no legal sequential ordering respects response values and real time'')])))"

definition check_history ::
  "pyval list \<Rightarrow> int \<Rightarrow> (nat \<Rightarrow> bool) \<Rightarrow> nat \<Rightarrow> (pyval \<times> pyval) list \<Rightarrow> pyval res" where
  "check_history events max_states late depth initial =
     (if events = [] then Inr (inconclusive ''empty history'')
      else case validate events of
        Inl (Return report) \<Rightarrow> Inr report
      | Inl (Raised e) \<Rightarrow>
          if class_of e \<in> {KeyError, TypeError, ValueError}
          then Inr (PDict [kv ''status'' (PStr ''invalid''), kv ''reason'' (PStr (str_of e))])
          else Inl e
      | Inr gs \<Rightarrow>
          (case check_keys max_states late depth initial 0 gs of
             Inl (Return report) \<Rightarrow> Inr report
           | Inl (Raised e) \<Rightarrow> Inl e
           | Inr states \<Rightarrow>
               Inr (PDict [kv ''status'' (PStr ''passed''), kv ''operations'' (PInt (int (length events))),
                 kv ''keys'' (PInt (int (length gs))), kv ''states'' (PInt (int states)),
                 kv ''scope'' (PStr ''complete qualification history only; not a proof of all executions'')])))"

section \<open>Sample histories\<close>

definition sample_event :: "string \<Rightarrow> int \<Rightarrow> string \<Rightarrow> int \<Rightarrow> int \<Rightarrow> pyval \<Rightarrow> pyval \<Rightarrow> pyval" where
  "sample_event client sequence kind s e value observed =
     PDict [kv ''command'' (PDict [kv ''client'' (PStr client), kv ''sequence'' (PInt sequence),
              kv ''kind'' (PStr kind), kv ''key'' (PStr ''k''), kv ''value'' value]),
            kv ''start_ns'' (PInt s), kv ''end_ns'' (PInt e),
            kv ''reply'' (PDict [kv ''status'' (PStr ''ok''),
              kv ''result'' (PDict [kv ''value'' observed, kv ''swapped'' PNone, kv ''error'' PNone])])]"

text \<open>A write, and a read that starts after it and sees it, or misses it.\<close>

definition sample_history :: "pyval list" where
  "sample_history =
     [sample_event ''a'' 1 ''put'' 0 10 (PStr ''v'') (PStr ''v''),
      sample_event ''b'' 1 ''get'' 11 20 (PStr []) (PStr ''v'')]"

definition stale_history :: "pyval list" where
  "stale_history =
     [sample_event ''a'' 1 ''put'' 0 10 (PStr ''v'') (PStr ''v''),
      sample_event ''b'' 1 ''get'' 11 20 (PStr []) PNone]"

section \<open>Specification\<close>

text \<open>One operation as a step of the sequential object: it is legal where the model's
  outcome is the recorded one.\<close>

definition op_step :: "pyval \<Rightarrow> operation \<Rightarrow> pyval option" where
  "op_step value op =
     (case transition value (op_command op) of
        Inl _ \<Rightarrow> None
      | Inr (new_value, expected) \<Rightarrow> if agrees (op_observed op) expected then Some new_value else None)"

definition linearizable :: "pyval \<Rightarrow> operation list \<Rightarrow> bool" where
  "linearizable value ops \<longleftrightarrow> (\<exists>order. is_linearization op_start op_end op_step value ops order)"

definition well_timed :: "operation \<Rightarrow> bool" where
  "well_timed op \<longleftrightarrow> 0 \<le> op_start op \<and> op_start op \<le> op_end op"

definition report_status :: "string \<Rightarrow> pyval \<Rightarrow> bool" where
  "report_status s report \<longleftrightarrow> get report ''status'' = Inr (PStr s)"

section \<open>Bitmasks are sets\<close>

definition mask_set :: "int \<Rightarrow> nat set" where
  "mask_set m = {i. bit m i}"

lemma bit_bit_of [simp]: "bit (bit_of j) i \<longleftrightarrow> i = j"
  by (auto simp: bit_of_def push_bit_of_1 bit_exp_iff)

lemma and_bit_of_neq_0 [simp]: "d AND bit_of i \<noteq> 0 \<longleftrightarrow> i \<in> mask_set d"
proof -
  have "bit_of i = 2 ^ i" by (simp add: bit_of_def push_bit_of_1)
  then show ?thesis by (simp add: and_exp_eq_0_iff_not_bit mask_set_def)
qed

lemma and_not_neq_0 [simp]: "p AND NOT d \<noteq> (0::int) \<longleftrightarrow> \<not> mask_set p \<subseteq> mask_set d"
  by (auto simp: mask_set_def bit_eq_iff bit_and_iff bit_not_iff)

lemma mask_set_or_bit [simp]: "mask_set (d OR bit_of i) = insert i (mask_set d)"
  by (auto simp: mask_set_def bit_or_iff)

lemma mask_set_0 [simp]: "mask_set 0 = {}"
  by (simp add: mask_set_def)

lemma mask_set_full [simp]: "mask_set (full_mask n) = {..<n}"
proof -
  have "full_mask n = mask n"
    by (simp add: full_mask_def bit_of_def push_bit_of_1 mask_eq_exp_minus_1)
  then show ?thesis by (auto simp: mask_set_def bit_mask_iff)
qed

lemma mask_set_eq_iff: "mask_set d = mask_set e \<longleftrightarrow> d = e"
  by (auto simp: mask_set_def set_eq_iff bit_eq_iff)

lemma mask_set_foldl:
  "mask_set (foldl (\<lambda>m (j, x). if P j x then m OR bit_of j else m) m0 (List.enumerate k xs)) =
   mask_set m0 \<union> {j. k \<le> j \<and> j < k + length xs \<and> P j (xs ! (j - k))}"
proof (induction xs arbitrary: m0 k)
  case (Cons x xs)
  have "{j. k \<le> j \<and> j < k + length (x # xs) \<and> P j ((x # xs) ! (j - k))} =
      (if P k x then {k} else {}) \<union> {j. Suc k \<le> j \<and> j < Suc k + length xs \<and> P j (xs ! (j - Suc k))}"
    by (auto simp: nth_Cons' Suc_le_eq)
  with Cons show ?case by auto
qed auto

lemma mask_set_predecessor_mask:
  "mask_set (predecessor_mask ops i) =
     {j. j < length ops \<and> j \<noteq> i \<and> op_end (ops ! j) < op_start (ops ! i)}"
  using mask_set_foldl [of "\<lambda>j other. j \<noteq> i \<and> op_end other < op_start (ops ! i)" 0 0 ops]
  by (simp add: predecessor_mask_def)

section \<open>The sequential object respects equality\<close>

definition same_value :: "pyval \<Rightarrow> pyval \<Rightarrow> bool" where
  "same_value v w \<longleftrightarrow> v = w \<or> hashable v \<and> hashable w \<and> py_eq v w"

lemma agrees_outcome_same:
  "same_value v w \<Longrightarrow> agrees observed (outcome v s) = agrees observed (outcome w s)"
proof (cases "v = w")
  case False
  assume "same_value v w"
  with False have "hashable v" "py_eq v w" by (auto simp: same_value_def)
  then have "py_eq u v = py_eq u w" for u by (rule py_eq_cong_right)
  then show ?thesis by (simp add: agrees_def outcome_def)
qed simp

lemma py_eq_cong_left: "hashable v \<Longrightarrow> hashable w \<Longrightarrow> py_eq v w \<Longrightarrow> py_eq v u = py_eq w u"
  by (simp add: py_eq_hashable)

lemma same_value_step:
  assumes "same_value v w"
  shows "rel_option same_value (op_step v op) (op_step w op)"
proof (cases "v = w")
  case True
  then show ?thesis by (auto simp: same_value_def intro: option.rel_refl)
next
  case False
  with assms have h: "hashable v" "hashable w" "py_eq v w" by (auto simp: same_value_def)
  have e: "py_eq v u = py_eq w u" for u by (rule py_eq_cong_left [OF h])
  have r: "same_value x x" for x by (simp add: same_value_def)
  show ?thesis
    using assms r agrees_outcome_same [OF assms]
    by (auto simp: op_step_def transition_def bindE_def raiseE_def e split: sum.splits)
qed

interpretation hist: indexed_history "length ops" "\<lambda>v i. op_step v (ops ! i)"
  "\<lambda>i. mask_set (predecessor_mask ops i)" same_value for ops
  by unfold_locales (auto simp: mask_set_predecessor_mask same_value_step)

interpretation time: intervals op_start op_end well_timed
  by unfold_locales (simp add: well_timed_def)

lemma legal_map: "legal step v (map f xs) = legal (\<lambda>v i. step v (f i)) v xs"
  by (induction xs arbitrary: v) (auto split: option.splits)

text \<open>The search space the code explores describes exactly the linearizations.\<close>

abbreviation can_complete :: "operation list \<Rightarrow> int \<Rightarrow> pyval \<Rightarrow> bool" where
  "can_complete ops d \<equiv> completable (length ops) (\<lambda>v i. op_step v (ops ! i))
     (\<lambda>i. mask_set (predecessor_mask ops i)) (mask_set d)"

lemma can_complete_linearizable:
  assumes "list_all well_timed ops"
  shows "can_complete ops 0 v \<longleftrightarrow> linearizable v ops"
proof -
  have "sorted_wrt (\<lambda>i j. j \<notin> mask_set (predecessor_mask ops i)) order \<longleftrightarrow>
        sorted_wrt (\<lambda>i j. \<not> op_end (ops ! j) < op_start (ops ! i)) order"
    if "distinct order" "set order = {..<length ops}" for order
  proof -
    have "order ! j < length ops" if "j < length order" for j
      using nth_mem [OF that] \<open>set order = {..<length ops}\<close> by simp
    with that(1) show ?thesis
      by (auto simp: mask_set_predecessor_mask sorted_wrt_iff_nth_less nth_eq_iff_index_eq)
  qed
  then show ?thesis
    by (auto simp: hist.completable_empty_iff linearizable_def is_linearization_def legal_map)
qed

section \<open>The search is exact\<close>

definition memo_ok :: "operation list \<Rightarrow> search \<Rightarrow> bool" where
  "memo_ok ops st \<longleftrightarrow>
     (\<forall>((d, v), found) \<in> set (memo st). hashable v \<and> found = can_complete ops d v)"

lemma memo_find_ok:
  assumes "memo_ok ops st" "hashable v" "memo_find (memo st) d v = Some found"
  shows "found = can_complete ops d v"
proof -
  from assms(3) obtain w where w: "((d, w), found) \<in> set (memo st)" "py_eq w v"
    by (auto simp: memo_find_def find_Some_iff) (metis nth_mem)
  with assms(1) have "hashable w" "found = can_complete ops d w" by (auto simp: memo_ok_def)
  moreover have "same_value w v" "same_value v w"
    using w(2) assms(2) \<open>hashable w\<close> by (auto simp: same_value_def py_eq_hashable)
  ultimately show ?thesis using hist.completable_same by blast
qed

lemma memo_ok_store [simp]:
  "memo_ok ops (st\<lparr>memo := ((d, v), found) # memo st\<rparr>) \<longleftrightarrow>
     memo_ok ops st \<and> hashable v \<and> found = can_complete ops d v"
  by (auto simp: memo_ok_def)

lemma memo_ok_visited [simp]:
  "memo_ok ops (st\<lparr>visited := k\<rparr>) = memo_ok ops st"
  "memo_ok ops (st\<lparr>visited := k, memo := m\<rparr>) = memo_ok ops (st\<lparr>memo := m\<rparr>)"
  by (simp_all add: memo_ok_def)

text \<open>What the recursive call promises, and what the candidate loop then decides.\<close>

definition exact_visit :: "operation list \<Rightarrow> visitor \<Rightarrow> bool" where
  "exact_visit ops rec \<longleftrightarrow> (\<forall>d v st r st'. mask_set d \<subseteq> {..<length ops} \<longrightarrow> memo_ok ops st \<longrightarrow>
     rec d v st = (r, st') \<longrightarrow> memo_ok ops st' \<and> (\<forall>found. r = Inr found \<longrightarrow> found = can_complete ops d v))"

definition extends_by :: "operation list \<Rightarrow> int \<Rightarrow> pyval \<Rightarrow> nat \<Rightarrow> bool" where
  "extends_by ops d v i \<longleftrightarrow>
     i \<notin> mask_set d \<and> mask_set (predecessor_mask ops i) \<subseteq> mask_set d \<and>
     (\<exists>v'. op_step v (ops ! i) = Some v' \<and> can_complete ops (d OR bit_of i) v')"

text \<open>One turn of the candidate loop: \<open>Inr False\<close> goes on to the next candidate.\<close>

definition try_one :: "operation list \<Rightarrow> visitor \<Rightarrow> int \<Rightarrow> pyval \<Rightarrow> nat \<Rightarrow> search \<Rightarrow> bool res \<times> search" where
  "try_one ops rec d v i st =
     (if i \<in> mask_set d \<or> \<not> mask_set (predecessor_mask ops i) \<subseteq> mask_set d then (Inr False, st)
      else case transition v (op_command (ops ! i)) of
        Inl e \<Rightarrow> (Inl e, st)
      | Inr (v', expected) \<Rightarrow>
          if agrees (op_observed (ops ! i)) expected then rec (d OR bit_of i) v' st else (Inr False, st))"

lemma try_candidates_Cons:
  "try_candidates rec d v ((i, ops ! i, predecessor_mask ops i) # rest) st =
     (case try_one ops rec d v i st of
        (Inr False, st1) \<Rightarrow> try_candidates rec d v rest st1
      | (r, st1) \<Rightarrow> (r, st1))"
  by (auto simp: try_one_def split: sum.splits prod.splits bool.splits)

lemma try_one_exact:
  assumes "exact_visit ops rec" "mask_set d \<subseteq> {..<length ops}" "memo_ok ops st" "i < length ops"
    and "try_one ops rec d v i st = (r, st')"
  shows "memo_ok ops st' \<and> (\<forall>found. r = Inr found \<longrightarrow> found = extends_by ops d v i)"
proof -
  have "memo_ok ops st1 \<and> (\<forall>found. q = Inr found \<longrightarrow> found = can_complete ops (d OR bit_of i) v')"
    if "rec (d OR bit_of i) v' st = (q, st1)" for v' q st1
    using assms(1-4) that unfolding exact_visit_def
    by (metis insert_subset lessThan_iff mask_set_or_bit)
  then show ?thesis
    using assms(3,5)
    by (auto simp: try_one_def extends_by_def op_step_def split: if_splits sum.splits prod.splits)
qed

lemma try_candidates_exact:
  assumes "exact_visit ops rec" "mask_set d \<subseteq> {..<length ops}"
    and "memo_ok ops st" "set is \<subseteq> {..<length ops}"
    and "try_candidates rec d v (map (\<lambda>i. (i, ops ! i, predecessor_mask ops i)) is) st = (r, st')"
  shows "memo_ok ops st' \<and> (\<forall>found. r = Inr found \<longrightarrow> found = (\<exists>i\<in>set is. extends_by ops d v i))"
  using assms(3-)
proof (induction "is" arbitrary: st)
  case Nil
  then show ?case by auto
next
  case (Cons i "is")
  obtain q st1 where q: "try_one ops rec d v i st = (q, st1)" by (cases "try_one ops rec d v i st")
  with try_one_exact [OF assms(1,2) Cons.prems(1) _ q] Cons.prems(2)
  have m1: "memo_ok ops st1" and x1: "\<And>found. q = Inr found \<Longrightarrow> found = extends_by ops d v i"
    by auto
  have t: "(case q of Inr False \<Rightarrow> try_candidates rec d v (map (\<lambda>i. (i, ops ! i, predecessor_mask ops i)) is) st1
      | r \<Rightarrow> (r, st1)) = (r, st')"
    using Cons.prems(3) q unfolding list.map try_candidates_Cons
    by (auto split: sum.splits bool.splits)
  show ?case
    using t m1 x1 Cons.IH [OF m1] Cons.prems(2) by (auto split: sum.splits bool.splits)
qed

lemma visit_exact: "exact_visit ops (visit ops max_states late depth)"
proof (induction depth)
  case 0
  then show ?case by (auto simp: exact_visit_def)
next
  case (Suc depth)
  have full: "d = full_mask (length ops) \<longleftrightarrow> {..<length ops} \<subseteq> mask_set d"
    if "mask_set d \<subseteq> {..<length ops}" for d
    using that mask_set_eq_iff [of d "full_mask (length ops)"] by auto
  show ?case
    unfolding exact_visit_def
  proof (intro allI impI)
    fix d v st r st'
    assume a: "mask_set d \<subseteq> {..<length ops}" "memo_ok ops st"
      "visit ops max_states late (Suc depth) d v st = (r, st')"
    let ?st1 = "st\<lparr>visited := visited st + 1\<rparr>"
    obtain q st2 where q: "try_candidates (visit ops max_states late depth) d v (candidates ops) ?st1 = (q, st2)"
      by fastforce
    have m: "memo_ok ops ?st1" using a(2) by simp
    have t: "memo_ok ops st2 \<and> (\<forall>found. q = Inr found \<longrightarrow> found = (\<exists>i<length ops. extends_by ops d v i))"
    proof -
      have "set [0..<length ops] \<subseteq> {..<length ops}" by auto
      from try_candidates_exact [OF Suc a(1) m this q [unfolded candidates_def]]
      show ?thesis by (simp only: set_upt Bex_def atLeastLessThan_iff le0 simp_thms) blast
    qed
    have c: "can_complete ops d v \<longleftrightarrow> d = full_mask (length ops) \<or> (\<exists>i<length ops. extends_by ops d v i)"
      unfolding full [OF a(1)] extends_by_def mask_set_or_bit by (rule hist.completable_iff)
    show "memo_ok ops st' \<and> (\<forall>found. r = Inr found \<longrightarrow> found = can_complete ops d v)"
      using a(2,3) t c q memo_find_ok [OF a(2)]
      by (auto simp: Let_def split: if_splits option.splits sum.splits prod.splits)
  qed
qed

lemma visit_decides:
  assumes "visit ops max_states late depth 0 v \<lparr>visited = k, memo = []\<rparr> = (Inr found, st)"
    "list_all well_timed ops"
  shows "found \<longleftrightarrow> linearizable v ops"
proof -
  have "memo_ok ops \<lparr>visited = k, memo = []\<rparr>" by (simp add: memo_ok_def)
  moreover have "mask_set 0 \<subseteq> {..<length ops}" by simp
  ultimately have "found = can_complete ops 0 v"
    using visit_exact [of ops max_states late depth] assms(1) unfolding exact_visit_def by blast
  then show ?thesis using can_complete_linearizable [OF assms(2)] by simp
qed

section \<open>What validation guarantees\<close>

lemma liftX_eq_Inr [simp]: "liftX m = Inr x \<longleftrightarrow> m = Inr x"
  by (cases m) (simp_all add: liftX_def)

lemma mset_group_append:
  "mset (concat (map snd (group_append k x gs))) = add_mset x (mset (concat (map snd gs)))"
  by (induction k x gs rule: group_append.induct) auto

lemma group_append_all:
  "P x \<Longrightarrow> (\<forall>(k, xs)\<in>set gs. list_all P xs) \<Longrightarrow> (\<forall>(k, xs)\<in>set (group_append j x gs). list_all P xs)"
  by (induction j x gs rule: group_append.induct) auto

lemma check_interval_Inr: "check_interval event = Inr (s, e) \<Longrightarrow> 0 \<le> s \<and> s \<le> e"
  by (auto simp: check_interval_def split: option.splits if_splits)

text \<open>An operation that did not complete successfully is never accepted.\<close>

definition complete_reply :: "pyval \<Rightarrow> bool" where
  "complete_reply event \<longleftrightarrow>
     (\<exists>reply observed. item event ''reply'' = Inr (PDict reply) \<and>
        py_eq (dict_get reply ''status'' PNone) (PStr ''ok'') \<and>
        dict_get reply ''result'' PNone = PDict observed \<and>
        \<not> truthy (dict_get observed ''error'' PNone))"

lemma check_reply_Inr:
  "check_reply response = Inr observed \<Longrightarrow>
     \<exists>reply. response = PDict reply \<and> py_eq (dict_get reply ''status'' PNone) (PStr ''ok'') \<and>
       dict_get reply ''result'' PNone = PDict observed \<and> \<not> truthy (dict_get observed ''error'' PNone)"
  by (auto simp: check_reply_def py_simps split: if_splits)

lemma validate_event_Inr:
  assumes "validate_event t event = Inr t'"
  shows "complete_reply event \<and>
    (\<exists>key client op. well_timed op \<and> groups t' = group_append key op (groups t) \<and>
       clients t' = group_append client op (clients t))"
proof -
  from assms obtain c response observed s e client sequence q key where
    "item event ''reply'' = Inr response" "check_reply response = Inr observed"
    and "check_interval event = Inr (s, e)"
    and t': "t' = t\<lparr>seen := (client, sequence) # seen t,
      groups := group_append key \<lparr>op_start = s, op_end = e, op_sequence = q, op_command = c,
        op_observed = observed\<rparr> (groups t),
      clients := group_append client \<lparr>op_start = s, op_end = e, op_sequence = q, op_command = c,
        op_observed = observed\<rparr> (clients t)\<rparr>"
    by (auto simp: validate_event_def Let_def)
  then have "complete_reply event"
    by (auto simp: complete_reply_def dest: check_reply_Inr)
  moreover have "well_timed \<lparr>op_start = s, op_end = e, op_sequence = q, op_command = c,
      op_observed = observed\<rparr>"
    using check_interval_Inr [OF \<open>check_interval event = Inr (s, e)\<close>] by (simp add: well_timed_def)
  ultimately show ?thesis unfolding t' by auto
qed

definition tables_ok :: "pyval list \<Rightarrow> tables \<Rightarrow> bool" where
  "tables_ok events t \<longleftrightarrow>
     list_all complete_reply events \<and>
     size (mset (concat (map snd (groups t)))) = length events \<and>
     (\<forall>(k, ops)\<in>set (groups t). list_all well_timed ops) \<and>
     (\<forall>(c, ops)\<in>set (clients t). list_all well_timed ops)"

lemma fold_validate_ok:
  assumes "foldE validate_event \<lparr>seen = [], groups = [], clients = []\<rparr> events = Inr t"
  shows "tables_ok events t"
  using assms
proof (rule foldE_invariant [where P = tables_ok])
  show "tables_ok [] \<lparr>seen = [], groups = [], clients = []\<rparr>" by (simp add: tables_ok_def)
next
  fix xs x s s'
  assume ok: "tables_ok xs s" and "validate_event s x = Inr s'"
  from validate_event_Inr [OF this(2)] obtain key client op where
    v: "complete_reply x" "well_timed op" "groups s' = group_append key op (groups s)"
       "clients s' = group_append client op (clients s)" by auto
  show "tables_ok (xs @ [x]) s'"
    using ok v mset_group_append [of key op "groups s"]
      group_append_all [of well_timed op "groups s" key]
      group_append_all [of well_timed op "clients s" client]
    by (simp add: tables_ok_def del: mset_concat)
qed

lemma validate_Inr:
  assumes "validate events = Inr gs"
  shows "list_all complete_reply events" "length (concat (map snd gs)) = length events"
    "\<And>k ops. (k, ops) \<in> set gs \<Longrightarrow> list_all well_timed ops"
  using assms fold_validate_ok [of events]
  by (auto simp: validate_def tables_ok_def simp del: mset_concat)

section \<open>Verdicts\<close>

lemma check_keys_Inr:
  assumes "check_keys max_states late depth initial k gs = Inr k'"
    "\<And>key ops. (key, ops) \<in> set gs \<Longrightarrow> list_all well_timed ops"
  shows "\<forall>(key, ops)\<in>set gs. linearizable (initial_value initial key) ops"
  using assms
proof (induction gs arbitrary: k)
  case (Cons g gs)
  obtain key ops where g: "g = (key, ops)" by (cases g)
  from Cons.prems g obtain st where
    v: "visit ops max_states late depth 0 (initial_value initial key) \<lparr>visited = k, memo = []\<rparr> = (Inr True, st)"
    and r: "check_keys max_states late depth initial (visited st) gs = Inr k'"
    by (auto split: if_splits prod.splits sum.splits)
  have "linearizable (initial_value initial key) ops"
    using visit_decides [OF v] Cons.prems(2) g by auto
  with Cons.IH [OF r] Cons.prems(2) g show ?case by auto
qed simp

lemma report_status_simps [simp]:
  "report_status s (PDict (kv ''status'' v # d)) \<longleftrightarrow> v = PStr s"
  "report_status s (inconclusive reason) \<longleftrightarrow> s = ''inconclusive''"
  by (auto simp: report_status_def inconclusive_def get_or_def dict_get_def)

lemma report_status_unique: "report_status s report \<Longrightarrow> report_status t report \<Longrightarrow> s = t"
  by (simp add: report_status_def)

lemma check_keys_Return:
  assumes "check_keys max_states late depth initial k gs = Inl (Return report)"
    "\<And>key ops. (key, ops) \<in> set gs \<Longrightarrow> list_all well_timed ops"
  shows "report_status ''inconclusive'' report \<or>
    (report_status ''failed'' report \<and>
     (\<exists>key ops. (key, ops) \<in> set gs \<and> get report ''key'' = Inr key \<and>
        \<not> linearizable (initial_value initial key) ops))"
  using assms
proof (induction gs arbitrary: k)
  case (Cons g gs)
  obtain key ops where g: "g = (key, ops)" by (cases g)
  obtain q st where
    v: "visit ops max_states late depth 0 (initial_value initial key) \<lparr>visited = k, memo = []\<rparr> = (q, st)"
    by fastforce
  have w: "list_all well_timed ops" using Cons.prems(2) g by auto
  consider "report_status ''inconclusive'' report" | "q = Inr True" "\<not> length ops > 250"
    | "q = Inr False" "report_status ''failed'' report" "get report ''key'' = Inr key"
    using Cons.prems(1) g v by (auto simp: get_or_def dict_get_def split: if_splits sum.splits)
  then show ?case
  proof cases
    case 2
    then have "check_keys max_states late depth initial (visited st) gs = Inl (Return report)"
      using Cons.prems(1) g v by (auto split: if_splits)
    then show ?thesis using Cons.IH Cons.prems(2) by fastforce
  next
    case 3
    then show ?thesis using visit_decides [of ops _ _ _ _ _ False st] v w g by auto
  qed simp
qed simp

lemma validate_Return:
  assumes "validate events = Inl (Return report)" shows "report_status ''inconclusive'' report"
proof -
  have l: "liftX m \<noteq> Inl (Return r)" for m :: "'a res" and r
    by (cases m) (simp_all add: liftX_def)
  have e: "validate_event t e = Inl (Return r) \<Longrightarrow> report_status ''inconclusive'' r" for r t e
    by (auto simp: validate_event_def check_reply_def bindE_eq_Inl Let_def l case_dict_Inl
        split: if_splits)
  have "foldE validate_event t es = Inl (Return r) \<Longrightarrow> report_status ''inconclusive'' r" for r t es
    by (induction es arbitrary: t) (auto simp: bindE_eq_Inl e)
  then show ?thesis using assms by (auto simp: validate_def bindE_eq_Inl l)
qed

lemma check_history_passed:
  assumes "check_history events max_states late depth initial = Inr report"
    "report_status ''passed'' report"
  obtains gs where "validate events = Inr gs"
    "\<forall>(key, ops)\<in>set gs. linearizable (initial_value initial key) ops"
proof (cases "validate events")
  case (Inl x)
  then show thesis
    using assms validate_Return [of events report]
    by (auto simp: check_history_def dest: report_status_unique split: if_splits exit.splits)
next
  case (Inr gs)
  have w: "\<And>key ops. (key, ops) \<in> set gs \<Longrightarrow> list_all well_timed ops"
    using validate_Inr(3) [OF Inr] .
  show thesis
  proof (cases "check_keys max_states late depth initial 0 gs")
    case (Inl x)
    then show thesis
      using assms Inr check_keys_Return [of max_states late depth initial 0 gs report] w
      by (auto simp: check_history_def dest: report_status_unique split: if_splits exit.splits)
  next
    case (Inr k)
    have "\<forall>(key, ops)\<in>set gs. linearizable (initial_value initial key) ops"
      by (rule check_keys_Inr [OF Inr]) (rule w)
    then show thesis using that \<open>validate events = Inr gs\<close> by blast
  qed
qed

section \<open>The search ends within a known budget\<close>

text \<open>A well-formed command: one of the three kinds, with a value that can be stored. A
  compare-and-swap whose value is missing passes validation when its expected value is not
  null, and raises in the search only; the history files of the load generator always
  carry a value.\<close>

definition command_value :: "operation \<Rightarrow> pyval" where
  "command_value op = (case item (op_command op) ''value'' of Inr v \<Rightarrow> v | Inl _ \<Rightarrow> PNone)"

definition command_ok :: "operation \<Rightarrow> bool" where
  "command_ok op \<longleftrightarrow>
     item (op_command op) ''kind'' \<in> {Inr (PStr ''put''), Inr (PStr ''get''), Inr (PStr ''cas'')} \<and>
     item (op_command op) ''value'' = Inr (command_value op) \<and>
     hashable (command_value op) \<and> plain (command_value op)"

definition key_values :: "pyval \<Rightarrow> operation list \<Rightarrow> pyval set" where
  "key_values v ops = set (v # map command_value ops)"

definition key_budget :: "nat \<Rightarrow> nat" where
  "key_budget n = 2 ^ n * Suc n + n + 1"

lemma transition_ok:
  assumes "command_ok op"
  shows "\<exists>v' expected. transition v (op_command op) = Inr (v', expected) \<and> v' \<in> {v, command_value op}"
proof -
  from assms obtain d where d: "op_command op = PDict d"
    by (auto simp: command_ok_def item_eq_Inr)
  consider "item (PDict d) ''kind'' = Inr (PStr ''put'')" | "item (PDict d) ''kind'' = Inr (PStr ''get'')"
    | "item (PDict d) ''kind'' = Inr (PStr ''cas'')"
    using assms d by (auto simp: command_ok_def)
  moreover have "item (PDict d) ''value'' = Inr (command_value op)"
    using assms d by (simp add: command_ok_def)
  ultimately show ?thesis
    unfolding d by cases (simp_all add: transition_def get_or_def)
qed

definition in_budget :: "operation list \<Rightarrow> pyval set \<Rightarrow> nat \<Rightarrow> nat \<Rightarrow> search \<Rightarrow> bool" where
  "in_budget ops V base slack st \<longleftrightarrow>
     distinct (map fst (memo st)) \<and>
     fst ` set (memo st) \<subseteq> {d. mask_set d \<subseteq> {..<length ops}} \<times> V \<and>
     visited st \<le> base + length (memo st) + slack"

definition grows :: "int \<Rightarrow> search \<Rightarrow> search \<Rightarrow> bool" where
  "grows d st st' \<longleftrightarrow> (\<forall>x\<in>set (memo st'). x \<in> set (memo st) \<or> mask_set d \<subseteq> mask_set (fst (fst x)))"

definition returns :: "operation list \<Rightarrow> pyval set \<Rightarrow> nat \<Rightarrow> int \<Rightarrow> visitor \<Rightarrow> bool" where
  "returns ops V base d rec \<longleftrightarrow>
     (\<forall>v\<in>V. \<forall>st. in_budget ops V base (card (mask_set d)) st \<longrightarrow>
        (\<exists>found st'. rec d v st = (Inr found, st') \<and> in_budget ops V base (card (mask_set d)) st' \<and> grows d st st'))"

lemma grows_trans: "grows d st st1 \<Longrightarrow> grows d st1 st2 \<Longrightarrow> grows d st st2"
  by (auto simp: grows_def)

lemma card_masks: "finite {d. mask_set d \<subseteq> {..<n}}" "card {d. mask_set d \<subseteq> {..<n}} \<le> 2 ^ n"
proof -
  have i: "inj_on mask_set {d. mask_set d \<subseteq> {..<n}}" by (auto simp: inj_on_def mask_set_eq_iff)
  have s: "mask_set ` {d. mask_set d \<subseteq> {..<n}} \<subseteq> Pow {..<n}" by auto
  show "finite {d. mask_set d \<subseteq> {..<n}}" using inj_on_finite [OF i s] by simp
  show "card {d. mask_set d \<subseteq> {..<n}} \<le> 2 ^ n" using card_inj_on_le [OF i s] by (simp add: card_Pow)
qed

lemma in_budget_length:
  assumes "in_budget ops V base slack st" "finite V" "card V \<le> Suc (length ops)"
  shows "length (memo st) \<le> 2 ^ length ops * Suc (length ops)"
proof -
  let ?S = "{d. mask_set d \<subseteq> {..<length ops}} \<times> V"
  have "length (memo st) = card (fst ` set (memo st))"
    using assms(1) by (metis distinct_card length_map set_map in_budget_def)
  also have "\<dots> \<le> card ?S"
    using assms(1,2) card_masks(1) by (intro card_mono) (auto simp: in_budget_def)
  also have "\<dots> \<le> 2 ^ length ops * Suc (length ops)"
    using card_masks(2) assms(3) by (simp only: card_cartesian_product) (rule mult_le_mono)
  finally show ?thesis .
qed

definition grows_above :: "int \<Rightarrow> search \<Rightarrow> search \<Rightarrow> bool" where
  "grows_above d st st' \<longleftrightarrow>
     (\<forall>x\<in>set (memo st'). x \<in> set (memo st) \<or> mask_set d \<subset> mask_set (fst (fst x)))"

lemma grows_above_trans: "grows_above d st st1 \<Longrightarrow> grows_above d st1 st2 \<Longrightarrow> grows_above d st st2"
  unfolding grows_above_def by blast

lemma try_one_returns:
  assumes "i \<notin> mask_set d \<Longrightarrow> returns ops V base (d OR bit_of i) rec"
    and "mask_set d \<subseteq> {..<length ops}" "v \<in> V" "command_value (ops ! i) \<in> V" "command_ok (ops ! i)"
    and "in_budget ops V base (Suc (card (mask_set d))) st"
  shows "\<exists>found st1. try_one ops rec d v i st = (Inr found, st1) \<and>
    in_budget ops V base (Suc (card (mask_set d))) st1 \<and> grows_above d st st1"
proof -
  obtain v' expected where t: "transition v (op_command (ops ! i)) = Inr (v', expected)" "v' \<in> V"
    using transition_ok [OF assms(5), of v] assms(3,4) by blast
  show ?thesis
  proof (cases "i \<in> mask_set d \<or> \<not> mask_set (predecessor_mask ops i) \<subseteq> mask_set d
      \<or> \<not> agrees (op_observed (ops ! i)) expected")
    case True
    then have "try_one ops rec d v i st = (Inr False, st)" by (auto simp: try_one_def t)
    with assms(6) show ?thesis by (auto simp: grows_above_def)
  next
    case False
    then have "try_one ops rec d v i st = rec (d OR bit_of i) v' st" and n: "i \<notin> mask_set d"
      by (simp_all add: try_one_def t)
    moreover have "card (insert i (mask_set d)) = Suc (card (mask_set d))"
      using n assms(2) by (simp add: finite_subset)
    moreover from this obtain found st1 where "rec (d OR bit_of i) v' st = (Inr found, st1)"
      "in_budget ops V base (Suc (card (mask_set d))) st1" "grows (d OR bit_of i) st st1"
      using assms(1) [OF n] t(2) assms(6) unfolding returns_def mask_set_or_bit by metis
    ultimately show ?thesis by (auto simp: grows_def grows_above_def)
  qed
qed

lemma try_candidates_returns:
  assumes "\<And>i. i < length ops \<Longrightarrow> i \<notin> mask_set d \<Longrightarrow> returns ops V base (d OR bit_of i) rec"
    and "mask_set d \<subseteq> {..<length ops}" "v \<in> V" "command_value ` set ops \<subseteq> V" "list_all command_ok ops"
    and "in_budget ops V base (Suc (card (mask_set d))) st" "set is \<subseteq> {..<length ops}"
  shows "\<exists>found st'. try_candidates rec d v (map (\<lambda>i. (i, ops ! i, predecessor_mask ops i)) is) st = (Inr found, st') \<and>
    in_budget ops V base (Suc (card (mask_set d))) st' \<and> grows_above d st st'"
  using assms(6,7)
proof (induction "is" arbitrary: st)
  case Nil
  then show ?case by (auto simp: grows_above_def)
next
  case (Cons i "is")
  then have i: "i < length ops" by simp
  then have "command_value (ops ! i) \<in> V" "command_ok (ops ! i)"
    using assms(4,5) by (auto simp: list_all_length)
  from try_one_returns [OF assms(1) [OF i] assms(2,3) this Cons.prems(1)]
  obtain found st1 where s: "try_one ops rec d v i st = (Inr found, st1)"
    "in_budget ops V base (Suc (card (mask_set d))) st1" "grows_above d st st1" by blast
  from Cons.IH [OF s(2)] Cons.prems(2) obtain found' st2 where
    "try_candidates rec d v (map (\<lambda>i. (i, ops ! i, predecessor_mask ops i)) is) st1 = (Inr found', st2)"
    "in_budget ops V base (Suc (card (mask_set d))) st2" "grows_above d st1 st2" by auto
  with s show ?case
    unfolding list.map try_candidates_Cons s(1) using grows_above_trans by (cases found) auto
qed

lemma in_budget_mono: "in_budget ops V base slack st \<Longrightarrow> slack \<le> slack' \<Longrightarrow> in_budget ops V base slack' st"
  by (auto simp: in_budget_def)

lemma memo_find_None:
  "memo_find m d v = None \<Longrightarrow> hashable v \<Longrightarrow> plain v \<Longrightarrow> ((d, v), found) \<notin> set m"
  using py_eq_refl [of v] by (fastforce simp: memo_find_def find_None_iff)

lemma visit_returns:
  assumes "list_all command_ok ops" "command_value ` set ops \<subseteq> V" "\<And>v. v \<in> V \<Longrightarrow> hashable v \<and> plain v"
    and "finite V" "card V \<le> Suc (length ops)"
    and "int (base + key_budget (length ops)) \<le> max_states" "\<And>k. \<not> late k"
    and "mask_set d \<subseteq> {..<length ops}" "length ops < depth + card (mask_set d)"
  shows "returns ops V base d (visit ops max_states late depth)"
  using assms(8,9)
proof (induction depth arbitrary: d)
  case 0
  have "card (mask_set d) \<le> length ops" using card_mono [OF _ 0(1)] by simp
  with 0(2) show ?case by simp
next
  case (Suc depth)
  let ?n = "length ops" and ?c = "card (mask_set d)"
  have cn: "?c \<le> ?n" using card_mono [OF _ Suc.prems(1)] by simp
  have sub: "returns ops V base (d OR bit_of i) (visit ops max_states late depth)"
    if "i < ?n" "i \<notin> mask_set d" for i
  proof (rule Suc.IH)
    show "mask_set (d OR bit_of i) \<subseteq> {..<?n}" using that Suc.prems(1) by simp
    have "card (insert i (mask_set d)) = Suc ?c" using that Suc.prems(1) by (simp add: finite_subset)
    then show "?n < depth + card (mask_set (d OR bit_of i))" using Suc.prems(2) by simp
  qed
  show ?case
    unfolding returns_def
  proof (intro ballI allI impI)
    fix v st
    assume v: "v \<in> V" and b: "in_budget ops V base ?c st"
    let ?st1 = "st\<lparr>visited := visited st + 1\<rparr>"
    have b1: "in_budget ops V base (Suc ?c) ?st1" using b by (simp add: in_budget_def)
    have "visited st + 1 \<le> base + key_budget ?n"
      using in_budget_length [OF b assms(4,5)] b cn by (simp add: in_budget_def key_budget_def)
    then have lim: "\<not> (int (visited ?st1) > max_states \<or> late (visited ?st1))"
      using assms(6,7) by simp
    have "set [0..<?n] \<subseteq> {..<?n}" by auto
    from try_candidates_returns [OF sub Suc.prems(1) v assms(2,1) b1 this]
    obtain found st2 where t: "try_candidates (visit ops max_states late depth) d v (candidates ops) ?st1 = (Inr found, st2)"
      "in_budget ops V base (Suc ?c) st2" "grows_above d ?st1 st2"
      unfolding candidates_def by blast
    have push: "in_budget ops V base ?c (s\<lparr>memo := ((d, v), r) # memo s\<rparr>) \<and> grows d st (s\<lparr>memo := ((d, v), r) # memo s\<rparr>)"
      if "memo_find (memo st) d v = None" "in_budget ops V base (Suc ?c) s" "grows_above d ?st1 s" for s r
    proof -
      have "((d, v), x) \<notin> set (memo s)" for x
        using memo_find_None [OF that(1)] assms(3) [OF v] that(3) by (fastforce simp: grows_above_def)
      then have "(d, v) \<notin> fst ` set (memo s)" by force
      with that v Suc.prems(1) show ?thesis by (auto simp: in_budget_def grows_def grows_above_def)
    qed
    have base: "in_budget ops V base (Suc ?c) ?st1" "grows_above d ?st1 ?st1"
      using b1 by (simp_all add: grows_above_def)
    show "\<exists>found st'. visit ops max_states late (Suc depth) d v st = (Inr found, st') \<and>
        in_budget ops V base ?c st' \<and> grows d st st'"
      using assms(3) [OF v] lim b t push [OF _ base] push [OF _ t(2,3)]
      by (auto simp: Let_def grows_def split: option.splits)
  qed
qed

lemma key_decided:
  assumes "list_all command_ok ops" "hashable v" "plain v" "length ops < depth" "\<And>k. \<not> late k"
    and "int (k + key_budget (length ops)) \<le> max_states"
  shows "\<exists>found st. visit ops max_states late depth 0 v \<lparr>visited = k, memo = []\<rparr> = (Inr found, st) \<and>
    visited st \<le> k + key_budget (length ops)"
proof -
  let ?V = "key_values v ops"
  have "card ?V \<le> Suc (length ops)" "finite ?V"
    unfolding key_values_def using card_length [of "v # map command_value ops"] by simp_all
  moreover have "hashable w \<and> plain w" if "w \<in> ?V" for w
    using that assms(1-3) by (auto simp: key_values_def list_all_iff command_ok_def)
  moreover have "command_value ` set ops \<subseteq> ?V" by (auto simp: key_values_def)
  ultimately have r: "returns ops ?V k 0 (visit ops max_states late depth)"
    using assms by (intro visit_returns) auto
  have "in_budget ops ?V k 0 \<lparr>visited = k, memo = []\<rparr>" by (simp add: in_budget_def)
  then obtain found st where f: "visit ops max_states late depth 0 v \<lparr>visited = k, memo = []\<rparr> = (Inr found, st)"
    "in_budget ops ?V k 0 st"
    using r by (auto simp: returns_def key_values_def)
  have "visited st \<le> k + key_budget (length ops)"
    using in_budget_length [OF f(2) \<open>finite ?V\<close> \<open>card ?V \<le> _\<close>] f(2)
    by (simp add: in_budget_def key_budget_def)
  with f show ?thesis by blast
qed

lemma check_keys_decided:
  assumes "\<And>key ops. (key, ops) \<in> set gs \<Longrightarrow>
      list_all command_ok ops \<and> length ops \<le> 250 \<and> hashable (initial_value initial key) \<and>
      plain (initial_value initial key)"
    and "250 < depth" "\<And>k. \<not> late k"
    and "int (k + (\<Sum>(key, ops)\<leftarrow>gs. key_budget (length ops))) \<le> max_states"
  shows "(\<exists>k'. check_keys max_states late depth initial k gs = Inr k') \<or>
    (\<exists>report. check_keys max_states late depth initial k gs = Inl (Return report) \<and> report_status ''failed'' report)"
  using assms(1,4)
proof (induction gs arbitrary: k)
  case (Cons g gs)
  obtain key ops where g: "g = (key, ops)" by (cases g)
  have o: "list_all command_ok ops" "length ops \<le> 250" "hashable (initial_value initial key)"
    "plain (initial_value initial key)" using Cons.prems(1) [of key ops] g by auto
  obtain found st where v: "visit ops max_states late depth 0 (initial_value initial key) \<lparr>visited = k, memo = []\<rparr> = (Inr found, st)"
    "visited st \<le> k + key_budget (length ops)"
    using key_decided [of ops "initial_value initial key" depth late k max_states] o assms(2,3) Cons.prems(2) g by auto
  show ?case
  proof (cases found)
    case True
    have "int (visited st + (\<Sum>(key, ops)\<leftarrow>gs. key_budget (length ops))) \<le> max_states"
      using v(2) Cons.prems(2) g by simp
    moreover have "list_all command_ok ops \<and> length ops \<le> 250 \<and>
        hashable (initial_value initial key) \<and> plain (initial_value initial key)"
      if "(key, ops) \<in> set gs" for key ops
      using Cons.prems(1) [of key ops] that by simp
    ultimately show ?thesis using Cons.IH [of "visited st"] g o(2) v True by simp
  next
    case False
    then show ?thesis using g o(2) v by simp
  qed
qed simp

section \<open>Evaluation of the samples\<close>

lemma sample_passed:
  "check_history sample_history 200000 (\<lambda>_. False) 900 [] = Inr (PDict [kv ''status'' (PStr ''passed''),
     kv ''operations'' (PInt 2), kv ''keys'' (PInt 1), kv ''states'' (PInt 3),
     kv ''scope'' (PStr ''complete qualification history only; not a proof of all executions'')])"
  by code_simp

lemma stale_failed:
  "check_history stale_history 200000 (\<lambda>_. False) 900 [] = Inr (PDict [kv ''status'' (PStr ''failed''),
     kv ''key'' (PStr ''k''), kv ''states'' (PInt 2),
     kv ''reason'' (PStr ''no legal sequential ordering respects response values and real time'')])"
  by code_simp

definition sample_groups :: "(pyval \<times> operation list) list" where
  "sample_groups =
     (case validate sample_history of Inr gs \<Rightarrow> gs | Inl _ \<Rightarrow> [])"

lemma sample_validated: "validate sample_history = Inr sample_groups"
  by code_simp

section \<open>Properties\<close>

text \<open>C1: a \<open>passed\<close> verdict is a proof of linearizability of the whole history. There is one
  sequential order of all events (tagged with the number of their key group) in which no
  event precedes one that had already ended when it started, and whose events of each key
  form a legal run of the key-value model from the initial value with exactly the recorded
  outcomes.\<close>

theorem passed_history_linearizable:
  assumes "check_history events max_states late depth initial = Inr report"
    and "report_status ''passed'' report"
  shows "\<exists>gs global. validate events = Inr gs \<and>
    length global = length events \<and> (\<forall>x\<in>set global. fst x < length gs) \<and>
    sorted_wrt (\<lambda>a b. \<not> op_end b < op_start a) (map snd global) \<and>
    (\<forall>g<length gs. \<exists>order.
       is_linearization op_start op_end op_step (initial_value initial (fst (gs ! g))) (snd (gs ! g)) order \<and>
       map snd (filter (\<lambda>x. fst x = g) global) = map ((!) (snd (gs ! g))) order)"
proof -
  from check_history_passed [OF assms] obtain gs where
    v: "validate events = Inr gs" and
    l: "\<forall>(key, ops)\<in>set gs. linearizable (initial_value initial key) ops" .
  define good where "good g order \<longleftrightarrow>
    is_linearization op_start op_end op_step (initial_value initial (fst (gs ! g))) (snd (gs ! g)) order" for g order
  have "\<forall>g<length gs. \<exists>order. good g order"
    using l nth_mem unfolding linearizable_def good_def by fastforce
  then obtain order where o: "\<And>g. g < length gs \<Longrightarrow> good g (order g)" by metis
  define runs where "runs = map (\<lambda>g. map ((!) (snd (gs ! g))) (order g)) [0..<length gs]"
  have len: "length (order g) = length (snd (gs ! g))" if "g < length gs" for g
    using o [OF that] distinct_card [of "order g"] by (auto simp: good_def is_linearization_def)
  have rt: "time.real_time run \<and> list_all well_timed run" if r: "run \<in> set runs" for run
  proof -
    from r obtain g where g: "g < length gs" "run = map ((!) (snd (gs ! g))) (order g)"
      by (auto simp: runs_def)
    have "list_all well_timed (snd (gs ! g))" using validate_Inr(3) [OF v] nth_mem [OF g(1)] by (metis prod.collapse)
    then show ?thesis
      using o [OF g(1)] g(2) by (auto simp: good_def is_linearization_def list_all_length sorted_wrt_map list_all_iff)
  qed
  have "length (concat runs) = length (concat (map snd gs))"
    using len by (simp add: runs_def length_concat comp_def interv_sum_list_conv_sum_set_nat sum_list_sum_nth atLeast0LessThan)
  then have n: "length (merge_runs op_start runs) = length events"
    using validate_Inr(2) [OF v] by (simp add: time.length_merge_runs)
  have m: "map snd (filter (\<lambda>x. fst x = g) (merge_runs op_start runs)) = map ((!) (snd (gs ! g))) (order g)"
    if "g < length gs" for g
    using time.merge_runs_project [of g runs] that by (simp add: runs_def)
  show ?thesis
  proof (intro exI conjI)
    show "length (merge_runs op_start runs) = length events" by (rule n)
    show "sorted_wrt (\<lambda>a b. \<not> op_end b < op_start a) (map snd (merge_runs op_start runs))"
      using time.merge_runs_real_time [of runs] rt by blast
    show "\<forall>x\<in>set (merge_runs op_start runs). fst x < length gs"
      using time.merge_runs_tags [of _ runs] by (simp add: runs_def)
  qed (use v m o in \<open>auto simp: good_def\<close>)
qed

theorem passed_history_linearizable_witness:
  "\<exists>gs (global :: (nat \<times> operation) list). validate sample_history = Inr gs \<and> length global = 2 \<and>
     sorted_wrt (\<lambda>a b. \<not> op_end b < op_start a) (map snd global)"
proof -
  have "length sample_history = 2" by (simp add: sample_history_def)
  then show ?thesis
    using passed_history_linearizable [OF sample_passed, unfolded report_status_simps, OF refl]
    by metis
qed

text \<open>C2: a \<open>failed\<close> verdict is a proof of a violation: the reported key has operations for
  which no order respects both real time and the recorded outcomes.\<close>

theorem failed_key_not_linearizable:
  assumes "check_history events max_states late depth initial = Inr report"
    and "report_status ''failed'' report"
  shows "\<exists>gs key ops. validate events = Inr gs \<and> (key, ops) \<in> set gs \<and>
    get report ''key'' = Inr key \<and> \<not> linearizable (initial_value initial key) ops"
proof (cases "validate events")
  case (Inl x)
  then show ?thesis
    using assms validate_Return [of events report]
    by (auto simp: check_history_def dest: report_status_unique split: if_splits exit.splits)
next
  case (Inr gs)
  then show ?thesis
    using assms check_keys_Return [of max_states late depth initial 0 gs report] validate_Inr(3) [OF Inr]
    by (auto simp: check_history_def dest: report_status_unique split: if_splits exit.splits sum.splits)
qed

theorem failed_key_not_linearizable_witness:
  "\<exists>gs key ops. validate stale_history = Inr gs \<and> (key, ops) \<in> set gs \<and>
     key = PStr ''k'' \<and> \<not> linearizable (initial_value [] key) ops"
  using failed_key_not_linearizable [OF stale_failed]
  by (simp add: get_or_def dict_get_def)

text \<open>C3: within its resources the checker decides. When the history is valid, every command
  carries its value, no key has more than 250 operations, the clock does not run out and
  the budget covers \<open>2 ^ n * (n + 1) + n + 1\<close> states for each key of \<open>n\<close> operations, the
  verdict is \<open>passed\<close> exactly when the operations of every key are linearizable, and
  \<open>failed\<close> otherwise.\<close>

theorem history_decided:
  assumes "validate events = Inr gs" "events \<noteq> []"
    and "\<forall>(key, ops)\<in>set gs. list_all command_ok ops \<and> length ops \<le> 250 \<and>
      hashable (initial_value initial key) \<and> plain (initial_value initial key)"
    and "250 < depth" "\<forall>k. \<not> late k"
    and "int (\<Sum>(key, ops)\<leftarrow>gs. key_budget (length ops)) \<le> max_states"
  shows "\<exists>report. check_history events max_states late depth initial = Inr report \<and>
    (if \<forall>(key, ops)\<in>set gs. linearizable (initial_value initial key) ops
     then report_status ''passed'' report else report_status ''failed'' report)"
proof -
  have w: "\<And>key ops. (key, ops) \<in> set gs \<Longrightarrow> list_all well_timed ops" by (rule validate_Inr(3) [OF assms(1)])
  have d: "(\<exists>k'. check_keys max_states late depth initial 0 gs = Inr k') \<or>
    (\<exists>report. check_keys max_states late depth initial 0 gs = Inl (Return report) \<and> report_status ''failed'' report)"
    using assms(3-6) by (intro check_keys_decided) auto
  then show ?thesis
  proof (elim disjE exE conjE)
    fix k' assume k: "check_keys max_states late depth initial 0 gs = Inr k'"
    have "\<forall>(key, ops)\<in>set gs. linearizable (initial_value initial key) ops"
      by (rule check_keys_Inr [OF k]) (rule w)
    then show ?thesis using k assms(1,2) by (simp add: check_history_def)
  next
    fix report
    assume r: "check_keys max_states late depth initial 0 gs = Inl (Return report)"
      "report_status ''failed'' report"
    then have "\<not> (\<forall>(key, ops)\<in>set gs. linearizable (initial_value initial key) ops)"
      using check_keys_Return [OF r(1)] w report_status_unique by fastforce
    then show ?thesis using r assms(1,2) by (auto simp: check_history_def)
  qed
qed

theorem history_decided_witness:
  "\<exists>report. check_history sample_history 200000 (\<lambda>_. False) 900 [] = Inr report \<and>
     (if \<forall>(key, ops)\<in>set sample_groups. linearizable (initial_value [] key) ops
      then report_status ''passed'' report else report_status ''failed'' report)"
proof (rule history_decided)
  show "validate sample_history = Inr sample_groups" by (rule sample_validated)
  show "sample_history \<noteq> []" by (simp add: sample_history_def)
  show "\<forall>(key, ops)\<in>set sample_groups. list_all command_ok ops \<and> length ops \<le> 250 \<and>
      hashable (initial_value [] key) \<and> plain (initial_value [] key)" by code_simp
  show "int (\<Sum>(key, ops)\<leftarrow>sample_groups. key_budget (length ops)) \<le> 200000" by code_simp
qed simp_all

lemma session_ok_sorted:
  "session_ok ops \<Longrightarrow> list_all well_timed ops \<Longrightarrow>
   sorted_wrt (\<lambda>a b. op_end a \<le> op_start b \<and> op_sequence a < op_sequence b) ops"
proof (induction ops rule: session_ok.induct)
  case (1 a b ops)
  then have "op_end a \<le> op_start b" "op_sequence a < op_sequence b" "op_start b \<le> op_end b"
    "sorted_wrt (\<lambda>a b. op_end a \<le> op_start b \<and> op_sequence a < op_sequence b) (b # ops)"
    by (auto simp: well_timed_def)
  then show ?case by fastforce
qed auto

section \<open>Sessions\<close>

text \<open>What an event says of its session: its client, its interval and its sequence number.\<close>

definition session_event :: "pyval \<Rightarrow> pyval \<Rightarrow> operation \<Rightarrow> bool" where
  "session_event event client op \<longleftrightarrow> item event ''command'' = Inr (op_command op) \<and> item (op_command op) ''client'' = Inr client \<and>
     (\<exists>s e q. item event ''start_ns'' = Inr s \<and> as_int s = Some (op_start op) \<and> item event ''end_ns'' = Inr e \<and> as_int e = Some (op_end op) \<and>
        item (op_command op) ''sequence'' = Inr q \<and> as_int q = Some (op_sequence op))"

definition precedes :: "operation \<Rightarrow> operation \<Rightarrow> bool" where
  "precedes a b \<longleftrightarrow> op_end a \<le> op_start b \<and> op_sequence a < op_sequence b"

text \<open>The stream of the first key that equals a client.\<close>

fun stream_of :: "(pyval \<times> 'a list) list \<Rightarrow> pyval \<Rightarrow> 'a list" where
  "stream_of [] k = []"
| "stream_of ((l, xs) # gs) k = (if py_eq l k then xs else stream_of gs k)"

lemma stream_of_mem: "stream_of gs k \<noteq> [] \<Longrightarrow> \<exists>l. (l, stream_of gs k) \<in> set gs"
  by (induction gs k rule: stream_of.induct) (auto split: if_splits)

lemma stream_of_append:
  assumes "hashable j" "hashable k" "\<forall>(l, xs)\<in>set gs. hashable l"
  shows "stream_of (group_append j x gs) k = stream_of gs k @ (if py_eq j k then [x] else [])"
  using assms(3)
proof (induction gs)
  case (Cons g gs)
  obtain l xs where g: "g = (l, xs)" by (cases g)
  have "hashable l" using Cons.prems by (simp add: g)
  then have "py_eq l j \<Longrightarrow> py_eq l k = py_eq j k" "\<not> py_eq l j \<Longrightarrow> py_eq l k \<Longrightarrow> \<not> py_eq j k"
    using assms(1,2) by (auto simp: py_eq_hashable)
  then show ?case using Cons by (auto simp: g)
qed simp

lemma group_append_keys: "fst ` set (group_append j x gs) \<subseteq> insert j (fst ` set gs)"
  by (induction j x gs rule: group_append.induct) auto

definition streams_exact :: "pyval list \<Rightarrow> tables \<Rightarrow> (pyval \<times> operation) list \<Rightarrow> bool" where
  "streams_exact events t xs \<longleftrightarrow> list_all2 (\<lambda>event (client, op). session_event event client op) events xs \<and>
     (\<forall>x\<in>set xs. hashable (fst x)) \<and> (\<forall>(l, ops)\<in>set (clients t). hashable l) \<and>
     (\<forall>k. hashable k \<longrightarrow> stream_of (clients t) k = map snd (filter (\<lambda>x. py_eq (fst x) k) xs))"

lemma validate_event_session:
  assumes "validate_event t event = Inr t'"
  shows "\<exists>client op. session_event event client op \<and> hashable client \<and> clients t' = group_append client op (clients t)"
proof -
  from assms obtain c observed s e client sequence q where
    "item event ''command'' = Inr c" "check_interval event = Inr (s, e)" "item c ''client'' = Inr client" "item c ''sequence'' = Inr sequence"
    "check_identity (seen t) client sequence = Inr q"
    "clients t' = group_append client \<lparr>op_start = s, op_end = e, op_sequence = q, op_command = c, op_observed = observed\<rparr> (clients t)"
    by (auto simp: validate_event_def Let_def)
  moreover from this have "hashable client" by (auto simp: check_identity_def require_hashable_def)
  ultimately show ?thesis
    by (intro exI [of _ client] exI conjI) (auto simp: session_event_def check_interval_def check_identity_def split: option.splits if_splits)
qed

lemma fold_streams_exact:
  assumes "foldE validate_event \<lparr>seen = [], groups = [], clients = []\<rparr> events = Inr t"
  shows "\<exists>xs. streams_exact events t xs"
  using assms
proof (rule foldE_invariant [where P = "\<lambda>events t. \<exists>xs. streams_exact events t xs"])
  show "\<exists>xs. streams_exact [] \<lparr>seen = [], groups = [], clients = []\<rparr> xs" by (simp add: streams_exact_def)
next
  fix before event after s s'
  assume "\<exists>xs. streams_exact before s xs" and v: "validate_event s event = Inr s'"
  then obtain xs where xs: "streams_exact before s xs" by blast
  obtain client op where c: "session_event event client op" "hashable client" "clients s' = group_append client op (clients s)"
    using validate_event_session [OF v] by blast
  have keys: "\<forall>(l, ops)\<in>set (clients s). hashable l" using xs by (simp add: streams_exact_def)
  then have "\<forall>(l, ops)\<in>set (clients s'). hashable l" using group_append_keys [of client op "clients s"] c(2) unfolding c(3) by fastforce
  then have "streams_exact (before @ [event]) s' (xs @ [(client, op)])"
    using xs c(1,2) stream_of_append [OF c(2) _ keys, of _ op] by (auto simp: streams_exact_def c(3) intro!: list_all2_appendI)
  then show "\<exists>xs. streams_exact (before @ [event]) s' xs" by blast
qed

text \<open>A relation that holds both ways round does not depend on the order of a list.\<close>

lemma sorted_wrt_mset:
  assumes "mset xs = mset ys" "sorted_wrt R ys" "\<And>a b. R a b \<Longrightarrow> R b a"
  shows "sorted_wrt R xs"
  using assms(1,2)
proof (induction xs arbitrary: ys)
  case (Cons x xs)
  then obtain us vs where ys: "ys = us @ x # vs" by (metis list.set_intros(1) mset_eq_setD split_list)
  then have m: "mset xs = mset (us @ vs)" using Cons.prems(1) by simp
  have "sorted_wrt R (us @ vs)" "\<forall>y\<in>set (us @ vs). R x y" using Cons.prems(2) assms(3) by (auto simp: ys sorted_wrt_append)
  then show ?case using Cons.IH [OF m] mset_eq_setD [OF m] by simp
qed simp

lemma sorted_wrt_groups:
  assumes "\<forall>k. hashable k \<longrightarrow> sorted_wrt R (map snd (filter (\<lambda>x. py_eq (fst x) k) xs))" "\<forall>x\<in>set xs. hashable (fst x)"
  shows "sorted_wrt (\<lambda>x y. py_eq (fst x) (fst y) \<longrightarrow> R (snd x) (snd y)) xs"
  using assms
proof (induction xs)
  case (Cons x xs)
  have "R (snd x) (snd y)" if y: "y \<in> set xs" "py_eq (fst x) (fst y)" for y
  proof -
    have h: "hashable (fst x)" "hashable (fst y)" using Cons.prems(2) y(1) by auto
    have "py_eq (fst y) (fst y)" using y(2) h by (auto simp: py_eq_hashable)
    then show ?thesis using Cons.prems(1) [rule_format, OF h(2)] y by (cases y) auto
  qed
  moreover have "sorted_wrt R (map snd (filter (\<lambda>x. py_eq (fst x) k) xs))" if "hashable k" for k
    using Cons.prems(1) [rule_format, OF that] by (auto split: if_splits)
  then have "sorted_wrt (\<lambda>x y. py_eq (fst x) (fst y) \<longrightarrow> R (snd x) (snd y)) xs" using Cons by simp
  ultimately show ?case by simp
qed simp

text \<open>C4: an accepted history has sequential sessions. Every event has a client, an interval and a
  sequence number, and of any two events of the same client, wherever they stand in the history,
  one ends before the other starts and carries the smaller sequence number. So no
  operation can be a retry that the session table answers.\<close>

theorem accepted_sessions_sequential:
  assumes "validate events = Inr gs"
  shows "\<exists>xs. list_all2 (\<lambda>event (client, op). session_event event client op) events xs \<and>
    sorted_wrt (\<lambda>x y. py_eq (fst x) (fst y) \<longrightarrow> precedes (snd x) (snd y) \<or> precedes (snd y) (snd x)) xs"
proof -
  from assms obtain t where
    t: "foldE validate_event \<lparr>seen = [], groups = [], clients = []\<rparr> events = Inr t"
    and s: "list_all (\<lambda>(_, stream). session_ok (sort_key op_start stream)) (clients t)"
    by (auto simp: validate_def check_sessions_def)
  obtain xs where xs: "streams_exact events t xs" using fold_streams_exact [OF t] by blast
  have w: "\<forall>(c, ops)\<in>set (clients t). list_all well_timed ops" using fold_validate_ok [OF t] by (simp add: tables_ok_def)
  let ?R = "\<lambda>a b. precedes a b \<or> precedes b a"
  have "sorted_wrt ?R (map snd (filter (\<lambda>x. py_eq (fst x) k) xs))" if k: "hashable k" for k
  proof (cases "stream_of (clients t) k = []")
    case False
    then obtain l where l: "(l, stream_of (clients t) k) \<in> set (clients t)" using stream_of_mem by blast
    then have "sorted_wrt precedes (sort_key op_start (stream_of (clients t) k))"
      using s w session_ok_sorted unfolding precedes_def [abs_def] by (fastforce simp: list_all_iff)
    then have "sorted_wrt ?R (sort_key op_start (stream_of (clients t) k))" by (rule sorted_wrt_mono_rel [rotated]) auto
    then have "sorted_wrt ?R (stream_of (clients t) k)" by (rule sorted_wrt_mset [rotated]) auto
    then show ?thesis using xs k by (simp add: streams_exact_def)
  qed (use xs k in \<open>simp add: streams_exact_def\<close>)
  then show ?thesis using xs sorted_wrt_groups [of ?R xs] unfolding streams_exact_def by blast
qed

text \<open>Two operations of one client, recorded in the order of their replies.\<close>

definition session_history :: "pyval list" where
  "session_history =
     [sample_event ''a'' 2 ''get'' 11 20 (PStr []) (PStr ''v''),
      sample_event ''a'' 1 ''put'' 0 10 (PStr ''v'') (PStr ''v'')]"

lemma sample_session: "session_event (sample_event client sequence kind s e value observed) c op \<Longrightarrow> c = PStr client"
  by (auto simp: session_event_def sample_event_def item_def split: pyval.splits option.splits dest!: sym)

lemma session_validated: "\<exists>gs. validate session_history = Inr gs"
proof -
  have "(case validate session_history of Inr gs \<Rightarrow> length gs = 1 | Inl _ \<Rightarrow> False)" by code_simp
  then show ?thesis by (auto split: sum.splits)
qed

theorem accepted_sessions_sequential_witness:
  "\<exists>a b. session_event (session_history ! 0) (PStr ''a'') a \<and> session_event (session_history ! 1) (PStr ''a'') b \<and>
     (precedes a b \<or> precedes b a)"
proof -
  obtain gs where "validate session_history = Inr gs" using session_validated by blast
  from accepted_sessions_sequential [OF this] obtain xs where
    xs: "list_all2 (\<lambda>event (client, op). session_event event client op) session_history xs"
      "sorted_wrt (\<lambda>x y. py_eq (fst x) (fst y) \<longrightarrow> precedes (snd x) (snd y) \<or> precedes (snd y) (snd x)) xs" by blast
  from xs(1) obtain c a d b where x: "xs = [(c, a), (d, b)]" "session_event (session_history ! 0) c a" "session_event (session_history ! 1) d b"
    by (auto simp: session_history_def list_all2_Cons1)
  have "c = PStr ''a''" "d = PStr ''a''" using x(2,3) by (auto simp: session_history_def dest: sample_session)
  then show ?thesis using x xs(2) by auto
qed

text \<open>An operation with an unknown outcome is never dropped to make a history pass. In
  a history with a \<open>passed\<close> verdict every event has an \<open>ok\<close> reply with a result object
  and no session or application error.\<close>

theorem passed_history_complete:
  assumes "check_history events max_states late depth initial = Inr report"
    and "report_status ''passed'' report" and "event \<in> set events"
  shows "complete_reply event"
proof -
  from check_history_passed [OF assms(1,2)] obtain gs where "validate events = Inr gs" by blast
  from validate_Inr(1) [OF this] assms(3) show ?thesis by (simp add: list_all_iff)
qed

theorem passed_history_complete_witness:
  "complete_reply (sample_event ''a'' 1 ''put'' 0 10 (PStr ''v'') (PStr ''v''))"
  using passed_history_complete [OF sample_passed]
  by (simp add: sample_history_def)

end
