(* ===== verification/Verify.thy ===== *)
theory Verify
  imports Micro_Report Machine Storage_Footprint Checker
begin

text \<open>
  \<open>verify\<close> of \<open>src/benchctl/evidence.py\<close>: the check of a whole run directory. It compares the
  directory with its index, recomputes every receipt from the sealed status files with the
  components of this development, validates the accounting of the measurement and replays the
  recorded history through the linearizability checker. A machine profile and an in-memory
  benchmark take their own branches.
\<close>

section \<open>Receipts of a case\<close>

definition runtime_configuration_errors :: "world \<Rightarrow> fsnode \<Rightarrow> pyval \<Rightarrow> string list res" where
  "runtime_configuration_errors w dir manifest =
     bindE (get_or manifest ''options'' (PDict [])) (\<lambda>options.
     let present = path_exists dir ''replication-window-config.json'' in
     bindE (get manifest ''implementation'') (\<lambda>implementation.
     bindE (if \<not> py_eq implementation (PStr ''rafter'') then Inr True
       else bindE (get options ''diagnostics'') (\<lambda>d. Inr (\<not> truthy d))) (\<lambda>inactive.
     if inactive then Inr (if present then [''unexpected replication window activation receipt''] else [])
     else if \<not> has_key options ''max_inflight_appends''
       then Inr (if present then [''replication window receipt has no declared bound''] else [])
     else if \<not> present then Inr [''replication window activation receipt is missing'']
     else bindE (read_json w dir ''before.json'') (\<lambda>before.
       bindE (read_json w dir ''diagnostics-after-load.json'') (\<lambda>after_load.
       bindE (item options ''max_inflight_appends'') (\<lambda>bound.
       bindE (configuration_receipt before after_load bound) (\<lambda>actual.
       bindE (read_json w dir ''replication-window-config.json'') (\<lambda>sealed.
       Inr (if py_eq (PDict actual) sealed then [] else [''replication window activation receipt differs from runtime status'']))))))))) "

definition load_environment_errors :: "world \<Rightarrow> fsnode \<Rightarrow> pyval \<Rightarrow> string list res" where
  "load_environment_errors w dir manifest =
     bindE (get manifest ''load_environment_observation'') (\<lambda>declared.
     let present = path_exists dir ''load-environment.json'' in
     case declared of
       PNone \<Rightarrow> Inr (if present then [''unexpected measured-load environment receipt''] else [])
     | PDict d \<Rightarrow>
         if \<not> keys_are d [''schema'', ''expected_duration_seconds'', ''nominal_sample_interval_seconds'']
             \<or> \<not> py_eq (dict_get d ''schema'' PNone) (PInt 1)
         then Inr [''unsupported measured-load environment declaration'']
         else if \<not> present then Inr [''measured-load environment receipt is missing'']
         else bindE (read_json_lines w dir ''process-samples.jsonl'') (\<lambda>samples.
           bindE (load_environment_receipt samples (dict_get d ''expected_duration_seconds'' PNone)
             (dict_get d ''nominal_sample_interval_seconds'' PNone)) (\<lambda>observed.
           bindE (read_json w dir ''load-environment.json'') (\<lambda>sealed.
           bindE (bindE (item (PDict observed) ''coverage'') (\<lambda>c. item c ''status'')) (\<lambda>status.
           Inr ((if \<not> py_eq (PDict observed) sealed then [''measured-load environment receipt differs from raw samples''] else [])
             @ (if \<not> py_eq status (PStr ''passed'') then [''measured-load environment sampling coverage did not pass''] else []))))))
     | _ \<Rightarrow> Inr [''unsupported measured-load environment declaration''])"

text \<open>The restarted node and the two boundaries of a snapshot catch-up, with the errors noted.\<close>

definition catchup_node :: "pyval \<Rightarrow> pyval \<times> string list" where
  "catchup_node events = (case events of
     PList [a, b] \<Rightarrow>
       (case (a, b) of
          (PDict d, PDict e) \<Rightarrow>
            let node = dict_get d ''node'' PNone in
            (node, if \<not> (case node of PInt i \<Rightarrow> i \<in> {1, 2, 3} | _ \<Rightarrow> False)
                \<or> \<not> py_eq (dict_get d ''action'' PNone) (PStr ''SIGKILL follower'')
                \<or> \<not> py_eq (dict_get e ''node'' PNone) node
                \<or> \<not> py_eq (dict_get e ''action'' PNone) (PStr ''restart same data directory'')
              then [''snapshot catch-up fault actions differ from the declared scenario''] else [])
        | _ \<Rightarrow> (PNone, [''snapshot catch-up fault events are invalid'']))
   | _ \<Rightarrow> (PNone, [''snapshot catch-up requires exactly one follower kill and restart'']))"

definition catchup_evidence :: "world \<Rightarrow> fsnode \<Rightarrow> pyval \<Rightarrow> (pyval \<times> pyval \<times> pyval \<times> string list) res" where
  "catchup_evidence w dir scenario =
     (if \<not> py_eq scenario (PStr ''snapshot-catchup'') then Inr (PNone, PNone, PNone, [])
      else bindE (read_json w dir ''fault.json'') (\<lambda>fault.
        bindE (get_or fault ''events'' (PList [])) (\<lambda>events.
        bindE (get_or fault ''snapshot_catchup'' (PDict [])) (\<lambda>catchup.
        bindE (get catchup ''stopped_application_index'') (\<lambda>stopped.
        bindE (get catchup ''required_snapshot_index'') (\<lambda>required.
        let (node, errors) = catchup_node events in Inr (node, stopped, required, errors)))))))"

definition expected_stages :: pyval where
  "expected_stages = PDict [kv ''schema'' (PInt 1), kv ''required'' (PBool True)]"

definition expected_wal_stages :: pyval where
  "expected_wal_stages = PDict [kv ''schema'' (PInt 2), kv ''required'' (PBool True)]"

text \<open>\<open>sealed.get("requirements", {}).get(name) is True\<close>\<close>

definition requirement_of :: "pyval \<Rightarrow> string \<Rightarrow> bool res" where
  "requirement_of sealed name =
     bindE (get_or sealed ''requirements'' (PDict [])) (\<lambda>r. bindE (get r name) (\<lambda>v. Inr (v = PBool True)))"

text \<open>Which stages the recomputation observes and requires, from the declarations of the manifest
  and from the sealed receipt, with the errors noted.\<close>

definition stage_selection :: "pyval \<Rightarrow> pyval \<Rightarrow> (selection \<times> string list) res" where
  "stage_selection manifest sealed =
     bindE (get manifest ''native_snapshot_stage_observation'') (\<lambda>native.
     let native_declared = py_in native [expected_stages, expected_wal_stages] in
     bindE (requirement_of sealed ''native_snapshot_stage_activity'') (\<lambda>native_recorded.
     bindE (get sealed ''schema'') (\<lambda>schema.
     bindE (requirement_of sealed ''wal_reclamation_stage_observation'') (\<lambda>wal_recorded.
     bindE (get manifest ''application_checkpoint_stage_observation'') (\<lambda>application.
     let application_declared = py_eq application expected_stages in
     bindE (requirement_of sealed ''application_checkpoint_stage_activity'') (\<lambda>application_recorded.
     bindE (get manifest ''retired_log_worker_observation'') (\<lambda>retirement.
     let retirement_declared = py_eq retirement expected_stages in
     bindE (requirement_of sealed ''retired_log_worker_activity'') (\<lambda>retirement_recorded.
     bindE (bindE (get_or sealed ''totals'' (PDict [])) (\<lambda>t. get t ''log_retirement'')) (\<lambda>retired.
     let require_native = (native_declared \<or> native_recorded); require_application = (application_declared \<or> application_recorded);
         require_retirement = (retirement_declared \<or> retirement_recorded) in
     Inr (\<lparr>native_snapshot_stages = py_in schema (map PInt [3, 4, 5, 6, 7]) \<or> require_native, require_native_stages = require_native,
         wal_reclamation_stages = py_eq native expected_wal_stages \<or> wal_recorded \<or> py_eq schema (PInt 7),
         application_stages = py_in schema (map PInt [4, 5, 6, 7]) \<or> require_application, require_application_stages = require_application,
         retired_log_worker = retired \<noteq> PNone \<or> require_retirement, require_retired_log_worker = require_retirement\<rparr>,
       (if native \<noteq> PNone \<and> \<not> native_declared then [''unsupported native snapshot stage observation declaration''] else [])
       @ (if application \<noteq> PNone \<and> \<not> application_declared then [''unsupported application checkpoint stage observation declaration''] else [])
       @ (if retirement \<noteq> PNone \<and> \<not> retirement_declared then [''unsupported retired-log worker observation declaration''] else [])))))))))))"

definition snapshot_files :: "string list" where
  "snapshot_files = [''snapshot-compaction-activity.json'', ''snapshot-after-scenario.json'']"

definition snapshot_reclamation_errors :: "world \<Rightarrow> fsnode \<Rightarrow> pyval \<Rightarrow> string list res" where
  "snapshot_reclamation_errors w dir manifest =
     bindE (get_or manifest ''options'' (PDict [])) (\<lambda>options.
     bindE (get_or options ''snapshot_interval_entries'' (PInt 0)) (\<lambda>declared.
     let present = filter (path_exists dir) snapshot_files; missing = filter (\<lambda>name. \<not> path_exists dir name) snapshot_files in
     if \<not> truthy declared then Inr (map (\<lambda>name. ''unexpected live snapshot/reclamation evidence: '' @ name) present)
     else case int_value declared of
       None \<Rightarrow> Inr [''invalid declared snapshot interval'']
     | Some interval \<Rightarrow>
         if interval < 1 \<or> interval > 1000000000 then Inr [''invalid declared snapshot interval'']
         else if missing \<noteq> [] then Inr (map (\<lambda>name. ''missing live snapshot/reclamation evidence: '' @ name) missing)
         else bindE (get manifest ''scenario'') (\<lambda>scenario.
           bindE (catchup_evidence w dir scenario) (\<lambda>(restarted_node, stopped, required, catchup_errors).
           bindE (read_json w dir ''snapshot-compaction-activity.json'') (\<lambda>sealed.
           bindE (stage_selection manifest sealed) (\<lambda>(opts, declaration_errors).
           bindE (read_json w dir ''before.json'') (\<lambda>before.
           bindE (read_json w dir ''snapshot-after-scenario.json'') (\<lambda>after_scenario.
           bindE (service_activity opts before after_scenario interval scenario restarted_node stopped required) (\<lambda>actual.
           Inr (catchup_errors @ declaration_errors
             @ (if \<not> py_eq (PDict actual) sealed then [''live snapshot/reclamation receipt differs from runtime status''] else [])))))))))))"

definition STATUS_BARRIERS :: "(string \<times> string) list" where
  "STATUS_BARRIERS = [(''before_measurement'', ''before.json''), (''after_measurement'', ''after-measurement-status.json''),
     (''after_final_restart'', ''after-final-restart.json'')]"

definition OBSERVATION :: pyval where
  "OBSERVATION = PDict [kv ''schema'' (PInt 1), kv ''checkpoints'' (PList (map PStr CHECKPOINTS)),
     kv ''status_barriers'' (PDict (map (\<lambda>(b, n). kv b (PStr n)) STATUS_BARRIERS)),
     kv ''sizes'' (PList [PStr ''logical_bytes'', PStr ''allocated_bytes''])]"

definition incoherent_status :: "pykey \<times> pyval \<Rightarrow> bool res" where
  "incoherent_status = (\<lambda>(node, status).
     case status of
       PDict s \<Rightarrow> if \<not> py_eq (dict_get s ''status'' PNone) (PStr ''ok'') then Inr True
         else (case dict_get s ''info'' PNone of
           PDict info \<Rightarrow> bindE (int_of_key node) (\<lambda>i. Inr (\<not> py_eq (dict_get info ''node_id'' PNone) (PInt i)))
         | _ \<Rightarrow> Inr True)
     | _ \<Rightarrow> Inr True)"

definition barrier_errors :: "world \<Rightarrow> fsnode \<Rightarrow> string \<times> string \<Rightarrow> string list res" where
  "barrier_errors w dir = (\<lambda>(boundary, name).
     let message = (\<lambda>s. [''storage footprint '' @ boundary @ '' status barrier is '' @ s]) in
     if \<not> path_exists dir name then Inr (message ''missing'')
     else case read_json w dir name of
       Inl e \<Rightarrow> if class_of e \<in> {OSError, ValueError} then Inr (message ''invalid'') else Inl e
     | Inr statuses \<Rightarrow> (case statuses of
         PDict d \<Rightarrow> if \<not> keys_are d [''1'', ''2'', ''3''] then Inr (message ''incomplete'')
           else bindE (anyE incoherent_status d) (\<lambda>bad. Inr (if bad then message ''incoherent'' else []))
       | _ \<Rightarrow> Inr (message ''incomplete'')))"

definition storage_footprint_errors :: "world \<Rightarrow> fsnode \<Rightarrow> pyval \<Rightarrow> string list res" where
  "storage_footprint_errors w dir manifest =
     bindE (get manifest ''storage_footprint_observation'') (\<lambda>declared.
     let present = path_exists dir ''storage-footprint.json'' in
     if declared = PNone then Inr (if present then [''unexpected storage footprint receipt''] else [])
     else if \<not> py_eq declared OBSERVATION then Inr [''unsupported storage footprint observation declaration'']
     else if \<not> present then Inr [''declared storage footprint receipt is missing'']
     else bindE (mapE (barrier_errors w dir) STATUS_BARRIERS) (\<lambda>rows.
       case read_json w dir ''storage-footprint.json'' of
         Inl e \<Rightarrow> if class_of e \<in> {OSError, ValueError} then Inr (concat rows @ [''storage footprint receipt is invalid'']) else Inl e
       | Inr v \<Rightarrow> bindE (footprint_errors v) (\<lambda>es. Inr (concat rows @ es))))"

section \<open>Timelines and activity\<close>

definition restart_events :: "world \<Rightarrow> fsnode \<Rightarrow> pyval \<Rightarrow> pyval list res" where
  "restart_events w dir scenario =
     bindE (bindE (read_json w dir ''fault.json'') (\<lambda>fault. item fault ''events'')) (\<lambda>events.
     case events of
       PList [PDict a, PDict b] \<Rightarrow>
         let kill = (if py_eq scenario (PStr ''leader-loss'') then ''SIGKILL leader'' else ''SIGKILL follower'') in
         if \<not> py_eq (dict_get a ''action'' PNone) (PStr kill) \<or> \<not> py_eq (dict_get b ''action'' PNone) (PStr ''restart same data directory'')
           \<or> \<not> py_eq (dict_get a ''node'' PNone) (dict_get b ''node'' PNone)
         then raiseE ValueError ''invalid diagnostic restart sequence''
         else bindE (mapE (\<lambda>event. item event ''node'') (filter (\<lambda>event. case event of
             PDict d \<Rightarrow> py_eq (dict_get d ''action'' PNone) (PStr ''restart same data directory'') | _ \<Rightarrow> False) [PDict a, PDict b])) (\<lambda>nodes.
           bindE (mapE require_hashable nodes) (\<lambda>_. Inr nodes))
     | _ \<Rightarrow> raiseE ValueError ''invalid diagnostic fault event inventory'')"

text \<open>The restarted nodes, and whether the evidence for them is invalid.\<close>

definition restart_evidence :: "world \<Rightarrow> fsnode \<Rightarrow> pyval \<Rightarrow> (pyval list \<times> bool) res" where
  "restart_evidence w dir scenario =
     (if \<not> py_in scenario [PStr ''leader-loss'', PStr ''snapshot-catchup''] then Inr ([], False)
      else case restart_events w dir scenario of
        Inl e \<Rightarrow> if class_of e \<in> {OSError, KeyError, TypeError, ValueError} then Inr ([], True) else Inl e
      | Inr nodes \<Rightarrow> Inr (nodes, \<not> (case nodes of [PInt i] \<Rightarrow> i \<in> {1, 2, 3} | _ \<Rightarrow> False)))"

definition option_set :: "pyval \<Rightarrow> string \<Rightarrow> bool res" where
  "option_set manifest name =
     bindE (get_or manifest ''options'' (PDict [])) (\<lambda>options. bindE (get options name) (\<lambda>v. Inr (truthy v)))"

definition durable_kv :: "pyval \<Rightarrow> bool res" where
  "durable_kv manifest = bindE (get manifest ''scenario'') (\<lambda>s. Inr (py_eq s (PStr ''durable-kv'')))"

definition verify_timelines :: "world \<Rightarrow> fsnode \<Rightarrow> pyval \<Rightarrow> (verify_state, unit) act" where
  "verify_timelines w dir manifest =
     bindA (liftA (option_set manifest ''diagnostics'')) (\<lambda>diagnostics.
     whenA diagnostics (
       bindA (liftA (bindE (get manifest ''scenario'') (restart_evidence w dir))) (\<lambda>(restarted, invalid).
       bindA (note_if invalid ''diagnostic restart evidence is invalid'') (\<lambda>_.
       bindA (liftA (bindE (read_json w dir ''before.json'') (\<lambda>before.
         bindE (read_json w dir ''diagnostics-after-load.json'') (\<lambda>after_load.
         bindE (timeline_extract before after_load restarted) (\<lambda>actual.
         bindE (read_json w dir ''operation-timelines.json'') (\<lambda>sealed. recorded_extract_matches actual sealed)))))) (\<lambda>same.
       note_if (\<not> same) ''operation timeline extraction differs from status watermarks'')))))"

definition verify_pipeline :: "world \<Rightarrow> fsnode \<Rightarrow> pyval \<Rightarrow> (verify_state, unit) act" where
  "verify_pipeline w dir manifest =
     bindA (liftA (bindE (option_set manifest ''pipelined_durability'') (\<lambda>p. if p then durable_kv manifest else Inr False))) (\<lambda>active.
     whenA active (
       bindA (liftA (bindE (read_json w dir ''before.json'') (\<lambda>before.
         bindE (read_json w dir ''persistence-after-load.json'') (\<lambda>after_load.
         bindE (option_set manifest ''combine_peer_proposals'') (\<lambda>combined.
         bindE (pipeline_activity before after_load combined) (\<lambda>actual.
         bindE (read_json w dir ''pipeline-activity.json'') (\<lambda>sealed. recorded_activity_matches actual sealed))))))) (\<lambda>same.
       note_if (\<not> same) ''pipeline activity verdict differs from recorded counters'')))"

definition verify_priority :: "world \<Rightarrow> fsnode \<Rightarrow> pyval \<Rightarrow> (verify_state, unit) act" where
  "verify_priority w dir manifest =
     bindA (liftA (bindE (option_set manifest ''durable_completion_priority'') (\<lambda>p. if p then durable_kv manifest else Inr False))) (\<lambda>active.
     if active then
       bindA (liftA (bindE (read_json w dir ''before.json'') (\<lambda>before.
         bindE (read_json w dir ''persistence-after-load.json'') (\<lambda>after_load.
         bindE (priority_activity before after_load) (\<lambda>actual.
         bindE (read_json w dir ''completion-priority-activity.json'') (\<lambda>sealed. Inr (py_eq (PDict actual) sealed))))))) (\<lambda>same.
       note_if (\<not> same) ''durable completion priority verdict differs from recorded counters'')
     else note_if (path_exists dir ''completion-priority-activity.json'') ''unexpected durable completion priority activity receipt'')"

section \<open>The correctness checks\<close>

definition read_history :: "world \<Rightarrow> fsnode \<Rightarrow> pyval list res" where
  "read_history w dir =
     bindE (read_text w dir ''qualification-history.jsonl'') (\<lambda>text.
     bindE (raise_if (length text > 16 * 1024 * 1024) ValueError ''qualification history exceeds 16 MiB'') (\<lambda>_.
     mapE (loads w) (filter (\<lambda>line. strip line \<noteq> []) (splitlines text))))"

definition replay_history :: "world \<Rightarrow> fsnode \<Rightarrow> pyval res" where
  "replay_history w dir =
     bindE (read_history w dir) (\<lambda>events. check_history events 200000 (out_of_time w) (recursion_limit w) [])"

definition correct_if :: "bool \<Rightarrow> string \<Rightarrow> (verify_state, unit) act" where
  "correct_if b e = whenA b (modifyA (\<lambda>s. s\<lparr>vs_correctness := vs_correctness s @ [e]\<rparr>))"

definition not_passed :: "pyval \<Rightarrow> bool res" where
  "not_passed v = bindE (get v ''status'') (\<lambda>s. Inr (\<not> py_eq s (PStr ''passed'')))"

definition verify_correctness :: "world \<Rightarrow> fsnode \<Rightarrow> (verify_state, unit) act" where
  "verify_correctness w dir =
     bindA (modifyA (\<lambda>s. s\<lparr>vs_checking := True\<rparr>)) (\<lambda>_.
     bindA (liftA (read_json w dir ''qualification.json'')) (\<lambda>qualification.
     bindA (liftA (read_json w dir ''recovery.json'')) (\<lambda>recovery.
     bindA (liftA (bindE (replay_history w dir) not_passed)) (\<lambda>a.
     bindA (correct_if a ''independent history recheck did not pass'') (\<lambda>_.
     bindA (liftA (not_passed qualification)) (\<lambda>b.
     bindA (correct_if b ''history qualification did not pass'') (\<lambda>_.
     bindA (liftA (not_passed recovery)) (\<lambda>c.
     correct_if c ''restart recovery check did not pass''))))))))"

definition verify_case :: "world \<Rightarrow> fsnode \<Rightarrow> (verify_state, unit) act" where
  "verify_case w dir =
     bindA (liftA (read_json w dir ''manifest.json'')) (\<lambda>manifest.
     bindA (bindA (liftA (load_environment_errors w dir manifest)) note_all) (\<lambda>_.
     bindA (bindA (liftA (runtime_configuration_errors w dir manifest)) note_all) (\<lambda>_.
     bindA (bindA (liftA (snapshot_reclamation_errors w dir manifest)) note_all) (\<lambda>_.
     bindA (bindA (liftA (storage_footprint_errors w dir manifest)) note_all) (\<lambda>_.
     bindA (verify_timelines w dir manifest) (\<lambda>_.
     bindA (verify_pipeline w dir manifest) (\<lambda>_.
     bindA (verify_priority w dir manifest) (\<lambda>_.
     bindA (bindA (liftA (bindE (read_json w dir ''measurement.json'') validate_result)) note_all) (\<lambda>_.
     verify_correctness w dir)))))))))"

section \<open>Machine profiles and in-memory benchmarks\<close>

definition status_of :: "bool \<Rightarrow> pyval" where
  "status_of failed = PStr (if failed then ''failed'' else ''passed'')"

definition errors_object :: "string list \<Rightarrow> pyval" where
  "errors_object es = PDict [kv ''status'' (status_of (es \<noteq> [])), kv ''errors'' (PList (map PStr es))]"

definition profile_report :: "pyval \<Rightarrow> string list \<Rightarrow> pydict res" where
  "profile_report verdict es =
     bindE (get_or verdict ''status'' (PStr ''failed'')) (\<lambda>status.
     bindE (get_or verdict ''failures'' (PList [])) (\<lambda>failures.
     bindE (py_add (PList (map PStr es)) failures) (\<lambda>both.
     bindE (bindE (get_or verdict ''missing'' (PList [])) iter_of) (\<lambda>missing.
     bindE (py_add both (PList (map (\<lambda>name. PStr (''missing: '' @ py_str name)) missing))) (\<lambda>errors.
     Inr [kv ''status'' (status_of (es \<noteq> [] \<or> \<not> py_eq status (PStr ''passed''))), kv ''errors'' errors,
       kv ''verdicts'' (PDict [kv ''evidence_integrity'' (errors_object es), kv ''environment_qualification'' verdict])])))))"

definition verify_profile :: "world \<Rightarrow> fsnode \<Rightarrow> (verify_state, pydict option) act" where
  "verify_profile w dir =
     bindA (liftA (read_json w dir ''machine-profile.json'')) (\<lambda>manifest.
     bindA (liftA (get manifest ''schema'')) (\<lambda>schema.
     bindA (liftA (if \<not> py_in schema [PInt 1, PInt 2] then Inr True
       else bindE (get manifest ''kind'') (\<lambda>k. Inr (\<not> py_eq k (PStr ''fixed-machine-idle''))))) (\<lambda>unsupported.
     bindA (note_if unsupported ''unsupported machine-profile manifest'') (\<lambda>_.
     bindA (liftA (bindE (read_json_lines w dir ''idle-samples.jsonl'') (\<lambda>samples.
       summarize_idle samples (if py_eq schema (PInt 1) then 1 else 2)))) (\<lambda>summary.
     bindA (liftA (read_json w dir ''summary.json'')) (\<lambda>sealed_summary.
     bindA (note_if (\<not> py_eq (PDict summary) sealed_summary) ''machine-profile summary differs from raw samples'') (\<lambda>_.
     bindA (liftA (bindE (get_or manifest ''qualification_objective'' (PDict [])) (assess_idle (PDict summary)))) (\<lambda>verdict.
     bindA (liftA (read_json w dir ''verdict.json'')) (\<lambda>sealed_verdict.
     bindA (note_if (\<not> py_eq (PDict verdict) sealed_verdict) ''machine-profile verdict differs from objective'') (\<lambda>_.
     bindA (bindA (liftA (bindE (read_json w dir ''storage-probe.json'') storage_probe_errors)) note_all) (\<lambda>_.
     (\<lambda>s. liftA (bindE (profile_report sealed_verdict (vs_integrity s)) (\<lambda>r. Inr (Some r))) s))))))))))))"

definition verify_micro :: "world \<Rightarrow> fsnode \<Rightarrow> (verify_state, pydict option) act" where
  "verify_micro w dir =
     bindA (liftA (verify_report w dir)) (\<lambda>_.
     (\<lambda>s. (Inr (Some [kv ''status'' (status_of (vs_integrity s \<noteq> [])), kv ''errors'' (PList (map PStr (vs_integrity s))),
       kv ''verdicts'' (PDict [kv ''evidence_integrity'' (errors_object (vs_integrity s)),
         kv ''correctness_checks'' (PDict [kv ''status'' (PStr ''not measured''), kv ''errors'' (PList [])])])]), s)))"

section \<open>The whole check\<close>

definition verify_body :: "world \<Rightarrow> fsnode \<Rightarrow> (verify_state, pydict option) act" where
  "verify_body w dir =
     bindA (verify_index w dir) (\<lambda>_.
     if path_exists dir ''machine-profile.json'' then verify_profile w dir
     else if path_exists dir ''provenance.json'' then verify_micro w dir
     else bindA (verify_case w dir) (\<lambda>_. liftA (Inr None)))"

definition verify_exception :: "pyexc \<Rightarrow> verify_state \<Rightarrow> verify_state" where
  "verify_exception e s =
     (if vs_checking s then s\<lparr>vs_correctness := vs_correctness s @ [str_of e]\<rparr> else s\<lparr>vs_integrity := vs_integrity s @ [str_of e]\<rparr>)"

definition verify_report_of :: "verify_state \<Rightarrow> pydict" where
  "verify_report_of s =
     (let errors = vs_integrity s @ vs_correctness s in
      [kv ''status'' (status_of (errors \<noteq> [])), kv ''errors'' (PList (map PStr errors)),
       kv ''verdicts'' (PDict [kv ''evidence_integrity'' (errors_object (vs_integrity s)), kv ''correctness_checks'' (errors_object (vs_correctness s))]),
       kv ''scope'' (PStr ''artifact integrity/accounting plus recorded finite checks; not independent certification'')])"

definition verify :: "world \<Rightarrow> fsnode \<Rightarrow> pydict res" where
  "verify w dir = (case verify_body w dir no_errors of
     (Inr (Some r), _) \<Rightarrow> Inr r
   | (Inr None, s) \<Rightarrow> Inr (verify_report_of s)
   | (Inl e, s) \<Rightarrow> if class_of e \<in> {OSError, ValueError, KeyError, TypeError} then Inr (verify_report_of (verify_exception e s)) else Inl e)"

section \<open>What a passed check guarantees\<close>

lemma appends_correct_if: "appends (correct_if b e)"
  by (simp add: correct_if_def whenA_def appends_liftA) (simp add: appends_def modifyA_def quiet_def)

lemma appends_checking: "appends (modifyA (\<lambda>s. s\<lparr>vs_checking := True\<rparr>))"
  by (simp add: appends_def modifyA_def quiet_def)

lemma appends_case_prod: "(\<And>a b. p = (a, b) \<Longrightarrow> appends (f a b)) \<Longrightarrow> appends (case p of (a, b) \<Rightarrow> f a b)"
  by (cases p) simp

lemmas verify_appends = appends_intros appends_correct_if appends_checking appends_verify_index appends_case_prod

lemma appends_timelines: "appends (verify_timelines w dir manifest)"
  unfolding verify_timelines_def by (intro verify_appends)

lemma appends_pipeline: "appends (verify_pipeline w dir manifest)"
  unfolding verify_pipeline_def by (intro verify_appends)

lemma appends_priority: "appends (verify_priority w dir manifest)"
  unfolding verify_priority_def by (intro verify_appends) (auto intro!: verify_appends)

lemma appends_correctness: "appends (verify_correctness w dir)"
  unfolding verify_correctness_def by (intro verify_appends)

lemmas case_appends = verify_appends appends_timelines appends_pipeline appends_priority appends_correctness

text \<open>Runs that return and note nothing, by the structure of the action.\<close>

definition passes :: "(verify_state, 'a) act \<Rightarrow> verify_state \<Rightarrow> bool" where
  "passes m s \<longleftrightarrow> (\<exists>x t. m s = (Inr x, t) \<and> quiet t)"

lemma passes_start: "appends m \<Longrightarrow> passes m s \<Longrightarrow> quiet s"
  unfolding appends_def passes_def by (metis snd_conv)

lemma passes_lift: "passes (bindA (liftA r) f) s \<longleftrightarrow> (\<exists>y. r = Inr y \<and> passes (f y) s)"
  by (cases r) (simp_all add: passes_def bindA_def liftA_def)

lemma passes_modify: "passes (bindA (modifyA g) f) s \<longleftrightarrow> passes (f ()) (g s)"
  by (simp add: passes_def bindA_def modifyA_def)

lemma passes_noted:
  assumes "appends f'" "\<not> quiet u" shows "\<not> passes f' u"
  using assms passes_start by blast

lemma passes_note_if [simp]: "passes (note_if b e) s \<longleftrightarrow> \<not> b \<and> quiet s"
  by (auto simp: passes_def note_if_def whenA_def note_all_def modifyA_def liftA_def quiet_def)

lemma passes_correct_if [simp]: "passes (correct_if b e) s \<longleftrightarrow> \<not> b \<and> quiet s"
  by (auto simp: passes_def correct_if_def whenA_def modifyA_def liftA_def quiet_def)

lemma passes_bind_note_if: "(\<And>x. appends (f x)) \<Longrightarrow> passes (bindA (note_if b e) f) s \<longleftrightarrow> \<not> b \<and> passes (f ()) s"
  using passes_noted [of "f ()" "s\<lparr>vs_integrity := vs_integrity s @ [e]\<rparr>"]
  by (auto simp: passes_def bindA_def note_if_def whenA_def note_all_def modifyA_def liftA_def quiet_def)

lemma passes_bind_correct_if: "(\<And>x. appends (f x)) \<Longrightarrow> passes (bindA (correct_if b e) f) s \<longleftrightarrow> \<not> b \<and> passes (f ()) s"
  using passes_noted [of "f ()" "s\<lparr>vs_correctness := vs_correctness s @ [e]\<rparr>"]
  by (auto simp: passes_def bindA_def correct_if_def whenA_def modifyA_def liftA_def quiet_def)

lemma passes_bind_noted:
  assumes "\<And>x. appends (f x)"
  shows "passes (bindA (bindA (liftA r) note_all) f) s \<longleftrightarrow> r = Inr [] \<and> passes (f ()) s"
proof (cases r)
  case (Inr es)
  have "passes (f ()) (s\<lparr>vs_integrity := vs_integrity s @ es\<rparr>) \<longleftrightarrow> es = [] \<and> passes (f ()) s"
    using passes_start [OF assms, of "()" "s\<lparr>vs_integrity := vs_integrity s @ es\<rparr>"] by (cases "es = []") (auto simp: quiet_def)
  then show ?thesis by (simp add: Inr passes_def bindA_def liftA_def note_all_def modifyA_def)
qed (simp add: passes_def bindA_def liftA_def)

lemma passes_bind:
  assumes "passes (bindA m f) s" "\<And>x. appends (f x)"
  shows "passes m s \<and> (\<exists>y u. passes (f y) u)"
proof -
  obtain x t where run: "bindA m f s = (Inr x, t)" "quiet t" using assms(1) by (auto simp: passes_def)
  obtain y u where y: "m s = (Inr y, u)" "f y u = (Inr x, t)" using run(1) by (rule bindA_InrE)
  then have "passes (f y) u" using run(2) by (auto simp: passes_def)
  then show ?thesis using y(1) passes_start [OF assms(2)] by (auto simp: passes_def)
qed

lemmas passes_simps = passes_lift passes_modify passes_bind_note_if passes_bind_correct_if passes_bind_noted case_appends

lemma not_passed_False: "not_passed v = Inr False \<longleftrightarrow> report_status ''passed'' v"
  by (auto simp: not_passed_def report_status_def)

lemma correctness_passes:
  assumes "passes (verify_correctness w dir) s"
  shows "\<exists>qualification recovery report. read_json w dir ''qualification.json'' = Inr qualification \<and> report_status ''passed'' qualification \<and>
    read_json w dir ''recovery.json'' = Inr recovery \<and> report_status ''passed'' recovery \<and>
    replay_history w dir = Inr report \<and> report_status ''passed'' report"
proof -
  have "\<exists>qualification recovery report. read_json w dir ''qualification.json'' = Inr qualification \<and> not_passed qualification = Inr False \<and>
    read_json w dir ''recovery.json'' = Inr recovery \<and> not_passed recovery = Inr False \<and>
    replay_history w dir = Inr report \<and> not_passed report = Inr False"
    using assms by (fastforce simp: verify_correctness_def passes_simps)
  then show ?thesis by (simp add: not_passed_False)
qed

text \<open>The receipts that the check recomputes from the status snapshots of the run agree with the
  sealed ones: the operation timelines of a run with diagnostics, the activity of the persistence
  pipeline, and the durable completion priority, which no other run may have a receipt for.\<close>

definition timelines_agree :: "world \<Rightarrow> fsnode \<Rightarrow> pyval \<Rightarrow> bool" where
  "timelines_agree w dir manifest \<longleftrightarrow> option_set manifest ''diagnostics'' = Inr False \<or>
     (\<exists>scenario restarted before after_load actual sealed. get manifest ''scenario'' = Inr scenario \<and>
        restart_evidence w dir scenario = Inr (restarted, False) \<and>
        read_json w dir ''before.json'' = Inr before \<and> read_json w dir ''diagnostics-after-load.json'' = Inr after_load \<and>
        timeline_extract before after_load restarted = Inr actual \<and>
        read_json w dir ''operation-timelines.json'' = Inr sealed \<and> recorded_extract_matches actual sealed = Inr True)"

text \<open>An option of a durable run is on.\<close>

definition durable_option :: "pyval \<Rightarrow> string \<Rightarrow> bool res" where
  "durable_option manifest name = bindE (option_set manifest name) (\<lambda>p. if p then durable_kv manifest else Inr False)"

definition pipeline_agrees :: "world \<Rightarrow> fsnode \<Rightarrow> pyval \<Rightarrow> bool" where
  "pipeline_agrees w dir manifest \<longleftrightarrow> durable_option manifest ''pipelined_durability'' = Inr False \<or>
     (\<exists>before after_load combined actual sealed.
        read_json w dir ''before.json'' = Inr before \<and> read_json w dir ''persistence-after-load.json'' = Inr after_load \<and>
        option_set manifest ''combine_peer_proposals'' = Inr combined \<and> pipeline_activity before after_load combined = Inr actual \<and>
        read_json w dir ''pipeline-activity.json'' = Inr sealed \<and> recorded_activity_matches actual sealed = Inr True)"

definition priority_agrees :: "world \<Rightarrow> fsnode \<Rightarrow> pyval \<Rightarrow> bool" where
  "priority_agrees w dir manifest \<longleftrightarrow>
     durable_option manifest ''durable_completion_priority'' = Inr False \<and> \<not> path_exists dir ''completion-priority-activity.json'' \<or>
     (\<exists>before after_load actual sealed. durable_option manifest ''durable_completion_priority'' = Inr True \<and>
        read_json w dir ''before.json'' = Inr before \<and> read_json w dir ''persistence-after-load.json'' = Inr after_load \<and>
        priority_activity before after_load = Inr actual \<and>
        read_json w dir ''completion-priority-activity.json'' = Inr sealed \<and> py_eq (PDict actual) sealed)"

lemma whenA_passes: "passes (whenA b m) s \<longleftrightarrow> (if b then passes m s else quiet s)"
  by (simp add: whenA_def passes_def liftA_def)

lemma timelines_pass:
  assumes "passes (verify_timelines w dir manifest) s"
  shows "timelines_agree w dir manifest"
proof -
  obtain diagnostics where d: "option_set manifest ''diagnostics'' = Inr diagnostics"
    and p: "passes (whenA diagnostics (
       bindA (liftA (bindE (get manifest ''scenario'') (restart_evidence w dir))) (\<lambda>(restarted, invalid).
       bindA (note_if invalid ''diagnostic restart evidence is invalid'') (\<lambda>_.
       bindA (liftA (bindE (read_json w dir ''before.json'') (\<lambda>before.
         bindE (read_json w dir ''diagnostics-after-load.json'') (\<lambda>after_load.
         bindE (timeline_extract before after_load restarted) (\<lambda>actual.
         bindE (read_json w dir ''operation-timelines.json'') (\<lambda>sealed. recorded_extract_matches actual sealed)))))) (\<lambda>same.
       note_if (\<not> same) ''operation timeline extraction differs from status watermarks''))))) s"
    using assms by (auto simp: verify_timelines_def passes_lift)
  show ?thesis
  proof (cases diagnostics)
    case True
    with p show ?thesis unfolding timelines_agree_def
      by (intro disjI2) (fastforce simp: whenA_passes passes_lift passes_bind_note_if verify_appends bindE_eq_Inr)
  qed (simp add: timelines_agree_def d)
qed

lemma pipeline_passes:
  assumes "passes (verify_pipeline w dir manifest) s"
  shows "pipeline_agrees w dir manifest"
  using assms unfolding verify_pipeline_def pipeline_agrees_def durable_option_def [symmetric]
  by (auto simp: passes_lift whenA_passes bindE_eq_Inr split: if_splits)

lemma priority_passes:
  assumes "passes (verify_priority w dir manifest) s"
  shows "priority_agrees w dir manifest"
  using assms unfolding verify_priority_def priority_agrees_def durable_option_def [symmetric]
  by (auto simp: passes_lift bindE_eq_Inr simp del: py_eq.simps split: if_splits)

lemma case_passes:
  assumes "passes (verify_case w dir) s"
  shows "\<exists>manifest result. read_json w dir ''manifest.json'' = Inr manifest \<and> load_environment_errors w dir manifest = Inr [] \<and>
    runtime_configuration_errors w dir manifest = Inr [] \<and> snapshot_reclamation_errors w dir manifest = Inr [] \<and>
    storage_footprint_errors w dir manifest = Inr [] \<and> read_json w dir ''measurement.json'' = Inr result \<and> validate_result result = Inr [] \<and>
    timelines_agree w dir manifest \<and> pipeline_agrees w dir manifest \<and> priority_agrees w dir manifest \<and>
    (\<exists>s'. passes (verify_correctness w dir) s')"
proof -
  obtain manifest where m: "read_json w dir ''manifest.json'' = Inr manifest" "load_environment_errors w dir manifest = Inr []"
    "runtime_configuration_errors w dir manifest = Inr []" "snapshot_reclamation_errors w dir manifest = Inr []"
    "storage_footprint_errors w dir manifest = Inr []"
    and rest: "passes (bindA (verify_timelines w dir manifest) (\<lambda>_. bindA (verify_pipeline w dir manifest) (\<lambda>_.
      bindA (verify_priority w dir manifest) (\<lambda>_.
      bindA (bindA (liftA (bindE (read_json w dir ''measurement.json'') validate_result)) note_all) (\<lambda>_. verify_correctness w dir))))) s"
    using assms by (auto simp: verify_case_def passes_simps)
  have t: "timelines_agree w dir manifest" and
    "\<exists>u. passes (bindA (verify_pipeline w dir manifest) (\<lambda>_. bindA (verify_priority w dir manifest) (\<lambda>_.
      bindA (bindA (liftA (bindE (read_json w dir ''measurement.json'') validate_result)) note_all) (\<lambda>_. verify_correctness w dir)))) u"
    using passes_bind [OF rest] timelines_pass by (auto simp: case_appends)
  then obtain u where "passes (bindA (verify_pipeline w dir manifest) (\<lambda>_. bindA (verify_priority w dir manifest) (\<lambda>_.
      bindA (bindA (liftA (bindE (read_json w dir ''measurement.json'') validate_result)) note_all) (\<lambda>_. verify_correctness w dir)))) u" by blast
  from passes_bind [OF this] obtain u' where pl: "pipeline_agrees w dir manifest" and "passes (bindA (verify_priority w dir manifest) (\<lambda>_.
      bindA (bindA (liftA (bindE (read_json w dir ''measurement.json'') validate_result)) note_all) (\<lambda>_. verify_correctness w dir))) u'"
    using pipeline_passes by (auto simp: case_appends)
  from passes_bind [OF this(2)] obtain v where pr: "priority_agrees w dir manifest" and
    "passes (bindA (bindA (liftA (bindE (read_json w dir ''measurement.json'') validate_result)) note_all) (\<lambda>_. verify_correctness w dir)) v"
    using priority_passes by (auto simp: case_appends)
  then have "bindE (read_json w dir ''measurement.json'') validate_result = Inr []" "passes (verify_correctness w dir) v"
    by (simp_all add: passes_bind_noted case_appends)
  then show ?thesis using m t pl pr by auto
qed

lemma appends_case: "appends (verify_case w dir)"
  unfolding verify_case_def by (intro case_appends)

lemma status_of_passed [simp]: "status_of b = PStr ''passed'' \<longleftrightarrow> \<not> b"
  by (simp add: status_of_def)

lemma report_status_of: "dict_get (verify_report_of s) ''status'' PNone = PStr ''passed'' \<longleftrightarrow> quiet s"
  by (simp add: verify_report_of_def dict_get_def Let_def quiet_def)

lemma verified_case:
  assumes "verify w dir = Inr r" "dict_get r ''status'' PNone = PStr ''passed''"
    and case_run: "\<not> path_exists dir ''machine-profile.json''" "\<not> path_exists dir ''provenance.json''"
  obtains s where "verify_index w dir no_errors = (Inr (), s)" "quiet s" "passes (verify_case w dir) s"
proof -
  have body: "verify_body w dir = bindA (verify_index w dir) (\<lambda>_. bindA (verify_case w dir) (\<lambda>_. liftA (Inr None)))"
    using case_run by (simp add: verify_body_def)
  have ap: "appends (\<lambda>s. bindA (verify_case w dir) (\<lambda>_. liftA (Inr None :: pydict option res)) s)"
    by (intro appends_intros appends_case)
  obtain q t where q: "verify_body w dir no_errors = (q, t)" by fastforce
  have "\<exists>x. q = Inr x \<and> x = None"
  proof (cases q)
    case (Inl e)
    have "\<not> quiet (verify_exception e t)" by (simp add: verify_exception_def quiet_def)
    then show ?thesis using assms(1,2) report_status_of by (auto simp: verify_def q Inl split: if_splits)
  next
    case (Inr x)
    with q show ?thesis unfolding body
      by (auto simp: bindA_def liftA_def split: sum.splits prod.splits)
  qed
  then have t: "quiet t" and run: "bindA (verify_index w dir) (\<lambda>_. bindA (verify_case w dir) (\<lambda>_. liftA (Inr None :: pydict option res))) no_errors = (Inr None, t)"
    using assms(1,2) q report_status_of by (auto simp: verify_def body)
  from run obtain u s where i: "verify_index w dir no_errors = (Inr u, s)" "bindA (verify_case w dir) (\<lambda>_. liftA (Inr None :: pydict option res)) s = (Inr None, t)"
    by (rule bindA_InrE)
  have p: "passes (bindA (verify_case w dir) (\<lambda>_. liftA (Inr None :: pydict option res))) s"
    using i(2) t by (auto simp: passes_def)
  show thesis
  proof (rule that)
    show "verify_index w dir no_errors = (Inr (), s)" using i(1) by simp
    show "quiet s" using passes_start [OF ap p] .
    show "passes (verify_case w dir) s" using passes_bind [OF p] by (simp add: appends_intros)
  qed
qed

lemma replay_passed:
  assumes "replay_history w dir = Inr report" "report_status ''passed'' report"
  shows "\<exists>events gs. read_history w dir = Inr events \<and> validate events = Inr gs \<and>
    (\<forall>(key, ops)\<in>set gs. linearizable (initial_value [] key) ops)"
proof -
  obtain events where e: "read_history w dir = Inr events"
    "check_history events 200000 (out_of_time w) (recursion_limit w) [] = Inr report"
    using assms(1) by (auto simp: replay_history_def)
  from check_history_passed [OF e(2) assms(2)] obtain gs where
    "validate events = Inr gs" "\<forall>(key, ops)\<in>set gs. linearizable (initial_value [] key) ops" .
  with e(1) show ?thesis by blast
qed


definition history_text :: string where
  "history_text = ''1'' @ char_of (10 :: nat) # ''2''"

definition case_manifest :: pyval where
  "case_manifest = PDict [kv ''implementation'' (PStr ''rafter''), kv ''implementation_pins'' (PDict [])]"

fun case_loads :: "string \<Rightarrow> pyval res" where
  "case_loads s =
     (if s = ''S'' then Inr (PDict [kv ''implementations'' (PList [PStr ''rafter'']), kv ''rates'' (PList [PInt 0]), kv ''runs'' (PInt 1)])
      else if s = ''{}'' then Inr (PDict []) else if s = ''Q'' then Inr case_manifest else if s = ''P'' then Inr (PDict [kv ''status'' (PStr ''passed'')])
      else if s = ''1'' then Inr (sample_history ! 0) else if s = ''2'' then Inr (sample_history ! 1) else if s = ''M'' then Inr sample_result
      else if s = ''I'' then Inr (index_value [kv ''manifest.json'' (PStr ''Q''), kv ''measurement.json'' (PStr ''M''),
        kv ''qualification-history.jsonl'' (PStr (history_text)), kv ''qualification.json'' (PStr ''P''), kv ''recovery.json'' (PStr ''P'')])
      else raiseE ValueError ''Expecting value'')"

definition case_world :: world where
  "case_world = \<lparr>sha256 = (\<lambda>s. s), loads = case_loads, dumps = (\<lambda>_. []), base_path = ''suite/run'', out_of_time = (\<lambda>_. False), recursion_limit = 900\<rparr>"

definition case_run :: fsnode where
  "case_run = Directory [(''manifest.json'', Regular ''Q'' 8), (''measurement.json'', Regular ''M'' 8),
     (''qualification-history.jsonl'', Regular (history_text) 8), (''qualification.json'', Regular ''P'' 8), (''recovery.json'', Regular ''P'' 8),
     (INDEX, Regular ''I'' 8)]"

lemma case_run_index: "verify_index case_world case_run no_errors = (Inr (), no_errors)"
  by code_simp

lemma case_run_files:
  "path_exists case_run ''machine-profile.json'' = False" "path_exists case_run ''provenance.json'' = False"
  "path_exists case_run ''completion-priority-activity.json'' = False"
  by code_simp+

lemma case_run_receipts:
  "read_json case_world case_run ''manifest.json'' = Inr case_manifest"
  "load_environment_errors case_world case_run case_manifest = Inr []" "runtime_configuration_errors case_world case_run case_manifest = Inr []"
  "snapshot_reclamation_errors case_world case_run case_manifest = Inr []" "storage_footprint_errors case_world case_run case_manifest = Inr []"
  "option_set case_manifest ''diagnostics'' = Inr False" "option_set case_manifest ''pipelined_durability'' = Inr False"
  "option_set case_manifest ''durable_completion_priority'' = Inr False"
  by code_simp+

lemma case_run_verdicts:
  "read_json case_world case_run ''qualification.json'' = Inr (PDict [kv ''status'' (PStr ''passed'')])"
  "read_json case_world case_run ''recovery.json'' = Inr (PDict [kv ''status'' (PStr ''passed'')])"
  "read_text case_world case_run ''qualification-history.jsonl'' = Inr (history_text)"
  "mapE (loads case_world) (filter (\<lambda>line. strip line \<noteq> []) (splitlines (history_text))) = Inr sample_history"
  by code_simp+

lemma case_run_history: "read_history case_world case_run = Inr sample_history"
proof -
  have "\<not> 16 * 1024 * 1024 < length history_text" by (simp add: history_text_def)
  then show ?thesis by (simp add: read_history_def case_run_verdicts raise_if_def)
qed

lemma case_run_replay: "bindE (replay_history case_world case_run) not_passed = Inr False"
proof -
  have "out_of_time case_world = (\<lambda>_. False)" "recursion_limit case_world = 900" by (simp_all add: case_world_def)
  then show ?thesis by (simp add: replay_history_def case_run_history sample_passed not_passed_def get_or_def dict_get_def)
qed

lemma case_run_measurement: "bindE (read_json case_world case_run ''measurement.json'') validate_result = Inr []"
proof -
  have "read_json case_world case_run ''measurement.json'' = Inr sample_result"
    by (simp add: read_json_def read_text_def case_run_def child_def case_world_def)
  then show ?thesis by (simp add: sample_result_valid)
qed

text \<open>Runs of an action, step by step.\<close>

lemma run_bind:
  "m s = (Inr (), t) \<Longrightarrow> bindA m f s = f () t" "r = Inr x \<Longrightarrow> bindA (liftA r) g s = g x s"
  "es = Inr [] \<Longrightarrow> bindA (bindA (liftA es) note_all) h s = h () s"
  by (simp_all add: bindA_def liftA_def note_all_def modifyA_def)

lemma case_run_correctness: "verify_correctness case_world case_run no_errors = (Inr (), no_errors\<lparr>vs_checking := True\<rparr>)"
proof -
  have n: "not_passed (PDict [kv ''status'' (PStr ''passed'')]) = Inr False" by code_simp
  show ?thesis unfolding verify_correctness_def case_run_verdicts case_run_replay
    by (simp add: bindA_def liftA_def modifyA_def correct_if_def whenA_def n)
qed

text \<open>A case whose checks are all silent is verified.\<close>

lemma quiet_case:
  assumes "verify_index w dir no_errors = (Inr (), no_errors)"
    and absent: "path_exists dir ''machine-profile.json'' = False" "path_exists dir ''provenance.json'' = False"
    and r: "read_json w dir ''manifest.json'' = Inr manifest" "load_environment_errors w dir manifest = Inr []"
      "runtime_configuration_errors w dir manifest = Inr []" "snapshot_reclamation_errors w dir manifest = Inr []"
      "storage_footprint_errors w dir manifest = Inr []"
    and silent: "verify_timelines w dir manifest no_errors = (Inr (), no_errors)" "verify_pipeline w dir manifest no_errors = (Inr (), no_errors)"
      "verify_priority w dir manifest no_errors = (Inr (), no_errors)"
    and m: "bindE (read_json w dir ''measurement.json'') validate_result = Inr []"
    and c: "verify_correctness w dir no_errors = (Inr (), no_errors\<lparr>vs_checking := True\<rparr>)"
  shows "verify w dir = Inr (verify_report_of (no_errors\<lparr>vs_checking := True\<rparr>))"
proof -
  have "verify_case w dir no_errors = (Inr (), no_errors\<lparr>vs_checking := True\<rparr>)" unfolding verify_case_def
    by (simp only: run_bind(2) [OF r(1)] run_bind(3) [OF r(2)] run_bind(3) [OF r(3)] run_bind(3) [OF r(4)] run_bind(3) [OF r(5)]
        run_bind(1) [of "verify_timelines w dir manifest", OF silent(1)]
        run_bind(1) [of "verify_pipeline w dir manifest", OF silent(2)] run_bind(1) [of "verify_priority w dir manifest", OF silent(3)] run_bind(3) [OF m] c)
  then have "verify_body w dir no_errors = (Inr None, no_errors\<lparr>vs_checking := True\<rparr>)"
    by (simp add: verify_body_def absent run_bind(1) [of "verify_index w dir", OF assms(1)] run_bind(1) liftA_def)
  then show ?thesis by (simp add: verify_def)
qed

lemma case_run_verified: "verify case_world case_run = Inr (verify_report_of (no_errors\<lparr>vs_checking := True\<rparr>))"
  by (rule quiet_case [OF case_run_index case_run_files(1,2) case_run_receipts(1-5) _ _ _ case_run_measurement case_run_correctness])
    (simp_all add: verify_timelines_def verify_pipeline_def verify_priority_def case_run_receipts case_run_files bindA_def liftA_def whenA_def note_if_def)

text \<open>The same case with operation timelines, a persistence pipeline and completion priority: its
  snapshots carry the counters of all three, and the sealed receipts are those of its load.\<close>

definition timed_manifest :: pyval where
  "timed_manifest = PDict [kv ''implementation'' (PStr ''rafter''), kv ''implementation_pins'' (PDict []), kv ''scenario'' (PStr ''durable-kv''),
     kv ''options'' (PDict (map (\<lambda>name. kv name (PBool True)) [''diagnostics'', ''pipelined_durability'', ''durable_completion_priority'']))]"

definition timed_snapshot :: "int \<Rightarrow> int \<Rightarrow> int list \<Rightarrow> pyval" where
  "timed_snapshot n operations ordinals = (case (sample_snapshot n, sample_timeline_status operations ordinals) of
     (PDict nodes, PDict [(_, PDict [_, (_, PDict [_, diagnostics])])]) \<Rightarrow>
       PDict (map (\<lambda>(node, status). (node, case status of PDict [ok, (k, PDict info)] \<Rightarrow> PDict [ok, (k, PDict (info @ [diagnostics]))] | v \<Rightarrow> v)) nodes)
   | _ \<Rightarrow> PNone)"

definition sealed_as :: "pydict res \<Rightarrow> pyval res" where
  "sealed_as r = bindE r (\<lambda>d. Inr (PDict d))"

definition timed_before :: pyval where
  "timed_before = timed_snapshot 3 5 [1, 5]"

definition timed_after :: pyval where
  "timed_after = timed_snapshot 5 13 [9, 5, 13]"

definition timed_loads :: "string \<Rightarrow> pyval res" where
  "timed_loads s =
     (if s = ''Q'' then Inr timed_manifest else if s = ''B'' then Inr timed_before else if s = ''A'' then Inr timed_after
      else if s = ''T'' then sealed_as (timeline_extract timed_before timed_after [])
      else if s = ''L'' then sealed_as (pipeline_activity timed_before timed_after False)
      else if s = ''C'' then sealed_as (priority_activity timed_before timed_after)
      else if s = ''I'' then Inr (index_value [kv ''before.json'' (PStr ''B''), kv ''completion-priority-activity.json'' (PStr ''C''),
        kv ''diagnostics-after-load.json'' (PStr ''A''), kv ''manifest.json'' (PStr ''Q''), kv ''measurement.json'' (PStr ''M''),
        kv ''operation-timelines.json'' (PStr ''T''), kv ''persistence-after-load.json'' (PStr ''A''), kv ''pipeline-activity.json'' (PStr ''L''),
        kv ''qualification-history.jsonl'' (PStr history_text), kv ''qualification.json'' (PStr ''P''), kv ''recovery.json'' (PStr ''P'')])
      else case_loads s)"

definition timed_world :: world where
  "timed_world = case_world\<lparr>loads := timed_loads\<rparr>"

definition timed_run :: fsnode where
  "timed_run = Directory [(''before.json'', Regular ''B'' 8), (''completion-priority-activity.json'', Regular ''C'' 8),
     (''diagnostics-after-load.json'', Regular ''A'' 8), (''manifest.json'', Regular ''Q'' 8), (''measurement.json'', Regular ''M'' 8),
     (''operation-timelines.json'', Regular ''T'' 8), (''persistence-after-load.json'', Regular ''A'' 8), (''pipeline-activity.json'', Regular ''L'' 8),
     (''qualification-history.jsonl'', Regular history_text 8), (''qualification.json'', Regular ''P'' 8), (''recovery.json'', Regular ''P'' 8),
     (INDEX, Regular ''I'' 8)]"

lemma timed_run_index: "verify_index timed_world timed_run no_errors = (Inr (), no_errors)"
  by code_simp

lemma timed_run_files: "path_exists timed_run ''machine-profile.json'' = False" "path_exists timed_run ''provenance.json'' = False"
  by code_simp+

lemma timed_run_receipts:
  "read_json timed_world timed_run ''manifest.json'' = Inr timed_manifest"
  "load_environment_errors timed_world timed_run timed_manifest = Inr []" "runtime_configuration_errors timed_world timed_run timed_manifest = Inr []"
  "snapshot_reclamation_errors timed_world timed_run timed_manifest = Inr []" "storage_footprint_errors timed_world timed_run timed_manifest = Inr []"
  "option_set timed_manifest ''diagnostics'' = Inr True"
  "durable_option timed_manifest ''pipelined_durability'' = Inr True" "durable_option timed_manifest ''durable_completion_priority'' = Inr True"
  by code_simp+

lemma timed_run_timelines: "verify_timelines timed_world timed_run timed_manifest no_errors = (Inr (), no_errors)"
proof -
  have "succeeded (timeline_extract timed_before timed_after [])" by code_simp
  then obtain r where r: "timeline_extract timed_before timed_after [] = Inr r" by (auto simp: succeeded_iff)
  have "plain timed_before" "plain timed_after" by code_simp+
  from extraction_matches_itself [OF r this] have same: "recorded_extract_matches r (PDict r) = Inr True" .
  have "read_json timed_world timed_run ''before.json'' = Inr timed_before" "read_json timed_world timed_run ''diagnostics-after-load.json'' = Inr timed_after"
    "read_json timed_world timed_run ''operation-timelines.json'' = Inr (PDict r)"
    by (simp_all add: read_json_def read_text_def timed_run_def child_def timed_world_def timed_loads_def sealed_as_def r)
  moreover have "get timed_manifest ''scenario'' = Inr (PStr ''durable-kv'')" "restart_evidence timed_world timed_run (PStr ''durable-kv'') = Inr ([], False)"
    by code_simp+
  ultimately show ?thesis
    by (simp add: verify_timelines_def timed_run_receipts r same bindA_def liftA_def whenA_def note_if_def)
qed

lemma timed_run_activity:
  "verify_pipeline timed_world timed_run timed_manifest no_errors = (Inr (), no_errors)"
  "verify_priority timed_world timed_run timed_manifest no_errors = (Inr (), no_errors)"
  by code_simp+

lemma timed_run_verdicts:
  "read_json timed_world timed_run ''qualification.json'' = Inr (PDict [kv ''status'' (PStr ''passed'')])"
  "read_json timed_world timed_run ''recovery.json'' = Inr (PDict [kv ''status'' (PStr ''passed'')])"
  "read_text timed_world timed_run ''qualification-history.jsonl'' = Inr (history_text)"
  "mapE (loads timed_world) (filter (\<lambda>line. strip line \<noteq> []) (splitlines (history_text))) = Inr sample_history"
  by code_simp+

lemma timed_run_history: "read_history timed_world timed_run = Inr sample_history"
  using case_run_history by (simp add: read_history_def timed_run_verdicts case_run_verdicts)

lemma timed_run_measurement: "bindE (read_json timed_world timed_run ''measurement.json'') validate_result = Inr []"
proof -
  have "read_json timed_world timed_run ''measurement.json'' = Inr sample_result"
    by (simp add: read_json_def read_text_def timed_run_def child_def timed_world_def timed_loads_def)
  then show ?thesis by (simp add: sample_result_valid)
qed

lemma timed_run_correctness: "verify_correctness timed_world timed_run no_errors = (Inr (), no_errors\<lparr>vs_checking := True\<rparr>)"
proof -
  have "replay_history timed_world timed_run = replay_history case_world case_run"
    unfolding replay_history_def timed_run_history case_run_history by (simp add: timed_world_def)
  then show ?thesis using case_run_correctness unfolding verify_correctness_def timed_run_verdicts case_run_verdicts by simp
qed

lemmas timed_run_verified = quiet_case [OF timed_run_index timed_run_files timed_run_receipts(1-5) timed_run_timelines timed_run_activity timed_run_measurement timed_run_correctness]


end
