(* ===== verification/Wal_Reclamation.thy ===== *)
theory Wal_Reclamation
  imports Micro_Report
begin

text \<open>
  The WAL-reclamation part of \<open>src/benchctl/results.py\<close>: the exact replay of three predeclared
  component receipts. \<open>load_wal_reclamation\<close> reads them from a directory and
  \<open>_normalize_wal_reclamation_receipt\<close> recomputes their accounting. Numbers stay Python values,
  because the configuration is compared by \<open>==\<close> and may hold floats.
\<close>

section \<open>Comparisons and containers\<close>

text \<open>\<open>v > w\<close>, \<open>len(v)\<close>, \<open>sum(v)\<close>, and \<open>set(v) == {names}\<close> for a set of strings.\<close>

definition py_gt :: "pyval \<Rightarrow> pyval \<Rightarrow> bool res" where
  "py_gt v w = (case (num_of v, num_of w) of
     (Some x, Some y) \<Rightarrow> Inr (f_lt y x)
   | _ \<Rightarrow> (case (v, w) of (PStr s, PStr t) \<Rightarrow> Inr (t < s) | _ \<Rightarrow> order_error ''>'' v w))"

definition py_len :: "pyval \<Rightarrow> int res" where
  "py_len v = (case v of
     PList xs \<Rightarrow> Inr (int (length xs)) | PStr s \<Rightarrow> Inr (int (length s)) | PDict d \<Rightarrow> Inr (int (length d))
   | _ \<Rightarrow> raiseE TypeError (''object of type '' @ quote (type_name v) @ '' has no len()''))"

definition py_sum :: "pyval list \<Rightarrow> pyval res" where
  "py_sum vs = foldE py_add (PInt 0) vs"

definition set_is :: "pyval \<Rightarrow> string list \<Rightarrow> bool res" where
  "set_is v names =
     bindE (iter_of v) (\<lambda>ks. bindE (mapE require_hashable ks) (\<lambda>_. Inr (set ks = PStr ` set names)))"

text \<open>\<open>sorted(v)\<close>, by insertion.\<close>

fun py_insort :: "pyval \<Rightarrow> pyval list \<Rightarrow> pyval list res" where
  "py_insort v [] = Inr [v]"
| "py_insort v (x # xs) = bindE (py_lt v x) (\<lambda>b. if b then Inr (v # x # xs) else bindE (py_insort v xs) (\<lambda>ys. Inr (x # ys)))"

definition py_sorted :: "pyval \<Rightarrow> pyval list res" where
  "py_sorted v = bindE (iter_of v) (\<lambda>xs. foldE (\<lambda>ys x. py_insort x ys) [] xs)"

definition require_wal :: "bool \<Rightarrow> string \<Rightarrow> unit res" where
  "require_wal condition message = raise_if (\<not> condition) ValueError message"

text \<open>A condition that may raise itself.\<close>

definition requireE :: "bool res \<Rightarrow> string \<Rightarrow> unit res" where
  "requireE condition message = bindE condition (\<lambda>b. require_wal b message)"

section \<open>Predeclared cases\<close>

definition wal_config :: "int \<Rightarrow> int \<Rightarrow> int \<Rightarrow> pydict" where
  "wal_config retained batches batch =
     [kv ''retained_entries'' (PInt retained), kv ''rounds'' (PInt 3), kv ''batches_per_round'' (PInt batches),
      kv ''batch_size'' (PInt batch), kv ''payload_bytes'' (PInt 64)]"

definition WAL_RECLAMATION_CASES :: "(string \<times> pydict) list" where
  "WAL_RECLAMATION_CASES =
     [(''retired-102400'', wal_config 512 25 4096), (''retained-10000'', wal_config 10000 64 8), (''retained-100000'', wal_config 100000 64 8)]"

definition WAL_RECLAMATION_PHASES :: "string list" where
  "WAL_RECLAMATION_PHASES = [''wal_reclamation'', ''wal_checkpoint_prepare'', ''wal_manifest_publish'', ''wal_cleanup'']"

text \<open>The pattern of a managed file: its kind and its generation of twenty digits.\<close>

definition managed_kind :: "string \<Rightarrow> string \<Rightarrow> int option" where
  "managed_kind rest kind =
     (let digits = take 20 (drop (length kind + 1) rest); suffix = drop (length kind + 21) rest in
      if starts_with rest (kind @ ''-'') \<and> length digits = 20 \<and> list_all is_digit digits \<and> (suffix = ''.rfwc'' \<or> suffix = ''.rfwb'')
      then parse_digits False 0 digits else None)"

definition managed_file :: "string \<Rightarrow> (string \<times> int) option" where
  "managed_file name =
     (if starts_with name ''raft-wal-'' then
        (let rest = drop 9 name in
         case managed_kind rest ''checkpoint'' of
           Some g \<Rightarrow> Some (''checkpoint'', g)
         | None \<Rightarrow> map_option (Pair ''segment'') (managed_kind rest ''segment''))
      else None)"

section \<open>Checks on parts of a receipt\<close>

definition check_wal_latency :: "pyval \<Rightarrow> pyval \<Rightarrow> string \<Rightarrow> unit res" where
  "check_wal_latency v expected_count name =
     bindE (requireE (if is_dict v then set_is v [''count'', ''p50_ns'', ''p99_ns'', ''max_ns''] else Inr False) (name @ '' latency shape changed'')) (\<lambda>_.
     bindE (requireE (bindE (item v ''count'') (\<lambda>n. Inr (py_eq n expected_count))) (name @ '' latency count disagrees'')) (\<lambda>_.
     requireE (bindE (item v ''p50_ns'') (\<lambda>p50. bindE (py_le (PInt 0) p50) (\<lambda>a. if \<not> a then Inr False
       else bindE (item v ''p99_ns'') (\<lambda>p99. bindE (py_le p50 p99) (\<lambda>b. if \<not> b then Inr False
       else bindE (item v ''max_ns'') (py_le p99)))))) (name @ '' latency ordering disagrees'')))"

definition file_step :: "string \<Rightarrow> string list \<times> int list \<Rightarrow> pyval \<Rightarrow> (string list \<times> int list) res" where
  "file_step name = (\<lambda>(kinds, generations) filename.
     if py_eq filename (PStr ''raft-wal-current'') then Inr (kinds, generations)
     else case filename of
       PStr s \<Rightarrow> (case managed_file s of
           None \<Rightarrow> raiseE ValueError (name @ '' has an unexpected managed filename'')
         | Some (kind, g) \<Rightarrow> Inr (kinds @ [kind], generations @ [g]))
     | _ \<Rightarrow> raiseE TypeError (''expected string or bytes-like object, got '' @ quote (type_name filename)))"

definition same_generations :: "int list \<Rightarrow> pyval \<Rightarrow> bool" where
  "same_generations generations generation = py_eq (PList (map PInt generations)) (PList [generation, generation])"

definition check_wal_names :: "pyval \<Rightarrow> pyval \<Rightarrow> string \<Rightarrow> unit res" where
  "check_wal_names names generation name =
     bindE (requireE (bindE (py_sorted names) (\<lambda>xs. Inr (py_eq names (PList xs)))) (name @ '' names are not sorted'')) (\<lambda>_.
     bindE (iter_of names) (\<lambda>files.
     bindE (require_wal (length (filter (\<lambda>x. py_eq x (PStr ''raft-wal-current'')) files) = 1) (name @ '' has no unique authoritative manifest'')) (\<lambda>_.
     bindE (foldE (file_step name) ([], []) files) (\<lambda>(kinds, generations).
     bindE (require_wal (sort kinds = [''checkpoint'', ''segment'']) (name @ '' does not contain one checkpoint and one segment'')) (\<lambda>_.
     require_wal (same_generations generations generation) (name @ '' files do not select generation '' @ py_str generation))))))"

definition check_wal_inventory :: "pyval \<Rightarrow> pyval \<Rightarrow> pyval \<Rightarrow> string \<Rightarrow> unit res" where
  "check_wal_inventory v generation expected_bytes name =
     bindE (requireE (if is_dict v then set_is v [''file_count'', ''bytes'', ''names''] else Inr False) (name @ '' inventory shape changed'')) (\<lambda>_.
     bindE (requireE (bindE (item v ''file_count'') (\<lambda>n. if \<not> py_eq n (PInt 3) then Inr False
       else bindE (item v ''names'') (\<lambda>names. bindE (py_len names) (\<lambda>l. Inr (l = 3))))) (name @ '' did not retain exactly three managed WAL files'')) (\<lambda>_.
     bindE (requireE (bindE (item v ''bytes'') (\<lambda>b. if \<not> py_eq b expected_bytes then Inr False else py_gt expected_bytes (PInt 0)))
       (name @ '' managed WAL bytes disagree'')) (\<lambda>_.
     bindE (item v ''names'') (\<lambda>names. check_wal_names names generation name))))"

section \<open>Normalisation of a receipt\<close>

text \<open>\<open>re.fullmatch(r"[0-9a-f]{40}", v) is not None\<close>\<close>

definition is_hex :: "char \<Rightarrow> bool" where
  "is_hex c = (is_digit c \<or> c \<in> set ''abcdef'')"

definition full_sha :: "pyval \<Rightarrow> bool res" where
  "full_sha v = (case v of
     PStr s \<Rightarrow> Inr (length s = 40 \<and> list_all is_hex s)
   | _ \<Rightarrow> raiseE TypeError (''expected string or bytes-like object, got '' @ quote (type_name v)))"

definition equals :: "pyval \<Rightarrow> string \<Rightarrow> pyval \<Rightarrow> bool res" where
  "equals v k w = bindE (item v k) (\<lambda>x. Inr (py_eq x w))"

definition positive :: "pyval \<Rightarrow> string \<Rightarrow> bool res" where
  "positive v k = bindE (item v k) (\<lambda>x. py_gt x (PInt 0))"

definition andE :: "bool res \<Rightarrow> bool res \<Rightarrow> bool res" where
  "andE a b = bindE a (\<lambda>x. if x then b else Inr False)"

definition check_wal_header :: "pyval \<Rightarrow> pydict \<Rightarrow> unit res" where
  "check_wal_header raw expected_config =
     bindE (requireE (set_is raw [''schema'', ''layer'', ''comparison_kind'', ''source_sha'', ''completion_boundary'', ''config'', ''rounds'', ''aggregate'',
       ''phase_metrics'', ''final'']) ''top-level receipt shape changed'') (\<lambda>_.
     bindE (requireE (equals raw ''schema'' (PInt 1)) ''unsupported reclamation receipt schema'') (\<lambda>_.
     bindE (requireE (equals raw ''layer'' (PStr ''durable_replication'')) ''wrong evidence layer'') (\<lambda>_.
     bindE (requireE (equals raw ''comparison_kind'' (PStr ''rafter_component_qualification'')) ''reclamation evidence was mislabeled as a competitor comparison'') (\<lambda>_.
     bindE (requireE (bindE (item raw ''source_sha'') full_sha) ''source identity is not a lowercase full SHA'') (\<lambda>_.
     requireE (equals raw ''config'' (PDict expected_config)) ''reclamation qualification configuration changed'')))))"

definition round_step :: "pyval \<Rightarrow> pyval \<Rightarrow> pyval \<Rightarrow> pyval list \<Rightarrow> int \<times> pyval \<Rightarrow> pyval list res" where
  "round_step config expected_appended expected_bytes pauses = (\<lambda>(number, v).
     let name = ''round '' @ int_str number in
     bindE (requireE (set_is v [''round'', ''appended_entries'', ''compacted_through'', ''snapshot_ns'', ''reclamation_pause_ns'', ''write_latency'', ''managed_wal''])
       (name @ '' shape changed'')) (\<lambda>_.
     bindE (requireE (equals v ''round'' (PInt number)) (name @ '' sequence disagrees'')) (\<lambda>_.
     bindE (requireE (equals v ''appended_entries'' expected_appended) (name @ '' append accounting disagrees'')) (\<lambda>_.
     bindE (requireE (bindE (item v ''compacted_through'') (\<lambda>c. bindE (py_mul (PInt number) expected_appended) (\<lambda>b. Inr (py_eq c b))))
       (name @ '' compaction boundary disagrees'')) (\<lambda>_.
     bindE (requireE (andE (positive v ''snapshot_ns'') (positive v ''reclamation_pause_ns'')) (name @ '' timing is absent'')) (\<lambda>_.
     bindE (item v ''write_latency'') (\<lambda>latency. bindE (item config ''batches_per_round'') (\<lambda>batches.
     bindE (check_wal_latency latency batches (name @ '' writes'')) (\<lambda>_.
     bindE (item v ''managed_wal'') (\<lambda>inventory.
     bindE (check_wal_inventory inventory (PInt number) expected_bytes name) (\<lambda>_.
     bindE (item v ''reclamation_pause_ns'') (\<lambda>pause. Inr (pauses @ [pause])))))))))))))"

definition check_wal_aggregate :: "pyval \<Rightarrow> pyval \<Rightarrow> pyval \<Rightarrow> unit res" where
  "check_wal_aggregate config aggregate expected_bytes =
     bindE (item aggregate ''write_latency'') (\<lambda>writes.
     bindE (item config ''rounds'') (\<lambda>rounds. bindE (item config ''batches_per_round'') (\<lambda>batches. bindE (py_mul rounds batches) (\<lambda>n.
     bindE (check_wal_latency writes n ''aggregate writes'') (\<lambda>_.
     bindE (item aggregate ''reclamation_pause'') (\<lambda>pause.
     bindE (check_wal_latency pause rounds ''aggregate reclamation'') (\<lambda>_.
     bindE (requireE (positive aggregate ''reopen_ns'') ''reopen timing is absent'') (\<lambda>_.
     requireE (andE (equals aggregate ''managed_wal_files'' (PInt 3)) (py_gt expected_bytes (PInt 0))) ''aggregate physical WAL bound disagrees''))))))))"

definition metric_step :: "pyval \<Rightarrow> (pyval \<times> pyval) list \<Rightarrow> pyval \<Rightarrow> (pyval \<times> pyval) list res" where
  "metric_step config by_name metric =
     bindE (requireE (set_is metric [''name'', ''calls'', ''total_ns'', ''max_ns'', ''buckets'']) ''phase metric shape changed'') (\<lambda>_.
     bindE (item metric ''calls'') (\<lambda>calls. bindE (item config ''rounds'') (\<lambda>rounds. bindE (item metric ''name'') (\<lambda>name.
     bindE (require_wal (py_eq calls rounds) (py_str name @ '' call count disagrees'')) (\<lambda>_.
     bindE (requireE (bindE (item metric ''max_ns'') (\<lambda>m. andE (py_lt (PInt 0) m) (bindE (item metric ''total_ns'') (py_le m))))
       (py_str name @ '' timing is incoherent'')) (\<lambda>_.
     bindE (requireE (bindE (bindE (bindE (item metric ''buckets'') iter_of) py_sum) (\<lambda>s. Inr (py_eq s calls)))
       (py_str name @ '' histogram accounting disagrees'')) (\<lambda>_.
     Inr (by_name @ [(name, metric)]))))))))"

text \<open>\<open>by_name[name]["total_ns"]\<close>: the last metric of that name.\<close>

definition total_of :: "(pyval \<times> pyval) list \<Rightarrow> string \<Rightarrow> pyval res" where
  "total_of by_name name = (case map_of (rev by_name) (PStr name) of
     Some metric \<Rightarrow> item metric ''total_ns'' | None \<Rightarrow> raiseE KeyError (quote name))"

definition phase_names :: "pyval \<Rightarrow> bool res" where
  "phase_names metrics = (case metrics of
     PList ms \<Rightarrow> if length ms \<noteq> 4 then Inr False
       else bindE (mapE (\<lambda>m. bindE (get m ''name'') (\<lambda>n. bindE (require_hashable n) (\<lambda>_. Inr n))) ms) (\<lambda>names. Inr (set names = PStr ` set WAL_RECLAMATION_PHASES))
   | _ \<Rightarrow> Inr False)"

definition check_wal_phases :: "pyval \<Rightarrow> pyval \<Rightarrow> pyval list \<Rightarrow> unit res" where
  "check_wal_phases config metrics pauses =
     bindE (requireE (phase_names metrics) ''reclamation phase inventory disagrees'') (\<lambda>_.
     bindE (iter_of metrics) (\<lambda>ms.
     bindE (foldE (metric_step config) [] ms) (\<lambda>by_name.
     bindE (total_of by_name ''wal_reclamation'') (\<lambda>overall.
     bindE (requireE (bindE (bindE (mapE (total_of by_name) (tl WAL_RECLAMATION_PHASES)) py_sum) (\<lambda>s. py_le s overall))
       ''nested reclamation phases exceed the overall timer'') (\<lambda>_.
     requireE (bindE (py_sum pauses) (py_le overall)) ''reclamation telemetry exceeds synchronous pauses'')))))"

definition check_wal_final :: "pyval \<Rightarrow> pyval \<Rightarrow> int \<Rightarrow> pyval \<Rightarrow> pyval \<Rightarrow> unit res" where
  "check_wal_final final config retained expected_appended expected_bytes =
     bindE (requireE (set_is final [''hard_commit'', ''compacted_through'', ''retained_entries'', ''next_index'', ''recovery_verified'',
       ''physical_bound_verified'', ''managed_wal'']) ''final verification shape changed'') (\<lambda>_.
     bindE (item config ''rounds'') (\<lambda>rounds. bindE (py_mul rounds expected_appended) (\<lambda>appended.
     bindE (py_add (PInt retained) appended) (\<lambda>expected_total.
     bindE (requireE (andE (equals final ''hard_commit'' expected_total)
       (bindE (item final ''next_index'') (\<lambda>n. bindE (py_add expected_total (PInt 1)) (\<lambda>t. Inr (py_eq n t))))) ''final hard state or log boundary disagrees'') (\<lambda>_.
     bindE (requireE (equals final ''compacted_through'' appended) ''final compaction boundary disagrees'') (\<lambda>_.
     bindE (requireE (equals final ''retained_entries'' (PInt retained)) ''final retained suffix length disagrees'') (\<lambda>_.
     bindE (requireE (bindE (item final ''recovery_verified'') (\<lambda>a. if a \<noteq> PBool True then Inr False
       else bindE (item final ''physical_bound_verified'') (\<lambda>b. Inr (b = PBool True)))) ''final recovery or physical bound was not verified'') (\<lambda>_.
     bindE (item final ''managed_wal'') (\<lambda>inventory.
     check_wal_inventory inventory rounds expected_bytes ''reopen'')))))))))"

definition wal_summary :: "pyval \<Rightarrow> pyval \<Rightarrow> pyval \<Rightarrow> int \<Rightarrow> pyval \<Rightarrow> pydict res" where
  "wal_summary raw config aggregate retained expected_bytes =
     bindE (item raw ''source_sha'') (\<lambda>sha. bindE (item config ''rounds'') (\<lambda>rounds.
     bindE (bindE (item aggregate ''reclamation_pause'') (\<lambda>p. item p ''p99_ns'')) (\<lambda>p99. bindE (item aggregate ''reopen_ns'') (\<lambda>reopen.
     Inr [kv ''schema'' (PInt 1), kv ''source_sha'' sha, kv ''retained_entries'' (PInt retained), kv ''rounds'' rounds,
       kv ''managed_wal_bytes'' expected_bytes, kv ''reclamation_pause_p99_ns'' p99, kv ''reopen_ns'' reopen, kv ''qualified'' (PBool True)]))))"

definition wal_metrics :: "pyval \<Rightarrow> pyval \<Rightarrow> pydict res" where
  "wal_metrics aggregate expected_bytes =
     bindE (item aggregate ''managed_wal_files'') (\<lambda>files.
     bindE (bindE (bindE (item aggregate ''reclamation_pause'') (\<lambda>p. item p ''p99_ns'')) (\<lambda>p. py_div p (PInt 1000000))) (\<lambda>pause.
     bindE (bindE (item aggregate ''reopen_ns'') (\<lambda>r. py_div r (PInt 1000000))) (\<lambda>reopen.
     Inr [kv ''managed_wal_bytes'' expected_bytes, kv ''managed_wal_files'' files, kv ''reclamation_pause_p99_ms'' (PFloat pause), kv ''reopen_ms'' (PFloat reopen)])))"

definition wal_record :: "pyval \<Rightarrow> pydict \<Rightarrow> pyval \<Rightarrow> pyval \<Rightarrow> pyval \<Rightarrow> pyval \<Rightarrow> string list \<Rightarrow> pydict res" where
  "wal_record raw config aggregate final expected_appended expected_bytes source_cases =
     bindE (item raw ''source_sha'') (\<lambda>sha. bindE (item raw ''completion_boundary'') (\<lambda>boundary.
     bindE (wal_metrics aggregate expected_bytes) (\<lambda>metrics.
     bindE (item final ''hard_commit'') (\<lambda>hard. bindE (item final ''compacted_through'') (\<lambda>through. bindE (item final ''next_index'') (\<lambda>next_index.
     Inr [kv ''layer'' (PStr ''durable_replication''), kv ''comparison_kind'' (PStr ''rafter_component_qualification''),
       kv ''engine'' (PDict [kv ''name'' (PStr ''rafter''), kv ''version'' sha]), kv ''display_name'' (PStr ''Combined WAL physical reclamation''),
       kv ''configuration'' (PDict config),
       kv ''workload'' (PDict [kv ''kind'' (PStr ''repeated_write_snapshot_compaction_reopen''), kv ''appended_entries_per_round'' expected_appended]),
       kv ''completion_boundary'' boundary,
       kv ''environment'' (PDict [kv ''qualification'' (PStr ''not recorded by component receipt''), kv ''timings_publishable'' (PBool False)]),
       kv ''measurement_mode'' (PStr ''diagnostic''),
       kv ''metric_definitions'' (PDict [kv ''managed_wal_bytes'' (PStr ''bytes in the authoritative manifest, checkpoint, and segment''),
         kv ''reclamation_pause_p99_ms'' (PStr ''diagnostic p99 across three synchronous component cycles''),
         kv ''reopen_ms'' (PStr ''diagnostic exact-suffix reopen duration'')]),
       kv ''qualification'' (PStr ''passed''), kv ''qualification_errors'' (PList []), kv ''metrics'' (PDict metrics),
       kv ''verification'' (PDict [kv ''recovery_verified'' (PBool True), kv ''physical_bound_verified'' (PBool True), kv ''final_hard_commit'' hard,
         kv ''final_compacted_through'' through, kv ''final_next_index'' next_index]),
       kv ''source_cases'' (PList (map PStr source_cases))]))))))"

text \<open>\<open>retained_entries\<close> is read from the predeclared configuration, everything else from the receipt.\<close>

definition retained_of_config :: "pydict \<Rightarrow> int" where
  "retained_of_config config = (case dict_get config ''retained_entries'' PNone of PInt i \<Rightarrow> i | _ \<Rightarrow> 0)"

definition normalize_wal_reclamation_receipt :: "pyval \<Rightarrow> pydict \<Rightarrow> string list \<Rightarrow> (pydict \<times> pydict) res" where
  "normalize_wal_reclamation_receipt raw expected_config source_cases =
     bindE (check_wal_header raw expected_config) (\<lambda>_.
     bindE (item raw ''config'') (\<lambda>config. bindE (item raw ''rounds'') (\<lambda>rounds.
     let retained = retained_of_config expected_config in
     bindE (requireE (case rounds of PList rs \<Rightarrow> bindE (item config ''rounds'') (\<lambda>n. Inr (py_eq (PInt (int (length rs))) n)) | _ \<Rightarrow> Inr False)
       ''round count disagrees'') (\<lambda>_.
     bindE (bindE (item config ''batches_per_round'') (\<lambda>a. bindE (item config ''batch_size'') (py_mul a))) (\<lambda>expected_appended.
     bindE (item raw ''aggregate'') (\<lambda>aggregate.
     bindE (requireE (set_is aggregate [''write_latency'', ''reclamation_pause'', ''reopen_ns'', ''managed_wal_bytes'', ''managed_wal_files'']) ''aggregate shape changed'') (\<lambda>_.
     bindE (item aggregate ''managed_wal_bytes'') (\<lambda>expected_bytes.
     bindE (bindE (iter_of rounds) (\<lambda>rs. foldE (round_step config expected_appended expected_bytes) [] (zip [1..int (length rs)] rs))) (\<lambda>pauses.
     bindE (check_wal_aggregate config aggregate expected_bytes) (\<lambda>_.
     bindE (bindE (item raw ''phase_metrics'') (\<lambda>metrics. check_wal_phases config metrics pauses)) (\<lambda>_.
     bindE (item raw ''final'') (\<lambda>final.
     bindE (check_wal_final final config retained expected_appended expected_bytes) (\<lambda>_.
     bindE (wal_summary raw config aggregate retained expected_bytes) (\<lambda>summary.
     bindE (bindE (items config) (\<lambda>c. wal_record raw c aggregate final expected_appended expected_bytes source_cases)) (\<lambda>record.
     Inr (record, summary))))))))))))))))"

section \<open>Loading the evidence\<close>

record wal_state =
  wal_reasons :: "string list"
  wal_records :: "pydict list"
  wal_shas :: "pyval list"

text \<open>One predeclared case, in the \<open>try\<close> block of the loop.\<close>

definition wal_case :: "world \<Rightarrow> fsnode \<Rightarrow> string \<Rightarrow> pydict \<Rightarrow> pydict res" where
  "wal_case w dir stem expected_config =
     (let receipt_name = stem @ ''.json''; summary_name = stem @ ''-summary.json'' in
      bindE (read_json w dir receipt_name) (\<lambda>raw.
      bindE (normalize_wal_reclamation_receipt raw expected_config [receipt_name, summary_name]) (\<lambda>(record, expected_summary).
      bindE (read_text w dir receipt_name) (\<lambda>body.
      bindE (read_json w dir summary_name) (\<lambda>recorded_summary.
      bindE (require_wal (py_eq recorded_summary (PDict (expected_summary @ [kv ''receipt_sha256'' (PStr (sha256 w body))]))) (stem @ '' verifier summary disagrees'')) (\<lambda>_.
      Inr record))))))"

definition record_sha :: "pydict \<Rightarrow> pyval" where
  "record_sha record = (case dict_get record ''engine'' PNone of PDict e \<Rightarrow> dict_get e ''version'' PNone | _ \<Rightarrow> PNone)"

definition wal_step :: "world \<Rightarrow> fsnode \<Rightarrow> wal_state \<Rightarrow> string \<times> pydict \<Rightarrow> wal_state res" where
  "wal_step w dir s = (\<lambda>(stem, expected_config).
     if \<not> is_file (subtree dir [stem @ ''.json'']) \<or> \<not> is_file (subtree dir [stem @ ''-summary.json'']) then Inr s
     else case wal_case w dir stem expected_config of
       Inr record \<Rightarrow> Inr (s\<lparr>wal_records := wal_records s @ [record], wal_shas := List.insert (record_sha record) (wal_shas s)\<rparr>)
     | Inl e \<Rightarrow> if class_of e \<in> {KeyError, TypeError, ValueError} then Inr (s\<lparr>wal_reasons := wal_reasons s @ [stem @ '': '' @ str_of e]\<rparr>) else Inl e)"

definition expected_wal_names :: "string list" where
  "expected_wal_names = concat (map (\<lambda>(stem, _). [stem @ ''.json'', stem @ ''-summary.json'']) WAL_RECLAMATION_CASES)"

definition wal_inventory_reasons :: "(string \<times> fsnode) list \<Rightarrow> string list" where
  "wal_inventory_reasons es =
     (if list_ex (\<lambda>(_, n). is_symlink (Some n)) es then [''symlink in WAL reclamation evidence''] else [])
     @ (if set (map fst es) \<noteq> set expected_wal_names
        then [''WAL reclamation evidence file set changed from the exact predeclared receipts''] else [])"

definition fail_record :: "string list \<Rightarrow> pydict \<Rightarrow> pydict" where
  "fail_record reasons record =
     map (\<lambda>(k, v). (k, if k = KStr ''qualification'' then PStr ''failed'' else if k = KStr ''qualification_errors'' then PList (map PStr reasons) else v)) record"

definition wal_result :: "world \<Rightarrow> wal_state \<Rightarrow> pydict" where
  "wal_result w s =
     (let reasons = wal_reasons s @ (if length (wal_shas s) > 1 then [''WAL reclamation receipts use different Rafter revisions''] else [])
        @ (if length (wal_records s) \<noteq> length WAL_RECLAMATION_CASES
           then [''WAL reclamation evidence did not normalize all predeclared retained-suffix shapes''] else []) in
      [kv ''kind'' (PStr ''wal_reclamation''), kv ''directory'' (PStr (base_path w)),
       kv ''qualification'' (PStr (if reasons = [] then ''passed'' else ''failed'')), kv ''qualification_errors'' (PList (map PStr reasons)),
       kv ''source_sha'' (case wal_shas s of [sha] \<Rightarrow> sha | _ \<Rightarrow> PNone),
       kv ''records'' (PList (map PDict (if reasons = [] then wal_records s else map (fail_record reasons) (wal_records s))))])"

definition load_wal_reclamation :: "world \<Rightarrow> fsnode \<Rightarrow> pydict res" where
  "load_wal_reclamation w dir = (case dir of
     Directory es \<Rightarrow> bindE (foldE (wal_step w dir) \<lparr>wal_reasons = wal_inventory_reasons es, wal_records = [], wal_shas = []\<rparr> WAL_RECLAMATION_CASES) (\<lambda>s.
       Inr (wal_result w s))
   | _ \<Rightarrow> Inr [kv ''kind'' (PStr ''wal_reclamation''), kv ''directory'' (PStr (base_path w)), kv ''qualification'' (PStr ''failed''),
       kv ''qualification_errors'' (PList [PStr ''WAL reclamation evidence is not a plain directory'']), kv ''records'' (PList [])])"

section \<open>What accepted evidence says\<close>

text \<open>A field that holds a number, as an integer or as a float of the same value.\<close>

definition number_is :: "pyval \<Rightarrow> int \<Rightarrow> bool" where
  "number_is v n \<longleftrightarrow> num_of v = Some (Fl (of_int n))"

definition counts :: "pyval \<Rightarrow> string \<Rightarrow> int \<Rightarrow> bool" where
  "counts v k n \<longleftrightarrow> (\<exists>x. item v k = Inr x \<and> number_is x n)"

definition appended_of :: "pydict \<Rightarrow> int" where
  "appended_of config = (case (dict_get config ''batches_per_round'' PNone, dict_get config ''batch_size'' PNone) of
     (PInt a, PInt b) \<Rightarrow> a * b | _ \<Rightarrow> 0)"

definition wal_accounts :: "pyval \<Rightarrow> int \<Rightarrow> int \<Rightarrow> bool" where
  "wal_accounts raw retained appended \<longleftrightarrow>
     (\<exists>rounds final. item raw ''rounds'' = Inr (PList rounds) \<and> length rounds = 3 \<and>
       (\<forall>k<3. counts (rounds ! k) ''appended_entries'' appended \<and> counts (rounds ! k) ''compacted_through'' ((int k + 1) * appended)) \<and>
       item raw ''final'' = Inr final \<and> counts final ''hard_commit'' (retained + 3 * appended) \<and> counts final ''next_index'' (retained + 3 * appended + 1) \<and>
       counts final ''compacted_through'' (3 * appended) \<and> counts final ''retained_entries'' retained \<and>
       item final ''recovery_verified'' = Inr (PBool True) \<and> item final ''physical_bound_verified'' = Inr (PBool True))"

lemma requireE_Inr [simp]: "requireE c m = Inr u \<longleftrightarrow> c = Inr True"
  by (auto simp: requireE_def require_wal_def)

lemma require_wal_Inr [simp]: "require_wal c m = Inr u \<longleftrightarrow> c"
  by (simp add: require_wal_def)

lemma andE_True: "andE a b = Inr True \<longleftrightarrow> a = Inr True \<and> b = Inr True"
  by (auto simp: andE_def split: if_splits)

lemma number_is_PInt [simp]: "number_is (PInt i) n \<longleftrightarrow> i = n"
  by (simp add: number_is_def num_of_def)

lemma py_eq_number: "py_eq v w \<Longrightarrow> number_is w n \<Longrightarrow> number_is v n"
  by (cases v; cases w) (auto simp: number_is_def num_of_def num_eq_def split: if_splits)

lemma number_cases:
  assumes "number_is v n" "\<bar>n\<bar> < 2 ^ 53"
  shows "num_of v \<noteq> None" "to_float v = Inr (Fl (of_int n))" "as_int v = Some n \<or> as_int v = None"
  using assms fl_of_int [OF assms(2)]
  by (cases v; auto simp: number_is_def num_of_def to_float_def as_int_def f_of_int_def split: if_splits)+

lemma number_mul:
  assumes "number_is v m" "number_is w n" "\<bar>m\<bar> < 2 ^ 53" "\<bar>n\<bar> < 2 ^ 53" "\<bar>m * n\<bar> < 2 ^ 53" "py_mul v w = Inr x"
  shows "number_is x (m * n)"
  using assms(6) number_cases [OF assms(1,3)] number_cases [OF assms(2,4)] fl_of_int [OF assms(5)]
  by (auto simp: py_mul_def num_arith_def f_mul_def number_is_def num_of_def split: option.splits)

lemma number_add:
  assumes "number_is v m" "number_is w n" "\<bar>m\<bar> < 2 ^ 53" "\<bar>n\<bar> < 2 ^ 53" "\<bar>m + n\<bar> < 2 ^ 53" "py_add v w = Inr x"
  shows "number_is x (m + n)"
proof -
  have "num_arith ''+'' (+) f_add v w = Inr x"
    using assms(6) number_cases(1) [OF assms(1,3)] number_cases(1) [OF assms(2,4)]
    by (cases v; cases w) (auto simp: py_add_def num_of_def)
  then show ?thesis
    using number_cases [OF assms(1,3)] number_cases [OF assms(2,4)] fl_of_int [OF assms(5)]
    by (auto simp: num_arith_def f_add_def number_is_def num_of_def split: option.splits)
qed

lemma equals_counts: "equals v k w = Inr True \<Longrightarrow> number_is w n \<Longrightarrow> counts v k n"
  by (auto simp: equals_def counts_def intro: py_eq_number simp del: py_eq.simps)

lemma round_step_accounts:
  assumes "round_step config appended bytes pauses (number, v) = Inr pauses'" "number_is appended n" "0 \<le> n" "n < 2 ^ 30" "number \<in> {1, 2, 3}"
  shows "counts v ''appended_entries'' n" "counts v ''compacted_through'' (number * n)"
proof -
  have e: "equals v ''appended_entries'' appended = Inr True"
    and c: "\<exists>c b. item v ''compacted_through'' = Inr c \<and> py_mul (PInt number) appended = Inr b \<and> py_eq c b"
    using assms(1) by (auto simp: round_step_def Let_def simp del: py_eq.simps)
  show "counts v ''appended_entries'' n" using equals_counts [OF e assms(2)] .
  have "number * n < 2 ^ 53" "0 \<le> number * n" using assms(3-5) by auto
  then show "counts v ''compacted_through'' (number * n)"
    using c number_mul [OF _ assms(2), of "PInt number" number] assms(3-5) py_eq_number by (auto simp: counts_def simp del: py_eq.simps)
qed

lemma config_item:
  assumes "py_eq (PDict c) (PDict expected)" "map_of c (KStr k) = Some x"
  shows "\<exists>y. map_of expected (KStr k) = Some y \<and> py_eq x y"
proof -
  have "py_eq_items d expected \<Longrightarrow> map_of d (KStr k) = Some x \<Longrightarrow> ?thesis" for d
    by (induction d) (auto simp del: py_eq.simps split: if_splits option.splits)
  from this [of c] show ?thesis using assms by simp
qed

text \<open>The sizes of the predeclared cases.\<close>

lemma wal_case_sizes:
  assumes "(stem, expected) \<in> set WAL_RECLAMATION_CASES"
  shows "map_of expected (KStr ''rounds'') = Some (PInt 3)" "0 \<le> appended_of expected" "appended_of expected < 2 ^ 30"
    "0 \<le> retained_of_config expected" "retained_of_config expected < 2 ^ 30"
    "\<exists>a b. map_of expected (KStr ''batches_per_round'') = Some (PInt a) \<and> map_of expected (KStr ''batch_size'') = Some (PInt b) \<and>
       appended_of expected = a * b \<and> 0 \<le> a \<and> a < 2 ^ 30 \<and> 0 \<le> b \<and> b < 2 ^ 30"
  using assms by (auto simp: WAL_RECLAMATION_CASES_def wal_config_def appended_of_def retained_of_config_def dict_get_def)

lemma final_accounts:
  assumes "check_wal_final final config retained appended bytes = Inr u" "item config ''rounds'' = Inr rounds" "number_is rounds 3"
    "number_is appended n" "0 \<le> n" "n < 2 ^ 30" "0 \<le> retained" "retained < 2 ^ 30"
  shows "counts final ''hard_commit'' (retained + 3 * n)" "counts final ''next_index'' (retained + 3 * n + 1)" "counts final ''compacted_through'' (3 * n)"
    "counts final ''retained_entries'' retained" "item final ''recovery_verified'' = Inr (PBool True)" "item final ''physical_bound_verified'' = Inr (PBool True)"
proof -
  obtain through hard t where through: "py_mul rounds appended = Inr through" and hard: "py_add (PInt retained) through = Inr hard"
    and e: "equals final ''hard_commit'' hard = Inr True" "equals final ''compacted_through'' through = Inr True"
      "equals final ''retained_entries'' (PInt retained) = Inr True"
    and t: "py_add hard (PInt 1) = Inr t" "\<exists>x. item final ''next_index'' = Inr x \<and> py_eq x t"
    and v: "item final ''recovery_verified'' = Inr (PBool True)" "item final ''physical_bound_verified'' = Inr (PBool True)"
    using assms(1,2) by (auto simp: check_wal_final_def andE_True split: if_splits simp del: py_eq.simps)
  have n: "number_is through (3 * n)" using number_mul [OF assms(3,4) _ _ _ through] assms(5,6) by simp
  have h: "number_is hard (retained + 3 * n)" using number_add [OF _ n _ _ _ hard, of retained] assms(5-8) by simp
  have "number_is t (retained + 3 * n + 1)" using number_add [OF h _ _ _ _ t(1), of 1] assms(5-8) by simp
  then show "counts final ''next_index'' (retained + 3 * n + 1)" using t(2) py_eq_number by (auto simp: counts_def simp del: py_eq.simps)
  show "counts final ''hard_commit'' (retained + 3 * n)" "counts final ''compacted_through'' (3 * n)" "counts final ''retained_entries'' retained"
    using equals_counts [OF e(1) h] equals_counts [OF e(2) n] equals_counts [OF e(3)] by simp_all
  show "item final ''recovery_verified'' = Inr (PBool True)" "item final ''physical_bound_verified'' = Inr (PBool True)" by fact+
qed

lemma rounds_account:
  assumes "foldE (round_step config appended bytes) [] (zip [1..int (length rs)] rs) = Inr pauses" "length rs = 3"
    and n: "number_is appended n" "0 \<le> n" "n < 2 ^ 30" and k: "k < 3"
  shows "counts (rs ! k) ''appended_entries'' n \<and> counts (rs ! k) ''compacted_through'' ((int k + 1) * n)"
proof -
  have "(int k + 1, rs ! k) \<in> set (zip [1..int (length rs)] rs)"
    unfolding set_zip using assms(2) k by (auto intro!: exI [of _ k])
  from foldE_each [OF assms(1) this] obtain ps ps' where "round_step config appended bytes ps (int k + 1, rs ! k) = Inr ps'" by blast
  moreover have "int k + 1 \<in> {1, 2, 3}" using k by (auto simp: less_Suc_eq numeral_eq_Suc)
  ultimately show ?thesis using round_step_accounts [OF _ n] by blast
qed

lemma normalized_accounts:
  assumes case_in: "(stem, expected) \<in> set WAL_RECLAMATION_CASES" and norm: "normalize_wal_reclamation_receipt raw expected names = Inr (record, summary)"
  shows "wal_accounts raw (retained_of_config expected) (appended_of expected)"
    and "\<exists>sha. length sha = 40 \<and> item raw ''source_sha'' = Inr (PStr sha) \<and> record_sha record = PStr sha"
proof -
  let ?n = "appended_of expected" and ?r = "retained_of_config expected"
  obtain config rounds appended aggregate bytes pauses final u where h: "check_wal_header raw expected = Inr u"
    and c: "item raw ''config'' = Inr config" "item raw ''rounds'' = Inr rounds"
    and count: "(case rounds of PList rs \<Rightarrow> bindE (item config ''rounds'') (\<lambda>n. Inr (py_eq (PInt (int (length rs))) n)) | _ \<Rightarrow> Inr False) = Inr True"
    and ap: "\<exists>a b. item config ''batches_per_round'' = Inr a \<and> item config ''batch_size'' = Inr b \<and> py_mul a b = Inr appended"
    and loop: "\<exists>rs. iter_of rounds = Inr rs \<and> foldE (round_step config appended bytes) [] (zip [1..int (length rs)] rs) = Inr pauses"
    and final: "item raw ''final'' = Inr final" "check_wal_final final config ?r appended bytes = Inr ()"
    and rec: "\<exists>c. wal_record raw c aggregate final appended bytes names = Inr record"
    using norm unfolding normalize_wal_reclamation_receipt_def Let_def by (clarsimp simp del: py_eq.simps) blast
  have eq: "py_eq config (PDict expected)" and sha: "bindE (item raw ''source_sha'') full_sha = Inr True"
    using h c(1) by (auto simp: check_wal_header_def equals_def simp del: py_eq.simps)
  obtain cd where cd: "config = PDict cd" using eq by (cases config) (auto simp: num_of_def)
  note sizes = wal_case_sizes [OF case_in]
  have number: "number_is x i" if "map_of cd (KStr k) = Some x" "map_of expected (KStr k) = Some (PInt i)" for k x i
    using config_item [OF eq [unfolded cd] that(1)] that(2) py_eq_number [of x "PInt i"] by simp
  obtain rs m where rs: "rounds = PList rs" "item config ''rounds'' = Inr m" "py_eq (PInt (int (length rs))) m"
    using count by (auto split: pyval.splits simp del: py_eq.simps)
  have m: "number_is m 3" using rs(2) number sizes(1) by (auto simp: cd item_eq_Inr)
  have len: "length rs = 3" using py_eq_number [OF rs(3) m] by simp
  obtain a b where ab: "map_of expected (KStr ''batches_per_round'') = Some (PInt a)" "map_of expected (KStr ''batch_size'') = Some (PInt b)"
    "?n = a * b" "0 \<le> a" "a < 2 ^ 30" "0 \<le> b" "b < 2 ^ 30" using sizes(6) by blast
  have n: "number_is appended ?n"
  proof -
    obtain x y where xy: "map_of cd (KStr ''batches_per_round'') = Some x" "map_of cd (KStr ''batch_size'') = Some y" "py_mul x y = Inr appended"
      using ap by (auto simp: cd item_eq_Inr)
    show ?thesis unfolding ab(3)
      using number_mul [OF number [OF xy(1) ab(1)] number [OF xy(2) ab(2)] _ _ _ xy(3)] ab sizes(2,3) by simp
  qed
  have loop': "foldE (round_step config appended bytes) [] (zip [1..int (length rs)] rs) = Inr pauses"
    using loop by (simp add: rs(1) iter_of_def)
  show "wal_accounts raw ?r ?n" unfolding wal_accounts_def
    using c(2) rs(1) len rounds_account [OF loop' len n sizes(2,3)] final(1) final_accounts [OF final(2) rs(2) m n sizes(2-5)] by blast
  obtain v where v: "item raw ''source_sha'' = Inr v" "full_sha v = Inr True" using sha by auto
  obtain sha where s: "v = PStr sha" "length sha = 40" using v(2) by (cases v) (auto simp: full_sha_def)
  obtain cc where "wal_record raw cc aggregate final appended bytes names = Inr record" using rec by blast
  then have "record_sha record = PStr sha" using v(1) s(1) by (auto simp: wal_record_def record_sha_def dict_get_def)
  then show "\<exists>sha. length sha = 40 \<and> item raw ''source_sha'' = Inr (PStr sha) \<and> record_sha record = PStr sha" using v(1) s by blast
qed

text \<open>A record for every case means that every case was read and normalised.\<close>

lemma wal_step_records:
  assumes "wal_step w dir s (stem, expected) = Inr s'"
  shows "(wal_records s' = wal_records s \<and> set (wal_shas s') = set (wal_shas s)) \<or>
    (\<exists>record. wal_case w dir stem expected = Inr record \<and> wal_records s' = wal_records s @ [record] \<and> set (wal_shas s') = insert (record_sha record) (set (wal_shas s)))"
  using assms by (auto simp: wal_step_def split: if_splits sum.splits)

lemma wal_step_reasons: "wal_step w dir s e = Inr s' \<Longrightarrow> wal_reasons s' = [] \<Longrightarrow> wal_reasons s = []"
  by (auto simp: wal_step_def split: if_splits sum.splits prod.splits)

lemma wal_loop:
  assumes "foldE (wal_step w dir) s cases_list = Inr t" "wal_records s = []"
  shows "length (wal_records t) \<le> length cases_list \<and> (length (wal_records t) = length cases_list \<longrightarrow>
    (\<forall>(stem, expected)\<in>set cases_list. \<exists>record. wal_case w dir stem expected = Inr record \<and> record_sha record \<in> set (wal_shas t)))"
proof (rule foldE_invariant [OF assms(1)])
  show "length (wal_records s) \<le> length [] \<and> (length (wal_records s) = length [] \<longrightarrow>
    (\<forall>(stem, expected)\<in>set []. \<exists>record. wal_case w dir stem expected = Inr record \<and> record_sha record \<in> set (wal_shas s)))"
    using assms(2) by simp
next
  fix "done" e rest s s'
  assume ih: "length (wal_records s) \<le> length done \<and> (length (wal_records s) = length done \<longrightarrow>
      (\<forall>(stem, expected)\<in>set done. \<exists>record. wal_case w dir stem expected = Inr record \<and> record_sha record \<in> set (wal_shas s)))"
    and step: "wal_step w dir s e = Inr s'"
  obtain stem expected where e: "e = (stem, expected)" by fastforce
  show "length (wal_records s') \<le> length (done @ [e]) \<and> (length (wal_records s') = length (done @ [e]) \<longrightarrow>
      (\<forall>(stem, expected)\<in>set (done @ [e]). \<exists>record. wal_case w dir stem expected = Inr record \<and> record_sha record \<in> set (wal_shas s')))"
    using wal_step_records [OF step [unfolded e]] ih by (fastforce simp: e)
qed

lemma wal_result_passed:
  assumes "dict_get (wal_result w s) ''qualification'' PNone = PStr ''passed''"
  shows "wal_reasons s = []" "length (wal_shas s) \<le> 1" "length (wal_records s) = length WAL_RECLAMATION_CASES"
  using assms by (auto simp: wal_result_def Let_def dict_get_def split: if_splits)

text \<open>C37: accepted WAL-reclamation evidence accounts for every entry. A passed result means that the
  directory holds exactly the six predeclared files and no link, that all three receipts come from
  one full revision, and that in each of them every round appended the declared number of entries
  and compacted through its multiple, while the final state has committed, compacted and retained
  exactly the declared entries and verified its recovery.\<close>

theorem wal_evidence_sound:
  assumes "load_wal_reclamation w dir = Inr r" "dict_get r ''qualification'' PNone = PStr ''passed''"
  shows "\<exists>es sha. dir = Directory es \<and> set (map fst es) = set expected_wal_names \<and> (\<forall>(name, n)\<in>set es. \<not> is_symlink (Some n)) \<and> length sha = 40 \<and>
    (\<forall>(stem, expected)\<in>set WAL_RECLAMATION_CASES. \<exists>raw. read_json w dir (stem @ ''.json'') = Inr raw \<and> item raw ''source_sha'' = Inr (PStr sha) \<and>
       wal_accounts raw (retained_of_config expected) (appended_of expected))"
proof -
  obtain es where es: "dir = Directory es"
    using assms by (cases dir) (auto simp: load_wal_reclamation_def dict_get_def)
  let ?s0 = "\<lparr>wal_reasons = wal_inventory_reasons es, wal_records = [], wal_shas = []\<rparr>"
  obtain s where s: "foldE (wal_step w dir) ?s0 WAL_RECLAMATION_CASES = Inr s" "r = wal_result w s"
    using assms(1) by (auto simp: load_wal_reclamation_def es)
  note passed = wal_result_passed [OF assms(2) [unfolded s(2)]]
  have "wal_reasons s = [] \<longrightarrow> wal_inventory_reasons es = []"
    using foldE_preserve [OF s(1), of "\<lambda>t. wal_reasons t = [] \<longrightarrow> wal_inventory_reasons es = []"] wal_step_reasons by auto
  then have inv: "set (map fst es) = set expected_wal_names" "\<forall>(name, n)\<in>set es. \<not> is_symlink (Some n)"
    using passed(1) by (auto simp: wal_inventory_reasons_def list_ex_iff split: if_splits)
  have all: "\<exists>record. wal_case w dir stem expected = Inr record \<and> record_sha record \<in> set (wal_shas s)"
    if "(stem, expected) \<in> set WAL_RECLAMATION_CASES" for stem expected
    using wal_loop [OF s(1)] passed(3) that by fastforce
  have ok: "\<exists>raw sha. read_json w dir (stem @ ''.json'') = Inr raw \<and> item raw ''source_sha'' = Inr (PStr sha) \<and> length sha = 40 \<and>
      PStr sha \<in> set (wal_shas s) \<and> wal_accounts raw (retained_of_config expected) (appended_of expected)"
    if c: "(stem, expected) \<in> set WAL_RECLAMATION_CASES" for stem expected
  proof -
    obtain row where rec: "wal_case w dir stem expected = Inr row" "record_sha row \<in> set (wal_shas s)" using all [OF c] by blast
    then obtain raw summary where raw: "read_json w dir (stem @ ''.json'') = Inr raw"
      "normalize_wal_reclamation_receipt raw expected [stem @ ''.json'', stem @ ''-summary.json''] = Inr (row, summary)"
      by (auto simp: wal_case_def Let_def simp del: py_eq.simps)
    then show ?thesis using normalized_accounts [OF c raw(2)] rec(2) by metis
  qed
  have one: "v = v'" if "v \<in> set (wal_shas s)" "v' \<in> set (wal_shas s)" for v v'
    using that passed(2) by (cases "wal_shas s") auto
  obtain stem0 expected0 where "(stem0, expected0) \<in> set WAL_RECLAMATION_CASES" by (auto simp: WAL_RECLAMATION_CASES_def)
  from ok [OF this] obtain sha where sha: "length sha = 40" "PStr sha \<in> set (wal_shas s)" by blast
  have "\<exists>raw. read_json w dir (stem @ ''.json'') = Inr raw \<and> item raw ''source_sha'' = Inr (PStr sha) \<and>
      wal_accounts raw (retained_of_config expected) (appended_of expected)" if "(stem, expected) \<in> set WAL_RECLAMATION_CASES" for stem expected
    using ok [OF that] one [OF sha(2)] by fastforce
  then show ?thesis using es inv sha(1) by blast
qed

text \<open>A small set of receipts that is accepted.\<close>

definition sample_sha :: string where
  "sample_sha = replicate 40 (CHR ''a'')"

definition sample_latency :: "int \<Rightarrow> pyval" where
  "sample_latency n = PDict [kv ''count'' (PInt n), kv ''p50_ns'' (PInt 5), kv ''p99_ns'' (PInt 7), kv ''max_ns'' (PInt 9)]"

definition sample_inventory :: "string \<Rightarrow> pyval" where
  "sample_inventory digit = PDict [kv ''file_count'' (PInt 3), kv ''bytes'' (PInt 100),
     kv ''names'' (PList [PStr (''raft-wal-checkpoint-0000000000000000000'' @ digit @ ''.rfwc''), PStr ''raft-wal-current'',
       PStr (''raft-wal-segment-0000000000000000000'' @ digit @ ''.rfwb'')])]"

definition sample_round :: "int \<Rightarrow> int \<Rightarrow> int \<Rightarrow> string \<Rightarrow> pyval" where
  "sample_round batches appended k digit = PDict [kv ''round'' (PInt k), kv ''appended_entries'' (PInt appended), kv ''compacted_through'' (PInt (k * appended)),
     kv ''snapshot_ns'' (PInt 3), kv ''reclamation_pause_ns'' (PInt 10), kv ''write_latency'' (sample_latency batches), kv ''managed_wal'' (sample_inventory digit)]"

definition sample_phase :: "string \<Rightarrow> int \<Rightarrow> pyval" where
  "sample_phase name ns = PDict [kv ''name'' (PStr name), kv ''calls'' (PInt 3), kv ''total_ns'' (PInt ns), kv ''max_ns'' (PInt 2), kv ''buckets'' (PList [PInt 1, PInt 2])]"

definition sample_receipt :: "int \<Rightarrow> int \<Rightarrow> int \<Rightarrow> pyval" where
  "sample_receipt retained batches batch = (let appended = batches * batch in PDict
     [kv ''schema'' (PInt 1), kv ''layer'' (PStr ''durable_replication''), kv ''comparison_kind'' (PStr ''rafter_component_qualification''),
      kv ''source_sha'' (PStr sample_sha), kv ''completion_boundary'' (PStr ''reopen''), kv ''config'' (PDict (wal_config retained batches batch)),
      kv ''rounds'' (PList [sample_round batches appended 1 ''1'', sample_round batches appended 2 ''2'', sample_round batches appended 3 ''3'']),
      kv ''aggregate'' (PDict [kv ''write_latency'' (sample_latency (3 * batches)), kv ''reclamation_pause'' (sample_latency 3), kv ''reopen_ns'' (PInt 4),
        kv ''managed_wal_bytes'' (PInt 100), kv ''managed_wal_files'' (PInt 3)]),
      kv ''phase_metrics'' (PList [sample_phase ''wal_reclamation'' 20, sample_phase ''wal_checkpoint_prepare'' 6, sample_phase ''wal_manifest_publish'' 6, sample_phase ''wal_cleanup'' 6]),
      kv ''final'' (PDict [kv ''hard_commit'' (PInt (retained + 3 * appended)), kv ''compacted_through'' (PInt (3 * appended)), kv ''retained_entries'' (PInt retained),
        kv ''next_index'' (PInt (retained + 3 * appended + 1)), kv ''recovery_verified'' (PBool True), kv ''physical_bound_verified'' (PBool True),
        kv ''managed_wal'' (sample_inventory ''3'')])])"

definition sample_summary :: "int \<Rightarrow> string \<Rightarrow> pyval" where
  "sample_summary retained sha = PDict [kv ''schema'' (PInt 1), kv ''source_sha'' (PStr sample_sha), kv ''retained_entries'' (PInt retained), kv ''rounds'' (PInt 3),
     kv ''managed_wal_bytes'' (PInt 100), kv ''reclamation_pause_p99_ns'' (PInt 7), kv ''reopen_ns'' (PInt 4), kv ''qualified'' (PBool True), kv ''receipt_sha256'' (PStr sha)]"

definition wal_loads :: "string \<Rightarrow> pyval res" where
  "wal_loads s =
     (if s = ''A'' then Inr (sample_receipt 512 25 4096) else if s = ''B'' then Inr (sample_receipt 10000 64 8) else if s = ''C'' then Inr (sample_receipt 100000 64 8)
      else if s = ''a'' then Inr (sample_summary 512 ''A'') else if s = ''b'' then Inr (sample_summary 10000 ''B'') else Inr (sample_summary 100000 ''C''))"

definition wal_world :: world where
  "wal_world = \<lparr>sha256 = (\<lambda>s. s), loads = wal_loads, dumps = (\<lambda>_. []), base_path = ''wal'', out_of_time = (\<lambda>_. False), recursion_limit = 900\<rparr>"

definition wal_directory :: fsnode where
  "wal_directory = Directory [(''retired-102400.json'', Regular ''A'' 8), (''retired-102400-summary.json'', Regular ''a'' 8), (''retained-10000.json'', Regular ''B'' 8),
     (''retained-10000-summary.json'', Regular ''b'' 8), (''retained-100000.json'', Regular ''C'' 8), (''retained-100000-summary.json'', Regular ''c'' 8)]"

theorem wal_evidence_sound_witness:
  "\<exists>r sha. load_wal_reclamation wal_world wal_directory = Inr r \<and> length sha = (40 :: nat) \<and>
     (\<forall>(stem, expected)\<in>set WAL_RECLAMATION_CASES. \<exists>raw. read_json wal_world wal_directory (stem @ ''.json'') = Inr raw \<and>
        item raw ''source_sha'' = Inr (PStr sha) \<and> wal_accounts raw (retained_of_config expected) (appended_of expected))"
proof -
  have "case load_wal_reclamation wal_world wal_directory of Inr r \<Rightarrow> dict_get r ''qualification'' PNone = PStr ''passed'' | Inl _ \<Rightarrow> False"
    by code_simp
  then obtain r where r: "load_wal_reclamation wal_world wal_directory = Inr r" "dict_get r ''qualification'' PNone = PStr ''passed''"
    by (cases "load_wal_reclamation wal_world wal_directory") auto
  then show ?thesis using wal_evidence_sound [OF r] by blast
qed

end
