(* ===== verification/Load_Readings.thy ===== *)
theory Load_Readings
  imports Wal_Reclamation Storage_Footprint Machine
begin

text \<open>
  The readers of \<open>src/benchctl/reclamation_load.py\<close>: each takes a normalised case of a suite and
  returns one quantity of it (allocated bytes, artifacts left after the final restart, measured
  compactions, stage timings) or raises \<open>ValueError\<close> with the reason why the case does not have
  it. \<open>Load_Assessment\<close> builds the verdict of the suite from them.
\<close>

definition MANAGED_RAFT_CATEGORIES :: "string list" where
  "MANAGED_RAFT_CATEGORIES = take 5 CATEGORIES"

section \<open>Reading nested values\<close>

text \<open>\<open>try: r except (KeyError, TypeError): raise ValueError(message)\<close>, and \<open>v[k1][k2]...\<close>\<close>

definition missing_as :: "string \<Rightarrow> 'a res \<Rightarrow> 'a res" where
  "missing_as message r = catchE {KeyError, TypeError} r (\<lambda>_. raiseE ValueError message)"

definition item_path :: "pyval \<Rightarrow> string list \<Rightarrow> pyval res" where
  "item_path v ks = foldE item v ks"

text \<open>\<open>if type(v) is not int or v < 0: raise ValueError(message)\<close>\<close>

definition nonneg_or :: "string \<Rightarrow> pyval \<Rightarrow> int res" where
  "nonneg_or message v = (case v of
     PInt i \<Rightarrow> if 0 \<le> i then Inr i else raiseE ValueError message
   | _ \<Rightarrow> raiseE ValueError message)"

definition dicts_of :: "pyval list \<Rightarrow> pydict list" where
  "dicts_of vs = List.map_filter (\<lambda>v. case v of PDict d \<Rightarrow> Some d | _ \<Rightarrow> None) vs"

definition is_list_or :: "string \<Rightarrow> pyval \<Rightarrow> pyval list res" where
  "is_list_or message v = (case v of PList xs \<Rightarrow> Inr xs | _ \<Rightarrow> raiseE ValueError message)"

definition is_dict_or :: "string \<Rightarrow> pyval \<Rightarrow> pydict res" where
  "is_dict_or message v = (case v of PDict d \<Rightarrow> Inr d | _ \<Rightarrow> raiseE ValueError message)"

section \<open>Storage\<close>

definition category_value :: "pyval \<Rightarrow> string \<Rightarrow> string \<Rightarrow> string \<Rightarrow> int res" where
  "category_value c checkpoint category name =
     (let what = checkpoint @ '' '' @ category @ '' '' @ name in
      bindE (missing_as (''missing '' @ what) (item_path c [''storage_footprint'', ''snapshots'', checkpoint, ''totals'', category, name]))
        (nonneg_or (''invalid '' @ what)))"

definition allocated :: "pyval \<Rightarrow> string \<Rightarrow> string \<Rightarrow> int res" where
  "allocated c category checkpoint = category_value c checkpoint category ''allocated_bytes''"

text \<open>The nodes of a checkpoint, which must be 1, 2 and 3.\<close>

definition node_inventory :: "pyval \<Rightarrow> string \<Rightarrow> string \<Rightarrow> string \<Rightarrow> pydict res" where
  "node_inventory c checkpoint missing invalid =
     bindE (missing_as missing (item_path c [''storage_footprint'', ''snapshots'', checkpoint, ''nodes''])) (\<lambda>nodes.
     bindE (is_dict_or invalid nodes) (\<lambda>d.
     bindE (raise_if (\<not> keys_are d [''1'', ''2'', ''3'']) ValueError invalid) (\<lambda>_. Inr d)))"

definition node_files :: "string \<Rightarrow> string \<Rightarrow> pyval \<Rightarrow> pyval list res" where
  "node_files checkpoint node observed =
     (let what = checkpoint @ '' storage files for node '' @ node in
      bindE (missing_as (''missing '' @ what) (item observed ''files'')) (is_list_or (''invalid '' @ what)))"

definition legacy_file :: "string \<Rightarrow> string \<Rightarrow> pyval \<Rightarrow> int res" where
  "legacy_file checkpoint node observed =
     bindE (node_files checkpoint node observed) (\<lambda>fs.
     let matches = filter (\<lambda>d. py_eq (dict_get d ''path'' PNone) (PStr (''node-'' @ node @ ''/raft/hard-state''))) (dicts_of fs) in
     bindE (raise_if (length matches > 1) ValueError (''duplicate '' @ checkpoint @ '' initial WAL for node '' @ node)) (\<lambda>_.
     case matches of
       [] \<Rightarrow> Inr 0
     | d # _ \<Rightarrow> bindE (nonneg_or (''invalid '' @ checkpoint @ '' initial WAL allocation for node '' @ node) (dict_get d ''allocated_bytes'' PNone)) (\<lambda>n.
         Inr (if py_eq (dict_get d ''category'' PNone) (PStr ''raft_wal_data'') then 0 else n))))"

text \<open>The initial WAL generation lies at a path that the footprint receipt files under
  \<open>other\<close>.\<close>

definition legacy_wal_allocated :: "pyval \<Rightarrow> string \<Rightarrow> int res" where
  "legacy_wal_allocated c checkpoint =
     bindE (bindE (get_or c ''configuration'' (PDict [])) (\<lambda>conf. get conf ''hard_state'')) (\<lambda>hard_state.
     if \<not> py_eq hard_state (PStr ''wal'') then Inr 0
     else
       bindE (node_inventory c checkpoint (''missing '' @ checkpoint @ '' storage node inventory'') (''invalid '' @ checkpoint @ '' storage node inventory'')) (\<lambda>nodes.
       bindE (mapE (\<lambda>(node, observed). legacy_file checkpoint (key_str node) observed) nodes) (\<lambda>ns. Inr (sum_list ns))))"

definition wal_allocated :: "pyval \<Rightarrow> string \<Rightarrow> int res" where
  "wal_allocated c checkpoint =
     bindE (allocated c ''raft_wal_data'' checkpoint) (\<lambda>a. bindE (legacy_wal_allocated c checkpoint) (\<lambda>b. Inr (a + b)))"

definition managed_raft_allocated :: "pyval \<Rightarrow> string \<Rightarrow> int res" where
  "managed_raft_allocated c checkpoint =
     bindE (mapE (\<lambda>category. allocated c category checkpoint) MANAGED_RAFT_CATEGORIES) (\<lambda>ns.
     bindE (legacy_wal_allocated c checkpoint) (\<lambda>b. Inr (sum_list ns + b)))"

record snapshot_artifacts =
  data_files :: int
  metadata_files :: int
  temporary_files :: int

definition read_artifacts :: "pyval \<Rightarrow> (pyval \<times> pyval \<times> pyval) res" where
  "read_artifacts observed =
     bindE (item observed ''totals'') (\<lambda>totals.
     bindE (item_path totals [''raft_snapshot_data'', ''files'']) (\<lambda>data.
     bindE (item_path totals [''raft_snapshot_metadata'', ''files'']) (\<lambda>metadata.
     bindE (item_path totals [''raft_snapshot_temporary'', ''files'']) (\<lambda>temporary. Inr (data, metadata, temporary)))))"

definition node_artifacts :: "string \<Rightarrow> pyval \<Rightarrow> (string \<times> snapshot_artifacts) res" where
  "node_artifacts node observed =
     bindE (missing_as (''missing after_final_restart snapshot artifacts for node '' @ node) (read_artifacts observed)) (\<lambda>(data, metadata, temporary).
     bindE (nonneg_or (''invalid after_final_restart snapshot data files for node '' @ node) data) (\<lambda>d.
     bindE (nonneg_or (''invalid after_final_restart snapshot metadata files for node '' @ node) metadata) (\<lambda>m.
     bindE (nonneg_or (''invalid after_final_restart temporary snapshot files for node '' @ node) temporary) (\<lambda>t.
     Inr (node, \<lparr>data_files = d, metadata_files = m, temporary_files = t\<rparr>)))))"

definition final_snapshot_artifacts :: "pyval \<Rightarrow> (string \<times> snapshot_artifacts) list res" where
  "final_snapshot_artifacts c =
     bindE (node_inventory c ''after_final_restart'' ''missing after_final_restart node inventory'' ''invalid after_final_restart node inventory'')
       (mapE (\<lambda>(node, observed). node_artifacts (key_str node) observed))"

definition final_durable_snapshot_indexes :: "pyval \<Rightarrow> (string \<times> int) list res" where
  "final_durable_snapshot_indexes c =
     bindE (get c ''final_snapshot_indexes'') (\<lambda>nodes.
     bindE (is_dict_or ''invalid after_final_restart snapshot-index inventory'' nodes) (\<lambda>d.
     bindE (raise_if (\<not> keys_are d [''1'', ''2'', ''3'']) ValueError ''invalid after_final_restart snapshot-index inventory'') (\<lambda>_.
     mapE (\<lambda>(node, index). bindE (nonneg_or (''invalid after_final_restart durable snapshot index for node '' @ key_str node) index) (\<lambda>i.
       Inr (key_str node, i))) d)))"

record application_artifacts =
  journal_files :: int
  checkpoint_temporaries :: int

definition path_count :: "pydict list \<Rightarrow> string \<Rightarrow> int" where
  "path_count ds path = int (length (filter (\<lambda>d. py_eq (dict_get d ''path'' PNone) (PStr path)) ds))"

definition node_application :: "string \<Rightarrow> pyval \<Rightarrow> (string \<times> application_artifacts) res" where
  "node_application node observed =
     bindE (node_files ''after_final_restart'' node observed) (\<lambda>fs.
     Inr (node, \<lparr>journal_files = path_count (dicts_of fs) (''node-'' @ node @ ''/application.wal''),
       checkpoint_temporaries = path_count (dicts_of fs) (''node-'' @ node @ ''/application.wal.checkpoint.tmp'')\<rparr>))"

definition final_application_artifacts :: "pyval \<Rightarrow> (string \<times> application_artifacts) list res" where
  "final_application_artifacts c =
     bindE (node_inventory c ''after_final_restart'' ''missing after_final_restart node inventory'' ''invalid after_final_restart storage node inventory'')
       (mapE (\<lambda>(node, observed). node_application (key_str node) observed))"

section \<open>Recovery and compaction\<close>

definition positive_or :: "string \<Rightarrow> pyval \<Rightarrow> int res" where
  "positive_or message v = (case v of
     PInt i \<Rightarrow> if 0 < i then Inr i else raiseE ValueError message
   | _ \<Rightarrow> raiseE ValueError message)"

definition restart_ns :: "pyval \<Rightarrow> int res" where
  "restart_ns c =
     bindE (missing_as ''missing final process restart timing'' (item_path c [''recovery'', ''timing'', ''process_restart_ns'']))
       (positive_or ''invalid final process restart timing'')"

text \<open>A maximum that is \<open>None\<close> or a positive integer.\<close>

definition optional_positive :: "string \<Rightarrow> pyval \<Rightarrow> int option res" where
  "optional_positive message v = (if v = PNone then Inr None else bindE (positive_or message v) (\<lambda>i. Inr (Some i)))"

definition live_receipt :: "pyval \<Rightarrow> pydict res" where
  "live_receipt c = bindE (get c ''snapshot_reclamation'') (is_dict_or ''missing live reclamation activity'')"

definition compaction_step :: "int \<times> int \<Rightarrow> pyval \<Rightarrow> (int \<times> int) res" where
  "compaction_step = (\<lambda>(samples, maximum) node.
     bindE (get_or node ''measurement_compaction'' (PDict [])) (\<lambda>measurement.
     bindE (get measurement ''samples'') (\<lambda>n. bindE (get measurement ''max_upper_bound_ns'') (\<lambda>upper.
     bindE (nonneg_or ''invalid measured-load compaction count'' n) (\<lambda>i.
     bindE (optional_positive ''invalid measured-load compaction maximum'' upper) (\<lambda>u.
     Inr (samples + i, max maximum (case u of Some x \<Rightarrow> x | None \<Rightarrow> 0))))))))"

definition compaction :: "pyval \<Rightarrow> (int \<times> int) res" where
  "compaction c =
     bindE (live_receipt c) (\<lambda>live.
     bindE (values_of (dict_get live ''nodes'' (PDict []))) (\<lambda>nodes.
     bindE (foldE compaction_step (0, 0) nodes) (\<lambda>(samples, maximum).
     bindE (raise_if (samples = 0) ValueError ''no measured-load compaction was observed'') (\<lambda>_.
     Inr (samples, maximum)))))"

section \<open>Stage timings\<close>

text \<open>The check of one metric, which three readers repeat: \<open>mean_ns\<close> is \<open>None\<close> without
  samples.\<close>

definition mean_ns_of :: "int \<Rightarrow> int \<Rightarrow> pyval res" where
  "mean_ns_of total_ns samples = (if samples = 0 then Inr PNone else bindE (int_div total_ns samples) (\<lambda>x. Inr (PFloat x)))"

definition stage_metric :: "string \<Rightarrow> pyval \<Rightarrow> pydict res" where
  "stage_metric stage v =
     bindE (is_dict_or (''invalid '' @ stage @ '' metric'') v) (\<lambda>metric.
     let maximum = dict_get metric ''max_upper_bound_ns'' PNone in
     bindE (nonneg_or (''invalid '' @ stage @ '' sample count'') (dict_get metric ''samples'' PNone)) (\<lambda>samples.
     bindE (nonneg_or (''invalid '' @ stage @ '' total'') (dict_get metric ''total_ns'' PNone)) (\<lambda>total_ns.
     bindE (optional_positive (''invalid '' @ stage @ '' maximum upper bound'') maximum) (\<lambda>m.
     bindE (raise_if ((samples = 0) \<noteq> (m = None)) ValueError (''incoherent '' @ stage @ '' samples and maximum'')) (\<lambda>_.
     bindE (mean_ns_of total_ns samples) (\<lambda>mean.
     Inr [kv ''samples'' (PInt samples), kv ''total_ns'' (PInt total_ns), kv ''mean_ns'' mean, kv ''max_upper_bound_ns'' maximum]))))))"

definition live_totals :: "pydict \<Rightarrow> pydict res" where
  "live_totals live = is_dict_or ''live reclamation totals are invalid'' (dict_get live ''totals'' PNone)"

definition all_native_stages :: "string list" where
  "all_native_stages = NATIVE_SNAPSHOT_STAGES @ NATIVE_WAL_RECLAMATION_STAGES"

text \<open>\<open>raw[stage]\<close> for a stage that is a key of \<open>raw\<close>.\<close>

definition stage_rows :: "pydict \<Rightarrow> string list \<Rightarrow> pydict res" where
  "stage_rows raw stages = mapE (\<lambda>stage. bindE (bindE (item (PDict raw) stage) (stage_metric stage)) (\<lambda>m. Inr (kv stage (PDict m)))) stages"

definition native_snapshot_stages :: "pyval \<Rightarrow> pydict res" where
  "native_snapshot_stages c =
     bindE (live_receipt c) (\<lambda>live. bindE (live_totals live) (\<lambda>totals.
     let v = dict_get totals ''native_snapshot_stages'' PNone; schema = dict_get live ''schema'' PNone in
     if v = PNone then Inr []
     else
       bindE (is_dict_or ''native snapshot stage set changed'' v) (\<lambda>raw.
       bindE (raise_if (\<not> (keys_are raw NATIVE_SNAPSHOT_BASE_STAGES \<or> keys_are raw NATIVE_SNAPSHOT_STAGES \<or> keys_are raw all_native_stages))
         ValueError ''native snapshot stage set changed'') (\<lambda>_.
       let stages = filter (\<lambda>stage. map_of raw (KStr stage) \<noteq> None) all_native_stages in
       bindE (raise_if (py_in schema [PInt 5, PInt 6] \<and> set stages \<noteq> set NATIVE_SNAPSHOT_STAGES) ValueError
         ''schema 5 or 6 native snapshot kernel stages are missing'') (\<lambda>_.
       bindE (raise_if (py_eq schema (PInt 7) \<and> set stages \<noteq> set all_native_stages) ValueError
         ''schema 7 native WAL reclamation stages are missing'') (\<lambda>_.
       stage_rows raw stages))))))"

definition application_checkpoint_stages :: "pyval \<Rightarrow> pydict res" where
  "application_checkpoint_stages c =
     bindE (live_receipt c) (\<lambda>live. bindE (live_totals live) (\<lambda>totals.
     let v = dict_get totals ''application_checkpoint_stages'' PNone; schema = dict_get live ''schema'' PNone in
     if v = PNone then
       bindE (raise_if (py_in schema [PInt 4, PInt 5, PInt 6, PInt 7]) ValueError
         ''application checkpoint stages are missing from schema 4, 5, 6, or 7 receipt'') (\<lambda>_. Inr [])
     else
       bindE (is_dict_or ''application checkpoint stage set changed'' v) (\<lambda>raw.
       bindE (raise_if (\<not> keys_are raw APPLICATION_CHECKPOINT_STAGES) ValueError ''application checkpoint stage set changed'') (\<lambda>_.
       stage_rows raw APPLICATION_CHECKPOINT_STAGES))))"

definition application_snapshot_encode :: "pyval \<Rightarrow> pydict res" where
  "application_snapshot_encode c =
     bindE (live_receipt c) (\<lambda>live. bindE (live_totals live) (\<lambda>totals.
     let v = dict_get totals ''application_snapshot_encode'' PNone; schema = dict_get live ''schema'' PNone in
     if v = PNone then
       bindE (raise_if (py_in schema [PInt 6, PInt 7]) ValueError ''application snapshot encode timing is missing from schema 6 or 7 receipt'') (\<lambda>_. Inr [])
     else stage_metric ''application snapshot encode'' v))"

section \<open>Exceptions of the readers\<close>

text \<open>The classes of exception that a computation may raise.\<close>

definition raises_only :: "exc_class set \<Rightarrow> 'a res \<Rightarrow> bool" where
  "raises_only cs r \<longleftrightarrow> (case r of Inl e \<Rightarrow> class_of e \<in> cs | Inr _ \<Rightarrow> True)"

named_theorems raising \<open>rules for the exceptions of a computation\<close>

lemma raises_only_Inr [raising]: "raises_only cs (Inr x)"
  by (simp add: raises_only_def)

lemma raises_only_raise [raising]: "c \<in> cs \<Longrightarrow> raises_only cs (raiseE c s)" "c \<in> cs \<Longrightarrow> raises_only cs (raise_if b c s)"
  by (simp_all add: raises_only_def raiseE_def raise_if_def)

lemma raises_only_bindE [raising]: "raises_only cs m \<Longrightarrow> (\<And>x. m = Inr x \<Longrightarrow> raises_only cs (f x)) \<Longrightarrow> raises_only cs (bindE m f)"
  by (cases m) (simp_all add: raises_only_def)

lemma raises_only_if [raising]: "(b \<Longrightarrow> raises_only cs m) \<Longrightarrow> (\<not> b \<Longrightarrow> raises_only cs n) \<Longrightarrow> raises_only cs (if b then m else n)"
  by simp

lemma raises_only_prod [raising]: "(\<And>x y. p = (x, y) \<Longrightarrow> raises_only cs (f x y)) \<Longrightarrow> raises_only cs (case p of (x, y) \<Rightarrow> f x y)"
  by (cases p) simp

lemma raises_only_mapE [raising]: "(\<And>x. x \<in> set xs \<Longrightarrow> raises_only cs (f x)) \<Longrightarrow> raises_only cs (mapE f xs)"
  by (induction xs) (auto intro!: raising)

lemma raises_only_mono: "raises_only cs m \<Longrightarrow> cs \<subseteq> cs' \<Longrightarrow> raises_only cs' m"
  by (auto simp: raises_only_def split: sum.splits)

lemma raises_only_item: "raises_only {KeyError, TypeError} (item v k)"
  by (cases v) (auto simp: raises_only_def item_def raiseE_def split: option.splits)

lemma raises_only_path: "raises_only {KeyError, TypeError} (item_path v ks)"
  unfolding item_path_def by (induction ks arbitrary: v) (auto intro!: raising raises_only_item)

lemma raises_only_missing:
  "raises_only {KeyError, TypeError} m \<Longrightarrow> ValueError \<in> cs \<Longrightarrow> raises_only cs (missing_as message m)"
  by (cases m) (simp_all add: missing_as_def catchE_def raises_only_def raiseE_def)

lemma raises_only_read_artifacts: "raises_only {KeyError, TypeError} (read_artifacts v)"
  unfolding read_artifacts_def by (intro raising raises_only_item raises_only_path)

lemmas raising_missing [raising] =
  raises_only_missing [OF raises_only_item] raises_only_missing [OF raises_only_path] raises_only_missing [OF raises_only_read_artifacts]

lemma raises_only_checks [raising]:
  "ValueError \<in> cs \<Longrightarrow> raises_only cs (nonneg_or s v)" "ValueError \<in> cs \<Longrightarrow> raises_only cs (positive_or s v)"
  "ValueError \<in> cs \<Longrightarrow> raises_only cs (is_list_or s v)" "ValueError \<in> cs \<Longrightarrow> raises_only cs (is_dict_or s v)"
  "ValueError \<in> cs \<Longrightarrow> raises_only cs (optional_positive s v)"
  by (cases v; simp add: raises_only_def nonneg_or_def positive_or_def is_list_or_def is_dict_or_def optional_positive_def raiseE_def)+

lemma is_dict_simps [simp]: "is_dict (PDict d)" "\<not> is_dict PNone" "\<not> is_dict (PBool b)" "\<not> is_dict (PInt i)" "\<not> is_dict (PFloat x)"
  "\<not> is_dict (PStr s)" "\<not> is_dict (PList vs)"
  by (simp_all add: is_dict_def)

lemma raises_only_get [raising]: "is_dict v \<or> AttributeError \<in> cs \<Longrightarrow> raises_only cs (get_or v k w)"
  by (cases v) (auto simp: raises_only_def get_or_def attr_error_def raiseE_def)

lemma raises_only_values [raising]: "is_dict v \<or> AttributeError \<in> cs \<Longrightarrow> raises_only cs (values_of v)"
  by (cases v) (auto simp: raises_only_def values_of_def attr_error_def raiseE_def)

lemma raises_only_foldE [raising]: "(\<And>a x. x \<in> set xs \<Longrightarrow> raises_only cs (f a x)) \<Longrightarrow> raises_only cs (foldE f a xs)"
  by (induction xs arbitrary: a) (auto intro!: raising)

lemma raises_only_int_div [raising]:
  assumes "0 < j" "0 \<le> i \<and> i \<le> 2 ^ 1023 \<or> OverflowError \<in> cs"
  shows "raises_only cs (int_div i j)"
proof (cases "OverflowError \<in> cs")
  case True
  then show ?thesis using assms(1) by (auto simp: raises_only_def int_div_def raiseE_def split: pyfloat.splits)
next
  case False
  then have i: "0 \<le> i" "i \<le> 2 ^ 1023" using assms(2) by auto
  have "(of_int i :: rat) / of_int j \<le> of_int i" using i(1) assms(1) by (simp add: divide_le_eq mult_le_cancel_left1)
  also have "\<dots> \<le> 2 ^ 1023" using i(2) by (metis of_int_le_iff of_int_numeral of_int_power)
  finally have "\<exists>y. fl (of_int i / of_int j) = Fl y" using i(1) assms(1) by (intro fl_in_range) auto
  then show ?thesis using assms(1) by (auto simp: raises_only_def int_div_def)
qed

lemma raises_only_inventory [raising]: "ValueError \<in> cs \<Longrightarrow> raises_only cs (node_inventory c p s t)"
  unfolding node_inventory_def by (intro raising) auto

lemma raises_only_live [raising]: "ValueError \<in> cs \<Longrightarrow> raises_only cs (live_receipt (PDict d))"
  unfolding live_receipt_def by (intro raising) auto

lemma raises_only_legacy_file [raising]: "ValueError \<in> cs \<Longrightarrow> raises_only cs (legacy_file p n v)"
  unfolding legacy_file_def node_files_def Let_def by (intro raising) (auto intro!: raising split: list.splits)

text \<open>What the readers do not check themselves. The configuration of a case is an object; the live
  receipt holds an object per node with an object of measured compactions; and no total of a
  stage exceeds the range in which a mean is a float.\<close>

definition object_of :: "pyval \<Rightarrow> pydict" where
  "object_of v = (case v of PDict d \<Rightarrow> d | _ \<Rightarrow> [])"

definition configuration_object :: "pydict \<Rightarrow> bool" where
  "configuration_object d = is_dict (dict_get d ''configuration'' (PDict []))"

definition activity_objects :: "pydict \<Rightarrow> bool" where
  "activity_objects d = (let nodes = dict_get (object_of (dict_get d ''snapshot_reclamation'' PNone)) ''nodes'' (PDict []) in
     is_dict nodes \<and> list_all (\<lambda>(_, node). is_dict node \<and> is_dict (dict_get (object_of node) ''measurement_compaction'' (PDict []))) (object_of nodes))"

definition total_in_range :: "pyval \<Rightarrow> bool" where
  "total_in_range metric = (case dict_get (object_of metric) ''total_ns'' PNone of PInt i \<Rightarrow> i \<le> 2 ^ 1023 | _ \<Rightarrow> True)"

definition totals_in_range :: "pydict \<Rightarrow> bool" where
  "totals_in_range d = (let totals = object_of (dict_get (object_of (dict_get d ''snapshot_reclamation'' PNone)) ''totals'' PNone) in
     total_in_range (dict_get totals ''application_snapshot_encode'' PNone) \<and>
     list_all (\<lambda>name. list_all (\<lambda>(_, metric). total_in_range metric) (object_of (dict_get totals name PNone)))
       [''native_snapshot_stages'', ''application_checkpoint_stages''])"

lemma raises_only_stage_metric [raising]:
  assumes "ValueError \<in> cs" "total_in_range v \<or> OverflowError \<in> cs"
  shows "raises_only cs (stage_metric s v)"
proof -
  have "raises_only cs (mean_ns_of total_ns samples)"
    if "nonneg_or m1 (dict_get d ''samples'' PNone) = Inr samples" "nonneg_or m2 (dict_get d ''total_ns'' PNone) = Inr total_ns" "v = PDict d"
    for d m1 m2 samples total_ns
    using that assms unfolding mean_ns_of_def
    by (intro raising) (auto simp: nonneg_or_def total_in_range_def object_of_def split: pyval.splits if_splits)
  then show ?thesis using assms(1) unfolding stage_metric_def Let_def
    by (intro raising) (auto simp: is_dict_or_def split: pyval.splits)
qed

lemma raises_only_stage_rows [raising]:
  assumes "ValueError \<in> cs" "\<And>s. s \<in> set stages \<Longrightarrow> map_of raw (KStr s) \<noteq> None"
    and "list_all (\<lambda>(_, metric). total_in_range metric) raw \<or> OverflowError \<in> cs"
  shows "raises_only cs (stage_rows raw stages)"
  unfolding stage_rows_def
proof (intro raising)
  fix s assume "s \<in> set stages"
  then obtain v where v: "map_of raw (KStr s) = Some v" using assms(2) by blast
  then show "raises_only cs (item (PDict raw) s)" by (simp add: item_def raises_only_def)
  fix x assume "item (PDict raw) s = Inr x"
  then have "(KStr s, x) \<in> set raw" using v by (auto simp: item_def dest: map_of_SomeD)
  then show "total_in_range x \<or> OverflowError \<in> cs" using assms(3) by (auto simp: list_all_iff)
qed (rule assms(1))

lemma keys_are_mem: "keys_are d ks \<Longrightarrow> k \<in> set ks \<Longrightarrow> map_of d (KStr k) \<noteq> None"
  by (auto simp: keys_are_def map_of_eq_None_iff)

text \<open>The receipt and its totals, once read.\<close>

lemma live_read: "live_receipt (PDict d) = Inr live \<Longrightarrow> dict_get d ''snapshot_reclamation'' PNone = PDict live"
  "live_totals live = Inr totals \<Longrightarrow> dict_get live ''totals'' PNone = PDict totals"
  "is_dict_or s v = Inr raw \<Longrightarrow> v = PDict raw"
  by (auto simp: live_receipt_def live_totals_def is_dict_or_def get_or_def split: pyval.splits)

lemma raises_only_totals [raising]: "ValueError \<in> cs \<Longrightarrow> raises_only cs (live_totals live)"
  unfolding live_totals_def by (intro raising)

lemma stages_raise:
  assumes "ValueError \<in> cs" "totals_in_range d \<or> OverflowError \<in> cs"
  shows "raises_only cs (native_snapshot_stages (PDict d))" "raises_only cs (application_checkpoint_stages (PDict d))"
    "raises_only cs (application_snapshot_encode (PDict d))"
  unfolding native_snapshot_stages_def application_checkpoint_stages_def application_snapshot_encode_def Let_def
  using assms by (intro raising; auto simp: totals_in_range_def object_of_def dest!: live_read dest: keys_are_mem)+

lemma compaction_raises:
  assumes "ValueError \<in> cs" "activity_objects d \<or> AttributeError \<in> cs"
  shows "raises_only cs (compaction (PDict d))"
proof -
  have step: "raises_only cs (compaction_step acc node)"
    if "is_dict node \<and> is_dict (dict_get (object_of node) ''measurement_compaction'' (PDict [])) \<or> AttributeError \<in> cs" for acc node
    using that assms(1) unfolding compaction_step_def case_prod_app
    by (intro raising) (auto simp: get_or_def is_dict_def object_of_def split: pyval.splits)
  have shape: "is_dict (dict_get live ''nodes'' (PDict [])) \<or> AttributeError \<in> cs" if "live_receipt (PDict d) = Inr live" for live
    using assms(2) live_read(1) [OF that] by (auto simp: activity_objects_def Let_def object_of_def)
  have nodes: "is_dict node \<and> is_dict (dict_get (object_of node) ''measurement_compaction'' (PDict [])) \<or> AttributeError \<in> cs"
    if n: "live_receipt (PDict d) = Inr live" "values_of (dict_get live ''nodes'' (PDict [])) = Inr nodes" "node \<in> set nodes" for live nodes node
  proof -
    obtain ns where "dict_get live ''nodes'' (PDict []) = PDict ns" "nodes = map snd ns"
      using n(2) by (auto simp: values_of_def attr_error_def split: pyval.splits)
    then show ?thesis using assms(2) live_read(1) [OF n(1)] n(3) by (auto simp: activity_objects_def Let_def object_of_def list_all_iff)
  qed
  show ?thesis unfolding compaction_def using assms(1) by (intro raising step shape nodes) auto
qed

lemma legacy_raises [raising]:
  assumes "ValueError \<in> cs" "configuration_object d \<or> AttributeError \<in> cs"
  shows "raises_only cs (legacy_wal_allocated (PDict d) checkpoint)"
  unfolding legacy_wal_allocated_def using assms
  by (intro raising) (auto simp: configuration_object_def get_or_def)

lemma category_raises [raising]: "ValueError \<in> cs \<Longrightarrow> raises_only cs (category_value c checkpoint category name)"
  unfolding category_value_def Let_def by (intro raising) auto

text \<open>C39: a damaged case is a recorded failure. The assessment catches \<open>ValueError\<close> around the readers and
  nothing else, so that any other exception of theirs aborts it. Whatever a case holds, the readers of storage
  categories, of the artifacts after the final restart and of the restart time raise nothing but
  \<open>ValueError\<close>. The readers of the allocated WAL and managed bytes do so when the configuration of the case is an
  object (otherwise they may raise \<open>AttributeError\<close>), the reader of measured compactions when the nodes of the live
  receipt and their measurements are objects, and the readers of stage timings when no total exceeds
  \<open>2^1023\<close> (otherwise the mean may raise \<open>OverflowError\<close>).\<close>

theorem readers_raise_value_error:
  "raises_only {ValueError} (category_value (PDict d) checkpoint category name)
   \<and> raises_only {ValueError} (final_snapshot_artifacts (PDict d))
   \<and> raises_only {ValueError} (final_durable_snapshot_indexes (PDict d))
   \<and> raises_only {ValueError} (final_application_artifacts (PDict d))
   \<and> raises_only {ValueError} (restart_ns (PDict d))
   \<and> raises_only (if configuration_object d then {ValueError} else {ValueError, AttributeError}) (wal_allocated (PDict d) checkpoint)
   \<and> raises_only (if configuration_object d then {ValueError} else {ValueError, AttributeError}) (managed_raft_allocated (PDict d) checkpoint)
   \<and> raises_only (if activity_objects d then {ValueError} else {ValueError, AttributeError}) (compaction (PDict d))
   \<and> raises_only (if totals_in_range d then {ValueError} else {ValueError, OverflowError}) (native_snapshot_stages (PDict d))
   \<and> raises_only (if totals_in_range d then {ValueError} else {ValueError, OverflowError}) (application_checkpoint_stages (PDict d))
   \<and> raises_only (if totals_in_range d then {ValueError} else {ValueError, OverflowError}) (application_snapshot_encode (PDict d))"
proof (intro conjI)
  show "raises_only {ValueError} (category_value (PDict d) checkpoint category name)" by (intro raising) simp
  show "raises_only {ValueError} (final_snapshot_artifacts (PDict d))"
    unfolding final_snapshot_artifacts_def node_artifacts_def by (intro raising) auto
  show "raises_only {ValueError} (final_durable_snapshot_indexes (PDict d))"
    unfolding final_durable_snapshot_indexes_def by (intro raising) auto
  show "raises_only {ValueError} (final_application_artifacts (PDict d))"
    unfolding final_application_artifacts_def node_application_def node_files_def Let_def by (intro raising) auto
  show "raises_only {ValueError} (restart_ns (PDict d))"
    unfolding restart_ns_def by (intro raising) auto
  show "raises_only (if configuration_object d then {ValueError} else {ValueError, AttributeError}) (wal_allocated (PDict d) checkpoint)"
    "raises_only (if configuration_object d then {ValueError} else {ValueError, AttributeError}) (managed_raft_allocated (PDict d) checkpoint)"
    unfolding wal_allocated_def managed_raft_allocated_def allocated_def by (intro raising; simp)+
  show "raises_only (if activity_objects d then {ValueError} else {ValueError, AttributeError}) (compaction (PDict d))"
    by (rule compaction_raises) simp_all
qed (rule stages_raise; simp)+

text \<open>A case with a damaged count of compactions in an otherwise well-formed live receipt.\<close>

definition damaged_case :: pydict where
  "damaged_case = [kv ''configuration'' (PDict [kv ''hard_state'' (PStr ''wal'')]), kv ''snapshot_reclamation'' (PDict [
     kv ''nodes'' (PDict [kv ''1'' (PDict [kv ''measurement_compaction'' (PDict [kv ''samples'' (PStr ''many'')])])]),
     kv ''totals'' (PDict [kv ''application_snapshot_encode'' (PDict [kv ''samples'' (PInt 2), kv ''total_ns'' (PInt 700), kv ''max_upper_bound_ns'' PNone])])])]"

theorem readers_raise_value_error_witness:
  "configuration_object damaged_case \<and> activity_objects damaged_case \<and> totals_in_range damaged_case \<and>
   compaction (PDict damaged_case) = raiseE ValueError ''invalid measured-load compaction count'' \<and>
   application_snapshot_encode (PDict damaged_case) = raiseE ValueError ''incoherent application snapshot encode samples and maximum'' \<and>
   raises_only {ValueError} (wal_allocated (PDict damaged_case) ''after_load'') \<and> raises_only {ValueError} (compaction (PDict damaged_case)) \<and>
   raises_only {ValueError} (application_snapshot_encode (PDict damaged_case))"
proof -
  have "configuration_object damaged_case" "activity_objects damaged_case"
    "compaction (PDict damaged_case) = raiseE ValueError ''invalid measured-load compaction count''"
    "application_snapshot_encode (PDict damaged_case) = raiseE ValueError ''incoherent application snapshot encode samples and maximum''"
    by code_simp+
  moreover have "totals_in_range damaged_case"
    by (simp add: totals_in_range_def total_in_range_def damaged_case_def dict_get_def object_of_def)
  ultimately show ?thesis using readers_raise_value_error [of damaged_case] by simp
qed

end
