(* ===== verification/Case_Results.thy ===== *)
theory Case_Results
  imports Verify Load_Readings
begin

text \<open>
  The first part of \<open>src/benchctl/results.py\<close>: a case directory of a durable suite is verified and
  brought into the normal form that aggregation, comparison and the reclamation assessment read.
  The path of the case below the suite is its \<open>source_case\<close>.
\<close>

section \<open>Reading optional files\<close>

definition optional_json :: "world \<Rightarrow> fsnode \<Rightarrow> string \<Rightarrow> pyval res" where
  "optional_json w dir name = (if path_exists dir name then read_json w dir name else Inr PNone)"

definition final_snapshot_indexes :: "world \<Rightarrow> fsnode \<Rightarrow> pyval res" where
  "final_snapshot_indexes w dir =
     bindE (optional_json w dir ''after-final-restart.json'') (\<lambda>statuses. Inr (case statuses of
       PDict d \<Rightarrow> PDict (map (\<lambda>(node, status).
         (node, case item_path status [''info'', ''snapshot_compaction'', ''current_index''] of Inr v \<Rightarrow> v | Inl _ \<Rightarrow> PNone)) d)
     | _ \<Rightarrow> statuses))"

section \<open>Coverage messages of earlier runners\<close>

fun is_infix :: "string \<Rightarrow> string \<Rightarrow> bool" where
  "is_infix s [] = (s = [])"
| "is_infix s (c # cs) = (starts_with (c # cs) s \<or> is_infix s cs)"

text \<open>\<open>s in v\<close> and \<open>v.startswith(s)\<close>\<close>

definition py_contains :: "string \<Rightarrow> pyval \<Rightarrow> bool res" where
  "py_contains s v = (case v of
     PStr t \<Rightarrow> Inr (is_infix s t)
   | PList xs \<Rightarrow> Inr (py_in (PStr s) xs)
   | PDict d \<Rightarrow> Inr (map_of d (KStr s) \<noteq> None)
   | _ \<Rightarrow> raiseE TypeError (''argument of type '' @ quote (type_name v) @ '' is not iterable''))"

definition py_starts_with :: "pyval \<Rightarrow> string \<Rightarrow> bool res" where
  "py_starts_with v s = (case v of PStr t \<Rightarrow> Inr (starts_with t s) | _ \<Rightarrow> attr_error v ''startswith'')"

definition is_feature_coverage_failure :: "pyval \<Rightarrow> bool res" where
  "is_feature_coverage_failure v =
     bindE (get_or v ''error'' (PStr [])) (\<lambda>error.
     bindE (bindE (get_or v ''case'' (PStr [])) (\<lambda>c. py_starts_with c ''suite:'')) (\<lambda>suite.
     if \<not> suite then Inr False
     else anyE (\<lambda>s. py_contains s error) [''completion priority'', ''completion-priority'', ''combined peer/proposal'']))"

section \<open>Engine, configuration and environment\<close>

text \<open>\<open>_mode\<close>\<close>

definition mode_of :: "pyval \<Rightarrow> string res" where
  "mode_of options =
     bindE (get options ''pipelined_durability'') (\<lambda>p. if truthy p then Inr ''pipeline''
     else bindE (get options ''peer_message_stream'') (\<lambda>m. if truthy m then Inr ''messages''
     else bindE (get options ''ordered_apply'') (\<lambda>a. Inr (if truthy a then ''worker'' else ''inline''))))"

definition after_colon :: "string \<Rightarrow> string" where
  "after_colon line = drop 1 (dropWhile (\<lambda>c. c \<noteq> CHR '':'') line)"

definition sub_get :: "pyval \<Rightarrow> string \<Rightarrow> string \<Rightarrow> pyval \<Rightarrow> pyval res" where
  "sub_get v k l dflt = bindE (get_or v k (PDict [])) (\<lambda>u. get_or u l dflt)"

definition cpu_model :: "pyval \<Rightarrow> pyval res" where
  "cpu_model host = bindE (sub_get host ''cpu'' ''stdout'' (PStr [])) (\<lambda>v. case v of
     PStr s \<Rightarrow> Inr (case find (\<lambda>line. starts_with (strip line) ''Model name:'') (splitlines s) of
        Some line \<Rightarrow> PStr (strip (after_colon line)) | None \<Rightarrow> PNone)
   | _ \<Rightarrow> attr_error v ''splitlines'')"

definition load_text :: "world \<Rightarrow> pyval \<Rightarrow> pyval res" where
  "load_text w v = (case v of
     PStr s \<Rightarrow> loads w s
   | _ \<Rightarrow> raiseE TypeError (''the JSON object must be str, bytes or bytearray, not '' @ type_name v))"

text \<open>\<open>v[i]\<close> for an index that is not negative.\<close>

definition subscript :: "pyval \<Rightarrow> nat \<Rightarrow> pyval res" where
  "subscript v i = (case v of
     PList xs \<Rightarrow> if i < length xs then Inr (xs ! i) else raiseE IndexError ''list index out of range''
   | PStr s \<Rightarrow> if i < length s then Inr (PStr [s ! i]) else raiseE IndexError ''string index out of range''
   | PDict d \<Rightarrow> (case map_of d (KInt (int i)) of Some x \<Rightarrow> Inr x | None \<Rightarrow> raiseE KeyError (nat_str i))
   | _ \<Rightarrow> raiseE TypeError (quote (type_name v) @ '' object is not subscriptable''))"

definition case_filesystem :: "world \<Rightarrow> pyval \<Rightarrow> pyval res" where
  "case_filesystem w host =
     (let names = [''source'', ''fstype'', ''options''] in
      catchE {ValueError, KeyError, IndexError, TypeError}
        (bindE (bindE (sub_get host ''filesystem'' ''stdout'' (PStr ''{}'')) (load_text w)) (\<lambda>v.
         bindE (item v ''filesystems'') (\<lambda>rows. bindE (subscript rows 0) (\<lambda>row.
         bindE (mapE (\<lambda>name. bindE (get row name) (\<lambda>x. Inr (kv name x))) names) (\<lambda>d. Inr (PDict d))))))
        (\<lambda>_. Inr (PDict (map (\<lambda>name. kv name PNone) names))))"

definition environment_of :: "world \<Rightarrow> pyval \<Rightarrow> pyval res" where
  "environment_of w manifest =
     bindE (get_or manifest ''host'' (PDict [])) (\<lambda>host.
     bindE (get manifest ''topology'') (\<lambda>topology. bindE (get host ''platform'') (\<lambda>platform.
     bindE (get host ''machine'') (\<lambda>machine. bindE (get host ''logical_cpus'') (\<lambda>cpus.
     bindE (cpu_model host) (\<lambda>model. bindE (case_filesystem w host) (\<lambda>filesystem.
     bindE (get manifest ''source_digest'') (\<lambda>digest. bindE (get manifest ''loadgen_sha256'') (\<lambda>sha.
     Inr (PDict [kv ''topology'' topology, kv ''platform'' platform, kv ''machine'' machine, kv ''logical_cpus'' cpus, kv ''cpu_model'' model,
       kv ''filesystem'' filesystem, kv ''benchmark_source_digest'' digest, kv ''load_generator_sha256'' sha]))))))))))"

text \<open>\<open>pins.get(name, {})\<close> for a name of any type, and \<open>a or b\<close>.\<close>

definition get_key :: "pyval \<Rightarrow> pyval \<Rightarrow> pyval \<Rightarrow> pyval res" where
  "get_key v key dflt = (case v of
     PDict d \<Rightarrow> bindE (require_hashable key) (\<lambda>_. Inr (case key of PStr s \<Rightarrow> dict_get d s dflt | _ \<Rightarrow> dflt))
   | _ \<Rightarrow> attr_error v ''get'')"

definition py_or :: "pyval \<Rightarrow> pyval \<Rightarrow> pyval" where
  "py_or v w = (if truthy v then v else w)"

definition engine_of :: "pyval \<Rightarrow> pyval res" where
  "engine_of manifest =
     bindE (item manifest ''implementation'') (\<lambda>name.
     bindE (item manifest ''implementation_pins'') (\<lambda>pins. bindE (get_key pins name (PDict [])) (\<lambda>pin.
     bindE (get pin ''rev'') (\<lambda>rev. bindE (if truthy rev then Inr rev else get pin ''version'') (\<lambda>version.
     Inr (PDict [kv ''name'' name, kv ''version'' (py_or version (PStr ''unresolved''))]))))))"

definition display_name :: "pyval \<Rightarrow> pyval res" where
  "display_name manifest =
     bindE (item manifest ''implementation'') (\<lambda>engine.
     if \<not> py_eq engine (PStr ''rafter'') then
       (if py_eq engine (PStr ''openraft'') then bindE (sub_get manifest ''options'' ''openraft_async_flush'' PNone) (\<lambda>a.
          Inr (PStr (if truthy a then ''OpenRaft async flusher'' else ''OpenRaft synchronous'')))
        else bindE (require_hashable engine) (\<lambda>_. Inr engine))
     else bindE (bindE (get_or manifest ''options'' (PDict [])) mode_of) (\<lambda>mode.
       if mode = ''pipeline'' then bindE (sub_get manifest ''options'' ''durable_completion_priority'' (PBool False)) (\<lambda>p.
         Inr (PStr (if truthy p then ''Rafter pipeline + completion priority'' else ''Rafter pipeline FIFO'')))
       else Inr (PStr (if mode = ''messages'' then ''Rafter synchronous messages'' else if mode = ''worker'' then ''Rafter ordered worker'' else ''Rafter inline''))))"

text \<open>The rows of the workload: key, key of the measured configuration, key of the option.\<close>

definition workload_keys :: "(string \<times> string \<times> string) list" where
  "workload_keys = [(''offered_per_second'', ''rate'', ''rate''), (''payload_bytes'', ''payload_bytes'', ''payload''), (''concurrency'', ''concurrency'', ''concurrency''),
     (''read_percent'', ''read_percent'', ''read_percent''), (''cas_percent'', ''cas_percent'', ''cas_percent''), (''duration_seconds'', ''duration_seconds'', ''duration'')]"

definition workload_of :: "pyval \<Rightarrow> pyval \<Rightarrow> pyval res" where
  "workload_of manifest measurement =
     bindE (get_or manifest ''options'' (PDict [])) (\<lambda>options.
     bindE (get_or (py_or measurement (PDict [])) ''config'' (PDict [])) (\<lambda>config.
     bindE (get manifest ''scenario'') (\<lambda>scenario.
     bindE (mapE (\<lambda>(name, k, l). bindE (get options l) (\<lambda>dflt. bindE (get_or config k dflt) (\<lambda>v. Inr (kv name v)))) workload_keys) (\<lambda>rows.
     bindE (get options ''warmup'') (\<lambda>warmup. bindE (get_or options ''network_delay_ms'' (PInt 0)) (\<lambda>delay.
     bindE (get_or options ''snapshot_interval_entries'' (PInt 0)) (\<lambda>interval.
     Inr (PDict ([kv ''scenario'' scenario] @ rows @ [kv ''warmup_seconds'' warmup, kv ''network_delay_ms'' delay, kv ''snapshot_interval_entries'' interval])))))))))"

definition flag_of :: "pyval \<Rightarrow> string \<Rightarrow> (pykey \<times> pyval) res" where
  "flag_of options name = bindE (get_or options name (PBool False)) (\<lambda>v. Inr (kv name (PBool (truthy v))))"

definition configuration_of :: "pyval \<Rightarrow> pyval \<Rightarrow> pyval \<Rightarrow> pyval res" where
  "configuration_of manifest options build_receipt =
     bindE (item manifest ''implementation'') (\<lambda>engine.
     let rafter = py_eq engine (PStr ''rafter'') in
     bindE (get_or options ''variant'' engine) (\<lambda>variant.
     bindE (if rafter then mode_of options else Inr ''public_api'') (\<lambda>mode.
     bindE (if rafter then get build_receipt ''rafter_hard_state_backend'' else Inr (PStr ''adapter_journal'')) (\<lambda>hard_state.
     bindE (mapE (\<lambda>(name, k, dflt). bindE (get_or options k dflt) (\<lambda>v. Inr (kv name v)))
       [(''peer_batch_size'', ''peer_batch_size'', PInt 1), (''client_batch_size'', ''batch_size'', PNone),
        (''max_speculative_proposals'', ''max_speculative_proposals'', PInt 1), (''max_inflight_appends'', ''max_inflight_appends'', PInt 8)]) (\<lambda>limits.
     bindE (mapE (flag_of options) [''combine_peer_proposals'', ''durable_completion_priority'', ''openraft_async_flush'']) (\<lambda>flags.
     bindE (mapE (\<lambda>(k, dflt). bindE (get_or options k dflt) (\<lambda>v. Inr (kv k v)))
       [(''snapshot_interval_entries'', PInt 0), (''application_checkpoint_bytes'', PInt DEFAULT_APPLICATION_CHECKPOINT_BYTES), (''wal_reclamation_bytes'', PNone)]) (\<lambda>bytes.
     Inr (PDict ([kv ''variant'' variant, kv ''mode'' (PStr mode), kv ''hard_state'' hard_state] @ limits @ flags @ bytes)))))))))"

section \<open>The normal form of a case\<close>

definition metric_sources :: "(string \<times> string \<times> string) list" where
  "metric_sources = [(''client_p99_ms'', ''success_latency'', ''p99_ms''), (''client_p999_ms'', ''success_latency'', ''p999_ms''),
     (''execution_p99_ms'', ''success_execution_latency'', ''p99_ms''), (''execution_p999_ms'', ''success_execution_latency'', ''p999_ms''),
     (''client_start_p99_ms'', ''worker_start_lateness'', ''p99_ms''), (''scheduler_dispatch_p99_ms'', ''scheduler_lateness'', ''p99_ms''),
     (''scheduler_dispatch_p999_ms'', ''scheduler_lateness'', ''p999_ms'')]"

definition normal_metrics :: "pyval \<Rightarrow> pyval res" where
  "normal_metrics measurement = (if measurement = PNone then Inr PNone else
     bindE (get measurement ''successful_ops_per_second'') (\<lambda>throughput.
     bindE (mapE (\<lambda>(name, k, l). bindE (sub_get measurement k l PNone) (\<lambda>v. Inr (kv name v))) metric_sources) (\<lambda>rows.
     Inr (PDict (kv ''throughput_ops_s'' throughput # rows)))))"

definition normal_accounting :: "pyval \<Rightarrow> pyval res" where
  "normal_accounting measurement = (if measurement = PNone then Inr PNone else
     bindE (mapE (\<lambda>k. bindE (get measurement k) (\<lambda>v. Inr (kv k v)))
       [''offered'', ''attempted'', ''ok'', ''completed_in_window'', ''errors'', ''unknown'', ''not_issued'']) (\<lambda>d. Inr (PDict d)))"

definition METRIC_DEFINITIONS :: pydict where
  "METRIC_DEFINITIONS =
     [kv ''throughput_ops_s'' (PStr ''successful logical operations completed inside the measurement window per second''),
      kv ''client_p99_ms'' (PStr ''scheduled arrival to successful client completion; upper-bound histogram p99''),
      kv ''client_p999_ms'' (PStr ''scheduled arrival to successful client completion; upper-bound histogram p99.9''),
      kv ''execution_p99_ms'' (PStr ''client request start to successful completion; upper-bound histogram p99''),
      kv ''execution_p999_ms'' (PStr ''client request start to successful completion; upper-bound histogram p99.9''),
      kv ''client_start_p99_ms'' (PStr ''scheduled arrival to client request start; upper-bound histogram p99''),
      kv ''scheduler_dispatch_p99_ms'' (PStr ''scheduled arrival to load-generator dispatch attempt; upper-bound histogram p99''),
      kv ''scheduler_dispatch_p999_ms'' (PStr ''scheduled arrival to load-generator dispatch attempt; upper-bound histogram p99.9''),
      kv ''aggregate'' (PStr ''median of per-repetition values; percentiles are not pooled'')]"

text \<open>The errors of a case: those of its verification, and a measurement with another completion
  boundary.\<close>

definition case_errors :: "pydict \<Rightarrow> pyval \<Rightarrow> pyval list res" where
  "case_errors checked measurement =
     bindE (iter_of (dict_get checked ''errors'' (PList []))) (\<lambda>errors.
     bindE (if measurement = PNone then Inr False else bindE (get measurement ''contract'') (\<lambda>c. Inr (\<not> py_eq c (PStr CONTRACT)))) (\<lambda>other.
     Inr (errors @ (if other then [PStr ''unsupported service completion boundary''] else []))))"

definition case_qualification :: "pyval \<Rightarrow> pyval list \<Rightarrow> pyval" where
  "case_qualification status errors = PStr (if py_eq status (PStr ''passed'') \<and> errors = [] then ''passed'' else ''failed'')"

definition default_verdicts :: "pyval \<Rightarrow> pyval list \<Rightarrow> pyval" where
  "default_verdicts qualification errors =
     (let verdict = PDict [kv ''status'' qualification, kv ''errors'' (PList errors)] in
      PDict [kv ''evidence_integrity'' verdict, kv ''correctness_checks'' verdict])"

text \<open>\<open>_normalize_case\<close>: the case directory and its path below the suite.\<close>

definition normalize_case :: "world \<Rightarrow> fsnode \<Rightarrow> string \<Rightarrow> pydict res" where
  "normalize_case w dir source_case =
     bindE (read_json w dir ''manifest.json'') (\<lambda>manifest.
     bindE (optional_json w dir ''measurement.json'') (\<lambda>measurement.
     bindE (verify w dir) (\<lambda>checked.
     bindE (get_or manifest ''options'' (PDict [])) (\<lambda>options.
     bindE (case_errors checked measurement) (\<lambda>errors.
     bindE (item (PDict checked) ''status'') (\<lambda>status.
     let qualification = case_qualification status errors in
     bindE (normal_metrics measurement) (\<lambda>metrics. bindE (normal_accounting measurement) (\<lambda>accounting.
     bindE (get manifest ''build_receipt'') (\<lambda>build_receipt.
     bindE (optional_json w dir ''load-environment.json'') (\<lambda>load_environment.
     bindE (engine_of manifest) (\<lambda>engine. bindE (display_name manifest) (\<lambda>name.
     bindE (configuration_of manifest options (py_or build_receipt (PDict []))) (\<lambda>configuration.
     bindE (workload_of manifest measurement) (\<lambda>workload.
     bindE (get_or (py_or measurement (PDict [])) ''contract'' (PStr CONTRACT)) (\<lambda>boundary.
     bindE (environment_of w manifest) (\<lambda>environment.
     bindE (get options ''diagnostics'') (\<lambda>diagnostics. bindE (get options ''seed'') (\<lambda>seed. bindE (get manifest ''smoke'') (\<lambda>smoke.
     bindE (optional_json w dir ''recovery.json'') (\<lambda>recovery. bindE (final_snapshot_indexes w dir) (\<lambda>indexes.
     bindE (optional_json w dir ''qualification.json'') (\<lambda>history. bindE (optional_json w dir ''snapshot-compaction-activity.json'') (\<lambda>reclamation.
     bindE (optional_json w dir ''storage-footprint.json'') (\<lambda>footprint.
     Inr [kv ''layer'' (PStr ''complete_service''), kv ''source_case'' (PStr source_case), kv ''engine'' engine, kv ''display_name'' name,
       kv ''configuration'' configuration, kv ''workload'' workload, kv ''completion_boundary'' boundary, kv ''environment'' environment,
       kv ''measurement_mode'' (PStr (if truthy diagnostics then ''diagnostic'' else ''timing'')), kv ''metric_definitions'' (PDict METRIC_DEFINITIONS),
       kv ''repetition'' seed, kv ''smoke'' (PBool (truthy smoke)), kv ''qualification'' qualification, kv ''qualification_errors'' (PList errors),
       kv ''verdicts'' (dict_get checked ''verdicts'' (default_verdicts qualification errors)),
       kv ''metrics'' metrics, kv ''accounting'' accounting, kv ''load_environment'' load_environment, kv ''recovery'' recovery,
       kv ''final_snapshot_indexes'' indexes, kv ''history_check'' history, kv ''snapshot_reclamation'' reclamation,
       kv ''storage_footprint'' footprint]))))))))))))))))))))))))"

section \<open>What a normalised case says of its directory\<close>

lemma normalize_case_Inr:
  assumes "normalize_case w dir name = Inr c"
  obtains manifest checked dflt where "read_json w dir ''manifest.json'' = Inr manifest" "verify w dir = Inr checked"
    "map_of c (KStr ''verdicts'') = Some (dict_get checked ''verdicts'' dflt)" "map_of c (KStr ''source_case'') = Some (PStr name)"
  using assms unfolding normalize_case_def Let_def by (clarsimp simp del: py_eq.simps)

lemma report_clean:
  assumes "item_path (PDict (verify_report_of s)) [''verdicts'', ''evidence_integrity'', ''status''] = Inr (PStr ''passed'')"
    "item_path (PDict (verify_report_of s)) [''verdicts'', ''correctness_checks'', ''status''] = Inr (PStr ''passed'')"
  shows "vs_integrity s = [] \<and> vs_correctness s = []"
  using assms by (simp add: item_path_def verify_report_of_def Let_def item_def errors_object_def status_of_def split: if_splits)

text \<open>A report on something other than a case: it has verdicts, but no passed correctness check.\<close>

definition other_report :: "pydict \<Rightarrow> bool" where
  "other_report r \<longleftrightarrow> map_of r (KStr ''verdicts'') \<noteq> None \<and> item_path (PDict r) [''verdicts'', ''correctness_checks'', ''status''] \<noteq> Inr (PStr ''passed'')"

lemma profile_report_verdicts: "profile_report verdict es = Inr r \<Longrightarrow> other_report r"
  by (auto simp: profile_report_def other_report_def item_path_def item_def)

lemma verify_profile_verdicts: "verify_profile w dir s = (Inr x, t) \<Longrightarrow> \<exists>r. x = Some r \<and> other_report r"
  unfolding verify_profile_def by (auto elim!: bindA_InrE dest!: profile_report_verdicts simp del: py_eq.simps)

lemma verify_micro_verdicts: "verify_micro w dir s = (Inr x, t) \<Longrightarrow> \<exists>r. x = Some r \<and> other_report r"
  unfolding verify_micro_def by (auto elim!: bindA_InrE simp: other_report_def item_path_def item_def)

lemma verify_body_other:
  assumes "verify_body w dir u = (Inr (Some r), s)" shows "other_report r"
  using assms unfolding verify_body_def
  by (auto elim!: bindA_InrE split: if_splits dest!: verify_profile_verdicts verify_micro_verdicts)

text \<open>Both verdicts passed: the directory was verified as a benchmark case, without any error.\<close>

lemma verify_both_passed:
  assumes "verify w dir = Inr checked"
    "item_path (PDict checked) [''verdicts'', ''evidence_integrity'', ''status''] = Inr (PStr ''passed'')"
    "item_path (PDict checked) [''verdicts'', ''correctness_checks'', ''status''] = Inr (PStr ''passed'')"
  shows "dict_get checked ''status'' PNone = PStr ''passed'' \<and> \<not> path_exists dir ''machine-profile.json'' \<and> \<not> path_exists dir ''provenance.json''"
proof -
  obtain x s where b: "verify_body w dir no_errors = (x, s)" by (cases "verify_body w dir no_errors")
  have "x = Inr None \<and> checked = verify_report_of s"
  proof (cases x)
    case (Inl e)
    then have "checked = verify_report_of (verify_exception e s)" using assms(1) b by (auto simp: verify_def split: if_splits)
    then have False using report_clean [of "verify_exception e s"] assms(2,3) by (auto simp: verify_exception_def split: if_splits)
    then show ?thesis ..
  next
    case (Inr y)
    show ?thesis
    proof (cases y)
      case (Some r)
      then have r: "checked = r" using assms(1) b Inr by (simp add: verify_def)
      have "other_report r" using verify_body_other b Inr Some by blast
      then have False using assms(3) r by (simp add: other_report_def)
      then show ?thesis ..
    qed (use assms(1) b Inr in \<open>simp add: verify_def\<close>)
  qed
  then have c: "x = Inr None" "checked = verify_report_of s" by simp_all
  have n: "vs_integrity s = [] \<and> vs_correctness s = []" using report_clean assms(2,3) unfolding c(2) by blast
  have "\<not> path_exists dir ''machine-profile.json'' \<and> \<not> path_exists dir ''provenance.json''"
    using b unfolding verify_body_def c(1) by (auto elim!: bindA_InrE split: if_splits dest!: verify_profile_verdicts verify_micro_verdicts)
  then show ?thesis using n by (simp add: c(2) verify_report_of_def dict_get_def status_of_def)
qed

lemma verify_has_verdicts: assumes "verify w dir = Inr checked" shows "map_of checked (KStr ''verdicts'') \<noteq> None"
proof -
  have "map_of (verify_report_of s) (KStr ''verdicts'') \<noteq> None" for s by (simp add: verify_report_of_def Let_def)
  then show ?thesis using assms verify_body_other [of w dir no_errors]
    by (auto simp: verify_def other_report_def split: prod.splits sum.splits option.splits if_splits)
qed

text \<open>A normalised case with both verdicts passed.\<close>

definition verified_case_dir :: "world \<Rightarrow> fsnode \<Rightarrow> bool" where
  "verified_case_dir w dir \<longleftrightarrow> (\<exists>checked. verify w dir = Inr checked \<and> dict_get checked ''status'' PNone = PStr ''passed'') \<and>
     \<not> path_exists dir ''machine-profile.json'' \<and> \<not> path_exists dir ''provenance.json''"

definition verdict_of :: "pydict \<Rightarrow> string \<Rightarrow> pyval res" where
  "verdict_of c kind = item_path (PDict c) [''verdicts'', kind, ''status'']"

lemma normalized_passed:
  assumes "normalize_case w dir name = Inr c" "verdict_of c ''evidence_integrity'' = Inr (PStr ''passed'')" "verdict_of c ''correctness_checks'' = Inr (PStr ''passed'')"
  shows "verified_case_dir w dir"
proof -
  obtain checked dflt where v: "verify w dir = Inr checked" "map_of c (KStr ''verdicts'') = Some (dict_get checked ''verdicts'' dflt)"
    using assms(1) by (rule normalize_case_Inr)
  then have "item (PDict c) ''verdicts'' = item (PDict checked) ''verdicts''"
    using verify_has_verdicts [OF v(1)] by (auto simp: item_def dict_get_def)
  then have "item_path (PDict checked) [''verdicts'', k, ''status''] = verdict_of c k" for k by (simp add: verdict_of_def item_path_def)
  then show ?thesis using verify_both_passed [OF v(1)] assms(2,3) v(1) by (auto simp: verified_case_dir_def)
qed

end
