(* ===== verification/Load_Assessment.thy ===== *)
theory Load_Assessment
  imports Case_Results
begin

text \<open>
  The assessment of \<open>src/benchctl/reclamation_load.py\<close>: snapshot-aware candidates against the
  no-snapshot control of the same seed, at every rate and repetition. Failures are collected in
  four categories and the suite passes when all are empty. Cases are grouped in dictionaries whose
  keys are tuples of values (\<open>pyval list\<close>); a lookup compares them by \<open>==\<close>.
\<close>

section \<open>Objective\<close>

definition fixed_load_percent :: pyfloat where
  "fixed_load_percent = Fl 99"

definition saturated_ratio :: pyfloat where
  "saturated_ratio = fl (95 / 100)"

definition tail_ratio :: pyfloat where
  "tail_ratio = fl (11 / 10)"

definition objective_with :: "string \<Rightarrow> pydict" where
  "objective_with artifact_bound =
     [kv ''minimum_fixed_load_achieved_percent'' (PFloat fixed_load_percent),
      kv ''minimum_saturated_throughput_ratio'' (PFloat saturated_ratio),
      kv ''maximum_equal_load_p99_regression_ratio'' (PFloat tail_ratio),
      kv ''maximum_equal_load_p99_absolute_regression_ms'' (PFloat (Fl 1)),
      kv ''maximum_equal_load_p999_regression_ratio'' (PFloat tail_ratio),
      kv ''maximum_equal_load_p999_absolute_regression_ms'' (PFloat (Fl 2)),
      kv ''loss_counts'' (PDict [kv ''errors'' (PInt 0), kv ''unknown'' (PInt 0), kv ''not_issued'' (PInt 0)]),
      kv ''reclamation_activity'' (PStr ''at least one measured-load compaction per snapshot arm and repetition''),
      kv ''managed_raft_allocation'' (PStr (''post-load and post-restart WAL plus snapshot allocated bytes below the same-seed '' @ ''no-snapshot control'')),
      kv ''snapshot_artifact_bound'' (PStr artifact_bound),
      kv ''application_journal'' (PStr (''post-load and post-restart allocated bytes below the same-seed no-snapshot control; ''
        @ ''one authoritative journal and no checkpoint temporary per node after restart''))]"

definition RECLAMATION_OBJECTIVE :: pydict where
  "RECLAMATION_OBJECTIVE = objective_with (''after final restart, exactly one selected snapshot envelope and manifest for each ''
     @ ''node with a positive durable snapshot index, none before its first snapshot, and no '' @ ''temporary snapshot artifacts'')"

definition LEGACY_OBJECTIVE :: pydict where
  "LEGACY_OBJECTIVE = objective_with (''after final restart, exactly one selected snapshot envelope and manifest per node, ''
     @ ''with no temporary snapshot artifacts'')"

definition SCOPE :: string where
  "SCOPE = ''same exact Rafter revision and durable service configuration; only the ''
     @ ''application-snapshot/WAL-reclamation interval changes. Snapshot intervals are not ''
     @ ''retained-log suffix sizes. Managed Raft bytes include WAL data and metadata plus ''
     @ ''snapshot data and metadata. Reported maintenance maxima cover Raft snapshot ''
     @ ''publication, WAL compaction, bounded retired-log handoff, snapshot pruning, and ''
     @ ''bounded size-triggered application-journal checkpointing after application snapshot ''
     @ ''encoding; application snapshot encoding is reported separately, and accepted ''
     @ ''background log destruction is outside those maxima.''"

definition CURRENT_SCOPE :: string where
  "CURRENT_SCOPE = SCOPE @ '' Final snapshot artifacts are checked per node against its durable snapshot index; ''
     @ ''zero files are correct only before that node's staggered first snapshot boundary.''"

section \<open>Grouping the cases\<close>

fun filterE :: "('a \<Rightarrow> bool res) \<Rightarrow> 'a list \<Rightarrow> 'a list res" where
  "filterE p [] = Inr []"
| "filterE p (x # xs) = bindE (p x) (\<lambda>b. bindE (filterE p xs) (\<lambda>ys. Inr (if b then x # ys else ys)))"

text \<open>\<open>not case.get("smoke") and case.get("measurement_mode") == mode\<close>\<close>

definition in_mode :: "string \<Rightarrow> pyval \<Rightarrow> bool res" where
  "in_mode mode c = bindE (get c ''smoke'') (\<lambda>s. if truthy s then Inr False else bindE (get c ''measurement_mode'') (\<lambda>m. Inr (py_eq m (PStr mode))))"

definition mode_cases :: "string \<Rightarrow> pyval \<Rightarrow> pyval list res" where
  "mode_cases mode data = bindE (bindE (get_or data ''cases'' (PList [])) iter_of) (filterE (in_mode mode))"

definition timing_cases :: "pyval \<Rightarrow> pyval list res" where
  "timing_cases data = mode_cases ''timing'' data"

type_synonym case_groups = "(pyval list \<times> pyval list) list"

definition tuple_eq :: "pyval list \<Rightarrow> pyval list \<Rightarrow> bool" where
  "tuple_eq = list_all2 py_eq"

fun add_case :: "pyval list \<Rightarrow> pyval \<Rightarrow> case_groups \<Rightarrow> case_groups" where
  "add_case k c [] = [(k, [c])]"
| "add_case k c ((l, cs) # gs) = (if tuple_eq l k then (l, cs @ [c]) # gs else (l, cs) # add_case k c gs)"

definition diagnostic_key :: "pyval \<Rightarrow> pyval list res" where
  "diagnostic_key c = bindE (item_path c [''configuration'', ''variant'']) (\<lambda>variant. bindE (item_path c [''workload'', ''offered_per_second'']) (\<lambda>rate. Inr [variant, rate]))"

definition timing_key :: "pyval \<Rightarrow> pyval list res" where
  "timing_key c = bindE (diagnostic_key c) (\<lambda>k. bindE (item c ''repetition'') (\<lambda>r. Inr (k @ [r])))"

definition group_step :: "(pyval \<Rightarrow> pyval list res) \<Rightarrow> case_groups \<Rightarrow> pyval \<Rightarrow> case_groups res" where
  "group_step key gs c = bindE (key c) (\<lambda>k. bindE (mapE require_hashable k) (\<lambda>_. Inr (add_case k c gs)))"

definition group_cases :: "(pyval \<Rightarrow> pyval list res) \<Rightarrow> pyval list \<Rightarrow> case_groups res" where
  "group_cases key cs = foldE (group_step key) [] cs"

text \<open>\<open>grouped.get(key, [])\<close>\<close>

definition group_get :: "case_groups \<Rightarrow> pyval list \<Rightarrow> pyval list res" where
  "group_get gs k = bindE (mapE require_hashable k) (\<lambda>_.
     Inr (case find (\<lambda>(l, _). tuple_eq l k) gs of Some (_, cs) \<Rightarrow> cs | None \<Rightarrow> []))"

section \<open>Arms\<close>

definition has_role :: "pyval \<Rightarrow> string \<Rightarrow> bool res" where
  "has_role arm role = bindE (subscript arm 3) (\<lambda>r. Inr (py_eq r (PStr role)))"

definition is_prior :: "pyval \<Rightarrow> bool res" where
  "is_prior arm = bindE (py_len arm) (\<lambda>n. if 4 \<le> n then has_role arm ''prior'' else Inr False)"

definition is_candidate :: "pyval \<Rightarrow> bool res" where
  "is_candidate arm = bindE (py_len arm) (\<lambda>n. if n = 8 then has_role arm ''candidate'' else Inr False)"

text \<open>\<open>next(arm for arm in arms if arm[0] == prior)\<close>\<close>

fun labelled_arm :: "pyval \<Rightarrow> pyval list \<Rightarrow> pyval res" where
  "labelled_arm label [] = raiseE StopIteration []"
| "labelled_arm label (arm # arms) = bindE (subscript arm 0) (\<lambda>l. if py_eq l label then Inr arm else labelled_arm label arms)"

definition snapshot_disabled :: "pyval \<Rightarrow> bool res" where
  "snapshot_disabled arm = bindE (py_len arm) (\<lambda>n. if n \<noteq> 8 then Inr False else bindE (subscript arm 7) (\<lambda>v. Inr (py_eq v (PInt 0))))"

section \<open>Failures\<close>

record failures =
  f_evidence :: "pyval list"
  f_service :: "pyval list"
  f_activity :: "pyval list"
  f_physical :: "pyval list"

definition no_failures :: failures where
  "no_failures = \<lparr>f_evidence = [], f_service = [], f_activity = [], f_physical = []\<rparr>"

definition add_evidence :: "string list \<Rightarrow> failures \<Rightarrow> failures" where
  "add_evidence ms f = f\<lparr>f_evidence := f_evidence f @ map PStr ms\<rparr>"

definition add_service :: "string list \<Rightarrow> failures \<Rightarrow> failures" where
  "add_service ms f = f\<lparr>f_service := f_service f @ map PStr ms\<rparr>"

definition add_activity :: "string list \<Rightarrow> failures \<Rightarrow> failures" where
  "add_activity ms f = f\<lparr>f_activity := f_activity f @ map PStr ms\<rparr>"

definition add_physical :: "string list \<Rightarrow> failures \<Rightarrow> failures" where
  "add_physical ms f = f\<lparr>f_physical := f_physical f @ map PStr ms\<rparr>"

text \<open>\<open>try: x = r except ValueError as error: x = dflt; append(str(error))\<close>\<close>

definition try_value :: "'a \<Rightarrow> 'a res \<Rightarrow> ('a \<times> string list) res" where
  "try_value dflt r = catchE {ValueError} (bindE r (\<lambda>x. Inr (x, []))) (\<lambda>e. Inr (dflt, [str_of e]))"

definition message_if :: "bool \<Rightarrow> string \<Rightarrow> string list" where
  "message_if b m = (if b then [m] else [])"

section \<open>One pair: service\<close>

text \<open>The configuration apart from what may differ between the arms.\<close>

definition setup_of :: "pyval \<Rightarrow> pyval res" where
  "setup_of c = bindE (bindE (get_or c ''configuration'' (PDict [])) items) (\<lambda>d.
     Inr (PDict (filter (\<lambda>(k, _). k \<noteq> KStr ''variant'' \<and> k \<noteq> KStr ''snapshot_interval_entries'') d)))"

definition same_setup :: "pyval \<Rightarrow> pyval \<Rightarrow> bool res" where
  "same_setup control candidate =
     bindE (setup_of control) (\<lambda>a. bindE (setup_of candidate) (\<lambda>b.
     bindE (get control ''engine'') (\<lambda>x. bindE (get candidate ''engine'') (\<lambda>y. Inr (py_eq x y \<and> py_eq a b)))))"

definition LOSSES :: "(string \<times> string) list" where
  "LOSSES = [(''errors'', ''errors''), (''unknown'', ''unknown outcomes''), (''not_issued'', ''unsent requests'')]"

definition loss_failures :: "string \<Rightarrow> pyval \<Rightarrow> string list res" where
  "loss_failures label accounting =
     bindE (mapE (\<lambda>(name, description). bindE (item accounting name) (\<lambda>n.
       Inr (message_if (truthy n) (label @ '' had '' @ py_str n @ '' '' @ description)))) LOSSES) (\<lambda>ms. Inr (concat ms))"

definition achieved_percent :: "pyval \<Rightarrow> pyval \<Rightarrow> pyfloat res" where
  "achieved_percent rate c = bindE (item_path c [''metrics'', ''throughput_ops_s'']) (\<lambda>t. bindE (py_div t rate) (\<lambda>x. Inr (f_mul x (Fl 100))))"

definition load_failures :: "string \<Rightarrow> pyval \<Rightarrow> pyval \<Rightarrow> string list res" where
  "load_failures label rate c =
     bindE (py_gt rate (PInt 0)) (\<lambda>fixed.
     if \<not> fixed then Inr []
     else bindE (achieved_percent rate c) (\<lambda>achieved.
       Inr (message_if (f_lt achieved fixed_load_percent) (label @ '' achieved only '' @ fixed3 achieved @ ''% of offered load''))))"

text \<open>\<open>case.get("qualification") == "passed" and case.get("metrics") is not None\<close>\<close>

definition source_passed :: "pyval \<Rightarrow> bool res" where
  "source_passed c =
     bindE (get c ''qualification'') (\<lambda>q. if \<not> py_eq q (PStr ''passed'') then Inr False else bindE (get c ''metrics'') (\<lambda>m. Inr (m \<noteq> PNone)))"

definition source_failures :: "string \<Rightarrow> pyval \<Rightarrow> pyval \<Rightarrow> string list res" where
  "source_failures label rate c =
     bindE (source_passed c) (\<lambda>ok.
     if \<not> ok then Inr [label @ '' source case did not pass'']
     else bindE (bindE (item c ''accounting'') (loss_failures label)) (\<lambda>losses.
       bindE (load_failures label rate c) (\<lambda>loads. Inr (losses @ loads))))"

definition case_metrics :: "pyval \<Rightarrow> pyval res" where
  "case_metrics c = bindE (get c ''metrics'') (\<lambda>m. Inr (if truthy m then m else PDict []))"

definition is_number :: "pyval \<Rightarrow> bool" where
  "is_number v = (case v of PInt _ \<Rightarrow> True | PFloat _ \<Rightarrow> True | _ \<Rightarrow> False)"

definition comparable :: "pyval \<Rightarrow> pyval \<Rightarrow> bool res" where
  "comparable control candidate =
     bindE (anyE (\<lambda>(metrics, name). bindE (get metrics name) (\<lambda>v. Inr (\<not> is_number v)))
       (List.product [control, candidate] [''throughput_ops_s'', ''client_p99_ms'', ''client_p999_ms''])) (\<lambda>bad. Inr (\<not> bad))"

definition throughput_ratio :: "bool \<Rightarrow> pyval \<Rightarrow> pyval \<Rightarrow> pyfloat res" where
  "throughput_ratio comparable_metrics control candidate =
     bindE (if comparable_metrics then bindE (item control ''throughput_ops_s'') (\<lambda>t. py_gt t (PInt 0)) else Inr False) (\<lambda>ok.
     if ok then bindE (item candidate ''throughput_ops_s'') (\<lambda>a. bindE (item control ''throughput_ops_s'') (py_div a)) else Inr (Fl 0))"

definition tail_regression :: "bool \<Rightarrow> pyval \<Rightarrow> pyval \<Rightarrow> string \<Rightarrow> pyval res" where
  "tail_regression comparable_metrics control candidate name =
     (if comparable_metrics then bindE (item candidate name) (\<lambda>a. bindE (item control name) (py_sub a)) else Inr (PFloat (Fl 0)))"

definition tail_limit :: "pyval \<Rightarrow> pyfloat \<Rightarrow> pyfloat \<Rightarrow> pyval res" where
  "tail_limit control ratio absolute_ms =
     bindE (py_mul control (PFloat (f_sub ratio (Fl 1)))) (\<lambda>d. bindE (py_max2 d (PFloat absolute_ms)) (py_add control))"

definition exceeds_limit :: "pyval \<Rightarrow> pyval \<Rightarrow> string \<Rightarrow> pyfloat \<Rightarrow> bool res" where
  "exceeds_limit control_value candidate name absolute_ms =
     bindE (item_path candidate [''metrics'', name]) (\<lambda>a. bindE (tail_limit control_value tail_ratio absolute_ms) (py_gt a))"

definition saturation_failures :: "string \<Rightarrow> pyval \<Rightarrow> pyfloat \<Rightarrow> string list" where
  "saturation_failures variant rate ratio =
     message_if (py_eq rate (PInt 0) \<and> f_lt ratio saturated_ratio) (variant @ '' retained only '' @ fixed3 ratio @ '' of saturated throughput'')"

definition tail_failures :: "string \<Rightarrow> pyval \<Rightarrow> pyval \<Rightarrow> string list res" where
  "tail_failures variant control candidate =
     bindE (item_path control [''metrics'', ''client_p99_ms'']) (\<lambda>p99. bindE (item_path control [''metrics'', ''client_p999_ms'']) (\<lambda>p999.
     bindE (exceeds_limit p99 candidate ''client_p99_ms'' (Fl 1)) (\<lambda>a. bindE (exceeds_limit p999 candidate ''client_p999_ms'' (Fl 2)) (\<lambda>b.
     Inr (message_if a (variant @ '' p99 exceeded the equal-load regression budget'')
       @ message_if b (variant @ '' p99.9 exceeded the equal-load regression budget''))))))"

text \<open>The checks against the control run only while the pair has no failure.\<close>

definition pair_failures :: "string \<Rightarrow> pyval \<Rightarrow> pyval \<Rightarrow> pyval \<Rightarrow> pyfloat \<Rightarrow> string list \<Rightarrow> string list res" where
  "pair_failures variant rate control candidate ratio sources =
     (let so_far = sources @ (if sources = [] then saturation_failures variant rate ratio else []) in
      bindE (py_gt rate (PInt 0)) (\<lambda>fixed.
      if fixed \<and> so_far = [] then tail_failures variant control candidate else Inr so_far))"

section \<open>One pair: storage\<close>

record physical =
  control_wal :: int
  candidate_wal :: int
  control_snapshot :: int
  candidate_snapshot :: int
  control_managed :: int
  candidate_managed :: int
  control_final_managed :: int
  candidate_final_managed :: int
  control_application :: int
  candidate_application :: int
  control_final_application :: int
  candidate_final_application :: int
  artifacts_by_node :: "(string \<times> snapshot_artifacts) list"
  indexes_by_node :: "(string \<times> int) list option"
  application_by_node :: "(string \<times> application_artifacts) list"

definition no_physical :: physical where
  "no_physical = \<lparr>control_wal = 0, candidate_wal = 0, control_snapshot = 0, candidate_snapshot = 0, control_managed = 0, candidate_managed = 0,
     control_final_managed = 0, candidate_final_managed = 0, control_application = 0, candidate_application = 0, control_final_application = 0,
     candidate_final_application = 0, artifacts_by_node = [], indexes_by_node = None, application_by_node = []\<rparr>"

text \<open>The same quantity of the control and of the candidate.\<close>

definition both :: "(pyval \<Rightarrow> 'a res) \<Rightarrow> pyval \<Rightarrow> pyval \<Rightarrow> ('a \<times> 'a) res" where
  "both f control candidate = bindE (f control) (\<lambda>a. bindE (f candidate) (\<lambda>b. Inr (a, b)))"

definition read_physical :: "int \<Rightarrow> pyval \<Rightarrow> pyval \<Rightarrow> physical res" where
  "read_physical schema control candidate =
     bindE (both (\<lambda>c. wal_allocated c ''after_measurement'') control candidate) (\<lambda>(w1, w2).
     bindE (both (\<lambda>c. allocated c ''raft_snapshot_data'' ''after_measurement'') control candidate) (\<lambda>(s1, s2).
     bindE (both (\<lambda>c. managed_raft_allocated c ''after_measurement'') control candidate) (\<lambda>(m1, m2).
     bindE (both (\<lambda>c. managed_raft_allocated c ''after_final_restart'') control candidate) (\<lambda>(n1, n2).
     bindE (both (\<lambda>c. allocated c ''application_journal'' ''after_measurement'') control candidate) (\<lambda>(a1, a2).
     bindE (both (\<lambda>c. allocated c ''application_journal'' ''after_final_restart'') control candidate) (\<lambda>(b1, b2).
     bindE (final_snapshot_artifacts candidate) (\<lambda>artifacts.
     bindE (if 2 \<le> schema then bindE (final_durable_snapshot_indexes candidate) (\<lambda>i. Inr (Some i)) else Inr None) (\<lambda>indexes.
     bindE (final_application_artifacts candidate) (\<lambda>application.
     Inr \<lparr>control_wal = w1, candidate_wal = w2, control_snapshot = s1, candidate_snapshot = s2, control_managed = m1, candidate_managed = m2,
       control_final_managed = n1, candidate_final_managed = n2, control_application = a1, candidate_application = a2,
       control_final_application = b1, candidate_final_application = b2, artifacts_by_node = artifacts, indexes_by_node = indexes,
       application_by_node = application\<rparr>)))))))))"

text \<open>The durable snapshot index of a node, when the schema records it; the files expected.\<close>

definition snapshot_index :: "(string \<times> int) list option \<Rightarrow> string \<Rightarrow> int option" where
  "snapshot_index indexes node = (case indexes of Some d \<Rightarrow> map_of d node | None \<Rightarrow> None)"

definition expected_files :: "int option \<Rightarrow> int" where
  "expected_files index = (case index of Some i \<Rightarrow> if 0 < i then 1 else 0 | None \<Rightarrow> 1)"

definition retained :: "string \<Rightarrow> string \<Rightarrow> int \<Rightarrow> int \<Rightarrow> string \<Rightarrow> string list" where
  "retained at_pair what candidate control without =
     message_if (control \<le> candidate) (at_pair @ '' retained '' @ int_str candidate @ what @ int_str control @ without)"

definition file_failure :: "int \<Rightarrow> string \<Rightarrow> string \<Rightarrow> int option \<Rightarrow> string \<Rightarrow> int \<Rightarrow> string list" where
  "file_failure schema at_pair node index kind files =
     message_if (files \<noteq> expected_files index)
       (if schema = 1 then at_pair @ '' retained '' @ int_str files @ '' snapshot '' @ kind @ '' files on node '' @ node @ '' after final restart''
        else at_pair @ '' had '' @ int_str files @ '' snapshot '' @ kind @ '' files on node '' @ node @ '' after final restart; expected ''
          @ int_str (expected_files index) @ '' for durable snapshot index '' @ (case index of Some i \<Rightarrow> int_str i | None \<Rightarrow> ''None''))"

definition artifact_failures :: "int \<Rightarrow> string \<Rightarrow> (string \<times> int) list option \<Rightarrow> string \<times> snapshot_artifacts \<Rightarrow> string list" where
  "artifact_failures schema at_pair indexes = (\<lambda>(node, a).
     let index = snapshot_index indexes node in
     file_failure schema at_pair node index ''data'' (data_files a)
     @ file_failure schema at_pair node index ''metadata'' (metadata_files a)
     @ message_if (temporary_files a \<noteq> 0) (at_pair @ '' retained '' @ int_str (temporary_files a) @ '' temporary snapshot files on node '' @ node @ '' after final restart''))"

definition application_failures :: "string \<Rightarrow> string \<times> application_artifacts \<Rightarrow> string list" where
  "application_failures at_pair = (\<lambda>(node, a).
     message_if (journal_files a \<noteq> 1) (at_pair @ '' retained '' @ int_str (journal_files a) @ '' application journals on node '' @ node @ '' after final restart'')
     @ message_if (checkpoint_temporaries a \<noteq> 0) (at_pair @ '' retained '' @ int_str (checkpoint_temporaries a)
         @ '' application checkpoint temporary files on node '' @ node @ '' after final restart''))"

definition physical_failures :: "int \<Rightarrow> string \<Rightarrow> physical \<Rightarrow> string list" where
  "physical_failures schema at_pair p =
     retained at_pair '' managed Raft bytes versus '' (candidate_managed p) (control_managed p) '' without reclamation''
     @ retained at_pair '' managed Raft bytes after final restart versus '' (candidate_final_managed p) (control_final_managed p) '' without reclamation''
     @ retained at_pair '' application-journal bytes versus '' (candidate_application p) (control_application p) '' without checkpointing''
     @ retained at_pair '' application-journal bytes after restart versus '' (candidate_final_application p) (control_final_application p) '' without checkpointing''
     @ concat (map (artifact_failures schema at_pair (indexes_by_node p)) (artifacts_by_node p))
     @ concat (map (application_failures at_pair) (application_by_node p))"

text \<open>The readings and the failures of the \<open>try\<close> block.\<close>

definition assess_physical :: "int \<Rightarrow> string \<Rightarrow> pyval \<Rightarrow> pyval \<Rightarrow> (physical \<times> string list) res" where
  "assess_physical schema at_pair control candidate =
     catchE {ValueError} (bindE (read_physical schema control candidate) (\<lambda>p. Inr (p, physical_failures schema at_pair p)))
       (\<lambda>e. Inr (no_physical, [at_pair @ '': '' @ str_of e]))"

section \<open>One pair: the row\<close>

record pair =
  repetition :: int
  ratio_of :: pyfloat
  p99_regression :: pyval
  p999_regression :: pyval
  candidate_throughput :: pyval
  control_throughput :: pyval
  compactions :: int
  compaction_max :: int
  storage :: physical
  pair_restart_ns :: int

definition artifact_sum :: "(snapshot_artifacts \<Rightarrow> int) \<Rightarrow> physical \<Rightarrow> int" where
  "artifact_sum f p = sum_list (map (\<lambda>(_, a). f a) (artifacts_by_node p))"

definition artifacts_object :: "(string \<times> snapshot_artifacts) list \<Rightarrow> pyval" where
  "artifacts_object as = PDict (map (\<lambda>(node, a). kv node (PDict [kv ''data_files'' (PInt (data_files a)),
     kv ''metadata_files'' (PInt (metadata_files a)), kv ''temporary_files'' (PInt (temporary_files a))])) as)"

definition application_object :: "(string \<times> application_artifacts) list \<Rightarrow> pyval" where
  "application_object as = PDict (map (\<lambda>(node, a). kv node (PDict [kv ''journal_files'' (PInt (journal_files a)),
     kv ''temporary_files'' (PInt (checkpoint_temporaries a))])) as)"

definition pair_object :: "pair \<Rightarrow> pydict" where
  "pair_object q = (let p = storage q in
     [kv ''repetition'' (PInt (repetition q)), kv ''throughput_ratio'' (PFloat (ratio_of q)),
      kv ''candidate_throughput_ops_s'' (candidate_throughput q), kv ''control_throughput_ops_s'' (control_throughput q),
      kv ''p99_regression_ms'' (p99_regression q), kv ''p999_regression_ms'' (p999_regression q),
      kv ''measured_compactions'' (PInt (compactions q)), kv ''compaction_max_upper_bound_ns'' (PInt (compaction_max q)),
      kv ''candidate_raft_wal_allocated_bytes'' (PInt (candidate_wal p)), kv ''control_raft_wal_allocated_bytes'' (PInt (control_wal p)),
      kv ''candidate_raft_snapshot_allocated_bytes'' (PInt (candidate_snapshot p)), kv ''control_raft_snapshot_allocated_bytes'' (PInt (control_snapshot p)),
      kv ''candidate_managed_raft_allocated_bytes'' (PInt (candidate_managed p)), kv ''control_managed_raft_allocated_bytes'' (PInt (control_managed p)),
      kv ''candidate_final_managed_raft_allocated_bytes'' (PInt (candidate_final_managed p)),
      kv ''control_final_managed_raft_allocated_bytes'' (PInt (control_final_managed p)),
      kv ''candidate_final_snapshot_data_files'' (PInt (artifact_sum data_files p)),
      kv ''candidate_final_snapshot_metadata_files'' (PInt (artifact_sum metadata_files p)),
      kv ''candidate_final_snapshot_temporary_files'' (PInt (artifact_sum temporary_files p)),
      kv ''candidate_final_snapshot_artifacts_by_node'' (artifacts_object (artifacts_by_node p)),
      kv ''candidate_application_journal_allocated_bytes'' (PInt (candidate_application p)),
      kv ''control_application_journal_allocated_bytes'' (PInt (control_application p)),
      kv ''candidate_final_application_journal_allocated_bytes'' (PInt (candidate_final_application p)),
      kv ''control_final_application_journal_allocated_bytes'' (PInt (control_final_application p)),
      kv ''candidate_final_application_artifacts_by_node'' (application_object (application_by_node p)),
      kv ''candidate_process_restart_ns'' (PInt (pair_restart_ns q))])"

definition assess_pair ::
  "int \<Rightarrow> pyval \<Rightarrow> pyval \<Rightarrow> pyval \<Rightarrow> pyval \<Rightarrow> pyval \<Rightarrow> int \<Rightarrow> failures \<Rightarrow> (failures \<times> pair) res" where
  "assess_pair schema prior variant rate control candidate n f =
     (let at_pair = py_str variant @ '' at '' @ py_str rate @ ''/s repetition '' @ int_str n in
      bindE (same_setup control candidate) (\<lambda>same.
      bindE (source_failures (py_str prior) rate control) (\<lambda>a. bindE (source_failures (py_str variant) rate candidate) (\<lambda>b.
      bindE (try_value (0, 0) (compaction candidate)) (\<lambda>((compacted, upper), no_activity).
      bindE (assess_physical schema at_pair control candidate) (\<lambda>(p, not_reclaimed).
      bindE (try_value 0 (restart_ns candidate)) (\<lambda>(restart, no_restart).
      bindE (case_metrics control) (\<lambda>control_metrics. bindE (case_metrics candidate) (\<lambda>candidate_metrics.
      bindE (comparable control_metrics candidate_metrics) (\<lambda>c.
      bindE (throughput_ratio c control_metrics candidate_metrics) (\<lambda>ratio.
      bindE (tail_regression c control_metrics candidate_metrics ''client_p99_ms'') (\<lambda>r99.
      bindE (tail_regression c control_metrics candidate_metrics ''client_p999_ms'') (\<lambda>r999.
      bindE (pair_failures (py_str variant) rate control candidate ratio (a @ b)) (\<lambda>missed.
      bindE (get candidate_metrics ''throughput_ops_s'') (\<lambda>t2. bindE (get control_metrics ''throughput_ops_s'') (\<lambda>t1.
      Inr (add_service (map (\<lambda>m. at_pair @ '': '' @ m) missed)
             (add_evidence (map (\<lambda>m. at_pair @ '': '' @ m) no_restart)
             (add_physical not_reclaimed
             (add_activity (map (\<lambda>m. at_pair @ '': '' @ m) no_activity)
             (add_evidence (message_if (\<not> same) (at_pair @ '' differs from the control beyond snapshot interval'')) f)))),
           \<lparr>repetition = n, ratio_of = ratio, p99_regression = r99, p999_regression = r999, candidate_throughput = t2, control_throughput = t1,
            compactions = compacted, compaction_max = upper, storage = p, pair_restart_ns = restart\<rparr>)))))))))))))))))"

definition pair_step ::
  "int \<Rightarrow> case_groups \<Rightarrow> pyval \<Rightarrow> pyval \<Rightarrow> pyval \<Rightarrow> failures \<times> pair list \<Rightarrow> int \<Rightarrow> (failures \<times> pair list) res" where
  "pair_step schema grouped prior variant rate = (\<lambda>(f, paired) n.
     bindE (group_get grouped [prior, rate, PInt n]) (\<lambda>controls.
     bindE (group_get grouped [variant, rate, PInt n]) (\<lambda>candidates.
     case (controls, candidates) of
       ([control], [candidate]) \<Rightarrow> bindE (assess_pair schema prior variant rate control candidate n f) (\<lambda>(f', q). Inr (f', paired @ [q]))
     | _ \<Rightarrow> Inr (add_evidence [''missing unique same-seed pair for '' @ py_str variant @ '' at '' @ py_str rate @ ''/s repetition '' @ int_str n] f, paired))))"

section \<open>Rows and verdicts\<close>

text \<open>\<open>median\<close> and \<open>max\<close> over the pairs of a row.\<close>

definition median_of :: "pyval list \<Rightarrow> pyval res" where
  "median_of xs = bindE (py_sorted (PList xs)) (\<lambda>vs.
     let n = length vs in
     if odd n then Inr (vs ! (n div 2))
     else bindE (py_add (vs ! (n div 2 - 1)) (vs ! (n div 2))) (\<lambda>v. bindE (py_div v (PInt 2)) (\<lambda>x. Inr (PFloat x))))"

definition max_of :: "pyval list \<Rightarrow> pyval res" where
  "max_of xs = foldE py_max2 (hd xs) (tl xs)"

text \<open>The columns of a row: its name, the statistic and the entry of the pairs.\<close>

definition row_columns :: "(string \<times> (pyval list \<Rightarrow> pyval res) \<times> (pair \<Rightarrow> pyval)) list" where
  "row_columns =
     [(''median_throughput_ratio'', median_of, \<lambda>q. PFloat (ratio_of q)),
      (''worst_p99_regression_ms'', max_of, \<lambda>q. (p99_regression q)),
      (''worst_p999_regression_ms'', max_of, \<lambda>q. (p999_regression q)),
      (''measured_compactions'', py_sum, \<lambda>q. PInt (compactions q)),
      (''max_compaction_upper_bound_ns'', max_of, \<lambda>q. PInt (compaction_max q)),
      (''median_candidate_raft_wal_allocated_bytes'', median_of, \<lambda>q. PInt (candidate_wal (storage q))),
      (''median_control_raft_wal_allocated_bytes'', median_of, \<lambda>q. PInt (control_wal (storage q))),
      (''median_candidate_raft_snapshot_allocated_bytes'', median_of, \<lambda>q. PInt (candidate_snapshot (storage q))),
      (''median_candidate_managed_raft_allocated_bytes'', median_of, \<lambda>q. PInt (candidate_managed (storage q))),
      (''median_control_managed_raft_allocated_bytes'', median_of, \<lambda>q. PInt (control_managed (storage q))),
      (''median_candidate_final_managed_raft_allocated_bytes'', median_of, \<lambda>q. PInt (candidate_final_managed (storage q))),
      (''median_control_final_managed_raft_allocated_bytes'', median_of, \<lambda>q. PInt (control_final_managed (storage q))),
      (''max_candidate_final_snapshot_data_files'', max_of, \<lambda>q. PInt (artifact_sum data_files (storage q))),
      (''max_candidate_final_snapshot_metadata_files'', max_of, \<lambda>q. PInt (artifact_sum metadata_files (storage q))),
      (''max_candidate_final_snapshot_temporary_files'', max_of, \<lambda>q. PInt (artifact_sum temporary_files (storage q))),
      (''median_candidate_application_journal_allocated_bytes'', median_of, \<lambda>q. PInt (candidate_application (storage q))),
      (''median_control_application_journal_allocated_bytes'', median_of, \<lambda>q. PInt (control_application (storage q))),
      (''median_candidate_final_application_journal_allocated_bytes'', median_of, \<lambda>q. PInt (candidate_final_application (storage q))),
      (''median_control_final_application_journal_allocated_bytes'', median_of, \<lambda>q. PInt (control_final_application (storage q))),
      (''max_candidate_process_restart_ns'', max_of, \<lambda>q. PInt (pair_restart_ns q))]"

definition row_column :: "pair list \<Rightarrow> string \<times> (pyval list \<Rightarrow> pyval res) \<times> (pair \<Rightarrow> pyval) \<Rightarrow> (pykey \<times> pyval) res" where
  "row_column paired = (\<lambda>(name, statistic, entry). bindE (statistic (map entry paired)) (\<lambda>v. Inr (kv name v)))"

text \<open>The three stage tables of the diagnostic case. What was read before an exception stays in
  the row.\<close>

type_synonym stage_tables = "pydict \<times> pydict \<times> pydict"

definition read_stages :: "pyval \<Rightarrow> (stage_tables, unit) act" where
  "read_stages c =
     bindA (liftA (native_snapshot_stages c)) (\<lambda>a. bindA (modifyA (\<lambda>(_, y, z). (a, y, z))) (\<lambda>_.
     bindA (liftA (application_checkpoint_stages c)) (\<lambda>b. bindA (modifyA (\<lambda>(x, _, z). (x, b, z))) (\<lambda>_.
     bindA (liftA (application_snapshot_encode c)) (\<lambda>e. modifyA (\<lambda>(x, y, _). (x, y, e)))))))"

definition diagnostic_stages :: "string \<Rightarrow> case_groups \<Rightarrow> pyval list \<Rightarrow> (stage_tables \<times> string list) res" where
  "diagnostic_stages at_rate diagnostics cs =
     (if diagnostics \<noteq> [] \<and> length cs \<noteq> 1 then Inr (([], [], []), [at_rate @ '' has '' @ nat_str (length cs) @ '' diagnostic cases''])
      else if cs = [] then Inr (([], [], []), [])
      else case read_stages (hd cs) ([], [], []) of
        (Inr _, tables) \<Rightarrow> Inr (tables, [])
      | (Inl e, tables) \<Rightarrow> if class_of e = ValueError then Inr (tables, [at_rate @ '' diagnostic: '' @ str_of e]) else Inl e)"

definition table_kv :: "string \<Rightarrow> pydict \<Rightarrow> pydict" where
  "table_kv name d = (if d = [] then [] else [kv name (PDict d)])"

definition rate_row :: "pyval \<Rightarrow> int \<Rightarrow> pyval \<Rightarrow> pair list \<Rightarrow> stage_tables \<Rightarrow> pydict res" where
  "rate_row variant interval rate paired = (\<lambda>(native, checkpoint, encode).
     bindE (mapE (row_column paired) row_columns) (\<lambda>columns.
     Inr ([kv ''variant'' variant, kv ''snapshot_interval_entries'' (PInt interval), kv ''offered_per_second'' rate,
         kv ''repetitions'' (PList (map (\<lambda>q. PDict (pair_object q)) paired))] @ columns
       @ table_kv ''native_snapshot_stages'' native @ table_kv ''application_checkpoint_stages'' checkpoint
       @ table_kv ''application_snapshot_encode'' encode)))"

definition run_range :: "pyval \<Rightarrow> int list res" where
  "run_range runs = bindE (py_add runs (PInt 1)) (\<lambda>v. case as_int v of
       Some m \<Rightarrow> Inr [1..m - 1]
     | None \<Rightarrow> raiseE TypeError (quote (type_name v) @ '' object cannot be interpreted as an integer''))"

definition rate_step ::
  "int \<Rightarrow> case_groups \<Rightarrow> case_groups \<Rightarrow> pyval \<Rightarrow> pyval \<Rightarrow> int \<Rightarrow> pyval \<Rightarrow> failures \<times> pydict list \<Rightarrow> pyval \<Rightarrow> (failures \<times> pydict list) res" where
  "rate_step schema grouped diagnostics prior variant interval runs = (\<lambda>(f, rows) rate.
     bindE (run_range runs) (\<lambda>ns.
     bindE (foldE (pair_step schema grouped prior variant rate) (f, []) ns) (\<lambda>(f', paired).
     if paired = [] then Inr (f', rows)
     else
       bindE (group_get diagnostics [variant, rate]) (\<lambda>cs.
       bindE (diagnostic_stages (py_str variant @ '' at '' @ py_str rate @ ''/s'') diagnostics cs) (\<lambda>(tables, missing).
       bindE (rate_row variant interval rate paired tables) (\<lambda>row. Inr (add_activity missing f', rows @ [row])))))))"

definition arm_step ::
  "int \<Rightarrow> case_groups \<Rightarrow> case_groups \<Rightarrow> pyval \<Rightarrow> pyval \<Rightarrow> pyval \<Rightarrow> failures \<times> pydict list \<Rightarrow> pyval \<Rightarrow> (failures \<times> pydict list) res" where
  "arm_step schema grouped diagnostics prior rates runs = (\<lambda>(f, rows) arm.
     bindE (subscript arm 0) (\<lambda>variant. bindE (subscript arm 7) (\<lambda>v.
     case positive_or [] v of
       Inl _ \<Rightarrow> Inr (add_evidence [''candidate '' @ py_str variant @ '' has no positive snapshot interval''] f, rows)
     | Inr interval \<Rightarrow> bindE (iter_of rates) (foldE (rate_step schema grouped diagnostics prior variant interval runs) (f, rows)))))"

text \<open>Declaration and qualification of the suite.\<close>

definition suite_failures :: "pyval \<Rightarrow> failures res" where
  "suite_failures data =
     bindE (bindE (get_or data ''suite'' (PDict [])) (\<lambda>s. get s ''kind'')) (\<lambda>kind.
     bindE (get data ''qualification'') (\<lambda>q.
     bindE (if py_eq q (PStr ''passed'') then Inr [] else bindE (get_or data ''qualification_errors'' (PList [])) iter_of) (\<lambda>errors.
     let f = add_evidence (message_if (\<not> py_eq kind (PStr ''reclamation-under-load'')) ''suite is not declared as reclamation-under-load'') no_failures in
     Inr (f\<lparr>f_evidence := f_evidence f @ errors\<rparr>))))"

definition prior_failures :: "pyval list \<Rightarrow> pyval list \<Rightarrow> string list res" where
  "prior_failures arms labels = (case labels of
     [prior] \<Rightarrow> bindE (bindE (labelled_arm prior arms) snapshot_disabled) (\<lambda>ok.
       Inr (message_if (\<not> ok) ''reclamation comparison prior is not explicitly snapshot-disabled''))
   | _ \<Rightarrow> Inr [])"

definition prior_of :: "pyval list \<Rightarrow> pyval" where
  "prior_of labels = (case labels of [prior] \<Rightarrow> prior | _ \<Rightarrow> PStr ''prior'')"

definition suite_get :: "pyval \<Rightarrow> string \<Rightarrow> pyval \<Rightarrow> pyval res" where
  "suite_get data k dflt = bindE (get_or data ''suite'' (PDict [])) (\<lambda>s. get_or s k dflt)"

text \<open>The result of the loops: failures and rows.\<close>

definition assess_cases :: "int \<Rightarrow> pyval \<Rightarrow> (failures \<times> pydict list) res" where
  "assess_cases schema data =
     bindE (suite_failures data) (\<lambda>f0.
     bindE (timing_cases data) (\<lambda>cs.
     bindE (bindE (mode_cases ''diagnostic'' data) (group_cases diagnostic_key)) (\<lambda>diagnostics.
     bindE (group_cases timing_key cs) (\<lambda>grouped.
     bindE (bindE (suite_get data ''arms'' (PList [])) iter_of) (\<lambda>arms.
     bindE (bindE (filterE is_prior arms) (mapE (\<lambda>arm. subscript arm 0))) (\<lambda>labels.
     bindE (filterE is_candidate arms) (\<lambda>candidates.
     bindE (prior_failures arms labels) (\<lambda>prior_messages.
     bindE (suite_get data ''rates'' (PList [])) (\<lambda>rates. bindE (suite_get data ''runs'' (PInt 0)) (\<lambda>runs.
     let f = add_evidence (message_if (list_ex (\<lambda>(_, cs). length cs \<noteq> 1) grouped) ''timing cases are not unique by variant, rate, and repetition''
            @ message_if (length labels \<noteq> 1) ''reclamation comparison requires exactly one no-snapshot prior''
            @ message_if (candidates = []) ''reclamation comparison has no snapshot-aware candidate''
            @ prior_messages) f0 in
     foldE (arm_step schema grouped diagnostics (prior_of labels) rates runs) (f, []) candidates))))))))))"

definition failure_lists :: "failures \<Rightarrow> (string \<times> pyval list) list" where
  "failure_lists f = [(''evidence_and_correctness'', f_evidence f), (''service_objective'', f_service f),
     (''reclamation_activity'', f_activity f), (''physical_reclamation'', f_physical f)]"

definition passed_status :: "bool \<Rightarrow> pyval" where
  "passed_status ok = PStr (if ok then ''passed'' else ''failed'')"

definition assess_load :: "pyval \<Rightarrow> pyval \<Rightarrow> pydict res" where
  "assess_load data schema = (case schema of
     PInt n \<Rightarrow> if n = 1 \<or> n = 2 then
       bindE (assess_cases n data) (\<lambda>(f, rows).
       Inr [kv ''schema'' schema, kv ''kind'' (PStr ''reclamation-under-load''),
         kv ''status'' (passed_status (list_all (\<lambda>(_, errors). errors = []) (failure_lists f))),
         kv ''objective'' (PDict (if 2 \<le> n then RECLAMATION_OBJECTIVE else LEGACY_OBJECTIVE)),
         kv ''verdicts'' (PDict (map (\<lambda>(name, errors). kv name (PDict [kv ''status'' (passed_status (errors = [])), kv ''errors'' (PList errors)])) (failure_lists f))),
         kv ''comparisons'' (PList (map PDict rows)),
         kv ''scope'' (PStr (if 2 \<le> n then CURRENT_SCOPE else SCOPE))])
       else raiseE ValueError ''unsupported reclamation-under-load assessment schema''
   | _ \<Rightarrow> raiseE ValueError ''unsupported reclamation-under-load assessment schema'')"

section \<open>Groups\<close>

lemma tuple_eq_hashable:
  assumes "list_all hashable k" "list_all hashable l"
  shows "tuple_eq k l \<longleftrightarrow> map canon k = map canon l \<and> PFloat NaN \<notin> set (map canon k)"
  using assms unfolding tuple_eq_def
proof (induction k arbitrary: l)
  case (Cons x k)
  then show ?case by (cases l) (auto simp: py_eq_hashable)
qed auto

definition lookup_group :: "case_groups \<Rightarrow> pyval list \<Rightarrow> pyval list" where
  "lookup_group gs k = (case find (\<lambda>(l, _). tuple_eq l k) gs of Some (_, cs) \<Rightarrow> cs | None \<Rightarrow> [])"

lemma lookup_group_simps [simp]:
  "lookup_group [] k = []"
  "lookup_group ((l, cs) # gs) k = (if tuple_eq l k then cs else lookup_group gs k)"
  by (simp_all add: lookup_group_def)

lemma group_get_Inr: "group_get gs k = Inr cs \<longleftrightarrow> list_all hashable k \<and> cs = lookup_group gs k"
proof -
  have "(\<exists>us. mapE require_hashable k = Inr us) \<longleftrightarrow> list_all hashable k"
    by (induction k) (auto simp: require_hashable_def raise_if_def)
  then show ?thesis unfolding group_get_def lookup_group_def [symmetric] bindE_eq_Inr by auto
qed

lemma tuple_eq_join:
  assumes "list_all hashable k" "list_all hashable k'" "list_all hashable l"
  shows "tuple_eq l k \<Longrightarrow> tuple_eq l k' = tuple_eq k k'" "tuple_eq l k' \<Longrightarrow> tuple_eq k k' \<Longrightarrow> tuple_eq l k"
  using assms by (auto simp: tuple_eq_hashable simp del: set_map)

lemma lookup_add_case:
  assumes "list_all hashable k" "list_all hashable k'" "\<forall>(l, _)\<in>set gs. list_all hashable l"
  shows "lookup_group (add_case k c gs) k' = lookup_group gs k' @ (if tuple_eq k k' then [c] else [])"
  using assms
proof (induction k c gs rule: add_case.induct)
  case (2 k c l cs gs)
  then have "list_all hashable l" by simp
  note tuple_eq_join [OF 2(2,3) this]
  with 2 show ?case by auto
qed simp

lemma hashable_add_case: "list_all hashable k \<Longrightarrow> \<forall>(l, _)\<in>set gs. list_all hashable l \<Longrightarrow> \<forall>(l, _)\<in>set (add_case k c gs). list_all hashable l"
  by (induction k c gs rule: add_case.induct) auto

text \<open>The cases with a given key, in order.\<close>

definition keyed :: "(pyval \<Rightarrow> pyval list res) \<Rightarrow> pyval list \<Rightarrow> pyval list \<Rightarrow> pyval list" where
  "keyed key cs k = filter (\<lambda>c. case key c of Inr l \<Rightarrow> tuple_eq l k | Inl _ \<Rightarrow> False) cs"

lemma mapE_require_hashable: "mapE require_hashable k = Inr us \<Longrightarrow> list_all hashable k"
  by (induction k arbitrary: us) auto

lemma lookup_group_cases:
  assumes "group_cases key cs = Inr gs" "list_all hashable k"
  shows "lookup_group gs k = keyed key cs k"
proof -
  have "(\<forall>(l, _)\<in>set gs. list_all hashable l) \<and> lookup_group gs k = keyed key cs k"
  proof (rule foldE_invariant [OF assms(1) [unfolded group_cases_def], where P = "\<lambda>cs gs. (\<forall>(l, _)\<in>set gs. list_all hashable l) \<and> lookup_group gs k = keyed key cs k"])
    show "(\<forall>(l, _)\<in>set []. list_all hashable l) \<and> lookup_group [] k = keyed key [] k" by (simp add: keyed_def)
  next
    fix seen c rest s s' assume "(\<forall>(l, _)\<in>set s. list_all hashable l) \<and> lookup_group s k = keyed key seen k" "group_step key s c = Inr s'"
    moreover from this obtain l where "key c = Inr l" "list_all hashable l" "s' = add_case l c s"
      by (auto simp: group_step_def dest!: mapE_require_hashable)
    ultimately show "(\<forall>(l, _)\<in>set s'. list_all hashable l) \<and> lookup_group s' k = keyed key (seen @ [c]) k"
      using assms(2) hashable_add_case [of l s c] by (simp add: keyed_def lookup_add_case)
  qed
  then show ?thesis by simp
qed

lemma group_get_keyed: "group_cases key cs = Inr gs \<Longrightarrow> group_get gs k = Inr ds \<Longrightarrow> ds = keyed key cs k"
  by (auto simp: group_get_Inr lookup_group_cases)

section \<open>Loops that collect failures\<close>

text \<open>When the state is clean after a loop, it was clean all along and every element was accepted.\<close>

lemma foldE_clean:
  assumes "foldE f s xs = Inr t" "C t" "\<And>s x s'. x \<in> set xs \<Longrightarrow> f s x = Inr s' \<Longrightarrow> C s' \<Longrightarrow> C s \<and> P x"
  shows "C s \<and> (\<forall>x\<in>set xs. P x)"
  using assms
proof (induction xs arbitrary: s)
  case (Cons x xs)
  then obtain s' where s': "f s x = Inr s'" "foldE f s' xs = Inr t" by auto
  have "C s' \<and> (\<forall>x\<in>set xs. P x)" by (rule Cons.IH [OF s'(2) Cons.prems(2)]) (use Cons.prems(3) in \<open>meson list.set_intros(2)\<close>)
  then show ?case using Cons.prems(3) [OF _ s'(1)] by simp
qed simp

definition clean_suite :: "failures \<Rightarrow> bool" where
  "clean_suite f \<longleftrightarrow> f_evidence f = [] \<and> f_service f = [] \<and> f_activity f = [] \<and> f_physical f = []"

lemma clean_add [simp]:
  "clean_suite (add_evidence ms f) \<longleftrightarrow> clean_suite f \<and> ms = []" "clean_suite (add_service ms f) \<longleftrightarrow> clean_suite f \<and> ms = []"
  "clean_suite (add_activity ms f) \<longleftrightarrow> clean_suite f \<and> ms = []" "clean_suite (add_physical ms f) \<longleftrightarrow> clean_suite f \<and> ms = []"
  by (auto simp: clean_suite_def add_evidence_def add_service_def add_activity_def add_physical_def)

lemma message_if_Nil [simp]: "message_if b m = [] \<longleftrightarrow> \<not> b" "[] = message_if b m \<longleftrightarrow> \<not> b"
  by (simp_all add: message_if_def)

lemma try_value_Nil: "try_value dflt r = Inr (x, []) \<longleftrightarrow> r = Inr x"
  by (cases r) (auto simp: try_value_def catchE_def)

section \<open>What a clean pair means\<close>

text \<open>A source case that qualified and lost no request, and that reached the offered load.\<close>

definition lossless :: "pyval \<Rightarrow> bool" where
  "lossless c \<longleftrightarrow> source_passed c = Inr True \<and> (\<exists>a. item c ''accounting'' = Inr a \<and>
     (\<forall>name\<in>{''errors'', ''unknown'', ''not_issued''}. \<exists>n. item a name = Inr n \<and> \<not> truthy n))"

definition served :: "pyval \<Rightarrow> pyval \<Rightarrow> bool" where
  "served rate c \<longleftrightarrow> (\<exists>x. achieved_percent rate c = Inr x \<and> \<not> f_lt x fixed_load_percent)"

definition measured_metric :: "pyval \<Rightarrow> string \<Rightarrow> pyval res" where
  "measured_metric c name = item_path c [''metrics'', name]"

definition within_tail :: "pyval \<Rightarrow> pyval \<Rightarrow> string \<Rightarrow> pyfloat \<Rightarrow> bool" where
  "within_tail control candidate name absolute_ms \<longleftrightarrow> (\<exists>a b l. measured_metric control name = Inr a \<and> measured_metric candidate name = Inr b \<and>
     tail_limit a tail_ratio absolute_ms = Inr l \<and> py_gt b l = Inr False)"

definition keeps_throughput :: "pyval \<Rightarrow> pyval \<Rightarrow> bool" where
  "keeps_throughput control candidate \<longleftrightarrow> (\<exists>a b x. measured_metric control ''throughput_ops_s'' = Inr a \<and>
     measured_metric candidate ''throughput_ops_s'' = Inr b \<and> py_gt a (PInt 0) = Inr True \<and> py_div b a = Inr x \<and> \<not> f_lt x saturated_ratio)"

definition service_ok :: "pyval \<Rightarrow> pyval \<Rightarrow> pyval \<Rightarrow> bool" where
  "service_ok rate control candidate \<longleftrightarrow> lossless control \<and> lossless candidate \<and>
     (py_eq rate (PInt 0) \<longrightarrow> keeps_throughput control candidate) \<and>
     (py_gt rate (PInt 0) = Inr True \<longrightarrow> served rate control \<and> served rate candidate \<and>
        within_tail control candidate ''client_p99_ms'' (Fl 1) \<and> within_tail control candidate ''client_p999_ms'' (Fl 2))"

definition shrinks :: "(pyval \<Rightarrow> int res) \<Rightarrow> pyval \<Rightarrow> pyval \<Rightarrow> bool" where
  "shrinks f control candidate \<longleftrightarrow> (\<exists>a b. f control = Inr a \<and> f candidate = Inr b \<and> b < a)"

text \<open>On each of the three nodes: the envelope and the manifest of one snapshot, or none of them
  before the first snapshot, and no temporary file.\<close>

definition artifacts_ok :: "int \<Rightarrow> pyval \<Rightarrow> bool" where
  "artifacts_ok schema candidate \<longleftrightarrow> (\<exists>as. final_snapshot_artifacts candidate = Inr as \<and> set (map fst as) = {''1'', ''2'', ''3''} \<and>
     (\<forall>(node, a)\<in>set as. temporary_files a = 0 \<and> metadata_files a = data_files a \<and>
        (if schema = 1 then data_files a = 1
         else \<exists>is i. final_durable_snapshot_indexes candidate = Inr is \<and> map_of is node = Some i \<and> data_files a = (if 0 < i then 1 else 0))))"

definition journals_ok :: "pyval \<Rightarrow> bool" where
  "journals_ok candidate \<longleftrightarrow> (\<exists>as. final_application_artifacts candidate = Inr as \<and> set (map fst as) = {''1'', ''2'', ''3''} \<and>
     (\<forall>(node, a)\<in>set as. journal_files a = 1 \<and> checkpoint_temporaries a = 0))"

definition storage_ok :: "int \<Rightarrow> pyval \<Rightarrow> pyval \<Rightarrow> bool" where
  "storage_ok schema control candidate \<longleftrightarrow>
     (\<forall>checkpoint\<in>{''after_measurement'', ''after_final_restart''}.
        shrinks (\<lambda>c. managed_raft_allocated c checkpoint) control candidate \<and>
        shrinks (\<lambda>c. allocated c ''application_journal'' checkpoint) control candidate) \<and>
     artifacts_ok schema candidate \<and> journals_ok candidate"

definition pair_ok :: "int \<Rightarrow> pyval \<Rightarrow> pyval \<Rightarrow> pyval \<Rightarrow> bool" where
  "pair_ok schema rate control candidate \<longleftrightarrow> same_setup control candidate = Inr True \<and> service_ok rate control candidate \<and>
     (\<exists>n m. compaction candidate = Inr (n, m) \<and> 0 < n) \<and> storage_ok schema control candidate \<and> (\<exists>t>0. restart_ns candidate = Inr t)"


section \<open>A pair without failures is in order\<close>

lemma loss_failures_Nil:
  "loss_failures label a = Inr [] \<Longrightarrow> \<forall>name\<in>{''errors'', ''unknown'', ''not_issued''}. \<exists>n. item a name = Inr n \<and> \<not> truthy n"
  by (auto simp: loss_failures_def LOSSES_def)

lemma source_failures_Nil:
  assumes "source_failures label rate c = Inr []"
  shows "lossless c" "py_gt rate (PInt 0) = Inr True \<Longrightarrow> served rate c"
proof -
  obtain a where a: "source_passed c = Inr True" "item c ''accounting'' = Inr a" "loss_failures label a = Inr []" "load_failures label rate c = Inr []"
    using assms by (auto simp: source_failures_def split: if_splits)
  show "lossless c" using a loss_failures_Nil by (auto simp: lossless_def)
  show "served rate c" if "py_gt rate (PInt 0) = Inr True"
    using a(4) that by (auto simp: load_failures_def served_def)
qed

lemma measured_metric_of:
  "case_metrics c = Inr m \<Longrightarrow> item m name = Inr x \<Longrightarrow> measured_metric c name = Inr x"
  by (auto simp: case_metrics_def measured_metric_def item_path_def get_or_item split: if_splits)
    (auto simp: item_eq_Inr get_or_eq_Inr dict_get_def split: option.splits)

lemma throughput_kept:
  assumes "case_metrics control = Inr m" "case_metrics candidate = Inr n" "throughput_ratio c m n = Inr x" "\<not> f_lt x saturated_ratio"
  shows "keeps_throughput control candidate"
proof -
  have "f_lt (Fl 0) saturated_ratio" by code_simp
  with assms(3,4) obtain a b where "item m ''throughput_ops_s'' = Inr a" "py_gt a (PInt 0) = Inr True" "item n ''throughput_ops_s'' = Inr b" "py_div b a = Inr x"
    by (auto simp: throughput_ratio_def split: if_splits)
  then show ?thesis using assms measured_metric_of unfolding keeps_throughput_def by blast
qed

lemma tails_within:
  assumes "tail_failures variant control candidate = Inr []"
  shows "within_tail control candidate ''client_p99_ms'' (Fl 1)" "within_tail control candidate ''client_p999_ms'' (Fl 2)"
  using assms unfolding tail_failures_def exceeds_limit_def within_tail_def measured_metric_def by auto

lemma pair_failures_Nil:
  assumes "source_failures label rate control = Inr a" "source_failures label' rate candidate = Inr b"
    "case_metrics control = Inr m" "case_metrics candidate = Inr n" "throughput_ratio c m n = Inr x"
    "pair_failures variant rate control candidate x (a @ b) = Inr []"
  shows "service_ok rate control candidate"
proof -
  have ab: "a = []" "b = []" and sat: "saturation_failures variant rate x = []"
    using assms(6) by (auto simp: pair_failures_def Let_def split: if_splits)
  have rate: "py_gt rate (PInt 0) = Inr True \<Longrightarrow> tail_failures variant control candidate = Inr []"
    using assms(6) sat by (simp add: pair_failures_def ab)
  show ?thesis
    using source_failures_Nil [of label rate control] source_failures_Nil [of label' rate candidate] assms(1-5) ab sat
      throughput_kept [OF assms(3-5)] rate tails_within
    unfolding service_ok_def saturation_failures_def message_if_Nil by blast
qed

lemma checked_int_Inr [simp]:
  "nonneg_or m v = Inr i \<longleftrightarrow> v = PInt i \<and> 0 \<le> i" "positive_or m v = Inr i \<longleftrightarrow> v = PInt i \<and> 0 < i"
  by (cases v; auto simp: nonneg_or_def positive_or_def)+

lemma compaction_positive:
  assumes "compaction c = Inr (n, m)" shows "0 < n"
proof -
  obtain nodes where nodes: "foldE compaction_step (0, 0) nodes = Inr (n, m)" "n \<noteq> 0"
    using assms by (auto simp: compaction_def)
  have "0 \<le> fst (n, m)"
    by (rule foldE_preserve [OF nodes(1), where P = "\<lambda>s. 0 \<le> fst s"])
      (auto simp: compaction_step_def)
  with nodes(2) show ?thesis by simp
qed

lemma restart_positive: "restart_ns c = Inr t \<Longrightarrow> 0 < t"
  by (auto simp: restart_ns_def)

lemma inventory_names:
  assumes "node_inventory c p s t = Inr d" shows "(\<lambda>(k, _). key_str k) ` set d = {''1'', ''2'', ''3''}"
proof -
  have "fst ` set d = KStr ` {''1'', ''2'', ''3''}" using assms by (auto simp: node_inventory_def keys_are_def)
  then have "key_str ` fst ` set d = {''1'', ''2'', ''3''}" by (auto simp: image_iff)
  then show ?thesis by (simp add: image_image case_prod_unfold)
qed

lemma mapE_names: "mapE f d = Inr as \<Longrightarrow> (\<And>x y. f x = Inr y \<Longrightarrow> fst y = g x) \<Longrightarrow> set (map fst as) = g ` set d"
  using mapE_project [of f d as fst g] by (metis list.set_map)

lemma artifact_names: assumes "final_snapshot_artifacts c = Inr as" shows "set (map fst as) = {''1'', ''2'', ''3''}"
proof -
  obtain d s t where d: "node_inventory c ''after_final_restart'' s t = Inr d"
    "mapE (\<lambda>(node, observed). node_artifacts (key_str node) observed) d = Inr as"
    using assms unfolding final_snapshot_artifacts_def bindE_eq_Inr by blast
  have "set (map fst as) = (\<lambda>(k, _). key_str k) ` set d" by (rule mapE_names [OF d(2)]) (auto simp: node_artifacts_def)
  then show ?thesis by (simp only: inventory_names [OF d(1)])
qed

lemma application_names: assumes "final_application_artifacts c = Inr as" shows "set (map fst as) = {''1'', ''2'', ''3''}"
proof -
  obtain d s t where d: "node_inventory c ''after_final_restart'' s t = Inr d"
    "mapE (\<lambda>(node, observed). node_application (key_str node) observed) d = Inr as"
    using assms unfolding final_application_artifacts_def bindE_eq_Inr by blast
  have "set (map fst as) = (\<lambda>(k, _). key_str k) ` set d" by (rule mapE_names [OF d(2)]) (auto simp: node_application_def)
  then show ?thesis by (simp only: inventory_names [OF d(1)])
qed

lemma index_names: "final_durable_snapshot_indexes c = Inr is \<Longrightarrow> set (map fst is) = {''1'', ''2'', ''3''}"
proof -
  assume "final_durable_snapshot_indexes c = Inr is"
  then obtain d where d: "fst ` set d = KStr ` {''1'', ''2'', ''3''}"
    "mapE (\<lambda>(node, index). bindE (nonneg_or (''invalid after_final_restart durable snapshot index for node '' @ key_str node) index) (\<lambda>i. Inr (key_str node, i))) d = Inr is"
    by (auto simp: final_durable_snapshot_indexes_def keys_are_def)
  have "key_str ` fst ` set d = {''1'', ''2'', ''3''}" using d(1) by (auto simp: image_iff)
  moreover have "set (map fst is) = (\<lambda>(k, _). key_str k) ` set d" by (rule mapE_names [OF d(2)]) auto
  ultimately show ?thesis by (simp add: image_image case_prod_unfold)
qed


lemma both_Inr [simp]: "both f a b = Inr p \<longleftrightarrow> f a = Inr (fst p) \<and> f b = Inr (snd p)"
  by (cases p) (auto simp: both_def)

lemma read_physical_Inr:
  assumes "read_physical schema control candidate = Inr p"
  shows "managed_raft_allocated control ''after_measurement'' = Inr (control_managed p)"
    "managed_raft_allocated candidate ''after_measurement'' = Inr (candidate_managed p)"
    "managed_raft_allocated control ''after_final_restart'' = Inr (control_final_managed p)"
    "managed_raft_allocated candidate ''after_final_restart'' = Inr (candidate_final_managed p)"
    "allocated control ''application_journal'' ''after_measurement'' = Inr (control_application p)"
    "allocated candidate ''application_journal'' ''after_measurement'' = Inr (candidate_application p)"
    "allocated control ''application_journal'' ''after_final_restart'' = Inr (control_final_application p)"
    "allocated candidate ''application_journal'' ''after_final_restart'' = Inr (candidate_final_application p)"
    "final_snapshot_artifacts candidate = Inr (artifacts_by_node p)"
    "final_application_artifacts candidate = Inr (application_by_node p)"
    "if 2 \<le> schema then \<exists>is. final_durable_snapshot_indexes candidate = Inr is \<and> indexes_by_node p = Some is else indexes_by_node p = None"
  using assms unfolding read_physical_def by (auto split: if_splits)

lemma physical_failures_Nil:
  assumes "physical_failures schema at_pair p = []"
  shows "candidate_managed p < control_managed p" "candidate_final_managed p < control_final_managed p"
    "candidate_application p < control_application p" "candidate_final_application p < control_final_application p"
    "\<forall>(node, a)\<in>set (artifacts_by_node p). temporary_files a = 0 \<and> data_files a = expected_files (snapshot_index (indexes_by_node p) node)
       \<and> metadata_files a = expected_files (snapshot_index (indexes_by_node p) node)"
    "\<forall>(node, a)\<in>set (application_by_node p). journal_files a = 1 \<and> checkpoint_temporaries a = 0"
  using assms by (auto simp: physical_failures_def retained_def artifact_failures_def application_failures_def file_failure_def Let_def)

lemma assess_physical_Nil:
  assumes "assess_physical schema at_pair control candidate = Inr (p, [])"
  shows "read_physical schema control candidate = Inr p" "physical_failures schema at_pair p = []"
  using assms by (auto simp: assess_physical_def catchE_def bindE_def split: sum.splits if_splits)

lemma reclaimed:
  assumes "assess_physical schema at_pair control candidate = Inr (p, [])" "schema = 1 \<or> schema = 2"
  shows "storage_ok schema control candidate"
proof -
  note r = read_physical_Inr [OF assess_physical_Nil(1) [OF assms(1)]]
  note n = physical_failures_Nil [OF assess_physical_Nil(2) [OF assms(1)]]
  have "artifacts_ok schema candidate"
  proof -
    have "if schema = 1 then data_files a = 1
         else \<exists>is i. final_durable_snapshot_indexes candidate = Inr is \<and> map_of is node = Some i \<and> data_files a = (if 0 < i then 1 else 0)"
      if a: "(node, a) \<in> set (artifacts_by_node p)" for node a
    proof (cases "schema = 1")
      case True
      then show ?thesis using r(11) n(5) a by (auto simp: snapshot_index_def expected_files_def)
    next
      case False
      with assms(2) r(11) obtain "is" where i: "final_durable_snapshot_indexes candidate = Inr is" "indexes_by_node p = Some is" by auto
      have "node \<in> set (map fst is)" using artifact_names [OF r(9)] index_names [OF i(1)] a by force
      then obtain k where "map_of is node = Some k" by (metis list.set_map map_of_eq_None_iff not_Some_eq)
      then show ?thesis using False i n(5) a by (auto simp: snapshot_index_def expected_files_def)
    qed
    then show ?thesis using r(9) n(5) artifact_names [OF r(9)] unfolding artifacts_ok_def by fastforce
  qed
  moreover have "journals_ok candidate" using r(10) n(6) application_names [OF r(10)] unfolding journals_ok_def by blast
  ultimately show ?thesis using r(1-8) n(1-4) unfolding storage_ok_def shrinks_def by simp
qed


section \<open>The suite\<close>

lemma assess_pair_clean:
  assumes "assess_pair schema prior variant rate control candidate n f = Inr (f', q)" "clean_suite f'" "schema = 1 \<or> schema = 2"
  shows "clean_suite f \<and> pair_ok schema rate control candidate"
proof -
  obtain same a b compacted upper p restart m m' c x missed where
    h: "same_setup control candidate = Inr same" "source_failures (py_str prior) rate control = Inr a" "source_failures (py_str variant) rate candidate = Inr b"
      "\<exists>ms. try_value (0, 0) (compaction candidate) = Inr ((compacted, upper), ms) \<and> ms = []"
      "\<exists>s. assess_physical schema s control candidate = Inr (p, [])"
      "try_value 0 (restart_ns candidate) = Inr (restart, [])" "case_metrics control = Inr m" "case_metrics candidate = Inr m'"
      "throughput_ratio c m m' = Inr x" "pair_failures (py_str variant) rate control candidate x (a @ b) = Inr missed" "missed = []" "same" "clean_suite f"
    using assms(1,2) unfolding assess_pair_def Let_def by (clarsimp simp del: py_eq.simps) blast
  have "\<exists>n m. compaction candidate = Inr (n, m) \<and> 0 < n" using h(4) by (auto simp: try_value_Nil dest: compaction_positive)
  moreover have "\<exists>t>0. restart_ns candidate = Inr t" using h(6) by (auto simp: try_value_Nil dest: restart_positive)
  moreover have "service_ok rate control candidate" using pair_failures_Nil [OF h(2,3) h(7-10) [unfolded h(11)]] .
  moreover have "storage_ok schema control candidate" using h(5) reclaimed assms(3) by blast
  ultimately show ?thesis using h(1,12,13) by (simp add: pair_ok_def)
qed

text \<open>The unique pair of a repetition.\<close>

definition repetition_ok :: "int \<Rightarrow> pyval list \<Rightarrow> pyval \<Rightarrow> pyval \<Rightarrow> pyval \<Rightarrow> int \<Rightarrow> bool" where
  "repetition_ok schema cs prior variant rate n \<longleftrightarrow> (\<exists>control candidate. keyed timing_key cs [prior, rate, PInt n] = [control] \<and>
     keyed timing_key cs [variant, rate, PInt n] = [candidate] \<and> pair_ok schema rate control candidate)"

lemma pair_step_clean:
  assumes "group_cases timing_key cs = Inr grouped" "pair_step schema grouped prior variant rate s n = Inr s'" "clean_suite (fst s')" "schema = 1 \<or> schema = 2"
  shows "clean_suite (fst s) \<and> repetition_ok schema cs prior variant rate n"
proof -
  obtain f paired where s: "s = (f, paired)" by (cases s)
  obtain controls candidates where g: "group_get grouped [prior, rate, PInt n] = Inr controls" "group_get grouped [variant, rate, PInt n] = Inr candidates"
    using assms(2) by (auto simp: s pair_step_def)
  have "\<exists>control candidate f' q. controls = [control] \<and> candidates = [candidate] \<and> assess_pair schema prior variant rate control candidate n f = Inr (f', q) \<and> clean_suite f'"
    using assms(2,3) by (auto simp: s pair_step_def g split: list.splits)
  then show ?thesis using group_get_keyed [OF assms(1) g(1)] group_get_keyed [OF assms(1) g(2)] assess_pair_clean assms(4)
    unfolding s repetition_ok_def by fastforce
qed

lemma rate_step_clean:
  assumes "group_cases timing_key cs = Inr grouped" "rate_step schema grouped diagnostics prior variant interval runs s rate = Inr s'" "clean_suite (fst s')"
    "schema = 1 \<or> schema = 2"
  shows "clean_suite (fst s) \<and> (\<exists>ns. run_range runs = Inr ns \<and> (\<forall>n\<in>set ns. repetition_ok schema cs prior variant rate n))"
proof -
  obtain f rows where s: "s = (f, rows)" by (cases s)
  obtain ns f' paired where l: "run_range runs = Inr ns" "foldE (pair_step schema grouped prior variant rate) (f, []) ns = Inr (f', paired)" "clean_suite f'"
    using assms(2,3) by (auto simp: s rate_step_def split: if_splits)
  have "clean_suite (fst (f, [] :: pair list)) \<and> (\<forall>n\<in>set ns. repetition_ok schema cs prior variant rate n)"
    by (rule foldE_clean [OF l(2), where C = "\<lambda>s. clean_suite (fst s)"]) (use l(3) pair_step_clean [OF assms(1) _ _ assms(4)] in auto)
  then show ?thesis using l(1) s by auto
qed

text \<open>Every declared rate and repetition of a candidate.\<close>

definition arm_ok :: "int \<Rightarrow> pyval list \<Rightarrow> pyval \<Rightarrow> pyval \<Rightarrow> pyval \<Rightarrow> pyval \<Rightarrow> bool" where
  "arm_ok schema cs prior rates runs arm \<longleftrightarrow> (\<exists>variant interval rs. subscript arm 0 = Inr variant \<and> subscript arm 7 = Inr (PInt interval) \<and> 0 < interval \<and>
     iter_of rates = Inr rs \<and> (\<forall>rate\<in>set rs. \<exists>ns. run_range runs = Inr ns \<and> (\<forall>n\<in>set ns. repetition_ok schema cs prior variant rate n)))"

lemma arm_step_clean:
  assumes "group_cases timing_key cs = Inr grouped" "arm_step schema grouped diagnostics prior rates runs s arm = Inr s'" "clean_suite (fst s')"
    "schema = 1 \<or> schema = 2"
  shows "clean_suite (fst s) \<and> arm_ok schema cs prior rates runs arm"
proof -
  obtain f rows where s: "s = (f, rows)" by (cases s)
  obtain variant v where v: "subscript arm 0 = Inr variant" "subscript arm 7 = Inr v" using assms(2) by (auto simp: s arm_step_def)
  obtain interval rs where r: "positive_or [] v = Inr interval" "iter_of rates = Inr rs"
    "foldE (rate_step schema grouped diagnostics prior variant interval runs) (f, rows) rs = Inr s'"
    using assms(2,3) by (auto simp: s arm_step_def v split: sum.splits)
  have "clean_suite (fst (f, rows)) \<and> (\<forall>rate\<in>set rs. \<exists>ns. run_range runs = Inr ns \<and> (\<forall>n\<in>set ns. repetition_ok schema cs prior variant rate n))"
    by (rule foldE_clean [OF r(3), where C = "\<lambda>s. clean_suite (fst s)"]) (use assms(3) rate_step_clean [OF assms(1) _ _ assms(4)] in auto)
  then show ?thesis using v r(1,2) by (auto simp: s arm_ok_def)
qed

lemma assess_cases_clean:
  assumes "assess_cases schema data = Inr (f, rows)" "clean_suite f" "schema = 1 \<or> schema = 2"
  shows "\<exists>cs arms p prior candidates rates runs. timing_cases data = Inr cs \<and> bindE (suite_get data ''arms'' (PList [])) iter_of = Inr arms \<and>
    filterE is_prior arms = Inr [p] \<and> subscript p 0 = Inr prior \<and> bindE (labelled_arm prior arms) snapshot_disabled = Inr True \<and>
    filterE is_candidate arms = Inr candidates \<and> candidates \<noteq> [] \<and> suite_get data ''rates'' (PList []) = Inr rates \<and>
    suite_get data ''runs'' (PInt 0) = Inr runs \<and> (\<forall>arm\<in>set candidates. arm_ok schema cs prior rates runs arm)"
proof -
  obtain cs arms ps labels candidates rates runs f0 f1 diagnostics grouped messages where
    h: "timing_cases data = Inr cs" "group_cases timing_key cs = Inr grouped" "bindE (suite_get data ''arms'' (PList [])) iter_of = Inr arms"
      "filterE is_prior arms = Inr ps" "mapE (\<lambda>arm. subscript arm 0) ps = Inr labels" "filterE is_candidate arms = Inr candidates"
      "prior_failures arms labels = Inr messages" "suite_get data ''rates'' (PList []) = Inr rates" "suite_get data ''runs'' (PInt 0) = Inr runs"
      "f1 = add_evidence (message_if (list_ex (\<lambda>(_, cs). length cs \<noteq> 1) grouped) ''timing cases are not unique by variant, rate, and repetition''
            @ message_if (length labels \<noteq> 1) ''reclamation comparison requires exactly one no-snapshot prior''
            @ message_if (candidates = []) ''reclamation comparison has no snapshot-aware candidate'' @ messages) f0"
      "foldE (arm_step schema grouped diagnostics (prior_of labels) rates runs) (f1, []) candidates = Inr (f, rows)"
    using assms(1) unfolding assess_cases_def Let_def bindE_eq_Inr by blast
  have c: "clean_suite (fst (f1, [] :: pydict list)) \<and> (\<forall>arm\<in>set candidates. arm_ok schema cs (prior_of labels) rates runs arm)"
    by (rule foldE_clean [OF h(11), where C = "\<lambda>s. clean_suite (fst s)"]) (use assms(2) arm_step_clean [OF h(2) _ _ assms(3)] in auto)
  then have n: "length labels = 1" "candidates \<noteq> []" "messages = []" by (auto simp: h(10))
  then obtain prior where prior: "labels = [prior]" by (auto simp: length_Suc_conv)
  obtain p where p: "ps = [p]" using mapE_length [OF h(5)] n(1) by (cases ps) auto
  have label: "subscript p 0 = Inr prior" using h(5) by (simp add: p prior)
  have "bindE (labelled_arm prior arms) snapshot_disabled = Inr True" using h(7) n(3) by (auto simp: prior_failures_def prior)
  then show ?thesis using h(1,3,4,6,8,9) p label n(2) c unfolding prior prior_of_def by auto
qed


text \<open>A suite with one candidate, a fixed rate and saturation.\<close>

definition sample_node :: "int \<Rightarrow> int \<Rightarrow> string \<Rightarrow> pykey \<times> pyval" where
  "sample_node journal files node = kv node (PDict
     [kv ''files'' (PList [PDict [kv ''path'' (PStr (''node-'' @ node @ ''/application.wal'')), kv ''category'' (PStr ''application_journal''),
        kv ''allocated_bytes'' (PInt journal)]]),
      kv ''totals'' (PDict [kv ''raft_snapshot_data'' (PDict [kv ''files'' (PInt files)]), kv ''raft_snapshot_metadata'' (PDict [kv ''files'' (PInt files)]),
        kv ''raft_snapshot_temporary'' (PDict [kv ''files'' (PInt 0)])])])"

definition sample_checkpoint :: "int \<Rightarrow> int \<Rightarrow> int \<Rightarrow> pyval" where
  "sample_checkpoint raft journal files = PDict
     [kv ''totals'' (PDict [kv ''raft_wal_data'' (PDict [kv ''allocated_bytes'' (PInt raft)]), kv ''raft_wal_metadata'' (PDict [kv ''allocated_bytes'' (PInt 10)]),
        kv ''raft_snapshot_data'' (PDict [kv ''allocated_bytes'' (PInt (20 * files))]), kv ''raft_snapshot_metadata'' (PDict [kv ''allocated_bytes'' (PInt (10 * files))]),
        kv ''raft_snapshot_temporary'' (PDict [kv ''allocated_bytes'' (PInt 0)]), kv ''application_journal'' (PDict [kv ''allocated_bytes'' (PInt journal)])]),
      kv ''nodes'' (PDict (map (sample_node journal files) [''1'', ''2'', ''3'']))]"

definition sample_load_case :: "string \<Rightarrow> int \<Rightarrow> int \<Rightarrow> int \<Rightarrow> int \<Rightarrow> int \<Rightarrow> pyval" where
  "sample_load_case variant rate throughput raft journal files = PDict
     [kv ''smoke'' (PBool False), kv ''measurement_mode'' (PStr ''timing''), kv ''qualification'' (PStr ''passed''),
      kv ''configuration'' (PDict [kv ''variant'' (PStr variant), kv ''hard_state'' (PStr ''wal'')]),
      kv ''workload'' (PDict [kv ''offered_per_second'' (PInt rate)]), kv ''repetition'' (PInt 1),
      kv ''metrics'' (PDict [kv ''throughput_ops_s'' (PInt throughput), kv ''client_p99_ms'' (PInt 5), kv ''client_p999_ms'' (PInt 10)]),
      kv ''accounting'' (PDict [kv ''errors'' (PInt 0), kv ''unknown'' (PInt 0), kv ''not_issued'' (PInt 0)]),
      kv ''storage_footprint'' (PDict [kv ''snapshots'' (PDict [kv ''after_measurement'' (sample_checkpoint raft journal files),
        kv ''after_final_restart'' (sample_checkpoint raft journal files)])]),
      kv ''recovery'' (PDict [kv ''timing'' (PDict [kv ''process_restart_ns'' (PInt 250)])]),
      kv ''final_snapshot_indexes'' (PDict (map (\<lambda>node. kv node (PInt (100 * files))) [''1'', ''2'', ''3''])),
      kv ''snapshot_reclamation'' (PDict [kv ''nodes'' (PDict [kv ''1'' (PDict [kv ''measurement_compaction''
        (PDict [kv ''samples'' (PInt files), kv ''max_upper_bound_ns'' (PInt 7)])])])])]"

definition sample_arm :: "string \<Rightarrow> string \<Rightarrow> int \<Rightarrow> pyval" where
  "sample_arm label role interval = PList [PStr label, PStr ''rafter'', PInt 32, PStr role, PInt 1, PBool False, PInt 8, PInt interval]"

definition sample_control :: pyval where
  "sample_control = sample_load_case ''prior'' 30 30 1000 200 0"

definition sample_candidate :: pyval where
  "sample_candidate = sample_load_case ''snap'' 30 30 100 20 1"

definition sample_load_suite :: pyval where
  "sample_load_suite = PDict [kv ''qualification'' (PStr ''passed''), kv ''qualification_errors'' (PList []),
     kv ''suite'' (PDict [kv ''kind'' (PStr ''reclamation-under-load''), kv ''arms'' (PList [sample_arm ''prior'' ''prior'' 0, sample_arm ''snap'' ''candidate'' 100]),
       kv ''rates'' (PList [PInt 30]), kv ''runs'' (PInt 1)]),
     kv ''cases'' (PList [sample_control, sample_candidate])]"

definition sample_artifact :: snapshot_artifacts where
  "sample_artifact = \<lparr>data_files = 1, metadata_files = 1, temporary_files = 0\<rparr>"

definition sample_journal :: application_artifacts where
  "sample_journal = \<lparr>journal_files = 1, checkpoint_temporaries = 0\<rparr>"

definition sample_physical :: physical where
  "sample_physical = \<lparr>control_wal = 1000, candidate_wal = 100, control_snapshot = 0, candidate_snapshot = 20, control_managed = 1010, candidate_managed = 140,
     control_final_managed = 1010, candidate_final_managed = 140, control_application = 200, candidate_application = 20, control_final_application = 200,
     candidate_final_application = 20, artifacts_by_node = [(''1'', sample_artifact), (''2'', sample_artifact), (''3'', sample_artifact)],
     indexes_by_node = Some [(''1'', 100), (''2'', 100), (''3'', 100)],
     application_by_node = [(''1'', sample_journal), (''2'', sample_journal), (''3'', sample_journal)]\<rparr>"

definition sample_pair :: pair where
  "sample_pair = \<lparr>repetition = 1, ratio_of = Fl 1, p99_regression = PInt 0, p999_regression = PInt 0, candidate_throughput = PInt 30, control_throughput = PInt 30,
     compactions = 1, compaction_max = 7, storage = sample_physical, pair_restart_ns = 250\<rparr>"

definition sample_metrics :: pyval where
  "sample_metrics = PDict [kv ''throughput_ops_s'' (PInt 30), kv ''client_p99_ms'' (PInt 5), kv ''client_p999_ms'' (PInt 10)]"

lemma sample_stages:
  "same_setup sample_control sample_candidate = Inr True"
  "source_failures ''prior'' (PInt 30) sample_control = Inr []" "source_failures ''snap'' (PInt 30) sample_candidate = Inr []"
  "try_value (0, 0) (compaction sample_candidate) = Inr ((1, 7), [])" "try_value 0 (restart_ns sample_candidate) = Inr (250, [])"
  "case_metrics sample_control = Inr sample_metrics" "case_metrics sample_candidate = Inr sample_metrics"
  "comparable sample_metrics sample_metrics = Inr True" "throughput_ratio True sample_metrics sample_metrics = Inr (Fl 1)"
  "tail_regression True sample_metrics sample_metrics ''client_p99_ms'' = Inr (PInt 0)"
  "tail_regression True sample_metrics sample_metrics ''client_p999_ms'' = Inr (PInt 0)"
  "pair_failures ''snap'' (PInt 30) sample_control sample_candidate (Fl 1) [] = Inr []"
  "get sample_metrics ''throughput_ops_s'' = Inr (PInt 30)"
  by code_simp+

lemma sample_reclaims: "assess_physical 2 at_pair sample_control sample_candidate = Inr (sample_physical, [])"
proof -
  have "read_physical 2 sample_control sample_candidate = Inr sample_physical" by code_simp
  moreover have "physical_failures 2 at_pair sample_physical = []"
    by (simp add: physical_failures_def sample_physical_def retained_def artifact_failures_def application_failures_def file_failure_def
      snapshot_index_def expected_files_def sample_artifact_def sample_journal_def)
  ultimately show ?thesis by (simp add: assess_physical_def catchE_def)
qed

lemma no_failures_add [simp]:
  "add_evidence [] no_failures = no_failures" "add_service [] no_failures = no_failures"
  "add_activity [] no_failures = no_failures" "add_physical [] no_failures = no_failures"
  by (simp_all add: add_evidence_def add_service_def add_activity_def add_physical_def no_failures_def)

lemma sample_assessed: "assess_pair 2 (PStr ''prior'') (PStr ''snap'') (PInt 30) sample_control sample_candidate 1 no_failures = Inr (no_failures, sample_pair)"
  unfolding assess_pair_def Let_def py_str_simps
  by (simp only: sample_stages sample_reclaims bindE_simps prod.case list.map append_Nil) (simp add: message_if_def sample_pair_def)

lemma sample_groups:
  "timing_cases sample_load_suite = Inr [sample_control, sample_candidate]"
  "group_cases timing_key [sample_control, sample_candidate] =
     Inr [([PStr ''prior'', PInt 30, PInt 1], [sample_control]), ([PStr ''snap'', PInt 30, PInt 1], [sample_candidate])]"
  "bindE (mode_cases ''diagnostic'' sample_load_suite) (group_cases diagnostic_key) = Inr []"
  "suite_failures sample_load_suite = Inr no_failures"
  by code_simp+

lemma sample_row: "\<exists>row. rate_row (PStr ''snap'') 100 (PInt 30) [sample_pair] ([], [], []) = Inr row"
proof -
  have "case rate_row (PStr ''snap'') 100 (PInt 30) [sample_pair] ([], [], []) of Inr _ \<Rightarrow> True | Inl _ \<Rightarrow> False" by code_simp
  then show ?thesis by (simp split: sum.splits)
qed

lemma sample_arms:
  "bindE (suite_get sample_load_suite ''arms'' (PList [])) iter_of = Inr [sample_arm ''prior'' ''prior'' 0, sample_arm ''snap'' ''candidate'' 100]"
  "bindE (filterE is_prior [sample_arm ''prior'' ''prior'' 0, sample_arm ''snap'' ''candidate'' 100]) (mapE (\<lambda>arm. subscript arm 0)) = Inr [PStr ''prior'']"
  "filterE is_candidate [sample_arm ''prior'' ''prior'' 0, sample_arm ''snap'' ''candidate'' 100] = Inr [sample_arm ''snap'' ''candidate'' 100]"
  "prior_failures [sample_arm ''prior'' ''prior'' 0, sample_arm ''snap'' ''candidate'' 100] [PStr ''prior''] = Inr []"
  "suite_get sample_load_suite ''rates'' (PList []) = Inr (PList [PInt 30])" "suite_get sample_load_suite ''runs'' (PInt 0) = Inr (PInt 1)"
  "subscript (sample_arm ''snap'' ''candidate'' 100) 0 = Inr (PStr ''snap'')" "subscript (sample_arm ''snap'' ''candidate'' 100) 7 = Inr (PInt 100)"
  "run_range (PInt 1) = Inr [1]"
  by code_simp+

lemma sample_loop:
  "\<exists>rows. arm_step 2 [([PStr ''prior'', PInt 30, PInt 1], [sample_control]), ([PStr ''snap'', PInt 30, PInt 1], [sample_candidate])] [] (PStr ''prior'')
     (PList [PInt 30]) (PInt 1) (no_failures, []) (sample_arm ''snap'' ''candidate'' 100) = Inr (no_failures, rows)"
proof -
  let ?gs = "[([PStr ''prior'', PInt 30, PInt 1], [sample_control]), ([PStr ''snap'', PInt 30, PInt 1], [sample_candidate])]"
  have g: "group_get ?gs [PStr ''prior'', PInt 30, PInt 1] = Inr [sample_control]" "group_get ?gs [PStr ''snap'', PInt 30, PInt 1] = Inr [sample_candidate]"
    "group_get [] [PStr ''snap'', PInt 30] = Inr []"
    by (simp_all add: group_get_Inr hashable_def tuple_eq_def num_of_def num_eq_def)
  have pair: "pair_step 2 ?gs (PStr ''prior'') (PStr ''snap'') (PInt 30) (no_failures, []) 1 = Inr (no_failures, [sample_pair])"
    by (simp add: pair_step_def g sample_assessed)
  obtain row where "rate_row (PStr ''snap'') 100 (PInt 30) [sample_pair] ([], [], []) = Inr row" using sample_row by blast
  then have rate: "rate_step 2 ?gs [] (PStr ''prior'') (PStr ''snap'') 100 (PInt 1) (no_failures, []) (PInt 30) = Inr (no_failures, [row])"
    by (simp add: rate_step_def sample_arms pair g diagnostic_stages_def)
  have "positive_or [] (PInt 100) = Inr 100" "iter_of (PList [PInt 30]) = Inr [PInt 30]" by (simp_all add: iter_of_def)
  then show ?thesis unfolding arm_step_def by (simp add: sample_arms rate positive_or_def)
qed


end
