(* ===== verification/Feature_Coverage.thy ===== *)
theory Feature_Coverage
  imports Sealing
begin

text \<open>
  \<open>src/benchctl/feature_coverage.py\<close>: whether the features a suite selected were seen at work in its
  completed cases. The receipts of the cases are tallied per variant; a set of variants is a list,
  and the cases come in the order in which the directory lists them.
\<close>

section \<open>Completed cases\<close>

text \<open>\<open>output.glob("*/manifest.json")\<close>: the directories with a manifest.\<close>

definition case_dirs :: "fsnode \<Rightarrow> fsnode list" where
  "case_dirs output = (case resolve output of
     Some (Directory es) \<Rightarrow> filter (\<lambda>n. path_exists n ''manifest.json'') (map snd es)
   | _ \<Rightarrow> [])"

text \<open>The variant of a case that completed, when it is one of the variants asked for.\<close>

definition completed_variant :: "world \<Rightarrow> string list \<Rightarrow> fsnode \<Rightarrow> string option res" where
  "completed_variant w variants dir =
     (if path_exists dir ''failure.json'' \<or> \<not> path_exists dir ''outcome.json'' then Inr None
      else bindE (read_json w dir ''manifest.json'') (\<lambda>manifest.
        bindE (get_or manifest ''options'' (PDict [])) (\<lambda>options.
        bindE (get options ''variant'') (\<lambda>variant.
        bindE (require_hashable variant) (\<lambda>_.
        Inr (case variant of PStr v \<Rightarrow> if v \<in> set variants then Some v else None | _ \<Rightarrow> None))))))"

text \<open>The receipt a case contributes to its variant.\<close>

definition case_receipt :: "world \<Rightarrow> string \<Rightarrow> string list \<Rightarrow> fsnode \<Rightarrow> (string \<times> pyval) option res" where
  "case_receipt w name variants dir =
     bindE (completed_variant w variants dir) (\<lambda>v. case v of
       None \<Rightarrow> Inr None
     | Some variant \<Rightarrow>
         if \<not> path_exists dir name then Inr None
         else bindE (read_json w dir name) (\<lambda>receipt. Inr (Some (variant, receipt))))"

section \<open>Tallies\<close>

record tally =
  observed :: bool
  lookahead :: bool
  lookahead_recorded :: bool
  receipts :: int

definition no_tally :: "string \<Rightarrow> tally" where
  "no_tally v = \<lparr>observed = False, lookahead = False, lookahead_recorded = False, receipts = 0\<rparr>"

definition priority_tally :: "pyval \<Rightarrow> tally \<Rightarrow> tally res" where
  "priority_tally receipt t =
     bindE (get receipt ''observed_during_load'') (\<lambda>seen.
     bindE (get receipt ''schema'') (\<lambda>schema.
     bindE (get receipt ''observed_bounded_lookahead_during_load'') (\<lambda>bounded.
     Inr \<lparr>observed = observed t \<or> seen = PBool True, lookahead = lookahead t \<or> bounded = PBool True,
       lookahead_recorded = lookahead_recorded t \<or> py_eq schema (PInt 2), receipts = receipts t + 1\<rparr>)))"

text \<open>\<open>isinstance(combined, dict) and sum(combined.values()) > 0\<close>\<close>

definition combined_steps :: "pyval \<Rightarrow> bool res" where
  "combined_steps receipt =
     bindE (get receipt ''combined_peer_proposal_batches_by_node'') (\<lambda>combined. case combined of
       PDict d \<Rightarrow> bindE (foldE py_add (PInt 0) (map snd d)) (\<lambda>s. py_lt (PInt 0) s)
     | _ \<Rightarrow> Inr False)"

definition combined_tally :: "pyval \<Rightarrow> tally \<Rightarrow> tally res" where
  "combined_tally receipt t =
     bindE (combined_steps receipt) (\<lambda>seen. Inr (t\<lparr>observed := observed t \<or> seen, receipts := receipts t + 1\<rparr>))"

definition tally_case :: "world \<Rightarrow> string \<Rightarrow> string list \<Rightarrow> (pyval \<Rightarrow> tally \<Rightarrow> tally res) \<Rightarrow> (string \<Rightarrow> tally) \<Rightarrow> fsnode \<Rightarrow> (string \<Rightarrow> tally) res" where
  "tally_case w name variants count_receipt tallies dir =
     bindE (case_receipt w name variants dir) (\<lambda>r. case r of
       None \<Rightarrow> Inr tallies
     | Some (variant, receipt) \<Rightarrow> bindE (count_receipt receipt (tallies variant)) (\<lambda>t. Inr (tallies(variant := t))))"

definition tally_cases :: "world \<Rightarrow> fsnode \<Rightarrow> string \<Rightarrow> string list \<Rightarrow> (pyval \<Rightarrow> tally \<Rightarrow> tally res) \<Rightarrow> (string \<Rightarrow> tally) res" where
  "tally_cases w output name variants count_receipt = foldE (tally_case w name variants count_receipt) no_tally (case_dirs output)"

section \<open>Checks\<close>

definition priority_passed :: "tally \<Rightarrow> bool" where
  "priority_passed t = (observed t \<and> (\<not> lookahead_recorded t \<or> lookahead t))"

definition priority_detail :: "tally \<Rightarrow> string" where
  "priority_detail t =
     (if \<not> observed t then ''durable completion-priority activity was not observed in any completed case''
      else if lookahead_recorded t \<and> \<not> lookahead t then ''bounded completion-priority lookahead was not observed in any completed case''
      else if \<not> lookahead_recorded t then ''completion-priority activity was observed; legacy receipts did not record bounded lookahead''
      else ''completion-priority and bounded-lookahead activity were both observed'')"

definition priority_check :: "(string \<Rightarrow> tally) \<Rightarrow> string \<Rightarrow> pydict" where
  "priority_check tallies variant =
     (let t = tallies variant in
      [kv ''feature'' (PStr ''durable_completion_priority''), kv ''variant'' (PStr variant),
       kv ''status'' (PStr (if priority_passed t then ''passed'' else ''incomplete'')),
       kv ''observations'' (PDict [kv ''priority_paths'' (PStr (if observed t then ''passed'' else ''not observed'')),
         kv ''bounded_lookahead'' (PStr (if lookahead t then ''passed'' else if lookahead_recorded t then ''not observed'' else ''not recorded'')),
         kv ''receipts'' (PInt (receipts t))]),
       kv ''detail'' (PStr (priority_detail t))])"

definition completion_priority_checks :: "world \<Rightarrow> fsnode \<Rightarrow> string list \<Rightarrow> pydict list res" where
  "completion_priority_checks w output variants =
     bindE (tally_cases w output ''completion-priority-activity.json'' variants priority_tally) (\<lambda>tallies.
     Inr (map (priority_check tallies) (sort (remdups variants))))"

definition combined_check :: "(string \<Rightarrow> tally) \<Rightarrow> string \<Rightarrow> pydict" where
  "combined_check tallies variant =
     (let t = tallies variant in
      [kv ''feature'' (PStr ''combined_peer_proposals''), kv ''variant'' (PStr variant),
       kv ''status'' (PStr (if observed t then ''passed'' else ''incomplete'')),
       kv ''observations'' (PDict [kv ''combined_steps'' (PStr (if observed t then ''passed'' else ''not observed'')), kv ''receipts'' (PInt (receipts t))]),
       kv ''detail'' (PStr (if observed t then ''combined peer/proposal steps were observed''
         else ''selected combined peer/proposal mode executed no combined steps in any completed case''))])"

definition combined_step_checks :: "world \<Rightarrow> fsnode \<Rightarrow> string list \<Rightarrow> pydict list res" where
  "combined_step_checks w output variants =
     bindE (tally_cases w output ''pipeline-activity.json'' variants combined_tally) (\<lambda>tallies.
     Inr (map (combined_check tallies) (sort (remdups variants))))"

definition check_passed :: "pydict \<Rightarrow> bool" where
  "check_passed d = py_eq (dict_get d ''status'' PNone) (PStr ''passed'')"

definition feature_verdict :: "world \<Rightarrow> fsnode \<Rightarrow> string list \<Rightarrow> string list \<Rightarrow> pydict res" where
  "feature_verdict w output completion_priority combined =
     bindE (completion_priority_checks w output completion_priority) (\<lambda>first.
     bindE (combined_step_checks w output combined) (\<lambda>second.
     let checks = first @ second in
     Inr [kv ''status'' (PStr (if checks = [] then ''not selected'' else if list_all check_passed checks then ''passed'' else ''incomplete'')),
       kv ''checks'' (PList (map PDict checks)),
       kv ''scope'' (PStr ''workload observation only; deterministic code-path tests run in the locked Rust build'')]))"

section \<open>Tallies against the receipts\<close>

text \<open>The receipts of a variant among the cases of a suite.\<close>

definition variant_receipts :: "world \<Rightarrow> string \<Rightarrow> string list \<Rightarrow> fsnode list \<Rightarrow> string \<Rightarrow> pyval set" where
  "variant_receipts w name variants dirs v = {r. \<exists>dir\<in>set dirs. case_receipt w name variants dir = Inr (Some (v, r))}"

definition priority_seen :: "pyval \<Rightarrow> bool" where
  "priority_seen r \<longleftrightarrow> get r ''observed_during_load'' = Inr (PBool True)"

definition lookahead_seen :: "pyval \<Rightarrow> bool" where
  "lookahead_seen r \<longleftrightarrow> get r ''observed_bounded_lookahead_during_load'' = Inr (PBool True)"

definition records_lookahead :: "pyval \<Rightarrow> bool" where
  "records_lookahead r \<longleftrightarrow> (\<exists>s. get r ''schema'' = Inr s \<and> py_eq s (PInt 2))"

lemma variant_receipts_snoc:
  "variant_receipts w name variants (dirs @ [dir]) v = variant_receipts w name variants dirs v \<union> {r. case_receipt w name variants dir = Inr (Some (v, r))}"
  by (auto simp: variant_receipts_def)

text \<open>A flag that every receipt sets or leaves alone says whether some receipt sets it.\<close>

lemma tally_flag:
  assumes run: "tally_cases w output name variants count_receipt = Inr tallies"
    and flag: "\<And>r t t'. count_receipt r t = Inr t' \<Longrightarrow> flag t' \<longleftrightarrow> flag t \<or> P r" "\<And>v. \<not> flag (no_tally v)"
  shows "flag (tallies v) \<longleftrightarrow> (\<exists>r\<in>variant_receipts w name variants (case_dirs output) v. P r)"
proof -
  have "\<forall>v. flag (tallies v) \<longleftrightarrow> (\<exists>r\<in>variant_receipts w name variants (case_dirs output) v. P r)"
  proof (rule foldE_invariant [OF run [unfolded tally_cases_def], where P = "\<lambda>dirs tallies. \<forall>v. flag (tallies v) \<longleftrightarrow> (\<exists>r\<in>variant_receipts w name variants dirs v. P r)"])
    show "\<forall>v. flag (no_tally v) \<longleftrightarrow> (\<exists>r\<in>variant_receipts w name variants [] v. P r)"
      using flag(2) by (simp add: variant_receipts_def)
  next
    fix "done" dir rest tallies tallies'
    assume ih: "\<forall>v. flag (tallies v) \<longleftrightarrow> (\<exists>r\<in>variant_receipts w name variants done v. P r)"
      and step: "tally_case w name variants count_receipt tallies dir = Inr tallies'"
    obtain q where q: "case_receipt w name variants dir = Inr q" using step by (auto simp: tally_case_def)
    show "\<forall>v. flag (tallies' v) \<longleftrightarrow> (\<exists>r\<in>variant_receipts w name variants (done @ [dir]) v. P r)"
    proof (cases q)
      case None
      then show ?thesis using ih step q by (simp add: tally_case_def variant_receipts_snoc)
    next
      case (Some p)
      obtain u r where p: "p = (u, r)" by fastforce
      obtain t where t: "count_receipt r (tallies u) = Inr t" "tallies' = tallies(u := t)"
        using step q by (auto simp: tally_case_def Some p)
      then show ?thesis using ih flag(1) [OF t(1)] q by (auto simp: variant_receipts_snoc Some p)
    qed
  qed
  then show ?thesis by blast
qed

lemma priority_flags:
  assumes "tally_cases w output name variants priority_tally = Inr tallies"
  shows "priority_passed (tallies v) \<longleftrightarrow>
    (\<exists>r\<in>variant_receipts w name variants (case_dirs output) v. priority_seen r) \<and>
    ((\<exists>r\<in>variant_receipts w name variants (case_dirs output) v. records_lookahead r) \<longrightarrow>
     (\<exists>r\<in>variant_receipts w name variants (case_dirs output) v. lookahead_seen r))"
proof -
  let ?rs = "variant_receipts w name variants (case_dirs output) v"
  have "observed t' \<longleftrightarrow> observed t \<or> priority_seen r" "lookahead t' \<longleftrightarrow> lookahead t \<or> lookahead_seen r"
    "lookahead_recorded t' \<longleftrightarrow> lookahead_recorded t \<or> records_lookahead r" if "priority_tally r t = Inr t'" for r t t'
    using that by (auto simp: priority_tally_def priority_seen_def lookahead_seen_def records_lookahead_def simp del: py_eq.simps)
  then have "observed (tallies v) \<longleftrightarrow> (\<exists>r\<in>?rs. priority_seen r)" "lookahead (tallies v) \<longleftrightarrow> (\<exists>r\<in>?rs. lookahead_seen r)"
    "lookahead_recorded (tallies v) \<longleftrightarrow> (\<exists>r\<in>?rs. records_lookahead r)"
    by (intro tally_flag [OF assms]; simp add: no_tally_def)+
  then show ?thesis by (auto simp: priority_passed_def)
qed

lemma combined_flags:
  assumes "tally_cases w output name variants combined_tally = Inr tallies"
  shows "observed (tallies v) \<longleftrightarrow> (\<exists>r\<in>variant_receipts w name variants (case_dirs output) v. combined_steps r = Inr True)"
proof (rule tally_flag [OF assms])
  fix r t t' assume "combined_tally r t = Inr t'"
  then show "observed t' \<longleftrightarrow> observed t \<or> combined_steps r = Inr True" by (auto simp: combined_tally_def)
qed (simp add: no_tally_def)

lemma check_passed_simps:
  "check_passed (priority_check tallies v) \<longleftrightarrow> priority_passed (tallies v)"
  "check_passed (combined_check tallies v) \<longleftrightarrow> observed (tallies v)"
  by (simp_all add: check_passed_def priority_check_def combined_check_def Let_def dict_get_def)

lemma sorted_empty: "sort (remdups xs) = [] \<longleftrightarrow> xs = []"
  by (metis remdups_eq_nil_iff set_empty set_sort)

section \<open>Properties\<close>

text \<open>C36: feature coverage is reported exactly when it was observed. The verdict is passed if and only
  if a feature was selected, every variant with completion priority has a completed case whose
  receipt saw it at work, and saw its bounded lookahead when any receipt of the variant records
  that, and every variant with combined proposals has a completed case with combined steps.\<close>

theorem coverage_passed_iff:
  assumes "feature_verdict w output priority combined = Inr d"
  shows "dict_get d ''status'' PNone = PStr ''passed'' \<longleftrightarrow>
    (priority \<noteq> [] \<or> combined \<noteq> []) \<and>
    (\<forall>v\<in>set priority. let rs = variant_receipts w ''completion-priority-activity.json'' priority (case_dirs output) v in
       (\<exists>r\<in>rs. priority_seen r) \<and> ((\<exists>r\<in>rs. records_lookahead r) \<longrightarrow> (\<exists>r\<in>rs. lookahead_seen r))) \<and>
    (\<forall>v\<in>set combined. \<exists>r\<in>variant_receipts w ''pipeline-activity.json'' combined (case_dirs output) v. combined_steps r = Inr True)"
proof -
  obtain first second where f: "tally_cases w output ''completion-priority-activity.json'' priority priority_tally = Inr first"
    and s: "tally_cases w output ''pipeline-activity.json'' combined combined_tally = Inr second"
    and d: "d = [kv ''status'' (PStr (if map (priority_check first) (sort (remdups priority)) @ map (combined_check second) (sort (remdups combined)) = []
        then ''not selected'' else if list_all check_passed (map (priority_check first) (sort (remdups priority)) @ map (combined_check second) (sort (remdups combined)))
        then ''passed'' else ''incomplete'')),
      kv ''checks'' (PList (map PDict (map (priority_check first) (sort (remdups priority)) @ map (combined_check second) (sort (remdups combined))))),
      kv ''scope'' (PStr ''workload observation only; deterministic code-path tests run in the locked Rust build'')]"
    using assms by (auto simp: feature_verdict_def completion_priority_checks_def combined_step_checks_def Let_def)
  have status: "dict_get d ''status'' PNone = PStr ''passed'' \<longleftrightarrow> (priority \<noteq> [] \<or> combined \<noteq> []) \<and>
      (\<forall>v\<in>set priority. priority_passed (first v)) \<and> (\<forall>v\<in>set combined. observed (second v))"
    unfolding d by (simp add: dict_get_def list_all_iff ball_Un check_passed_simps sorted_empty)
  show ?thesis unfolding status Let_def priority_flags [OF f] combined_flags [OF s] ..
qed

definition coverage_loads :: "string \<Rightarrow> pyval res" where
  "coverage_loads s =
     (if s = ''M'' then Inr (PDict [kv ''options'' (PDict [kv ''variant'' (PStr ''a'')])])
      else if s = ''R'' then Inr (PDict [kv ''schema'' (PInt 2), kv ''observed_during_load'' (PBool True), kv ''observed_bounded_lookahead_during_load'' (PBool True)])
      else Inr (PDict [kv ''combined_peer_proposal_batches_by_node'' (PDict [kv ''1'' (PInt 0), kv ''2'' (PInt 3)])]))"

definition coverage_world :: world where
  "coverage_world = \<lparr>sha256 = (\<lambda>s. s), loads = coverage_loads, dumps = (\<lambda>_. []), base_path = ''suite'', out_of_time = (\<lambda>_. False), recursion_limit = 900\<rparr>"

definition coverage_suite :: fsnode where
  "coverage_suite = Directory [(''001-case'', Directory [(''manifest.json'', Regular ''M'' 8), (''outcome.json'', Regular ''{}'' 8),
     (''completion-priority-activity.json'', Regular ''R'' 8), (''pipeline-activity.json'', Regular ''C'' 8)])]"

theorem coverage_passed_iff_witness:
  "\<exists>d. feature_verdict coverage_world coverage_suite [''a''] [''a''] = Inr d \<and> dict_get d ''status'' PNone = PStr ''passed'' \<and>
     (\<exists>r\<in>variant_receipts coverage_world ''completion-priority-activity.json'' [''a''] (case_dirs coverage_suite) ''a''. priority_seen r)"
proof -
  have "case feature_verdict coverage_world coverage_suite [''a''] [''a''] of Inr d \<Rightarrow> dict_get d ''status'' PNone = PStr ''passed'' | Inl _ \<Rightarrow> False"
    by code_simp
  then obtain d where d: "feature_verdict coverage_world coverage_suite [''a''] [''a''] = Inr d" "dict_get d ''status'' PNone = PStr ''passed''"
    by (cases "feature_verdict coverage_world coverage_suite [''a''] [''a'']") auto
  show ?thesis using coverage_passed_iff [OF d(1)] d by (auto simp: Let_def)
qed

end
