(* ===== verification/Durable_Suite.thy ===== *)
theory Durable_Suite
  imports Load_Assessment Feature_Coverage
begin

text \<open>
  The second part of \<open>src/benchctl/results.py\<close>: a durable suite is loaded from its directory. Its
  cases are verified and normalised, the recorded execution plan is derived again from the
  declaration and compared with the case directories, the host qualification and the reclamation
  assessment are replayed, and the suite qualifies when no reason against it was found. \<open>str(path)\<close>
  of the suite is \<open>base_path\<close>; below it the path of a case is appended.
\<close>

section \<open>Directories\<close>

definition below :: "world \<Rightarrow> string \<Rightarrow> world" where
  "below w name = w\<lparr>base_path := base_path w @ ''/'' @ name\<rparr>"

definition entries_of :: "fsnode \<Rightarrow> (string \<times> fsnode) list" where
  "entries_of dir = (case resolve dir of Some (Directory es) \<Rightarrow> es | _ \<Rightarrow> [])"

text \<open>\<open>sorted(directory.glob("*/manifest.json"))\<close>, as the names and directories of the cases.\<close>

definition case_entries :: "fsnode \<Rightarrow> (string \<times> fsnode) list" where
  "case_entries dir = sort_key fst (filter (\<lambda>(_, n). path_exists n ''manifest.json'') (entries_of dir))"

definition load_cases :: "world \<Rightarrow> fsnode \<Rightarrow> string \<Rightarrow> pydict list res" where
  "load_cases w dir prefix = mapE (\<lambda>(name, n). normalize_case (below w name) n (prefix @ name)) (case_entries dir)"

section \<open>The execution plan\<close>

text \<open>\<open>str.lower()\<close> on 8-bit characters.\<close>

definition lower_char :: "char \<Rightarrow> char" where
  "lower_char c = (let n = of_char c :: nat in
     if (65 \<le> n \<and> n \<le> 90) \<or> (192 \<le> n \<and> n \<le> 222 \<and> n \<noteq> 215) then char_of (n + 32) else c)"

definition py_lower :: "pyval \<Rightarrow> pyval res" where
  "py_lower v = (case v of PStr s \<Rightarrow> Inr (PStr (map lower_char s)) | _ \<Rightarrow> attr_error v ''lower'')"

definition exact_commit :: "pyval \<Rightarrow> bool" where
  "exact_commit repository = (case repository of
     PDict d \<Rightarrow> keys_are d [''commit'', ''status''] \<and>
       (case dict_get d ''commit'' PNone of PStr s \<Rightarrow> length s = 40 \<and> list_all is_hex s | _ \<Rightarrow> False) \<and>
       py_eq (dict_get d ''status'' PNone) (PStr ''clean'')
   | _ \<Rightarrow> False)"

definition repository_differs :: "pydict \<Rightarrow> pyval \<Rightarrow> bool res" where
  "repository_differs repository manifest =
     bindE (sub_get manifest ''host'' ''git'' (PDict [])) (\<lambda>git.
     bindE (get git ''returncode'') (\<lambda>code.
     if \<not> py_eq code (PInt 0) then Inr True
     else bindE (bindE (get_or git ''stdout'' (PStr [])) py_lower) (\<lambda>commit. Inr (\<not> py_eq commit (dict_get repository ''commit'' PNone)))))"

text \<open>The manifest of a case against its entry of the plan.\<close>

definition plan_item_errors :: "int \<Rightarrow> pyval \<Rightarrow> pyval \<Rightarrow> pyval \<Rightarrow> string list res" where
  "plan_item_errors schema repository entry manifest =
     bindE (item entry ''name'') (\<lambda>v. let name = py_str v in
     bindE (get manifest ''implementation'') (\<lambda>i. bindE (item entry ''implementation'') (\<lambda>j.
     bindE (get manifest ''scenario'') (\<lambda>scenario. bindE (get manifest ''smoke'') (\<lambda>smoke.
     bindE (get manifest ''options'') (\<lambda>options. bindE (item entry ''options'') (\<lambda>planned.
     bindE (if 5 \<le> schema then (case repository of PDict d \<Rightarrow> repository_differs d manifest | _ \<Rightarrow> Inr False) else Inr False) (\<lambda>other.
     Inr (message_if (\<not> py_eq i j) (''case implementation differs from plan: '' @ name)
       @ message_if (\<not> py_eq scenario (PStr ''durable-kv'') \<or> smoke \<noteq> PBool False) (''case classification differs from plan: '' @ name)
       @ message_if (\<not> py_eq options planned) (''case options differ from plan: '' @ name)
       @ message_if other (''case benchmark repository differs from suite: '' @ name))))))))))"

definition entry_name :: "pyval \<Rightarrow> string res" where
  "entry_name entry = bindE (item entry ''name'') (\<lambda>v. case v of PStr s \<Rightarrow> Inr s | _ \<Rightarrow> raiseE TypeError [])"

definition planned_errors :: "world \<Rightarrow> fsnode \<Rightarrow> int \<Rightarrow> pyval \<Rightarrow> pyval list \<Rightarrow> string list res" where
  "planned_errors w dir schema repository expected =
     bindE (mapE entry_name expected) (\<lambda>names.
     if set (map fst (case_entries dir)) \<noteq> set names then Inr [''primary case inventory differs from execution plan'']
     else bindE (mapE (\<lambda>(entry, name).
         bindE (case map_of (case_entries dir) name of Some n \<Rightarrow> read_json (below w name) n ''manifest.json'' | None \<Rightarrow> raiseE KeyError (quote name))
           (plan_item_errors schema repository entry)) (zip expected names)) (\<lambda>es. Inr (concat es)))"

definition plan_record_errors :: "int \<Rightarrow> pyval \<Rightarrow> pyval \<Rightarrow> pyval list \<Rightarrow> string list res" where
  "plan_record_errors schema suite repository expected =
     bindE (get suite ''execution_plan'') (\<lambda>recorded_plan.
     bindE (if 5 \<le> schema then bindE (get suite ''load_window_plan'') (\<lambda>v. bindE (load_window_plan expected) (\<lambda>p. Inr (\<not> py_eq v p))) else Inr False) (\<lambda>other.
     Inr (message_if (\<not> py_eq recorded_plan (PList expected)) ''recorded execution plan differs from suite declaration''
       @ message_if other ''recorded load-window plan differs from execution plan''
       @ message_if (5 \<le> schema \<and> \<not> exact_commit repository) ''benchmark repository identity is not an exact clean commit'')))"

definition execution_plan_errors :: "world \<Rightarrow> fsnode \<Rightarrow> pyval \<Rightarrow> string list res" where
  "execution_plan_errors w dir suite =
     bindE (get suite ''execution_plan'') (\<lambda>recorded_plan.
     bindE (get_or suite ''schema'' (PInt 1)) (\<lambda>v.
     case v of
       PInt schema \<Rightarrow>
         if schema \<notin> {1, 2, 3, 4, 5} then Inr [''unsupported durable suite schema'']
         else if schema < 3 then Inr (message_if (recorded_plan \<noteq> PNone) ''unexpected execution plan on legacy suite'')
         else (case execution_plan suite of
             Inl e \<Rightarrow> if class_of e \<in> {KeyError, TypeError, ValueError} then Inr [''execution plan could not be derived: '' @ str_of e] else Inl e
           | Inr expected \<Rightarrow>
               bindE (get suite ''benchmark_repository'') (\<lambda>repository.
               bindE (plan_record_errors schema suite repository expected) (\<lambda>a.
               bindE (planned_errors w dir schema repository expected) (\<lambda>b. Inr (a @ b)))))
     | _ \<Rightarrow> Inr [''unsupported durable suite schema'']))"

section \<open>Host qualification\<close>

text \<open>\<open>str(Path(s).parent)\<close>\<close>

definition path_root :: "string \<Rightarrow> string" where
  "path_root s = (if starts_with s ''//'' \<and> \<not> starts_with s ''///'' then ''//'' else if starts_with s ''/'' then ''/'' else [])"

definition parent_str :: "string \<Rightarrow> string" where
  "parent_str s = (let ps = butlast (path_parts s) in
     if ps = [] then (if path_root s = [] then ''.'' else path_root s) else path_root s @ as_posix ps)"

definition profile_dir :: "fsnode \<Rightarrow> fsnode" where
  "profile_dir dir = (case subtree dir [''machine-profile''] of Some n \<Rightarrow> n | None \<Rightarrow> Directory [])"

definition digest_of :: "world \<Rightarrow> fsnode \<Rightarrow> string \<Rightarrow> string res" where
  "digest_of w dir name = bindE (read_text w dir name) (\<lambda>text. Inr (sha256 w text))"

text \<open>The replay of the profile; what was noted before an exception is kept.\<close>

definition replay_profile :: "world \<Rightarrow> fsnode \<Rightarrow> pydict \<Rightarrow> (string list, unit) act" where
  "replay_profile w dir sealed =
     (let w' = below w ''machine-profile''; profile = profile_dir dir; note = (\<lambda>b m. modifyA (\<lambda>es. es @ message_if b m)) in
      bindA (liftA (verify w' profile)) (\<lambda>checked.
      bindA (note (\<not> py_eq (dict_get checked ''status'' PNone) (PStr ''passed'') \<or> \<not> py_eq (dict_get sealed ''status'' PNone) (PStr ''passed''))
        ''machine qualification did not pass replay'') (\<lambda>_.
      bindA (note (\<not> py_eq (dict_get sealed ''verification'' PNone) (dict_get checked ''verdicts'' PNone))
        ''machine qualification verification differs from replay'') (\<lambda>_.
      bindA (liftA (digest_of w' profile INDEX)) (\<lambda>sha.
      note (\<not> py_eq (dict_get sealed ''seal_sha256'' PNone) (PStr sha)) ''machine profile seal digest differs'')))))"

definition check_machine_receipt :: "world \<Rightarrow> fsnode \<Rightarrow> pyval \<Rightarrow> pydict \<Rightarrow> (string list, unit) act" where
  "check_machine_receipt w dir suite sealed =
     (let note = (\<lambda>b m. modifyA (\<lambda>es. es @ message_if b m)); fixed = py_eq (dict_get sealed ''profile'' PNone) (PStr ''machine-profile'') in
      bindA (note (\<not> keys_are sealed [''schema'', ''status'', ''profile'', ''seal_sha256'', ''data_root'', ''verification''] \<or> \<not> py_eq (dict_get sealed ''schema'' PNone) (PInt 1))
        ''unsupported machine qualification receipt'') (\<lambda>_.
      bindA (if fixed then replay_profile w dir sealed
        else modifyA (\<lambda>es. es @ [''machine profile path is not the fixed suite-local directory''])) (\<lambda>_.
      bindA (liftA (get suite ''data_root'')) (\<lambda>data_root.
      note (case data_root of PStr s \<Rightarrow> \<not> py_eq (dict_get sealed ''data_root'' PNone) (PStr (parent_str s)) | _ \<Rightarrow> True)
        ''machine qualification data root differs from case storage root''))))"

definition replay_failed :: "pyexc \<Rightarrow> string" where
  "replay_failed e = ''machine qualification could not be replayed: '' @ str_of e"

definition load_machine_qualification :: "world \<Rightarrow> fsnode \<Rightarrow> pyval \<Rightarrow> (pyval \<times> string list) res" where
  "load_machine_qualification w dir suite =
     bindE (get suite ''machine_qualification'') (\<lambda>declared.
     if declared = PNone then Inr (PNone, message_if (path_exists dir ''machine-qualification.json'') ''undeclared machine qualification receipt'')
     else case read_json w dir ''machine-qualification.json'' of
       Inl e \<Rightarrow> if class_of e \<in> {OSError, ValueError, KeyError} then Inr (PNone, [replay_failed e]) else Inl e
     | Inr v \<Rightarrow>
         (let differs = message_if (\<not> py_eq v declared) ''suite machine qualification differs from its receipt'' in
          case v of
            PDict d \<Rightarrow> bindE (tryA {OSError, ValueError, KeyError} (check_machine_receipt w dir suite d) (\<lambda>e es. es @ [replay_failed e]) differs) (\<lambda>es. Inr (v, es))
          | _ \<Rightarrow> Inr (v, differs @ [''machine qualification receipt is not an object''])))"

section \<open>Failures, coverage and smoke suites\<close>

text \<open>The failures of the runner: those that only report missing coverage, and the others.\<close>

definition split_failures :: "pyval \<Rightarrow> (pyval list \<times> pyval list) res" where
  "split_failures completion =
     bindE (bindE (get_or completion ''failures'' (PList [])) iter_of) (\<lambda>vs.
     bindE (mapE (\<lambda>v. bindE (is_feature_coverage_failure v) (\<lambda>b. Inr (b, v))) vs) (\<lambda>marked.
     Inr (map snd (filter fst marked), map snd (filter (\<lambda>(b, _). \<not> b) marked))))"

text \<open>The variants whose configuration sets a flag. A variant is a string, as the plan makes it.\<close>

definition flagged_variants :: "string \<Rightarrow> pydict list \<Rightarrow> string list res" where
  "flagged_variants flag cs =
     bindE (mapE (\<lambda>c. bindE (item_path (PDict c) [''configuration'', flag]) (\<lambda>b.
       if \<not> truthy b then Inr []
       else bindE (item_path (PDict c) [''configuration'', ''variant'']) (\<lambda>v. case v of
           PStr s \<Rightarrow> Inr [s] | _ \<Rightarrow> raiseE TypeError (''unhashable type: '' @ quote (type_name v))))) cs) (\<lambda>vs. Inr (concat vs))"

definition suite_coverage :: "world \<Rightarrow> fsnode \<Rightarrow> pydict list \<Rightarrow> pyval list \<Rightarrow> pydict res" where
  "suite_coverage w dir cs legacy =
     bindE (flagged_variants ''durable_completion_priority'' cs) (\<lambda>priority.
     bindE (flagged_variants ''combine_peer_proposals'' cs) (\<lambda>combined.
     bindE (feature_verdict w dir priority combined) (\<lambda>coverage.
     Inr (coverage @ (if legacy = [] then [] else [kv ''historical_runner_messages'' (PList legacy)])))))"

definition smoke_entries :: "fsnode \<Rightarrow> (string \<times> fsnode) list" where
  "smoke_entries dir = sort_key fst (filter (\<lambda>(name, _). starts_with name ''worker-smoke-'') (entries_of dir))"

definition case_passed :: "pydict \<Rightarrow> bool" where
  "case_passed c = py_eq (dict_get c ''qualification'' PNone) (PStr ''passed'')"

definition load_smoke :: "world \<Rightarrow> string \<times> fsnode \<Rightarrow> (pydict \<times> pydict list) res" where
  "load_smoke w = (\<lambda>(name, n).
     bindE (read_json (below w name) n ''completion.json'') (\<lambda>completion.
     bindE (load_cases (below w name) n (name @ ''/'')) (\<lambda>cs.
     bindE (get completion ''failures'') (\<lambda>failed. bindE (get_or completion ''failures'' (PList [])) (\<lambda>failures.
     Inr ([kv ''scenario'' (PStr (drop (length ''worker-smoke-'') name)),
       kv ''status'' (PStr (if \<not> truthy failed \<and> cs \<noteq> [] \<and> list_all case_passed cs then ''passed'' else ''failed'')),
       kv ''source_cases'' (PList (map (\<lambda>c. dict_get c ''source_case'' PNone) cs)), kv ''failures'' failures], cs))))))"

section \<open>The suite\<close>

definition failed_verdicts :: "string \<Rightarrow> pydict list \<Rightarrow> string list res" where
  "failed_verdicts kind cs =
     bindE (mapE (\<lambda>c. bindE (verdict_of c kind) (\<lambda>s. Inr (message_if (\<not> py_eq s (PStr ''passed'')) (py_str (dict_get c ''source_case'' PNone))))) cs) (\<lambda>ns. Inr (concat ns))"

definition failed_smokes :: "pydict list \<Rightarrow> string list" where
  "failed_smokes smokes = map (\<lambda>s. py_str (dict_get s ''scenario'' PNone)) (filter (\<lambda>s. \<not> py_eq (dict_get s ''status'' PNone) (PStr ''passed'')) smokes)"

definition listed :: "string \<Rightarrow> string list \<Rightarrow> string list" where
  "listed what names = message_if (names \<noteq> []) (what @ comma_sep names)"

record suite_parts =
  sp_suite :: pyval
  sp_cases :: "pydict list"
  sp_smokes :: "pydict list"
  sp_integrity :: "string list"
  sp_correctness :: "string list"
  sp_coverage :: pydict
  sp_machine :: pyval
  sp_machine_errors :: "string list"

definition load_suite_parts :: "world \<Rightarrow> fsnode \<Rightarrow> suite_parts res" where
  "load_suite_parts w dir =
     bindE (read_json w dir ''suite.json'') (\<lambda>suite.
     bindE (read_json w dir ''completion.json'') (\<lambda>completion.
     bindE (load_cases w dir []) (\<lambda>primary.
     bindE (split_failures completion) (\<lambda>(legacy, failures).
     bindE (execution_plan_errors w dir suite) (\<lambda>plan_errors.
     bindE (load_machine_qualification w dir suite) (\<lambda>(machine, machine_errors).
     bindE (expected_durable_cases suite) (\<lambda>expected.
     bindE (suite_coverage w dir primary legacy) (\<lambda>coverage.
     bindE (get completion ''feature_coverage'') (\<lambda>recorded_coverage.
     bindE (mapE (load_smoke w) (smoke_entries dir)) (\<lambda>smokes.
     let cs = primary @ concat (map snd smokes) in
     bindE (failed_verdicts ''evidence_integrity'' cs) (\<lambda>integrity_failed.
     bindE (failed_verdicts ''correctness_checks'' cs) (\<lambda>correctness_failed.
     Inr \<lparr>sp_suite = suite, sp_cases = cs, sp_smokes = map fst smokes,
       sp_integrity = map (\<lambda>v. ''runner failure: '' @ py_str v) failures @ plan_errors @ machine_errors
         @ message_if (int (length primary) \<noteq> expected) (''expected '' @ int_str expected @ '' primary cases, found '' @ nat_str (length primary))
         @ message_if (recorded_coverage \<noteq> PNone \<and> \<not> py_eq recorded_coverage (PDict coverage)) ''recorded feature-coverage verdict differs from retained receipts''
         @ listed ''evidence-integrity failures: '' integrity_failed,
       sp_correctness = listed ''correctness-check failures: '' correctness_failed @ listed ''failed recovery smoke: '' (failed_smokes (map fst smokes)),
       sp_coverage = coverage, sp_machine = machine, sp_machine_errors = machine_errors\<rparr>))))))))))))"

text \<open>The result; \<open>derived\<close> are the errors of the reclamation assessment.\<close>

definition verdict_object :: "string list \<Rightarrow> string \<Rightarrow> pyval" where
  "verdict_object errors scope = PDict [kv ''status'' (passed_status (errors = [])), kv ''errors'' (PList (map PStr errors)), kv ''scope'' (PStr scope)]"

definition suite_object :: "world \<Rightarrow> suite_parts \<Rightarrow> string list \<Rightarrow> pydict" where
  "suite_object w p derived =
     (let reasons = sp_integrity p @ sp_correctness p @ derived in
      [kv ''kind'' (PStr ''durable_service''), kv ''directory'' (PStr (base_path w)), kv ''suite'' (sp_suite p),
       kv ''qualification'' (passed_status (reasons = [])), kv ''qualification_errors'' (PList (map PStr reasons)),
       kv ''verdicts'' (PDict
         [kv ''evidence_integrity'' (verdict_object (sp_integrity p @ derived) ''expected cases, seals, identities, receipts, and accounting''),
          kv ''correctness_checks'' (verdict_object (sp_correctness p) ''finite history, restart, and smoke checks; not exhaustive proof''),
          kv ''feature_coverage'' (PDict (sp_coverage p)),
          kv ''environment_qualification'' (PDict [kv ''status'' (PStr (if sp_machine p = PNone then ''not measured'' else if sp_machine_errors p \<noteq> [] then ''failed'' else ''passed'')),
            kv ''errors'' (PList (map PStr (sp_machine_errors p))),
            kv ''scope'' (PStr ''sealed idle/storage profile immediately after builds; per-case pressure remains separate'')])]),
       kv ''cases'' (PList (map PDict (sp_cases p))), kv ''smokes'' (PList (map PDict (sp_smokes p))), kv ''machine_qualification'' (sp_machine p)])"

text \<open>The recorded reclamation assessment and the one computed from the cases.\<close>

definition recorded_assessment :: "world \<Rightarrow> fsnode \<Rightarrow> pyval res" where
  "recorded_assessment w dir = catchE {OSError, ValueError} (read_json w dir ''reclamation-under-load.json'') (\<lambda>_. Inr PNone)"

definition expected_assessment :: "pydict \<Rightarrow> pyval \<Rightarrow> pyval res" where
  "expected_assessment result recorded_value =
     catchE {ValueError}
       (bindE (assess_load (PDict result) (case recorded_value of PDict d \<Rightarrow> dict_get d ''schema'' (PInt 1) | _ \<Rightarrow> PInt 2)) (\<lambda>d. Inr (PDict d)))
       (\<lambda>_. Inr PNone)"

definition derives_assessment :: "pyval \<Rightarrow> bool \<Rightarrow> bool res" where
  "derives_assessment suite require_derived = bindE (get suite ''kind'') (\<lambda>kind. Inr (py_eq kind (PStr ''reclamation-under-load'') \<and> require_derived))"

definition load_durable_suite :: "world \<Rightarrow> fsnode \<Rightarrow> bool \<Rightarrow> pydict res" where
  "load_durable_suite w dir require_derived =
     bindE (load_suite_parts w dir) (\<lambda>p.
     bindE (derives_assessment (sp_suite p) require_derived) (\<lambda>derives.
     if \<not> derives then Inr (suite_object w p [])
     else
       bindE (recorded_assessment w dir) (\<lambda>v.
       bindE (expected_assessment (suite_object w p []) v) (\<lambda>expected.
       Inr (suite_object w p (message_if (\<not> py_eq v expected) ''reclamation-under-load assessment is missing or differs from sealed cases'')
         @ [kv ''reclamation_under_load'' v])))))"

section \<open>Aggregation\<close>

text \<open>\<open>_median_metric\<close>: a metric that is not a finite number without sign raises.\<close>

definition statistics_of :: "pyval list \<Rightarrow> pyval res" where
  "statistics_of vs = bindE (median_of vs) (\<lambda>m. bindE (py_min vs) (\<lambda>a. bindE (max_of vs) (\<lambda>b.
     Inr (PDict [kv ''median'' m, kv ''min'' a, kv ''max'' b]))))"

definition median_metric :: "pydict list \<Rightarrow> string \<Rightarrow> pyval res" where
  "median_metric samples name =
     bindE (mapE (\<lambda>s. item_path (PDict s) [''metrics'', name]) samples) (\<lambda>vs.
     bindE (anyE (\<lambda>v. bindE (measured v) (\<lambda>ok. Inr (\<not> ok))) vs) (\<lambda>bad.
     bindE (raise_if bad ValueError (''invalid durable metric: '' @ name)) (\<lambda>_. statistics_of vs)))"

definition optional_median_metric :: "pydict list \<Rightarrow> string \<Rightarrow> (pyval \<times> string list) res" where
  "optional_median_metric samples name =
     bindE (mapE (\<lambda>s. bindE (item (PDict s) ''metrics'') (\<lambda>m. get m name)) samples) (\<lambda>vs.
     if list_all (\<lambda>v. v = PNone) vs then Inr (PDict [kv ''median'' PNone, kv ''min'' PNone, kv ''max'' PNone], [])
     else if list_ex (\<lambda>v. v = PNone) vs then Inr (PDict [], [''optional metric changed availability between repetitions: '' @ name])
     else bindE (median_metric samples name) (\<lambda>m. Inr (m, [])))"

section \<open>What a passed suite means\<close>

lemma failed_verdicts_Nil:
  assumes "failed_verdicts kind cs = Inr []" "c \<in> set cs" shows "verdict_of c kind = Inr (PStr ''passed'')"
proof -
  let ?f = "\<lambda>c. bindE (verdict_of c kind) (\<lambda>s. Inr (message_if (\<not> py_eq s (PStr ''passed'')) (py_str (dict_get c ''source_case'' PNone))))"
  obtain ns where ns: "mapE ?f cs = Inr ns" "concat ns = []" using assms(1) by (auto simp: failed_verdicts_def)
  obtain y where "y \<in> set ns" "?f c = Inr y" using mapE_mem' [OF ns(1) assms(2)] by blast
  moreover from this have "y = []" using ns(2) by (simp add: concat_eq_Nil_conv)
  ultimately show ?thesis by auto
qed

text \<open>Every case directory below \<open>dir\<close> was verified.\<close>

definition cases_verified :: "world \<Rightarrow> fsnode \<Rightarrow> bool" where
  "cases_verified w dir \<longleftrightarrow> (\<forall>(name, n)\<in>set (case_entries dir). verified_case_dir (below w name) n)"

lemma load_cases_verified:
  assumes "load_cases w dir prefix = Inr cs"
    and "\<And>c. c \<in> set cs \<Longrightarrow> verdict_of c ''evidence_integrity'' = Inr (PStr ''passed'') \<and> verdict_of c ''correctness_checks'' = Inr (PStr ''passed'')"
  shows "cases_verified w dir"
  unfolding cases_verified_def
proof clarify
  fix name n assume "(name, n) \<in> set (case_entries dir)"
  from mapE_mem' [OF assms(1) [unfolded load_cases_def] this] obtain c where "c \<in> set cs" "normalize_case (below w name) n (prefix @ name) = Inr c" by auto
  then show "verified_case_dir (below w name) n" using assms(2) normalized_passed by blast
qed

text \<open>The directories of the suite are the planned cases, and each manifest carries the
  implementation and the options of its entry.\<close>

definition follows_entry :: "world \<Rightarrow> fsnode \<Rightarrow> pyval \<Rightarrow> string \<Rightarrow> bool" where
  "follows_entry w dir entry name \<longleftrightarrow> (\<exists>n manifest i j k l. map_of (case_entries dir) name = Some n \<and> read_json (below w name) n ''manifest.json'' = Inr manifest \<and>
     get manifest ''implementation'' = Inr i \<and> item entry ''implementation'' = Inr j \<and> py_eq i j \<and>
     get manifest ''options'' = Inr k \<and> item entry ''options'' = Inr l \<and> py_eq k l \<and>
     get manifest ''scenario'' = Inr (PStr ''durable-kv'') \<and> get manifest ''smoke'' = Inr (PBool False))"

definition plan_followed :: "world \<Rightarrow> fsnode \<Rightarrow> pyval \<Rightarrow> bool" where
  "plan_followed w dir suite \<longleftrightarrow> (\<exists>expected names recorded_plan. execution_plan suite = Inr expected \<and> get suite ''execution_plan'' = Inr recorded_plan \<and>
     py_eq recorded_plan (PList expected) \<and> mapE entry_name expected = Inr names \<and> set (map fst (case_entries dir)) = set names \<and>
     (\<forall>(entry, name)\<in>set (zip expected names). follows_entry w dir entry name))"

lemma plan_item_clean:
  assumes "plan_item_errors schema repository entry manifest = Inr []"
  shows "\<exists>i j k l. get manifest ''implementation'' = Inr i \<and> item entry ''implementation'' = Inr j \<and> py_eq i j \<and>
     get manifest ''options'' = Inr k \<and> item entry ''options'' = Inr l \<and> py_eq k l \<and>
     get manifest ''scenario'' = Inr (PStr ''durable-kv'') \<and> get manifest ''smoke'' = Inr (PBool False)"
  using assms unfolding plan_item_errors_def Let_def by (clarsimp simp del: py_eq.simps)

lemma planned_errors_clean:
  assumes "planned_errors w dir schema repository expected = Inr []"
  obtains names where "mapE entry_name expected = Inr names" "set (map fst (case_entries dir)) = set names"
    "\<forall>(entry, name)\<in>set (zip expected names). follows_entry w dir entry name"
proof -
  let ?f = "\<lambda>(entry, name). bindE (case map_of (case_entries dir) name of Some n \<Rightarrow> read_json (below w name) n ''manifest.json'' | None \<Rightarrow> raiseE KeyError (quote name))
           (plan_item_errors schema repository entry)"
  obtain names es where n: "mapE entry_name expected = Inr names" "set (map fst (case_entries dir)) = set names" "mapE ?f (zip expected names) = Inr es" "concat es = []"
    using assms unfolding planned_errors_def by (auto split: if_splits)
  have "follows_entry w dir entry name" if e: "(entry, name) \<in> set (zip expected names)" for entry name
  proof -
    obtain y where "y \<in> set es" "?f (entry, name) = Inr y" using mapE_mem' [OF n(3) e] by blast
    moreover from this have "y = []" using n(4) by (simp add: concat_eq_Nil_conv)
    ultimately obtain d manifest where "map_of (case_entries dir) name = Some d" "read_json (below w name) d ''manifest.json'' = Inr manifest"
      "plan_item_errors schema repository entry manifest = Inr []"
      by (auto split: option.splits)
    then show ?thesis using plan_item_clean unfolding follows_entry_def by blast
  qed
  then show thesis using that n(1,2) by blast
qed

lemma execution_plan_clean:
  assumes "execution_plan_errors w dir suite = Inr []" "get suite ''schema'' = Inr (PInt schema)" "3 \<le> schema"
  shows "plan_followed w dir suite"
proof -
  have "get_or suite ''schema'' (PInt 1) = Inr (PInt schema)"
    using assms(2) by (auto simp: get_or_eq_Inr dict_get_def split: option.splits)
  then obtain expected repository where e: "execution_plan suite = Inr expected" "plan_record_errors schema suite repository expected = Inr []"
    "planned_errors w dir schema repository expected = Inr []"
    using assms(1,3) unfolding execution_plan_errors_def by (auto split: if_splits sum.splits)
  obtain names where "mapE entry_name expected = Inr names" "set (map fst (case_entries dir)) = set names"
    "\<forall>(entry, name)\<in>set (zip expected names). follows_entry w dir entry name" by (rule planned_errors_clean [OF e(3)])
  moreover obtain v where "get suite ''execution_plan'' = Inr v" "py_eq v (PList expected)"
    using e(2) unfolding plan_record_errors_def by (auto simp del: py_eq.simps)
  ultimately show ?thesis using e(1) unfolding plan_followed_def by blast
qed

lemma smoke_verified:
  assumes "mapE (load_smoke w) (smoke_entries dir) = Inr smokes" "failed_smokes (map fst smokes) = []"
    and "\<And>c. c \<in> set (concat (map snd smokes)) \<Longrightarrow> verdict_of c ''evidence_integrity'' = Inr (PStr ''passed'') \<and> verdict_of c ''correctness_checks'' = Inr (PStr ''passed'')"
    and "(name, n) \<in> set (smoke_entries dir)"
  shows "case_entries n \<noteq> [] \<and> cases_verified (below w name) n"
proof -
  from mapE_mem' [OF assms(1,4)] obtain s cs where s: "(s, cs) \<in> set smokes" "load_smoke w (name, n) = Inr (s, cs)" by auto
  then have c: "load_cases (below w name) n (name @ ''/'') = Inr cs" by (auto simp: load_smoke_def)
  have "dict_get s ''status'' PNone = PStr ''passed''" using assms(2) s(1) by (fastforce simp: failed_smokes_def filter_empty_conv)
  then have "cs \<noteq> []" using s(2) by (auto simp: load_smoke_def dict_get_def split: if_splits)
  then have "case_entries n \<noteq> []" using c by (auto simp: load_cases_def)
  moreover have "cases_verified (below w name) n" by (rule load_cases_verified [OF c]) (use assms(3) s(1) in force)
  ultimately show ?thesis ..
qed

lemma listed_Nil [simp]: "listed what names = [] \<longleftrightarrow> names = []"
  by (simp add: listed_def)

lemma parts_clean:
  assumes "load_suite_parts w dir = Inr p" "sp_integrity p = []" "sp_correctness p = []"
  shows "read_json w dir ''suite.json'' = Inr (sp_suite p)" "cases_verified w dir"
    "expected_durable_cases (sp_suite p) = Inr (int (length (case_entries dir)))"
    "execution_plan_errors w dir (sp_suite p) = Inr []" "\<exists>m. load_machine_qualification w dir (sp_suite p) = Inr (m, [])"
    "\<forall>(name, n)\<in>set (smoke_entries dir). case_entries n \<noteq> [] \<and> cases_verified (below w name) n"
    "\<exists>completion legacy. read_json w dir ''completion.json'' = Inr completion \<and> split_failures completion = Inr (legacy, [])"
proof -
  obtain suite completion primary legacy failures plan_errors machine machine_errors expected smokes a b where
    h: "read_json w dir ''suite.json'' = Inr suite" "read_json w dir ''completion.json'' = Inr completion" "load_cases w dir [] = Inr primary"
      "split_failures completion = Inr (legacy, failures)" "execution_plan_errors w dir suite = Inr plan_errors"
      "load_machine_qualification w dir suite = Inr (machine, machine_errors)" "expected_durable_cases suite = Inr expected"
      "mapE (load_smoke w) (smoke_entries dir) = Inr smokes"
      "failed_verdicts ''evidence_integrity'' (primary @ concat (map snd smokes)) = Inr a"
      "failed_verdicts ''correctness_checks'' (primary @ concat (map snd smokes)) = Inr b"
    and n: "failures = []" "plan_errors = []" "machine_errors = []" "int (length primary) = expected" "a = []" "b = []"
      "failed_smokes (map fst smokes) = []" "sp_suite p = suite"
    using assms unfolding load_suite_parts_def Let_def by (clarsimp simp del: py_eq.simps)
  have v: "verdict_of c ''evidence_integrity'' = Inr (PStr ''passed'') \<and> verdict_of c ''correctness_checks'' = Inr (PStr ''passed'')"
    if "c \<in> set (primary @ concat (map snd smokes))" for c
    using failed_verdicts_Nil [OF h(9) [unfolded n(5)] that] failed_verdicts_Nil [OF h(10) [unfolded n(6)] that] by simp
  show "read_json w dir ''suite.json'' = Inr (sp_suite p)" "execution_plan_errors w dir (sp_suite p) = Inr []"
    "\<exists>m. load_machine_qualification w dir (sp_suite p) = Inr (m, [])"
    "\<exists>completion legacy. read_json w dir ''completion.json'' = Inr completion \<and> split_failures completion = Inr (legacy, [])"
    using h(1,2,4,5,6) n(1,2,3,8) by auto
  show "cases_verified w dir" by (rule load_cases_verified [OF h(3)]) (use v in auto)
  have "length primary = length (case_entries dir)" using mapE_length [OF h(3) [unfolded load_cases_def]] .
  then show "expected_durable_cases (sp_suite p) = Inr (int (length (case_entries dir)))" using h(7) n(4,8) by simp
  show "\<forall>(name, n)\<in>set (smoke_entries dir). case_entries n \<noteq> [] \<and> cases_verified (below w name) n"
    using smoke_verified [OF h(8) n(7)] v by auto
qed

text \<open>The recorded reclamation assessment agrees with the one recomputed from the cases.\<close>

definition assessment_replayed :: "world \<Rightarrow> fsnode \<Rightarrow> bool" where
  "assessment_replayed w dir \<longleftrightarrow> (\<exists>p v expected. load_suite_parts w dir = Inr p \<and> recorded_assessment w dir = Inr v \<and>
     expected_assessment (suite_object w p []) v = Inr expected \<and> py_eq v expected)"

lemma passed_suite:
  assumes "load_durable_suite w dir require_derived = Inr r" "dict_get r ''qualification'' PNone = PStr ''passed''"
  obtains p where "load_suite_parts w dir = Inr p" "sp_integrity p = []" "sp_correctness p = []"
    "derives_assessment (sp_suite p) require_derived = Inr True \<Longrightarrow> assessment_replayed w dir"
proof -
  have object: "sp_integrity p = [] \<and> sp_correctness p = [] \<and> derived = []"
    if "dict_get (suite_object w p derived @ rest) ''qualification'' PNone = PStr ''passed''" for p derived rest
    using that by (auto simp: suite_object_def Let_def dict_get_def passed_status_def split: if_splits)
  obtain p derives where p: "load_suite_parts w dir = Inr p" "derives_assessment (sp_suite p) require_derived = Inr derives"
    using assms(1) by (auto simp: load_durable_suite_def)
  show thesis
  proof (cases derives)
    case False
    then have "r = suite_object w p [] @ []" using assms(1) by (simp add: load_durable_suite_def p)
    then show ?thesis using that p object [of p "[]" "[]"] assms(2) False by simp
  next
    case True
    then obtain v expected where v: "recorded_assessment w dir = Inr v" "expected_assessment (suite_object w p []) v = Inr expected"
      "r = suite_object w p (message_if (\<not> py_eq v expected) ''reclamation-under-load assessment is missing or differs from sealed cases'') @ [kv ''reclamation_under_load'' v]"
      using assms(1) by (auto simp: load_durable_suite_def p)
    then have o: "sp_integrity p = []" "sp_correctness p = []" "py_eq v expected" using object assms(2) by fastforce+
    then have "assessment_replayed w dir" using p(1) v(1,2) unfolding assessment_replayed_def by blast
    then show ?thesis using that p(1) o by blast
  qed
qed

text \<open>C40: a durable suite that qualifies was verified as a whole. Every case directory, and every
  case of a recovery smoke, passes the verification of its evidence as a benchmark case; there are
  as many cases as the declaration asks for; from schema 3 on the directories are exactly those of
  the plan derived from the declaration and their manifests carry the planned implementation and
  options; the runner reported no failure beyond missing coverage; the host qualification replays;
  and a reclamation suite carries the assessment that its own cases give.\<close>

theorem durable_suite_sound:
  assumes "load_durable_suite w dir require_derived = Inr r" "dict_get r ''qualification'' PNone = PStr ''passed''"
  shows "\<exists>suite completion legacy m. read_json w dir ''suite.json'' = Inr suite \<and> cases_verified w dir \<and>
    (\<forall>(name, n)\<in>set (smoke_entries dir). case_entries n \<noteq> [] \<and> cases_verified (below w name) n) \<and>
    expected_durable_cases suite = Inr (int (length (case_entries dir))) \<and>
    (\<forall>schema. get suite ''schema'' = Inr (PInt schema) \<and> 3 \<le> schema \<longrightarrow> plan_followed w dir suite) \<and>
    read_json w dir ''completion.json'' = Inr completion \<and> split_failures completion = Inr (legacy, []) \<and>
    load_machine_qualification w dir suite = Inr (m, []) \<and>
    (derives_assessment suite require_derived = Inr True \<longrightarrow> assessment_replayed w dir)"
proof -
  obtain p where p: "load_suite_parts w dir = Inr p" "sp_integrity p = []" "sp_correctness p = []"
    "derives_assessment (sp_suite p) require_derived = Inr True \<Longrightarrow> assessment_replayed w dir"
    using passed_suite [OF assms] by blast
  note c = parts_clean [OF p(1-3)]
  show ?thesis using c p(4) execution_plan_clean [OF c(4)] by blast
qed

text \<open>A suite of one verified case.\<close>

definition suite_world :: world where
  "suite_world = case_world\<lparr>base_path := ''suite''\<rparr>"

definition suite_dir :: fsnode where
  "suite_dir = Directory [(''suite.json'', Regular ''S'' 8), (''completion.json'', Regular ''{}'' 8), (''run'', case_run)]"

definition suite_value :: pyval where
  "suite_value = PDict [kv ''implementations'' (PList [PStr ''rafter'']), kv ''rates'' (PList [PInt 0]), kv ''runs'' (PInt 1)]"

definition case_checked :: pydict where
  "case_checked = verify_report_of (no_errors\<lparr>vs_checking := True\<rparr>)"

lemma below_suite_world: "below suite_world ''run'' = case_world"
  by (simp add: below_def suite_world_def case_world_def)

lemma suite_dir_entries: "case_entries suite_dir = [(''run'', case_run)]" "smoke_entries suite_dir = []"
  by code_simp+

lemma suite_dir_files:
  "read_json suite_world suite_dir ''suite.json'' = Inr suite_value" "read_json suite_world suite_dir ''completion.json'' = Inr (PDict [])"
  "split_failures (PDict []) = Inr ([], [])" "execution_plan_errors suite_world suite_dir suite_value = Inr []"
  "load_machine_qualification suite_world suite_dir suite_value = Inr (PNone, [])" "expected_durable_cases suite_value = Inr 1"
  "derives_assessment suite_value True = Inr False"
  by code_simp+

lemma suite_dir_coverage: "\<exists>coverage. feature_verdict suite_world suite_dir [] [] = Inr coverage"
proof -
  have "case feature_verdict suite_world suite_dir [] [] of Inr _ \<Rightarrow> True | Inl _ \<Rightarrow> False" by code_simp
  then show ?thesis by (simp split: sum.splits)
qed

lemma case_run_optional:
  "optional_json case_world case_run ''load-environment.json'' = Inr PNone" "optional_json case_world case_run ''snapshot-compaction-activity.json'' = Inr PNone"
  "optional_json case_world case_run ''storage-footprint.json'' = Inr PNone" "final_snapshot_indexes case_world case_run = Inr PNone"
  "optional_json case_world case_run ''recovery.json'' = Inr (PDict [kv ''status'' (PStr ''passed'')])"
  "optional_json case_world case_run ''qualification.json'' = Inr (PDict [kv ''status'' (PStr ''passed'')])"
  "get_or case_manifest ''options'' (PDict []) = Inr (PDict [])" "get case_manifest ''build_receipt'' = Inr PNone" "get case_manifest ''smoke'' = Inr PNone"
  by code_simp+

lemma case_run_result: "optional_json case_world case_run ''measurement.json'' = Inr sample_result"
  by (simp add: optional_json_def path_exists_def read_json_def read_text_def case_run_def child_def case_world_def)

text \<open>The parts of the normal form that only have to exist.\<close>

lemma Inr_exists: "(case m of Inr _ \<Rightarrow> True | Inl _ \<Rightarrow> False) \<Longrightarrow> \<exists>x. m = Inr x"
  by (simp split: sum.splits)

lemma sample_result_parts:
  "\<exists>x. normal_metrics sample_result = Inr x" "\<exists>x. normal_accounting sample_result = Inr x" "\<exists>x. workload_of case_manifest sample_result = Inr x"
  "\<exists>x. get_or (py_or sample_result (PDict [])) ''contract'' (PStr CONTRACT) = Inr x" "\<exists>x. case_errors case_checked sample_result = Inr x"
  by (simp_all add: normal_metrics_def normal_accounting_def workload_of_def workload_keys_def case_errors_def case_checked_def verify_report_of_def no_errors_def case_manifest_def
    sample_result_def Let_def sub_get_def metric_sources_def get_or_def dict_get_def py_or_def iter_of_def)

lemma case_run_parts:
  "\<exists>x. engine_of case_manifest = Inr x" "\<exists>x. display_name case_manifest = Inr x" "\<exists>x. environment_of case_world case_manifest = Inr x"
  by (rule Inr_exists, code_simp)+

lemma case_run_configuration:
  "\<exists>x. configuration_of case_manifest (PDict []) (PDict []) = Inr x \<and> item x ''durable_completion_priority'' = Inr (PBool False) \<and> item x ''combine_peer_proposals'' = Inr (PBool False)"
proof -
  have "case configuration_of case_manifest (PDict []) (PDict []) of
      Inr x \<Rightarrow> item x ''durable_completion_priority'' = Inr (PBool False) \<and> item x ''combine_peer_proposals'' = Inr (PBool False) | Inl _ \<Rightarrow> False" by code_simp
  then show ?thesis by (simp split: sum.splits)
qed

lemma case_run_normal:
  "\<exists>c. normalize_case case_world case_run ''run'' = Inr c \<and> verdict_of c ''evidence_integrity'' = Inr (PStr ''passed'') \<and> verdict_of c ''correctness_checks'' = Inr (PStr ''passed'') \<and>
     item_path (PDict c) [''configuration'', ''durable_completion_priority''] = Inr (PBool False) \<and> item_path (PDict c) [''configuration'', ''combine_peer_proposals''] = Inr (PBool False)"
proof -
  obtain metrics accounting engine name workload boundary environment errors configuration where
    e: "normal_metrics sample_result = Inr metrics" "normal_accounting sample_result = Inr accounting" "engine_of case_manifest = Inr engine"
      "display_name case_manifest = Inr name" "workload_of case_manifest sample_result = Inr workload"
      "get_or (py_or sample_result (PDict [])) ''contract'' (PStr CONTRACT) = Inr boundary" "environment_of case_world case_manifest = Inr environment"
      "case_errors case_checked sample_result = Inr errors" "configuration_of case_manifest (PDict []) (PDict []) = Inr configuration"
    and f: "item configuration ''durable_completion_priority'' = Inr (PBool False)" "item configuration ''combine_peer_proposals'' = Inr (PBool False)"
    using sample_result_parts case_run_parts case_run_configuration by metis
  have s: "item (PDict case_checked) ''status'' = Inr (PStr ''passed'')" "py_or PNone (PDict []) = PDict []" "get (PDict []) k = Inr PNone" for k
    by (simp_all add: case_checked_def verify_report_of_def item_def status_of_def no_errors_def py_or_def get_or_def dict_get_def)
  have v: "item_path (PDict case_checked) [''verdicts'', k, ''status''] = Inr (PStr ''passed'')" if "k = ''evidence_integrity'' \<or> k = ''correctness_checks''" for k
    using that by (auto simp: case_checked_def verify_report_of_def item_path_def item_def errors_object_def status_of_def no_errors_def)
  have d: "map_of case_checked (KStr ''verdicts'') = Some (dict_get case_checked ''verdicts'' dflt)" for dflt
    by (simp add: case_checked_def verify_report_of_def dict_get_def)
  obtain c where c: "normalize_case case_world case_run ''run'' = Inr c" "map_of c (KStr ''configuration'') = Some configuration"
    "\<exists>dflt. map_of c (KStr ''verdicts'') = Some (dict_get case_checked ''verdicts'' dflt)"
    unfolding normalize_case_def Let_def case_run_receipts(1) case_run_result case_run_verified case_checked_def [symmetric] case_run_optional bindE_simps e s
    by simp blast
  have "item (PDict c) ''verdicts'' = item (PDict case_checked) ''verdicts''" using c(3) d by (auto simp: item_def)
  then have "verdict_of c k = item_path (PDict case_checked) [''verdicts'', k, ''status'']" for k by (simp add: verdict_of_def item_path_def)
  moreover have "item (PDict c) ''configuration'' = Inr configuration" using c(2) by (simp add: item_def)
  ultimately show ?thesis using c(1) f v by (auto simp: item_path_def)
qed

theorem durable_suite_sound_witness:
  "\<exists>r. load_durable_suite suite_world suite_dir True = Inr r \<and> verified_case_dir case_world case_run"
proof -
  obtain c where c: "normalize_case case_world case_run ''run'' = Inr c" "verdict_of c ''evidence_integrity'' = Inr (PStr ''passed'')"
    "verdict_of c ''correctness_checks'' = Inr (PStr ''passed'')"
    "item_path (PDict c) [''configuration'', ''durable_completion_priority''] = Inr (PBool False)" "item_path (PDict c) [''configuration'', ''combine_peer_proposals''] = Inr (PBool False)"
    using case_run_normal by blast
  obtain coverage where v: "feature_verdict suite_world suite_dir [] [] = Inr coverage" using suite_dir_coverage by blast
  have "load_cases suite_world suite_dir [] = Inr [c]" by (simp add: load_cases_def suite_dir_entries below_suite_world c)
  moreover have "suite_coverage suite_world suite_dir [c] [] = Inr coverage" by (simp add: suite_coverage_def flagged_variants_def c v)
  moreover have "failed_verdicts k [c] = Inr []" if "k = ''evidence_integrity'' \<or> k = ''correctness_checks''" for k using that c by (auto simp: failed_verdicts_def message_if_def)
  moreover have "get (PDict []) ''feature_coverage'' = Inr PNone" by (simp add: get_or_def dict_get_def)
  ultimately have "\<exists>p. load_suite_parts suite_world suite_dir = Inr p \<and> sp_suite p = suite_value \<and> sp_integrity p = [] \<and> sp_correctness p = []"
    by (simp add: load_suite_parts_def suite_dir_files suite_dir_entries failed_smokes_def message_if_def listed_def)
  then obtain p where p: "load_suite_parts suite_world suite_dir = Inr p" "sp_suite p = suite_value" "sp_integrity p = []" "sp_correctness p = []" by blast
  have r: "load_durable_suite suite_world suite_dir True = Inr (suite_object suite_world p [])" by (simp add: load_durable_suite_def p suite_dir_files)
  have "dict_get (suite_object suite_world p []) ''qualification'' PNone = PStr ''passed''" by (simp add: suite_object_def p dict_get_def passed_status_def)
  from durable_suite_sound [OF r this] have "cases_verified suite_world suite_dir" by blast
  then show ?thesis using r by (simp add: cases_verified_def suite_dir_entries below_suite_world)
qed

end
