(* ===== verification/Json.thy ===== *)
theory Json
  imports Py_Prelude
begin

text \<open>
  The text that \<open>json.dumps\<close> writes, as \<open>comparisons.py\<close>, \<open>protocol.py\<close> and \<open>results.py\<close> use it. Strings
  are escaped to printable ASCII, numbers print as \<open>repr\<close> does, keys are sorted on request; keys
  of both kinds cannot be sorted.
\<close>

definition json_char :: "char \<Rightarrow> string" where
  "json_char c =
     (let n = of_char c :: nat in
      if n = 34 \<or> n = 92 then [CHR 0x5C, c]
      else if n = 8 then [CHR 0x5C, CHR ''b'']
      else if n = 9 then [CHR 0x5C, CHR ''t'']
      else if n = 10 then [CHR 0x5C, CHR ''n'']
      else if n = 12 then [CHR 0x5C, CHR ''f'']
      else if n = 13 then [CHR 0x5C, CHR ''r'']
      else if n < 32 \<or> 126 < n then [CHR 0x5C] @ ''u00'' @ [hex_digit (n div 16), hex_digit (n mod 16)]
      else [c])"

definition json_str :: "string \<Rightarrow> string" where
  "json_str s = [CHR 0x22] @ concat (map json_char s) @ [CHR 0x22]"

definition json_float :: "pyfloat \<Rightarrow> string" where
  "json_float x = (case x of NaN \<Rightarrow> ''NaN'' | PosInf \<Rightarrow> ''Infinity'' | NegInf \<Rightarrow> ''-Infinity'' | Fl _ \<Rightarrow> repr_float x)"

fun joined :: "string \<Rightarrow> string list \<Rightarrow> string" where
  "joined sep [] = []"
| "joined sep [s] = s"
| "joined sep (s # ss) = s @ sep @ joined sep ss"

definition is_KStr :: "pykey \<Rightarrow> bool" where
  "is_KStr k = (case k of KStr _ \<Rightarrow> True | KInt _ \<Rightarrow> False)"

definition sorted_rows :: "(pykey \<times> string) list \<Rightarrow> (pykey \<times> string) list res" where
  "sorted_rows rows =
     (if list_all (\<lambda>(k, _). is_KStr k) rows then Inr (sort_key (\<lambda>(k, _). key_str k) rows)
      else if list_all (\<lambda>(k, _). \<not> is_KStr k) rows
      then Inr (sort_key (\<lambda>(k, _). case k of KInt i \<Rightarrow> i | KStr _ \<Rightarrow> 0) rows)
      else raiseE TypeError (quote ''<'' @ '' not supported between instances of '' @ quote ''str'' @ '' and '' @ quote ''int''))"

lemma mapE_cong [fundef_cong]: "xs = ys \<Longrightarrow> (\<And>x. x \<in> set ys \<Longrightarrow> f x = g x) \<Longrightarrow> mapE f xs = mapE g ys"
proof (induction xs arbitrary: ys)
  case (Cons x xs)
  then show ?case using Cons.IH [of xs] by auto
qed simp

text \<open>\<open>json.dumps(value, sort_keys=sort_keys, separators=(item_sep, key_sep))\<close>\<close>

function json_text :: "string \<Rightarrow> string \<Rightarrow> bool \<Rightarrow> pyval \<Rightarrow> string res" where
  "json_text item_sep key_sep sort_keys PNone = Inr ''null''"
| "json_text item_sep key_sep sort_keys (PBool b) = Inr (if b then ''true'' else ''false'')"
| "json_text item_sep key_sep sort_keys (PInt i) = Inr (int_str i)"
| "json_text item_sep key_sep sort_keys (PFloat x) = Inr (json_float x)"
| "json_text item_sep key_sep sort_keys (PStr s) = Inr (json_str s)"
| "json_text item_sep key_sep sort_keys (PList xs) =
     bindE (mapE (json_text item_sep key_sep sort_keys) xs) (\<lambda>ss. Inr (''['' @ joined item_sep ss @ '']''))"
| "json_text item_sep key_sep sort_keys (PDict d) =
     bindE (mapE (\<lambda>(k, v). bindE (json_text item_sep key_sep sort_keys v) (\<lambda>s. Inr (k, s))) d) (\<lambda>rows.
     bindE (if sort_keys then sorted_rows rows else Inr rows) (\<lambda>rows.
     Inr (''{'' @ joined item_sep (map (\<lambda>(k, s). json_str (key_str k) @ key_sep @ s) rows) @ ''}'')))"
  by pat_completeness auto
termination
proof (relation "measure (\<lambda>(_, _, _, v). size v)")
  fix item_sep key_sep :: string and sort_keys and xs :: "pyval list" and x assume "x \<in> set xs"
  then show "((item_sep, key_sep, sort_keys, x), (item_sep, key_sep, sort_keys, PList xs)) \<in> measure (\<lambda>(_, _, _, v). size v)"
    using size_list_estimation' [of x xs "size x" size] by simp
next
  fix item_sep key_sep :: string and sort_keys and d :: pydict and e k v assume "e \<in> set d" "(k, v) = e"
  then show "((item_sep, key_sep, sort_keys, v), (item_sep, key_sep, sort_keys, PDict d)) \<in> measure (\<lambda>(_, _, _, v). size v)"
    using size_list_estimation' [of "(k, v)" d "size v" "size_prod (\<lambda>x. 0) size"] by auto
qed simp

text \<open>The compact text, and the text with the default separators.\<close>

abbreviation json_dumps :: "bool \<Rightarrow> pyval \<Rightarrow> string res" where
  "json_dumps \<equiv> json_text '','' '':''"

abbreviation json_default :: "bool \<Rightarrow> pyval \<Rightarrow> string res" where
  "json_default \<equiv> json_text '', '' '': ''"

end
