(* ===== verification/Comparisons.thy ===== *)
theory Comparisons
  imports Json
begin

text \<open>
  \<open>src/benchctl/comparisons.py\<close>: when two normalised results may be compared, and what is said
  of one metric. Results are comparable when the canonical JSON texts of six fields agree and
  both are qualified. The exception \<open>NotComparable\<close> is a subclass of \<open>ValueError\<close> and is modelled by
  that class with the same message.
\<close>

section \<open>Comparability\<close>

definition canonical :: "pyval \<Rightarrow> string res" where
  "canonical v = json_dumps True v"

definition EQUIVALENCE_PERCENT :: pyfloat where
  "EQUIVALENCE_PERCENT = Fl 3"

definition COMPARABLE_FIELDS :: "string list" where
  "COMPARABLE_FIELDS = [''layer'', ''workload'', ''completion_boundary'', ''environment'', ''measurement_mode'', ''metric_definitions'']"

definition same_text :: "pyval \<Rightarrow> pyval \<Rightarrow> string \<Rightarrow> bool res" where
  "same_text left right name =
     bindE (bindE (get left name) canonical) (\<lambda>s. bindE (bindE (get right name) canonical) (\<lambda>t. Inr (s = t)))"

definition passed_qualification :: "pyval \<Rightarrow> bool res" where
  "passed_qualification result = bindE (get result ''qualification'') (\<lambda>q. Inr (py_eq q (PStr ''passed'')))"

definition incompatibilities :: "pyval \<Rightarrow> pyval \<Rightarrow> string list res" where
  "incompatibilities left right =
     bindE (mapE (\<lambda>name. bindE (same_text left right name) (\<lambda>b. Inr (if b then [] else [name]))) COMPARABLE_FIELDS) (\<lambda>reasons.
     bindE (bindE (passed_qualification left) (\<lambda>a. if a then passed_qualification right else Inr False)) (\<lambda>ok.
     Inr (concat reasons @ (if ok then [] else [''qualification'']))))"

section \<open>The comparison of one metric\<close>

text \<open>\<open>result.get("metrics", {}).get(metric, {}).get("median")\<close>\<close>

definition metric_median :: "pyval \<Rightarrow> string \<Rightarrow> pyval res" where
  "metric_median result name =
     bindE (get_or result ''metrics'' (PDict [])) (\<lambda>metrics.
     bindE (get_or metrics name (PDict [])) (\<lambda>summary. get summary ''median''))"

text \<open>\<open>type(v) not in (int, float) or not math.isfinite(v) or v < 0\<close>\<close>

definition unmeasured :: "pyval \<Rightarrow> bool res" where
  "unmeasured v = (case v of
     PInt i \<Rightarrow> bindE (py_isfinite v) (\<lambda>b. Inr (\<not> b \<or> i < 0))
   | PFloat x \<Rightarrow> Inr (\<not> is_finite x \<or> f_lt x (Fl 0))
   | _ \<Rightarrow> Inr True)"

definition change_percent :: "pyfloat \<Rightarrow> pyfloat" where
  "change_percent ratio = f_mul (f_sub ratio (Fl 1)) (Fl 100)"

definition comparison_label :: "pyfloat \<Rightarrow> string" where
  "comparison_label advantage =
     (if f_lt EQUIVALENCE_PERCENT advantage then ''measured lead''
      else if f_lt advantage (f_neg EQUIVALENCE_PERCENT) then ''measured regression''
      else ''roughly level'')"

definition compare :: "pyval \<Rightarrow> pyval \<Rightarrow> string \<Rightarrow> bool \<Rightarrow> pydict res" where
  "compare left right metric higher_is_better =
     bindE (incompatibilities left right) (\<lambda>reasons.
     bindE (raise_if (reasons \<noteq> []) ValueError (''not comparable: '' @ comma_sep reasons)) (\<lambda>_.
     bindE (metric_median left metric) (\<lambda>left_value. bindE (metric_median right metric) (\<lambda>right_value.
     bindE (anyE unmeasured [left_value, right_value]) (\<lambda>bad.
     bindE (raise_if (bad \<or> py_eq right_value (PInt 0)) ValueError (''not comparable: invalid '' @ metric)) (\<lambda>_.
     bindE (py_div left_value right_value) (\<lambda>ratio.
     let change = change_percent ratio; advantage = (if higher_is_better then change else f_neg change) in
     Inr [kv ''metric'' (PStr metric), kv ''left'' left_value, kv ''right'' right_value, kv ''ratio'' (PFloat ratio),
       kv ''change_percent'' (PFloat change), kv ''advantage_percent'' (PFloat advantage), kv ''higher_is_better'' (PBool higher_is_better),
       kv ''equivalence_percent'' (PFloat EQUIVALENCE_PERCENT), kv ''label'' (PStr (comparison_label advantage))])))))))"

section \<open>Ratios and labels\<close>

text \<open>The floats of the model that a Python float can hold.\<close>

definition float64 :: "pyval \<Rightarrow> bool" where
  "float64 v = (case v of PFloat (Fl x) \<Rightarrow> fl x = Fl x | _ \<Rightarrow> True)"

text \<open>The exact value of a metric.\<close>

definition metric_value :: "pyval \<Rightarrow> rat" where
  "metric_value v = (case num_of v of Some (Fl x) \<Rightarrow> x | _ \<Rightarrow> 0)"

definition has_label :: "pydict \<Rightarrow> string \<Rightarrow> bool" where
  "has_label d s \<longleftrightarrow> dict_get d ''label'' PNone = PStr s"

lemma fl_at_most_one: "t \<le> 1 \<Longrightarrow> f_le (fl t) (Fl 1)"
  using fl_mono [of t 1] by (simp add: fl_of_nat_numeral)

lemma fl_at_least_one: "1 \<le> t \<Longrightarrow> f_le (Fl 1) (fl t)"
  using fl_mono [of 1 t] by (simp add: fl_of_nat_numeral)

lemma fl_nonpos: "t \<le> 0 \<Longrightarrow> f_le (fl t) (Fl 0)"
  using fl_mono [of t 0] by (simp add: fl_of_nat_numeral)

lemma fl_nonnegative: "0 \<le> t \<Longrightarrow> f_le (Fl 0) (fl t)"
  using fl_mono [of 0 t] by (simp add: fl_of_nat_numeral)

lemma change_nonpos: "f_le q (Fl 1) \<Longrightarrow> f_le (change_percent q) (Fl 0)"
proof (cases q)
  case (Fl a)
  assume "f_le q (Fl 1)"
  then have d: "f_le (fl (a - 1)) (Fl 0)" using Fl by (intro fl_nonpos) simp
  have s: "change_percent q = f_mul (fl (a - 1)) (Fl 100)" by (simp add: Fl change_percent_def f_sub_def f_neg_def f_add_def)
  show ?thesis
  proof (cases "fl (a - 1)")
    case (Fl b)
    then show ?thesis using d s fl_nonpos [of "b * 100"] by (simp add: f_mul_def)
  qed (use d s in \<open>simp_all add: f_mul_def f_sign_def\<close>)
qed (simp_all add: change_percent_def f_sub_def f_neg_def f_add_def f_mul_def f_sign_def)

lemma change_nonneg: "f_le (Fl 1) q \<Longrightarrow> f_le (Fl 0) (change_percent q)"
proof (cases q)
  case (Fl a)
  assume "f_le (Fl 1) q"
  then have d: "f_le (Fl 0) (fl (a - 1))" using Fl by (intro fl_nonnegative) simp
  have s: "change_percent q = f_mul (fl (a - 1)) (Fl 100)" by (simp add: Fl change_percent_def f_sub_def f_neg_def f_add_def)
  show ?thesis
  proof (cases "fl (a - 1)")
    case (Fl b)
    then show ?thesis using d s fl_nonnegative [of "b * 100"] by (simp add: f_mul_def)
  qed (use d s in \<open>simp_all add: f_mul_def f_sign_def\<close>)
qed (simp_all add: change_percent_def f_sub_def f_neg_def f_add_def f_mul_def f_sign_def)

lemma label_of_nonpos: "f_le x (Fl 0) \<Longrightarrow> comparison_label x \<noteq> ''measured lead''"
  by (cases x) (auto simp: comparison_label_def EQUIVALENCE_PERCENT_def)

lemma label_of_nonneg: "f_le (Fl 0) x \<Longrightarrow> comparison_label x \<noteq> ''measured regression''"
  by (cases x) (auto simp: comparison_label_def EQUIVALENCE_PERCENT_def f_neg_def)

lemma f_neg_le: "f_le (f_neg x) (Fl 0) \<longleftrightarrow> f_le (Fl 0) x" "f_le (Fl 0) (f_neg x) \<longleftrightarrow> f_le x (Fl 0)"
  by (cases x; simp add: f_neg_def)+

text \<open>The ratio is the rounded quotient of the exact values, and is at least or at most one with it.\<close>

lemma measured_value:
  assumes "unmeasured v = Inr False"
  shows "num_of v = Some (Fl (metric_value v))" "0 \<le> metric_value v"
  using assms by (cases v; auto simp: unmeasured_def metric_value_def num_of_def not_less elim: is_finite.elims)+

lemma to_float_order:
  assumes "unmeasured v = Inr False" "unmeasured w = Inr False" "float64 v" "float64 w"
    and "to_float v = Inr x" "to_float w = Inr y"
  shows "\<exists>a b. x = Fl a \<and> y = Fl b \<and> 0 \<le> a \<and> 0 \<le> b \<and> (metric_value v \<le> metric_value w \<longrightarrow> a \<le> b) \<and> (metric_value w \<le> metric_value v \<longrightarrow> b \<le> a)"
proof -
  have one: "\<exists>a. z = Fl a \<and> fl (metric_value u) = Fl a \<and> 0 \<le> a"
    if "unmeasured u = Inr False" "float64 u" "to_float u = Inr z" for u z
  proof -
    have "fl (metric_value u) = z \<and> (\<exists>a. z = Fl a)"
      using that by (cases u) (auto simp: unmeasured_def float64_def to_float_def as_int_def f_of_int_def metric_value_def num_of_def
          split: pyfloat.splits elim: is_finite.elims dest: sym)
    then show ?thesis using fl_nonnegative [OF measured_value(2) [OF that(1)]] by (cases z) auto
  qed
  obtain a b where ab: "x = Fl a" "fl (metric_value v) = Fl a" "0 \<le> a" "y = Fl b" "fl (metric_value w) = Fl b" "0 \<le> b"
    using one [OF assms(1,3,5)] one [OF assms(2,4,6)] by blast
  then show ?thesis using fl_mono [of "metric_value v" "metric_value w"] fl_mono [of "metric_value w" "metric_value v"] by auto
qed

lemma ratio_order:
  assumes "unmeasured v = Inr False" "unmeasured w = Inr False" "float64 v" "float64 w"
    and q: "py_div v w = Inr q" and pos: "0 < metric_value w"
  shows "metric_value v \<le> metric_value w \<Longrightarrow> f_le q (Fl 1)" "metric_value w \<le> metric_value v \<Longrightarrow> f_le (Fl 1) q"
proof -
  have n: "num_of v \<noteq> None" "num_of w \<noteq> None" using measured_value(1) [OF assms(1)] measured_value(1) [OF assms(2)] by simp_all
  have "\<exists>t. q = fl t \<and> (metric_value v \<le> metric_value w \<longrightarrow> t \<le> 1) \<and> (metric_value w \<le> metric_value v \<longrightarrow> 1 \<le> t)"
  proof (cases "as_int v \<noteq> None \<and> as_int w \<noteq> None")
    case True
    then obtain i j where ij: "as_int v = Some i" "as_int w = Some j" by auto
    then have m: "metric_value v = of_int i" "metric_value w = of_int j"
      by (auto simp: metric_value_def num_of_def as_int_def split: pyval.splits)
    have "q = fl (of_int i / of_int j)" using q ij by (auto simp: py_div_def int_div_def split: if_splits pyfloat.splits)
    then show ?thesis using m pos by (intro exI [of _ "of_int i / of_int j"]) (auto simp: field_simps)
  next
    case False
    then obtain x y where xy: "to_float v = Inr x" "to_float w = Inr y" "y \<noteq> Fl 0" "q = f_div x y"
      using q n by (auto simp: py_div_def split: option.splits if_splits)
    obtain a b where ab: "x = Fl a" "y = Fl b" "0 \<le> b" "metric_value v \<le> metric_value w \<longrightarrow> a \<le> b" "metric_value w \<le> metric_value v \<longrightarrow> b \<le> a"
      using to_float_order [OF assms(1-4) xy(1,2)] by blast
    then have "0 < b" using xy(3) by auto
    then show ?thesis using ab xy(4) by (intro exI [of _ "a / b"]) (auto simp: f_div_def field_simps)
  qed
  then show "metric_value v \<le> metric_value w \<Longrightarrow> f_le q (Fl 1)" "metric_value w \<le> metric_value v \<Longrightarrow> f_le (Fl 1) q"
    using fl_at_most_one fl_at_least_one by auto
qed

lemma compare_Inr:
  assumes "compare left right metric higher = Inr d"
  obtains l r q where "incompatibilities left right = Inr []" "metric_median left metric = Inr l" "metric_median right metric = Inr r"
    "unmeasured l = Inr False" "unmeasured r = Inr False" "0 < metric_value r" "py_div l r = Inr q"
    "dict_get d ''label'' PNone = PStr (comparison_label (if higher then change_percent q else f_neg (change_percent q)))"
proof -
  obtain l r q where lr: "incompatibilities left right = Inr []" "metric_median left metric = Inr l" "metric_median right metric = Inr r"
    "anyE unmeasured [l, r] = Inr False" "\<not> py_eq r (PInt 0)" "py_div l r = Inr q"
    and d: "dict_get d ''label'' PNone = PStr (comparison_label (if higher then change_percent q else f_neg (change_percent q)))"
    using assms unfolding compare_def Let_def by (auto simp: dict_get_def simp del: anyE.simps py_eq.simps)
  have u: "unmeasured l = Inr False" "unmeasured r = Inr False" using lr(4) by (simp_all add: anyE_eq_False del: anyE.simps)
  have "metric_value r \<noteq> 0"
    using lr(5) measured_value(1) [OF u(2)] by (cases r) (auto simp: num_of_def num_eq_def)
  then have "0 < metric_value r" using measured_value(2) [OF u(2)] by simp
  then show thesis using that lr u d by blast
qed

lemma comparable_results:
  assumes "incompatibilities left right = Inr []"
  shows "\<forall>name\<in>set COMPARABLE_FIELDS. \<exists>a b s. get left name = Inr a \<and> get right name = Inr b \<and> canonical a = Inr s \<and> canonical b = Inr s"
    and "get left ''qualification'' = Inr (PStr ''passed'')" "get right ''qualification'' = Inr (PStr ''passed'')"
proof -
  obtain rows ok where rows: "mapE (\<lambda>name. bindE (same_text left right name) (\<lambda>b. Inr (if b then [] else [name]))) COMPARABLE_FIELDS = Inr rows"
    and ok: "bindE (passed_qualification left) (\<lambda>a. if a then passed_qualification right else Inr False) = Inr ok"
    and none: "concat rows = []" "ok"
    using assms unfolding incompatibilities_def by (auto simp del: mapE.simps split: if_splits)
  have "same_text left right name = Inr True" if "name \<in> set COMPARABLE_FIELDS" for name
    using mapE_mem' [OF rows that] none(1) by (auto split: if_splits)
  then show "\<forall>name\<in>set COMPARABLE_FIELDS. \<exists>a b s. get left name = Inr a \<and> get right name = Inr b \<and> canonical a = Inr s \<and> canonical b = Inr s"
    unfolding same_text_def by fastforce
  show "get left ''qualification'' = Inr (PStr ''passed'')" "get right ''qualification'' = Inr (PStr ''passed'')"
    using ok none(2) by (auto simp: passed_qualification_def split: if_splits)
qed

lemma compared_metrics:
  assumes c: "compare left right metric higher = Inr d"
    and f: "\<And>l. metric_median left metric = Inr l \<Longrightarrow> float64 l" "\<And>r. metric_median right metric = Inr r \<Longrightarrow> float64 r"
  shows "\<exists>l r. incompatibilities left right = Inr [] \<and> metric_median left metric = Inr l \<and> metric_median right metric = Inr r \<and>
    0 \<le> metric_value l \<and> 0 < metric_value r \<and>
    (has_label d ''measured lead'' \<longrightarrow> (if higher then metric_value r < metric_value l else metric_value l < metric_value r)) \<and>
    (has_label d ''measured regression'' \<longrightarrow> (if higher then metric_value l < metric_value r else metric_value r < metric_value l))"
proof -
  obtain l r q where lr: "incompatibilities left right = Inr []" "metric_median left metric = Inr l" "metric_median right metric = Inr r"
    "unmeasured l = Inr False" "unmeasured r = Inr False" "0 < metric_value r" "py_div l r = Inr q"
    and label: "dict_get d ''label'' PNone = PStr (comparison_label (if higher then change_percent q else f_neg (change_percent q)))"
    using compare_Inr [OF c] .
  note le = ratio_order [OF lr(4,5) f(1) [OF lr(2)] f(2) [OF lr(3)] lr(7,6)]
  have up: "metric_value l \<le> metric_value r \<Longrightarrow> f_le (change_percent q) (Fl 0)" by (intro change_nonpos le)
  have down: "metric_value r \<le> metric_value l \<Longrightarrow> f_le (Fl 0) (change_percent q)" by (intro change_nonneg le)
  have "has_label d ''measured lead'' \<longrightarrow> (if higher then metric_value r < metric_value l else metric_value l < metric_value r)"
    using up down label label_of_nonpos [of "change_percent q"] label_of_nonpos [of "f_neg (change_percent q)"]
    by (cases higher) (auto simp: has_label_def f_neg_le not_less [symmetric])
  moreover have "has_label d ''measured regression'' \<longrightarrow> (if higher then metric_value l < metric_value r else metric_value r < metric_value l)"
    using up down label label_of_nonneg [of "change_percent q"] label_of_nonneg [of "f_neg (change_percent q)"]
    by (cases higher) (auto simp: has_label_def f_neg_le not_less [symmetric])
  ultimately show ?thesis using lr(1-3,6) measured_value(2) [OF lr(4)] by blast
qed

section \<open>Properties\<close>

text \<open>C31: comparisons are fail-closed and consistent. A comparison is made only between qualified
  results with the same canonical workload, boundary, environment, mode and definitions. A lead
  means that the left metric is strictly better, a regression that it is strictly worse, as exact
  numbers and despite the rounding of the ratio; so swapping the operands never turns a lead into
  another lead.\<close>

theorem comparison_consistent:
  assumes "compare left right metric higher = Inr d"
    and "\<And>l. metric_median left metric = Inr l \<Longrightarrow> float64 l" "\<And>r. metric_median right metric = Inr r \<Longrightarrow> float64 r"
  shows "(\<forall>name\<in>set COMPARABLE_FIELDS. \<exists>a b s. get left name = Inr a \<and> get right name = Inr b \<and> canonical a = Inr s \<and> canonical b = Inr s) \<and>
    get left ''qualification'' = Inr (PStr ''passed'') \<and> get right ''qualification'' = Inr (PStr ''passed'') \<and>
    (\<exists>l r. metric_median left metric = Inr l \<and> metric_median right metric = Inr r \<and> 0 \<le> metric_value l \<and> 0 < metric_value r \<and>
      (has_label d ''measured lead'' \<longrightarrow> (if higher then metric_value r < metric_value l else metric_value l < metric_value r)) \<and>
      (has_label d ''measured regression'' \<longrightarrow> (if higher then metric_value l < metric_value r else metric_value r < metric_value l))) \<and>
    (\<forall>d'. compare right left metric higher = Inr d' \<longrightarrow> has_label d ''measured lead'' \<longrightarrow> \<not> has_label d' ''measured lead'')"
proof -
  obtain l r where lr: "metric_median left metric = Inr l" "metric_median right metric = Inr r" "incompatibilities left right = Inr []"
    "has_label d ''measured lead'' \<longrightarrow> (if higher then metric_value r < metric_value l else metric_value l < metric_value r)"
    using compared_metrics [OF assms] by blast
  have "\<not> has_label d' ''measured lead''" if "compare right left metric higher = Inr d'" "has_label d ''measured lead''" for d'
    using compared_metrics [OF that(1) assms(3,2)] lr that(2) by (auto split: if_splits)
  then show ?thesis using compared_metrics [OF assms] comparable_results [OF lr(3)] by blast
qed

definition sample_compared :: "pyval \<Rightarrow> pyval" where
  "sample_compared v = PDict [kv ''qualification'' (PStr ''passed''), kv ''workload'' (PDict [kv ''rate'' (PInt 1000), kv ''payload'' (PInt 64)]),
     kv ''metrics'' (PDict [kv ''throughput'' (PDict [kv ''median'' v])])]"

theorem comparison_consistent_witness:
  "\<exists>d. compare (sample_compared (PInt 1040)) (sample_compared (PFloat (Fl 1000))) ''throughput'' True = Inr d \<and> has_label d ''measured lead'' \<and>
     metric_value (PFloat (Fl 1000)) < metric_value (PInt 1040)"
proof -
  let ?l = "sample_compared (PInt 1040)" and ?r = "sample_compared (PFloat (Fl 1000))"
  have "\<exists>d. compare ?l ?r ''throughput'' True = Inr d \<and> has_label d ''measured lead''"
  proof -
    have "case compare ?l ?r ''throughput'' True of Inr d \<Rightarrow> has_label d ''measured lead'' | Inl _ \<Rightarrow> False" by code_simp
    then show ?thesis by (cases "compare ?l ?r ''throughput'' True") auto
  qed
  then obtain d where d: "compare ?l ?r ''throughput'' True = Inr d" "has_label d ''measured lead''" by blast
  have m: "metric_median ?l ''throughput'' = Inr (PInt 1040)" "metric_median ?r ''throughput'' = Inr (PFloat (Fl 1000))" by code_simp+
  have f: "float64 (PInt 1040)" "float64 (PFloat (Fl 1000))" by code_simp+
  show ?thesis using comparison_consistent [OF d(1)] m f d by auto
qed

end
