(* ===== verification/Aggregation.thy ===== *)
theory Aggregation
  imports Durable_Suite Comparisons
begin

text \<open>
  \<open>aggregate_durable\<close> of \<open>src/benchctl/results.py\<close>: the timing cases of a suite are grouped by the text
  of their identity, and each group becomes one row with medians, extremes and summed accounting. A
  row is qualified only when the suite is, when every repetition is present and when every one of
  them was verified. A suite is the value that \<open>load_durable_suite\<close> returns; the reader of the
  identity text is the JSON reader of the record \<open>world\<close>.
\<close>

section \<open>Groups of repetitions\<close>

text \<open>\<open>groups[k].append(x)\<close> on a dictionary of lists, and \<open>d.update(e)\<close>.\<close>

definition append_to :: "'k \<Rightarrow> 'a \<Rightarrow> ('k \<times> 'a list) list \<Rightarrow> ('k \<times> 'a list) list" where
  "append_to k x gs = AList.update k ((case map_of gs k of Some xs \<Rightarrow> xs | None \<Rightarrow> []) @ [x]) gs"

definition update_all :: "pydict \<Rightarrow> pydict \<Rightarrow> pydict" where
  "update_all d e = foldl (\<lambda>d (k, v). AList.update k v d) d e"

definition dict_of :: "pyval \<Rightarrow> pydict" where
  "dict_of v = (case v of PDict d \<Rightarrow> d | _ \<Rightarrow> [])"

text \<open>\<open>{key: v[key] for key in keys}\<close>\<close>

definition pick :: "pyval \<Rightarrow> string list \<Rightarrow> pydict res" where
  "pick v keys = mapE (\<lambda>k. bindE (item v k) (\<lambda>x. Inr (kv k x))) keys"

definition identity_keys :: "string list" where
  "identity_keys = [''layer'', ''engine'', ''display_name'', ''configuration'', ''workload'',
     ''completion_boundary'', ''environment'', ''measurement_mode'', ''metric_definitions'']"

definition is_timing :: "pyval \<Rightarrow> bool res" where
  "is_timing c = bindE (item c ''smoke'') (\<lambda>smoke. if truthy smoke then Inr False
     else bindE (item c ''measurement_mode'') (\<lambda>mode. Inr (py_eq mode (PStr ''timing''))))"

definition identity_text :: "pyval \<Rightarrow> string res" where
  "identity_text c = bindE (pick c identity_keys) (\<lambda>d. json_default True (PDict d))"

type_synonym repetitions = "(string \<times> pydict list) list"

definition repetition_step :: "repetitions \<Rightarrow> pyval \<Rightarrow> repetitions res" where
  "repetition_step gs c = bindE (is_timing c) (\<lambda>timing.
     if timing then bindE (identity_text c) (\<lambda>k. Inr (append_to k (dict_of c) gs)) else Inr gs)"

section \<open>Rows\<close>

text \<open>\<open>sample["qualification"] != "passed" or sample["metrics"] is None\<close>\<close>

definition unusable :: "pydict \<Rightarrow> bool res" where
  "unusable s = bindE (item (PDict s) ''qualification'') (\<lambda>q.
     if \<not> py_eq q (PStr ''passed'') then Inr True else bindE (item (PDict s) ''metrics'') (\<lambda>m. Inr (m = PNone)))"

definition row_reasons :: "pyval \<Rightarrow> pyval \<Rightarrow> pydict list \<Rightarrow> pyval list res" where
  "row_reasons data expected samples =
     bindE (item data ''qualification'') (\<lambda>q.
     bindE (if py_eq q (PStr ''passed'') then Inr [] else bindE (item data ''qualification_errors'') iter_of) (\<lambda>inherited.
     bindE (anyE unusable samples) (\<lambda>bad.
     Inr (inherited
       @ map PStr (message_if (\<not> py_eq (PInt (int (length samples))) expected)
           (''expected '' @ py_str expected @ '' repetitions, found '' @ nat_str (length samples)))
       @ map PStr (message_if bad ''one or more source cases failed verification'')))))"

definition required_metrics :: "string list" where
  "required_metrics = [''throughput_ops_s'', ''client_p99_ms'', ''client_p999_ms'',
     ''execution_p99_ms'', ''execution_p999_ms'', ''client_start_p99_ms'']"

definition dispatch_metrics :: "string list" where
  "dispatch_metrics = [''scheduler_dispatch_p99_ms'', ''scheduler_dispatch_p999_ms'']"

definition accounting_keys :: "string list" where
  "accounting_keys = [''offered'', ''attempted'', ''ok'', ''completed_in_window'', ''errors'', ''unknown'', ''not_issued'']"

definition summed_accounting :: "pydict list \<Rightarrow> pydict res" where
  "summed_accounting samples =
     mapE (\<lambda>k. bindE (mapE (\<lambda>s. item_path (PDict s) [''accounting'', k]) samples) (\<lambda>vs. bindE (py_sum vs) (\<lambda>v. Inr (kv k v)))) accounting_keys"

text \<open>The metrics of a group, and the optional metrics that some repetitions lack.\<close>

definition group_metrics :: "pydict list \<Rightarrow> (pydict \<times> string list) res" where
  "group_metrics samples =
     bindE (mapE (\<lambda>name. bindE (median_metric samples name) (\<lambda>m. Inr (kv name m))) required_metrics) (\<lambda>metrics.
     foldE (\<lambda>(ms, reasons) name. bindE (optional_median_metric samples name) (\<lambda>(summary, errors).
       Inr (if errors = [] then ms @ [kv name summary] else ms, reasons @ errors))) (metrics, []) dispatch_metrics)"

definition aggregate_fields :: "pyval \<Rightarrow> pyval list \<Rightarrow> pyval list \<Rightarrow> nat \<Rightarrow> pydict \<Rightarrow> pydict \<Rightarrow> pydict" where
  "aggregate_fields expected reasons sources n metrics accounting =
     [kv ''repetitions'' (PInt (int n)), kv ''expected_repetitions'' expected,
      kv ''qualification'' (PStr (if reasons = [] then ''passed'' else ''failed'')), kv ''qualification_errors'' (PList reasons),
      kv ''source_cases'' (PList sources), kv ''metrics'' (PDict metrics), kv ''accounting'' (PDict accounting)]"

definition aggregate_row :: "world \<Rightarrow> pyval \<Rightarrow> pyval \<Rightarrow> string \<times> pydict list \<Rightarrow> pydict res" where
  "aggregate_row w data expected = (\<lambda>(encoded, samples).
     bindE (loads w encoded) (\<lambda>identity.
     bindE (row_reasons data expected samples) (\<lambda>reasons.
     bindE (case identity of PDict d \<Rightarrow> Inr d | _ \<Rightarrow> raiseE TypeError (quote (type_name identity) @ '' object is not a mapping'')) (\<lambda>known.
     bindE (mapE (\<lambda>s. item (PDict s) ''source_case'') samples) (\<lambda>sources.
     let row = (\<lambda>reasons metrics accounting. update_all known (aggregate_fields expected reasons sources (length samples) metrics accounting)) in
     if reasons \<noteq> [] then Inr (row reasons [] [])
     else bindE (group_metrics samples) (\<lambda>(metrics, missing).
       if missing \<noteq> [] then Inr (row (map PStr missing) [] [])
       else bindE (summed_accounting samples) (\<lambda>accounting. Inr (row [] metrics accounting))))))))"

definition aggregate_durable :: "world \<Rightarrow> pyval \<Rightarrow> pydict list res" where
  "aggregate_durable w data =
     bindE (bindE (item data ''cases'') iter_of) (\<lambda>cs.
     bindE (foldE repetition_step [] cs) (\<lambda>groups.
     bindE (item_path data [''suite'', ''runs'']) (\<lambda>expected.
     mapE (aggregate_row w data expected) (sort_key fst groups))))"

section \<open>Groups hold the cases of one identity\<close>

text \<open>The timing cases with the identity text \<open>k\<close>, in the order of the suite.\<close>

definition repetitions_of :: "pyval list \<Rightarrow> string \<Rightarrow> pydict list" where
  "repetitions_of cs k = map dict_of (filter (\<lambda>c. is_timing c = Inr True \<and> identity_text c = Inr k) cs)"

definition group_at :: "('k \<times> 'a list) list \<Rightarrow> 'k \<Rightarrow> 'a list" where
  "group_at gs k = (case map_of gs k of Some xs \<Rightarrow> xs | None \<Rightarrow> [])"

lemma group_at_append_to: "group_at (append_to k x gs) l = group_at gs l @ (if l = k then [x] else [])"
  by (simp add: group_at_def append_to_def update_conv)

lemma append_to_distinct: "distinct (map fst gs) \<Longrightarrow> distinct (map fst (append_to k x gs))"
  by (simp add: append_to_def distinct_update)

lemma append_to_nonempty: "\<forall>l. map_of gs l \<noteq> Some [] \<Longrightarrow> map_of (append_to k x gs) l \<noteq> Some []"
  by (simp add: append_to_def update_conv)

lemma groups_are_repetitions:
  assumes "foldE repetition_step [] cs = Inr gs"
  shows "distinct (map fst gs) \<and> (\<forall>k. map_of gs k \<noteq> Some []) \<and> (\<forall>k. group_at gs k = repetitions_of cs k)"
proof (rule foldE_invariant [OF assms, where P = "\<lambda>cs gs. distinct (map fst gs) \<and> (\<forall>k. map_of gs k \<noteq> Some []) \<and> (\<forall>k. group_at gs k = repetitions_of cs k)"])
  show "distinct (map fst []) \<and> (\<forall>k. map_of [] k \<noteq> Some []) \<and> (\<forall>k. group_at [] k = repetitions_of [] k)" by (simp add: group_at_def repetitions_of_def)
next
  fix seen c rest hs hs'
  assume h: "distinct (map fst hs) \<and> (\<forall>k. map_of hs k \<noteq> Some []) \<and> (\<forall>k. group_at hs k = repetitions_of seen k)" "repetition_step hs c = Inr hs'"
  from h(2) obtain b where b: "is_timing c = Inr b" by (auto simp: repetition_step_def)
  show "distinct (map fst hs') \<and> (\<forall>k. map_of hs' k \<noteq> Some []) \<and> (\<forall>k. group_at hs' k = repetitions_of (seen @ [c]) k)"
  proof (cases b)
    case True
    with h b obtain k where k: "identity_text c = Inr k" "hs' = append_to k (dict_of c) hs" by (auto simp: repetition_step_def)
    have "\<forall>l. map_of hs' l \<noteq> Some []" using append_to_nonempty [of hs] h(1) by (simp only: k(2)) blast
    moreover have "distinct (map fst hs') \<and> (\<forall>k. group_at hs' k = repetitions_of (seen @ [c]) k)"
      using h(1) b True unfolding k(2) by (auto simp: k(1) repetitions_of_def group_at_append_to append_to_distinct)
    ultimately show ?thesis by blast
  next
    case False
    then show ?thesis using h b by (simp add: repetition_step_def repetitions_of_def)
  qed
qed

lemma map_of_update_all:
  "distinct (map fst e) \<Longrightarrow> map_of (update_all d e) k = (case map_of e k of Some v \<Rightarrow> Some v | None \<Rightarrow> map_of d k)"
proof (induction e arbitrary: d)
  case (Cons kv e)
  obtain l v where kv: "kv = (l, v)" by (cases kv)
  have "l \<notin> fst ` set e" using Cons.prems by (simp add: kv)
  then have "map_of e l = None" by (simp add: map_of_eq_None_iff)
  with Cons show ?case by (auto simp: kv update_all_def update_conv split: option.splits)
qed (simp add: update_all_def)

lemma bindE_right: "bindE m Inr = m"
  by (cases m) simp_all

lemma bindE_assoc: "bindE (bindE m f) g = bindE m (\<lambda>x. bindE (f x) g)"
  by (cases m) simp_all

section \<open>Extremes of measured values\<close>

lemma measured_number:
  assumes "measured v = Inr True" shows "num_of v = Some (Fl (metric_value v))" "0 \<le> metric_value v"
  using assms by (cases v; auto simp: measured_def metric_value_def num_of_def not_less elim: is_finite.elims)+

lemma measured_lt: "measured v = Inr True \<Longrightarrow> measured u = Inr True \<Longrightarrow> py_lt v u = Inr (metric_value v < metric_value u)"
  by (simp add: py_lt_def measured_number)

lemma all_measured:
  assumes "anyE (\<lambda>v. bindE (measured v) (\<lambda>ok. Inr (\<not> ok))) vs = Inr False" "v \<in> set vs"
  shows "measured v = Inr True"
  using assms by (auto simp: anyE_eq_False simp del: anyE.simps)

lemma py_min_bound:
  assumes "py_min vs = Inr m" "vs \<noteq> []" "\<forall>v\<in>set vs. measured v = Inr True"
  shows "m \<in> set vs \<and> (\<forall>v\<in>set vs. metric_value m \<le> metric_value v)"
proof -
  obtain u us where vs: "vs = u # us" using assms(2) by (cases vs) auto
  let ?P = "\<lambda>seen m. m \<in> insert u (set seen) \<and> (\<forall>v\<in>insert u (set seen). metric_value m \<le> metric_value v)"
  have "?P us m"
  proof (rule foldE_invariant [where P = ?P])
    show "foldE (\<lambda>m v. bindE (py_lt v m) (\<lambda>b. Inr (if b then v else m))) u us = Inr m" using assms(1) by (simp add: py_min_def vs)
  next
    fix seen x rest s s'
    assume "us = seen @ x # rest" "?P seen s" "bindE (py_lt x s) (\<lambda>b. Inr (if b then x else s)) = Inr s'"
    moreover from this have "measured x = Inr True" "measured s = Inr True" using assms(3) by (auto simp: vs)
    ultimately show "?P (seen @ [x]) s'" by (auto simp: measured_lt split: if_splits)
  qed simp
  then show ?thesis by (simp add: vs)
qed

lemma max_of_bound:
  assumes "max_of vs = Inr m" "vs \<noteq> []" "\<forall>v\<in>set vs. measured v = Inr True"
  shows "m \<in> set vs \<and> (\<forall>v\<in>set vs. metric_value v \<le> metric_value m)"
proof -
  obtain u us where vs: "vs = u # us" using assms(2) by (cases vs) auto
  let ?P = "\<lambda>seen m. m \<in> insert u (set seen) \<and> (\<forall>v\<in>insert u (set seen). metric_value v \<le> metric_value m)"
  have "?P us m"
  proof (rule foldE_invariant [where P = ?P])
    show "foldE py_max2 u us = Inr m" using assms(1) by (simp add: max_of_def vs)
  next
    fix seen x rest s s'
    assume "us = seen @ x # rest" "?P seen s" "py_max2 s x = Inr s'"
    moreover from this have "measured x = Inr True" "measured s = Inr True" using assms(3) by (auto simp: vs)
    ultimately show "?P (seen @ [x]) s'" by (auto simp: measured_lt py_max2_def split: if_splits)
  qed simp
  then show ?thesis by (simp add: vs)
qed

text \<open>Sorting measured values orders them by their number.\<close>

lemma py_insort_sorted:
  assumes "py_insort v xs = Inr ys" "measured v = Inr True" "\<forall>x\<in>set xs. measured x = Inr True" "sorted (map metric_value xs)"
  shows "mset ys = add_mset v (mset xs) \<and> sorted (map metric_value ys)"
  using assms
proof (induction xs arbitrary: ys)
  case (Cons x xs)
  note lt = measured_lt [OF Cons.prems(2), of x]
  show ?case
  proof (cases "metric_value v < metric_value x")
    case True
    then show ?thesis using Cons.prems lt by fastforce
  next
    case False
    then obtain zs where z: "py_insort v xs = Inr zs" "ys = x # zs" using Cons.prems lt by auto
    have i: "mset zs = add_mset v (mset xs) \<and> sorted (map metric_value zs)" using Cons.IH [OF z(1)] Cons.prems by simp
    then have "set zs = insert v (set xs)" by (metis set_mset_add_mset_insert set_mset_mset)
    then show ?thesis using i False Cons.prems(4) by (auto simp: z(2))
  qed
qed simp

lemma py_sorted_measured:
  assumes "py_sorted (PList vs) = Inr ys" "\<forall>v\<in>set vs. measured v = Inr True"
  shows "mset ys = mset vs \<and> sorted (map metric_value ys)"
proof (rule foldE_invariant [where P = "\<lambda>seen ys. mset ys = mset seen \<and> sorted (map metric_value ys)"])
  show "foldE (\<lambda>ys x. py_insort x ys) [] vs = Inr ys" using assms(1) by (simp add: py_sorted_def iter_of_def)
next
  fix seen x rest s s'
  assume h: "vs = seen @ x # rest" "mset s = mset seen \<and> sorted (map metric_value s)" "py_insort x s = Inr s'"
  then have "set s = set seen" by (metis set_mset_mset)
  then show "mset s' = mset (seen @ [x]) \<and> sorted (map metric_value s')"
    using py_insort_sorted [OF h(3)] h(1,2) assms(2) by simp
qed simp

text \<open>The median of measured values: the middle of their order, or the mean of the two middle ones.\<close>

definition is_median :: "pyval \<Rightarrow> pyval list \<Rightarrow> bool" where
  "is_median m vs \<longleftrightarrow> (\<exists>ordered. mset ordered = mset vs \<and> sorted (map metric_value ordered) \<and>
     (if odd (length vs) then m = ordered ! (length vs div 2)
      else \<exists>x. bindE (py_add (ordered ! (length vs div 2 - 1)) (ordered ! (length vs div 2))) (\<lambda>v. py_div v (PInt 2)) = Inr x \<and> m = PFloat x))"

lemma median_of_measured:
  assumes "median_of vs = Inr m" "\<forall>v\<in>set vs. measured v = Inr True"
  shows "is_median m vs"
proof -
  obtain ys where y: "py_sorted (PList vs) = Inr ys"
    "(if odd (length ys) then Inr (ys ! (length ys div 2))
      else bindE (py_add (ys ! (length ys div 2 - 1)) (ys ! (length ys div 2))) (\<lambda>v. bindE (py_div v (PInt 2)) (\<lambda>x. Inr (PFloat x)))) = Inr m"
    using assms(1) unfolding median_of_def Let_def bindE_eq_Inr by blast
  note sorted = py_sorted_measured [OF y(1) assms(2)]
  then have "length ys = length vs" by (metis mset_eq_length)
  then show ?thesis unfolding is_median_def using y(2) sorted by (intro exI [of _ ys]) (auto split: if_splits)
qed

text \<open>What a summary of a metric says of the repetitions: they all have the metric, the minimum and
  the maximum are values of some repetition that bound the others, and the median is that of the
  values.\<close>

definition spread :: "pyval \<Rightarrow> pydict list \<Rightarrow> string \<Rightarrow> bool" where
  "spread summary samples name \<longleftrightarrow>
     (\<exists>vs lo hi middle. mapE (\<lambda>s. item_path (PDict s) [''metrics'', name]) samples = Inr vs \<and> (\<forall>v\<in>set vs. measured v = Inr True) \<and>
       item summary ''min'' = Inr lo \<and> lo \<in> set vs \<and> (\<forall>v\<in>set vs. metric_value lo \<le> metric_value v) \<and>
       item summary ''max'' = Inr hi \<and> hi \<in> set vs \<and> (\<forall>v\<in>set vs. metric_value v \<le> metric_value hi) \<and>
       item summary ''median'' = Inr middle \<and> is_median middle vs)"

lemma median_metric_spread:
  assumes "median_metric samples name = Inr m" "samples \<noteq> []" shows "spread m samples name"
proof -
  let ?at = "\<lambda>s. item_path (PDict s) [''metrics'', name]"
  obtain vs where vs: "mapE ?at samples = Inr vs" "anyE (\<lambda>v. bindE (measured v) (\<lambda>ok. Inr (\<not> ok))) vs = Inr False" "statistics_of vs = Inr m"
    using assms(1) by (auto simp: median_metric_def simp del: anyE.simps)
  obtain d lo hi where st: "m = PDict [kv ''median'' d, kv ''min'' lo, kv ''max'' hi]" "py_min vs = Inr lo" "max_of vs = Inr hi" "median_of vs = Inr d"
    using vs(3) by (auto simp: statistics_of_def)
  have n: "vs \<noteq> []" "\<forall>v\<in>set vs. measured v = Inr True"
    using mapE_length [OF vs(1)] assms(2) all_measured [OF vs(2)] by auto
  have i: "item m ''min'' = Inr lo" "item m ''max'' = Inr hi" "item m ''median'' = Inr d" by (simp_all add: st(1) item_def)
  show ?thesis unfolding spread_def
    using vs(1) n(2) i py_min_bound [OF st(2) n] max_of_bound [OF st(3) n] median_of_measured [OF st(4) n(2)] by blast
qed

text \<open>The extremes bound the value of each repetition.\<close>

lemma spread_bounds:
  assumes "spread summary samples name"
  shows "\<exists>lo hi. item summary ''min'' = Inr lo \<and> item summary ''max'' = Inr hi \<and> measured hi = Inr True \<and>
    (\<forall>s\<in>set samples. \<exists>v. item_path (PDict s) [''metrics'', name] = Inr v \<and> metric_value lo \<le> metric_value v \<and> metric_value v \<le> metric_value hi)"
proof -
  obtain vs lo hi where v: "mapE (\<lambda>s. item_path (PDict s) [''metrics'', name]) samples = Inr vs" "\<forall>v\<in>set vs. measured v = Inr True"
    "item summary ''min'' = Inr lo" "lo \<in> set vs" "\<forall>v\<in>set vs. metric_value lo \<le> metric_value v"
    "item summary ''max'' = Inr hi" "hi \<in> set vs" "\<forall>v\<in>set vs. metric_value v \<le> metric_value hi"
    using assms unfolding spread_def by blast
  have "\<exists>v. item_path (PDict s) [''metrics'', name] = Inr v \<and> metric_value lo \<le> metric_value v \<and> metric_value v \<le> metric_value hi"
    if "s \<in> set samples" for s using mapE_mem' [OF v(1) that] v(5,8) by blast
  then show ?thesis using v(2,3,6,7) by blast
qed

section \<open>Rows stand for all repetitions\<close>

text \<open>A qualified row and the repetitions it aggregates.\<close>

definition row_exact :: "pyval \<Rightarrow> pydict \<Rightarrow> pydict list \<Rightarrow> bool" where
  "row_exact expected row samples \<longleftrightarrow>
     samples \<noteq> [] \<and> py_eq (PInt (int (length samples))) expected \<and>
     (\<forall>s\<in>set samples. dict_get s ''qualification'' PNone = PStr ''passed'') \<and>
     (\<exists>sources. mapE (\<lambda>s. item (PDict s) ''source_case'') samples = Inr sources \<and> item (PDict row) ''source_cases'' = Inr (PList sources)) \<and>
     (\<forall>name\<in>set required_metrics. \<exists>m. item_path (PDict row) [''metrics'', name] = Inr m \<and> spread m samples name) \<and>
     (\<forall>k\<in>set accounting_keys. \<exists>vs v. mapE (\<lambda>s. item_path (PDict s) [''accounting'', k]) samples = Inr vs \<and> py_sum vs = Inr v \<and>
        item_path (PDict row) [''accounting'', k] = Inr v)"

lemma mapE_entries:
  assumes "mapE (\<lambda>k. bindE (f k) (\<lambda>v. Inr (kv k v))) ks = Inr d" "k \<in> set ks"
  shows "\<exists>v. f k = Inr v \<and> map_of d (KStr k) = Some v"
  using assms
proof (induction ks arbitrary: d)
  case (Cons l ks)
  then obtain v e where "f l = Inr v" "mapE (\<lambda>k. bindE (f k) (\<lambda>v. Inr (kv k v))) ks = Inr e" "d = kv l v # e" by auto
  with Cons show ?case by (cases "k = l") auto
qed simp

lemma mapE_keys: "mapE (\<lambda>k. bindE (f k) (\<lambda>v. Inr (kv k v))) ks = Inr d \<Longrightarrow> map fst d = map KStr ks"
  by (induction ks arbitrary: d) auto

text \<open>The entries that a row sets itself, whatever the identity holds.\<close>

lemma row_entries:
  fixes known :: pydict
  shows "dict_get (update_all known (aggregate_fields expected reasons sources n metrics accounting)) ''qualification'' PNone
      = PStr (if reasons = [] then ''passed'' else ''failed'')"
    "item_path (PDict (update_all known (aggregate_fields expected reasons sources n metrics accounting))) [''metrics'', name] = item (PDict metrics) name"
    "item_path (PDict (update_all known (aggregate_fields expected reasons sources n metrics accounting))) [''accounting'', name] = item (PDict accounting) name"
    "item (PDict (update_all known (aggregate_fields expected reasons sources n metrics accounting))) ''source_cases'' = Inr (PList sources)"
  by (simp_all add: map_of_update_all aggregate_fields_def dict_get_def item_path_def item_def bindE_right)

lemma group_metrics_entries:
  assumes "group_metrics samples = Inr (metrics, missing)" "name \<in> set required_metrics"
  shows "\<exists>m. median_metric samples name = Inr m \<and> item (PDict metrics) name = Inr m"
proof -
  obtain d where d: "mapE (\<lambda>name. bindE (median_metric samples name) (\<lambda>m. Inr (kv name m))) required_metrics = Inr d"
    "foldE (\<lambda>(ms, reasons) name. bindE (optional_median_metric samples name) (\<lambda>(summary, errors).
       Inr (if errors = [] then ms @ [kv name summary] else ms, reasons @ errors))) (d, []) dispatch_metrics = Inr (metrics, missing)"
    using assms(1) by (auto simp: group_metrics_def)
  obtain m where m: "median_metric samples name = Inr m" "map_of d (KStr name) = Some m" using mapE_entries [OF d(1) assms(2)] by blast
  have "map_of (fst (metrics, missing)) (KStr name) = Some m"
    by (rule foldE_preserve [OF d(2), where P = "\<lambda>t. map_of (fst t) (KStr name) = Some m"]) (auto simp: m(2) map_add_def)
  then show ?thesis using m(1) by (simp add: item_def)
qed

lemma summed_accounting_entries:
  assumes "summed_accounting samples = Inr d" "k \<in> set accounting_keys"
  shows "\<exists>vs v. mapE (\<lambda>s. item_path (PDict s) [''accounting'', k]) samples = Inr vs \<and> py_sum vs = Inr v \<and> item (PDict d) k = Inr v"
proof -
  let ?f = "\<lambda>k. bindE (mapE (\<lambda>s. item_path (PDict s) [''accounting'', k]) samples) py_sum"
  have "mapE (\<lambda>k. bindE (?f k) (\<lambda>v. Inr (kv k v))) accounting_keys = Inr d"
    using assms(1) unfolding summed_accounting_def by (simp add: bindE_assoc)
  from mapE_entries [OF this assms(2)] show ?thesis by (auto simp: item_def)
qed

lemma usable: "unusable s = Inr False \<Longrightarrow> dict_get s ''qualification'' PNone = PStr ''passed''"
  by (auto simp: unusable_def item_eq_Inr dict_get_def split: if_splits)

lemma row_reasons_Nil:
  assumes "row_reasons data expected samples = Inr []"
  shows "py_eq (PInt (int (length samples))) expected \<and> (\<forall>s\<in>set samples. dict_get s ''qualification'' PNone = PStr ''passed'')"
proof -
  have "anyE unusable samples = Inr False" "py_eq (PInt (int (length samples))) expected"
    using assms by (auto simp: row_reasons_def message_if_def simp del: anyE.simps py_eq.simps split: if_splits)
  then show ?thesis using usable by (auto simp: anyE_eq_False simp del: anyE.simps py_eq.simps)
qed

lemma aggregate_row_exact:
  assumes "aggregate_row w data expected (k, samples) = Inr row" "samples \<noteq> []" "dict_get row ''qualification'' PNone = PStr ''passed''"
  shows "row_exact expected row samples"
proof -
  obtain known reasons sources where r: "row_reasons data expected samples = Inr reasons"
    and src: "mapE (\<lambda>s. item (PDict s) ''source_case'') samples = Inr sources"
    and row: "(if reasons \<noteq> [] then Inr (update_all known (aggregate_fields expected reasons sources (length samples) [] []))
      else bindE (group_metrics samples) (\<lambda>(metrics, missing).
        if missing \<noteq> [] then Inr (update_all known (aggregate_fields expected (map PStr missing) sources (length samples) [] []))
        else bindE (summed_accounting samples) (\<lambda>accounting. Inr (update_all known (aggregate_fields expected [] sources (length samples) metrics accounting))))) = Inr row"
    using assms(1) by (auto simp: aggregate_row_def Let_def)
  have n: "reasons = []" using row assms(3) by (auto simp: row_entries(1) split: if_splits)
  then obtain metrics missing where m: "group_metrics samples = Inr (metrics, missing)" using row by auto
  have "missing = []" using row n m assms(3) by (auto simp: row_entries(1) split: if_splits)
  then obtain accounting where a: "summed_accounting samples = Inr accounting"
    "row = update_all known (aggregate_fields expected [] sources (length samples) metrics accounting)" using row n m by auto
  show ?thesis unfolding row_exact_def a(2) row_entries
    using row_reasons_Nil [of data expected samples] r n src assms(2) group_metrics_entries [OF m] median_metric_spread [OF _ assms(2)]
      summed_accounting_entries [OF a(1)] by (auto simp del: py_eq.simps) blast+
qed

section \<open>No case is dropped and none is added\<close>

text \<open>The JSON reader gives back the identities that were written, up to the order of their keys.\<close>

definition reads_identity :: "world \<Rightarrow> pyval list \<Rightarrow> bool" where
  "reads_identity w cs \<longleftrightarrow> (\<forall>c\<in>set cs. \<forall>d k. pick c identity_keys = Inr d \<and> identity_text c = Inr k \<longrightarrow>
     (\<exists>e. loads w k = Inr (PDict e) \<and> (\<forall>name\<in>set identity_keys. \<exists>u v. map_of d (KStr name) = Some u \<and> map_of e (KStr name) = Some v \<and> py_eq u v)))"

definition same_identity :: "pydict \<Rightarrow> pydict \<Rightarrow> bool" where
  "same_identity s row \<longleftrightarrow> (\<forall>name\<in>set identity_keys. \<exists>u v. item (PDict s) name = Inr u \<and> item (PDict row) name = Inr v \<and> py_eq u v)"

lemma timing_dict: "is_timing c = Inr b \<Longrightarrow> c = PDict (dict_of c)"
  by (auto simp: is_timing_def item_eq_Inr dict_of_def)

lemma in_repetitions:
  "s \<in> set (repetitions_of cs k) \<Longrightarrow> PDict s \<in> set cs \<and> is_timing (PDict s) = Inr True \<and> identity_text (PDict s) = Inr k"
  unfolding repetitions_of_def using timing_dict by force

lemma fields_distinct: "distinct (map fst (aggregate_fields expected reasons sources n metrics accounting))"
  by (simp add: aggregate_fields_def)

lemma fields_not_identity: "name \<in> set identity_keys \<Longrightarrow> map_of (aggregate_fields expected reasons sources n metrics accounting) (KStr name) = None"
  unfolding identity_keys_def by (simp, elim disjE) (simp_all add: aggregate_fields_def)

lemma row_source_and_identity:
  assumes "aggregate_row w data expected (k, samples) = Inr row"
  shows "\<exists>known sources. loads w k = Inr (PDict known) \<and> mapE (\<lambda>s. item (PDict s) ''source_case'') samples = Inr sources \<and>
    item (PDict row) ''source_cases'' = Inr (PList sources) \<and> (\<forall>name\<in>set identity_keys. item (PDict row) name = item (PDict known) name)"
proof -
  obtain identity reasons known sources where i: "loads w k = Inr identity"
    "(case identity of PDict d \<Rightarrow> Inr d | _ \<Rightarrow> raiseE TypeError (quote (type_name identity) @ '' object is not a mapping'')) = Inr known"
    "mapE (\<lambda>s. item (PDict s) ''source_case'') samples = Inr sources"
    "(if reasons \<noteq> [] then Inr (update_all known (aggregate_fields expected reasons sources (length samples) [] []))
      else bindE (group_metrics samples) (\<lambda>(metrics, missing).
        if missing \<noteq> [] then Inr (update_all known (aggregate_fields expected (map PStr missing) sources (length samples) [] []))
        else bindE (summed_accounting samples) (\<lambda>accounting. Inr (update_all known (aggregate_fields expected [] sources (length samples) metrics accounting))))) = Inr row"
    using assms unfolding aggregate_row_def Let_def prod.case bindE_eq_Inr by blast
  have d: "identity = PDict known" using i(2) by (cases identity) auto
  obtain reasons' metrics accounting where r: "row = update_all known (aggregate_fields expected reasons' sources (length samples) metrics accounting)"
    using i(4) by (auto split: if_splits)
  have "item (PDict row) name = item (PDict known) name" if "name \<in> set identity_keys" for name
    by (simp add: r item_def map_of_update_all [OF fields_distinct] fields_not_identity [OF that])
  then show ?thesis using i(1,3) row_entries(4) unfolding d r by blast
qed

lemma sample_identity:
  assumes "reads_identity w cs" "s \<in> set (repetitions_of cs k)" "loads w k = Inr (PDict known)"
    "\<forall>name\<in>set identity_keys. item (PDict row) name = item (PDict known) name"
  shows "same_identity s row"
proof -
  have s: "PDict s \<in> set cs" "identity_text (PDict s) = Inr k" using in_repetitions [OF assms(2)] by auto
  then obtain d where d: "pick (PDict s) identity_keys = Inr d" by (auto simp: identity_text_def)
  have e: "\<exists>u v. map_of d (KStr name) = Some u \<and> map_of known (KStr name) = Some v \<and> py_eq u v" if "name \<in> set identity_keys" for name
    using assms(1,3) s d that unfolding reads_identity_def by fastforce
  show ?thesis unfolding same_identity_def
  proof
    fix name assume n: "name \<in> set identity_keys"
    obtain x where "item (PDict s) name = Inr x" "map_of d (KStr name) = Some x" using mapE_entries [OF d [unfolded pick_def] n] by blast
    then show "\<exists>u v. item (PDict s) name = Inr u \<and> item (PDict row) name = Inr v \<and> py_eq u v"
      using e [OF n] assms(4) n by (auto simp: item_eq_Inr)
  qed
qed

lemma aggregated_group:
  assumes "aggregate_durable w data = Inr rows" "bindE (item data ''cases'') iter_of = Inr cs"
  obtains gs expected where "foldE repetition_step [] cs = Inr gs" "item_path data [''suite'', ''runs''] = Inr expected"
    "mapE (aggregate_row w data expected) (sort_key fst gs) = Inr rows"
    "\<And>k samples. (k, samples) \<in> set gs \<Longrightarrow> samples = repetitions_of cs k \<and> samples \<noteq> []"
    "\<And>k. repetitions_of cs k \<noteq> [] \<Longrightarrow> (k, repetitions_of cs k) \<in> set gs"
proof -
  obtain gs expected where g: "foldE repetition_step [] cs = Inr gs" "item_path data [''suite'', ''runs''] = Inr expected"
    "mapE (aggregate_row w data expected) (sort_key fst gs) = Inr rows"
    using assms unfolding aggregate_durable_def by (auto simp del: foldE.simps mapE.simps)
  note r = groups_are_repetitions [OF g(1)]
  have "samples = repetitions_of cs k \<and> samples \<noteq> []" if "(k, samples) \<in> set gs" for k samples
  proof -
    have m: "map_of gs k = Some samples" using r that by simp
    then have "group_at gs k = samples" by (simp add: group_at_def)
    then show ?thesis using r m by metis
  qed
  moreover have "(k, repetitions_of cs k) \<in> set gs" if "repetitions_of cs k \<noteq> []" for k
  proof -
    have "group_at gs k \<noteq> []" using that r by simp
    then have "map_of gs k = Some (group_at gs k)" by (auto simp: group_at_def split: option.splits)
    then show ?thesis using r map_of_SomeD by metis
  qed
  ultimately show thesis using that g by blast
qed

definition row_sound :: "pyval \<Rightarrow> pyval list \<Rightarrow> pydict \<Rightarrow> bool" where
  "row_sound data cs row \<longleftrightarrow> (\<exists>k runs. item_path data [''suite'', ''runs''] = Inr runs \<and> row_exact runs row (repetitions_of cs k) \<and>
     (\<forall>s\<in>set (repetitions_of cs k). same_identity s row))"

lemma passed_row_sound:
  assumes "aggregate_durable w data = Inr rows" "bindE (item data ''cases'') iter_of = Inr cs" "reads_identity w cs"
    "row \<in> set rows" "dict_get row ''qualification'' PNone = PStr ''passed''"
  shows "row_sound data cs row"
proof -
  obtain gs expected where g: "foldE repetition_step [] cs = Inr gs" "item_path data [''suite'', ''runs''] = Inr expected"
    "mapE (aggregate_row w data expected) (sort_key fst gs) = Inr rows"
    "\<And>k samples. (k, samples) \<in> set gs \<Longrightarrow> samples = repetitions_of cs k \<and> samples \<noteq> []"
    using assms(1,2) by (rule aggregated_group) blast
  obtain e where e: "e \<in> set (sort_key fst gs)" "aggregate_row w data expected e = Inr row" using mapE_mem [OF g(3) assms(4)] by blast
  obtain k samples where ks: "e = (k, samples)" by (cases e)
  then have s: "samples = repetitions_of cs k" "samples \<noteq> []" using g(4) e(1) by auto
  have x: "row_exact expected row samples" using aggregate_row_exact e(2) assms(5) s(2) unfolding ks by blast
  obtain known where "loads w k = Inr (PDict known)" "\<forall>name\<in>set identity_keys. item (PDict row) name = item (PDict known) name"
    using row_source_and_identity e(2) unfolding ks by blast
  then show ?thesis unfolding row_sound_def using g(2) x sample_identity [OF assms(3)] unfolding s(1) by blast
qed

text \<open>C5: Aggregation neither drops nor invents evidence. A row that is reported as qualified has exactly
  the declared number of repetitions, each of them verified and with the identity of the row, and
  its source cases are exactly those repetitions. The minimum and the maximum of every required metric are
  the least and the greatest value of a repetition, the median is the middle of their order (or the mean of the
  two middle values), and the accounting is the sum over them. Every timing case of the suite is a source of some row.\<close>

theorem aggregation_exact:
  assumes "aggregate_durable w data = Inr rows" "bindE (item data ''cases'') iter_of = Inr cs" "reads_identity w cs"
  shows "(\<forall>row\<in>set rows. dict_get row ''qualification'' PNone = PStr ''passed'' \<longrightarrow> row_sound data cs row) \<and>
    (\<forall>c\<in>set cs. is_timing c = Inr True \<longrightarrow> (\<exists>row\<in>set rows. \<exists>v vs. item c ''source_case'' = Inr v \<and> item (PDict row) ''source_cases'' = Inr (PList vs) \<and> v \<in> set vs))"
proof (intro conjI ballI impI)
  fix row assume "row \<in> set rows" "dict_get row ''qualification'' PNone = PStr ''passed''"
  then show "row_sound data cs row" by (rule passed_row_sound [OF assms])
next
  fix c assume c: "c \<in> set cs" "is_timing c = Inr True"
  obtain gs expected where g: "foldE repetition_step [] cs = Inr gs" "mapE (aggregate_row w data expected) (sort_key fst gs) = Inr rows"
    "\<And>k. repetitions_of cs k \<noteq> [] \<Longrightarrow> (k, repetitions_of cs k) \<in> set gs"
    using assms(1,2) by (rule aggregated_group) blast
  obtain s s' where "repetition_step s c = Inr s'" using foldE_each [OF g(1) c(1)] by blast
  then obtain k where k: "identity_text c = Inr k" using c(2) by (auto simp: repetition_step_def)
  then have d: "dict_of c \<in> set (repetitions_of cs k)" using c by (auto simp: repetitions_of_def)
  then have "(k, repetitions_of cs k) \<in> set (sort_key fst gs)" using g(3) [of k] by (cases "repetitions_of cs k") auto
  then obtain row where row: "row \<in> set rows" "aggregate_row w data expected (k, repetitions_of cs k) = Inr row"
    using mapE_mem' [OF g(2)] by blast
  obtain sources where "mapE (\<lambda>s. item (PDict s) ''source_case'') (repetitions_of cs k) = Inr sources" "item (PDict row) ''source_cases'' = Inr (PList sources)"
    using row_source_and_identity [OF row(2)] by blast
  then show "\<exists>row\<in>set rows. \<exists>v vs. item c ''source_case'' = Inr v \<and> item (PDict row) ''source_cases'' = Inr (PList vs) \<and> v \<in> set vs"
    using mapE_mem' [OF _ d] row(1) timing_dict [OF c(2)] by fastforce
qed

text \<open>A suite with two repetitions of one case.\<close>

definition sample_identity :: pydict where
  "sample_identity = [kv ''layer'' (PStr ''s''), kv ''engine'' (PDict [kv ''name'' (PStr ''rafter'')]), kv ''display_name'' (PStr ''R''),
     kv ''configuration'' (PDict [kv ''variant'' (PStr ''v'')]), kv ''workload'' (PDict [kv ''offered_per_second'' (PInt 100), kv ''network_delay_ms'' (PInt 0)]),
     kv ''completion_boundary'' PNone, kv ''environment'' PNone, kv ''measurement_mode'' (PStr ''timing''), kv ''metric_definitions'' PNone]"

definition sample_repetition :: "string \<Rightarrow> int \<Rightarrow> pyval" where
  "sample_repetition name throughput = PDict (sample_identity @
     [kv ''smoke'' (PBool False), kv ''qualification'' (PStr ''passed''), kv ''source_case'' (PStr name),
      kv ''metrics'' (PDict ([kv ''throughput_ops_s'' (PInt throughput)] @ map (\<lambda>k. kv k (PInt 5)) (tl required_metrics))),
      kv ''accounting'' (PDict (map (\<lambda>k. kv k (PInt 0)) accounting_keys))])"

definition sample_durable :: pyval where
  "sample_durable = PDict [kv ''cases'' (PList [sample_repetition ''a'' 99, sample_repetition ''b'' 100]), kv ''suite'' (PDict [kv ''runs'' (PInt 2)]),
     kv ''qualification'' (PStr ''passed''), kv ''qualification_errors'' (PList [])]"

definition repeated_world :: world where
  "repeated_world = suite_world\<lparr>loads := (\<lambda>_. Inr (PDict sample_identity))\<rparr>"

definition sample_summary_of :: "int \<Rightarrow> int \<Rightarrow> pyfloat \<Rightarrow> pyval" where
  "sample_summary_of a b m = PDict [kv ''median'' (PFloat m), kv ''min'' (PInt a), kv ''max'' (PInt b)]"

definition sample_row :: pydict where
  "sample_row = sample_identity @ aggregate_fields (PInt 2) [] [PStr ''a'', PStr ''b''] 2
     (kv ''throughput_ops_s'' (sample_summary_of 99 100 (Fl (199 / 2))) # map (\<lambda>k. kv k (sample_summary_of 5 5 (Fl 5))) (tl required_metrics)
       @ map (\<lambda>k. kv k (PDict [kv ''median'' PNone, kv ''min'' PNone, kv ''max'' PNone])) dispatch_metrics)
     (map (\<lambda>k. kv k (PInt 0)) accounting_keys)"

lemma sample_cases: "bindE (item sample_durable ''cases'') iter_of = Inr [sample_repetition ''a'' 99, sample_repetition ''b'' 100]"
  by (simp add: sample_durable_def item_def iter_of_def)

lemma sample_identity_read: "reads_identity repeated_world [sample_repetition ''a'' 99, sample_repetition ''b'' 100]"
proof -
  have p: "pick (sample_repetition name t) identity_keys = Inr sample_identity" for name t
    by (simp add: pick_def identity_keys_def sample_repetition_def sample_identity_def item_def)
  have "\<exists>u. map_of sample_identity (KStr name) = Some u \<and> py_eq u u" if "name \<in> set identity_keys" for name
    using that by (simp add: identity_keys_def, elim disjE) (simp_all add: sample_identity_def num_of_def num_eq_def)
  then show ?thesis unfolding reads_identity_def by (auto simp: p repeated_world_def simp del: py_eq.simps) metis+
qed

lemma sample_aggregated: "aggregate_durable repeated_world sample_durable = Inr [sample_row]"
  by code_simp

theorem aggregation_exact_witness:
  "row_sound sample_durable [sample_repetition ''a'' 99, sample_repetition ''b'' 100] sample_row"
  using aggregation_exact [OF sample_aggregated sample_cases sample_identity_read] by (simp add: row_entries(1) sample_row_def dict_get_def sample_identity_def aggregate_fields_def)

end
