(* ===== verification/Py_Format.thy ===== *)
theory Py_Format
  imports Json Load_Assessment "HOL-Library.Multiset"
begin

text \<open>
  The formatting of numbers and lists in the reports of \<open>src/benchctl/summary.py\<close>: \<open>format(x, ".1f")\<close>,
  \<open>format(x, ",.0f")\<close> and \<open>sep.join(xs)\<close>, with the exceptions of the interpreter.
\<close>

section \<open>Fixed-point numbers\<close>

text \<open>Digits from the last to the first, with a comma after every third.\<close>

fun commas :: "string \<Rightarrow> string" where
  "commas (a # b # c # d # ds) = a # b # c # CHR '','' # commas (d # ds)"
| "commas ds = ds"

definition with_commas :: "string \<Rightarrow> string" where
  "with_commas digits = rev (commas (rev digits))"

text \<open>\<open>format(x, ".nf")\<close> and, when \<open>grouped\<close>, \<open>format(x, ",.nf")\<close>.\<close>

definition fixed :: "bool \<Rightarrow> nat \<Rightarrow> pyfloat \<Rightarrow> string" where
  "fixed grouped n x = (case x of
     Fl a \<Rightarrow> (let m = round_half_even (\<bar>a\<bar> * 10 ^ n); whole = int_str (m div 10 ^ n); part = int_str (m mod 10 ^ n) in
       (if a < 0 then ''-'' else []) @ (if grouped then with_commas whole else whole)
         @ (if n = 0 then [] else ''.'' @ replicate (n - length part) (CHR ''0'') @ part))
   | PosInf \<Rightarrow> ''inf'' | NegInf \<Rightarrow> ''-inf'' | NaN \<Rightarrow> ''nan'')"

definition format_fixed :: "bool \<Rightarrow> nat \<Rightarrow> pyval \<Rightarrow> string res" where
  "format_fixed grouped n v =
     (if num_of v \<noteq> None then bindE (to_float v) (\<lambda>x. Inr (fixed grouped n x))
      else if is_str v then raiseE ValueError (''Unknown format code '' @ quote ''f'' @ '' for object of type '' @ quote ''str'')
      else raiseE TypeError (''unsupported format string passed to '' @ type_name v @ ''.__format__''))"

text \<open>Dropping the commas gives the digits back, and there is one for every three digits that
  another digit precedes.\<close>

lemma commas_digits: "list_all is_digit ds \<Longrightarrow> filter is_digit (commas ds) = ds"
  by (induction ds rule: commas.induct) (simp_all add: is_digit_def)

lemma with_commas_digits: "list_all is_digit ds \<Longrightarrow> filter is_digit (with_commas ds) = ds"
  using commas_digits [of "rev ds"] by (simp add: with_commas_def rev_filter [symmetric] list_all_iff)

lemma commas_length: "length (commas ds) = length ds + (length ds - 1) div 3"
  by (induction ds rule: commas.induct) simp_all

section \<open>Lists\<close>

text \<open>\<open>sep.join(vs)\<close>\<close>

fun joined_values :: "string \<Rightarrow> nat \<Rightarrow> pyval list \<Rightarrow> string list res" where
  "joined_values sep i [] = Inr []"
| "joined_values sep i (v # vs) = (case v of
     PStr s \<Rightarrow> bindE (joined_values sep (Suc i) vs) (\<lambda>ss. Inr (s # ss))
   | _ \<Rightarrow> raiseE TypeError (''sequence item '' @ nat_str i @ '': expected str instance, '' @ type_name v @ '' found''))"

definition py_join :: "string \<Rightarrow> pyval list \<Rightarrow> string res" where
  "py_join sep vs = bindE (joined_values sep 0 vs) (\<lambda>ss. Inr (joined sep ss))"

lemma joined_values_strings [simp]: "joined_values sep i (map PStr ss) = Inr ss"
  by (induction ss arbitrary: i) simp_all

lemma py_join_strings [simp]: "py_join sep (map PStr ss) = Inr (joined sep ss)"
  by (simp add: py_join_def)

section \<open>Sets and sorting\<close>

text \<open>The members of a set of hashable values, the first of equal ones; \<open>a & b\<close> as the interpreter
  computes it, from the smaller set.\<close>

fun py_dedup :: "pyval list \<Rightarrow> pyval list" where
  "py_dedup [] = []"
| "py_dedup (x # xs) = x # filter (\<lambda>y. \<not> py_eq x y) (py_dedup xs)"

definition py_set :: "pyval list \<Rightarrow> pyval list res" where
  "py_set vs = bindE (mapE require_hashable vs) (\<lambda>_. Inr (py_dedup vs))"

definition set_inter :: "pyval list \<Rightarrow> pyval list \<Rightarrow> pyval list" where
  "set_inter a b = (if length a < length b then filter (\<lambda>x. py_in x b) a else filter (\<lambda>x. py_in x a) b)"

text \<open>\<open>sorted(xs, key=k)\<close> for keys that are tuples: elements that are equal are skipped, the first
  that differs decides.\<close>

fun tuple_lt :: "pyval list \<Rightarrow> pyval list \<Rightarrow> bool res" where
  "tuple_lt (x # xs) (y # ys) = (if py_eq x y then tuple_lt xs ys else py_lt x y)"
| "tuple_lt [] ys = Inr (ys \<noteq> [])"
| "tuple_lt xs [] = Inr False"

fun insort_tuple :: "pyval list \<times> 'a \<Rightarrow> (pyval list \<times> 'a) list \<Rightarrow> (pyval list \<times> 'a) list res" where
  "insort_tuple v [] = Inr [v]"
| "insort_tuple v (x # xs) = bindE (tuple_lt (fst v) (fst x)) (\<lambda>b.
     if b then Inr (v # x # xs) else bindE (insort_tuple v xs) (\<lambda>ys. Inr (x # ys)))"

definition sorted_by :: "('a \<Rightarrow> pyval list res) \<Rightarrow> 'a list \<Rightarrow> 'a list res" where
  "sorted_by key xs =
     bindE (mapE (\<lambda>x. bindE (key x) (\<lambda>k. Inr (k, x))) xs) (\<lambda>kxs.
     bindE (foldE (\<lambda>ys x. insort_tuple x ys) [] kxs) (\<lambda>ys. Inr (map snd ys)))"

lemma filterE_Inr: "filterE p xs = Inr ys \<Longrightarrow> ys = filter (\<lambda>x. p x = Inr True) xs"
  by (induction xs arbitrary: ys) auto

lemma filterE_total: "filterE p xs = Inr ys \<Longrightarrow> x \<in> set xs \<Longrightarrow> \<exists>b. p x = Inr b"
  by (induction xs arbitrary: ys) auto

lemma insort_tuple_mset: "insort_tuple v xs = Inr ys \<Longrightarrow> mset ys = add_mset v (mset xs)"
  by (induction xs arbitrary: ys) (auto split: if_splits)

lemma sorted_by_mset:
  assumes "sorted_by key xs = Inr ys" shows "mset ys = mset xs"
proof -
  obtain kxs zs where k: "mapE (\<lambda>x. bindE (key x) (\<lambda>k. Inr (k, x))) xs = Inr kxs"
    "foldE (\<lambda>ys x. insort_tuple x ys) [] kxs = Inr zs" "ys = map snd zs"
    using assms by (auto simp: sorted_by_def)
  have "mset zs = mset kxs"
    by (rule foldE_invariant [where P = "\<lambda>done ys. mset ys = mset done", OF k(2)]) (auto dest: insort_tuple_mset)
  moreover have "map snd kxs = map (\<lambda>x. x) xs" by (rule mapE_project [OF k(1)]) auto
  ultimately show ?thesis using k(3) by (metis list.map_ident mset_map)
qed

end
