(* ===== verification/Capacity.thy ===== *)
theory Capacity
  imports Aggregation Py_Format
begin

text \<open>
  The capacity decisions of \<open>src/benchctl/summary.py\<close>: whether an aggregated row meets the service
  objective, the highest rate up to which every tested rate does, the curves of all variants and of
  the selected pair, and the host context of the measured load. Rows are those of
  \<open>aggregate_durable\<close>. \<open>NotComparable\<close> is the class \<open>ValueError\<close>, as in \<open>Comparisons\<close>.
\<close>

section \<open>The service objective\<close>

definition MIN_MEMORY_REPETITIONS :: int where
  "MIN_MEMORY_REPETITIONS = 7"

definition SERVICE_OBJECTIVE :: pydict where
  "SERVICE_OBJECTIVE = [kv ''minimum_achieved_percent'' (PFloat (Fl 99)), kv ''maximum_p99_ms'' (PFloat (Fl 20)),
     kv ''maximum_p999_ms'' (PFloat (Fl 50)), kv ''require_zero_errors_unknown_and_unsent'' (PBool True),
     kv ''evaluation'' (PStr ''Every repetition must meet the rate and tail limits; accounting is summed without survivor filtering.'')]"

definition source_refs :: "string \<Rightarrow> pyval list \<Rightarrow> pyval list" where
  "source_refs evidence cs = map (\<lambda>c. PDict [kv ''evidence'' (PStr evidence), kv ''case'' c]) cs"

text \<open>\<open>row[k][l]\<close> for the entries that the decisions read.\<close>

definition variant_of :: "pyval \<Rightarrow> pyval res" where
  "variant_of row = item_path row [''configuration'', ''variant'']"

definition rate_of :: "pyval \<Rightarrow> pyval res" where
  "rate_of row = item_path row [''workload'', ''offered_per_second'']"

definition delay_of :: "pyval \<Rightarrow> pyval res" where
  "delay_of row = item_path row [''workload'', ''network_delay_ms'']"

definition is_value :: "pyval res \<Rightarrow> pyval \<Rightarrow> bool res" where
  "is_value m v = bindE m (\<lambda>x. Inr (py_eq x v))"

definition matches :: "pyval \<Rightarrow> pyval \<Rightarrow> pyval \<Rightarrow> pyval \<Rightarrow> bool res" where
  "matches variant rate delay row =
     andE (is_value (variant_of row) variant) (andE (is_value (rate_of row) rate) (is_value (delay_of row) delay))"

definition one :: "pyval list \<Rightarrow> pyval \<Rightarrow> pyval \<Rightarrow> pyval \<Rightarrow> pyval res" where
  "one rows variant rate delay =
     bindE (filterE (matches variant rate delay) rows) (\<lambda>found. case found of
       [row] \<Rightarrow> Inr row
     | _ \<Rightarrow> raiseE ValueError (''expected one '' @ py_str variant @ '' result at rate '' @ py_str rate @ '', delay '' @ py_str delay
         @ ''; found '' @ nat_str (length found)))"

text \<open>The Rafter variants of the report, and the earlier ones they are compared with.\<close>

definition is_arm :: "string \<Rightarrow> pyval \<Rightarrow> bool res" where
  "is_arm role arm = andE (is_value (subscript arm 1) (PStr ''rafter'')) (is_value (subscript arm 3) (PStr role))"

definition variants_of_engine :: "string \<Rightarrow> pyval list \<Rightarrow> pyval list res" where
  "variants_of_engine name rows =
     bindE (filterE (\<lambda>row. is_value (item_path row [''engine'', ''name'']) (PStr name)) rows) (\<lambda>chosen.
     bindE (mapE variant_of chosen) (\<lambda>vs. bindE (py_set vs) (\<lambda>s. py_sorted (PList s))))"

definition candidate_variants :: "pyval \<Rightarrow> pyval list \<Rightarrow> (pyval list \<times> pyval list) res" where
  "candidate_variants durable rows =
     bindE (item durable ''suite'') (\<lambda>suite. bindE (py_contains ''arms'' suite) (\<lambda>b.
     if \<not> b then bindE (variants_of_engine ''rafter'' rows) (\<lambda>vs. Inr (vs, []))
     else bindE (bindE (item suite ''arms'') iter_of) (\<lambda>arms.
       bindE (filterE (is_arm ''candidate'') arms) (\<lambda>cs. bindE (mapE (\<lambda>arm. subscript arm 0) cs) (\<lambda>candidates.
       bindE (filterE (is_arm ''prior'') arms) (\<lambda>ps. bindE (mapE (\<lambda>arm. subscript arm 0) ps) (\<lambda>priors. Inr (candidates, priors))))))))"

section \<open>Points of a curve\<close>

definition loss_keys :: "string list" where
  "loss_keys = [''errors'', ''unknown'', ''not_issued'']"

definition share_of_offered :: "pyval \<Rightarrow> pyval \<Rightarrow> pyfloat res" where
  "share_of_offered achieved offered = bindE (py_div achieved offered) (\<lambda>x. Inr (f_mul x (Fl 100)))"

text \<open>The last entry of a point: the objective holds in the worst repetition, and nothing was lost.\<close>

definition objective :: "string \<Rightarrow> pyval" where
  "objective name = dict_get SERVICE_OBJECTIVE name PNone"

definition qualifies :: "pyfloat \<Rightarrow> pyval \<Rightarrow> pyval \<Rightarrow> pyval \<Rightarrow> bool res" where
  "qualifies percent p99 p999 loss =
     andE (py_ge (PFloat percent) (objective ''minimum_achieved_percent'')) (andE (py_le p99 (objective ''maximum_p99_ms''))
       (andE (py_le p999 (objective ''maximum_p999_ms'')) (Inr (py_eq loss (PInt 0)))))"

definition point_columns :: "(string \<times> string) list" where
  "point_columns = [(''worst_repetition_execution_p99_ms'', ''execution_p99_ms''), (''worst_repetition_execution_p999_ms'', ''execution_p999_ms''),
     (''worst_repetition_client_start_p99_ms'', ''client_start_p99_ms''), (''worst_repetition_scheduler_dispatch_p99_ms'', ''scheduler_dispatch_p99_ms''),
     (''worst_repetition_scheduler_dispatch_p999_ms'', ''scheduler_dispatch_p999_ms'')]"

definition worst :: "pyval \<Rightarrow> string \<Rightarrow> pyval res" where
  "worst row name = item_path row [''metrics'', name, ''max'']"

definition capacity_point :: "pyval \<Rightarrow> pydict res" where
  "capacity_point row =
     bindE (rate_of row) (\<lambda>offered.
     bindE (item_path row [''metrics'', ''throughput_ops_s'', ''min'']) (\<lambda>achieved.
     bindE (item row ''accounting'') (\<lambda>accounting.
     bindE (bindE (mapE (item accounting) loss_keys) py_sum) (\<lambda>loss.
     bindE (share_of_offered achieved offered) (\<lambda>percent.
     bindE (worst row ''client_p99_ms'') (\<lambda>p99. bindE (worst row ''client_p999_ms'') (\<lambda>p999.
     bindE (mapE (\<lambda>(name, metric). bindE (worst row metric) (\<lambda>v. Inr (kv name v))) point_columns) (\<lambda>columns.
     bindE (mapE (item accounting) loss_keys) (\<lambda>losses.
     bindE (bindE (item accounting ''ok'') (\<lambda>a. bindE (item accounting ''completed_in_window'') (\<lambda>b. py_sub a b))) (\<lambda>late.
     bindE (qualifies percent p99 p999 loss) (\<lambda>q.
     Inr ([kv ''offered_per_second'' offered, kv ''minimum_achieved_ops_s'' achieved, kv ''minimum_achieved_percent'' (PFloat percent),
       kv ''worst_repetition_p99_ms'' p99, kv ''worst_repetition_p999_ms'' p999] @ columns
       @ zip (map KStr [''errors'', ''unknown'', ''unsent'']) losses
       @ [kv ''completed_after_window'' late, kv ''qualifies'' (PBool q)]))))))))))))"

text \<open>\<open>_highest_contiguous_qualifying\<close>: the loop stops at the first rate that does not qualify.\<close>

fun highest_from :: "pyval \<Rightarrow> (pyval \<times> pydict) list \<Rightarrow> pyval res" where
  "highest_from highest [] = Inr highest"
| "highest_from highest ((rate, point) # ps) =
     bindE (item (PDict point) ''qualifies'') (\<lambda>q. if truthy q then highest_from rate ps else Inr highest)"

definition highest_contiguous_qualifying :: "(pyval \<times> pydict) list \<Rightarrow> pyval res" where
  "highest_contiguous_qualifying ps = highest_from PNone ps"

section \<open>The curve of every variant\<close>

definition variant_step :: "case_groups \<Rightarrow> pyval \<Rightarrow> case_groups res" where
  "variant_step gs row =
     bindE (rate_of row) (\<lambda>rate. bindE (py_le rate (PInt 0)) (\<lambda>idle.
     if idle then Inr gs
     else bindE (delay_of row) (\<lambda>delay. bindE (variant_of row) (\<lambda>variant.
       bindE (mapE require_hashable [delay, variant]) (\<lambda>_. Inr (add_case [delay, variant] row gs))))))"

text \<open>The order of the curves: by delay, Rafter first, then by name.\<close>

definition curve_order :: "pyval list \<times> pyval list \<Rightarrow> pyval list res" where
  "curve_order = (\<lambda>(key, rows).
     bindE (item_path (hd rows) [''engine'', ''name'']) (\<lambda>name. bindE (item (hd rows) ''display_name'') (\<lambda>display.
     Inr [key ! 0, PInt (if py_eq name (PStr ''rafter'') then 0 else 1), display, key ! 1])))"

definition sources_of :: "pyval list \<Rightarrow> pyval list res" where
  "sources_of rows = bindE (mapE (\<lambda>row. bindE (item row ''source_cases'') iter_of) rows) (\<lambda>ss. Inr (concat ss))"

definition points_of :: "pyval list \<Rightarrow> (pyval \<times> pydict) list res" where
  "points_of rows = mapE (\<lambda>row. bindE (rate_of row) (\<lambda>rate. bindE (capacity_point row) (\<lambda>point. Inr (rate, point)))) rows"

definition variant_boundary :: "pyval list \<times> pyval list \<Rightarrow> (pydict \<times> pyval list) res" where
  "variant_boundary = (\<lambda>(key, variant_rows).
     bindE (sorted_by (\<lambda>row. bindE (rate_of row) (\<lambda>r. Inr [r])) variant_rows) (\<lambda>rates.
     bindE (points_of rates) (\<lambda>points.
     bindE (highest_contiguous_qualifying points) (\<lambda>highest.
     let tested_max = fst (List.last points); example = hd rates in
     bindE (sources_of rates) (\<lambda>sources.
     bindE (item example ''display_name'') (\<lambda>display. bindE (item_path example [''engine'', ''name'']) (\<lambda>engine.
     Inr ([kv ''network_delay_ms'' (key ! 0), kv ''variant'' (key ! 1), kv ''display_name'' display, kv ''engine'' engine,
       kv ''highest_qualifying_rate'' highest, kv ''maximum_tested_rate'' tested_max,
       kv ''reached_tested_ceiling'' (PBool (py_eq highest tested_max))], sources))))))))"

definition variant_capacity_boundaries :: "pyval list \<Rightarrow> (pydict list \<times> pyval list) res" where
  "variant_capacity_boundaries rows =
     bindE (foldE variant_step [] rows) (\<lambda>groups.
     bindE (sorted_by curve_order groups) (\<lambda>curves.
     bindE (mapE variant_boundary curves) (\<lambda>bs. Inr (map fst bs, concat (map snd bs)))))"

section \<open>The selected pair\<close>

definition delays_of :: "pyval list \<Rightarrow> pyval \<Rightarrow> pyval list res" where
  "delays_of rows variant =
     bindE (filterE (\<lambda>row. is_value (variant_of row) variant) rows) (\<lambda>chosen. bindE (mapE delay_of chosen) py_set)"

definition rates_at :: "pyval list \<Rightarrow> pyval \<Rightarrow> pyval \<Rightarrow> pyval list res" where
  "rates_at rows variant delay =
     bindE (filterE (\<lambda>row. andE (is_value (variant_of row) variant) (andE (is_value (delay_of row) delay)
       (bindE (rate_of row) (\<lambda>r. py_gt r (PInt 0))))) rows) (\<lambda>chosen. bindE (mapE rate_of chosen) py_set)"

text \<open>One rate of a common curve: the points of the candidate and of the control, and their sources.\<close>

definition common_point :: "pyval list \<Rightarrow> pyval \<Rightarrow> pyval \<Rightarrow> pyval \<Rightarrow> pyval \<Rightarrow> ((pyval \<times> pydict \<times> pydict) \<times> pyval list) res" where
  "common_point rows candidate control delay rate =
     bindE (one rows candidate rate delay) (\<lambda>candidate_row. bindE (one rows control rate delay) (\<lambda>control_row.
     bindE (bindE (item candidate_row ''source_cases'') (\<lambda>a. bindE (item control_row ''source_cases'') (py_add a))) (\<lambda>both.
     bindE (iter_of both) (\<lambda>sources.
     bindE (capacity_point candidate_row) (\<lambda>p. bindE (capacity_point control_row) (\<lambda>q. Inr ((rate, p, q), sources)))))))"

definition curve_row :: "pyval \<Rightarrow> pyval \<times> pydict \<times> pydict \<Rightarrow> pyval" where
  "curve_row delay = (\<lambda>(rate, p, q). PDict [kv ''network_delay_ms'' delay, kv ''offered_per_second'' rate, kv ''rafter'' (PDict p), kv ''openraft'' (PDict q)])"

record curves =
  cv_rows :: "pyval list"
  cv_boundaries :: "pydict list"
  cv_sources :: "pyval list"

definition delay_step :: "pyval list \<Rightarrow> pyval \<Rightarrow> pyval \<Rightarrow> curves \<Rightarrow> pyval \<Rightarrow> curves res" where
  "delay_step rows candidate control c delay =
     bindE (rates_at rows candidate delay) (\<lambda>a. bindE (rates_at rows control delay) (\<lambda>b.
     bindE (py_sorted (PList (set_inter a b))) (\<lambda>common.
     if common = [] then Inr c
     else bindE (mapE (common_point rows candidate control delay) common) (\<lambda>found.
       let points = map fst found; tested_max = List.last common in
       bindE (highest_contiguous_qualifying (map (\<lambda>(rate, p, _). (rate, p)) points)) (\<lambda>candidate_max.
       bindE (highest_contiguous_qualifying (map (\<lambda>(rate, _, q). (rate, q)) points)) (\<lambda>control_max.
       Inr (c\<lparr>cv_rows := cv_rows c @ map (curve_row delay) points,
         cv_boundaries := cv_boundaries c @ [[kv ''network_delay_ms'' delay, kv ''maximum_tested_rate'' tested_max,
           kv ''rafter_highest_qualifying_rate'' candidate_max, kv ''rafter_reached_tested_ceiling'' (PBool (py_eq candidate_max tested_max)),
           kv ''openraft_highest_qualifying_rate'' control_max, kv ''openraft_reached_tested_ceiling'' (PBool (py_eq control_max tested_max))]],
         cv_sources := cv_sources c @ concat (map snd found)\<rparr>)))))))"

text \<open>\<open>(a > b) - (a < b)\<close> for the two boundaries of a delay, absent ones counting as 0.\<close>

definition boundary_order :: "pydict \<Rightarrow> int res" where
  "boundary_order b =
     (let x = py_or (dict_get b ''rafter_highest_qualifying_rate'' PNone) (PInt 0); y = py_or (dict_get b ''openraft_highest_qualifying_rate'' PNone) (PInt 0) in
      bindE (py_gt x y) (\<lambda>more. bindE (py_lt x y) (\<lambda>less. Inr ((if more then 1 else 0) - (if less then 1 else 0)))))"

definition capacity_status :: "int list \<Rightarrow> string" where
  "capacity_status orders =
     (if list_ex (\<lambda>i. i < 0) orders then ''mixed result'' else if list_ex (\<lambda>i. 0 < i) orders then ''measured lead'' else ''roughly level'')"

definition describe :: "pydict \<Rightarrow> string \<Rightarrow> string res" where
  "describe no_delay prefix =
     (let v = dict_get no_delay (prefix @ ''_highest_qualifying_rate'') PNone in
      if v = PNone then Inr ''no tested rate''
      else bindE (format_fixed True 0 v) (\<lambda>s.
        Inr ((if truthy (dict_get no_delay (prefix @ ''_reached_tested_ceiling'') PNone) then ''at least '' else []) @ s @ '' writes/s'')))"

definition capacity_object :: "string \<Rightarrow> string \<Rightarrow> pydict list \<Rightarrow> pydict list \<Rightarrow> pyval list \<Rightarrow> pyval list \<Rightarrow> pydict" where
  "capacity_object status result boundaries variant_boundaries rows sources =
     [kv ''status'' (PStr status), kv ''result'' (PStr result), kv ''objective'' (PDict SERVICE_OBJECTIVE),
      kv ''boundaries'' (PList (map PDict boundaries)), kv ''variant_boundaries'' (PList (map PDict variant_boundaries)),
      kv ''rows'' (PList rows), kv ''source_cases'' (PList sources)]"

definition no_curve :: string where
  "no_curve = ''No common fixed-rate capacity curve was selected.''"

definition capacity_result :: "pydict list \<Rightarrow> string res" where
  "capacity_result boundaries =
     (let no_delay = (case find (\<lambda>b. py_eq (dict_get b ''network_delay_ms'' PNone) (PInt 0)) boundaries of Some b \<Rightarrow> b | None \<Rightarrow> hd boundaries) in
      bindE (describe no_delay ''rafter'') (\<lambda>a. bindE (describe no_delay ''openraft'') (\<lambda>b.
      Inr (''At '' @ py_str (dict_get no_delay ''network_delay_ms'' PNone) @ '' ms added egress, Rafter met the declared service objective through ''
        @ a @ ''; the selected OpenRaft control met it through '' @ b @ ''.''))))"

definition capacity_summary :: "pyval list \<Rightarrow> pyval \<Rightarrow> pyval \<Rightarrow> pydict res" where
  "capacity_summary rows candidate control =
     bindE (delays_of rows candidate) (\<lambda>a. bindE (delays_of rows control) (\<lambda>b.
     bindE (variant_capacity_boundaries rows) (\<lambda>(variant_boundaries, variant_sources).
     bindE (py_sorted (PList (set_inter a b))) (\<lambda>delays.
     bindE (foldE (delay_step rows candidate control) \<lparr>cv_rows = [], cv_boundaries = [], cv_sources = []\<rparr> delays) (\<lambda>c.
     if cv_boundaries c = [] then
       bindE (py_set variant_sources) (\<lambda>sources.
       Inr (capacity_object ''not measured'' no_curve [] variant_boundaries [] (source_refs ''durable_service'' sources)))
     else bindE (mapE boundary_order (cv_boundaries c)) (\<lambda>orders.
       bindE (capacity_result (cv_boundaries c)) (\<lambda>result.
       bindE (py_set (cv_sources c @ variant_sources)) (\<lambda>sources.
       Inr (capacity_object (capacity_status orders) result (cv_boundaries c) variant_boundaries (cv_rows c) (source_refs ''durable_service'' sources))))))))))"

section \<open>The host during measured load\<close>

text \<open>\<open>type(v) in (int, float) and math.isfinite(v)\<close>\<close>

definition plain_finite :: "pyval \<Rightarrow> bool res" where
  "plain_finite v = (case v of PInt _ \<Rightarrow> py_isfinite v | PFloat x \<Rightarrow> Inr (is_finite x) | _ \<Rightarrow> Inr False)"

definition follow :: "pyval \<Rightarrow> string list \<Rightarrow> pyval" where
  "follow v path = foldl (\<lambda>v name. case v of PDict d \<Rightarrow> dict_get d name PNone | _ \<Rightarrow> PNone) v path"

definition context_values :: "pyval list \<Rightarrow> string list \<Rightarrow> pyval list res" where
  "context_values chosen path =
     bindE (mapE (\<lambda>c. bindE (item c ''load_environment'') (\<lambda>e. bindE (get_or e ''summary'' (PDict [])) (\<lambda>s. Inr (follow s path)))) chosen) (\<lambda>vs.
     filterE plain_finite vs)"

definition context_extreme :: "(pyval list \<Rightarrow> pyval res) \<Rightarrow> pyval list \<Rightarrow> pyval res" where
  "context_extreme f vs = (if vs = [] then Inr PNone else f vs)"

definition context_maxima :: "(string \<times> string list) list" where
  "context_maxima = [(''maximum_cpu_busy_percent'', [''cpu'', ''busy_percent'']), (''maximum_cpu_iowait_percent'', [''cpu'', ''iowait_percent'']),
     (''maximum_cpu_steal_percent'', [''cpu'', ''steal_percent'']), (''maximum_cgroup_throttled_percent'', [''cgroup_cpu'', ''throttled_percent_of_wall'']),
     (''maximum_io_pressure_some_percent'', [''pressure'', ''io'', ''some'', ''percent_of_wall'']),
     (''maximum_io_pressure_full_percent'', [''pressure'', ''io'', ''full'', ''percent_of_wall'']),
     (''maximum_memory_pressure_full_percent'', [''pressure'', ''memory'', ''full'', ''percent_of_wall''])]"

definition context_maximum :: "pyval list \<Rightarrow> string \<times> string list \<Rightarrow> (pykey \<times> pyval) res" where
  "context_maximum chosen = (\<lambda>(name, path). bindE (context_values chosen path) (\<lambda>vs. bindE (context_extreme max_of vs) (\<lambda>v. Inr (kv name v))))"

definition context_object :: "string \<Rightarrow> nat \<Rightarrow> nat \<Rightarrow> pydict \<Rightarrow> pyval list \<Rightarrow> string \<Rightarrow> pydict" where
  "context_object status chosen expected metrics sources scope =
     [kv ''status'' (PStr status), kv ''observed_cases'' (PInt (int chosen)), kv ''expected_cases'' (PInt (int expected)),
      kv ''metrics'' (PDict metrics), kv ''source_cases'' (PList sources), kv ''scope'' (PStr scope)]"

definition measured_load_context :: "pyval \<Rightarrow> pydict res" where
  "measured_load_context durable =
     bindE (bindE (get_or durable ''cases'' (PList [])) iter_of) (\<lambda>cs.
     bindE (filterE (in_mode ''timing'') cs) (\<lambda>timing_cases.
     bindE (filterE (\<lambda>c. bindE (get c ''load_environment'') (\<lambda>e. Inr (e \<noteq> PNone))) timing_cases) (\<lambda>observed.
     if observed = [] then Inr (context_object ''not measured'' 0 (length timing_cases) [] [] ''no replayed measured-load environment receipts'')
     else
       bindE (context_values observed [''filesystem'', ''minimum_available_bytes'']) (\<lambda>available.
       bindE (context_values observed [''hardware_throttling'', ''maximum_counter_delta'']) (\<lambda>hardware.
       bindE (mapE (context_maximum observed) context_maxima) (\<lambda>maxima.
       bindE (context_extreme max_of hardware) (\<lambda>throttle. bindE (context_extreme py_min available) (\<lambda>least_bytes.
       bindE (context_maximum observed (''maximum_sample_gap_seconds'', [''maximum_sample_gap_seconds''])) (\<lambda>gap.
       bindE (mapE (\<lambda>c. item c ''source_case'') observed) (\<lambda>sources.
       Inr (context_object (if length observed = length timing_cases then ''observed'' else ''partial'') (length observed) (length timing_cases)
         (maxima @ [kv ''maximum_hardware_throttle_counter_delta'' throttle, kv ''hardware_counter_cases'' (PInt (int (length hardware))),
           kv ''minimum_available_bytes'' least_bytes, gap])
         (source_refs ''durable_service'' sources)
         ''Workload and unrelated host activity are inseparable in these counters; they never remove, accept, or rank a result'')))))))))))"

section \<open>The highest rate is the end of the qualifying prefix\<close>

definition point_qualifies :: "pyval \<times> pydict \<Rightarrow> bool" where
  "point_qualifies p = truthy (dict_get (snd p) ''qualifies'' PNone)"

lemma highest_from_prefix:
  "highest_from h ps = Inr r \<Longrightarrow> r = List.last (h # map fst (takeWhile point_qualifies ps))"
proof (induction ps arbitrary: h)
  case (Cons p ps)
  obtain rate point where p: "p = (rate, point)" by (cases p)
  from Cons.prems obtain q where q: "item (PDict point) ''qualifies'' = Inr q" "(if truthy q then highest_from rate ps else Inr h) = Inr r"
    by (auto simp: p)
  have e: "point_qualifies p \<longleftrightarrow> truthy q" using q(1) by (auto simp: p point_qualifies_def item_eq_Inr dict_get_def)
  show ?case
  proof (cases "truthy q")
    case True
    then show ?thesis using Cons.IH [of rate] q(2) e by (simp add: p)
  qed (use q(2) in \<open>simp add: e\<close>)
qed simp

lemma highest_reached:
  assumes "highest_contiguous_qualifying ps = Inr r" "r \<noteq> PNone"
  obtains n where "n < length ps" "r = fst (ps ! n)" "\<And>j. j \<le> n \<Longrightarrow> point_qualifies (ps ! j)"
proof -
  let ?q = "takeWhile point_qualifies ps"
  have r: "r = List.last (PNone # map fst ?q)" using highest_from_prefix assms(1) by (simp add: highest_contiguous_qualifying_def)
  then have n: "?q \<noteq> []" using assms(2) by auto
  let ?n = "length ?q - 1"
  have l: "length ?q \<le> length ps" by (rule length_takeWhile_le)
  have "?n < length ps" using n l by (metis One_nat_def Suc_pred length_greater_0_conv less_eq_Suc_le)
  moreover have "r = fst (ps ! ?n)" using r n by (simp add: last_conv_nth last_map takeWhile_nth)
  moreover have "point_qualifies (ps ! j)" if "j \<le> ?n" for j
  proof -
    have j: "j < length ?q" using that n by (metis One_nat_def Suc_pred le_imp_less_Suc length_greater_0_conv)
    then have "?q ! j \<in> set ?q" by (rule nth_mem)
    then have "point_qualifies (?q ! j)" by (rule set_takeWhileD [THEN conjunct2])
    then show ?thesis using j by (simp add: takeWhile_nth)
  qed
  ultimately show thesis by (rule that)
qed

section \<open>The rows of a curve\<close>

definition curve_key :: "pyval \<Rightarrow> pyval list res" where
  "curve_key row = bindE (delay_of row) (\<lambda>delay. bindE (variant_of row) (\<lambda>variant. Inr [delay, variant]))"

text \<open>The rows with a rate above 0, which are those of the fixed-rate curves.\<close>

definition paced :: "pyval \<Rightarrow> bool" where
  "paced row \<longleftrightarrow> bindE (rate_of row) (\<lambda>rate. py_le rate (PInt 0)) = Inr False"

lemma variant_groups:
  "foldE variant_step gs rows = Inr hs \<Longrightarrow> foldE (Load_Assessment.group_step curve_key) gs (filter paced rows) = Inr hs"
proof (induction rows arbitrary: gs)
  case (Cons row rows)
  then obtain gs' where s: "variant_step gs row = Inr gs'" "foldE variant_step gs' rows = Inr hs" by auto
  then obtain idle where i: "bindE (rate_of row) (\<lambda>rate. py_le rate (PInt 0)) = Inr idle" by (auto simp: variant_step_def)
  show ?case
  proof (cases idle)
    case True
    then have "gs' = gs" using s(1) i by (auto simp: variant_step_def)
    moreover have "\<not> paced row" using True i by (auto simp: paced_def)
    ultimately show ?thesis using Cons.IH s(2) by simp
  next
    case False
    then have "Load_Assessment.group_step curve_key gs row = Inr gs'" using s(1) i
      by (auto simp: variant_step_def group_step_def curve_key_def simp del: mapE.simps)
    moreover have "paced row" using False i by (auto simp: paced_def)
    ultimately show ?thesis using Cons.IH s(2) by simp
  qed
qed simp

text \<open>A group holds exactly the cases whose key equals its own, as keys of groups differ.\<close>

lemma add_case_keys: "map fst (add_case k c gs) = map fst gs @ (if \<exists>l\<in>set (map fst gs). tuple_eq l k then [] else [k])"
  by (induction k c gs rule: add_case.induct) auto

lemma group_cases_keys:
  assumes "group_cases key cs = Inr gs"
  shows "sorted_wrt (\<lambda>a b. \<not> tuple_eq a b) (map fst gs) \<and> (\<forall>l\<in>set (map fst gs). list_all hashable l)"
proof (rule foldE_preserve [OF assms [unfolded group_cases_def]])
  fix s c s'
  assume s: "sorted_wrt (\<lambda>a b. \<not> tuple_eq a b) (map fst s) \<and> (\<forall>l\<in>set (map fst s). list_all hashable l)" "group_step key s c = Inr s'"
  then obtain k where "list_all hashable k" "s' = add_case k c s" by (auto simp: group_step_def dest: mapE_require_hashable)
  then show "sorted_wrt (\<lambda>a b. \<not> tuple_eq a b) (map fst s') \<and> (\<forall>l\<in>set (map fst s'). list_all hashable l)"
    using s(1) by (auto simp: add_case_keys sorted_wrt_append simp del: set_map list.map)
qed simp

lemma lookup_own_group:
  assumes "sorted_wrt (\<lambda>a b. \<not> tuple_eq a b) (map fst gs)" "\<forall>l\<in>set (map fst gs). list_all hashable l" "list_all hashable k"
    "(l, xs) \<in> set gs" "tuple_eq l k"
  shows "lookup_group gs k = xs"
  using assms
proof (induction gs)
  case (Cons g gs)
  obtain m ys where g: "g = (m, ys)" by (cases g)
  show ?case
  proof (cases "tuple_eq m k \<and> (l, xs) \<in> set gs")
    case True
    have h: "list_all hashable m" "list_all hashable l" using True Cons.prems(2) by (auto simp: g)
    have "tuple_eq m l" using True Cons.prems(5) unfolding tuple_eq_hashable [OF h] tuple_eq_hashable [OF h(1) Cons.prems(3)] tuple_eq_hashable [OF h(2) Cons.prems(3)] by metis
    then show ?thesis using True Cons.prems(1) by (auto simp: g)
  next
    case False
    then show ?thesis using Cons by (auto simp: g)
  qed
qed simp

lemma group_is_keyed:
  assumes "group_cases key cs = Inr gs" "(l, xs) \<in> set gs" "c \<in> set cs" "key c = Inr k" "tuple_eq l k"
  shows "xs = keyed key cs k"
proof -
  obtain s s' where "group_step key s c = Inr s'" using foldE_each [OF assms(1) [unfolded group_cases_def] assms(3)] by blast
  then have k: "list_all hashable k" using assms(4) by (auto simp: group_step_def dest: mapE_require_hashable)
  show ?thesis using lookup_own_group [OF _ _ k assms(2,5)] group_cases_keys [OF assms(1)] lookup_group_cases [OF assms(1) k] by simp
qed

section \<open>Rates in order\<close>

text \<open>The rate of a row as an exact number.\<close>

definition rate_value :: "pyval \<Rightarrow> rat" where
  "rate_value row = (case rate_of row of Inr r \<Rightarrow> metric_value r | Inl _ \<Rightarrow> 0)"

definition finite_rate :: "pyval \<Rightarrow> bool" where
  "finite_rate row \<longleftrightarrow> (\<exists>r. rate_of row = Inr r \<and> num_of r = Some (Fl (metric_value r)))"

lemma single_lt:
  assumes "num_of v = Some (Fl (metric_value v))" "num_of u = Some (Fl (metric_value u))"
  shows "tuple_lt [v] [u] = Inr (metric_value v < metric_value u)"
proof -
  have "py_eq v u \<longleftrightarrow> metric_value v = metric_value u" using assms by (cases v; cases u) (auto simp: num_of_def num_eq_def)
  then show ?thesis using assms by (simp add: py_lt_def del: py_eq.simps)
qed

lemma insort_tuple_sorted:
  assumes "insort_tuple v xs = Inr ys" "\<forall>x\<in>insert v (set xs). fst x = [key x] \<and> num_of (key x) = Some (Fl (metric_value (key x)))"
    "sorted (map (\<lambda>x. metric_value (key x)) xs)"
  shows "sorted (map (\<lambda>x. metric_value (key x)) ys)"
  using assms
proof (induction xs arbitrary: ys)
  case (Cons x xs)
  have lt: "tuple_lt (fst v) (fst x) = Inr (metric_value (key v) < metric_value (key x))" using Cons.prems(2) single_lt by auto
  show ?case
  proof (cases "metric_value (key v) < metric_value (key x)")
    case True
    then show ?thesis using Cons.prems lt by fastforce
  next
    case False
    then obtain zs where z: "insort_tuple v xs = Inr zs" "ys = x # zs" using Cons.prems(1) lt by auto
    have "sorted (map (\<lambda>x. metric_value (key x)) zs)" using Cons.IH [OF z(1)] Cons.prems(2,3) by simp
    moreover have "set zs = insert v (set xs)" using insort_tuple_mset [OF z(1)] by (metis set_mset_mset set_mset_add_mset_insert)
    ultimately show ?thesis using False Cons.prems(3) by (auto simp: z(2))
  qed
qed simp

lemma sorted_by_rate:
  assumes "sorted_by (\<lambda>row. bindE (rate_of row) (\<lambda>r. Inr [r])) rows = Inr rates" "\<forall>row\<in>set rows. finite_rate row"
  shows "sorted (map rate_value rates)"
proof -
  obtain kxs zs where k: "mapE (\<lambda>x. bindE (bindE (rate_of x) (\<lambda>r. Inr [r])) (\<lambda>k. Inr (k, x))) rows = Inr kxs"
    "foldE (\<lambda>ys x. insort_tuple x ys) [] kxs = Inr zs" "rates = map snd zs"
    using assms(1) by (auto simp: sorted_by_def simp del: mapE.simps foldE.simps)
  let ?key = "\<lambda>x. hd (fst x)"
  let ?ok = "\<lambda>x. fst x = [?key x] \<and> num_of (?key x) = Some (Fl (metric_value (?key x))) \<and> rate_value (snd x) = metric_value (?key x)"
  have ok: "\<forall>x\<in>set kxs. ?ok x" using mapE_mem [OF k(1)] assms(2) by (force simp: finite_rate_def rate_value_def)
  have "mset zs = mset kxs \<and> sorted (map (\<lambda>x. metric_value (?key x)) zs)"
  proof (rule foldE_invariant [where P = "\<lambda>seen ys. mset ys = mset seen \<and> sorted (map (\<lambda>x. metric_value (?key x)) ys)", OF k(2)])
    fix seen x rest s s'
    assume a: "kxs = seen @ x # rest" "mset s = mset seen \<and> sorted (map (\<lambda>x. metric_value (?key x)) s)" "insort_tuple x s = Inr s'"
    have "set s = set seen" using a(2) by (metis set_mset_mset)
    then have "\<forall>y\<in>insert x (set s). fst y = [?key y] \<and> num_of (?key y) = Some (Fl (metric_value (?key y)))" using ok a(1) by auto
    then show "mset s' = mset (seen @ [x]) \<and> sorted (map (\<lambda>x. metric_value (?key x)) s')"
      using insort_tuple_sorted [OF a(3), of ?key] insort_tuple_mset [OF a(3)] a(2) by simp
  qed simp
  moreover from this have "set zs = set kxs" by (metis set_mset_mset)
  then have "map rate_value rates = map (\<lambda>x. metric_value (?key x)) zs" using ok by (simp add: k(3))
  ultimately show ?thesis by simp
qed

section \<open>A qualifying point\<close>

text \<open>What the entry \<open>qualifies\<close> of a point says of its row.\<close>

definition row_qualifies :: "pyval \<Rightarrow> bool" where
  "row_qualifies row \<longleftrightarrow> (\<exists>offered achieved percent p99 p999 losses loss. rate_of row = Inr offered \<and>
     item_path row [''metrics'', ''throughput_ops_s'', ''min''] = Inr achieved \<and> share_of_offered achieved offered = Inr percent \<and>
     worst row ''client_p99_ms'' = Inr p99 \<and> worst row ''client_p999_ms'' = Inr p999 \<and>
     mapE (\<lambda>k. item_path row [''accounting'', k]) loss_keys = Inr losses \<and> py_sum losses = Inr loss \<and> qualifies percent p99 p999 loss = Inr True)"

lemma accounting_path: "item row ''accounting'' = Inr a \<Longrightarrow> item_path row [''accounting'', k] = item a k"
  by (simp add: item_path_def bindE_right)

lemma capacity_point_columns:
  assumes "mapE (\<lambda>(name, metric). bindE (worst row metric) (\<lambda>v. Inr (kv name v))) point_columns = Inr columns"
  shows "map_of columns (KStr ''qualifies'') = None"
proof -
  have "map fst columns = map (\<lambda>(name, _). KStr name) point_columns" by (rule mapE_project [OF assms]) auto
  then have "KStr ''qualifies'' \<notin> set (map fst columns)" by (simp add: point_columns_def)
  then show ?thesis by (simp add: map_of_eq_None_iff)
qed

lemma qualifying_point:
  assumes "capacity_point row = Inr p" "truthy (dict_get p ''qualifies'' PNone)" shows "row_qualifies row"
proof -
  obtain offered achieved accounting losses loss percent p99 p999 columns losses' late q where c: "rate_of row = Inr offered"
    "item_path row [''metrics'', ''throughput_ops_s'', ''min''] = Inr achieved" "item row ''accounting'' = Inr accounting"
    "mapE (item accounting) loss_keys = Inr losses" "py_sum losses = Inr loss" "share_of_offered achieved offered = Inr percent"
    "worst row ''client_p99_ms'' = Inr p99" "worst row ''client_p999_ms'' = Inr p999"
    "mapE (\<lambda>(name, metric). bindE (worst row metric) (\<lambda>v. Inr (kv name v))) point_columns = Inr columns"
    "qualifies percent p99 p999 loss = Inr q"
    "p = [kv ''offered_per_second'' offered, kv ''minimum_achieved_ops_s'' achieved, kv ''minimum_achieved_percent'' (PFloat percent),
       kv ''worst_repetition_p99_ms'' p99, kv ''worst_repetition_p999_ms'' p999] @ columns
       @ zip (map KStr [''errors'', ''unknown'', ''unsent'']) losses' @ [kv ''completed_after_window'' late, kv ''qualifies'' (PBool q)]"
    using assms(1) unfolding capacity_point_def bindE_eq_Inr by blast
  have z: "map_of (zip (map KStr [''errors'', ''unknown'', ''unsent'']) losses') (KStr ''qualifies'') = None"
    unfolding map_of_eq_None_iff by (auto dest: set_zip_leftD)
  have "dict_get p ''qualifies'' PNone = PBool q"
    unfolding c(11) dict_get_def map_of_append map_add_def by (simp add: z capacity_point_columns [OF c(9)] del: list.map zip.simps)
  then have "qualifies percent p99 p999 loss = Inr True" using assms(2) c(10) by simp
  moreover have "mapE (\<lambda>k. item_path row [''accounting'', k]) loss_keys = Inr losses" using c(4) by (simp add: accounting_path [OF c(3)])
  ultimately show ?thesis unfolding row_qualifies_def using c(1,2,5-8) by blast
qed

section \<open>Every tested rate up to the boundary qualifies\<close>

lemma one_unique:
  assumes "one rows variant rate delay = Inr row"
  shows "row \<in> set rows" "matches variant rate delay row = Inr True" "\<And>r. r \<in> set rows \<Longrightarrow> matches variant rate delay r = Inr True \<Longrightarrow> r = row"
proof -
  obtain found where f: "filterE (matches variant rate delay) rows = Inr found"
    "(case found of [row] \<Rightarrow> Inr row | _ \<Rightarrow> raiseE ValueError (''expected one '' @ py_str variant @ '' result at rate '' @ py_str rate @ '', delay '' @ py_str delay
         @ ''; found '' @ nat_str (length found))) = Inr row"
    using assms unfolding one_def bindE_eq_Inr by blast
  have "found = [row]" using f(2) by (cases found; cases "tl found") auto
  have "filter (\<lambda>x. matches variant rate delay x = Inr True) rows = [row]" using filterE_Inr [OF f(1)] \<open>found = [row]\<close> by simp
  then have "set (filter (\<lambda>x. matches variant rate delay x = Inr True) rows) = {row}" by simp
  then show "row \<in> set rows" "matches variant rate delay row = Inr True" "\<And>r. r \<in> set rows \<Longrightarrow> matches variant rate delay r = Inr True \<Longrightarrow> r = row" by auto
qed

lemma matches_iff:
  "matches variant rate delay row = Inr True \<longleftrightarrow> (\<exists>v r d. variant_of row = Inr v \<and> rate_of row = Inr r \<and> delay_of row = Inr d \<and> py_eq v variant \<and> py_eq r rate \<and> py_eq d delay)"
  by (auto simp: matches_def andE_True is_value_def simp del: py_eq.simps)

lemma py_eq_sym_hashable: "hashable v \<Longrightarrow> py_eq w v \<Longrightarrow> py_eq v w"
  by (auto simp: py_eq_hashable py_eq_hashable_right simp del: py_eq.simps)

lemma py_eq_numbers: "num_of v = Some x \<Longrightarrow> py_eq u v \<longleftrightarrow> (\<exists>y. num_of u = Some y \<and> num_eq y x)"
  by (cases u; cases v) (auto simp: num_of_def)

lemma group_key_of_case:
  assumes "group_cases key cs = Inr gs" "(l, xs) \<in> set gs" shows "\<exists>c\<in>set cs. key c = Inr l"
proof -
  have "\<forall>l\<in>set (map fst gs). \<exists>c\<in>set cs. key c = Inr l"
  proof (rule foldE_preserve [OF assms(1) [unfolded group_cases_def]])
    fix s c s' assume "c \<in> set cs" "\<forall>l\<in>set (map fst s). \<exists>c\<in>set cs. key c = Inr l" "group_step key s c = Inr s'"
    then show "\<forall>l\<in>set (map fst s'). \<exists>c\<in>set cs. key c = Inr l" by (auto simp: group_step_def add_case_keys simp del: set_map list.map split: if_splits)
  qed simp
  then show ?thesis using assms(2) by force
qed

text \<open>The parts of a boundary.\<close>

lemma variant_boundary_parts:
  assumes "variant_boundary (key, vrows) = Inr x"
  obtains rates ps highest where "sorted_by (\<lambda>row. bindE (rate_of row) (\<lambda>r. Inr [r])) vrows = Inr rates" "points_of rates = Inr ps"
    "highest_contiguous_qualifying ps = Inr highest" "dict_get (fst x) ''variant'' PNone = key ! 1" "dict_get (fst x) ''network_delay_ms'' PNone = key ! 0"
    "dict_get (fst x) ''highest_qualifying_rate'' PNone = highest"
proof -
  obtain rates ps highest sources display engine where "sorted_by (\<lambda>row. bindE (rate_of row) (\<lambda>r. Inr [r])) vrows = Inr rates" "points_of rates = Inr ps"
    "highest_contiguous_qualifying ps = Inr highest"
    "x = ([kv ''network_delay_ms'' (key ! 0), kv ''variant'' (key ! 1), kv ''display_name'' display, kv ''engine'' engine,
       kv ''highest_qualifying_rate'' highest, kv ''maximum_tested_rate'' (fst (List.last ps)),
       kv ''reached_tested_ceiling'' (PBool (py_eq highest (fst (List.last ps))))], sources)"
    using assms unfolding variant_boundary_def Let_def prod.case bindE_eq_Inr by blast
  then show thesis using that by (simp add: dict_get_def)
qed

lemma boundary_curve:
  assumes "variant_capacity_boundaries rows = Inr (bs, sources)" "b \<in> set bs"
  obtains gs key vrows x where "group_cases curve_key (filter paced rows) = Inr gs" "(key, vrows) \<in> set gs" "variant_boundary (key, vrows) = Inr x" "b = fst x"
proof -
  obtain gs curves xs where g: "foldE variant_step [] rows = Inr gs" "sorted_by curve_order gs = Inr curves" "mapE variant_boundary curves = Inr xs" "bs = map fst xs"
    using assms(1) by (auto simp: variant_capacity_boundaries_def simp del: foldE.simps mapE.simps)
  obtain x where x: "x \<in> set xs" "b = fst x" using assms(2) g(4) by auto
  obtain c where c: "c \<in> set curves" "variant_boundary c = Inr x" using mapE_mem [OF g(3) x(1)] by blast
  have "set curves = set gs" using sorted_by_mset [OF g(2)] by (metis set_mset_mset)
  then show thesis using that [of gs "fst c" "snd c" x] variant_groups [OF g(1)] c x(2) by (simp add: group_cases_def)
qed

lemma positive_rate:
  assumes "py_gt rate (PInt 0) = Inr True" "py_eq r rate" "rate_of row = Inr r"
  shows "paced row" "num_of r = num_of rate"
proof -
  obtain x where x: "num_of rate = Some x" "f_lt (Fl 0) x" using assms(1)
    by (cases rate) (auto simp: py_gt_def num_of_def order_error_def split: if_splits)
  then obtain y where y: "num_of r = Some y" "num_eq y x" using assms(2) py_eq_numbers by blast
  have "y = x" using y(2) by (simp add: num_eq_def)
  then have "py_le r (PInt 0) = Inr False" using x y by (cases x) (auto simp: py_le_def num_of_def [of "PInt 0"])
  then show "paced row" "num_of r = num_of rate" using assms(3) x(1) y(1) \<open>y = x\<close> by (simp_all add: paced_def)
qed

text \<open>Members of one curve have equal delays and variants.\<close>

lemma curve_members:
  assumes "group_cases curve_key (filter paced rows) = Inr gs" "(key, vrows) \<in> set gs" "row \<in> set rows" "paced row"
    "variant_of row = Inr v" "delay_of row = Inr d" "py_eq v (key ! 1)" "py_eq d (key ! 0)"
  shows "row \<in> set vrows \<and> (\<forall>r\<in>set vrows. r \<in> set rows \<and> (\<exists>v' d'. variant_of r = Inr v' \<and> delay_of r = Inr d' \<and> py_eq v' (key ! 1) \<and> py_eq d' (key ! 0)))"
proof -
  obtain k0 k1 where key: "key = [k0, k1]" using group_key_of_case [OF assms(1,2)] by (auto simp: curve_key_def)
  have hk: "list_all hashable key" using group_cases_keys [OF assms(1)] assms(2) by force
  have ck: "curve_key row = Inr [d, v]" by (simp add: curve_key_def assms(5,6))
  have te: "tuple_eq key [d, v]" using assms(7,8) hk py_eq_sym_hashable by (auto simp: key tuple_eq_def simp del: py_eq.simps)
  have m: "row \<in> set (filter paced rows)" using assms(3,4) by simp
  have vr: "vrows = keyed curve_key (filter paced rows) [d, v]" by (rule group_is_keyed [OF assms(1,2) m ck te])
  have hd: "hashable d" "hashable v"
    using assms(7,8) hk by (auto simp: key hashable_def num_of_def split: pyval.splits option.splits elim: py_eq.elims)
  note e = py_eq_hashable py_eq_hashable_right
  have "tuple_eq [d, v] [d, v]" using te hd hk by (auto simp: key tuple_eq_def e simp del: py_eq.simps)
  then have "row \<in> set vrows" using m ck by (simp add: vr keyed_def)
  moreover have "r \<in> set rows \<and> (\<exists>v' d'. variant_of r = Inr v' \<and> delay_of r = Inr d' \<and> py_eq v' (key ! 1) \<and> py_eq d' (key ! 0))" if "r \<in> set vrows" for r
  proof -
    have r: "r \<in> set rows" "case curve_key r of Inr l \<Rightarrow> tuple_eq l [d, v] | Inl _ \<Rightarrow> False" using that by (auto simp: vr keyed_def)
    then obtain d' v' where l: "variant_of r = Inr v'" "delay_of r = Inr d'" "py_eq d' d" "py_eq v' v"
      by (auto simp: curve_key_def tuple_eq_def bindE_def simp del: py_eq.simps split: sum.splits)
    have "py_eq d' k0" "py_eq v' k1" using l(3,4) assms(7,8) hd hk by (auto simp: key e simp del: py_eq.simps)
    then show ?thesis using r(1) l(1,2) by (simp add: key del: py_eq.simps)
  qed
  ultimately show ?thesis by blast
qed

lemma points_nth:
  assumes "points_of rows = Inr ps" "i < length rows"
  shows "i < length ps \<and> rate_of (rows ! i) = Inr (fst (ps ! i)) \<and> capacity_point (rows ! i) = Inr (snd (ps ! i))"
proof -
  have l: "i < length ps" using assms by (auto simp: points_of_def dest: mapE_length)
  then have "(\<lambda>row. bindE (rate_of row) (\<lambda>rate. bindE (capacity_point row) (\<lambda>point. Inr (rate, point)))) (rows ! i) = Inr (ps ! i)"
    using assms unfolding points_of_def mapE_eq_Inr by (rule_tac list_all2_nthD)
  then show ?thesis using l by (cases "ps ! i") simp
qed

lemma number_le: "num_of v = Some (Fl (metric_value v)) \<Longrightarrow> num_of u = Some (Fl (metric_value u)) \<Longrightarrow> py_le v u = Inr (metric_value v \<le> metric_value u)"
  by (simp add: py_le_def)

lemma same_number:
  assumes "num_of v = num_of u" shows "metric_value v = metric_value u"
  using assms by (simp add: metric_value_def)

lemma boundary_row_qualifies:
  assumes "variant_capacity_boundaries rows = Inr (bs, sources)" "b \<in> set bs" "\<forall>row\<in>set rows. finite_rate row"
    "one rows (dict_get b ''variant'' PNone) rate (dict_get b ''network_delay_ms'' PNone) = Inr row"
    "py_gt rate (PInt 0) = Inr True" "py_le rate (dict_get b ''highest_qualifying_rate'' PNone) = Inr True"
  shows "row_qualifies row"
proof -
  obtain gs key vrows x where g: "group_cases curve_key (filter paced rows) = Inr gs" "(key, vrows) \<in> set gs" "variant_boundary (key, vrows) = Inr x" "b = fst x"
    using boundary_curve [OF assms(1,2)] by blast
  obtain rates ps highest where v: "sorted_by (\<lambda>row. bindE (rate_of row) (\<lambda>r. Inr [r])) vrows = Inr rates" "points_of rates = Inr ps"
    "highest_contiguous_qualifying ps = Inr highest" "dict_get (fst x) ''variant'' PNone = key ! 1" "dict_get (fst x) ''network_delay_ms'' PNone = key ! 0"
    "dict_get (fst x) ''highest_qualifying_rate'' PNone = highest"
    using g(3) by (rule variant_boundary_parts)
  note v = v [folded g(4)]
  note u = one_unique [OF assms(4) [unfolded v(4,5)]]
  obtain vv r d where m: "variant_of row = Inr vv" "rate_of row = Inr r" "delay_of row = Inr d" "py_eq vv (key ! 1)" "py_eq r rate" "py_eq d (key ! 0)"
    using u(2) unfolding matches_iff by blast
  note p = positive_rate [OF assms(5) m(5,2)]
  note cm = curve_members [OF g(1,2) u(1) p(1) m(1,3,4,6)]
  have st: "set rates = set vrows" using sorted_by_mset [OF v(1)] by (metis set_mset_mset)
  have fin: "\<forall>y\<in>set vrows. finite_rate y" using cm assms(3) by blast
  obtain j where j: "j < length rates" "rates ! j = row" using cm st by (metis in_set_conv_nth)
  have "highest \<noteq> PNone" using assms(6) unfolding v(6) by (auto simp: py_le_def num_of_def order_error_def split: option.splits pyval.splits)
  then obtain n where n: "n < length ps" "highest = fst (ps ! n)" "\<And>j. j \<le> n \<Longrightarrow> point_qualifies (ps ! j)" using highest_reached [OF v(3)] by blast
  have ln: "n < length rates" using n(1) v(2) by (auto simp: points_of_def dest: mapE_length)
  have "\<exists>i\<le>n. rates ! i = row"
  proof (cases "j \<le> n")
    case False
    let ?t = "rates ! n"
    have t: "?t \<in> set vrows" "rate_of ?t = Inr highest"
      using nth_mem [OF ln] unfolding st n(2) by (blast, use points_nth [OF v(2) ln] in blast)
    have "finite_rate ?t" "finite_rate row" using fin t(1) cm by blast+
    then have f: "num_of highest = Some (Fl (metric_value highest))" "num_of r = Some (Fl (metric_value r))" using t(2) m(2) by (simp_all add: finite_rate_def)
    have "sorted (map rate_value rates)" by (rule sorted_by_rate [OF v(1) fin])
    then have "rate_value ?t \<le> rate_value row" using sorted_nth_mono [of "map rate_value rates" n j] False j ln by simp
    then have "metric_value highest \<le> metric_value r" using t(2) m(2) by (simp add: rate_value_def)
    moreover have "metric_value r \<le> metric_value highest"
      using assms(6) number_le [of rate highest] same_number [OF p(2)] f p(2) unfolding v(6) by simp
    ultimately have "py_eq highest rate" using f p(2) py_eq_numbers [of rate] by (auto simp: num_eq_def)
    then have "matches (key ! 1) rate (key ! 0) ?t = Inr True" using cm t unfolding matches_iff by blast
    then have "?t = row" using u(3) cm t(1) by blast
    then show ?thesis by blast
  qed (use j in blast)
  then obtain i where i: "i \<le> n" "rates ! i = row" by blast
  have "capacity_point row = Inr (snd (ps ! i))" using points_nth [OF v(2), of i] i ln by simp
  then show ?thesis using qualifying_point n(3) [OF i(1)] by (simp add: point_qualifies_def)
qed

text \<open>A key that finds a group: the same value, or one that compares equal.\<close>

definition same_key :: "pyval \<Rightarrow> pyval \<Rightarrow> bool" where
  "same_key v w \<longleftrightarrow> v = w \<or> py_eq w v"

definition on_curve :: "pydict \<Rightarrow> pyval \<Rightarrow> bool" where
  "on_curve b row \<longleftrightarrow> (\<exists>v d. variant_of row = Inr v \<and> same_key v (dict_get b ''variant'' PNone) \<and>
     delay_of row = Inr d \<and> same_key d (dict_get b ''network_delay_ms'' PNone))"

lemma group_members:
  assumes "group_cases key cs = Inr gs" "(l, xs) \<in> set gs" "c \<in> set xs"
  shows "c \<in> set cs \<and> (\<exists>k. key c = Inr k \<and> (k = l \<or> tuple_eq l k))"
proof -
  let ?P = "\<lambda>gs. \<forall>(l, xs)\<in>set gs. \<forall>c\<in>set xs. c \<in> set cs \<and> (\<exists>k. key c = Inr k \<and> (k = l \<or> tuple_eq l k))"
  have add: "?P (add_case k c gs)" if "?P gs" "c \<in> set cs" "key c = Inr k" for k c gs
    using that by (induction k c gs rule: add_case.induct) auto
  have "?P gs"
  proof (rule foldE_preserve [OF assms(1) [unfolded group_cases_def]])
    fix s c s' assume h: "c \<in> set cs" "?P s" "group_step key s c = Inr s'"
    then obtain k where "key c = Inr k" "s' = add_case k c s" by (auto simp: group_step_def)
    then show "?P s'" using add h(1,2) by simp
  qed simp
  then show ?thesis using assms(2,3) by blast
qed

lemma boundary_is_tested:
  assumes "variant_capacity_boundaries rows = Inr (bs, sources)" "b \<in> set bs" "dict_get b ''highest_qualifying_rate'' PNone \<noteq> PNone"
  shows "\<exists>row\<in>set rows. on_curve b row \<and> paced row \<and> rate_of row = Inr (dict_get b ''highest_qualifying_rate'' PNone) \<and> row_qualifies row"
proof -
  obtain gs key vrows x where g: "group_cases curve_key (filter paced rows) = Inr gs" "(key, vrows) \<in> set gs" "variant_boundary (key, vrows) = Inr x" "b = fst x"
    using boundary_curve [OF assms(1,2)] by blast
  obtain rates ps highest where v: "sorted_by (\<lambda>row. bindE (rate_of row) (\<lambda>r. Inr [r])) vrows = Inr rates" "points_of rates = Inr ps"
    "highest_contiguous_qualifying ps = Inr highest" "dict_get (fst x) ''variant'' PNone = key ! 1" "dict_get (fst x) ''network_delay_ms'' PNone = key ! 0"
    "dict_get (fst x) ''highest_qualifying_rate'' PNone = highest"
    using g(3) by (rule variant_boundary_parts)
  note v = v [folded g(4)]
  obtain n where n: "n < length ps" "highest = fst (ps ! n)" "\<And>j. j \<le> n \<Longrightarrow> point_qualifies (ps ! j)"
    using highest_reached [OF v(3)] assms(3) unfolding v(6) by blast
  have ln: "n < length rates" using n(1) v(2) by (auto simp: points_of_def dest: mapE_length)
  let ?t = "rates ! n"
  have t: "rate_of ?t = Inr highest" "row_qualifies ?t"
    using points_nth [OF v(2) ln] n(2,3) qualifying_point by (auto simp: point_qualifies_def)
  have "set rates = set vrows" using sorted_by_mset [OF v(1)] by (metis set_mset_mset)
  then have "?t \<in> set vrows" using nth_mem [OF ln] by simp
  from group_members [OF g(1,2) this] obtain k where m: "?t \<in> set (filter paced rows)" "curve_key ?t = Inr k" "k = key \<or> tuple_eq key k" by blast
  obtain d w where k: "k = [d, w]" "delay_of ?t = Inr d" "variant_of ?t = Inr w" using m(2) by (auto simp: curve_key_def)
  have "same_key w (key ! 1) \<and> same_key d (key ! 0)"
    using m(3) unfolding same_key_def k(1) tuple_eq_def by (auto simp: list_all2_Cons2 simp del: py_eq.simps)
  then have "on_curve b ?t" unfolding on_curve_def v(4,5) using k(2,3) by blast
  then show ?thesis using m(1) t unfolding v(6) by auto
qed

lemma capacity_summary_boundaries:
  assumes "capacity_summary rows candidate control = Inr c"
  obtains bs sources where "variant_capacity_boundaries rows = Inr (bs, sources)" "dict_get c ''variant_boundaries'' PNone = PList (map PDict bs)"
proof -
  have object: "dict_get (capacity_object status result boundaries bs out sources) ''variant_boundaries'' PNone = PList (map PDict bs)"
    for status result boundaries bs out sources by (simp add: capacity_object_def dict_get_def)
  obtain bs sources where b: "variant_capacity_boundaries rows = Inr (bs, sources)"
    "dict_get c ''variant_boundaries'' PNone = PList (map PDict bs)"
    using assms unfolding capacity_summary_def bindE_eq_Inr by (auto simp: object simp del: foldE.simps mapE.simps split: if_splits)
  then show thesis by (rule that)
qed

section \<open>Down to the repetitions\<close>

text \<open>What a qualifying row says of the cases behind it: none fell below the least throughput, which is at
  least 99 percent of the offered rate, none exceeded the tail limits, and their losses add up to 0.\<close>

definition sustained :: "pyval \<Rightarrow> pydict list \<Rightarrow> bool" where
  "sustained offered samples \<longleftrightarrow>
     (\<exists>least percent. share_of_offered least offered = Inr percent \<and> f_le (Fl 99) percent \<and>
        (\<forall>s\<in>set samples. \<exists>t. item_path (PDict s) [''metrics'', ''throughput_ops_s''] = Inr t \<and> metric_value least \<le> metric_value t)) \<and>
     (\<forall>s\<in>set samples. \<exists>p. item_path (PDict s) [''metrics'', ''client_p99_ms''] = Inr p \<and> metric_value p \<le> 20) \<and>
     (\<forall>s\<in>set samples. \<exists>p. item_path (PDict s) [''metrics'', ''client_p999_ms''] = Inr p \<and> metric_value p \<le> 50) \<and>
     (\<exists>totals loss. mapE (\<lambda>k. bindE (mapE (\<lambda>s. item_path (PDict s) [''accounting'', k]) samples) py_sum) loss_keys = Inr totals \<and>
        py_sum totals = Inr loss \<and> py_eq loss (PInt 0))"

lemma item_path_last: "item_path v [a, b] = Inr m \<Longrightarrow> item_path v [a, b, c] = item m c"
  by (auto simp: item_path_def bindE_right)

lemma qualifies_limits:
  assumes "qualifies percent p99 p999 loss = Inr True" "measured p99 = Inr True" "measured p999 = Inr True"
  shows "f_le (Fl 99) percent" "metric_value p99 \<le> 20" "metric_value p999 \<le> 50" "py_eq loss (PInt 0)"
  using assms by (simp_all add: qualifies_def andE_True objective_def SERVICE_OBJECTIVE_def dict_get_def py_ge_def py_le_def measured_number num_of_def [of "PFloat _"]
      del: py_eq.simps)

lemma row_sustained:
  assumes "row_exact expected row samples" "row_qualifies (PDict row)"
  shows "\<exists>offered. rate_of (PDict row) = Inr offered \<and> sustained offered samples"
proof -
  obtain offered achieved percent p99 p999 losses loss where q: "rate_of (PDict row) = Inr offered"
    "item_path (PDict row) [''metrics'', ''throughput_ops_s'', ''min''] = Inr achieved" "share_of_offered achieved offered = Inr percent"
    "worst (PDict row) ''client_p99_ms'' = Inr p99" "worst (PDict row) ''client_p999_ms'' = Inr p999"
    "mapE (\<lambda>k. item_path (PDict row) [''accounting'', k]) loss_keys = Inr losses" "py_sum losses = Inr loss" "qualifies percent p99 p999 loss = Inr True"
    using assms(2) unfolding row_qualifies_def by blast
  have sp: "\<exists>m. item_path (PDict row) [''metrics'', name] = Inr m \<and> spread m samples name" if "name \<in> set required_metrics" for name
    using assms(1) that unfolding row_exact_def by blast
  have low: "\<forall>s\<in>set samples. \<exists>t. item_path (PDict s) [''metrics'', ''throughput_ops_s''] = Inr t \<and> metric_value achieved \<le> metric_value t"
  proof -
    obtain m where m: "item_path (PDict row) [''metrics'', ''throughput_ops_s''] = Inr m" "spread m samples ''throughput_ops_s''"
      using sp [of "''throughput_ops_s''"] by (auto simp: required_metrics_def)
    show ?thesis using spread_bounds [OF m(2)] q(2) unfolding item_path_last [OF m(1)] by auto
  qed
  have high: "measured w = Inr True \<and> (\<forall>s\<in>set samples. \<exists>p. item_path (PDict s) [''metrics'', name] = Inr p \<and> metric_value p \<le> metric_value w)"
    if n: "name \<in> set required_metrics" and w: "worst (PDict row) name = Inr w" for name w
  proof -
    obtain m where m: "item_path (PDict row) [''metrics'', name] = Inr m" "spread m samples name" using sp [OF n] by blast
    show ?thesis using spread_bounds [OF m(2)] w unfolding worst_def item_path_last [OF m(1)] by auto
  qed
  have r: "''client_p99_ms'' \<in> set required_metrics" "''client_p999_ms'' \<in> set required_metrics" by (simp_all add: required_metrics_def)
  note h = high [OF r(1) q(4)] high [OF r(2) q(5)]
  note l = qualifies_limits [OF q(8) h(1) [THEN conjunct1] h(2) [THEN conjunct1]]
  have "mapE (\<lambda>k. bindE (mapE (\<lambda>s. item_path (PDict s) [''accounting'', k]) samples) py_sum) loss_keys = Inr losses"
    unfolding q(6) [symmetric]
  proof (rule mapE_cong)
    fix k assume "k \<in> set loss_keys"
    then have "k \<in> set accounting_keys" by (auto simp: loss_keys_def accounting_keys_def)
    then obtain vs v where "mapE (\<lambda>s. item_path (PDict s) [''accounting'', k]) samples = Inr vs" "py_sum vs = Inr v" "item_path (PDict row) [''accounting'', k] = Inr v"
      using assms(1) unfolding row_exact_def by blast
    then show "bindE (mapE (\<lambda>s. item_path (PDict s) [''accounting'', k]) samples) py_sum = item_path (PDict row) [''accounting'', k]" by simp
  qed simp
  moreover have "\<forall>s\<in>set samples. \<exists>p. item_path (PDict s) [''metrics'', ''client_p99_ms''] = Inr p \<and> metric_value p \<le> 20" using h(1) l(2) order_trans by blast
  moreover have "\<forall>s\<in>set samples. \<exists>p. item_path (PDict s) [''metrics'', ''client_p999_ms''] = Inr p \<and> metric_value p \<le> 50" using h(2) l(3) order_trans by blast
  ultimately have "sustained offered samples" unfolding sustained_def using q(3,7) l(1,4) low by blast
  then show ?thesis using q(1) by blast
qed

text \<open>The repetitions behind a row sustained its rate.\<close>

definition sustained_by :: "pyval \<Rightarrow> pyval list \<Rightarrow> pydict \<Rightarrow> bool" where
  "sustained_by data cs row \<longleftrightarrow> (\<exists>k runs offered. item_path data [''suite'', ''runs''] = Inr runs \<and>
     py_eq (PInt (int (length (repetitions_of cs k)))) runs \<and> (\<forall>s\<in>set (repetitions_of cs k). same_identity s row) \<and>
     rate_of (PDict row) = Inr offered \<and> sustained offered (repetitions_of cs k))"

lemma qualifying_row_sustained:
  assumes "aggregate_durable w data = Inr rows" "bindE (item data ''cases'') iter_of = Inr cs" "reads_identity w cs"
    "row \<in> set rows" "dict_get row ''qualification'' PNone = PStr ''passed''" "row_qualifies (PDict row)"
  shows "sustained_by data cs row"
proof -
  obtain k runs where k: "item_path data [''suite'', ''runs''] = Inr runs" "row_exact runs row (repetitions_of cs k)" "\<forall>s\<in>set (repetitions_of cs k). same_identity s row"
    using passed_row_sound [OF assms(1-5)] unfolding row_sound_def by blast
  then show ?thesis using row_sustained [OF k(2) assms(6)] unfolding row_exact_def sustained_by_def by blast
qed

text \<open>C9: A capacity claim holds in every single repetition. When the capacity summary gives a variant a highest
  qualifying rate \<open>h\<close> at some delay, then \<open>h\<close> is the positive rate of a tested row of that variant and delay, and the cases
  behind that row, and behind the row of every other tested rate up to \<open>h\<close>, are exactly the declared number of
  repetitions with the identity of the row; each of them completed at
  least 99 percent of the offered rate (measured on the slowest), kept p99 within 20 ms and p99.9
  within 50 ms, and together they lost no operation.\<close>

theorem capacity_claim_sound:
  assumes "aggregate_durable w data = Inr rows" "bindE (item data ''cases'') iter_of = Inr cs" "reads_identity w cs"
    "\<forall>row\<in>set rows. dict_get row ''qualification'' PNone = PStr ''passed'' \<and> finite_rate (PDict row)"
    "capacity_summary (map PDict rows) candidate control = Inr c"
    "dict_get c ''variant_boundaries'' PNone = PList bs" "PDict b \<in> set bs"
    "h = dict_get b ''highest_qualifying_rate'' PNone" "h \<noteq> PNone"
  shows "(\<exists>row\<in>set rows. on_curve b (PDict row) \<and> rate_of (PDict row) = Inr h \<and> 0 < metric_value h \<and> sustained_by data cs row) \<and>
    (\<forall>rate row. one (map PDict rows) (dict_get b ''variant'' PNone) rate (dict_get b ''network_delay_ms'' PNone) = Inr (PDict row) \<and>
       py_gt rate (PInt 0) = Inr True \<and> py_le rate h = Inr True \<longrightarrow> sustained_by data cs row)"
proof (intro conjI allI impI)
  obtain curves sources where v: "variant_capacity_boundaries (map PDict rows) = Inr (curves, sources)" and b: "b \<in> set curves"
  proof (rule capacity_summary_boundaries [OF assms(5)])
    fix curves sources
    assume c: "variant_capacity_boundaries (map PDict rows) = Inr (curves, sources)" "dict_get c ''variant_boundaries'' PNone = PList (map PDict curves)"
    then have "b \<in> set curves" using assms(6,7) by auto
    then show thesis using that c(1) by blast
  qed
  from boundary_is_tested [OF v b] assms(8,9) obtain row where row: "row \<in> set rows" "on_curve b (PDict row)" "paced (PDict row)"
    "rate_of (PDict row) = Inr h" "row_qualifies (PDict row)" by auto
  have "finite_rate (PDict row)" using row(1) assms(4) by blast
  then have "0 < metric_value h" using row(3,4) by (auto simp: paced_def finite_rate_def py_le_def num_of_def [of "PInt 0"])
  then show "\<exists>row\<in>set rows. on_curve b (PDict row) \<and> rate_of (PDict row) = Inr h \<and> 0 < metric_value h \<and> sustained_by data cs row"
    using row qualifying_row_sustained [OF assms(1-3) row(1) _ row(5)] assms(4) by blast
  fix rate row
  assume r: "one (map PDict rows) (dict_get b ''variant'' PNone) rate (dict_get b ''network_delay_ms'' PNone) = Inr (PDict row) \<and>
    py_gt rate (PInt 0) = Inr True \<and> py_le rate h = Inr True"
  have fin: "\<forall>row\<in>set (map PDict rows). finite_rate row" using assms(4) by auto
  have "row_qualifies (PDict row)" using boundary_row_qualifies [OF v b fin] r assms(8) by blast
  moreover have "row \<in> set rows" using one_unique(1) r by fastforce
  ultimately show "sustained_by data cs row" using qualifying_row_sustained [OF assms(1-3)] assms(4) by blast
qed

text \<open>The boundary that the two repetitions of \<open>sample_durable\<close> give.\<close>

definition sample_boundary :: pydict where
  "sample_boundary = [kv ''network_delay_ms'' (PInt 0), kv ''variant'' (PStr ''v''), kv ''display_name'' (PStr ''R''), kv ''engine'' (PStr ''rafter''),
     kv ''highest_qualifying_rate'' (PInt 100), kv ''maximum_tested_rate'' (PInt 100), kv ''reached_tested_ceiling'' (PBool True)]"

lemma sample_row_checks: "dict_get sample_row ''qualification'' PNone = PStr ''passed''" "rate_of (PDict sample_row) = Inr (PInt 100)"
  by code_simp+

lemma sample_capacity:
  "\<exists>c. capacity_summary (map PDict [sample_row]) (PStr ''v'') (PStr ''other'') = Inr c \<and> dict_get c ''variant_boundaries'' PNone = PList [PDict sample_boundary]"
proof -
  have "bindE (capacity_summary (map PDict [sample_row]) (PStr ''v'') (PStr ''other'')) (\<lambda>c. Inr (dict_get c ''variant_boundaries'' PNone)) = Inr (PList [PDict sample_boundary])"
    by code_simp
  then show ?thesis by auto
qed

theorem capacity_claim_sound_witness:
  "\<exists>c b. capacity_summary (map PDict [sample_row]) (PStr ''v'') (PStr ''other'') = Inr c \<and> dict_get c ''variant_boundaries'' PNone = PList [PDict b] \<and>
     dict_get b ''highest_qualifying_rate'' PNone = PInt 100 \<and> rate_of (PDict sample_row) = Inr (PInt 100) \<and>
     sustained_by sample_durable [sample_repetition ''a'' 99, sample_repetition ''b'' 100] sample_row"
proof -
  have h: "PInt 100 = dict_get sample_boundary ''highest_qualifying_rate'' PNone" by code_simp
  have f: "\<forall>row\<in>set [sample_row]. dict_get row ''qualification'' PNone = PStr ''passed'' \<and> finite_rate (PDict row)"
    by (simp add: sample_row_checks finite_rate_def num_of_def metric_value_def)
  obtain c where c: "capacity_summary (map PDict [sample_row]) (PStr ''v'') (PStr ''other'') = Inr c" "dict_get c ''variant_boundaries'' PNone = PList [PDict sample_boundary]"
    using sample_capacity by blast
  have "PDict sample_boundary \<in> set [PDict sample_boundary]" by simp
  from capacity_claim_sound [OF sample_aggregated sample_cases sample_identity_read f c this h]
  have "sustained_by sample_durable [sample_repetition ''a'' 99, sample_repetition ''b'' 100] sample_row" by simp
  then show ?thesis using c h sample_row_checks(2) by auto
qed

end
