(* ===== verification/Service_Section.thy ===== *)
theory Service_Section
  imports Capacity
begin

text \<open>
  \<open>_service_section\<close> of \<open>src/benchctl/summary.py\<close>: the decision whether a durable suite gives a headline,
  and which. The suite must be qualified, one Rafter configuration and one OpenRaft control must be
  selected, and the standard rates 0, 100 and 1000 must be there for both; then throughput and tail
  latencies are compared at every delay. A section is a dictionary that later updates extend.
\<close>

section \<open>Dictionaries and versions\<close>

definition put :: "string \<Rightarrow> pyval \<Rightarrow> pydict \<Rightarrow> pydict" where
  "put k v d = AList.update (KStr k) v d"

text \<open>\<open>section.update(status=..., result=...)\<close>\<close>

definition concluded :: "pydict \<Rightarrow> string \<Rightarrow> string \<Rightarrow> pydict" where
  "concluded s status result = update_all s [kv ''status'' (PStr status), kv ''result'' (PStr result)]"

definition plain_verdict :: "string \<Rightarrow> string \<Rightarrow> pyval" where
  "plain_verdict status detail = PDict [kv ''status'' (PStr status), kv ''detail'' (PStr detail)]"

definition put_verdict :: "string \<Rightarrow> pyval \<Rightarrow> pydict \<Rightarrow> pydict" where
  "put_verdict name v s = put ''verdicts'' (PDict (put name v (dict_of (dict_get s ''verdicts'' PNone)))) s"

definition brief_version :: "pyval \<Rightarrow> string res" where
  "brief_version v = (case v of
     PStr s \<Rightarrow> Inr (if length s = 40 \<and> list_all is_hex s then take 12 s else s)
   | _ \<Rightarrow> raiseE TypeError (''expected string or bytes-like object, got '' @ quote (type_name v)))"

section \<open>The section without evidence, and what the suite itself says\<close>

definition no_service :: string where
  "no_service = ''No durable-service evidence selected.''"

definition service_base :: pydict where
  "service_base =
     [kv ''id'' (PStr ''complete-durable-service''), kv ''title'' (PStr ''Complete durable service''),
      kv ''question'' (PStr ''How many durable writes can an application complete, and how long do clients wait?''),
      kv ''status'' (PStr ''not measured''), kv ''result'' (PStr no_service), kv ''conditions'' PNone, kv ''rows'' (PList []),
      kv ''internal_comparisons'' (PList []), kv ''capacity'' (PDict (capacity_object ''not measured'' no_curve [] [] [] [])),
      kv ''measured_load_context'' (PDict (context_object ''not measured'' 0 0 [] [] ''no durable-service evidence selected'')),
      kv ''source_cases'' (PList []), kv ''benchmark_repository'' PNone, kv ''comparison_kind'' (PStr ''competitor comparison''),
      kv ''verdicts'' (PDict (map (\<lambda>name. kv name (plain_verdict ''not measured'' no_service))
        [''evidence_integrity'', ''correctness_checks'', ''feature_coverage'', ''environment_qualification'', ''service_objective'']))]"

definition recorded_verdict_names :: "string list" where
  "recorded_verdict_names = [''evidence_integrity'', ''correctness_checks'', ''feature_coverage'', ''environment_qualification'']"

definition copy_verdict :: "pyval \<Rightarrow> pydict \<Rightarrow> string \<Rightarrow> pydict res" where
  "copy_verdict verdicts s name = bindE (py_contains name verdicts) (\<lambda>b.
     if b then bindE (item verdicts name) (\<lambda>v. Inr (put_verdict name v s)) else Inr s)"

definition service_start :: "pyval \<Rightarrow> pydict res" where
  "service_start durable =
     bindE (sub_get durable ''suite'' ''benchmark_repository'' PNone) (\<lambda>repository.
     bindE (measured_load_context durable) (\<lambda>context.
     bindE (get_or durable ''verdicts'' (PDict [])) (\<lambda>verdicts.
     foldE (copy_verdict verdicts) (put ''measured_load_context'' (PDict context) (put ''benchmark_repository'' repository service_base)) recorded_verdict_names)))"

section \<open>Suites of reclamation under load\<close>

definition is_assessment :: "pyval \<Rightarrow> bool" where
  "is_assessment v = (case v of PDict d \<Rightarrow> dict_get d ''kind'' PNone = PStr ''reclamation-under-load'' | _ \<Rightarrow> False)"

definition objective_verdict :: "pyval \<Rightarrow> pyval res" where
  "objective_verdict assessment =
     bindE (sub_get assessment ''verdicts'' ''service_objective'' (PDict [])) (\<lambda>wanted.
     bindE (get_or wanted ''status'' (PStr ''failed'')) (\<lambda>status.
     bindE (get_or wanted ''errors'' (PList [])) (\<lambda>errors.
     bindE (if py_eq status (PStr ''passed'') then Inr ''The reclamation-under-load service objective passed.''
       else bindE (bindE (iter_of errors) (py_join ''; '')) (\<lambda>s. Inr (if s = [] then ''The reclamation-under-load service objective failed.'' else s))) (\<lambda>detail.
     Inr (PDict [kv ''status'' status, kv ''detail'' (PStr detail)])))))"

definition reclamation_service :: "pyval \<Rightarrow> pydict \<Rightarrow> pydict res" where
  "reclamation_service durable s =
     bindE (get durable ''reclamation_under_load'') (\<lambda>assessment.
     bindE (bindE (get_or durable ''cases'' (PList [])) iter_of) (\<lambda>cs. bindE (mapE (\<lambda>c. item c ''source_case'') cs) (\<lambda>sources.
     let s1 = update_all s [kv ''comparison_kind'' (PStr ''internal optimization''), kv ''source_cases'' (PList (source_refs ''durable_service'' sources))] in
     if \<not> is_assessment assessment then
       Inr (put_verdict ''service_objective'' (plain_verdict ''failed'' ''The reclamation-under-load assessment is missing or invalid.'')
         (concluded s1 ''mixed result'' ''The selected reclamation-under-load evidence is missing its replayed assessment; no service or competitor headline was computed.''))
     else
       bindE (objective_verdict assessment) (\<lambda>v.
       bindE (is_value (item durable ''qualification'') (PStr ''passed'')) (\<lambda>evidence_passed.
       bindE (is_value (get assessment ''status'') (PStr ''passed'')) (\<lambda>assessment_passed.
       bindE (get assessment ''scope'') (\<lambda>scope.
       let ok = evidence_passed \<and> assessment_passed in
       Inr (put ''conditions'' scope (concluded (put_verdict ''service_objective'' v s1)
         (if ok then ''internal qualification'' else ''mixed result'')
         (if ok then ''WAL reclamation met its same-code service, activity, physical-bound, and restart objectives; no competitor headline was computed.''
          else ''WAL reclamation did not meet every same-code under-load objective; no competitor headline was computed.''))))))))))"

section \<open>One delay\<close>

text \<open>The tail comparisons of a delay: their name, the position of their rate and their metric.\<close>

definition tail_specs :: "(string \<times> nat \<times> string) list" where
  "tail_specs = [(''saturated_p99'', 0, ''client_p99_ms''), (''saturated_p999'', 0, ''client_p999_ms''),
     (''p99_at_100'', 1, ''client_p99_ms''), (''p999_at_100'', 1, ''client_p999_ms''),
     (''p99_at_1000'', 2, ''client_p99_ms''), (''p999_at_1000'', 2, ''client_p999_ms'')]"

definition standard_rates :: "pyval list" where
  "standard_rates = [PInt 0, PInt 100, PInt 1000]"

definition pair_at :: "pyval list \<Rightarrow> pyval \<Rightarrow> pyval \<Rightarrow> pyval \<Rightarrow> pyval \<Rightarrow> (pyval \<times> pyval) res" where
  "pair_at rows selected control delay rate =
     bindE (one rows selected rate delay) (\<lambda>a. bindE (one rows control rate delay) (\<lambda>b. Inr (a, b)))"

definition median_at :: "pyval \<Rightarrow> string \<Rightarrow> pyval res" where
  "median_at row metric = item_path row [''metrics'', metric, ''median'']"

definition compare_pair :: "(pyval \<times> pyval) list \<Rightarrow> string \<times> nat \<times> string \<Rightarrow> pydict res" where
  "compare_pair pairs = (\<lambda>(_, i, metric). compare (fst (pairs ! i)) (snd (pairs ! i)) metric False)"

definition tail_columns :: "(pyval \<times> pyval) list \<Rightarrow> (string \<times> nat \<times> string) \<times> pydict \<Rightarrow> pydict res" where
  "tail_columns pairs = (\<lambda>((name, i, metric), comparison).
     bindE (median_at (fst (pairs ! i)) metric) (\<lambda>a. bindE (median_at (snd (pairs ! i)) metric) (\<lambda>b.
     Inr [kv (''rafter_'' @ name @ ''_ms'') a, kv (''openraft_'' @ name @ ''_ms'') b,
       kv (name @ ''_improvement_percent'') (dict_get comparison ''advantage_percent'' PNone),
       kv (name @ ''_interpretation'') (dict_get comparison ''label'' PNone)])))"

definition service_row :: "pyval list \<Rightarrow> pyval \<Rightarrow> pyval \<Rightarrow> pyval \<Rightarrow> (pydict \<times> pyval list) res" where
  "service_row rows selected control delay =
     bindE (mapE (pair_at rows selected control delay) standard_rates) (\<lambda>pairs.
     let (candidate, other) = pairs ! 0 in
     bindE (compare candidate other ''throughput_ops_s'' True) (\<lambda>throughput.
     bindE (mapE (compare_pair pairs) tail_specs) (\<lambda>tails.
     bindE (sources_of (concat (map (\<lambda>(a, b). [a, b]) pairs))) (\<lambda>sources.
     bindE (median_at candidate ''throughput_ops_s'') (\<lambda>a. bindE (median_at other ''throughput_ops_s'') (\<lambda>b.
     bindE (mapE (tail_columns pairs) (zip tail_specs tails)) (\<lambda>columns.
     Inr ([kv ''network_delay_ms'' delay, kv ''rafter_throughput_ops_s'' a, kv ''openraft_throughput_ops_s'' b,
       kv ''throughput_ratio'' (dict_get throughput ''ratio'' PNone), kv ''throughput_interpretation'' (dict_get throughput ''label'' PNone)] @ concat columns, sources))))))))"

section \<open>Earlier variants of the same source\<close>

definition latency_row :: "pyval list \<Rightarrow> pyval \<Rightarrow> pyval \<Rightarrow> pyval \<Rightarrow> pyval \<Rightarrow> (pydict \<times> pyval list) res" where
  "latency_row rows selected prior delay rate =
     bindE (pair_at rows selected prior delay rate) (\<lambda>(a, b).
     bindE (compare a b ''client_p99_ms'' False) (\<lambda>p99. bindE (compare a b ''client_p999_ms'' False) (\<lambda>p999.
     bindE (median_at a ''client_p99_ms'') (\<lambda>a99. bindE (median_at b ''client_p99_ms'') (\<lambda>b99.
     bindE (median_at a ''client_p999_ms'') (\<lambda>a999. bindE (median_at b ''client_p999_ms'') (\<lambda>b999.
     bindE (if py_eq rate (PInt 0) then Inr [] else sources_of [a, b]) (\<lambda>sources.
     Inr ([kv ''offered_per_second'' rate, kv ''candidate_p99_ms'' a99, kv ''prior_p99_ms'' b99,
       kv ''p99_improvement_percent'' (dict_get p99 ''advantage_percent'' PNone), kv ''p99_interpretation'' (dict_get p99 ''label'' PNone),
       kv ''candidate_p999_ms'' a999, kv ''prior_p999_ms'' b999,
       kv ''p999_improvement_percent'' (dict_get p999 ''advantage_percent'' PNone), kv ''p999_interpretation'' (dict_get p999 ''label'' PNone)], sources)))))))))"

definition same_entry :: "pyval \<Rightarrow> pyval \<Rightarrow> string list \<Rightarrow> bool res" where
  "same_entry a b path = bindE (item_path a path) (\<lambda>x. bindE (item_path b path) (\<lambda>y. Inr (py_eq x y)))"

definition internal_comparison :: "pyval list \<Rightarrow> pyval \<Rightarrow> pyval \<Rightarrow> pyval \<Rightarrow> pydict list res" where
  "internal_comparison rows selected prior delay =
     bindE (pair_at rows selected prior delay (PInt 0)) (\<lambda>(candidate, baseline).
     bindE (same_entry candidate baseline [''engine'']) (\<lambda>same_source.
     bindE (same_entry candidate baseline [''configuration'', ''hard_state'']) (\<lambda>same_storage.
     if \<not> (same_source \<and> same_storage) then Inr []
     else
       bindE (compare candidate baseline ''throughput_ops_s'' True) (\<lambda>change.
       bindE (sources_of [candidate, baseline]) (\<lambda>sources.
       bindE (mapE (latency_row rows selected prior delay) standard_rates) (\<lambda>latencies.
       bindE (item candidate ''display_name'') (\<lambda>a. bindE (item baseline ''display_name'') (\<lambda>b.
       Inr [[kv ''network_delay_ms'' delay, kv ''prior_variant'' prior, kv ''candidate_name'' a, kv ''prior_name'' b,
         kv ''throughput_change_percent'' (dict_get change ''advantage_percent'' PNone), kv ''interpretation'' (dict_get change ''label'' PNone),
         kv ''latencies'' (PList (map (\<lambda>l. PDict (fst l)) latencies)),
         kv ''source_cases'' (PList (source_refs ''durable_service'' (sources @ concat (map snd latencies))))]]))))))))"

definition internal_comparisons :: "pyval list \<Rightarrow> pyval \<Rightarrow> pyval list \<Rightarrow> pyval list \<Rightarrow> pydict list res" where
  "internal_comparisons rows selected priors delays = (case priors of
     [prior] \<Rightarrow> bindE (mapE (internal_comparison rows selected prior) delays) (\<lambda>cs. Inr (concat cs))
   | _ \<Rightarrow> Inr [])"

section \<open>The headline\<close>

definition tail_interpretations :: "pydict list \<Rightarrow> pyval list" where
  "tail_interpretations rs = concat (map (\<lambda>r. map (\<lambda>(name, _, _). dict_get r (name @ ''_interpretation'') PNone) tail_specs) rs)"

definition throughput_interpretations :: "pydict list \<Rightarrow> pyval list" where
  "throughput_interpretations rs = map (\<lambda>r. dict_get r ''throughput_interpretation'' PNone) rs"

definition has_regression :: "pydict list \<Rightarrow> bool" where
  "has_regression rs = (PStr ''measured regression'' \<in> set (throughput_interpretations rs @ tail_interpretations rs))"

definition service_status :: "pydict \<Rightarrow> pydict list \<Rightarrow> string" where
  "service_status accounting rs =
     (if list_ex (\<lambda>(_, v). truthy v) accounting \<or> has_regression rs then ''mixed result''
      else if list_all (\<lambda>v. v = PStr ''roughly level'') (throughput_interpretations rs) then ''roughly level''
      else ''measured lead'')"

definition total_accounting :: "pyval list \<Rightarrow> pydict res" where
  "total_accounting rows =
     mapE (\<lambda>k. bindE (mapE (\<lambda>row. item_path row [''accounting'', k]) rows) (\<lambda>vs. bindE (py_sum vs) (\<lambda>v. Inr (kv k v)))) loss_keys"

definition py_abs :: "pyval \<Rightarrow> pyval" where
  "py_abs v = (case v of PFloat x \<Rightarrow> PFloat (if f_lt x (Fl 0) then f_neg x else x) | PInt i \<Rightarrow> PInt \<bar>i\<bar> | _ \<Rightarrow> v)"

definition regression_text :: "pydict \<Rightarrow> string \<times> string \<Rightarrow> string list res" where
  "regression_text no_delay = (\<lambda>(label, name).
     if dict_get no_delay (name @ ''_interpretation'') PNone \<noteq> PStr ''measured regression'' then Inr []
     else bindE (format_fixed False 1 (py_abs (dict_get no_delay (name @ ''_improvement_percent'') PNone))) (\<lambda>s.
       Inr [label @ '' was '' @ s @ ''% higher'']))"

definition tail_qualification :: "pydict \<Rightarrow> string res" where
  "tail_qualification no_delay =
     bindE (mapE (regression_text no_delay) [(''p99'', ''saturated_p99''), (''p99.9'', ''saturated_p999'')]) (\<lambda>texts.
     Inr (if concat texts = [] then []
       else '' At no-delay saturation, '' @ joined '' and '' (concat texts) @ '' while completing that greater load.''))"

definition times_sign :: string where
  "times_sign = [CHR 0xD7]"

definition regression_count :: "pyval list \<Rightarrow> nat" where
  "regression_count vs = length (filter (\<lambda>v. v = PStr ''measured regression'') vs)"

definition headline_text :: "string \<Rightarrow> string \<Rightarrow> pydict \<Rightarrow> pyval \<Rightarrow> pydict list \<Rightarrow> pydict \<Rightarrow> string res" where
  "headline_text candidate other accounting loss rs no_delay =
     (if truthy loss then
        Inr (candidate @ '' is not qualified: the selected cases include '' @ py_str (dict_get accounting ''errors'' PNone) @ '' errors, ''
          @ py_str (dict_get accounting ''unknown'' PNone) @ '' unknown outcomes, and '' @ py_str (dict_get accounting ''not_issued'' PNone) @ '' unsent requests.'')
      else
        bindE (tail_qualification no_delay) (\<lambda>qualification.
        bindE (format_fixed False 2 (dict_get no_delay ''throughput_ratio'' PNone)) (\<lambda>ratio.
        let tails = tail_interpretations rs; n = regression_count tails in
        Inr (candidate @ '' completed '' @ ratio @ times_sign @ '' as many durable writes per second as the tested '' @ other
          @ '' integration in the no-delay condition.'' @ qualification
          @ (if n = 0 then [] else '' Across the displayed loads, '' @ nat_str n @ '' of '' @ nat_str (length tails) @ '' p99 and p99.9 comparisons were regressions.'')))))"

definition coverage_status :: "pydict \<Rightarrow> pyval res" where
  "coverage_status s = item_path (PDict s) [''verdicts'', ''feature_coverage'', ''status'']"

text \<open>\<open>headline_qualified\<close>\<close>

definition headline_qualified :: "pydict \<Rightarrow> pyval \<Rightarrow> pydict list \<Rightarrow> bool res" where
  "headline_qualified s loss rs =
     andE (Inr (py_eq loss (PInt 0) \<and> \<not> has_regression rs))
       (bindE (coverage_status s) (\<lambda>c. Inr (py_in c (map PStr [''passed'', ''not selected'', ''not measured'']))))"

section \<open>Conditions and selection\<close>

definition selected_configuration :: "pyval \<Rightarrow> pyval \<Rightarrow> pyval \<Rightarrow> pyval \<Rightarrow> pydict res" where
  "selected_configuration example openraft selected control =
     bindE (item example ''display_name'') (\<lambda>name. bindE (item_path example [''engine'', ''version'']) (\<lambda>version.
     bindE (item openraft ''display_name'') (\<lambda>other. bindE (item_path openraft [''engine'', ''version'']) (\<lambda>other_version.
     Inr [kv ''name'' name, kv ''variant'' selected, kv ''rafter_version'' version, kv ''openraft_control'' other,
       kv ''openraft_variant'' control, kv ''openraft_version'' other_version]))))"

definition selected_identities :: "pydict \<Rightarrow> string res" where
  "selected_identities c =
     bindE (brief_version (dict_get c ''rafter_version'' PNone)) (\<lambda>a. bindE (brief_version (dict_get c ''openraft_version'' PNone)) (\<lambda>b.
     Inr (''Selected identities: Rafter '' @ a @ ''; '' @ py_str (dict_get c ''openraft_control'' PNone) @ '' '' @ b @ ''.'')))"

definition machine_condition :: "pyval \<Rightarrow> string res" where
  "machine_condition durable = bindE (get durable ''machine_qualification'') (\<lambda>m.
     Inr (if m = PNone then [] else '' Fixed-machine idle/storage profile passed sealed replay immediately after builds.''))"

definition workload_text :: "pyval \<Rightarrow> string \<Rightarrow> string res" where
  "workload_text example repetitions_text =
     bindE (item_path example [''environment'', ''topology'']) (\<lambda>topology. bindE (item_path example [''workload'', ''concurrency'']) (\<lambda>concurrency.
     bindE (item_path example [''workload'', ''payload_bytes'']) (\<lambda>payload. bindE (item example ''repetitions'') (\<lambda>n.
     Inr (py_str topology @ ''; '' @ py_str concurrency @ '' clients; '' @ py_str payload @ ''-byte writes; '' @
       (if repetitions_text = [] then py_str n @ '' repetitions per point. '' else repetitions_text @ py_str n @ '' repetitions. ''))))))"

text \<open>\<open>name or (available[0] if len(available) == 1 else None)\<close>\<close>

definition select :: "pyval \<Rightarrow> pyval list \<Rightarrow> pyval" where
  "select name available = (if truthy name then name else case available of [v] \<Rightarrow> v | _ \<Rightarrow> PNone)"

definition choose_message :: "string \<Rightarrow> pyval list \<Rightarrow> string res" where
  "choose_message what available = bindE (py_join '', '' available) (\<lambda>s. Inr (''Select one '' @ what @ '' for the headline. Available variants: '' @ s))"

text \<open>Every standard rate at every delay of the selected variant, for it and for its control.\<close>

definition standard_complete :: "pyval list \<Rightarrow> pyval \<Rightarrow> pyval \<Rightarrow> pyval list \<Rightarrow> bool res" where
  "standard_complete rows selected control delays =
     bindE (mapE (\<lambda>row. bindE (variant_of row) (\<lambda>v. bindE (delay_of row) (\<lambda>d. bindE (rate_of row) (\<lambda>r.
       bindE (mapE require_hashable [v, d, r]) (\<lambda>_. Inr [v, d, r]))))) rows) (\<lambda>available.
     Inr (list_all (\<lambda>v. list_all (\<lambda>d. list_all (\<lambda>r. list_ex (\<lambda>t. tuple_eq t [v, d, r]) available) standard_rates) delays) [selected, control]))"

definition objective_of_capacity :: "pydict \<Rightarrow> pyval \<Rightarrow> pydict \<Rightarrow> pydict res" where
  "objective_of_capacity capacity selected s =
     bindE (iter_of (dict_get capacity ''variant_boundaries'' (PList []))) (\<lambda>boundaries.
     bindE (filterE (\<lambda>b. is_value (item b ''variant'') selected) boundaries) (\<lambda>own.
     if own = [] then Inr s
     else bindE (mapE (\<lambda>b. item b ''highest_qualifying_rate'') own) (\<lambda>hs.
       Inr (put_verdict ''service_objective'' (PDict [kv ''status'' (PStr (if PNone \<notin> set hs then ''passed'' else ''failed'')),
         kv ''detail'' (dict_get capacity ''result'' PNone)]) s))))"

section \<open>The section\<close>

record headline_selection =
  sel_variant :: pyval
  sel_control :: pyval
  sel_priors :: "pyval list"
  sel_capacity :: pydict
  sel_delays :: "pyval list"
  sel_candidates :: "pyval list"
  sel_controls :: "pyval list"
  sel_configuration :: pydict
  sel_condition :: string

text \<open>The standard points are incomplete: only the capacity curve can be reported.\<close>

definition capacity_only :: "pydict \<Rightarrow> headline_selection \<Rightarrow> pydict res" where
  "capacity_only s sel =
     (if dict_get (sel_capacity sel) ''variant_boundaries'' PNone = PList [] then
        Inr (concluded s ''not comparable'' ''The standard service points are incomplete and no fixed-rate capacity curve is available.'')
      else
        bindE (is_value (coverage_status s) (PStr ''incomplete'')) (\<lambda>incomplete.
        bindE (workload_text (hd (sel_candidates sel)) []) (\<lambda>t.
        Inr (update_all s [kv ''status'' (if incomplete then PStr ''mixed result'' else dict_get (sel_capacity sel) ''status'' PNone),
          kv ''result'' (dict_get (sel_capacity sel) ''result'' PNone),
          kv ''conditions'' (PStr (t @ ''Each capacity decision uses the worst repetition and complete loss accounting. '' @ sel_condition sel)),
          kv ''selected_configuration'' (PDict (sel_configuration sel)),
          kv ''source_cases'' (dict_get (sel_capacity sel) ''source_cases'' PNone)]))))"

definition headline :: "pyval list \<Rightarrow> pydict \<Rightarrow> headline_selection \<Rightarrow> (pydict \<times> pyval list) list \<Rightarrow> pydict res" where
  "headline rows s sel found =
     bindE (total_accounting (sel_candidates sel)) (\<lambda>candidate_accounting.
     bindE (total_accounting (sel_controls sel)) (\<lambda>control_accounting.
     bindE (internal_comparisons rows (sel_variant sel) (sel_priors sel) (sel_delays sel)) (\<lambda>internal.
     let rs = map fst found;
         no_delay = (case find (\<lambda>r. py_eq (dict_get r ''network_delay_ms'' PNone) (PInt 0)) rs of Some r \<Rightarrow> r | None \<Rightarrow> hd rs);
         name = (\<lambda>k. py_str (dict_get (sel_configuration sel) k PNone)) in
     bindE (py_sum (map snd candidate_accounting)) (\<lambda>loss.
     bindE (headline_text (name ''name'') (name ''openraft_control'') candidate_accounting loss rs no_delay) (\<lambda>result.
     bindE (headline_qualified s loss rs) (\<lambda>ok.
     bindE (workload_text (hd (sel_candidates sel)) ''medians of '') (\<lambda>t.
     bindE (iter_of (dict_get (sel_capacity sel) ''source_cases'' (PList []))) (\<lambda>capacity_sources.
     Inr (update_all s [kv ''status'' (PStr (service_status candidate_accounting rs)), kv ''result'' (PStr result), kv ''headline_qualified'' (PBool ok),
       kv ''conditions'' (PStr (t @ ''Success requires Raft commitment and durable application completion. Added delay affects client and peer egress. ''
         @ ''Storage, codec, and scheduling choices differ between integrations. '' @ sel_condition sel)),
       kv ''selected_configuration'' (PDict (sel_configuration sel)), kv ''rows'' (PList (map PDict rs)),
       kv ''accounting'' (PDict [kv ''rafter'' (PDict candidate_accounting), kv ''openraft'' (PDict control_accounting)]),
       kv ''internal_comparisons'' (PList (map PDict internal)),
       kv ''source_cases'' (PList (source_refs ''durable_service'' (concat (map snd found)) @ capacity_sources))])))))))))"

text \<open>The rows of all delays, in the \<open>try\<close> block: a comparison that is refused ends the section.\<close>

definition compared_section :: "pyval list \<Rightarrow> pydict \<Rightarrow> headline_selection \<Rightarrow> pydict res" where
  "compared_section rows s sel =
     (case mapE (service_row rows (sel_variant sel) (sel_control sel)) (sel_delays sel) of
        Inl e \<Rightarrow> if class_of e = ValueError then Inr (concluded s ''not comparable'' (str_of e)) else Inl e
      | Inr found \<Rightarrow> headline rows s sel found)"

definition rows_of_variant :: "pyval list \<Rightarrow> pyval \<Rightarrow> pyval list res" where
  "rows_of_variant rows variant = filterE (\<lambda>row. is_value (variant_of row) variant) rows"

definition selected_section :: "pyval \<Rightarrow> pyval list \<Rightarrow> pydict \<Rightarrow> pyval \<Rightarrow> pyval \<Rightarrow> pyval list \<Rightarrow> pydict res" where
  "selected_section durable rows s0 selected control priors =
     bindE (capacity_summary rows selected control) (\<lambda>capacity.
     bindE (objective_of_capacity capacity selected (put ''capacity'' (PDict capacity) s0)) (\<lambda>s.
     bindE (bindE (delays_of rows selected) (\<lambda>ds. py_sorted (PList ds))) (\<lambda>delays.
     bindE (standard_complete rows selected control delays) (\<lambda>complete.
     bindE (rows_of_variant rows selected) (\<lambda>candidate_rows. bindE (rows_of_variant rows control) (\<lambda>control_rows.
     bindE (subscript (PList candidate_rows) 0) (\<lambda>example. bindE (subscript (PList control_rows) 0) (\<lambda>openraft.
     bindE (selected_configuration example openraft selected control) (\<lambda>configuration.
     bindE (selected_identities configuration) (\<lambda>identities. bindE (machine_condition durable) (\<lambda>machine.
     let sel = \<lparr>sel_variant = selected, sel_control = control, sel_priors = priors, sel_capacity = capacity, sel_delays = delays,
       sel_candidates = candidate_rows, sel_controls = control_rows, sel_configuration = configuration, sel_condition = identities @ machine\<rparr> in
     if \<not> complete then capacity_only s sel else compared_section rows s sel)))))))))))"

definition qualified_section :: "world \<Rightarrow> pyval \<Rightarrow> pydict \<Rightarrow> pyval \<Rightarrow> pyval \<Rightarrow> pydict res" where
  "qualified_section w durable s headline_variant headline_control_variant =
     bindE (aggregate_durable w durable) (\<lambda>aggregated.
     let rows = map PDict aggregated in
     bindE (is_value (item durable ''qualification'') (PStr ''passed'')) (\<lambda>passed.
     if \<not> passed \<or> list_ex (\<lambda>row. dict_get row ''qualification'' PNone \<noteq> PStr ''passed'') aggregated then
       bindE (bindE (item durable ''qualification_errors'') (\<lambda>es.
         py_add es (PList (concat (map (\<lambda>row. case dict_get row ''qualification_errors'' PNone of PList l \<Rightarrow> l | _ \<Rightarrow> []) aggregated))))) (\<lambda>errors.
       Inr (put ''qualification_errors'' errors (concluded s ''mixed result'' ''The selected service evidence is incomplete; no headline was computed.'')))
     else
       bindE (candidate_variants durable rows) (\<lambda>(candidates, priors).
       let selected = select headline_variant candidates in
       if \<not> py_in selected candidates then bindE (choose_message ''Rafter configuration'' candidates) (\<lambda>m. Inr (concluded s ''not comparable'' m))
       else bindE (variants_of_engine ''openraft'' rows) (\<lambda>controls.
         let control = select headline_control_variant controls in
         if \<not> py_in control controls then bindE (choose_message ''OpenRaft control'' controls) (\<lambda>m. Inr (concluded s ''not comparable'' m))
         else selected_section durable rows s selected control priors))))"

definition service_section :: "world \<Rightarrow> pyval \<Rightarrow> pyval \<Rightarrow> pyval \<Rightarrow> pydict res" where
  "service_section w durable headline_variant headline_control_variant =
     (if durable = PNone then Inr service_base
      else bindE (service_start durable) (\<lambda>s.
        bindE (is_value (sub_get durable ''suite'' ''kind'' PNone) (PStr ''reclamation-under-load'')) (\<lambda>under_load.
        if under_load then reclamation_service durable s
        else qualified_section w durable s headline_variant headline_control_variant)))"

section \<open>Only the last branch sets a headline\<close>

definition no_headline :: "pydict \<Rightarrow> bool" where
  "no_headline s \<longleftrightarrow> map_of s (KStr ''headline_qualified'') = None"

lemma map_of_update_other: "k \<notin> fst ` set e \<Longrightarrow> map_of (update_all d e) k = map_of d k"
proof (induction e arbitrary: d)
  case (Cons x e)
  then show ?case by (cases x) (simp add: update_all_def update_conv)
qed (simp add: update_all_def)

lemma has_headline: "dict_get s ''headline_qualified'' PNone = PBool True \<Longrightarrow> \<not> no_headline s"
  by (cases "map_of s (KStr ''headline_qualified'')") (simp_all add: no_headline_def dict_get_def)

named_theorems headlines \<open>updates that leave the headline alone\<close>

lemma no_headline_put [headlines]: "k \<noteq> ''headline_qualified'' \<Longrightarrow> no_headline (put k v s) \<longleftrightarrow> no_headline s"
  by (simp add: no_headline_def put_def update_conv)

lemma no_headline_update [headlines]: "KStr ''headline_qualified'' \<notin> fst ` set e \<Longrightarrow> no_headline (update_all s e) \<longleftrightarrow> no_headline s"
  by (simp add: no_headline_def map_of_update_other)

lemma no_headline_concluded [headlines]: "no_headline (concluded s status result) \<longleftrightarrow> no_headline s"
  by (simp add: concluded_def headlines)

lemma no_headline_put_verdict [headlines]: "no_headline (put_verdict name v s) \<longleftrightarrow> no_headline s"
  by (simp add: put_verdict_def headlines)

lemma service_start_headline:
  assumes "service_start durable = Inr s" shows "no_headline s"
proof -
  obtain verdicts t where t: "foldE (copy_verdict verdicts) t recorded_verdict_names = Inr s" "no_headline t"
    using assms unfolding service_start_def bindE_eq_Inr by (force simp: headlines service_base_def no_headline_def [of "_ # _"] simp del: foldE.simps)
  show ?thesis
    by (rule foldE_preserve [where P = no_headline, OF t]) (auto simp: copy_verdict_def headlines split: if_splits)
qed

lemma reclamation_service_headline: "no_headline s \<Longrightarrow> reclamation_service durable s = Inr t \<Longrightarrow> no_headline t"
  unfolding reclamation_service_def Let_def by (auto simp: headlines simp del: py_eq.simps split: if_splits)

lemma capacity_only_headline: "no_headline s \<Longrightarrow> capacity_only s sel = Inr t \<Longrightarrow> no_headline t"
  unfolding capacity_only_def by (auto simp: headlines simp del: py_eq.simps split: if_splits)

lemma objective_headline: "no_headline s \<Longrightarrow> objective_of_capacity capacity selected s = Inr t \<Longrightarrow> no_headline t"
  unfolding objective_of_capacity_def by (auto simp: headlines split: if_splits)

section \<open>What a headline rests on\<close>

text \<open>At one delay: unique rows of the candidate and the control at every standard rate, comparable in
  throughput and all tails, and no comparison is a regression.\<close>

definition no_regression :: "pyval \<Rightarrow> pyval \<Rightarrow> string \<Rightarrow> bool \<Rightarrow> bool" where
  "no_regression a b metric higher \<longleftrightarrow> (\<exists>c. compare a b metric higher = Inr c \<and> \<not> has_label c ''measured regression'')"

definition delay_ok :: "pyval list \<Rightarrow> pyval \<Rightarrow> pyval \<Rightarrow> pyval \<Rightarrow> bool" where
  "delay_ok rows selected control delay \<longleftrightarrow> (\<exists>pairs. mapE (pair_at rows selected control delay) standard_rates = Inr pairs \<and>
     no_regression (fst (pairs ! 0)) (snd (pairs ! 0)) ''throughput_ops_s'' True \<and>
     (\<forall>(name, i, metric)\<in>set tail_specs. no_regression (fst (pairs ! i)) (snd (pairs ! i)) metric False))"

definition columns_labelled :: "(string \<times> nat \<times> string) list \<Rightarrow> pydict list \<Rightarrow> pydict list \<Rightarrow> bool" where
  "columns_labelled specs tails columns \<longleftrightarrow> list_all2 (\<lambda>((name, i, metric), t) c. map fst c = map KStr [''rafter_'' @ name @ ''_ms'', ''openraft_'' @ name @ ''_ms'',
       name @ ''_improvement_percent'', name @ ''_interpretation''] \<and> snd (c ! 3) = dict_get t ''label'' PNone) (zip specs tails) columns"

lemma tail_columns_labelled: "mapE (tail_columns pairs) (zip specs tails) = Inr columns \<Longrightarrow> columns_labelled specs tails columns"
  unfolding columns_labelled_def mapE_eq_Inr by (erule list_all2_mono) (auto simp: tail_columns_def)

lemma four_entries: "map fst c = [a, b, d, e] \<Longrightarrow> \<exists>w x y. c = [(a, w), (b, x), (d, y), (e, snd (c ! 3))]"
  by (auto simp: map_eq_Cons_conv)

lemma labelled_lookup:
  assumes "columns_labelled tail_specs tails columns" "length tails = 6" "i < 6"
  shows "map_of (concat columns) (KStr (fst (tail_specs ! i) @ ''_interpretation'')) = Some (dict_get (tails ! i) ''label'' PNone)"
proof -
  obtain t0 t1 t2 t3 t4 t5 where t: "tails = [t0, t1, t2, t3, t4, t5]" using assms(2)
    by (auto simp: length_Suc_conv numeral_eq_Suc)
  have "i = 0 \<or> i = 1 \<or> i = 2 \<or> i = 3 \<or> i = 4 \<or> i = 5" using assms(3) by auto
  then show ?thesis using assms(1) unfolding columns_labelled_def tail_specs_def t
    by (auto simp: list_all2_Cons1 dest!: four_entries)
qed

lemma tail_names_differ:
  "i < 6 \<Longrightarrow> fst (tail_specs ! i) @ ''_interpretation'' \<notin> set [''network_delay_ms'', ''rafter_throughput_ops_s'', ''openraft_throughput_ops_s'', ''throughput_ratio'', ''throughput_interpretation'']"
proof -
  assume "i < 6"
  then have "i = 0 \<or> i = 1 \<or> i = 2 \<or> i = 3 \<or> i = 4 \<or> i = 5" by auto
  then show ?thesis by (auto simp: tail_specs_def)
qed

lemma service_row_parts:
  assumes "service_row rows selected control delay = Inr (row, sources)"
  obtains pairs throughput tails where "mapE (pair_at rows selected control delay) standard_rates = Inr pairs"
    "compare (fst (pairs ! 0)) (snd (pairs ! 0)) ''throughput_ops_s'' True = Inr throughput" "mapE (compare_pair pairs) tail_specs = Inr tails"
    "dict_get row ''throughput_interpretation'' PNone = dict_get throughput ''label'' PNone"
    "\<forall>i<6. dict_get row (fst (tail_specs ! i) @ ''_interpretation'') PNone = dict_get (tails ! i) ''label'' PNone"
proof -
  obtain pairs where p: "mapE (pair_at rows selected control delay) standard_rates = Inr pairs"
    "(let (candidate, other) = pairs ! 0 in
     bindE (compare candidate other ''throughput_ops_s'' True) (\<lambda>throughput.
     bindE (mapE (compare_pair pairs) tail_specs) (\<lambda>tails.
     bindE (sources_of (concat (map (\<lambda>(a, b). [a, b]) pairs))) (\<lambda>sources.
     bindE (median_at candidate ''throughput_ops_s'') (\<lambda>a. bindE (median_at other ''throughput_ops_s'') (\<lambda>b.
     bindE (mapE (tail_columns pairs) (zip tail_specs tails)) (\<lambda>columns.
     Inr ([kv ''network_delay_ms'' delay, kv ''rafter_throughput_ops_s'' a, kv ''openraft_throughput_ops_s'' b,
       kv ''throughput_ratio'' (dict_get throughput ''ratio'' PNone), kv ''throughput_interpretation'' (dict_get throughput ''label'' PNone)] @ concat columns, sources)))))))) = Inr (row, sources)"
    using assms unfolding service_row_def bindE_eq_Inr by blast
  obtain candidate other where co: "pairs ! 0 = (candidate, other)" by (cases "pairs ! 0")
  obtain throughput tails columns a b where c: "compare candidate other ''throughput_ops_s'' True = Inr throughput" "mapE (compare_pair pairs) tail_specs = Inr tails"
    "mapE (tail_columns pairs) (zip tail_specs tails) = Inr columns"
    "row = [kv ''network_delay_ms'' delay, kv ''rafter_throughput_ops_s'' a, kv ''openraft_throughput_ops_s'' b,
       kv ''throughput_ratio'' (dict_get throughput ''ratio'' PNone), kv ''throughput_interpretation'' (dict_get throughput ''label'' PNone)] @ concat columns"
    using p(2) unfolding co Let_def prod.case bindE_eq_Inr by blast
  have l: "length tails = 6" using mapE_length [OF c(2)] by (simp add: tail_specs_def)
  have "dict_get row (fst (tail_specs ! i) @ ''_interpretation'') PNone = dict_get (tails ! i) ''label'' PNone" if "i < 6" for i
    using labelled_lookup [OF tail_columns_labelled [OF c(3)] l that] tail_names_differ [OF that] unfolding c(4) dict_get_def by (simp del: append_assoc)
  moreover have "dict_get row ''throughput_interpretation'' PNone = dict_get throughput ''label'' PNone" by (simp add: c(4) dict_get_def)
  ultimately show thesis using that [OF p(1) _ c(2)] c(1) by (simp add: co)
qed

lemma service_row_ok:
  assumes "service_row rows selected control delay = Inr (row, sources)"
    "PStr ''measured regression'' \<notin> set (throughput_interpretations [row] @ tail_interpretations [row])"
  shows "delay_ok rows selected control delay"
proof -
  obtain pairs throughput tails where r: "mapE (pair_at rows selected control delay) standard_rates = Inr pairs"
    "compare (fst (pairs ! 0)) (snd (pairs ! 0)) ''throughput_ops_s'' True = Inr throughput" "mapE (compare_pair pairs) tail_specs = Inr tails"
    "dict_get row ''throughput_interpretation'' PNone = dict_get throughput ''label'' PNone"
    "\<forall>i<6. dict_get row (fst (tail_specs ! i) @ ''_interpretation'') PNone = dict_get (tails ! i) ''label'' PNone"
    using assms(1) by (rule service_row_parts)
  have six: "length tail_specs = 6" by (simp add: tail_specs_def)
  have t: "no_regression (fst (pairs ! 0)) (snd (pairs ! 0)) ''throughput_ops_s'' True"
    using r(2,4) assms(2) by (auto simp: no_regression_def throughput_interpretations_def has_label_def)
  have "no_regression (fst (pairs ! i)) (snd (pairs ! i)) metric False" if m: "(name, i, metric) \<in> set tail_specs" for name i metric
  proof -
    obtain n where n: "n < 6" "tail_specs ! n = (name, i, metric)" using m unfolding in_set_conv_nth six by blast
    have "compare_pair pairs (tail_specs ! n) = Inr (tails ! n)"
      using r(3) n(1) unfolding mapE_eq_Inr list_all2_conv_all_nth six by blast
    moreover have "dict_get row (name @ ''_interpretation'') PNone \<in> set (tail_interpretations [row])" using m by (force simp: tail_interpretations_def)
    then have "\<not> has_label (tails ! n) ''measured regression''" using r(5) n assms(2) by (force simp: has_label_def)
    ultimately show ?thesis using n(2) by (auto simp: no_regression_def compare_pair_def)
  qed
  then show ?thesis unfolding delay_ok_def using r(1) t by blast
qed

lemma has_regression_Cons:
  "\<not> has_regression rs \<Longrightarrow> r \<in> set rs \<Longrightarrow> PStr ''measured regression'' \<notin> set (throughput_interpretations [r] @ tail_interpretations [r])"
  by (auto simp: has_regression_def throughput_interpretations_def tail_interpretations_def)

definition coverage_ok :: "pydict \<Rightarrow> bool" where
  "coverage_ok s \<longleftrightarrow> (\<exists>c. coverage_status s = Inr c \<and> py_in c (map PStr [''passed'', ''not selected'', ''not measured'']))"

definition nothing_lost :: "pyval list \<Rightarrow> bool" where
  "nothing_lost rows \<longleftrightarrow> (\<exists>accounting loss. total_accounting rows = Inr accounting \<and> py_sum (map snd accounting) = Inr loss \<and> py_eq loss (PInt 0))"

lemma headline_entries:
  "dict_get (update_all s [kv ''status'' a, kv ''result'' b, kv ''headline_qualified'' c, kv ''conditions'' d, kv ''selected_configuration'' e, kv ''rows'' f,
     kv ''accounting'' g, kv ''internal_comparisons'' h, kv ''source_cases'' i]) ''headline_qualified'' PNone = c"
  "coverage_status (update_all s [kv ''status'' a, kv ''result'' b, kv ''headline_qualified'' c, kv ''conditions'' d, kv ''selected_configuration'' e, kv ''rows'' f,
     kv ''accounting'' g, kv ''internal_comparisons'' h, kv ''source_cases'' i]) = coverage_status s"
  by (simp_all add: dict_get_def map_of_update_all coverage_status_def item_path_def item_def map_of_update_other)

lemma headline_qualified_parts:
  assumes "headline rows s sel found = Inr t" "dict_get t ''headline_qualified'' PNone = PBool True"
  shows "\<not> has_regression (map fst found) \<and> nothing_lost (sel_candidates sel) \<and> coverage_ok t"
proof -
  obtain accounting loss ok a b d e f g h i where r: "total_accounting (sel_candidates sel) = Inr accounting" "py_sum (map snd accounting) = Inr loss"
    "headline_qualified s loss (map fst found) = Inr ok"
    "t = update_all s [kv ''status'' a, kv ''result'' b, kv ''headline_qualified'' (PBool ok), kv ''conditions'' d, kv ''selected_configuration'' e, kv ''rows'' f,
      kv ''accounting'' g, kv ''internal_comparisons'' h, kv ''source_cases'' i]"
    using assms(1) unfolding headline_def Let_def bindE_eq_Inr by blast
  have "ok" using assms(2) unfolding r(4) headline_entries by simp
  then have q: "headline_qualified s loss (map fst found) = Inr True" using r(3) by simp
  then have "py_eq loss (PInt 0)" "\<not> has_regression (map fst found)" "coverage_ok s"
    by (auto simp: headline_qualified_def andE_True coverage_ok_def simp del: py_eq.simps list.map)
  then show ?thesis unfolding nothing_lost_def coverage_ok_def r(4) headline_entries using r(1,2) by (auto simp: coverage_ok_def simp del: py_eq.simps list.map)
qed

lemma compared_section_headline:
  assumes "compared_section rows s sel = Inr t" "no_headline s" "dict_get t ''headline_qualified'' PNone = PBool True"
  shows "(\<forall>delay\<in>set (sel_delays sel). delay_ok rows (sel_variant sel) (sel_control sel) delay) \<and> nothing_lost (sel_candidates sel) \<and> coverage_ok t"
proof (cases "mapE (service_row rows (sel_variant sel) (sel_control sel)) (sel_delays sel)")
  case (Inl e)
  then have "no_headline t" using assms(1,2) by (auto simp: compared_section_def headlines split: if_splits)
  then show ?thesis using has_headline [OF assms(3)] by blast
next
  case (Inr found)
  then have "headline rows s sel found = Inr t" using assms(1) by (simp add: compared_section_def)
  note h = headline_qualified_parts [OF this assms(3)]
  have "delay_ok rows (sel_variant sel) (sel_control sel) delay" if d: "delay \<in> set (sel_delays sel)" for delay
  proof -
    obtain r where r: "r \<in> set found" "service_row rows (sel_variant sel) (sel_control sel) delay = Inr r" using mapE_mem' [OF Inr d] by blast
    have "fst r \<in> set (map fst found)" using r(1) by simp
    then show ?thesis using service_row_ok [of rows _ _ delay "fst r" "snd r"] has_regression_Cons [OF h [THEN conjunct1]] r(2) by simp
  qed
  then show ?thesis using h by blast
qed

text \<open>The evidence behind a headline for the variant \<open>selected\<close> against \<open>control\<close>.\<close>

definition headline_evidence :: "world \<Rightarrow> pyval \<Rightarrow> pydict list \<Rightarrow> pyval \<Rightarrow> pyval \<Rightarrow> bool" where
  "headline_evidence w durable aggregated selected control \<longleftrightarrow> (let rows = map PDict aggregated in
     item durable ''qualification'' = Inr (PStr ''passed'') \<and> (\<forall>row\<in>set aggregated. dict_get row ''qualification'' PNone = PStr ''passed'') \<and>
     (\<exists>candidates priors. candidate_variants durable rows = Inr (candidates, priors) \<and> py_in selected candidates) \<and>
     (\<exists>controls. variants_of_engine ''openraft'' rows = Inr controls \<and> py_in control controls) \<and>
     (\<exists>delays. bindE (delays_of rows selected) (\<lambda>ds. py_sorted (PList ds)) = Inr delays \<and> (\<forall>delay\<in>set delays. delay_ok rows selected control delay)) \<and>
     (\<exists>own. rows_of_variant rows selected = Inr own \<and> own \<noteq> [] \<and> nothing_lost own))"

lemma selected_section_headline:
  assumes "selected_section durable rows s0 selected control priors = Inr t" "no_headline s0" "dict_get t ''headline_qualified'' PNone = PBool True"
  shows "(\<exists>delays. bindE (delays_of rows selected) (\<lambda>ds. py_sorted (PList ds)) = Inr delays \<and> (\<forall>delay\<in>set delays. delay_ok rows selected control delay)) \<and>
    (\<exists>own. rows_of_variant rows selected = Inr own \<and> own \<noteq> [] \<and> nothing_lost own) \<and> coverage_ok t"
proof -
  obtain capacity s delays complete own others example openraft configuration identities machine where
    c: "objective_of_capacity capacity selected (put ''capacity'' (PDict capacity) s0) = Inr s" "bindE (delays_of rows selected) (\<lambda>ds. py_sorted (PList ds)) = Inr delays"
      "rows_of_variant rows selected = Inr own" "subscript (PList own) 0 = Inr example"
      "(let sel = \<lparr>sel_variant = selected, sel_control = control, sel_priors = priors, sel_capacity = capacity, sel_delays = delays,
         sel_candidates = own, sel_controls = others, sel_configuration = configuration, sel_condition = identities @ machine\<rparr> in
       if \<not> complete then capacity_only s sel else compared_section rows s sel) = Inr t"
    using assms(1) unfolding selected_section_def bindE_eq_Inr by blast
  have n: "no_headline s" using objective_headline [OF _ c(1)] assms(2) by (simp add: headlines)
  have "own \<noteq> []" using c(4) by (auto simp: subscript_def)
  have "\<not> no_headline t" by (rule has_headline [OF assms(3)])
  then have "complete" using c(5) capacity_only_headline [OF n] by (cases complete) (auto simp: Let_def)
  then show ?thesis using compared_section_headline [OF _ n assms(3)] c(2,3,5) \<open>own \<noteq> []\<close> by (fastforce simp: Let_def)
qed

text \<open>C12: A qualified headline rests on complete and comparable evidence. When the service section says
  \<open>headline_qualified\<close>, the suite and all its aggregated rows are qualified, the selected variant is one of the
  candidates and its control an OpenRaft variant of the suite; at every delay of the candidate there is
  exactly one row of each at saturation, 100 and 1000 writes per second, the two are comparable there, and
  neither throughput nor any of the six tail comparisons is a regression; no operation of the candidate was lost; and
  feature coverage is not failed or incomplete.\<close>

theorem headline_rests_on_evidence:
  assumes "service_section w durable headline_variant headline_control_variant = Inr s" "dict_get s ''headline_qualified'' PNone = PBool True"
  shows "\<exists>aggregated selected control. aggregate_durable w durable = Inr aggregated \<and> headline_evidence w durable aggregated selected control \<and> coverage_ok s"
proof -
  have d: "durable \<noteq> PNone" using assms by (auto simp: service_section_def service_base_def dict_get_def)
  obtain s0 under_load where s: "service_start durable = Inr s0"
    "(if under_load then reclamation_service durable s0 else qualified_section w durable s0 headline_variant headline_control_variant) = Inr s"
    using assms(1) d unfolding service_section_def bindE_eq_Inr by auto
  have n: "no_headline s0" by (rule service_start_headline [OF s(1)])
  have yes: "\<not> no_headline s" by (rule has_headline [OF assms(2)])
  have q: "qualified_section w durable s0 headline_variant headline_control_variant = Inr s"
    using s(2) reclamation_service_headline [OF n] yes by (auto split: if_splits)
  obtain aggregated passed where a: "aggregate_durable w durable = Inr aggregated" "is_value (item durable ''qualification'') (PStr ''passed'') = Inr passed"
    using q unfolding qualified_section_def Let_def bindE_eq_Inr by blast
  let ?rows = "map PDict aggregated"
  have ok: "passed" "\<not> list_ex (\<lambda>row. dict_get row ''qualification'' PNone \<noteq> PStr ''passed'') aggregated"
    using q a yes n by (auto simp: qualified_section_def Let_def headlines split: if_splits)
  obtain candidates priors where c: "candidate_variants durable ?rows = Inr (candidates, priors)"
    using q a ok by (auto simp: qualified_section_def Let_def)
  let ?selected = "select headline_variant candidates"
  have sel: "py_in ?selected candidates" using q a ok c yes n by (auto simp: qualified_section_def Let_def headlines split: if_splits)
  obtain controls where o: "variants_of_engine ''openraft'' ?rows = Inr controls" using q a ok c sel by (auto simp: qualified_section_def Let_def)
  let ?control = "select headline_control_variant controls"
  have con: "py_in ?control controls" using q a ok c sel o yes n by (auto simp: qualified_section_def Let_def headlines split: if_splits)
  have "selected_section durable ?rows s0 ?selected ?control priors = Inr s" using q a ok c sel o con by (simp add: qualified_section_def Let_def)
  note final = selected_section_headline [OF this n assms(2)]
  have "item durable ''qualification'' = Inr (PStr ''passed'')" "\<forall>row\<in>set aggregated. dict_get row ''qualification'' PNone = PStr ''passed''"
    using a(2) ok by (auto simp: is_value_def list_ex_iff)
  then have "headline_evidence w durable aggregated ?selected ?control" unfolding headline_evidence_def Let_def using final c sel o con by blast
  then show ?thesis using a(1) final by blast
qed

text \<open>A suite with one repetition of a Rafter and an OpenRaft variant at the standard rates.\<close>

definition headline_identity :: "int \<times> string \<times> int \<Rightarrow> pydict" where
  "headline_identity = (\<lambda>(n, engine, rate). [kv ''layer'' PNone, kv ''engine'' (PDict [kv ''name'' (PStr engine), kv ''version'' (PStr ''1'')]), kv ''display_name'' (PStr engine),
     kv ''configuration'' (PDict [kv ''a'' (PInt n), kv ''variant'' (PStr engine)]),
     kv ''workload'' (PDict [kv ''offered_per_second'' (PInt rate), kv ''network_delay_ms'' (PInt 0), kv ''concurrency'' (PInt 1), kv ''payload_bytes'' (PInt 1)]),
     kv ''completion_boundary'' PNone, kv ''environment'' (PDict [kv ''topology'' (PStr ''t'')]), kv ''measurement_mode'' (PStr ''timing''), kv ''metric_definitions'' PNone])"

definition headline_case :: "int \<times> string \<times> int \<Rightarrow> pyval" where
  "headline_case i = PDict (headline_identity i @
     [kv ''smoke'' (PBool False), kv ''qualification'' (PStr ''passed''), kv ''source_case'' (PInt (fst i)),
      kv ''metrics'' (PDict (kv ''throughput_ops_s'' (PFloat (Fl 1000)) # map (\<lambda>k. kv k (PFloat (Fl 5))) (tl required_metrics))),
      kv ''accounting'' (PDict (map (\<lambda>k. kv k (PInt 0)) accounting_keys))])"

definition headline_points :: "(int \<times> string \<times> int) list" where
  "headline_points = [(0, ''rafter'', 0), (1, ''rafter'', 100), (2, ''rafter'', 1000), (3, ''openraft'', 0), (4, ''openraft'', 100), (5, ''openraft'', 1000)]"

definition headline_suite :: pyval where
  "headline_suite = PDict [kv ''cases'' (PList (map headline_case headline_points)), kv ''suite'' (PDict [kv ''runs'' (PInt 1)]),
     kv ''qualification'' (PStr ''passed''), kv ''qualification_errors'' (PList [])]"

text \<open>The text of an identity, with the digit that tells it from the others, and a reader for these texts.\<close>

definition headline_prefix :: string where
  "headline_prefix = ''{'' @ json_str ''completion_boundary'' @ '': null, '' @ json_str ''configuration'' @ '': {'' @ json_str ''a'' @ '': ''"

definition headline_suffix :: "string \<Rightarrow> int \<Rightarrow> string" where
  "headline_suffix engine rate = '', '' @
     json_str ''variant'' @ '': '' @ json_str engine @ ''}, '' @ json_str ''display_name'' @ '': '' @ json_str engine @ '', '' @
     json_str ''engine'' @ '': {'' @ json_str ''name'' @ '': '' @ json_str engine @ '', '' @ json_str ''version'' @ '': '' @ json_str ''1'' @ ''}, '' @
     json_str ''environment'' @ '': {'' @ json_str ''topology'' @ '': '' @ json_str ''t'' @ ''}, '' @ json_str ''layer'' @ '': null, '' @
     json_str ''measurement_mode'' @ '': '' @ json_str ''timing'' @ '', '' @ json_str ''metric_definitions'' @ '': null, '' @
     json_str ''workload'' @ '': {'' @ json_str ''concurrency'' @ '': '' @ int_str 1 @ '', '' @ json_str ''network_delay_ms'' @ '': '' @ int_str 0 @ '', '' @
     json_str ''offered_per_second'' @ '': '' @ int_str rate @ '', '' @ json_str ''payload_bytes'' @ '': '' @ int_str 1 @ ''}}''"

definition headline_encoded :: "int \<times> string \<times> int \<Rightarrow> string" where
  "headline_encoded = (\<lambda>(n, engine, rate). headline_prefix @ int_str n @ headline_suffix engine rate)"

definition headline_world :: world where
  "headline_world = suite_world\<lparr>loads := (\<lambda>t. case find (\<lambda>i. headline_encoded i = t) headline_points of
     Some i \<Rightarrow> Inr (PDict (headline_identity i)) | None \<Rightarrow> raiseE ValueError [])\<rparr>"

definition headline_summary :: "rat \<Rightarrow> pyval" where
  "headline_summary x = PDict [kv ''median'' (PFloat (Fl x)), kv ''min'' (PFloat (Fl x)), kv ''max'' (PFloat (Fl x))]"

definition headline_row :: "int \<times> string \<times> int \<Rightarrow> pydict" where
  "headline_row i = headline_identity i @ aggregate_fields (PInt 1) [] [PInt (fst i)] 1
     (kv ''throughput_ops_s'' (headline_summary 1000) # map (\<lambda>k. kv k (headline_summary 5)) (tl required_metrics)
       @ map (\<lambda>k. kv k (PDict [kv ''median'' PNone, kv ''min'' PNone, kv ''max'' PNone])) dispatch_metrics)
     (map (\<lambda>k. kv k (PInt 0)) accounting_keys)"

lemma workload_sorted:
  "sorted_rows [(KStr ''offered_per_second'', a), (KStr ''network_delay_ms'', b), (KStr ''concurrency'', c), (KStr ''payload_bytes'', d)] =
     Inr [(KStr ''concurrency'', c), (KStr ''network_delay_ms'', b), (KStr ''offered_per_second'', a), (KStr ''payload_bytes'', d)]"
  "sorted_rows [(KStr ''name'', a), (KStr ''version'', b)] = Inr [(KStr ''name'', a), (KStr ''version'', b)]"
  "sorted_rows [(KStr ''a'', a), (KStr ''variant'', b)] = Inr [(KStr ''a'', a), (KStr ''variant'', b)]"
  "sorted_rows [(KStr ''topology'', a)] = Inr [(KStr ''topology'', a)]"
  by code_simp+

lemma identity_sorted:
  "sorted_rows [(KStr ''layer'', a), (KStr ''engine'', b), (KStr ''display_name'', c), (KStr ''configuration'', d), (KStr ''workload'', e),
     (KStr ''completion_boundary'', f), (KStr ''environment'', g), (KStr ''measurement_mode'', h), (KStr ''metric_definitions'', i)] =
   Inr [(KStr ''completion_boundary'', f), (KStr ''configuration'', d), (KStr ''display_name'', c), (KStr ''engine'', b), (KStr ''environment'', g),
     (KStr ''layer'', a), (KStr ''measurement_mode'', h), (KStr ''metric_definitions'', i), (KStr ''workload'', e)]"
  by code_simp

lemma headline_pick: "pick (headline_case i) identity_keys = Inr (headline_identity i)"
  by (cases i) (simp add: pick_def identity_keys_def headline_case_def headline_identity_def item_def)

lemma headline_identity_text: "identity_text (headline_case i) = Inr (headline_encoded i)"
  unfolding identity_text_def headline_pick
  by (cases i) (simp add: headline_identity_def headline_encoded_def headline_prefix_def headline_suffix_def workload_sorted identity_sorted)

lemma headline_timing: "is_timing (headline_case i) = Inr True"
  by (cases i) (simp add: is_timing_def headline_case_def headline_identity_def item_def)

lemma digits: "int_str 0 = ''0''" "int_str 1 = ''1''" "int_str 2 = ''2''" "int_str 3 = ''3''" "int_str 4 = ''4''" "int_str 5 = ''5''"
  by code_simp+

lemma prefix_le: "(xs :: string) @ ys \<le> xs @ zs \<longleftrightarrow> ys \<le> zs"
  by (induction xs) simp_all

lemma encoded_digit:
  "headline_encoded i = headline_encoded j \<longleftrightarrow> int_str (fst i) @ headline_suffix (fst (snd i)) (snd (snd i)) = int_str (fst j) @ headline_suffix (fst (snd j)) (snd (snd j))"
  "headline_encoded i \<le> headline_encoded j \<longleftrightarrow> int_str (fst i) @ headline_suffix (fst (snd i)) (snd (snd i)) \<le> int_str (fst j) @ headline_suffix (fst (snd j)) (snd (snd j))"
  by (cases i; cases j; simp add: headline_encoded_def prefix_le)+

definition headline_groups :: repetitions where
  "headline_groups = map (\<lambda>i. (headline_encoded i, [dict_of (headline_case i)])) headline_points"

lemma headline_grouped: "foldE repetition_step [] (map headline_case headline_points) = Inr headline_groups"
  by (simp add: headline_groups_def headline_points_def repetition_step_def headline_timing headline_identity_text append_to_def encoded_digit digits)

lemma headline_sorted: "sort_key fst headline_groups = headline_groups"
  by (rule sort_key_id_if_sorted) (simp add: headline_groups_def headline_points_def encoded_digit digits)

lemma headline_read:
  assumes "i \<in> set headline_points" shows "loads headline_world (headline_encoded i) = Inr (PDict (headline_identity i))"
proof -
  have "list_all (\<lambda>i. find (\<lambda>j. headline_encoded j = headline_encoded i) headline_points = Some i) headline_points"
    by (simp add: headline_points_def encoded_digit digits)
  then have "find (\<lambda>j. headline_encoded j = headline_encoded i) headline_points = Some i" using assms by (simp only: list_all_iff)
  then show ?thesis by (simp add: headline_world_def)
qed

lemma headline_metrics:
  "group_metrics [dict_of (headline_case (n, e, r))] = Inr (kv ''throughput_ops_s'' (headline_summary 1000) # map (\<lambda>k. kv k (headline_summary 5)) (tl required_metrics)
       @ map (\<lambda>k. kv k (PDict [kv ''median'' PNone, kv ''min'' PNone, kv ''max'' PNone])) dispatch_metrics, [])"
  by code_simp

lemma headline_summed: "summed_accounting [dict_of (headline_case (n, e, r))] = Inr (map (\<lambda>k. kv k (PInt 0)) accounting_keys)"
  by code_simp

lemma headline_reasons: "row_reasons headline_suite (PInt 1) [dict_of (headline_case (n, e, r))] = Inr []"
  by (simp add: row_reasons_def headline_suite_def item_def unusable_def headline_case_def headline_identity_def dict_of_def message_if_def num_of_def num_eq_def)

lemma headline_source: "item (PDict (dict_of (headline_case (n, e, r)))) ''source_case'' = Inr (PInt n)"
  by (simp add: headline_case_def headline_identity_def dict_of_def item_def)

lemma headline_row_update:
  "update_all (headline_identity (n, e, r)) (aggregate_fields a b c d f g) = headline_identity (n, e, r) @ aggregate_fields a b c d f g"
  by (simp add: update_all_def headline_identity_def aggregate_fields_def)

lemma headline_row_of: "i \<in> set headline_points \<Longrightarrow> aggregate_row headline_world headline_suite (PInt 1) (headline_encoded i, [dict_of (headline_case i)]) = Inr (headline_row i)"
  by (cases i) (simp add: aggregate_row_def headline_read headline_reasons headline_metrics headline_summed headline_source headline_row_update headline_row_def Let_def)

lemma headline_aggregated: "aggregate_durable headline_world headline_suite = Inr (map headline_row headline_points)"
proof -
  have "mapE (aggregate_row headline_world headline_suite (PInt 1)) headline_groups = Inr (map headline_row headline_points)"
    unfolding headline_groups_def using headline_row_of by (simp add: headline_points_def)
  moreover have "bindE (item headline_suite ''cases'') iter_of = Inr (map headline_case headline_points)" "item_path headline_suite [''suite'', ''runs''] = Inr (PInt 1)"
    by (simp_all add: headline_suite_def item_def iter_of_def item_path_def)
  ultimately show ?thesis unfolding aggregate_durable_def by (simp only: bindE_simps headline_grouped headline_sorted)
qed

lemma headline_selected:
  "candidate_variants headline_suite (map PDict (map headline_row headline_points)) = Inr ([PStr ''rafter''], [])"
  "variants_of_engine ''openraft'' (map PDict (map headline_row headline_points)) = Inr [PStr ''openraft'']"
  by code_simp+

definition headline_started :: pydict where
  "headline_started = put ''measured_load_context'' (PDict (context_object ''not measured'' 0 6 [] [] ''no replayed measured-load environment receipts''))
     (put ''benchmark_repository'' PNone service_base)"

lemma headline_start: "service_start headline_suite = Inr headline_started"
  by code_simp

lemma headline_fields:
  "item (PDict (headline_row (n, e, r))) ''source_cases'' = Inr (PList [PInt n])"
  "item (PDict (headline_row (n, e, r))) ''display_name'' = Inr (PStr e)"
  "item (PDict (headline_row (n, e, r))) ''repetitions'' = Inr (PInt 1)"
  "item_path (PDict (headline_row (n, e, r))) [''engine'', ''name''] = Inr (PStr e)"
  "item_path (PDict (headline_row (n, e, r))) [''engine'', ''version''] = Inr (PStr ''1'')"
  "item_path (PDict (headline_row (n, e, r))) [''environment'', ''topology''] = Inr (PStr ''t'')"
  "item_path (PDict (headline_row (n, e, r))) [''workload'', ''concurrency''] = Inr (PInt 1)"
  "item_path (PDict (headline_row (n, e, r))) [''workload'', ''payload_bytes''] = Inr (PInt 1)"
  "variant_of (PDict (headline_row (n, e, r))) = Inr (PStr e)"
  "rate_of (PDict (headline_row (n, e, r))) = Inr (PInt r)"
  "delay_of (PDict (headline_row (n, e, r))) = Inr (PInt 0)"
  by (simp_all add: headline_row_def headline_identity_def aggregate_fields_def item_def item_path_def variant_of_def rate_of_def delay_of_def)

lemma headline_medians:
  "median_at (PDict (headline_row (n, e, r))) ''throughput_ops_s'' = Inr (PFloat (Fl 1000))"
  "median_at (PDict (headline_row (n, e, r))) ''client_p99_ms'' = Inr (PFloat (Fl 5))"
  "median_at (PDict (headline_row (n, e, r))) ''client_p999_ms'' = Inr (PFloat (Fl 5))"
  by (simp_all add: headline_row_def headline_identity_def aggregate_fields_def item_def item_path_def median_at_def headline_summary_def required_metrics_def)

lemma headline_matches:
  "matches (PStr v) (PInt q) (PInt 0) (PDict (headline_row (n, e, r))) = Inr (e = v \<and> r = q)"
  by (simp add: matches_def andE_def is_value_def headline_fields num_of_def num_eq_def)

lemma headline_compatible: "incompatibilities (PDict (headline_row (n, e, r))) (PDict (headline_row (m, f, r))) = Inr []"
  by (simp add: incompatibilities_def COMPARABLE_FIELDS_def same_text_def passed_qualification_def headline_row_def headline_identity_def aggregate_fields_def
      get_or_def dict_get_def canonical_def workload_sorted)

definition headline_comparison :: "string \<Rightarrow> rat \<Rightarrow> bool \<Rightarrow> pydict" where
  "headline_comparison metric x higher = [kv ''metric'' (PStr metric), kv ''left'' (PFloat (Fl x)), kv ''right'' (PFloat (Fl x)), kv ''ratio'' (PFloat (Fl 1)),
     kv ''change_percent'' (PFloat (Fl 0)), kv ''advantage_percent'' (PFloat (Fl 0)), kv ''higher_is_better'' (PBool higher),
     kv ''equivalence_percent'' (PFloat EQUIVALENCE_PERCENT), kv ''label'' (PStr ''roughly level'')]"

lemma headline_metric:
  "metric_median (PDict (headline_row (n, e, r))) ''throughput_ops_s'' = Inr (PFloat (Fl 1000))"
  "metric_median (PDict (headline_row (n, e, r))) ''client_p99_ms'' = Inr (PFloat (Fl 5))"
  "metric_median (PDict (headline_row (n, e, r))) ''client_p999_ms'' = Inr (PFloat (Fl 5))"
  by (simp_all add: headline_row_def headline_identity_def aggregate_fields_def get_or_def dict_get_def metric_median_def headline_summary_def required_metrics_def)

lemma headline_even:
  "py_div (PFloat (Fl 1000)) (PFloat (Fl 1000)) = Inr (Fl 1)" "py_div (PFloat (Fl 5)) (PFloat (Fl 5)) = Inr (Fl 1)" "change_percent (Fl 1) = Fl 0"
  "f_neg (Fl 0) = Fl 0" "comparison_label (Fl 0) = ''roughly level''"
  by code_simp+

lemma headline_compared:
  "compare (PDict (headline_row (n, e, r))) (PDict (headline_row (m, f, r))) ''throughput_ops_s'' True = Inr (headline_comparison ''throughput_ops_s'' 1000 True)"
  "compare (PDict (headline_row (n, e, r))) (PDict (headline_row (m, f, r))) ''client_p99_ms'' False = Inr (headline_comparison ''client_p99_ms'' 5 False)"
  "compare (PDict (headline_row (n, e, r))) (PDict (headline_row (m, f, r))) ''client_p999_ms'' False = Inr (headline_comparison ''client_p999_ms'' 5 False)"
  unfolding compare_def headline_compatible headline_metric bindE_simps Let_def
  by (simp_all add: raise_if_def unmeasured_def headline_comparison_def headline_even num_of_def num_eq_def)

definition headline_rows :: "pyval list" where
  "headline_rows = map PDict (map headline_row headline_points)"

lemma headline_one:
  "one headline_rows (PStr ''rafter'') (PInt 0) (PInt 0) = Inr (PDict (headline_row (0, ''rafter'', 0)))"
  "one headline_rows (PStr ''rafter'') (PInt 100) (PInt 0) = Inr (PDict (headline_row (1, ''rafter'', 100)))"
  "one headline_rows (PStr ''rafter'') (PInt 1000) (PInt 0) = Inr (PDict (headline_row (2, ''rafter'', 1000)))"
  "one headline_rows (PStr ''openraft'') (PInt 0) (PInt 0) = Inr (PDict (headline_row (3, ''openraft'', 0)))"
  "one headline_rows (PStr ''openraft'') (PInt 100) (PInt 0) = Inr (PDict (headline_row (4, ''openraft'', 100)))"
  "one headline_rows (PStr ''openraft'') (PInt 1000) (PInt 0) = Inr (PDict (headline_row (5, ''openraft'', 1000)))"
  by (simp_all add: one_def headline_rows_def headline_points_def headline_matches)

definition even_columns :: "string \<Rightarrow> pydict" where
  "even_columns name = [kv (''rafter_'' @ name @ ''_ms'') (PFloat (Fl 5)), kv (''openraft_'' @ name @ ''_ms'') (PFloat (Fl 5)),
     kv (name @ ''_improvement_percent'') (PFloat (Fl 0)), kv (name @ ''_interpretation'') (PStr ''roughly level'')]"

definition even_row :: pydict where
  "even_row = [kv ''network_delay_ms'' (PInt 0), kv ''rafter_throughput_ops_s'' (PFloat (Fl 1000)), kv ''openraft_throughput_ops_s'' (PFloat (Fl 1000)),
     kv ''throughput_ratio'' (PFloat (Fl 1)), kv ''throughput_interpretation'' (PStr ''roughly level'')] @ concat (map (\<lambda>(name, _, _). even_columns name) tail_specs)"

lemma headline_pairs: "mapE (pair_at headline_rows (PStr ''rafter'') (PStr ''openraft'') (PInt 0)) standard_rates =
    Inr [(PDict (headline_row (0, ''rafter'', 0)), PDict (headline_row (3, ''openraft'', 0))), (PDict (headline_row (1, ''rafter'', 100)), PDict (headline_row (4, ''openraft'', 100))),
      (PDict (headline_row (2, ''rafter'', 1000)), PDict (headline_row (5, ''openraft'', 1000)))]"
  by (simp add: standard_rates_def pair_at_def headline_one del: bindE_eq_Inr)

lemma headline_service_row:
  "service_row headline_rows (PStr ''rafter'') (PStr ''openraft'') (PInt 0) = Inr (even_row, map PInt [0, 3, 1, 4, 2, 5])"
  unfolding service_row_def headline_pairs
  by (simp add: tail_specs_def compare_pair_def headline_compared tail_columns_def headline_medians
      sources_of_def headline_fields iter_of_def headline_comparison_def dict_get_def even_row_def even_columns_def del: bindE_eq_Inr)

lemma even_row_text:
  "headline_text a b accounting (PInt 0) [even_row] even_row = Inr (a @ '' completed 1.00'' @ times_sign @ '' as many durable writes per second as the tested '' @ b
     @ '' integration in the no-delay condition.'')"
  "\<not> has_regression [even_row]" "dict_get even_row ''network_delay_ms'' PNone = PInt 0"
  by code_simp+

definition headline_point :: "int \<Rightarrow> rat \<Rightarrow> pydict" where
  "headline_point r percent = [kv ''offered_per_second'' (PInt r), kv ''minimum_achieved_ops_s'' (PFloat (Fl 1000)), kv ''minimum_achieved_percent'' (PFloat (Fl percent)),
     kv ''worst_repetition_p99_ms'' (PFloat (Fl 5)), kv ''worst_repetition_p999_ms'' (PFloat (Fl 5)),
     kv ''worst_repetition_execution_p99_ms'' (PFloat (Fl 5)), kv ''worst_repetition_execution_p999_ms'' (PFloat (Fl 5)), kv ''worst_repetition_client_start_p99_ms'' (PFloat (Fl 5)),
     kv ''worst_repetition_scheduler_dispatch_p99_ms'' PNone, kv ''worst_repetition_scheduler_dispatch_p999_ms'' PNone,
     kv ''errors'' (PInt 0), kv ''unknown'' (PInt 0), kv ''unsent'' (PInt 0), kv ''completed_after_window'' (PInt 0), kv ''qualifies'' (PBool True)]"

lemma headline_capacity_point:
  "capacity_point (PDict (headline_row (n, e, 100))) = Inr (headline_point 100 1000)"
  "capacity_point (PDict (headline_row (n, e, 1000))) = Inr (headline_point 1000 100)"
  by code_simp+

lemma headline_points_qualify: "item (PDict (headline_point r percent)) ''qualifies'' = Inr (PBool True)"
  by (simp add: headline_point_def item_def)

definition headline_boundary :: "string \<Rightarrow> pydict" where
  "headline_boundary e = [kv ''network_delay_ms'' (PInt 0), kv ''variant'' (PStr e), kv ''display_name'' (PStr e), kv ''engine'' (PStr e),
     kv ''highest_qualifying_rate'' (PInt 1000), kv ''maximum_tested_rate'' (PInt 1000), kv ''reached_tested_ceiling'' (PBool True)]"

lemma headline_groups_of_curves:
  "foldE variant_step [] headline_rows = Inr [([PInt 0, PStr ''rafter''], [PDict (headline_row (1, ''rafter'', 100)), PDict (headline_row (2, ''rafter'', 1000))]),
     ([PInt 0, PStr ''openraft''], [PDict (headline_row (4, ''openraft'', 100)), PDict (headline_row (5, ''openraft'', 1000))])]"
  by (simp add: headline_rows_def headline_points_def variant_step_def headline_fields py_le_def require_hashable_def hashable_def raise_if_def num_of_def num_eq_def tuple_eq_def
      del: bindE_eq_Inr)

lemma headline_variant_boundary:
  "variant_boundary ([PInt 0, PStr e], [PDict (headline_row (n, e, 100)), PDict (headline_row (m, e, 1000))]) = Inr (headline_boundary e, [PInt n, PInt m])"
  by (simp add: variant_boundary_def sorted_by_def headline_fields points_of_def headline_capacity_point highest_contiguous_qualifying_def headline_points_qualify
      sources_of_def iter_of_def headline_boundary_def py_lt_def num_of_def num_eq_def Let_def del: bindE_eq_Inr)

lemma headline_variant_boundaries:
  "variant_capacity_boundaries headline_rows = Inr ([headline_boundary ''rafter'', headline_boundary ''openraft''], map PInt [1, 2, 4, 5])"
  unfolding variant_capacity_boundaries_def headline_groups_of_curves bindE_simps
  by (simp add: sorted_by_def curve_order_def headline_fields headline_variant_boundary py_lt_def num_of_def num_eq_def del: bindE_eq_Inr)

lemma headline_delays: "delays_of headline_rows (PStr ''rafter'') = Inr [PInt 0]" "delays_of headline_rows (PStr ''openraft'') = Inr [PInt 0]"
  by (simp_all add: delays_of_def headline_rows_def headline_points_def is_value_def headline_fields py_set_def require_hashable_def hashable_def raise_if_def num_of_def num_eq_def
      del: bindE_eq_Inr)

lemma headline_rates: "rates_at headline_rows (PStr ''rafter'') (PInt 0) = Inr [PInt 100, PInt 1000]" "rates_at headline_rows (PStr ''openraft'') (PInt 0) = Inr [PInt 100, PInt 1000]"
  by (simp_all add: rates_at_def headline_rows_def headline_points_def is_value_def andE_def headline_fields py_gt_def py_set_def require_hashable_def hashable_def raise_if_def
      num_of_def num_eq_def del: bindE_eq_Inr)

lemma headline_common_point:
  "common_point headline_rows (PStr ''rafter'') (PStr ''openraft'') (PInt 0) (PInt 100) = Inr ((PInt 100, headline_point 100 1000, headline_point 100 1000), [PInt 1, PInt 4])"
  "common_point headline_rows (PStr ''rafter'') (PStr ''openraft'') (PInt 0) (PInt 1000) = Inr ((PInt 1000, headline_point 1000 100, headline_point 1000 100), [PInt 2, PInt 5])"
  by (simp_all add: common_point_def headline_one headline_fields headline_capacity_point py_add_def iter_of_def del: bindE_eq_Inr)

definition common_boundary :: pydict where
  "common_boundary = [kv ''network_delay_ms'' (PInt 0), kv ''maximum_tested_rate'' (PInt 1000), kv ''rafter_highest_qualifying_rate'' (PInt 1000),
     kv ''rafter_reached_tested_ceiling'' (PBool True), kv ''openraft_highest_qualifying_rate'' (PInt 1000), kv ''openraft_reached_tested_ceiling'' (PBool True)]"

lemma headline_sorted_sets:
  "py_sorted (PList (set_inter [PInt 100, PInt 1000] [PInt 100, PInt 1000])) = Inr [PInt 100, PInt 1000]"
  "py_sorted (PList (set_inter [PInt 0] [PInt 0])) = Inr [PInt 0]" "py_sorted (PList [PInt 0]) = Inr [PInt 0]"
  by (simp_all add: py_sorted_def set_inter_def py_in_def iter_of_def py_lt_def num_of_def num_eq_def del: bindE_eq_Inr)

lemma headline_delay_step:
  "delay_step headline_rows (PStr ''rafter'') (PStr ''openraft'') \<lparr>cv_rows = [], cv_boundaries = [], cv_sources = []\<rparr> (PInt 0) =
     Inr \<lparr>cv_rows = map (curve_row (PInt 0)) [(PInt 100, headline_point 100 1000, headline_point 100 1000), (PInt 1000, headline_point 1000 100, headline_point 1000 100)],
       cv_boundaries = [common_boundary], cv_sources = map PInt [1, 4, 2, 5]\<rparr>"
  by (simp add: delay_step_def headline_rates headline_sorted_sets headline_common_point highest_contiguous_qualifying_def headline_points_qualify common_boundary_def
      num_of_def num_eq_def Let_def del: bindE_eq_Inr)

lemma common_boundary_result: "\<exists>t. capacity_result [common_boundary] = Inr t" "boundary_order common_boundary = Inr 0"
proof -
  have "(case capacity_result [common_boundary] of Inr t \<Rightarrow> True | Inl _ \<Rightarrow> False)" by code_simp
  then show "\<exists>t. capacity_result [common_boundary] = Inr t" by (simp split: sum.splits)
  show "boundary_order common_boundary = Inr 0" by code_simp
qed

lemma headline_capacity:
  "\<exists>capacity. capacity_summary headline_rows (PStr ''rafter'') (PStr ''openraft'') = Inr capacity \<and>
     dict_get capacity ''variant_boundaries'' (PList []) = PList (map PDict [headline_boundary ''rafter'', headline_boundary ''openraft'']) \<and>
     (\<exists>sources. dict_get capacity ''source_cases'' (PList []) = PList sources)"
proof -
  obtain t where t: "capacity_result [common_boundary] = Inr t" using common_boundary_result(1) by blast
  have s: "py_set (map PInt [1, 4, 2, 5] @ map PInt [1, 2, 4, 5]) = Inr (map PInt [1, 4, 2, 5])" by code_simp
  show ?thesis unfolding capacity_summary_def headline_delays headline_variant_boundaries bindE_simps prod.case headline_sorted_sets foldE.simps headline_delay_step
    by (simp add: common_boundary_result(2) t s [simplified] capacity_object_def dict_get_def del: bindE_eq_Inr)
qed

lemma headline_complete: "standard_complete headline_rows (PStr ''rafter'') (PStr ''openraft'') [PInt 0] = Inr True"
  by (simp add: standard_complete_def headline_rows_def headline_points_def headline_fields require_hashable_def hashable_def raise_if_def standard_rates_def tuple_eq_def
      num_of_def num_eq_def del: bindE_eq_Inr)

lemma headline_variant_rows:
  "rows_of_variant headline_rows (PStr ''rafter'') = Inr (map (\<lambda>i. PDict (headline_row i)) (take 3 headline_points))"
  "rows_of_variant headline_rows (PStr ''openraft'') = Inr (map (\<lambda>i. PDict (headline_row i)) (drop 3 headline_points))"
  by (simp_all add: rows_of_variant_def is_value_def headline_rows_def headline_points_def headline_fields del: bindE_eq_Inr)

lemma headline_accounting: "item_path (PDict (headline_row (n, e, r))) [''accounting'', k] = item (PDict (map (\<lambda>k. kv k (PInt 0)) accounting_keys)) k"
  by (simp add: headline_row_def headline_identity_def aggregate_fields_def item_path_def item_def bindE_right)

lemma headline_lossless:
  "total_accounting (map (\<lambda>i. PDict (headline_row i)) (take 3 headline_points)) = Inr (map (\<lambda>k. kv k (PInt 0)) loss_keys)"
  "total_accounting (map (\<lambda>i. PDict (headline_row i)) (drop 3 headline_points)) = Inr (map (\<lambda>k. kv k (PInt 0)) loss_keys)"
  by (simp_all add: total_accounting_def loss_keys_def headline_points_def headline_accounting accounting_keys_def item_def py_sum_def del: bindE_eq_Inr)

lemma headline_verdict: "objective_of_capacity capacity (PStr ''rafter'') s = Inr (put_verdict ''service_objective'' (PDict [kv ''status'' (PStr ''passed''), kv ''detail'' (dict_get capacity ''result'' PNone)]) s)"
  if "dict_get capacity ''variant_boundaries'' (PList []) = PList (map PDict [headline_boundary ''rafter'', headline_boundary ''openraft''])"
  unfolding objective_of_capacity_def that by (simp add: iter_of_def is_value_def item_def headline_boundary_def del: bindE_eq_Inr)

lemma coverage_put: "coverage_status (put_verdict ''service_objective'' v (put ''capacity'' c headline_started)) = Inr (PStr ''not measured'')"
  by (simp add: coverage_status_def put_verdict_def put_def headline_started_def service_base_def dict_get_def dict_of_def item_path_def item_def plain_verdict_def)

lemma headline_configuration:
  "selected_configuration (PDict (headline_row (n, e, r))) (PDict (headline_row (m, f, q))) v u = Inr [kv ''name'' (PStr e), kv ''variant'' v, kv ''rafter_version'' (PStr ''1''),
     kv ''openraft_control'' (PStr f), kv ''openraft_variant'' u, kv ''openraft_version'' (PStr ''1'')]"
  by (simp add: selected_configuration_def headline_fields del: bindE_eq_Inr)

lemma headline_done:
  assumes "sel_candidates sel = map (\<lambda>i. PDict (headline_row i)) (take 3 headline_points)" "sel_controls sel = map (\<lambda>i. PDict (headline_row i)) (drop 3 headline_points)"
    "sel_priors sel = []" "dict_get (sel_capacity sel) ''source_cases'' (PList []) = PList sources" "coverage_status s = Inr (PStr ''not measured'')"
  shows "\<exists>t. headline headline_rows s sel [(even_row, found)] = Inr t \<and> dict_get t ''headline_qualified'' PNone = PBool True"
proof -
  have i: "internal_comparisons headline_rows v [] ds = Inr []" for v ds by (simp add: internal_comparisons_def)
  have z: "py_sum (map snd (map (\<lambda>k. kv k (PInt 0)) loss_keys)) = Inr (PInt 0)" by (simp add: loss_keys_def py_sum_def)
  have q: "headline_qualified s (PInt 0) [even_row] = Inr True"
    unfolding headline_qualified_def assms(5) by (simp add: andE_def even_row_text(2) py_in_def num_of_def num_eq_def)
  have n: "(case find (\<lambda>r. py_eq (dict_get r ''network_delay_ms'' PNone) (PInt 0)) [even_row] of Some r \<Rightarrow> r | None \<Rightarrow> hd [even_row]) = even_row"
    by (simp add: even_row_text(3) num_of_def num_eq_def)
  obtain t where w: "workload_text (hd (map (\<lambda>i. PDict (headline_row i)) (take 3 headline_points))) ''medians of '' = Inr t"
    by (auto simp: headline_points_def workload_text_def headline_fields)
  have f: "map fst [(even_row, found)] = [even_row]" by simp
  show ?thesis
    unfolding headline_def assms(1-4) headline_lossless bindE_simps i Let_def f n z even_row_text(1) q w
    by (simp add: iter_of_def headline_entries(1))
qed

lemma headline_final:
  "\<exists>s. selected_section headline_suite headline_rows headline_started (PStr ''rafter'') (PStr ''openraft'') [] = Inr s \<and> dict_get s ''headline_qualified'' PNone = PBool True"
proof -
  obtain capacity sources where c: "capacity_summary headline_rows (PStr ''rafter'') (PStr ''openraft'') = Inr capacity"
    "dict_get capacity ''variant_boundaries'' (PList []) = PList (map PDict [headline_boundary ''rafter'', headline_boundary ''openraft''])"
    "dict_get capacity ''source_cases'' (PList []) = PList sources" using headline_capacity by blast
  have m: "machine_condition headline_suite = Inr []" by (simp add: machine_condition_def headline_suite_def get_or_def dict_get_def)
  have s: "subscript (PList (map (\<lambda>i. PDict (headline_row i)) (take 3 headline_points))) 0 = Inr (PDict (headline_row (0, ''rafter'', 0)))"
    "subscript (PList (map (\<lambda>i. PDict (headline_row i)) (drop 3 headline_points))) 0 = Inr (PDict (headline_row (3, ''openraft'', 0)))"
    by (simp_all add: subscript_def headline_points_def)
  obtain t where i: "selected_identities [kv ''name'' (PStr ''rafter''), kv ''variant'' (PStr ''rafter''), kv ''rafter_version'' (PStr ''1''),
     kv ''openraft_control'' (PStr ''openraft''), kv ''openraft_variant'' (PStr ''openraft''), kv ''openraft_version'' (PStr ''1'')] = Inr t"
    by (auto simp: selected_identities_def brief_version_def dict_get_def)
  have r: "mapE (service_row headline_rows (PStr ''rafter'') (PStr ''openraft'')) [PInt 0] = Inr [(even_row, map PInt [0, 3, 1, 4, 2, 5])]"
    by (simp add: headline_service_row)
  show ?thesis
    unfolding selected_section_def c(1) bindE_simps headline_verdict [OF c(2)] headline_delays headline_sorted_sets headline_complete headline_variant_rows s headline_configuration i m
      Let_def compared_section_def headline_selection.simps r sum.case
    by simp (rule headline_done; simp add: c(3) coverage_put)
qed

theorem headline_rests_on_evidence_witness:
  "\<exists>s aggregated selected control. service_section headline_world headline_suite PNone PNone = Inr s \<and> dict_get s ''headline_qualified'' PNone = PBool True \<and>
     aggregate_durable headline_world headline_suite = Inr aggregated \<and> headline_evidence headline_world headline_suite aggregated selected control \<and> coverage_ok s"
proof -
  obtain s where s: "selected_section headline_suite headline_rows headline_started (PStr ''rafter'') (PStr ''openraft'') [] = Inr s" "dict_get s ''headline_qualified'' PNone = PBool True"
    using headline_final by blast
  have k: "is_value (sub_get headline_suite ''suite'' ''kind'' PNone) (PStr ''reclamation-under-load'') = Inr False" "is_value (item headline_suite ''qualification'') (PStr ''passed'') = Inr True"
    "headline_suite \<noteq> PNone" by (simp_all add: is_value_def sub_get_def get_or_def dict_get_def item_def headline_suite_def)
  have p: "dict_get (headline_row i) ''qualification'' PNone = PStr ''passed''" for i
    by (cases i) (simp add: headline_row_def headline_identity_def aggregate_fields_def dict_get_def)
  have "service_section headline_world headline_suite PNone PNone = Inr s"
    unfolding service_section_def qualified_section_def headline_start k headline_aggregated bindE_simps Let_def headline_selected prod.case
    by (simp add: k p list_ex_iff select_def py_in_def s(1) [unfolded headline_rows_def] del: list.map map_map)
  then show ?thesis using headline_rests_on_evidence [OF _ s(2)] s(2) by blast
qed

end
