(* ===== verification/Summary.thy ===== *)
theory Summary
  imports Service_Section
begin

text \<open>
  The other sections of \<open>src/benchctl/summary.py\<close> and \<open>build_summary\<close>, which puts the report together from
  loaded evidence: consensus in memory, durable replication, failures and earlier runs. The digest of
  the report generator is an argument. Strings have 8-bit characters; the en dash of the storage
  result, which is none of them, is written as the three bytes of its UTF-8 form.
\<close>

section \<open>Dictionaries with keys of any type\<close>

text \<open>\<open>d[k] = x\<close> and \<open>d.setdefault(k, {})[l] = x\<close>\<close>

fun put_value :: "pyval \<Rightarrow> 'a \<Rightarrow> (pyval \<times> 'a) list \<Rightarrow> (pyval \<times> 'a) list" where
  "put_value k x [] = [(k, x)]"
| "put_value k x ((l, y) # d) = (if py_eq l k then (l, x) # d else (l, y) # put_value k x d)"

fun lookup_value :: "pyval \<Rightarrow> (pyval \<times> 'a) list \<Rightarrow> 'a option" where
  "lookup_value k [] = None"
| "lookup_value k ((l, y) # d) = (if py_eq l k then Some y else lookup_value k d)"

type_synonym table = "(pyval \<times> (pyval \<times> pyval) list) list"

definition put_cell :: "pyval \<Rightarrow> pyval \<Rightarrow> pyval \<Rightarrow> table \<Rightarrow> table" where
  "put_cell k l x t = put_value k (put_value l x (case lookup_value k t of Some d \<Rightarrow> d | None \<Rightarrow> [])) t"

definition tabulate :: "string list \<Rightarrow> string list \<Rightarrow> pyval list \<Rightarrow> table res" where
  "tabulate outer inner records =
     foldE (\<lambda>t r. bindE (item_path r outer) (\<lambda>k. bindE (require_hashable k) (\<lambda>_.
       bindE (item_path r inner) (\<lambda>l. bindE (require_hashable l) (\<lambda>_. Inr (put_cell k l r t)))))) [] records"

definition cell :: "(pyval \<times> pyval) list \<Rightarrow> string \<Rightarrow> pyval res" where
  "cell d name = (case lookup_value (PStr name) d of Some r \<Rightarrow> Inr r | None \<Rightarrow> raiseE KeyError (quote name))"

text \<open>\<open>sorted({r[k] for r in records})\<close>\<close>

definition sorted_set :: "pyval list \<Rightarrow> pyval list res" where
  "sorted_set vs = bindE (py_set vs) (\<lambda>s. py_sorted (PList s))"

section \<open>Consensus in memory\<close>

definition consensus_base :: pydict where
  "consensus_base =
     [kv ''id'' (PStr ''consensus-in-memory''), kv ''title'' (PStr ''Consensus in memory''),
      kv ''question'' (PStr ''How quickly can the implementation replicate and commit without disks or sockets?''),
      kv ''status'' (PStr ''pending qualification''), kv ''result'' (PStr ''Comparison pending qualification.''),
      kv ''conditions'' (PStr ''Three voters in one process, in-memory stores, no disk synchronization or TCP.''),
      kv ''details'' (PList []), kv ''rows'' (PList []), kv ''source_cases'' (PList [])]"

text \<open>\<open>section["details"].append(text)\<close>\<close>

definition add_detail :: "string \<Rightarrow> pydict \<Rightarrow> pydict" where
  "add_detail t s = put ''details'' (PList ((case dict_get s ''details'' PNone of PList l \<Rightarrow> l | _ \<Rightarrow> []) @ [PStr t])) s"

definition memory_engines :: "string list" where
  "memory_engines = [''rafter'', ''raft-rs'', ''openraft'']"

text \<open>The four comparisons of a workload and its row.\<close>

definition memory_comparisons :: "pyval \<Rightarrow> pyval \<Rightarrow> pyval \<Rightarrow> pydict list res" where
  "memory_comparisons rafter raft_rs openraft =
     mapE (\<lambda>(other, metric, higher). compare rafter other metric higher)
       [(raft_rs, ''throughput_ops_s'', True), (openraft, ''throughput_ops_s'', True), (raft_rs, ''client_p99_us'', False), (openraft, ''client_p99_us'', False)]"

definition memory_row :: "pyval \<times> (pyval \<times> pyval) list \<Rightarrow> (pydict \<times> pydict list) res" where
  "memory_row = (\<lambda>(workload, engines).
     bindE (cell engines ''rafter'') (\<lambda>rafter. bindE (cell engines ''raft-rs'') (\<lambda>raft_rs. bindE (cell engines ''openraft'') (\<lambda>openraft.
     bindE (memory_comparisons rafter raft_rs openraft) (\<lambda>cs.
     bindE (item_path rafter [''workload'', ''payload_bytes'']) (\<lambda>payload. bindE (item_path rafter [''workload'', ''max_in_flight'']) (\<lambda>in_flight.
     bindE (item rafter ''repetitions'') (\<lambda>n.
     bindE (mapE (\<lambda>(name, r, metric). bindE (median_at r metric) (\<lambda>m. Inr (kv name m)))
       [(''rafter_ops_s'', rafter, ''throughput_ops_s''), (''raft_rs_ops_s'', raft_rs, ''throughput_ops_s''), (''openraft_ops_s'', openraft, ''throughput_ops_s''),
        (''rafter_p99_us'', rafter, ''client_p99_us''), (''raft_rs_p99_us'', raft_rs, ''client_p99_us''), (''openraft_p99_us'', openraft, ''client_p99_us'')]) (\<lambda>medians.
     Inr ([kv ''workload'' workload, kv ''payload_bytes'' payload, kv ''max_in_flight'' in_flight, kv ''repetitions'' n] @ medians
       @ zip (map KStr [''throughput_vs_raft_rs'', ''throughput_vs_openraft'', ''p99_vs_raft_rs'', ''p99_vs_openraft'']) (map PDict cs), cs))))))))))"

definition count_label :: "string \<Rightarrow> pydict list \<Rightarrow> nat" where
  "count_label label cs = length (filter (\<lambda>c. has_label c label) cs)"

definition memory_status :: "nat \<Rightarrow> nat \<Rightarrow> nat \<Rightarrow> string" where
  "memory_status leads regressions n =
     (if regressions = 0 then if leads \<noteq> 0 then ''measured lead'' else ''roughly level''
      else if leads \<noteq> 0 \<or> regressions < n then ''mixed result'' else ''measured regression'')"

definition memory_identities :: "pyval list \<Rightarrow> string res" where
  "memory_identities records =
     bindE (foldE (\<lambda>d r. bindE (item_path r [''engine'', ''name'']) (\<lambda>name. bindE (bindE (item_path r [''engine'', ''version'']) brief_version) (\<lambda>version.
       bindE (require_hashable name) (\<lambda>_. Inr (put_value name (PStr version) d))))) [] records) (\<lambda>identities.
     bindE (mapE (\<lambda>name. bindE (cell identities name) (\<lambda>v. Inr (name @ '' '' @ py_str v))) memory_engines) (\<lambda>names.
     Inr (''Selected identities: '' @ joined ''; '' names @ ''.'')))"

definition memory_result :: "pydict \<Rightarrow> pyval list \<Rightarrow> pyval \<Rightarrow> (pydict \<times> pydict list) list \<Rightarrow> pydict res" where
  "memory_result s records least_repetitions found =
     (let cs = concat (map snd found); leads = count_label ''measured lead'' cs; regressions = count_label ''measured regression'' cs in
      bindE (memory_identities records) (\<lambda>identities.
      Inr (add_detail identities (add_detail (''All adapters execute the same leader-side reference application operation; '' @ py_str least_repetitions @ '' repetitions.'')
        (update_all s [kv ''rows'' (PList (map (\<lambda>f. PDict (fst f)) found)), kv ''status'' (PStr (memory_status leads regressions (length cs))),
          kv ''result'' (PStr (''Rafter leads '' @ nat_str leads @ '' of '' @ nat_str (length cs) @ '' qualified throughput and p99 comparisons''
            @ (if regressions = 0 then '' with no measured regressions.'' else ''; '' @ nat_str regressions @ '' are regressions.''))),
          kv ''conditions'' (PStr (py_str (dict_get s ''conditions'' PNone) @ '' Workloads use submission bursts, not a continuously replenished concurrency window.''))])))))"

definition compared_memory :: "pydict \<Rightarrow> pyval list \<Rightarrow> pyval \<Rightarrow> pydict res" where
  "compared_memory s records least_repetitions =
     bindE (tabulate [''workload'', ''workload''] [''engine'', ''name''] records) (\<lambda>grouped.
     if grouped = [] \<or> list_ex (\<lambda>(_, engines). set (map fst engines) \<noteq> PStr ` set memory_engines) grouped
     then Inr (add_detail ''Every workload needs Rafter, raft-rs, and OpenRaft measurements.'' s)
     else bindE (sorted_by (\<lambda>(k, _). Inr [k]) grouped) (\<lambda>workloads.
       case mapE memory_row workloads of
         Inl e \<Rightarrow> if class_of e = ValueError
           then Inr (add_detail (str_of e) (concluded s ''not comparable'' ''The selected in-memory measurements are not comparable.'')) else Inl e
       | Inr found \<Rightarrow> memory_result s records least_repetitions found))"

definition consensus_section :: "pyval \<Rightarrow> pydict res" where
  "consensus_section micro =
     (if micro = PNone then Inr (add_detail ''The suite exists, but no in-memory evidence set was selected for this report.'' consensus_base)
      else bindE (item micro ''records'') (\<lambda>listed. if \<not> truthy listed then
          bindE (get_or micro ''qualification_errors'' (PList [])) (\<lambda>errors.
          Inr (put ''qualification_errors'' errors (add_detail ''The selected in-memory evidence is incomplete; no measurements were available.'' consensus_base)))
        else bindE (iter_of listed) (\<lambda>records.
          bindE (bindE (mapE (\<lambda>r. item r ''completion_boundary'') records) sorted_set) (\<lambda>boundaries.
          bindE (bindE (mapE (\<lambda>r. item r ''repetitions'') records) sorted_set) (\<lambda>repetitions.
          bindE (bindE (sources_of records) sorted_set) (\<lambda>sources.
          let s = update_all consensus_base [kv ''completion_boundaries'' (PList boundaries), kv ''source_cases'' (PList (source_refs ''consensus_in_memory'' sources))] in
          bindE (is_value (item micro ''qualification'') (PStr ''passed'')) (\<lambda>passed.
          if \<not> passed then Inr (add_detail ''The selected evidence failed artifact verification.'' s)
          else if length boundaries \<noteq> 1 then
            Inr (add_detail ''Adapters record different leader-side completion boundaries, so no shared leaderboard is published.'' s)
          else bindE (py_min repetitions) (\<lambda>least_repetitions. bindE (py_lt least_repetitions (PInt MIN_MEMORY_REPETITIONS)) (\<lambda>few.
            if few then Inr (add_detail (''Selected evidence has '' @ joined '', '' (map py_str repetitions) @ '' repetitions; qualification requires at least ''
              @ int_str MIN_MEMORY_REPETITIONS @ ''.'') s)
            else compared_memory s records least_repetitions)))))))))"

section \<open>Durable replication\<close>

definition reclamation_label :: string where
  "reclamation_label = ''Combined WAL physical-reclamation component qualification''"

definition traffic_label :: string where
  "traffic_label = ''WAL reclamation under complete service traffic''"

definition storage_base :: pydict where
  "storage_base =
     [kv ''id'' (PStr ''durable-replication''), kv ''title'' (PStr ''Durable replication''),
      kv ''question'' (PStr ''How efficiently does Rafter make consensus state survive a restart?''),
      kv ''status'' (PStr ''not measured''), kv ''result'' (PStr ''No component evidence selected.''), kv ''conditions'' PNone,
      kv ''rows'' (PList []), kv ''sync_probes'' (PDict []), kv ''wal_reclamation'' PNone, kv ''source_cases'' (PList []),
      kv ''not_measured'' (PList (map PStr [''equivalent OpenRaft persistence comparison'', traffic_label, reclamation_label])),
      kv ''comparison_kind'' (PStr ''internal optimization'')]"

text \<open>\<open>section["not_measured"].remove(label)\<close>\<close>

definition remove_label :: "string \<Rightarrow> pydict \<Rightarrow> pydict res" where
  "remove_label label s = (case dict_get s ''not_measured'' PNone of
     PList l \<Rightarrow> if PStr label \<in> set l then Inr (put ''not_measured'' (PList (remove1 (PStr label) l)) s)
       else raiseE ValueError ''list.remove(x): x not in list''
   | v \<Rightarrow> attr_error v ''remove'')"

text \<open>One batch size: the pair of its arms, compared in throughput and completion tail.\<close>

definition storage_row :: "pyval \<times> (pyval \<times> pyval) list \<Rightarrow> (pydict \<times> pydict \<times> pydict \<times> pyval list) res" where
  "storage_row = (\<lambda>(batch_size, arms).
     bindE (cell arms ''baseline'') (\<lambda>baseline. bindE (cell arms ''candidate'') (\<lambda>candidate.
     bindE (compare candidate baseline ''throughput_ops_s'' True) (\<lambda>throughput.
     bindE (compare candidate baseline ''batch_completion_p99_ms'' False) (\<lambda>p99.
     bindE (bindE (item candidate ''source_cases'') (\<lambda>a. bindE (item baseline ''source_cases'') (\<lambda>b. bindE (py_add a b) iter_of))) (\<lambda>sources.
     bindE (median_at baseline ''throughput_ops_s'') (\<lambda>a. bindE (median_at candidate ''throughput_ops_s'') (\<lambda>b.
     bindE (median_at baseline ''batch_completion_p99_ms'') (\<lambda>c. bindE (median_at candidate ''batch_completion_p99_ms'') (\<lambda>d.
     Inr ([kv ''batch_size'' batch_size, kv ''file_replacement_ops_s'' a, kv ''append_only_journal_ops_s'' b,
       kv ''throughput_change_percent'' (dict_get throughput ''advantage_percent'' PNone), kv ''file_replacement_batch_p99_ms'' c,
       kv ''append_only_journal_batch_p99_ms'' d, kv ''batch_p99_improvement_percent'' (dict_get p99 ''advantage_percent'' PNone),
       kv ''interpretation'' (dict_get throughput ''label'' PNone)], throughput, p99, sources)))))))))))"

definition en_dash :: string where
  "en_dash = [CHR 0xE2, CHR 0x80, CHR 0x93]"

definition extremes :: "pyval list \<Rightarrow> (pyval \<times> pyval) res" where
  "extremes vs = bindE (raise_if (vs = []) ValueError ''min() iterable argument is empty'') (\<lambda>_.
     bindE (py_min vs) (\<lambda>a. bindE (max_of vs) (\<lambda>b. Inr (a, b))))"

definition storage_comparison :: "pyval \<Rightarrow> pydict \<Rightarrow> pydict res" where
  "storage_comparison stored s =
     bindE (bindE (item stored ''records'') iter_of) (\<lambda>records.
     bindE (tabulate [''workload'', ''batch_size''] [''configuration'', ''arm''] records) (\<lambda>t.
     bindE (sorted_by (\<lambda>(k, _). Inr [k]) t) (\<lambda>workloads. bindE (mapE storage_row workloads) (\<lambda>found.
     let changes = map (\<lambda>(_, throughput, _, _). dict_get throughput ''advantage_percent'' PNone) found;
         tails = map (\<lambda>(_, _, p99, _). dict_get p99 ''advantage_percent'' PNone) found in
     bindE (extremes changes) (\<lambda>(a, b). bindE (format_fixed False 1 a) (\<lambda>low. bindE (format_fixed False 1 b) (\<lambda>high.
     bindE (bindE (subscript (PList records) 0) (\<lambda>r. bindE (item_path r [''engine'', ''version'']) brief_version)) (\<lambda>version.
     bindE (item stored ''sync_probes'') (\<lambda>probes. bindE (extremes tails) (\<lambda>(c, d).
     Inr (update_all s [kv ''status'' (PStr ''measured lead''),
       kv ''result'' (PStr (''The append-only journal improved throughput '' @ low @ en_dash @ high @ ''% over Rafter'' @ [CHR 0x27] @ ''s file-replacement backend.'')),
       kv ''conditions'' (PStr (''One identical Rafter binary, 256-byte proposals, three repetitions; batch size is explicit in every row. Selected Rafter revision: '' @ version @ ''.'')),
       kv ''rows'' (PList (map (\<lambda>f. PDict (fst f)) found)), kv ''sync_probes'' probes,
       kv ''batch_p99_improvement_percent'' (PDict [kv ''min'' c, kv ''max'' d]),
       kv ''source_cases'' (PList (source_refs ''durable_replication'' (concat (map (\<lambda>(_, _, _, sources). sources) found))))])))))))))))"

definition storage_part :: "pyval \<Rightarrow> pydict \<Rightarrow> pydict res" where
  "storage_part stored s =
     (if stored = PNone then Inr s
      else bindE (is_value (item stored ''qualification'') (PStr ''passed'')) (\<lambda>passed.
        if passed then storage_comparison stored s
        else bindE (item stored ''qualification_errors'') (\<lambda>errors.
          Inr (put ''qualification_errors'' errors (concluded s ''mixed result'' ''The selected storage evidence failed normalization checks.'')))))"

definition reclamation_row :: "pyval \<Rightarrow> pydict res" where
  "reclamation_row r = mapE (\<lambda>(k, l). bindE (item_path r [k, l]) (\<lambda>v. Inr (kv l v)))
     [(''configuration'', ''retained_entries''), (''metrics'', ''managed_wal_bytes''), (''metrics'', ''managed_wal_files''),
      (''metrics'', ''reclamation_pause_p99_ms''), (''metrics'', ''reopen_ms''), (''verification'', ''recovery_verified''), (''verification'', ''physical_bound_verified'')]"

definition reclamation_passed :: "pyval \<Rightarrow> pyval \<Rightarrow> pydict \<Rightarrow> pydict res" where
  "reclamation_passed stored reclamation s =
     bindE (bindE (item reclamation ''records'') iter_of) (\<lambda>unsorted.
     bindE (sorted_by (\<lambda>r. bindE (item_path r [''configuration'', ''retained_entries'']) (\<lambda>k. Inr [k])) unsorted) (\<lambda>records.
     bindE (bindE (subscript (PList records) 0) (\<lambda>r. bindE (item_path r [''engine'', ''version'']) brief_version)) (\<lambda>version.
     bindE (mapE reclamation_row records) (\<lambda>rows.
     bindE (remove_label reclamation_label (put ''wal_reclamation'' (PDict [kv ''status'' (PStr ''passed''), kv ''source_revision'' (PStr version),
       kv ''rows'' (PList (map PDict rows)),
       kv ''conditions'' (PStr (''Three repeated component cycles at each retained suffix. Physical bounds and exact reopen are qualified; ''
         @ ''hosted-runner pause and reopen times are diagnostic only.''))]) s)) (\<lambda>s1.
     bindE (sources_of records) (\<lambda>sources.
     let s2 = put ''source_cases'' (PList ((case dict_get s1 ''source_cases'' PNone of PList l \<Rightarrow> l | _ \<Rightarrow> []) @ source_refs ''wal_reclamation'' sources)) s1 in
     Inr (if stored = PNone then put ''conditions'' (PStr (''Selected Rafter revision: '' @ version @ ''.''))
         (concluded s2 ''mixed result'' (''Combined WAL physical reclamation passed its 512/10k/100k retained-suffix component qualification; ''
           @ ''comparative persistence performance was not selected.''))
       else s2)))))))"

definition reclamation_part :: "pyval \<Rightarrow> pyval \<Rightarrow> pydict \<Rightarrow> pydict res" where
  "reclamation_part stored reclamation s =
     (if reclamation = PNone then Inr s
      else bindE (is_value (item reclamation ''qualification'') (PStr ''passed'')) (\<lambda>passed.
        if passed then reclamation_passed stored reclamation s
        else bindE (item reclamation ''qualification_errors'') (\<lambda>errors.
          let s1 = update_all s [kv ''status'' (PStr ''mixed result''),
            kv ''wal_reclamation'' (PDict [kv ''status'' (PStr ''failed''), kv ''qualification_errors'' errors, kv ''rows'' (PList [])])] in
          Inr (if stored = PNone then put ''result'' (PStr ''The selected WAL reclamation evidence failed normalization checks.'') s1 else s1))))"

definition storage_section :: "pyval \<Rightarrow> pyval \<Rightarrow> pydict res" where
  "storage_section stored reclamation =
     (if stored = PNone \<and> reclamation = PNone then Inr storage_base
      else bindE (storage_part stored storage_base) (reclamation_part stored reclamation))"

section \<open>Earlier runs\<close>

text \<open>\<open>re.search(r"(\d{11})", directory)\<close> and \<open>Path(directory).name\<close>\<close>

fun run_number :: "string \<Rightarrow> string option" where
  "run_number [] = None"
| "run_number (c # cs) = (if 11 \<le> length (c # cs) \<and> list_all is_digit (take 11 (c # cs)) then Some (take 11 (c # cs)) else run_number cs)"

definition run_id :: "pyval \<Rightarrow> string res" where
  "run_id v = (case v of
     PStr s \<Rightarrow> Inr (case run_number s of Some r \<Rightarrow> r | None \<Rightarrow> path_name (path_parts s))
   | _ \<Rightarrow> raiseE TypeError (''expected string or bytes-like object, got '' @ quote (type_name v)))"

definition anomaly :: "nat \<Rightarrow> string \<Rightarrow> pyval \<Rightarrow> pydict list res" where
  "anomaly i run c =
     bindE (get c ''accounting'') (\<lambda>accounting. bindE (is_value (item c ''measurement_mode'') (PStr ''timing'')) (\<lambda>timing.
     if \<not> timing \<or> \<not> truthy accounting then Inr []
     else bindE (anyE (\<lambda>k. bindE (get_or accounting k (PInt 0)) (\<lambda>v. Inr (truthy v))) loss_keys) (\<lambda>lost.
       if \<not> lost then Inr []
       else bindE (mapE (\<lambda>(name, k). bindE (item c k) (\<lambda>v. Inr (kv name v))) [(''case'', ''source_case''), (''engine'', ''display_name''), (''workload'', ''workload'')]) (\<lambda>who.
         bindE (mapE (\<lambda>(name, k). bindE (item accounting k) (\<lambda>v. Inr (kv name v))) [(''errors'', ''errors''), (''unknown'', ''unknown''), (''unsent'', ''not_issued'')]) (\<lambda>what.
         Inr [[kv ''evidence'' (PStr (''history_'' @ nat_str (i + 1))), kv ''run'' (PStr run)] @ who @ what])))))"

definition history_anomalies :: "pyval list \<Rightarrow> pydict list res" where
  "history_anomalies histories =
     bindE (mapE (\<lambda>(i, history).
       bindE (bindE (item history ''directory'') run_id) (\<lambda>run.
       bindE (bindE (item history ''cases'') iter_of) (\<lambda>cs. bindE (mapE (anomaly i run) cs) (\<lambda>rows. Inr (concat rows))))) (List.enumerate 0 histories)) (\<lambda>rows.
     Inr (concat rows))"

section \<open>Failures and sustained operation\<close>

definition failure_base :: "pydict list \<Rightarrow> pydict" where
  "failure_base anomalies =
     [kv ''id'' (PStr ''failure-and-sustained-operation''), kv ''title'' (PStr ''Failure and sustained operation''),
      kv ''question'' (PStr ''Does performance remain useful during failures and over long runs?''),
      kv ''status'' (PStr ''not measured''), kv ''result'' (PStr ''Comparative fault performance has not been measured.''), kv ''checks'' (PList []),
      kv ''history'' (PList (map PDict anomalies)), kv ''reclamation_under_load'' PNone,
      kv ''not_measured'' (PList (map PStr [''comparative leader-loss performance'', ''comparative slow-follower performance'',
        ''storage-stall recovery performance'', ''long-duration snapshot/compaction and WAL-reclamation soak performance''])),
      kv ''source_cases'' (PList [])]"

text \<open>\<open>(case.get(name) or {}).get("status") == "passed"\<close>\<close>

definition entry_passed :: "string \<Rightarrow> pyval \<Rightarrow> bool res" where
  "entry_passed name c = bindE (get c name) (\<lambda>v. is_value (get (py_or v (PDict [])) ''status'') (PStr ''passed''))"

definition check_row :: "string \<Rightarrow> nat \<Rightarrow> string \<Rightarrow> pyval" where
  "check_row name n scope = PDict [kv ''name'' (PStr name), kv ''passed_cases'' (PInt (int n)), kv ''scope'' (PStr scope)]"

definition snapshot_catchup_case :: "pyval \<Rightarrow> bool res" where
  "snapshot_catchup_case c =
     bindE (get c ''smoke'') (\<lambda>smoke. if \<not> truthy smoke then Inr False
     else andE (is_value (bindE (item c ''workload'') (\<lambda>w. get w ''scenario'')) (PStr ''snapshot-catchup'')) (entry_passed ''snapshot_reclamation'' c))"

definition passed_catchup_smoke :: "pyval \<Rightarrow> bool res" where
  "passed_catchup_smoke smoke = andE (is_value (item smoke ''scenario'') (PStr ''snapshot-catchup'')) (is_value (item smoke ''status'') (PStr ''passed''))"

definition smoke_row :: "pyval \<Rightarrow> pyval res" where
  "smoke_row smoke = bindE (pick smoke [''scenario'', ''status'']) (\<lambda>d. Inr (PDict d))"

definition reclamation_text :: "pyval \<Rightarrow> string" where
  "reclamation_text assessment =
     (if \<not> is_assessment assessment then ''WAL reclamation under complete-service traffic is missing its replayed assessment''
      else if dict_get (dict_of assessment) ''status'' PNone = PStr ''passed'' then ''WAL reclamation under complete-service traffic met its predeclared objectives''
      else ''WAL reclamation under complete-service traffic missed at least one predeclared objective'')"

record failure_parts =
  fp_checks :: "pyval list"
  fp_sources :: "pyval list"
  fp_texts :: "string list"
  fp_assessment :: pyval

definition durable_failures :: "pyval \<Rightarrow> failure_parts \<Rightarrow> failure_parts res" where
  "durable_failures durable p =
     bindE (bindE (item durable ''cases'') iter_of) (\<lambda>cs.
     bindE (filterE (entry_passed ''recovery'') cs) (\<lambda>recovered. bindE (filterE (entry_passed ''history_check'') cs) (\<lambda>histories.
     bindE (bindE (item durable ''smokes'') iter_of) (\<lambda>smokes. bindE (mapE smoke_row smokes) (\<lambda>scenarios.
     bindE (filterE passed_catchup_smoke smokes) (\<lambda>catchups.
     bindE (if catchups = [] then Inr [] else filterE snapshot_catchup_case cs) (\<lambda>snapshot_cases.
     bindE (mapE (\<lambda>c. item c ''source_case'') cs) (\<lambda>sources.
     bindE (is_value (sub_get durable ''suite'' ''kind'' PNone) (PStr ''reclamation-under-load'')) (\<lambda>under_load.
     bindE (get durable ''reclamation_under_load'') (\<lambda>assessment.
     Inr \<lparr>fp_checks = fp_checks p @
         [check_row ''restart and acknowledged-canary checks'' (length recovered) ''finite histories and canaries, not every measured write or power loss'',
          check_row ''linearizable qualification histories'' (length histories) ''64-operation per-case qualification histories'',
          PDict [kv ''name'' (PStr ''Rafter recovery smoke''), kv ''scenarios'' (PList scenarios), kv ''scope'' (PStr ''smoke correctness only; not comparative performance'')]]
         @ (if catchups = [] then [] else [check_row ''complete-service snapshot catch-up smoke'' (length snapshot_cases)
           ''live writes, Raft snapshot and WAL reclamation, lagging-follower snapshot installation, and restart canaries; functional smoke only, not performance'']),
       fp_sources = source_refs ''durable_service'' sources @ fp_sources p,
       fp_texts = fp_texts p @ (if catchups = [] then [] else [''Complete-service snapshot catch-up smoke passed'']) @ [''Finite recovery checks passed'']
         @ (if under_load then [reclamation_text assessment] else []),
       fp_assessment = (if under_load \<and> is_assessment assessment then assessment else PNone)\<rparr>))))))))))"

definition reclamation_failures :: "pyval \<Rightarrow> failure_parts \<Rightarrow> failure_parts res" where
  "reclamation_failures reclamation p =
     (let name = ''WAL physical-reclamation component'' in
      bindE (is_value (item reclamation ''qualification'') (PStr ''passed'')) (\<lambda>passed.
      if passed then
        bindE (bindE (item reclamation ''records'') iter_of) (\<lambda>records. bindE (sources_of records) (\<lambda>sources.
        Inr (p\<lparr>fp_checks := fp_checks p @ [check_row name (length records)
            (''512, 10k, and 100k retained suffixes across repeated writes, snapshots, compaction, ''
              @ ''physical cleanup, and exact reopen; not complete-service traffic or latency evidence'')],
          fp_sources := fp_sources p @ source_refs ''wal_reclamation'' sources,
          fp_texts := fp_texts p @ [''WAL physical-reclamation component checks passed'']\<rparr>)))
      else
        bindE (bindE (bindE (item reclamation ''qualification_errors'') iter_of) (py_join ''; '')) (\<lambda>errors.
        Inr (p\<lparr>fp_checks := fp_checks p @ [check_row name 0 (''normalization failed: '' @ errors)],
          fp_texts := fp_texts p @ [''WAL physical-reclamation evidence failed normalization'']\<rparr>))))"

definition failure_section :: "pyval \<Rightarrow> pydict list \<Rightarrow> pyval \<Rightarrow> pydict res" where
  "failure_section durable anomalies reclamation =
     (if durable = PNone \<and> reclamation = PNone then Inr (failure_base anomalies)
      else
        bindE (mapE (\<lambda>a. bindE (pick (PDict a) [''evidence'', ''case'']) (\<lambda>d. Inr (PDict d))) anomalies) (\<lambda>sources.
        bindE ((if durable = PNone then Inr else durable_failures durable) \<lparr>fp_checks = [], fp_sources = sources, fp_texts = [], fp_assessment = PNone\<rparr>) (\<lambda>p.
        bindE ((if reclamation = PNone then Inr else reclamation_failures reclamation) p) (\<lambda>p.
        Inr (update_all (failure_base anomalies) [kv ''reclamation_under_load'' (fp_assessment p), kv ''status'' (PStr ''mixed result''),
          kv ''result'' (PStr (joined ''; '' (fp_texts p) @ ''; comparative fault and sustained-operation performance remain unmeasured.'')),
          kv ''checks'' (PList (fp_checks p)), kv ''source_cases'' (PList (fp_sources p))])))))"

section \<open>The report\<close>

record evidence =
  ev_durable :: pyval
  ev_storage :: pyval
  ev_reclamation :: pyval
  ev_micro :: pyval
  ev_histories :: "pyval list"

definition all_records :: "pyval list \<Rightarrow> pyval list res" where
  "all_records inputs = bindE (mapE (\<lambda>v. bindE (item v ''records'') iter_of) inputs) (\<lambda>rs. Inr (concat rs))"

definition replication_status :: "pyval list \<Rightarrow> string res" where
  "replication_status inputs =
     (if inputs = [] then Inr ''not measured''
      else bindE (anyE (\<lambda>v. bindE (is_value (item v ''qualification'') (PStr ''passed'')) (\<lambda>b. Inr (\<not> b))) inputs) (\<lambda>bad.
        Inr (if bad then ''failed'' else ''passed'')))"

text \<open>\<open>v[k] if v else default\<close>\<close>

definition entry_or :: "pyval \<Rightarrow> string \<Rightarrow> pyval \<Rightarrow> pyval res" where
  "entry_or v k dflt = (if truthy v then item v k else Inr dflt)"

definition replaced_by_load :: "pyval \<Rightarrow> bool res" where
  "replaced_by_load durable =
     (if durable = PNone then Inr False
      else andE (is_value (sub_get durable ''suite'' ''kind'' PNone) (PStr ''reclamation-under-load''))
        (bindE (get durable ''reclamation_under_load'') (\<lambda>v. Inr (v \<noteq> PNone))))"

definition plus_minus :: string where
  "plus_minus = [CHR 0xB1]"

definition build_summary :: "world \<Rightarrow> pyval \<Rightarrow> evidence \<Rightarrow> pyval \<Rightarrow> pyval \<Rightarrow> pydict res" where
  "build_summary w digest ev headline_variant headline_control_variant =
     bindE (history_anomalies (ev_histories ev)) (\<lambda>anomalies.
     bindE (service_section w (ev_durable ev) headline_variant headline_control_variant) (\<lambda>service.
     bindE (storage_section (ev_storage ev) (ev_reclamation ev)) (\<lambda>storage0.
     bindE (bindE (replaced_by_load (ev_durable ev)) (\<lambda>b. if b then remove_label traffic_label storage0 else Inr storage0)) (\<lambda>storage.
     bindE (consensus_section (ev_micro ev)) (\<lambda>consensus.
     bindE (failure_section (ev_durable ev) anomalies (ev_reclamation ev)) (\<lambda>failures.
     let inputs = filter (\<lambda>v. v \<noteq> PNone) [ev_storage ev, ev_reclamation ev] in
     bindE (all_records inputs) (\<lambda>replication_records.
     bindE (replication_status inputs) (\<lambda>replication.
     bindE (entry_or (ev_micro ev) ''records'' (PList [])) (\<lambda>memory_records.
     bindE (if truthy (ev_durable ev) then aggregate_durable w (ev_durable ev) else Inr []) (\<lambda>service_rows.
     bindE (entry_or (ev_micro ev) ''qualification'' (PStr ''not measured'')) (\<lambda>memory_status.
     bindE (entry_or (ev_durable ev) ''qualification'' (PStr ''not measured'')) (\<lambda>service_status.
     Inr [kv ''schema'' (PInt 2), kv ''title'' (PStr ''Rafter implementation performance''),
       kv ''principle'' (PStr ''Where Rafter demonstrably leads, where evidence is mixed, and what remains unmeasured.''),
       kv ''interpretation'' (PDict [kv ''roughly_level_percent'' (PFloat (Fl 3)),
         kv ''rule'' (PStr (''Differences within '' @ plus_minus @ ''3% are roughly level; comparisons fail closed across incompatible evidence.''))]),
       kv ''report_generator'' (PDict [kv ''source_digest'' digest, kv ''uses_llm'' (PBool False)]),
       kv ''evidence_status'' (PDict [kv ''consensus_in_memory'' memory_status, kv ''durable_replication'' (PStr replication), kv ''complete_durable_service'' service_status]),
       kv ''durable_service_verdicts'' (dict_get service ''verdicts'' PNone),
       kv ''normalized_results'' (PDict [kv ''consensus_in_memory'' memory_records, kv ''durable_replication'' (PList replication_records),
         kv ''complete_durable_service'' (PList (map PDict service_rows))]),
       kv ''sections'' (PList (map PDict [consensus, storage, service, failures]))]))))))))))))"

section \<open>What two sections say whatever was measured\<close>

text \<open>The status and the text of the storage comparison do not depend on the sign of the measured change, and
  the text of the failure section does not depend on the number of cases that recovered.\<close>

lemma storage_always_leads: "storage_comparison stored s = Inr t \<Longrightarrow> map_of t (KStr ''status'') = Some (PStr ''measured lead'')"
  unfolding storage_comparison_def Let_def by (auto simp: map_of_update_all split: prod.splits)

lemma recovery_always_passed: "durable_failures durable p = Inr q \<Longrightarrow> ''Finite recovery checks passed'' \<in> set (fp_texts q)"
  unfolding durable_failures_def by (auto simp del: py_eq.simps)

section \<open>The shape of a report\<close>

text \<open>The states that a section can report, references to source cases, and tables of rows.\<close>

definition section_statuses :: "string list" where
  "section_statuses = [''not measured'', ''pending qualification'', ''not comparable'', ''mixed result'', ''measured lead'', ''roughly level'',
     ''measured regression'', ''internal qualification'']"

definition is_status :: "pyval \<Rightarrow> bool" where
  "is_status v \<longleftrightarrow> (\<exists>s\<in>set section_statuses. v = PStr s)"

definition is_text :: "pyval \<Rightarrow> bool" where
  "is_text v \<longleftrightarrow> (\<exists>s. v = PStr s)"

definition is_refs :: "pyval \<Rightarrow> bool" where
  "is_refs v \<longleftrightarrow> (\<exists>l. v = PList l \<and> (\<forall>x\<in>set l. \<exists>evidence c. x = PDict [kv ''evidence'' (PStr evidence), kv ''case'' c]))"

definition has_entry :: "pydict \<Rightarrow> string \<Rightarrow> (pyval \<Rightarrow> bool) \<Rightarrow> bool" where
  "has_entry s k P \<longleftrightarrow> (\<exists>v. map_of s (KStr k) = Some v \<and> P v)"

definition section_type :: "(string \<times> (pyval \<Rightarrow> bool)) list" where
  "section_type = [(''status'', is_status), (''result'', is_text), (''source_cases'', is_refs)]"

definition typed :: "string \<Rightarrow> pydict \<Rightarrow> bool" where
  "typed name s \<longleftrightarrow> (\<forall>(k, P)\<in>set ((''id'', \<lambda>v. v = PStr name) # section_type). has_entry s k P)"

text \<open>An update keeps the type of a section when the entries it sets have theirs.\<close>

definition fits :: "pydict \<Rightarrow> bool" where
  "fits e \<longleftrightarrow> distinct (map fst e) \<and> map_of e (KStr ''id'') = None \<and> (\<forall>(k, P)\<in>set section_type. \<forall>v. map_of e (KStr k) = Some v \<longrightarrow> P v)"

named_theorems typing \<open>sections keep their type\<close>

lemma has_entry_update: "distinct (map fst e) \<Longrightarrow> has_entry s k P \<Longrightarrow> (\<And>v. map_of e (KStr k) = Some v \<Longrightarrow> P v) \<Longrightarrow> has_entry (update_all s e) k P"
  by (cases "map_of e (KStr k)") (auto simp: has_entry_def map_of_update_all)

lemma typed_update [typing]:
  assumes "typed name s" "fits e" shows "typed name (update_all s e)"
proof -
  have "has_entry (update_all s e) k P" if m: "(k, P) \<in> set ((''id'', \<lambda>v. v = PStr name) # section_type)" for k P
  proof (rule has_entry_update)
    show "distinct (map fst e)" using assms(2) by (simp add: fits_def)
    show "has_entry s k P" using assms(1) m unfolding typed_def by blast
    fix v assume v: "map_of e (KStr k) = Some v"
    then have "k \<noteq> ''id''" using assms(2) by (auto simp: fits_def)
    then have "(k, P) \<in> set section_type" using m by simp
    then show "P v" using assms(2) v unfolding fits_def by blast
  qed
  then show ?thesis unfolding typed_def by blast
qed

lemma fits_simps:
  "fits e \<longleftrightarrow> distinct (map fst e) \<and> map_of e (KStr ''id'') = None \<and> (\<forall>v. map_of e (KStr ''status'') = Some v \<longrightarrow> is_status v) \<and>
     (\<forall>v. map_of e (KStr ''result'') = Some v \<longrightarrow> is_text v) \<and> (\<forall>v. map_of e (KStr ''source_cases'') = Some v \<longrightarrow> is_refs v)"
  by (simp add: fits_def section_type_def)

lemma put_update: "put k v s = update_all s [kv k v]"
  by (simp add: put_def update_all_def)

lemma is_refs_source [simp]: "is_refs (PList (source_refs evidence cs))"
  by (auto simp: is_refs_def source_refs_def)

lemma is_refs_Nil [simp]: "is_refs (PList [])"
  by (simp add: is_refs_def)

lemma is_refs_append: "is_refs (PList (a @ b)) \<longleftrightarrow> is_refs (PList a) \<and> is_refs (PList b)"
  by (auto simp: is_refs_def)

lemma is_text_PStr [simp]: "is_text (PStr s)"
  by (simp add: is_text_def)

lemma typed_put [typing]: "typed name s \<Longrightarrow> fits [kv k v] \<Longrightarrow> typed name (put k v s)"
  by (simp add: put_update typing)

lemma typed_concluded [typing]: "typed name s \<Longrightarrow> status \<in> set section_statuses \<Longrightarrow> typed name (concluded s status result)"
  by (auto simp: concluded_def is_status_def fits_simps intro!: typing)

lemma typed_put_verdict [typing]: "typed name s \<Longrightarrow> typed name (put_verdict k v s)"
  by (auto simp: put_verdict_def fits_simps intro!: typing)

lemma typed_add_detail [typing]: "typed name s \<Longrightarrow> typed name (add_detail t s)"
  by (auto simp: add_detail_def fits_simps intro!: typing)

lemma typed_source: "typed name s \<Longrightarrow> is_refs (PList (case dict_get s ''source_cases'' PNone of PList l \<Rightarrow> l | _ \<Rightarrow> []))"
  by (auto simp: typed_def section_type_def has_entry_def dict_get_def is_refs_def)

lemma base_typed:
  "typed ''consensus-in-memory'' consensus_base" "typed ''durable-replication'' storage_base" "typed ''complete-durable-service'' service_base"
  "typed ''failure-and-sustained-operation'' (failure_base anomalies)"
  by (simp_all add: typed_def section_type_def has_entry_def is_status_def section_statuses_def consensus_base_def storage_base_def service_base_def failure_base_def)

section \<open>Every section has its type\<close>

lemma status_simps [simp]:
  "is_status (PStr ''not measured'')" "is_status (PStr ''not comparable'')" "is_status (PStr ''mixed result'')" "is_status (PStr ''measured lead'')"
  "is_status (PStr ''roughly level'')" "is_status (PStr ''measured regression'')" "is_status (PStr ''internal qualification'')"
  by (simp_all add: is_status_def section_statuses_def)

lemma status_mem [simp]:
  "''not comparable'' \<in> set section_statuses" "''mixed result'' \<in> set section_statuses" "''internal qualification'' \<in> set section_statuses"
  by (simp_all add: section_statuses_def)

lemma memory_result_typed: "typed name s \<Longrightarrow> memory_result s records n found = Inr t \<Longrightarrow> typed name t"
  unfolding memory_result_def Let_def by (auto simp: fits_simps memory_status_def intro!: typing)

lemma compared_memory_typed:
  assumes "typed name s" "compared_memory s records n = Inr t" shows "typed name t"
proof -
  have "typed name t" if "(case mapE memory_row workloads of
         Inl e \<Rightarrow> if class_of e = ValueError
           then Inr (add_detail (str_of e) (concluded s ''not comparable'' ''The selected in-memory measurements are not comparable.'')) else Inl e
       | Inr found \<Rightarrow> memory_result s records n found) = Inr t" for workloads
    using that assms(1) by (cases "mapE memory_row workloads") (auto split: if_splits intro!: typing dest: memory_result_typed)
  then show ?thesis using assms unfolding compared_memory_def by (auto split: if_splits intro!: typing simp del: mapE.simps)
qed

lemma consensus_typed:
  assumes "consensus_section micro = Inr s" shows "typed ''consensus-in-memory'' s"
proof (cases "micro = PNone")
  case True
  then show ?thesis using assms base_typed(1) by (auto simp: consensus_section_def intro!: typing)
next
  case False
  then obtain listed where l: "item micro ''records'' = Inr listed" using assms by (auto simp: consensus_section_def)
  show ?thesis
  proof (cases "truthy listed")
    case False
    then show ?thesis using assms \<open>micro \<noteq> PNone\<close> l base_typed(1) by (auto simp: consensus_section_def fits_simps intro!: typing)
  next
    case True
    obtain records boundaries reps sources passed where c: "(let s = update_all consensus_base [kv ''completion_boundaries'' (PList boundaries), kv ''source_cases'' (PList (source_refs ''consensus_in_memory'' sources))] in
          if \<not> passed then Inr (add_detail ''The selected evidence failed artifact verification.'' s)
          else if length boundaries \<noteq> 1 then
            Inr (add_detail ''Adapters record different leader-side completion boundaries, so no shared leaderboard is published.'' s)
          else bindE (py_min reps) (\<lambda>least_repetitions. bindE (py_lt least_repetitions (PInt MIN_MEMORY_REPETITIONS)) (\<lambda>few.
            if few then Inr (add_detail (''Selected evidence has '' @ joined '', '' (map py_str reps) @ '' repetitions; qualification requires at least ''
              @ int_str MIN_MEMORY_REPETITIONS @ ''.'') s)
            else compared_memory s records least_repetitions))) = Inr s"
      using assms \<open>micro \<noteq> PNone\<close> True l unfolding consensus_section_def Let_def by (simp only: if_False not_True_eq_False bindE_simps) (auto simp only: bindE_eq_Inr)
    have "typed ''consensus-in-memory'' (update_all consensus_base [kv ''completion_boundaries'' (PList boundaries), kv ''source_cases'' (PList (source_refs ''consensus_in_memory'' sources))])"
      using base_typed(1) by (auto simp: fits_simps intro!: typing)
    then show ?thesis using c unfolding Let_def by (auto split: if_splits intro!: typing dest: compared_memory_typed)
  qed
qed

lemma storage_comparison_typed: "typed name s \<Longrightarrow> storage_comparison stored s = Inr t \<Longrightarrow> typed name t"
  unfolding storage_comparison_def Let_def by (auto simp: fits_simps split: prod.splits intro!: typing)

lemma storage_part_typed: "typed name s \<Longrightarrow> storage_part stored s = Inr t \<Longrightarrow> typed name t"
  unfolding storage_part_def by (auto simp: fits_simps split: if_splits intro!: typing dest: storage_comparison_typed)

lemma remove_label_typed: "typed name s \<Longrightarrow> remove_label label s = Inr t \<Longrightarrow> typed name t"
  unfolding remove_label_def by (auto simp: fits_simps attr_error_def split: if_splits pyval.splits intro!: typing)

lemma reclamation_part_typed:
  assumes "typed name s" "reclamation_part stored reclamation s = Inr t" shows "typed name t"
proof -
  have "typed name t" if p: "reclamation_passed stored reclamation s = Inr t"
  proof -
    obtain label v s1 sources version where r: "remove_label label (put ''wal_reclamation'' v s) = Inr s1"
      "t = (let s2 = put ''source_cases'' (PList ((case dict_get s1 ''source_cases'' PNone of PList l \<Rightarrow> l | _ \<Rightarrow> []) @ source_refs ''wal_reclamation'' sources)) s1 in
        if stored = PNone then put ''conditions'' (PStr (''Selected Rafter revision: '' @ version @ ''.''))
         (concluded s2 ''mixed result'' (''Combined WAL physical reclamation passed its 512/10k/100k retained-suffix component qualification; ''
           @ ''comparative persistence performance was not selected.'')) else s2)"
      using p unfolding reclamation_passed_def Let_def bindE_eq_Inr by blast
    have "typed name s1" by (rule remove_label_typed [OF _ r(1)]) (auto simp: fits_simps assms(1) intro!: typing)
    then show ?thesis unfolding r(2) Let_def by (auto simp: fits_simps is_refs_append typed_source intro!: typing)
  qed
  then show ?thesis using assms unfolding reclamation_part_def Let_def by (auto simp: fits_simps split: if_splits intro!: typing)
qed

lemma storage_section_typed:
  assumes "storage_section stored reclamation = Inr s" shows "typed ''durable-replication'' s"
  using assms base_typed(2) unfolding storage_section_def by (auto split: if_splits dest: storage_part_typed reclamation_part_typed)

section \<open>The service section\<close>

lemma service_start_typed:
  assumes "service_start durable = Inr s" shows "typed ''complete-durable-service'' s"
proof -
  obtain verdicts load repository where
    f: "foldE (copy_verdict verdicts) (put ''measured_load_context'' (PDict load) (put ''benchmark_repository'' repository service_base)) recorded_verdict_names = Inr s"
    using assms unfolding service_start_def bindE_eq_Inr by blast
  show ?thesis
    by (rule foldE_preserve [where P = "typed ''complete-durable-service''", OF f])
      (auto simp: copy_verdict_def fits_simps base_typed split: if_splits intro!: typing)
qed

lemma reclamation_service_typed: "typed name s \<Longrightarrow> reclamation_service durable s = Inr t \<Longrightarrow> typed name t"
  unfolding reclamation_service_def Let_def
  by (auto simp: fits_simps simp del: py_eq.simps split: if_splits intro!: typing)

lemma objective_of_capacity_typed: "typed name s \<Longrightarrow> objective_of_capacity capacity selected s = Inr t \<Longrightarrow> typed name t"
  unfolding objective_of_capacity_def by (auto split: if_splits intro!: typing)

text \<open>A capacity summary has the entries that a section without standard points copies from it.\<close>

lemma capacity_object_typed:
  "is_status (dict_get (capacity_object (capacity_status orders) result b v rows (source_refs e cs)) ''status'' PNone)"
  "is_status (dict_get (capacity_object ''not measured'' result b v rows (source_refs e cs)) ''status'' PNone)"
  "is_text (dict_get (capacity_object status result b v rows (source_refs e cs)) ''result'' PNone)"
  "is_refs (dict_get (capacity_object status result b v rows (source_refs e cs)) ''source_cases'' d)"
  by (simp_all add: capacity_object_def dict_get_def capacity_status_def)

lemma capacity_summary_typed:
  assumes "capacity_summary rows candidate control = Inr c"
  shows "is_status (dict_get c ''status'' PNone) \<and> is_text (dict_get c ''result'' PNone) \<and> is_refs (dict_get c ''source_cases'' d)"
  using assms unfolding capacity_summary_def
  by (auto simp: capacity_object_typed split: if_splits prod.splits)

lemma capacity_only_typed:
  assumes "typed name s" "capacity_only s sel = Inr t" "capacity_summary rows candidate control = Inr (sel_capacity sel)"
  shows "typed name t"
  using assms(1,2) capacity_summary_typed [OF assms(3)] unfolding capacity_only_def
  by (auto simp: fits_simps split: if_splits intro!: typing)

lemma headline_typed:
  assumes "typed name s" "headline rows s sel found = Inr t" "capacity_summary rows' candidate control = Inr (sel_capacity sel)"
  shows "typed name t"
proof -
  obtain accounting sources a b c d e f g where r: "iter_of (dict_get (sel_capacity sel) ''source_cases'' (PList [])) = Inr sources"
    "t = update_all s [kv ''status'' (PStr (service_status accounting (map fst found))), kv ''result'' (PStr a), kv ''headline_qualified'' b, kv ''conditions'' c,
       kv ''selected_configuration'' d, kv ''rows'' e, kv ''accounting'' f, kv ''internal_comparisons'' g,
       kv ''source_cases'' (PList (source_refs ''durable_service'' (concat (map snd found)) @ sources))]"
    using assms(2) unfolding headline_def Let_def bindE_eq_Inr by blast
  have "is_refs (dict_get (sel_capacity sel) ''source_cases'' (PList []))" using capacity_summary_typed [OF assms(3)] by simp
  then have "is_refs (PList sources)" using r(1) by (auto simp: is_refs_def iter_of_def)
  then show ?thesis unfolding r(2) using assms(1) by (auto simp: fits_simps is_refs_append service_status_def intro!: typing)
qed

lemma selected_section_typed:
  assumes "typed name s" "selected_section durable rows s selected control priors = Inr t"
  shows "typed name t"
proof -
  obtain capacity s1 delays complete own others configuration condition where
    c: "capacity_summary rows selected control = Inr capacity" "objective_of_capacity capacity selected (put ''capacity'' (PDict capacity) s) = Inr s1"
      "(let sel = \<lparr>sel_variant = selected, sel_control = control, sel_priors = priors, sel_capacity = capacity, sel_delays = delays,
         sel_candidates = own, sel_controls = others, sel_configuration = configuration, sel_condition = condition\<rparr> in
       if \<not> complete then capacity_only s1 sel else compared_section rows s1 sel) = Inr t"
    using assms(2) unfolding selected_section_def bindE_eq_Inr by blast
  have t: "typed name s1" by (rule objective_of_capacity_typed [OF _ c(2)]) (auto simp: fits_simps assms(1) intro!: typing)
  show ?thesis
    using c(3) capacity_only_typed [OF t, where rows = rows and candidate = selected and control = control]
      headline_typed [OF t, where rows' = rows and candidate = selected and control = control] t c(1)
    by (auto simp: Let_def compared_section_def split: if_splits sum.splits intro!: typing)
qed

lemma qualified_section_typed:
  assumes "typed name s" "qualified_section w durable s v c = Inr t" shows "typed name t"
  using assms unfolding qualified_section_def Let_def
  by (auto simp: fits_simps simp del: py_eq.simps split: if_splits prod.splits intro!: typing dest: selected_section_typed)

lemma service_section_typed:
  assumes "service_section w durable v c = Inr s" shows "typed ''complete-durable-service'' s"
  using assms base_typed(3) unfolding service_section_def
  by (auto split: if_splits dest: service_start_typed reclamation_service_typed qualified_section_typed)

section \<open>Failures\<close>

text \<open>The anomalies of earlier runs name their evidence by text.\<close>

definition names_evidence :: "pydict \<Rightarrow> bool" where
  "names_evidence a \<longleftrightarrow> (\<exists>e. map_of a (KStr ''evidence'') = Some (PStr e))"

lemma anomaly_named: "anomaly i run c = Inr l \<Longrightarrow> a \<in> set l \<Longrightarrow> names_evidence a"
  unfolding anomaly_def by (auto simp: names_evidence_def simp del: mapE.simps split: if_splits)

lemma history_anomalies_named:
  assumes "history_anomalies histories = Inr anomalies" "a \<in> set anomalies" shows "names_evidence a"
proof -
  obtain rows where r: "mapE (\<lambda>(i, history). bindE (bindE (item history ''directory'') run_id) (\<lambda>run.
       bindE (bindE (item history ''cases'') iter_of) (\<lambda>cs. bindE (mapE (anomaly i run) cs) (\<lambda>rows. Inr (concat rows))))) (List.enumerate 0 histories) = Inr rows"
    "anomalies = concat rows"
    using assms(1) unfolding history_anomalies_def bindE_eq_Inr by blast
  then obtain l where l: "l \<in> set rows" "a \<in> set l" using assms(2) by auto
  obtain h where "(case h of (i, history) \<Rightarrow> bindE (bindE (item history ''directory'') run_id) (\<lambda>run.
       bindE (bindE (item history ''cases'') iter_of) (\<lambda>cs. bindE (mapE (anomaly i run) cs) (\<lambda>rows. Inr (concat rows))))) = Inr l"
    using mapE_mem [OF r(1) l(1)] by blast
  then obtain i run cs ls where "mapE (anomaly i run) cs = Inr ls" "l = concat ls" by (cases h) auto
  then show ?thesis using l(2) by (auto dest!: mapE_mem intro: anomaly_named)
qed

lemma anomaly_sources:
  assumes "mapE (\<lambda>a. bindE (pick (PDict a) [''evidence'', ''case'']) (\<lambda>d. Inr (PDict d))) anomalies = Inr sources" "\<forall>a\<in>set anomalies. names_evidence a"
  shows "is_refs (PList sources)"
  using assms by (induction anomalies arbitrary: sources)
    (auto simp: is_refs_def pick_def names_evidence_def item_def split: option.splits)

lemma durable_failures_refs: "durable_failures durable p = Inr q \<Longrightarrow> is_refs (PList (fp_sources p)) \<Longrightarrow> is_refs (PList (fp_sources q))"
  unfolding durable_failures_def by (auto simp: is_refs_append simp del: py_eq.simps)

lemma reclamation_failures_refs: "reclamation_failures reclamation p = Inr q \<Longrightarrow> is_refs (PList (fp_sources p)) \<Longrightarrow> is_refs (PList (fp_sources q))"
  unfolding reclamation_failures_def Let_def by (auto simp: is_refs_append simp del: py_eq.simps split: if_splits)

lemma failure_section_typed:
  assumes "failure_section durable anomalies reclamation = Inr s" "\<forall>a\<in>set anomalies. names_evidence a"
  shows "typed ''failure-and-sustained-operation'' s"
  using assms base_typed(4) unfolding failure_section_def
  by (auto simp: fits_simps split: if_splits intro!: typing dest!: anomaly_sources durable_failures_refs reclamation_failures_refs)

section \<open>The report\<close>

text \<open>C26: A report has the shape its readers rely on. Whatever the evidence, a report that is built has exactly
  four sections in the fixed order; each carries its own identifier, a status that is one of the eight the
  report knows, a result that is text, and source cases that are references to an evidence set and a case.\<close>

theorem report_well_typed:
  assumes "build_summary w digest ev headline_variant headline_control_variant = Inr d"
  shows "\<exists>consensus replication service faults. dict_get d ''sections'' PNone = PList (map PDict [consensus, replication, service, faults]) \<and>
    typed ''consensus-in-memory'' consensus \<and> typed ''durable-replication'' replication \<and>
    typed ''complete-durable-service'' service \<and> typed ''failure-and-sustained-operation'' faults"
proof -
  obtain anomalies service storage0 b storage1 consensus faults schema title principle rule generator status verdicts results where
    c: "history_anomalies (ev_histories ev) = Inr anomalies" "service_section w (ev_durable ev) headline_variant headline_control_variant = Inr service"
      "storage_section (ev_storage ev) (ev_reclamation ev) = Inr storage0"
      "(if b then remove_label traffic_label storage0 else Inr storage0) = Inr storage1" "consensus_section (ev_micro ev) = Inr consensus"
      "failure_section (ev_durable ev) anomalies (ev_reclamation ev) = Inr faults"
      "d = [kv ''schema'' schema, kv ''title'' title, kv ''principle'' principle, kv ''interpretation'' rule, kv ''report_generator'' generator,
         kv ''evidence_status'' status, kv ''durable_service_verdicts'' verdicts, kv ''normalized_results'' results,
         kv ''sections'' (PList (map PDict [consensus, storage1, service, faults]))]"
    using assms unfolding build_summary_def Let_def bindE_eq_Inr by blast
  have "typed ''durable-replication'' storage1"
    using c(4) storage_section_typed [OF c(3)] by (auto split: if_splits dest: remove_label_typed)
  moreover have "typed ''failure-and-sustained-operation'' faults"
    by (rule failure_section_typed [OF c(6)]) (blast intro: history_anomalies_named [OF c(1)])
  moreover have "dict_get d ''sections'' PNone = PList (map PDict [consensus, storage1, service, faults])" by (simp add: c(7) dict_get_def)
  ultimately show ?thesis using consensus_typed [OF c(5)] service_section_typed [OF c(2)] by blast
qed

text \<open>A failed reclamation input and one earlier run in which an operation failed.\<close>

definition anomalous_evidence :: evidence where
  "anomalous_evidence = \<lparr>ev_durable = PNone, ev_storage = PNone,
     ev_reclamation = PDict [kv ''records'' (PList []), kv ''qualification'' (PStr ''failed''), kv ''qualification_errors'' (PList [PStr ''short''])],
     ev_micro = PNone,
     ev_histories = [PDict [kv ''directory'' (PStr ''earlier''),
       kv ''cases'' (PList [PDict [kv ''measurement_mode'' (PStr ''timing''), kv ''source_case'' (PInt 3), kv ''display_name'' (PStr ''r''), kv ''workload'' PNone,
         kv ''accounting'' (PDict [kv ''errors'' (PInt 1), kv ''unknown'' (PInt 0), kv ''not_issued'' (PInt 0)])]])]]\<rparr>"

lemma anomalous_built: "\<exists>d. build_summary w digest anomalous_evidence PNone PNone = Inr d"
  by (simp add: anomalous_evidence_def build_summary_def history_anomalies_def run_id_def path_parts_def path_name_def anomaly_def loss_keys_def is_value_def
      get_or_def item_def dict_get_def iter_of_def service_section_def storage_section_def storage_part_def reclamation_part_def replaced_by_load_def
      consensus_section_def failure_section_def pick_def reclamation_failures_def py_join_def all_records_def replication_status_def entry_or_def Let_def
      del: bindE_eq_Inr)

theorem report_well_typed_witness:
  "\<exists>d. build_summary suite_world PNone anomalous_evidence PNone PNone = Inr d \<and>
    (\<exists>consensus replication service faults. dict_get d ''sections'' PNone = PList (map PDict [consensus, replication, service, faults]) \<and>
      typed ''consensus-in-memory'' consensus \<and> typed ''durable-replication'' replication \<and>
      typed ''complete-durable-service'' service \<and> typed ''failure-and-sustained-operation'' faults)"
proof -
  obtain d where "build_summary suite_world PNone anomalous_evidence PNone PNone = Inr d" using anomalous_built by blast
  then show ?thesis using report_well_typed by blast
qed

end
