(* ===== verification/Protocol.thy ===== *)
theory Protocol
  imports Json
begin

text \<open>
  \<open>src/benchctl/protocol.py\<close>: the control-plane client. Requests and responses are JSON objects
  in frames with a length prefix of four bytes; \<open>complete_statuses\<close>, \<open>leader\<close> and \<open>execute\<close> poll
  the nodes until a deadline. The network, the clock and the JSON reader are parameters, collected
  in a record over a state type; a loop that never ends is the value \<open>None\<close>. The exceptions
  \<open>ConnectionError\<close> and \<open>socket.timeout\<close> are subclasses of \<open>OSError\<close>, as \<open>TimeoutError\<close> is.
\<close>

section \<open>Frames\<close>

definition MAX_FRAME :: nat where
  "MAX_FRAME = 8 * 1024 * 1024"

text \<open>\<open>struct.pack(">I", n)\<close> and \<open>struct.unpack(">I", header)\<close>\<close>

definition pack_u32 :: "nat \<Rightarrow> string" where
  "pack_u32 n = map (\<lambda>k. char_of (n div 256 ^ k)) [3, 2, 1, 0]"

definition unpack_u32 :: "string \<Rightarrow> nat" where
  "unpack_u32 header = foldl (\<lambda>n c. 256 * n + of_char c) 0 header"

definition frame :: "string \<Rightarrow> string" where
  "frame body = pack_u32 (length body) @ body"

text \<open>What arrives on a connection, in order: data in pieces of any size, or a failure. When
  nothing is left the peer has closed the connection.\<close>

datatype arrival = Data string | Broken pyexc

type_synonym socket = "arrival list"

fun recv :: "nat \<Rightarrow> socket \<Rightarrow> string res \<times> socket" where
  "recv n [] = (Inr [], [])"
| "recv n (Broken e # es) = (Inl e, es)"
| "recv n (Data bs # es) =
     (if bs = [] then recv n es
      else if length bs \<le> n then (Inr bs, es)
      else (Inr (take n bs), Data (drop n bs) # es))"

function exact :: "nat \<Rightarrow> string \<Rightarrow> socket \<Rightarrow> string res \<times> socket" where
  "exact number chunks sock =
     (if length chunks < number
      then (case recv (number - length chunks) sock of
          (Inl e, sock') \<Rightarrow> (Inl e, sock')
        | (Inr piece, sock') \<Rightarrow>
            if piece = [] then (raiseE OSError ''truncated frame'', sock') else exact number (chunks @ piece) sock')
      else (Inr chunks, sock))"
  by pat_completeness auto
termination by (relation "measure (\<lambda>(number, chunks, _). number - length chunks)") (auto simp: length_greater_0_conv [symmetric] simp del: length_greater_0_conv)

declare exact.simps [simp del]

definition has_status :: "pyval \<Rightarrow> bool" where
  "has_status r = (case r of PDict d \<Rightarrow> KStr ''status'' \<in> fst ` set d | _ \<Rightarrow> False)"

definition read_response :: "(string \<Rightarrow> pyval res) \<Rightarrow> socket \<Rightarrow> pyval res" where
  "read_response json_loads sock = (case exact 4 [] sock of
     (Inl e, _) \<Rightarrow> Inl e
   | (Inr header, sock') \<Rightarrow>
       let number = unpack_u32 header in
       bindE (raise_if (number > MAX_FRAME) ValueError ''response exceeds frame limit'') (\<lambda>_.
       bindE (fst (exact number [] sock')) (\<lambda>body.
       bindE (json_loads body) (\<lambda>response.
       bindE (raise_if (\<not> has_status response) ValueError ''malformed response'') (\<lambda>_. Inr response)))))"

section \<open>Requests\<close>

text \<open>\<open>json.loads\<close>, \<open>time.monotonic\<close>, \<open>time.sleep\<close>, and connecting to an address and sending a
  frame with a timeout, which gives what then arrives.\<close>

record 'n net =
  json_loads :: "string \<Rightarrow> pyval res"
  monotonic :: "'n \<Rightarrow> rat \<times> 'n"
  sleep :: "pyfloat \<Rightarrow> 'n \<Rightarrow> 'n"
  exchange :: "string \<times> int \<Rightarrow> pyfloat \<Rightarrow> string \<Rightarrow> 'n \<Rightarrow> socket res \<times> 'n"

text \<open>\<open>host, port = address.rsplit(":", 1)\<close>\<close>

definition is_bracket :: "char \<Rightarrow> bool" where
  "is_bracket c = (c = CHR ''['' \<or> c = CHR '']'')"

definition address_parts :: "string \<Rightarrow> (string \<times> int) res" where
  "address_parts address =
     (let port = rev (takeWhile (\<lambda>c. c \<noteq> CHR '':'') (rev address));
          host = rev (drop 1 (dropWhile (\<lambda>c. c \<noteq> CHR '':'') (rev address)))
      in bindE (raise_if (CHR '':'' \<notin> set address) ValueError ''not enough values to unpack (expected 2, got 1)'') (\<lambda>_.
         bindE (parse_int port) (\<lambda>n. Inr (rev (dropWhile is_bracket (rev (dropWhile is_bracket host))), n))))"

definition request :: "'n net \<Rightarrow> string \<Rightarrow> pyval \<Rightarrow> pyfloat \<Rightarrow> ('n, pyval) act" where
  "request env address payload timeout =
     bindA (liftA (bindE (json_dumps False payload) (\<lambda>encoded.
       bindE (raise_if (length encoded > MAX_FRAME) ValueError ''request exceeds frame limit'') (\<lambda>_.
       bindE (address_parts address) (\<lambda>parts. Inr (parts, encoded)))))) (\<lambda>(parts, encoded).
     bindA (exchange env parts timeout (frame encoded)) (\<lambda>sock.
     liftA (read_response (json_loads env) sock)))"

fun statuses :: "'n net \<Rightarrow> (int \<times> string) list \<Rightarrow> ('n, (int \<times> pyval) list) act" where
  "statuses env [] s = (Inr [], s)"
| "statuses env ((node, address) # nodes) s =
     (case request env address (PDict [kv ''op'' (PStr ''status'')]) (Fl (1 / 2)) s of
        (Inl e, s') \<Rightarrow> if class_of e \<in> {OSError, TimeoutError, ValueError} then statuses env nodes s' else (Inl e, s')
      | (Inr r, s') \<Rightarrow> bindA (statuses env nodes) (\<lambda>rows. liftA (Inr ((node, r) # rows))) s')"

section \<open>Polling\<close>

text \<open>\<open>while time.monotonic() < deadline: ...; time.sleep(pause)\<close>: a pass of the body returns from the
  loop with a left value or goes on with a right one.\<close>

partial_function (option) poll ::
  "'n net \<Rightarrow> pyfloat \<Rightarrow> pyfloat \<Rightarrow> ('a \<Rightarrow> ('n, 'b + 'a) act) \<Rightarrow> 'a \<Rightarrow> 'n \<Rightarrow> (('b + 'a) res \<times> 'n) option" where
  "poll env deadline pause body acc s =
     (case monotonic env s of (t, s1) \<Rightarrow>
      if f_lt (Fl t) deadline
      then (case body acc s1 of
          (Inl e, s2) \<Rightarrow> Some (Inl e, s2)
        | (Inr (Inl x), s2) \<Rightarrow> Some (Inr (Inl x), s2)
        | (Inr (Inr acc'), s2) \<Rightarrow> poll env deadline pause body acc' (sleep env pause s2))
      else Some (Inr (Inr acc), s1))"

text \<open>\<open>deadline = time.monotonic() + timeout\<close>, then the loop, then what follows it.\<close>

definition poll_until ::
  "'n net \<Rightarrow> pyfloat \<Rightarrow> pyfloat \<Rightarrow> (pyfloat \<Rightarrow> 'a \<Rightarrow> ('n, 'b + 'a) act) \<Rightarrow> 'a \<Rightarrow> ('a \<Rightarrow> 'b res) \<Rightarrow> 'n \<Rightarrow> ('b res \<times> 'n) option" where
  "poll_until env timeout pause body acc expired s =
     (case monotonic env s of (t, s1) \<Rightarrow>
      let deadline = f_add (Fl t) timeout in
      map_option (\<lambda>(r, s2). (bindE r (case_sum Inr expired), s2)) (poll env deadline pause (body deadline) acc s1))"

definition valid_status :: "int \<times> pyval \<Rightarrow> bool res" where
  "valid_status = (\<lambda>(node, response).
     bindE (get response ''status'') (\<lambda>status.
     if \<not> py_eq status (PStr ''ok'') then Inr False
     else bindE (get_or response ''info'' (PDict [])) (\<lambda>info. bindE (get info ''node_id'') (\<lambda>i. Inr (py_eq i (PInt node))))))"

definition invalid_status :: "int \<times> pyval \<Rightarrow> bool res" where
  "invalid_status row = bindE (valid_status row) (\<lambda>b. Inr (\<not> b))"

definition status_pass :: "'n net \<Rightarrow> (int \<times> string) list \<Rightarrow> pyfloat \<Rightarrow> (int \<times> pyval) list \<Rightarrow> ('n, (int \<times> pyval) list + (int \<times> pyval) list) act" where
  "status_pass env nodes deadline observed =
     bindA (statuses env nodes) (\<lambda>rows.
     bindA (liftA (if fst ` set rows = fst ` set nodes then bindE (anyE invalid_status rows) (\<lambda>b. Inr (\<not> b)) else Inr False)) (\<lambda>complete.
     liftA (Inr (if complete then Inl rows else Inr rows))))"

definition missing_nodes :: "(int \<times> string) list \<Rightarrow> (int \<times> pyval) list \<Rightarrow> int list res" where
  "missing_nodes nodes observed =
     bindE (mapE (\<lambda>(node, _). case map_of observed node of
         None \<Rightarrow> Inr [node]
       | Some response \<Rightarrow> bindE (valid_status (node, response)) (\<lambda>b. Inr (if b then [] else [node]))) nodes) (\<lambda>rows.
     Inr (sort (concat rows)))"

definition complete_statuses :: "'n net \<Rightarrow> (int \<times> string) list \<Rightarrow> pyfloat \<Rightarrow> 'n \<Rightarrow> ((int \<times> pyval) list res \<times> 'n) option" where
  "complete_statuses env nodes timeout =
     poll_until env timeout (fl (5 / 100)) (status_pass env nodes) [] (\<lambda>observed.
       bindE (missing_nodes nodes observed) (\<lambda>missing.
       raiseE TimeoutError (''valid status observation did not include nodes '' @ py_repr (PList (map PInt missing)))))"

definition claims_leader :: "int \<times> pyval \<Rightarrow> bool res" where
  "claims_leader = (\<lambda>(node, r).
     bindE (get r ''status'') (\<lambda>status.
     if \<not> py_eq status (PStr ''ok'') then Inr False
     else bindE (get_or r ''info'' (PDict [])) (\<lambda>info. bindE (get info ''leader'') (\<lambda>l. Inr (truthy l)))))"

definition leader_pass :: "'n net \<Rightarrow> (int \<times> string) list \<Rightarrow> pyfloat \<Rightarrow> unit \<Rightarrow> ('n, int + unit) act" where
  "leader_pass env nodes deadline u =
     bindA (statuses env nodes) (\<lambda>rows.
     bindA (liftA (mapE (\<lambda>row. bindE (claims_leader row) (\<lambda>b. Inr (if b then [fst row] else []))) rows)) (\<lambda>candidates.
     liftA (Inr (case concat candidates of [node] \<Rightarrow> Inl node | _ \<Rightarrow> Inr ()))))"

definition leader :: "'n net \<Rightarrow> (int \<times> string) list \<Rightarrow> pyfloat \<Rightarrow> 'n \<Rightarrow> (int res \<times> 'n) option" where
  "leader env nodes timeout =
     poll_until env timeout (fl (5 / 100)) (leader_pass env nodes) () (\<lambda>_.
       raiseE TimeoutError ''no unique reported leader (a status observation is not a quorum proof)'')"

text \<open>The checks on one answer to an \<open>execute\<close> request: the result of the command, or an answer that
  settles nothing.\<close>

definition answer :: "pyval \<Rightarrow> (pyval + pyval) res" where
  "answer r =
     bindE (get r ''status'') (\<lambda>status. bindE (get r ''result'') (\<lambda>result.
     if py_eq status (PStr ''ok'') \<and> is_dict result
     then bindE (get result ''error'') (\<lambda>e. if truthy e then raiseE ValueError (py_str e) else Inr (Inl result))
     else if py_eq status (PStr ''error'')
     then bindE (get_or r ''detail'' (PStr ''application error'')) (\<lambda>detail. raiseE ValueError (py_str detail))
     else Inr (Inr r)))"

definition execute_payload :: "pyval \<Rightarrow> pyval" where
  "execute_payload command = PDict [kv ''op'' (PStr ''execute''), kv ''command'' command]"

fun execute_pass :: "'n net \<Rightarrow> pyval \<Rightarrow> string list \<Rightarrow> pyfloat \<Rightarrow> pyval \<Rightarrow> ('n, pyval + pyval) act" where
  "execute_pass env command [] deadline last_seen s = (Inr (Inr last_seen), s)"
| "execute_pass env command (address # addresses) deadline last_seen s =
     (case monotonic env s of (t, s1) \<Rightarrow>
      let remaining = f_sub deadline (Fl t) in
      if f_le remaining (Fl 0) then (Inr (Inr last_seen), s1)
      else case bindA (request env address (execute_payload command) (if f_lt remaining (Fl 1) then remaining else Fl 1)) (\<lambda>r. liftA (answer r)) s1 of
          (Inl e, s2) \<Rightarrow>
            if class_of e \<in> {OSError, TimeoutError} then execute_pass env command addresses deadline (PStr (str_of e)) s2 else (Inl e, s2)
        | (Inr (Inl result), s2) \<Rightarrow> (Inr (Inl result), s2)
        | (Inr (Inr r), s2) \<Rightarrow> execute_pass env command addresses deadline r s2)"

definition execute :: "'n net \<Rightarrow> (int \<times> string) list \<Rightarrow> pyval \<Rightarrow> pyfloat \<Rightarrow> 'n \<Rightarrow> (pyval res \<times> 'n) option" where
  "execute env nodes command timeout =
     poll_until env timeout (fl (2 / 100)) (execute_pass env command (map snd nodes)) PNone (\<lambda>last_seen.
       raiseE TimeoutError (''operation outcome unknown after retries: '' @ py_str last_seen))"

section \<open>Reading a stream\<close>

text \<open>The specification of \<open>exact\<close>: the bytes that arrive before the connection ends, and the exception
  it ends with; how they were split into pieces is forgotten.\<close>

fun arriving :: "socket \<Rightarrow> string \<times> pyexc" where
  "arriving [] = ([], PyExc OSError ''truncated frame'')"
| "arriving (Broken e # es) = ([], e)"
| "arriving (Data bs # es) = (bs @ fst (arriving es), snd (arriving es))"

lemma recv_arriving:
  assumes "0 < n"
  shows "case recv n sock of
     (Inl e, _) \<Rightarrow> arriving sock = ([], e)
   | (Inr piece, sock') \<Rightarrow> length piece \<le> n \<and> arriving sock = (piece @ fst (arriving sock'), snd (arriving sock')) \<and>
       (piece = [] \<longrightarrow> fst (arriving sock) = [] \<and> snd (arriving sock) = PyExc OSError ''truncated frame'')"
  using assms by (induction n sock rule: recv.induct) (auto split: sum.splits prod.splits)

lemma exact_arriving:
  assumes "length chunks \<le> number"
  shows "case exact number chunks sock of
     (Inr body, sock') \<Rightarrow> \<exists>piece. body = chunks @ piece \<and> length body = number \<and> arriving sock = (piece @ fst (arriving sock'), snd (arriving sock'))
   | (Inl e, _) \<Rightarrow> length chunks + length (fst (arriving sock)) < number \<and> snd (arriving sock) = e"
  using assms
proof (induction number chunks sock rule: exact.induct)
  case (1 number chunks sock)
  show ?case
  proof (cases "length chunks < number")
    case True
    obtain r sock' where r: "recv (number - length chunks) sock = (r, sock')" by fastforce
    note rec = recv_arriving [of "number - length chunks" sock, unfolded r]
    show ?thesis
    proof (cases r)
      case (Inl e)
      then show ?thesis using True rec r by (simp add: exact.simps [of number chunks])
    next
      case (Inr piece)
      have rec': "length piece \<le> number - length chunks" "arriving sock = (piece @ fst (arriving sock'), snd (arriving sock'))"
        "piece = [] \<longrightarrow> fst (arriving sock) = [] \<and> snd (arriving sock) = PyExc OSError ''truncated frame''" using True rec Inr by auto
      show ?thesis
      proof (cases "piece = []")
        case True
        then show ?thesis using rec'(3) r Inr \<open>length chunks < number\<close> by (simp add: exact.simps [of number chunks] raiseE_def)
      next
        case False
        have "length (chunks @ piece) \<le> number" using rec'(1) True by simp
        note ih = "1.IH" [OF True r [symmetric] Inr False this]
        show ?thesis using ih r Inr False True rec'(2)
          by (auto simp: exact.simps [of number chunks] split: sum.splits prod.splits)
      qed
    qed
  next
    case False
    then show ?thesis using 1 by (simp add: exact.simps [of number chunks])
  qed
qed

lemma exact_ok:
  assumes "number \<le> length (fst (arriving sock))"
  shows "\<exists>sock'. exact number [] sock = (Inr (take number (fst (arriving sock))), sock') \<and>
    arriving sock' = (drop number (fst (arriving sock)), snd (arriving sock))"
proof -
  obtain r sock' where r: "exact number [] sock = (r, sock')" by fastforce
  show ?thesis using exact_arriving [of "[]" number sock] assms by (cases r) (auto simp: r)
qed

lemma exact_truncated:
  assumes "length (fst (arriving sock)) < number"
  shows "\<exists>sock'. exact number [] sock = (Inl (snd (arriving sock)), sock')"
proof -
  obtain r sock' where r: "exact number [] sock = (r, sock')" by fastforce
  show ?thesis using exact_arriving [of "[]" number sock] assms by (cases r) (auto simp: r)
qed

lemma unpack_pack:
  assumes "n < 2 ^ 32" shows "unpack_u32 (pack_u32 n) = n"
proof -
  have d: "n = 256 * (n div 256) + n mod 256" "n div 256 = 256 * (n div 65536) + n div 256 mod 256"
    "n div 65536 = 256 * (n div 16777216) + n div 65536 mod 256"
    using mult_div_mod_eq [of 256 "n div 256"] mult_div_mod_eq [of 256 "n div 65536"] mult_div_mod_eq [of 256 n]
    by (simp_all add: div_mult2_eq [symmetric])
  have "n div 16777216 < 256" using assms by (simp add: less_mult_imp_div_less)
  then have "unpack_u32 (pack_u32 n) = 256 * (256 * (256 * (n div 16777216) + n div 65536 mod 256) + n div 256 mod 256) + n mod 256"
    by (simp add: unpack_u32_def pack_u32_def)
  also have "\<dots> = n" using d by (simp only: d(3) [symmetric] d(2) [symmetric] d(1) [symmetric])
  finally show ?thesis .
qed

lemma length_pack [simp]: "length (pack_u32 n) = 4"
  by (simp add: pack_u32_def)

lemma has_status_dict: "has_status r \<Longrightarrow> is_dict r"
  by (cases r) (simp_all add: has_status_def is_dict_def)

lemma read_response_body:
  assumes "fst (arriving sock) = frame body @ rest" "length body \<le> MAX_FRAME"
  shows "read_response loads sock = bindE (loads body) (\<lambda>r. bindE (raise_if (\<not> has_status r) ValueError ''malformed response'') (\<lambda>_. Inr r))"
proof -
  have n: "unpack_u32 (pack_u32 (length body)) = length body" using assms(2) by (intro unpack_pack) (simp add: MAX_FRAME_def)
  obtain sock1 where "exact 4 [] sock = (Inr (pack_u32 (length body)), sock1)" "fst (arriving sock1) = body @ rest"
    using exact_ok [of 4 sock] assms(1) by (auto simp: frame_def)
  moreover obtain sock2 where "exact (length body) [] sock1 = (Inr body, sock2)"
    using exact_ok [of "length body" sock1] calculation(2) by auto
  ultimately show ?thesis using n assms(2) by (simp add: read_response_def raise_if_def)
qed

lemma split_256:
  "(n :: nat) div 256 ^ 3 = n div 256 div 256 div 256" "n div 256 ^ 2 = n div 256 div 256" "(256 * n + of_char c) div 256 = n"
  by (simp_all add: div_mult2_eq [symmetric])

lemma last_byte: "char_of (256 * n + of_char c :: nat) = c"
  using char_of_mod_256 [of "256 * n + of_char c :: nat"] by simp

lemma read_response_frame:
  assumes "read_response loads sock = Inr r"
  shows "\<exists>body rest. fst (arriving sock) = frame body @ rest \<and> length body \<le> MAX_FRAME \<and> loads body = Inr r \<and> has_status r"
proof -
  let ?bs = "fst (arriving sock)"
  obtain header sock1 body sock2 where h: "exact 4 [] sock = (Inr header, sock1)" "unpack_u32 header \<le> MAX_FRAME"
      "exact (unpack_u32 header) [] sock1 = (Inr body, sock2)" "loads body = Inr r" "has_status r"
    using assms by (auto simp: read_response_def Let_def prod_eq_iff split: sum.splits prod.splits)
  have hd: "header = take 4 ?bs" "length header = 4" "fst (arriving sock1) = drop 4 ?bs"
    using exact_arriving [of "[]" 4 sock] h(1) by auto
  have bd: "length body = unpack_u32 header" "drop 4 ?bs = body @ fst (arriving sock2)"
    using exact_arriving [of "[]" "unpack_u32 header" sock1] h(3) hd(3) by auto
  obtain a b c d where abcd: "header = [a, b, c, d]" using hd(2) by (auto simp: numeral_eq_Suc length_Suc_conv)
  have "pack_u32 (unpack_u32 header) = header"
  proof -
    let ?n = "256 * (256 * (256 * of_char a + of_char b) + of_char c) + of_char d :: nat"
    have n: "unpack_u32 header = ?n" by (simp add: abcd unpack_u32_def)
    have "pack_u32 ?n = [a, b, c, d]" by (simp only: pack_u32_def list.map split_256 last_byte power_0 power_one_right div_by_1 char_of_char)
    then show ?thesis unfolding n by (simp only: abcd)
  qed
  then have "frame body @ fst (arriving sock2) = ?bs"
    using hd(1) bd by (metis append_take_drop_id append.assoc frame_def)
  then show ?thesis using h(2,4,5) bd(1) by metis
qed

section \<open>Time\<close>

text \<open>What the loops rely on: the clock does not go back while the network is used, and a pause of
  \<open>d\<close> seconds takes at least \<open>d\<close> seconds.\<close>

definition now :: "'n net \<Rightarrow> 'n \<Rightarrow> rat" where
  "now env s = fst (monotonic env s)"

definition advancing :: "'n net \<Rightarrow> bool" where
  "advancing env \<longleftrightarrow> (\<forall>s. now env s \<le> now env (snd (monotonic env s))) \<and> (\<forall>s d. now env s + d \<le> now env (sleep env (Fl d) s)) \<and>
     (\<forall>s parts timeout bytes. now env s \<le> now env (snd (exchange env parts timeout bytes s)))"

text \<open>The interface of a loop body that is polled: it does not turn the clock back. Every such loop
  ends, because each pause brings the deadline nearer.\<close>

locale polled =
  fixes body :: "'n net \<Rightarrow> pyfloat \<Rightarrow> 'a \<Rightarrow> ('n, 'b + 'a) act"
  assumes later: "advancing env \<Longrightarrow> now env s \<le> now env (snd (body env deadline acc s))"
begin

lemma poll_ends:
  assumes "advancing env" "0 < d" "deadline = Fl e"
  shows "\<exists>r. poll env deadline (Fl d) (body env deadline) acc s = Some r"
proof -
  obtain k :: nat where "e - now env s \<le> of_nat k * d" using real_arch_simple [of "(e - now env s) / d"] assms(2) by (auto simp: field_simps)
  then show ?thesis
  proof (induction k arbitrary: s acc)
    case 0
    obtain t s1 where "monotonic env s = (t, s1)" by fastforce
    with 0 show ?case by (subst poll.simps) (simp add: now_def assms(3))
  next
    case (Suc k)
    obtain t s1 where t: "monotonic env s = (t, s1)" by fastforce
    obtain r s2 where r: "body env deadline acc s1 = (r, s2)" by fastforce
    have "now env s \<le> now env s1" using assms(1) t unfolding advancing_def by (metis snd_conv)
    also have "\<dots> \<le> now env s2" using later [OF assms(1), of s1 deadline acc] r by simp
    also have "\<dots> \<le> now env (sleep env (Fl d) s2) - d" using assms(1) unfolding advancing_def by (metis le_diff_eq)
    finally have "e - now env (sleep env (Fl d) s2) \<le> of_nat k * d" using Suc.prems by (simp add: algebra_simps)
    then show ?case using Suc.IH by (subst poll.simps) (auto simp: t r split: sum.splits)
  qed
qed

lemma poll_until_ends:
  assumes "advancing env" "pause = Fl d" "0 < d" "is_finite (f_add (Fl (now env s)) timeout)"
  shows "\<exists>r. poll_until env timeout pause (body env) acc expired s = Some r"
proof -
  obtain t s1 where t: "monotonic env s = (t, s1)" by fastforce
  obtain e where e: "f_add (Fl t) timeout = Fl e" using assms(4) t by (auto simp: now_def elim: is_finite.elims)
  show ?thesis using poll_ends [OF assms(1,3) e, of acc s1] t assms(2) by (auto simp: poll_until_def)
qed

end

definition advances :: "'n net \<Rightarrow> ('n, 'a) act \<Rightarrow> bool" where
  "advances env m \<longleftrightarrow> (\<forall>s. now env s \<le> now env (snd (m s)))"

lemma advances_lift: "advances env (liftA r)"
  by (simp add: advances_def liftA_def)

lemma advances_bind: "advances env m \<Longrightarrow> (\<And>x. advances env (f x)) \<Longrightarrow> advances env (bindA m f)"
proof -
  assume m: "advances env m" "\<And>x. advances env (f x)"
  have "now env s \<le> now env (snd (bindA m f s))" for s
  proof -
    obtain r t where r: "m s = (r, t)" by fastforce
    have "now env s \<le> now env t" using m(1) r unfolding advances_def by (metis snd_conv)
    moreover have "now env t \<le> now env (snd (f x t))" for x using m(2) by (simp add: advances_def)
    ultimately show ?thesis by (cases r) (auto simp: bindA_def r intro: order_trans)
  qed
  then show ?thesis by (simp add: advances_def)
qed

lemma advances_step: "advances env m \<Longrightarrow> now env a \<le> now env s \<Longrightarrow> m s = (r, t) \<Longrightarrow> now env a \<le> now env t"
  unfolding advances_def by (metis order_trans snd_conv)

lemma advances_request: "advancing env \<Longrightarrow> advances env (request env address payload timeout)"
proof -
  assume "advancing env"
  then have x: "advances env (exchange env parts timeout bytes)" for parts bytes
    by (cases parts) (simp add: advancing_def advances_def)
  have "advances env (case p of (parts, encoded) \<Rightarrow> bindA (exchange env parts timeout (frame encoded)) (\<lambda>sock. liftA (read_response (json_loads env) sock)))" for p
    by (cases p) (simp add: advances_bind advances_lift x)
  then show ?thesis unfolding request_def by (intro advances_bind advances_lift)
qed

lemma advances_statuses: "advancing env \<Longrightarrow> advances env (statuses env nodes)"
proof (induction nodes)
  case Nil
  then show ?case by (simp add: advances_def)
next
  case (Cons n nodes)
  obtain node address where n: "n = (node, address)" by fastforce
  have rest: "advances env (bindA (statuses env nodes) (\<lambda>rows. liftA (Inr ((node, r) # rows))))" for r
    using Cons by (intro advances_bind advances_lift) simp
  show ?case unfolding advances_def
  proof
    fix s
    obtain r s' where r: "request env address (PDict [kv ''op'' (PStr ''status'')]) (Fl (1 / 2)) s = (r, s')" by fastforce
    have le: "now env s \<le> now env s'" using advances_request [OF Cons.prems] r unfolding advances_def by (metis snd_conv)
    then show "now env s \<le> now env (snd (statuses env (n # nodes) s))"
      using Cons.IH [OF Cons.prems] rest unfolding advances_def by (cases r) (auto simp: n r intro: order_trans)
  qed
qed

lemma advances_execute: "advancing env \<Longrightarrow> advances env (execute_pass env command addresses deadline last_seen)"
proof (induction addresses arbitrary: last_seen)
  case Nil
  then show ?case by (simp add: advances_def)
next
  case (Cons address addresses)
  show ?case unfolding advances_def
  proof
    fix s
    obtain t s1 where t: "monotonic env s = (t, s1)" by fastforce
    let ?attempt = "\<lambda>timeout. bindA (request env address (execute_payload command) timeout) (\<lambda>r. liftA (answer r))"
    have s1: "now env s \<le> now env s1" using Cons.prems t unfolding advancing_def by (metis snd_conv)
    obtain r s2 where r: "?attempt (if f_lt (f_sub deadline (Fl t)) (Fl 1) then f_sub deadline (Fl t) else Fl 1) s1 = (r, s2)" by fastforce
    have "now env s \<le> now env s2"
      by (rule advances_step [OF advances_bind [OF advances_request [OF Cons.prems] advances_lift] s1 r])
    then have "now env s \<le> now env (snd (execute_pass env command addresses deadline l s2))" for l
      using Cons.IH [OF Cons.prems] unfolding advances_def by (meson order_trans)
    then show "now env s \<le> now env (snd (execute_pass env command (address # addresses) deadline last_seen s))"
      using s1 \<open>now env s \<le> now env s2\<close> by (auto simp: t r Let_def split: sum.splits)
  qed
qed

interpretation status_loop: polled "\<lambda>env. status_pass env nodes" for nodes
proof unfold_locales
  fix env :: "'n net" and s deadline acc assume "advancing env"
  then have "advances env (status_pass env nodes deadline acc)"
    unfolding status_pass_def by (intro advances_bind advances_lift advances_statuses)
  then show "now env s \<le> now env (snd (status_pass env nodes deadline acc s))" by (simp add: advances_def)
qed

interpretation leader_loop: polled "\<lambda>env. leader_pass env nodes" for nodes
proof unfold_locales
  fix env :: "'n net" and s deadline acc assume "advancing env"
  then have "advances env (leader_pass env nodes deadline acc)"
    unfolding leader_pass_def by (intro advances_bind advances_lift advances_statuses)
  then show "now env s \<le> now env (snd (leader_pass env nodes deadline acc s))" by (simp add: advances_def)
qed

interpretation execute_loop: polled "\<lambda>env. execute_pass env command addresses" for command addresses
proof unfold_locales
  fix env :: "'n net" and s deadline acc assume "advancing env"
  then have "advances env (execute_pass env command addresses deadline acc)" by (rule advances_execute)
  then show "now env s \<le> now env (snd (execute_pass env command addresses deadline acc s))" by (simp add: advances_def)
qed

section \<open>What a poll returns\<close>

lemma poll_result:
  fixes env :: "'n net" and body :: "'a \<Rightarrow> ('n, 'b + 'a) act"
  assumes "poll env deadline pause body acc s = Some r" "fst r = Inr (Inl x)"
  shows "\<exists>acc1 s1 s2. body acc1 s1 = (Inr (Inl x), s2)"
proof -
  have "fst r = Inr (Inl x) \<longrightarrow> (\<exists>acc1 s1 s2. body acc1 s1 = (Inr (Inl x), s2))"
  proof (rule poll.raw_induct [OF _ assms(1)])
    fix poll' :: "'n net \<Rightarrow> pyfloat \<Rightarrow> pyfloat \<Rightarrow> ('a \<Rightarrow> ('n, 'b + 'a) act) \<Rightarrow> 'a \<Rightarrow> 'n \<Rightarrow> (('b + 'a) res \<times> 'n) option"
      and env deadline pause body acc s r
    assume ih: "\<And>env deadline pause body acc s r. poll' env deadline pause body acc s = Some r \<Longrightarrow>
        fst r = Inr (Inl x) \<longrightarrow> (\<exists>acc1 s1 s2. body acc1 s1 = (Inr (Inl x), s2))"
      and run: "(case monotonic env s of (t, s1) \<Rightarrow> if f_lt (Fl t) deadline
         then (case body acc s1 of (Inl e, s2) \<Rightarrow> Some (Inl e, s2) | (Inr (Inl x), s2) \<Rightarrow> Some (Inr (Inl x), s2)
           | (Inr (Inr acc'), s2) \<Rightarrow> poll' env deadline pause body acc' (sleep env pause s2))
         else Some (Inr (Inr acc), s1)) = Some r"
    obtain t s1 where t: "monotonic env s = (t, s1)" by fastforce
    obtain q s2 where q: "body acc s1 = (q, s2)" by fastforce
    consider e where "q = Inl e" | y where "q = Inr (Inl y)" | acc' where "q = Inr (Inr acc')" by (metis sumE)
    then show "fst r = Inr (Inl x) \<longrightarrow> (\<exists>acc1 s1 s2. body acc1 s1 = (Inr (Inl x), s2))"
    proof cases
      case 2
      then show ?thesis using run t q by (cases "f_lt (Fl t) deadline"; cases r) auto
    next
      case 3
      then show ?thesis using run t q ih by (auto split: if_splits)
    next
      case 1
      then show ?thesis using run t q by (cases "f_lt (Fl t) deadline"; cases r) auto
    qed
  qed
  then show ?thesis using assms(2) by blast
qed

lemma poll_until_result:
  assumes "poll_until env timeout pause body acc expired s = Some (Inr x, s')" "\<And>a y. expired a \<noteq> Inr y"
  shows "\<exists>deadline acc1 s1 s2. body deadline acc1 s1 = (Inr (Inl x), s2)"
proof -
  obtain deadline s0 r where r: "poll env deadline pause (body deadline) acc s0 = Some (r, s')" "bindE r (case_sum Inr expired) = Inr x"
    using assms(1) by (auto simp: poll_until_def Let_def split: prod.splits)
  then obtain y where y: "r = Inr y" "case_sum Inr expired y = Inr x" by auto
  then have "r = Inr (Inl x)" using assms(2) by (cases y) auto
  then show ?thesis using poll_result [OF r(1)] by auto
qed

text \<open>The status of a node as its row of an observation gives it: the answer of the node at its own
  address, \<open>ok\<close> and under the node's own id.\<close>

definition identified :: "'n net \<Rightarrow> (int \<times> string) list \<Rightarrow> int \<times> pyval \<Rightarrow> bool" where
  "identified env nodes = (\<lambda>(node, response).
     (\<exists>address s1 s2. (node, address) \<in> set nodes \<and>
        request env address (PDict [kv ''op'' (PStr ''status'')]) (Fl (1 / 2)) s1 = (Inr response, s2)) \<and>
     (\<exists>status info i. get response ''status'' = Inr status \<and> py_eq status (PStr ''ok'') \<and>
        get_or response ''info'' (PDict []) = Inr info \<and> get info ''node_id'' = Inr i \<and> py_eq i (PInt node)))"

lemma statuses_observed:
  assumes "statuses env nodes s = (Inr rows, t)" "(node, response) \<in> set rows"
  shows "\<exists>address s1 s2. (node, address) \<in> set nodes \<and>
    request env address (PDict [kv ''op'' (PStr ''status'')]) (Fl (1 / 2)) s1 = (Inr response, s2)"
  using assms
proof (induction nodes arbitrary: s rows t)
  case (Cons n nodes)
  obtain m address where n: "n = (m, address)" by fastforce
  obtain r s' where r: "request env address (PDict [kv ''op'' (PStr ''status'')]) (Fl (1 / 2)) s = (r, s')" by fastforce
  show ?case
  proof (cases r)
    case (Inl e)
    then show ?thesis using Cons.prems Cons.IH [of s' rows t] by (auto simp: n r split: if_splits)
  next
    case (Inr v)
    from Cons.prems have "bindA (statuses env nodes) (\<lambda>rows. liftA (Inr ((m, v) # rows))) s' = (Inr rows, t)" by (simp add: n r Inr)
    then obtain rows' u where w: "statuses env nodes s' = (Inr rows', u)" "rows = (m, v) # rows'" by (elim bindA_InrE) auto
    show ?thesis
    proof (cases "(node, response) \<in> set rows'")
      case True
      then show ?thesis using Cons.IH [OF w(1)] by (auto simp: n)
    next
      case False
      then have "node = m" "response = v" using Cons.prems w(2) by auto
      then show ?thesis using r Inr by (auto simp: n)
    qed
  qed
qed simp

lemma valid_status_identity:
  assumes "valid_status (node, response) = Inr True"
  shows "\<exists>status info i. get response ''status'' = Inr status \<and> py_eq status (PStr ''ok'') \<and>
    get_or response ''info'' (PDict []) = Inr info \<and> get info ''node_id'' = Inr i \<and> py_eq i (PInt node)"
  using assms by (auto simp: valid_status_def bindE_eq_Inr simp del: py_eq.simps split: if_splits)

lemma status_pass_identified:
  assumes "status_pass env nodes deadline acc s = (Inr (Inl rows), t)"
  shows "fst ` set rows = fst ` set nodes \<and> (\<forall>row\<in>set rows. identified env nodes row)"
proof -
  have "(\<exists>u v. statuses env nodes u = (Inr rows, v)) \<and> fst ` set rows = fst ` set nodes \<and> anyE invalid_status rows = Inr False"
    using assms unfolding status_pass_def by (elim bindA_InrE) (auto split: if_splits simp del: anyE.simps)
  then obtain u v where o: "statuses env nodes u = (Inr rows, v)" and f: "fst ` set rows = fst ` set nodes"
    and "anyE invalid_status rows = Inr False" by blast
  then have "\<forall>row\<in>set rows. valid_status row = Inr True"
    by (auto simp: anyE_eq_False invalid_status_def simp del: anyE.simps)
  then show ?thesis using f statuses_observed [OF o] valid_status_identity unfolding identified_def by blast
qed

lemma execute_pass_result:
  assumes "execute_pass env command addresses deadline last_seen s = (Inr (Inl result), t)"
  shows "\<exists>address\<in>set addresses. \<exists>timeout s1 s2 r. request env address (execute_payload command) timeout s1 = (Inr r, s2) \<and> answer r = Inr (Inl result)"
  using assms
proof (induction addresses arbitrary: last_seen s)
  case (Cons address addresses)
  obtain u s1 where u: "monotonic env s = (u, s1)" by fastforce
  define timeout where "timeout = (if f_lt (f_sub deadline (Fl u)) (Fl 1) then f_sub deadline (Fl u) else Fl 1)"
  obtain q s2 where q: "bindA (request env address (execute_payload command) timeout) (\<lambda>r. liftA (answer r)) s1 = (q, s2)" by fastforce
  have "q = Inr (Inl result) \<or> (\<exists>l. execute_pass env command addresses deadline l s2 = (Inr (Inl result), t))"
    using Cons.prems by (auto simp: u q timeout_def [symmetric] Let_def split: if_splits sum.splits)
  then show ?case
  proof
    assume "q = Inr (Inl result)"
    with q show ?thesis by (auto elim!: bindA_InrE)
  next
    assume "\<exists>l. execute_pass env command addresses deadline l s2 = (Inr (Inl result), t)"
    then obtain l where "execute_pass env command addresses deadline l s2 = (Inr (Inl result), t)" by blast
    from Cons.IH [OF this] show ?thesis by auto
  qed
qed simp

lemma answer_result:
  assumes "answer r = Inr (Inl result)"
  shows "get r ''status'' = Inr (PStr ''ok'') \<and> get r ''result'' = Inr result \<and> is_dict result \<and> (\<exists>e. get result ''error'' = Inr e \<and> \<not> truthy e)"
  using assms by (auto simp: answer_def split: if_splits)

section \<open>Properties\<close>

text \<open>C32: reading a frame refines reading a byte stream. However the network splits the bytes, \<open>exact\<close>
  returns the first bytes of the stream when there are enough and leaves the rest, and otherwise
  raises the exception that ended the stream.\<close>

theorem exact_refines_stream:
  "(number \<le> length (fst (arriving sock)) \<longrightarrow>
      (\<exists>sock'. exact number [] sock = (Inr (take number (fst (arriving sock))), sock') \<and>
         arriving sock' = (drop number (fst (arriving sock)), snd (arriving sock)))) \<and>
   (length (fst (arriving sock)) < number \<longrightarrow> (\<exists>sock'. exact number [] sock = (Inl (snd (arriving sock)), sock')))"
  using exact_ok exact_truncated by blast

theorem exact_refines_stream_witness:
  "(\<exists>sock'. exact 3 [] [Data ''a'', Data ''bcd''] = (Inr ''abc'', sock') \<and> fst (arriving sock') = ''d'') \<and>
   (\<exists>sock'. exact 5 [] [Data ''a'', Data ''bcd''] = (Inl (PyExc OSError ''truncated frame''), sock'))"
  using exact_refines_stream [of 3 "[Data ''a'', Data ''bcd'']"] exact_refines_stream [of 5 "[Data ''a'', Data ''bcd'']"] by auto

text \<open>C33: a response is accepted exactly when the stream starts with a frame of at most 8 MiB whose
  body is JSON text of an object with a status. In particular a response sent with the framing of
  requests is read back, and nothing else is.\<close>

theorem response_accepted_iff:
  "read_response loads sock = Inr r \<longleftrightarrow>
     (\<exists>body rest. fst (arriving sock) = frame body @ rest \<and> length body \<le> MAX_FRAME \<and> loads body = Inr r \<and> has_status r)"
proof
  assume "read_response loads sock = Inr r"
  then show "\<exists>body rest. fst (arriving sock) = frame body @ rest \<and> length body \<le> MAX_FRAME \<and> loads body = Inr r \<and> has_status r"
    by (rule read_response_frame)
next
  assume "\<exists>body rest. fst (arriving sock) = frame body @ rest \<and> length body \<le> MAX_FRAME \<and> loads body = Inr r \<and> has_status r"
  then show "read_response loads sock = Inr r" using read_response_body by (auto simp: raise_if_def)
qed

text \<open>C34: the polling loops always end. With a clock that does not go back and pauses that last as
  long as asked, waiting for statuses, for a leader and for the outcome of a command returns or
  raises, whatever the network does.\<close>

theorem polling_ends:
  assumes "advancing env" "is_finite (f_add (Fl (now env s)) timeout)"
  shows "(\<exists>r. complete_statuses env nodes timeout s = Some r) \<and> (\<exists>r. leader env nodes timeout s = Some r) \<and>
    (\<exists>r. execute env nodes command timeout s = Some r)"
proof -
  have pause: "fl (5 / 100) = Fl (rnd_pos (5 / 100))" "fl (2 / 100) = Fl (rnd_pos (2 / 100))"
    "0 < rnd_pos (5 / 100)" "0 < rnd_pos (2 / 100)" by code_simp+
  show ?thesis unfolding complete_statuses_def leader_def execute_def
    by (intro conjI status_loop.poll_until_ends [OF assms(1) pause(1,3) assms(2)] leader_loop.poll_until_ends [OF assms(1) pause(1,3) assms(2)]
        execute_loop.poll_until_ends [OF assms(1) pause(2,4) assms(2)])
qed

text \<open>A clock that counts the pauses, and a network that is down.\<close>

definition idle_net :: "rat net" where
  "idle_net = \<lparr>json_loads = (\<lambda>_. raiseE ValueError ''Expecting value''), monotonic = (\<lambda>t. (t, t)),
     sleep = (\<lambda>d t. case d of Fl x \<Rightarrow> t + \<bar>x\<bar> | _ \<Rightarrow> t), exchange = (\<lambda>_ _ _ t. (raiseE OSError ''Connection refused'', t))\<rparr>"

theorem polling_ends_witness:
  "advancing idle_net \<and> (\<exists>r. leader idle_net [(1, ''127.0.0.1:7001'')] (Fl 20) 0 = Some r)"
proof -
  have a: "advancing idle_net" by (simp add: advancing_def now_def idle_net_def abs_ge_self)
  have "is_finite (f_add (Fl (now idle_net 0)) (Fl 20))" by code_simp
  then show ?thesis using polling_ends [OF a] a by blast
qed

text \<open>C35: what the client returns was observed. A complete status observation has a row for every
  node and every row of it is the answer of that node at its own address, with status \<open>ok\<close> and
  the node's own id in it, and the result of a command is the result object of a node's
  \<open>ok\<close> answer without an error: an unknown outcome is never reported as a result.\<close>

theorem observations_sound:
  "(complete_statuses env nodes timeout s = Some (Inr rows, t) \<longrightarrow>
      fst ` set rows = fst ` set nodes \<and> (\<forall>row\<in>set rows. identified env nodes row)) \<and>
   (execute env nodes command timeout s = Some (Inr result, t) \<longrightarrow>
      (\<exists>(node, address)\<in>set nodes. \<exists>d s1 s2 r. request env address (execute_payload command) d s1 = (Inr r, s2) \<and>
         get r ''status'' = Inr (PStr ''ok'') \<and> get r ''result'' = Inr result \<and> (\<exists>e. get result ''error'' = Inr e \<and> \<not> truthy e)))"
proof (intro conjI impI)
  assume "complete_statuses env nodes timeout s = Some (Inr rows, t)"
  then obtain deadline acc s1 s2 where "status_pass env nodes deadline acc s1 = (Inr (Inl rows), s2)"
    unfolding complete_statuses_def by (drule_tac poll_until_result) auto
  from status_pass_identified [OF this] show "fst ` set rows = fst ` set nodes" "\<forall>row\<in>set rows. identified env nodes row" by blast+
next
  assume "execute env nodes command timeout s = Some (Inr result, t)"
  then obtain deadline acc s1 s2 where "execute_pass env command (map snd nodes) deadline acc s1 = (Inr (Inl result), s2)"
    unfolding execute_def by (drule_tac poll_until_result) auto
  from execute_pass_result [OF this] show "\<exists>(node, address)\<in>set nodes. \<exists>d s1 s2 r. request env address (execute_payload command) d s1 = (Inr r, s2) \<and>
      get r ''status'' = Inr (PStr ''ok'') \<and> get r ''result'' = Inr result \<and> (\<exists>e. get result ''error'' = Inr e \<and> \<not> truthy e)"
    using answer_result by fastforce
qed

text \<open>A network of one node that answers in two pieces.\<close>

definition sample_reply :: pyval where
  "sample_reply = PDict [kv ''status'' (PStr ''ok''), kv ''info'' (PDict [kv ''node_id'' (PInt 1)]), kv ''result'' (PDict [kv ''value'' (PStr ''v'')])]"

definition answering_net :: "unit net" where
  "answering_net = \<lparr>json_loads = (\<lambda>_. Inr sample_reply),
     monotonic = (\<lambda>u. (0, u)), sleep = (\<lambda>d u. u), exchange = (\<lambda>_ _ _ u. (Inr [Data (pack_u32 2), Data ''{}''], u))\<rparr>"

lemma answering_request:
  assumes "json_dumps False payload = Inr encoded" "length encoded \<le> MAX_FRAME"
  shows "request answering_net ''127.0.0.1:7001'' payload timeout u = (Inr sample_reply, u)"
proof -
  have "has_status sample_reply" by code_simp
  moreover have "fst (arriving [Data (pack_u32 2), Data ''{}'']) = frame ''{}'' @ []" by (simp add: frame_def numeral_2_eq_2)
  ultimately have "read_response (\<lambda>_. Inr sample_reply) [Data (pack_u32 2), Data ''{}''] = Inr sample_reply"
    using read_response_body [of "[Data (pack_u32 2), Data ''{}'']" "''{}''" "[]"] by (simp add: MAX_FRAME_def raise_if_def)
  moreover have "address_parts ''127.0.0.1:7001'' = Inr (''127.0.0.1'', 7001)" by code_simp
  ultimately show ?thesis using assms
    by (simp add: request_def answering_net_def bindA_def liftA_def raise_if_def)
qed

lemma answering_runs:
  "complete_statuses answering_net [(1, ''127.0.0.1:7001'')] (Fl 20) () = Some (Inr [(1, sample_reply)], ())"
  "execute answering_net [(1, ''127.0.0.1:7001'')] PNone (Fl 15) () = Some (Inr (PDict [kv ''value'' (PStr ''v'')]), ())"
proof -
  have "\<exists>e. json_dumps False (PDict [kv ''op'' (PStr ''status'')]) = Inr e \<and> length e = 15"
    "\<exists>e. json_dumps False (execute_payload PNone) = Inr e \<and> length e = 31"
    by (simp_all add: json_str_def json_char_def execute_payload_def)
  then have r: "request answering_net ''127.0.0.1:7001'' (PDict [kv ''op'' (PStr ''status'')]) t u = (Inr sample_reply, u)"
    "request answering_net ''127.0.0.1:7001'' (execute_payload PNone) t u = (Inr sample_reply, u)" for t u
    using answering_request by (auto simp: MAX_FRAME_def)
  have c: "monotonic answering_net u = (0, u)" for u by (simp add: answering_net_def)
  have f: "f_lt (Fl 0) (f_add (Fl 0) (Fl 20))" "f_lt (Fl 0) (f_add (Fl 0) (Fl 15))" "\<not> f_le (f_sub (f_add (Fl 0) (Fl 15)) (Fl 0)) (Fl 0)" by code_simp+
  have a: "anyE invalid_status [(1, sample_reply)] = Inr False" "answer sample_reply = Inr (Inl (PDict [kv ''value'' (PStr ''v'')]))" by code_simp+
  have "status_pass answering_net [(1, ''127.0.0.1:7001'')] d acc u = (Inr (Inl [(1, sample_reply)]), u)" for d acc u
    by (simp add: status_pass_def r a bindA_def liftA_def del: anyE.simps)
  then show "complete_statuses answering_net [(1, ''127.0.0.1:7001'')] (Fl 20) () = Some (Inr [(1, sample_reply)], ())"
    unfolding complete_statuses_def poll_until_def by (subst poll.simps) (simp add: c f)
  have "execute_pass answering_net PNone [''127.0.0.1:7001''] (f_add (Fl 0) (Fl 15)) acc u = (Inr (Inl (PDict [kv ''value'' (PStr ''v'')])), u)" for acc u
    using f(3) by (simp add: c r a bindA_def liftA_def Let_def)
  then show "execute answering_net [(1, ''127.0.0.1:7001'')] PNone (Fl 15) () = Some (Inr (PDict [kv ''value'' (PStr ''v'')]), ())"
    unfolding execute_def poll_until_def by (subst poll.simps) (simp add: c f)
qed

theorem observations_sound_witness:
  "\<exists>rows result. complete_statuses answering_net [(1, ''127.0.0.1:7001'')] (Fl 20) () = Some (Inr rows, ()) \<and> fst ` set rows = {1} \<and>
     (\<forall>row\<in>set rows. identified answering_net [(1, ''127.0.0.1:7001'')] row) \<and>
     execute answering_net [(1, ''127.0.0.1:7001'')] PNone (Fl 15) () = Some (Inr result, ()) \<and> (\<exists>e. get result ''error'' = Inr e \<and> \<not> truthy e)"
proof -
  let ?nodes = "[(1, ''127.0.0.1:7001'')] :: (int \<times> string) list"
  have "fst ` set [(1, sample_reply)] = fst ` set ?nodes \<and> (\<forall>row\<in>set [(1, sample_reply)]. identified answering_net ?nodes row)"
    using observations_sound [of answering_net ?nodes "Fl 20" "()" "[(1, sample_reply)]" "()"] answering_runs(1) by blast
  moreover have "\<exists>e. get (PDict [kv ''value'' (PStr ''v'')]) ''error'' = Inr e \<and> \<not> truthy e"
    using observations_sound [of answering_net ?nodes "Fl 15" "()" "[]" "()" PNone] answering_runs(2) by auto
  ultimately show ?thesis using answering_runs by fastforce
qed

end
