(* ===== verification/Spec2Isabelle.thy ===== *)
theory Spec2Isabelle
  imports Summary Protocol
begin

text \<open>
  Verification of the controller of the Raft benchmark suite (\<open>src/benchctl\<close>, Python).

  The program. The controller plans a suite of benchmark cases (\<open>suite_plan.py\<close>), runs each case
  against a three-node cluster that it drives over a framed JSON protocol (\<open>protocol.py\<close>), records
  what the load generator and the nodes report, derives receipts from the counters of the nodes
  (\<open>completion_priority.py\<close>, \<open>pipeline.py\<close>, \<open>replication_windows.py\<close>, \<open>reclamation_service.py\<close>,
  \<open>timelines.py\<close>, \<open>storage_footprint.py\<close>, \<open>machine.py\<close>), seals the directory with digests and later
  verifies it again from the raw files (\<open>evidence.py\<close>), including an independent check that the
  recorded history is linearizable (\<open>checker.py\<close>). Reports load verified directories
  (\<open>results.py\<close>, \<open>micro_report.py\<close>, \<open>feature_coverage.py\<close>), assess reclamation under load
  (\<open>reclamation_load.py\<close>), compare results (\<open>comparisons.py\<close>) and decide what may be claimed of them
  (\<open>summary.py\<close>). Nothing of this is trusted to the run that produced the files: every receipt is
  recomputed.

  Modelling. Values are those of \<open>json.loads\<close> (\<open>pyval\<close>), dictionaries association lists in insertion
  order, exceptions a sum type with their class and message, so that every \<open>raise\<close> and every
  \<open>except\<close> of the source is a branch. Code in a \<open>try\<close> block that changes local state is an action
  that keeps its state when it raises (\<open>act\<close>, \<open>tryA\<close>). Floats are exact binary64 numbers with
  correct rounding (\<open>pyfloat\<close>, \<open>fl\<close>). Directories are trees (\<open>fsnode\<close>). SHA-256, the JSON reader and
  writer, the clock of the search and its recursion depth are fields of the record \<open>world\<close>; sockets and
  the clock of the client are parameters of the definitions of \<open>Protocol\<close>.

  Theories, in the order of their imports:

  \<^item> \<open>Py_Float\<close>, \<open>Py_Prelude\<close>: floats, values, exceptions, loops, printing and equality. Rounding is
    monotone, exact on small integers and accurate to half a unit in the last place.
  \<^item> \<open>Linearizability\<close>, \<open>Checker\<close> (\<open>checker.py\<close>): an abstract notion of a linearizable history, and
    \<open>check_history\<close> with its validation, session check, bit-mask search, memo table and budget. A
    passed history is linearizable, a failed key is not, within its resources the checker decides,
    and any two operations of a client are ordered in time and number (C1 to C4); operations with unknown outcome are not dropped.
  \<^item> \<open>Suite_Plan\<close> (\<open>suite_plan.py\<close>): expansion of a declaration into cases, with the counter that the
    loops thread. Size, ordinals without gap, distinct names, balanced rotation of the arms (C6 to C8), declared load windows.
  \<^item> \<open>Accounting\<close> (\<open>evidence.py\<close>, \<open>loadgen/histogram.go\<close>): latency histograms and the accounting of a
    measurement. Accuracy of percentiles, merging, and what an accepted measurement guarantees (C10, C11,
    C13, C14).
  \<^item> \<open>Activity\<close> (\<open>completion_priority.py\<close>, \<open>pipeline.py\<close>, \<open>replication_windows.py\<close>),
    \<open>Reclamation_Service\<close>, \<open>Timelines\<close>: receipts as differences of counters. Receipts say exactly
    what the raw statuses say, also on nodes that restarted (C15 to C22).
  \<^item> \<open>Filesystem\<close>, \<open>Storage_Footprint\<close>, \<open>Machine\<close>, \<open>Sealing\<close>: captures of a directory, host
    qualification against an objective, the artifact index. Captures verify, a qualification passes
    exactly when all its limits hold, a sealed directory verifies and a change of it is noticed
    (C23 to C25, C27 to C29).
  \<^item> \<open>Micro_Report\<close>, \<open>Verify\<close> (\<open>micro_report.py\<close>, \<open>evidence.verify\<close>): the check of a whole run directory;
    what a passed check implies, for every receipt it recomputes and down to the linearizable history (C30).
  \<^item> \<open>Json\<close>, \<open>Comparisons\<close>: the canonical text of a value and the comparison of two results (C31).
  \<^item> \<open>Protocol\<close>: frames, requests and polling loops; the locale \<open>polled\<close> states what a polling pass
    owes to its loop and is interpreted for the three loops of the module. Reading refines the byte
    stream, loops end, statuses and results were observed on the nodes they are reported for (C32 to C35).
  \<^item> \<open>Feature_Coverage\<close>, \<open>Wal_Reclamation\<close>: coverage verdicts and the replay of WAL receipts (C36, C37).
  \<^item> \<open>Load_Readings\<close>, \<open>Load_Assessment\<close> (\<open>reclamation_load.py\<close>): the readers of a case and the assessment of
    candidates against the control of the same seed (C38); which exceptions the readers can raise, of which the
    assessment catches one class (C39).
  \<^item> \<open>Case_Results\<close>, \<open>Durable_Suite\<close> (\<open>results.py\<close>): the composition. A suite is loaded by verifying each
    case, deriving the plan again and replaying host qualification and assessment; a suite that
    qualifies consists of cases to which C30 applies (C40).
  \<^item> \<open>Aggregation\<close> (\<open>aggregate_durable\<close>): repetitions of one identity become one row. A qualified row holds
    exactly the verified repetitions of its identity with the median and the extremes that they attain, and no timing case
    is dropped (C5).
  \<^item> \<open>Py_Format\<close>, \<open>Capacity\<close>, \<open>Service_Section\<close>, \<open>Summary\<close> (\<open>summary.py\<close>): number formats, sets and sorting; the
    service objective and the highest rate that meets it; the headline; the four sections and
    \<open>build_summary\<close>. A reported capacity is a tested rate, and it holds in every repetition behind it and at every lower tested rate (C9), a
    qualified headline rests on complete comparable evidence without regression or loss (C12), and
    every report has the shape that its renderers read (C26).

  Bounds and fuel. Structural recursion or a measure is used wherever the source loops over data. The
  search of \<open>check_history\<close> carries the recursion limit of the interpreter and its budget of states, as
  the source does; C3 shows that it decides when they suffice. The polling loops of \<open>Protocol\<close> are partial
  functions whose value is \<open>None\<close> when they do not return; C34 proves that they do under a clock that
  advances.

  Bounds of the model. Strings are sequences of 8-bit characters. The sign of a floating-point zero
  is not represented, sorting follows the order of the values and leaves open where a NaN would go,
  and the variants of a suite are strings, as the plan makes them. The en dash of a report, which is no
  8-bit character, is written as its UTF-8 bytes. \<open>NotComparable\<close> is the class \<open>ValueError\<close> that it
  extends; the \<open>try\<close> blocks that catch it hold no other code that raises that class on loaded results.
  Comparison with \<open><\<close> is defined on numbers and strings and raises on lists, \<open>*\<close> is that of numbers (a string
  in its place, which every caller goes on to compare with a number, raises one step earlier), \<open>isdigit\<close> knows the ten
  decimal digits, and a capture starts at a directory that is not itself a link.

  Not modelled. Starting processes, sockets, threads, traffic control and the sampling of \<open>/proc\<close>
  (\<open>runner.py\<close>, \<open>cluster.py\<close>, \<open>network.py\<close>, \<open>load_sampling.py\<close>, \<open>microbench.py\<close>, \<open>paired.py\<close>, host
  functions of \<open>evidence.py\<close> and \<open>machine.py\<close>): effects on the operating system. Builds, dependency
  selection and the toolchain preflight (\<open>build.py\<close>, \<open>selection.py\<close>, \<open>doctor.py\<close>): they run compilers and git.
  Rendering of reports (\<open>render_markdown\<close>, \<open>render_html\<close> and \<open>generate\<close> of \<open>summary.py\<close>, \<open>report.py\<close>, the \<open>render\<close> and
  \<open>markdown\<close> functions elsewhere) and the command line (\<open>cli.py\<close>). Of \<open>results.py\<close> the loaders of in-memory
  reports and of the storage comparison. The Rust and Go programs, apart from the histogram of the load
  generator.
\<close>

end
